(* ===== verification/Prelude.thy ===== *)
theory Prelude
  imports Main "HOL-Library.Code_Target_Nat" "HOL-Library.Sublist"
begin

text \<open>
  What every component shares: the model of Rust's \<open>str\<close> as a list of Unicode scalar
  values with the \<open>std::str\<close> operations the sources call, results with panics as
  values, and list lemmas. Nothing here models a file of the repository, so the
  definitions have no entry in the map.
\<close>

section \<open>Lemma collections\<close>

named_theorems str_ops \<open>equations that evaluate the string operations\<close>
named_theorems list_facts \<open>facts on list segments and indexed loops\<close>

section \<open>Text\<close>

text \<open>
  A Rust \<open>char\<close> is a Unicode scalar value and a \<open>str\<close> a sequence of them; indices into a
  \<open>str\<close> are byte offsets, but every slice the modelled sources take starts and ends at
  a character they have just found, so the list position of that character stands for it.
  Byte lengths, where the sources compute with them, are \<open>str_len\<close>.
\<close>

type_synonym uchar = nat
type_synonym str = "uchar list"

definition lit :: "string \<Rightarrow> str" where
  "lit s = map of_char s"

abbreviation LF :: uchar where "LF \<equiv> 10"
abbreviation CR :: uchar where "CR \<equiv> 13"

text \<open>\<open>char::is_whitespace\<close>: the code points with the Unicode property White_Space.\<close>

definition is_whitespace :: "uchar \<Rightarrow> bool" where
  "is_whitespace c \<longleftrightarrow>
     (9 \<le> c \<and> c \<le> 13) \<or> c = 32 \<or> c = 133 \<or> c = 160 \<or> c = 5760
     \<or> (8192 \<le> c \<and> c \<le> 8202) \<or> c = 8232 \<or> c = 8233 \<or> c = 8239 \<or> c = 8287 \<or> c = 12288"

definition is_ascii_digit :: "uchar \<Rightarrow> bool" where
  "is_ascii_digit c \<longleftrightarrow> 48 \<le> c \<and> c \<le> 57"

definition to_ascii_lowercase_char :: "uchar \<Rightarrow> uchar" where
  "to_ascii_lowercase_char c = (if 65 \<le> c \<and> c \<le> 90 then c + 32 else c)"

definition to_ascii_lowercase :: "str \<Rightarrow> str" where
  "to_ascii_lowercase s = map to_ascii_lowercase_char s"

definition eq_ignore_ascii_case :: "str \<Rightarrow> str \<Rightarrow> bool" where
  "eq_ignore_ascii_case a b \<longleftrightarrow> to_ascii_lowercase a = to_ascii_lowercase b"

text \<open>\<open>char::len_utf8\<close> and \<open>str::len\<close> (bytes).\<close>

definition len_utf8 :: "uchar \<Rightarrow> nat" where
  "len_utf8 c = (if c < 128 then 1 else if c < 2048 then 2 else if c < 65536 then 3 else 4)"

definition str_len :: "str \<Rightarrow> nat" where
  "str_len s = sum_list (map len_utf8 s)"

text \<open>The bytes of a character and of a text (\<open>str::as_bytes\<close>).\<close>

definition utf8_char :: "uchar \<Rightarrow> nat list" where
  "utf8_char c =
     (if c < 128 then [c]
      else if c < 2048 then [192 + c div 64, 128 + c mod 64]
      else if c < 65536 then [224 + c div 4096, 128 + c div 64 mod 64, 128 + c mod 64]
      else [240 + c div 262144, 128 + c div 4096 mod 64, 128 + c div 64 mod 64, 128 + c mod 64])"

definition as_bytes :: "str \<Rightarrow> nat list" where
  "as_bytes s = concat (map utf8_char s)"

definition trim_start :: "str \<Rightarrow> str" where
  "trim_start s = dropWhile is_whitespace s"

definition trim_end_by :: "(uchar \<Rightarrow> bool) \<Rightarrow> str \<Rightarrow> str" where
  "trim_end_by P s = rev (dropWhile P (rev s))"

text \<open>\<open>str::trim_matches(char)\<close>.\<close>

definition trim_matches :: "uchar \<Rightarrow> str \<Rightarrow> str" where
  "trim_matches c s = trim_end_by (\<lambda>d. d = c) (dropWhile (\<lambda>d. d = c) s)"

definition trim_end :: "str \<Rightarrow> str" where
  "trim_end s = trim_end_by is_whitespace s"

definition trim :: "str \<Rightarrow> str" where
  "trim s = trim_end (trim_start s)"

fun strip_prefix :: "str \<Rightarrow> str \<Rightarrow> str option" where
  "strip_prefix [] s = Some s"
| "strip_prefix (p # ps) [] = None"
| "strip_prefix (p # ps) (c # s) = (if p = c then strip_prefix ps s else None)"

definition starts_with :: "str \<Rightarrow> str \<Rightarrow> bool" where
  "starts_with s p \<longleftrightarrow> strip_prefix p s \<noteq> None"

definition strip_suffix :: "str \<Rightarrow> str \<Rightarrow> str option" where
  "strip_suffix p s = map_option rev (strip_prefix (rev p) (rev s))"

definition ends_with :: "str \<Rightarrow> str \<Rightarrow> bool" where
  "ends_with s p \<longleftrightarrow> strip_suffix p s \<noteq> None"

text \<open>\<open>str::split(char)\<close> (always at least one piece) and its inverse \<open>join\<close>.\<close>

fun split_on :: "uchar \<Rightarrow> str \<Rightarrow> str list" where
  "split_on d [] = [[]]"
| "split_on d (c # s) =
     (if c = d then [] # split_on d s
      else case split_on d s of [] \<Rightarrow> [[c]] | l # ls \<Rightarrow> (c # l) # ls)"

text \<open>\<open>split\<close> at each element that satisfies a predicate, of a \<open>str\<close> or of a slice.\<close>

fun split_where :: "('a \<Rightarrow> bool) \<Rightarrow> 'a list \<Rightarrow> 'a list list" where
  "split_where P [] = [[]]"
| "split_where P (x # xs) =
     (if P x then [] # split_where P xs
      else case split_where P xs of [] \<Rightarrow> [[x]] | g # gs \<Rightarrow> (x # g) # gs)"

fun join :: "str \<Rightarrow> str list \<Rightarrow> str" where
  "join sep [] = []"
| "join sep [x] = x"
| "join sep (x # y # ys) = x @ sep @ join sep (y # ys)"

text \<open>\<open>str::split_inclusive('\n')\<close>: each piece keeps its newline, no empty last piece.\<close>

fun split_inclusive :: "uchar \<Rightarrow> str \<Rightarrow> str list" where
  "split_inclusive d [] = []"
| "split_inclusive d (c # s) =
     (if c = d then [c] # split_inclusive d s
      else case split_inclusive d s of
             [] \<Rightarrow> [[c]]
           | l # ls \<Rightarrow> (c # l) # ls)"

text \<open>\<open>str::lines\<close>: pieces of \<open>split_inclusive\<close> without their newline, or carriage return
  and newline; a carriage return without a newline stays.\<close>

definition strip_line_ending :: "str \<Rightarrow> str" where
  "strip_line_ending l =
     (case strip_suffix [LF] l of
        None \<Rightarrow> l
      | Some l' \<Rightarrow> (case strip_suffix [CR] l' of None \<Rightarrow> l' | Some l'' \<Rightarrow> l''))"

definition str_lines :: "str \<Rightarrow> str list" where
  "str_lines s = map strip_line_ending (split_inclusive LF s)"

text \<open>\<open>str::split_once(char)\<close>.\<close>

fun split_once :: "uchar \<Rightarrow> str \<Rightarrow> (str \<times> str) option" where
  "split_once d [] = None"
| "split_once d (c # s) =
     (if c = d then Some ([], s)
      else map_option (\<lambda>(a, b). (c # a, b)) (split_once d s))"

definition rsplit_once :: "uchar \<Rightarrow> str \<Rightarrow> (str \<times> str) option" where
  "rsplit_once d s = map_option (\<lambda>(b, a). (rev a, rev b)) (split_once d (rev s))"

text \<open>\<open>str::contains\<close> and \<open>str::find\<close> of a pattern.\<close>

fun str_find :: "str \<Rightarrow> str \<Rightarrow> nat option" where
  "str_find p [] = (if p = [] then Some 0 else None)"
| "str_find p (c # s) =
     (if starts_with (c # s) p then Some 0 else map_option Suc (str_find p s))"

definition str_contains :: "str \<Rightarrow> str \<Rightarrow> bool" where
  "str_contains s p \<longleftrightarrow> str_find p s \<noteq> None"

text \<open>Decimal rendering of an unsigned integer.\<close>

fun show_nat :: "nat \<Rightarrow> str" where
  "show_nat n = (if n < 10 then [48 + n] else show_nat (n div 10) @ [48 + n mod 10])"

declare show_nat.simps [simp del]

section \<open>Results and panics\<close>

text \<open>
  A fallible operation returns a sum, \<open>Inl\<close> for the error. Where the source can panic
  (an index out of range, an unsigned subtraction below zero) the error type is
  \<open>'e fault\<close>, so that not panicking is a property that can be stated and proved.
\<close>

datatype 'e fault = Panic | Failed 'e

fun bind_result :: "'e + 'a \<Rightarrow> ('a \<Rightarrow> 'e + 'b) \<Rightarrow> 'e + 'b" where
  "bind_result (Inl e) f = Inl e"
| "bind_result (Inr x) f = f x"

lemma bind_result_Inr_iff [simp]:
  "bind_result r f = Inr y \<longleftrightarrow> (\<exists>x. r = Inr x \<and> f x = Inr y)"
  by (cases r) auto

lemma bind_result_assoc:
  "bind_result (bind_result r f) g = bind_result r (\<lambda>x. bind_result (f x) g)"
  by (cases r) auto

text \<open>Unsigned subtraction of \<open>usize\<close>: below zero is a panic.\<close>

definition usize_sub :: "nat \<Rightarrow> nat \<Rightarrow> 'e fault + nat" where
  "usize_sub a b = (if b \<le> a then Inr (a - b) else Inl Panic)"

text \<open>The saturating operations of a 64-bit \<open>usize\<close> (and \<open>u64\<close>), which is a \<open>nat\<close>.\<close>

definition USIZE_MAX :: nat where "USIZE_MAX = 2 ^ 64 - 1"

definition sat_add :: "nat \<Rightarrow> nat \<Rightarrow> nat" where
  "sat_add a b = min (a + b) USIZE_MAX"

definition sat_mul :: "nat \<Rightarrow> nat \<Rightarrow> nat" where
  "sat_mul a b = min (a * b) USIZE_MAX"

text \<open>\<open>&xs[a..b]\<close>: a panic unless \<open>a \<le> b \<le> len\<close>.\<close>

definition slice :: "'a list \<Rightarrow> nat \<Rightarrow> nat \<Rightarrow> 'e fault + 'a list" where
  "slice xs a b = (if a \<le> b \<and> b \<le> length xs then Inr (take (b - a) (drop a xs)) else Inl Panic)"

text \<open>
  An \<open>io::Error\<close> is its kind and message; of the kinds the sources compare with
  \<open>NotFound\<close> and \<open>AlreadyExists\<close> and build \<open>InvalidInput\<close> and \<open>Other\<close>; \<open>Unlisted\<close> is any other.
\<close>

datatype io_error_kind = NotFound | AlreadyExists | InvalidInput | Other | Unlisted nat

record io_error =
  kind :: io_error_kind
  io_message :: str

section \<open>Lemmas on text\<close>

lemma dropWhile_idem [simp]: "dropWhile P (dropWhile P xs) = dropWhile P xs"
  by (induction xs) auto

lemma trim_start_Nil [simp]: "trim_start [] = []"
  by (simp add: trim_start_def)

lemma trim_start_Cons [simp]:
  "trim_start (c # s) = (if is_whitespace c then trim_start s else c # s)"
  by (simp add: trim_start_def)

lemma trim_start_idem [simp]: "trim_start (trim_start s) = trim_start s"
  by (simp add: trim_start_def)

lemma trim_end_Nil [simp]: "trim_end [] = []"
  by (simp add: trim_end_def trim_end_by_def)

lemma trim_end_by_Cons:
  "trim_end_by P (c # s) = (if trim_end_by P s = [] \<and> P c then [] else c # trim_end_by P s)"
proof (cases "\<forall>x \<in> set s. P x")
  case True
  then have "dropWhile P (rev s) = []" by simp
  with True show ?thesis by (auto simp: trim_end_by_def dropWhile_append)
next
  case False
  then have "dropWhile P (rev s) \<noteq> []" by simp
  with False show ?thesis by (auto simp: trim_end_by_def dropWhile_append)
qed

lemma trim_end_Cons [simp]:
  "trim_end (c # s) = (if trim_end s = [] \<and> is_whitespace c then [] else c # trim_end s)"
  by (simp add: trim_end_def trim_end_by_Cons)

lemma trim_end_idem [simp]: "trim_end (trim_end s) = trim_end s"
  by (simp add: trim_end_def trim_end_by_def)

lemma trim_end_snoc [simp]: "\<not> is_whitespace c \<Longrightarrow> trim_end (s @ [c]) = s @ [c]"
  by (simp add: trim_end_def trim_end_by_def)

lemma trim_start_trim_end: "trim_start (trim_end s) = trim_end (trim_start s)"
  by (induction s) auto

lemma trim_trim_end [simp]: "trim (trim_end s) = trim s"
  by (simp add: trim_def trim_start_trim_end)

lemma trim_end_trim [simp]: "trim_end (trim s) = trim s"
  by (simp add: trim_def)

lemma trim_idem [simp]: "trim (trim s) = trim s"
  by (simp add: trim_def trim_start_trim_end)

lemma trim_Nil [simp]: "trim [] = []"
  by (simp add: trim_def)

lemma trim_Cons_visible: "\<not> is_whitespace c \<Longrightarrow> trim (c # s) = c # trim_end s"
  by (simp add: trim_def)

lemma strip_prefix_append [simp]: "strip_prefix p (p @ s) = Some s"
  by (induction p) auto

lemma strip_prefix_Some_iff: "strip_prefix p s = Some t \<longleftrightarrow> s = p @ t"
  by (induction p s rule: strip_prefix.induct) auto

lemma strip_suffix_Some_iff: "strip_suffix p s = Some t \<longleftrightarrow> s = t @ p"
  unfolding strip_suffix_def
  by (auto simp: strip_prefix_Some_iff) (metis rev_append rev_rev_ident)+

lemma strip_suffix_snoc [simp]:
  "strip_suffix [d] (s @ [c]) = (if c = d then Some s else None)"
  by (auto simp: strip_suffix_def)

lemma strip_suffix_single_Nil [simp]: "strip_suffix [d] [] = None"
  by (simp add: strip_suffix_def)

lemma strip_suffix_single_None_iff:
  "strip_suffix [d] s = None \<longleftrightarrow> s = [] \<or> last s \<noteq> d"
  by (cases s rule: rev_cases) auto

lemma split_on_not_Nil [simp]: "split_on d s \<noteq> []"
  by (induction s) (auto split: list.splits)

lemma split_on_no_sep [simp]: "d \<notin> set s \<Longrightarrow> split_on d s = [s]"
  by (induction s) auto

lemma split_on_append_sep: "d \<notin> set l \<Longrightarrow> split_on d (l @ d # s) = l # split_on d s"
  by (induction l) (auto split: list.splits)

lemma join_Cons: "ls \<noteq> [] \<Longrightarrow> join sep (l # ls) = l @ sep @ join sep ls"
  by (cases ls) auto

lemma join_split_on: "join [d] (split_on d s) = s"
proof (induction s)
  case (Cons c s)
  then show ?case by (cases "split_on d s") (auto simp: join_Cons, cases "tl (split_on d s)", auto)
qed simp

lemma split_on_join:
  "ls \<noteq> [] \<Longrightarrow> \<forall>l \<in> set ls. d \<notin> set l \<Longrightarrow> split_on d (join [d] ls) = ls"
  by (induction "[d]" ls rule: join.induct) (auto simp: split_on_append_sep)

lemma split_on_no_sep_in: "l \<in> set (split_on d s) \<Longrightarrow> d \<notin> set l"
  by (induction s arbitrary: l) (auto split: if_splits list.splits)

lemma split_once_append: "split_once d s = Some (a, b) \<Longrightarrow> s = a @ d # b"
  by (induction s arbitrary: a) (auto split: if_splits)

lemma rsplit_once_append: "rsplit_once d s = Some (a, b) \<Longrightarrow> s = a @ d # b"
  by (auto simp: rsplit_once_def dest!: split_once_append) (metis append_Cons append_Nil append_assoc rev.simps(2) rev_append rev_rev_ident rev_singleton_conv)

lemma split_inclusive_append_sep:
  "d \<notin> set l \<Longrightarrow> split_inclusive d (l @ d # s) = (l @ [d]) # split_inclusive d s"
  by (induction l) (auto split: list.splits)

lemma split_inclusive_no_sep:
  "d \<notin> set l \<Longrightarrow> l \<noteq> [] \<Longrightarrow> split_inclusive d l = [l]"
proof (induction l)
  case (Cons c l)
  then show ?case by (cases l) auto
qed simp

lemma concat_split_inclusive [simp]: "concat (split_inclusive d s) = s"
  by (induction s) (auto split: list.splits)

definition plain_line :: "str \<Rightarrow> bool" where
  "plain_line l \<longleftrightarrow> LF \<notin> set l \<and> (l = [] \<or> last l \<noteq> CR)"

lemma strip_line_ending_snoc:
  "strip_line_ending (l @ [LF]) = (case strip_suffix [CR] l of None \<Rightarrow> l | Some l' \<Rightarrow> l')"
  by (simp add: strip_line_ending_def)

lemma strip_line_ending_LF: "plain_line l \<Longrightarrow> strip_line_ending (l @ [LF]) = l"
  using strip_suffix_single_None_iff [of CR l]
  by (simp add: strip_line_ending_snoc plain_line_def)

lemma strip_line_ending_bare: "LF \<notin> set l \<Longrightarrow> strip_line_ending l = l"
  by (cases l rule: rev_cases) (auto simp: strip_line_ending_def)

lemma str_lines_Nil [simp]: "str_lines [] = []"
  by (simp add: str_lines_def)

lemma str_lines_Cons:
  "plain_line l \<Longrightarrow> str_lines (l @ LF # s) = l # str_lines s"
  by (frule strip_line_ending_LF)
     (simp add: str_lines_def split_inclusive_append_sep plain_line_def)

lemma str_lines_join:
  "ls \<noteq> [] \<Longrightarrow> last ls \<noteq> [] \<Longrightarrow> \<forall>l \<in> set ls. plain_line l \<Longrightarrow> str_lines (join [LF] ls) = ls"
proof (induction "[LF] :: str" ls rule: join.induct)
  case (2 x)
  then have "LF \<notin> set x" by (simp add: plain_line_def)
  with 2 show ?case
    by (simp add: str_lines_def split_inclusive_no_sep strip_line_ending_bare)
next
  case (3 x y ys)
  then show ?case by (simp add: str_lines_Cons)
qed simp

lemma split_inclusive_piece:
  "p \<in> set (split_inclusive d s) \<Longrightarrow> \<exists>q. d \<notin> set q \<and> (p = q \<or> p = q @ [d])"
proof (induction s arbitrary: p)
  case (Cons c s)
  show ?case
  proof (cases "c = d")
    case True
    with Cons show ?thesis by (auto intro: exI [of _ "[]"])
  next
    case False
    show ?thesis
    proof (cases "split_inclusive d s")
      case Nil
      with False Cons.prems show ?thesis by (auto intro!: exI [of _ "[c]"])
    next
      case (Cons l ls)
      have p: "p = c # l \<or> p \<in> set ls" using Cons.prems False Cons by simp
      then show ?thesis
      proof
        assume "p = c # l"
        moreover obtain q where "d \<notin> set q" "l = q \<or> l = q @ [d]"
          using Cons.IH [of l] Cons by auto
        ultimately show ?thesis using False by (auto intro: exI [of _ "c # q"])
      next
        assume "p \<in> set ls"
        with Cons.IH [of p] Cons show ?thesis by simp
      qed
    qed
  qed
qed simp

lemma str_lines_LF_free:
  assumes "l \<in> set (str_lines s)"
  shows "LF \<notin> set l"
proof -
  from assms obtain p where p: "p \<in> set (split_inclusive LF s)" and l: "l = strip_line_ending p"
    by (auto simp: str_lines_def)
  from split_inclusive_piece [OF p] obtain q where q: "LF \<notin> set q" "p = q \<or> p = q @ [LF]"
    by auto
  then have "l = q \<or> l = (case strip_suffix [CR] q of None \<Rightarrow> q | Some q' \<Rightarrow> q')"
    unfolding l using strip_line_ending_bare [of q] strip_line_ending_snoc [of q] by auto
  with q(1) show ?thesis
    by (auto simp: strip_suffix_Some_iff split: option.splits)
qed

section \<open>Lemmas on lists\<close>

lemma find_upt_None_iff [list_facts]:
  "List.find P [a..<b] = None \<longleftrightarrow> (\<forall>j. a \<le> j \<and> j < b \<longrightarrow> \<not> P j)"
  by (auto simp: find_None_iff)

lemma find_append_case:
  "List.find P (xs @ ys) = (case List.find P xs of None \<Rightarrow> List.find P ys | Some x \<Rightarrow> Some x)"
  by (induction xs) auto

lemma find_SomeD: "List.find P xs = Some x \<Longrightarrow> x \<in> set xs \<and> P x"
  by (induction xs) (auto split: if_splits)

lemma find_upt_Some_iff [list_facts]:
  "List.find P [a..<b] = Some i \<longleftrightarrow> a \<le> i \<and> i < b \<and> P i \<and> (\<forall>j. a \<le> j \<and> j < i \<longrightarrow> \<not> P j)"
proof (cases "a \<le> i \<and> i < b")
  case True
  then have split: "[a..<b] = [a..<i] @ i # [Suc i..<b]"
    by (metis upt_add_eq_append upt_conv_Cons le_add_diff_inverse less_imp_le_nat)
  show ?thesis
  proof (cases "List.find P [a..<i]")
    case None
    then have "\<forall>j. a \<le> j \<and> j < i \<longrightarrow> \<not> P j" by (simp add: find_upt_None_iff)
    with True None show ?thesis
      by (auto simp: split find_append_case dest: find_SomeD)
  next
    case (Some k)
    then have "a \<le> k" "k < i" "P k" by (auto dest: find_SomeD)
    with True Some show ?thesis by (auto simp: split find_append_case)
  qed
next
  case False
  then show ?thesis by (auto dest: find_SomeD)
qed

end
