(* ===== verification/PatchTypes.thy ===== *)
theory PatchTypes
  imports Prelude
begin

text \<open>
  The data of the \<open>apply-patch\<close> crate that its modules share: the update modes
  (\<open>lib.rs\<close>), the chunks, hunks and parse errors (\<open>parser.rs\<close>) and the errors of an
  application (\<open>lib.rs\<close>). A \<open>PathBuf\<close> made from a patch line is the line's text.
\<close>

section \<open>Modes and options\<close>

datatype file_update_mode = NormalizeToLf | PreserveLineEndings

record apply_patch_options =
  opt_update_file_mode :: file_update_mode
  opt_follow_symlinks :: bool

definition default_options :: apply_patch_options where
  "default_options = \<lparr>opt_update_file_mode = NormalizeToLf, opt_follow_symlinks = True\<rparr>"

text \<open>\<open>apply_patch_file_update_mode_from_env\<close>, of the variable's value.\<close>

definition update_mode_from_env :: "str option \<Rightarrow> file_update_mode" where
  "update_mode_from_env v =
     (if v = Some (lit ''1'') then PreserveLineEndings else NormalizeToLf)"

section \<open>Chunks and hunks\<close>

record update_file_chunk =
  change_context :: "str option"
  old_lines :: "str list"
  new_lines :: "str list"
  context_line_indices :: "(nat \<times> nat) list"
  is_end_of_file :: bool

definition default_chunk :: update_file_chunk where
  "default_chunk = \<lparr>change_context = None, old_lines = [], new_lines = [],
     context_line_indices = [], is_end_of_file = False\<rparr>"

definition push_context_line :: "str \<Rightarrow> update_file_chunk \<Rightarrow> update_file_chunk" where
  "push_context_line line c = c\<lparr>
     context_line_indices := context_line_indices c @ [(length (old_lines c), length (new_lines c))],
     old_lines := old_lines c @ [line],
     new_lines := new_lines c @ [line]\<rparr>"

datatype hunk =
    AddFile str str
  | DeleteFile str
  | UpdateFile str "str option" "update_file_chunk list"

text \<open>\<open>Hunk::path\<close>: the path affected, the move destination for a rename.\<close>

fun hunk_path :: "hunk \<Rightarrow> str" where
  "hunk_path (AddFile p contents) = p"
| "hunk_path (DeleteFile p) = p"
| "hunk_path (UpdateFile p (Some m) chunks) = m"
| "hunk_path (UpdateFile p None chunks) = p"

text \<open>
  The path \<open>Hunk::resolve_path\<close> joins to the working directory: for an update the
  source path, whatever its destination.
\<close>

fun hunk_source_path :: "hunk \<Rightarrow> str" where
  "hunk_source_path (UpdateFile p m chunks) = p"
| "hunk_source_path h = hunk_path h"

section \<open>Errors\<close>

datatype parse_error =
    InvalidPatchError str
  | InvalidHunkError str nat

datatype apply_patch_error =
    ParseErrorE parse_error
  | IoErrorE str io_error
  | ComputeReplacements str
  | PathUriE str
  | ImplicitInvocation

text \<open>What applying a patch returns: a value, an error or a panic.\<close>

type_synonym 'a patch_result = "apply_patch_error fault + 'a"

section \<open>Well-formed chunks\<close>

text \<open>
  The context pairs of a chunk point at equal lines of both sides, and go up strictly on
  both. The fields are public, so this is not a property of the type: the parser
  establishes it (\<open>PatchParser\<close>) and replacing relies on it (\<open>FileUpdate\<close>).
\<close>

fun context_pairs_from :: "nat \<Rightarrow> nat \<Rightarrow> str list \<Rightarrow> str list \<Rightarrow> (nat \<times> nat) list \<Rightarrow> bool" where
  "context_pairs_from a b olds news [] \<longleftrightarrow> True"
| "context_pairs_from a b olds news ((i, j) # ps) \<longleftrightarrow>
     a \<le> i \<and> b \<le> j \<and> i < length olds \<and> j < length news \<and> olds ! i = news ! j
     \<and> context_pairs_from (Suc i) (Suc j) olds news ps"

definition chunk_wf :: "update_file_chunk \<Rightarrow> bool" where
  "chunk_wf c \<longleftrightarrow> context_pairs_from 0 0 (old_lines c) (new_lines c) (context_line_indices c)"

fun hunk_chunks_wf :: "hunk \<Rightarrow> bool" where
  "hunk_chunks_wf (UpdateFile p m chunks) = list_all chunk_wf chunks"
| "hunk_chunks_wf h = True"

lemma chunk_wf_default [simp]: "chunk_wf default_chunk"
  by (simp add: chunk_wf_def default_chunk_def)

lemma context_pairs_from_append_lines:
  "context_pairs_from a b olds news ps \<Longrightarrow> context_pairs_from a b (olds @ xs) (news @ ys) ps"
  by (induction a b olds news ps rule: context_pairs_from.induct) (auto simp: nth_append)

lemma context_pairs_from_snoc:
  "context_pairs_from a b olds news ps \<Longrightarrow> a \<le> length olds \<Longrightarrow> b \<le> length news \<Longrightarrow>
   context_pairs_from a b (olds @ [l]) (news @ [l]) (ps @ [(length olds, length news)])"
  by (induction a b olds news ps rule: context_pairs_from.induct) (auto simp: nth_append)

lemma chunk_wf_push_context_line [intro]: "chunk_wf c \<Longrightarrow> chunk_wf (push_context_line l c)"
  by (simp add: chunk_wf_def push_context_line_def context_pairs_from_snoc)

lemma chunk_wf_push_new [intro]:
  "chunk_wf c \<Longrightarrow> chunk_wf (c\<lparr>new_lines := new_lines c @ [l]\<rparr>)"
  using context_pairs_from_append_lines [of 0 0 "old_lines c" "new_lines c" _ "[]" "[l]"]
  by (simp add: chunk_wf_def)

lemma chunk_wf_push_old [intro]:
  "chunk_wf c \<Longrightarrow> chunk_wf (c\<lparr>old_lines := old_lines c @ [l]\<rparr>)"
  using context_pairs_from_append_lines [of 0 0 "old_lines c" "new_lines c" _ "[l]" "[]"]
  by (simp add: chunk_wf_def)

lemma chunk_wf_other_fields [simp]:
  "chunk_wf (c\<lparr>is_end_of_file := e\<rparr>) = chunk_wf c"
  "chunk_wf (c\<lparr>change_context := x\<rparr>) = chunk_wf c"
  by (simp_all add: chunk_wf_def)

end
