(* ===== verification/SeekSequence.thy ===== *)
theory SeekSequence
  imports PatchTypes
begin

text \<open>
  \<open>apply-patch/src/seek_sequence.rs\<close>: finding the lines of a chunk in a file, by four
  passes of decreasing strictness. The passes are shown to be totally ordered by
  strictness, so that the search finds something exactly when the most lenient
  comparison agrees somewhere in the searched range.
\<close>

section \<open>The search\<close>

definition normalise_char :: "uchar \<Rightarrow> uchar" where
  "normalise_char c =
     (if c \<in> set [0x2010, 0x2011, 0x2012, 0x2013, 0x2014, 0x2015, 0x2212] then 45
      else if c \<in> set [0x2018, 0x2019, 0x201A, 0x201B] then 39
      else if c \<in> set [0x201C, 0x201D, 0x201E, 0x201F] then 34
      else if c \<in> set [0x00A0, 0x2002, 0x2003, 0x2004, 0x2005, 0x2006, 0x2007, 0x2008, 0x2009,
                       0x200A, 0x202F, 0x205F, 0x3000] then 32
      else c)"

definition normalise :: "str \<Rightarrow> str" where
  "normalise s = map normalise_char (trim s)"

text \<open>The inner loop of a pass: the pattern's lines against the lines at a position.\<close>

fun lines_agree :: "(str \<Rightarrow> str) \<Rightarrow> str list \<Rightarrow> str list \<Rightarrow> bool" where
  "lines_agree norm ls [] = True"
| "lines_agree norm [] (p # ps) = False"
| "lines_agree norm (l # ls) (p # ps) = (norm l = norm p \<and> lines_agree norm ls ps)"

text \<open>The outer loop of a pass, \<open>for i in search_start..=stop\<close>.\<close>

definition exact_pass :: "str list \<Rightarrow> str list \<Rightarrow> nat \<Rightarrow> nat \<Rightarrow> nat option" where
  "exact_pass ls pattern search_start stop =
     List.find (\<lambda>i. take (length pattern) (drop i ls) = pattern) [search_start..<Suc stop]"

definition norm_pass :: "(str \<Rightarrow> str) \<Rightarrow> str list \<Rightarrow> str list \<Rightarrow> nat \<Rightarrow> nat \<Rightarrow> nat option" where
  "norm_pass norm ls pattern search_start stop =
     List.find (\<lambda>i. lines_agree norm (drop i ls) pattern) [search_start..<Suc stop]"

definition seek_search_start ::
    "str list \<Rightarrow> str list \<Rightarrow> nat \<Rightarrow> bool \<Rightarrow> file_update_mode \<Rightarrow> nat" where
  "seek_search_start ls pattern start eof mode =
     (if eof \<and> length pattern \<le> length ls then
        let eof_start = length ls - length pattern
        in case mode of
             NormalizeToLf \<Rightarrow> eof_start
           | PreserveLineEndings \<Rightarrow> max eof_start start
      else start)"

definition seek_sequence ::
    "str list \<Rightarrow> str list \<Rightarrow> nat \<Rightarrow> bool \<Rightarrow> file_update_mode \<Rightarrow> nat option" where
  "seek_sequence ls pattern start eof mode =
     (if pattern = [] then Some start
      else if length pattern > length ls then None
      else
        let search_start = seek_search_start ls pattern start eof mode;
            stop = length ls - length pattern
        in case exact_pass ls pattern search_start stop of
             Some i \<Rightarrow> Some i
           | None \<Rightarrow>
          (case norm_pass trim_end ls pattern search_start stop of
             Some i \<Rightarrow> Some i
           | None \<Rightarrow>
          (case norm_pass trim ls pattern search_start stop of
             Some i \<Rightarrow> Some i
           | None \<Rightarrow> norm_pass normalise ls pattern search_start stop)))"

section \<open>Strictness of the passes\<close>

lemma lines_agree_nth:
  "lines_agree norm ls ps \<longleftrightarrow>
     length ps \<le> length ls \<and> (\<forall>k < length ps. norm (ls ! k) = norm (ps ! k))"
  by (induction norm ls ps rule: lines_agree.induct) (auto simp: less_Suc_eq_0_disj)

lemma norm_pass_Some_iff:
  "norm_pass norm ls ps a b = Some i \<longleftrightarrow>
     a \<le> i \<and> i \<le> b \<and> lines_agree norm (drop i ls) ps
     \<and> (\<forall>j. a \<le> j \<and> j < i \<longrightarrow> \<not> lines_agree norm (drop j ls) ps)"
  by (simp add: norm_pass_def find_upt_Some_iff less_Suc_eq_le del: upt_Suc)

lemma norm_pass_None_iff:
  "norm_pass norm ls ps a b = None \<longleftrightarrow>
     (\<forall>j. a \<le> j \<and> j \<le> b \<longrightarrow> \<not> lines_agree norm (drop j ls) ps)"
  by (simp add: norm_pass_def find_upt_None_iff less_Suc_eq_le del: upt_Suc)

text \<open>
  A line comparison is the equality of a normal form. One normal form is coarser than
  another when it identifies whatever the other does; then a match of the stricter pass
  is a match of the coarser one.
\<close>

locale coarser_norm =
  fixes fine coarse :: "str \<Rightarrow> str"
  assumes coarser: "fine x = fine y \<Longrightarrow> coarse x = coarse y"
begin

lemma lines_agree_coarser: "lines_agree fine ls ps \<Longrightarrow> lines_agree coarse ls ps"
  by (auto simp: lines_agree_nth dest: coarser)

lemma norm_pass_coarser_None:
  "norm_pass coarse ls ps a b = None \<Longrightarrow> norm_pass fine ls ps a b = None"
  by (auto simp: norm_pass_None_iff dest: lines_agree_coarser)

end

interpretation exact_rstrip: coarser_norm id trim_end
  by unfold_locales simp

interpretation rstrip_trim: coarser_norm trim_end trim
  by unfold_locales (metis trim_trim_end)

interpretation trim_normalise: coarser_norm trim normalise
  by unfold_locales (simp add: normalise_def)

lemma take_eq_iff_lines_agree:
  "take (length ps) ls = ps \<longleftrightarrow> lines_agree id ls ps"
  by (induction "id :: str \<Rightarrow> str" ls ps rule: lines_agree.induct) auto

lemma exact_pass_norm_pass: "exact_pass = norm_pass id"
  by (intro ext) (simp add: exact_pass_def norm_pass_def take_eq_iff_lines_agree)

lemma lines_agree_length: "lines_agree norm ls ps \<Longrightarrow> length ps \<le> length ls"
  by (induction norm ls ps rule: lines_agree.induct) auto

lemma lines_agree_refl: "lines_agree norm (ps @ rest) ps"
  by (induction ps) auto

section \<open>What the search returns\<close>

lemma seek_sequence_passes:
  assumes "ps \<noteq> []" and "length ps \<le> length ls"
  shows "seek_sequence ls ps start eof mode =
    (let a = seek_search_start ls ps start eof mode; b = length ls - length ps in
     case norm_pass id ls ps a b of Some i \<Rightarrow> Some i | None \<Rightarrow>
     (case norm_pass trim_end ls ps a b of Some i \<Rightarrow> Some i | None \<Rightarrow>
     (case norm_pass trim ls ps a b of Some i \<Rightarrow> Some i | None \<Rightarrow> norm_pass normalise ls ps a b)))"
  using assms by (simp add: seek_sequence_def exact_pass_norm_pass Let_def)

lemma seek_sequence_empty [simp]: "seek_sequence ls [] start eof mode = Some start"
  by (simp add: seek_sequence_def)

lemma norm_pass_SomeD:
  "norm_pass norm ls ps a b = Some i \<Longrightarrow> a \<le> i \<and> i \<le> b \<and> lines_agree norm (drop i ls) ps"
  by (simp add: norm_pass_Some_iff)

lemma seek_sequence_SomeD:
  assumes "seek_sequence ls ps start eof mode = Some i" and "ps \<noteq> []"
  shows "i + length ps \<le> length ls"
    and "seek_search_start ls ps start eof mode \<le> i"
    and "lines_agree normalise (drop i ls) ps"
proof -
  from assms have len: "length ps \<le> length ls"
    by (auto simp: seek_sequence_def split: if_splits)
  let ?a = "seek_search_start ls ps start eof mode" and ?b = "length ls - length ps"
  have "?a \<le> i \<and> i \<le> ?b \<and> lines_agree normalise (drop i ls) ps"
    using assms(1) unfolding seek_sequence_passes [OF assms(2) len] Let_def
    by (auto split: option.splits dest!: norm_pass_SomeD
        dest: exact_rstrip.lines_agree_coarser rstrip_trim.lines_agree_coarser
          trim_normalise.lines_agree_coarser)
  with len show "i + length ps \<le> length ls" "?a \<le> i" "lines_agree normalise (drop i ls) ps"
    by auto
qed

lemma seek_search_start_ge:
  "\<not> eof \<or> mode = PreserveLineEndings \<Longrightarrow> start \<le> seek_search_start ls ps start eof mode"
  by (auto simp: seek_search_start_def Let_def)

lemma seek_sequence_ge_start:
  assumes "seek_sequence ls ps start eof mode = Some i"
    and "\<not> eof \<or> mode = PreserveLineEndings"
  shows "start \<le> i"
proof (cases "ps = []")
  case False
  show ?thesis
    using seek_sequence_SomeD(2) [OF assms(1) False] seek_search_start_ge [OF assms(2)]
    by (rule order_trans [rotated])
qed (use assms in auto)

text \<open>
  A position the search returns is in range: the pattern fits there, every line of
  it agrees with the file's line up to white space at the ends and typographic
  punctuation, and the position is not before \<open>start\<close> unless the chunk is an end-of-file
  chunk in the mode that normalises to LF.
\<close>

theorem seek_sequence_sound:
  assumes "seek_sequence ls ps start eof mode = Some i" and "ps \<noteq> []"
  shows "i + length ps \<le> length ls
    \<and> (\<forall>k < length ps. normalise (ls ! (i + k)) = normalise (ps ! k))
    \<and> (eof \<and> mode = NormalizeToLf \<or> start \<le> i)"
proof -
  note s = seek_sequence_SomeD [OF assms]
  from s(3) have "\<forall>k < length ps. normalise (ls ! (i + k)) = normalise (ps ! k)"
    using s(1) by (simp add: lines_agree_nth)
  moreover have "eof \<and> mode = NormalizeToLf \<or> start \<le> i"
    using seek_sequence_ge_start [OF assms(1)] by (cases mode) auto
  ultimately show ?thesis using s(1) by blast
qed

theorem seek_sequence_sound_witness:
  "seek_sequence [lit ''a'', lit '' b ''] [lit ''b''] 0 False NormalizeToLf = Some 1
   \<and> 1 + length [lit ''b''] \<le> length [lit ''a'', lit '' b '']"
proof -
  have h: "seek_sequence [lit ''a'', lit '' b ''] [lit ''b''] 0 False NormalizeToLf = Some 1"
    by code_simp
  show ?thesis using h seek_sequence_sound [OF h] by simp
qed

text \<open>
  The search is complete: it fails on a pattern that fits the file only when, at every
  position of the searched range, the most lenient comparison differs somewhere.
\<close>

theorem seek_sequence_None_iff:
  "seek_sequence ls ps start eof mode = None \<longleftrightarrow>
     ps \<noteq> [] \<and> \<not> (\<exists>i. seek_search_start ls ps start eof mode \<le> i
       \<and> i + length ps \<le> length ls \<and> lines_agree normalise (drop i ls) ps)"
proof (cases "ps \<noteq> [] \<and> length ps \<le> length ls")
  case True
  let ?a = "seek_search_start ls ps start eof mode" and ?b = "length ls - length ps"
  have "seek_sequence ls ps start eof mode = None \<longleftrightarrow> norm_pass normalise ls ps ?a ?b = None"
    using True exact_rstrip.norm_pass_coarser_None [of ls ps ?a ?b]
      rstrip_trim.norm_pass_coarser_None [of ls ps ?a ?b]
      trim_normalise.norm_pass_coarser_None [of ls ps ?a ?b]
    by (cases "norm_pass normalise ls ps ?a ?b")
       (auto simp: seek_sequence_passes Let_def split: option.splits)
  also have "\<dots> \<longleftrightarrow> \<not> (\<exists>i. ?a \<le> i \<and> i + length ps \<le> length ls \<and> lines_agree normalise (drop i ls) ps)"
    using True by (auto simp: norm_pass_None_iff le_diff_conv2)
  finally show ?thesis using True by blast
next
  case False
  then show ?thesis by (auto simp: seek_sequence_def)
qed

text \<open>
  An exact occurrence wins over every lenient one, and the first exact occurrence of
  the searched range is the one returned.
\<close>

theorem seek_sequence_first_exact:
  assumes "ps \<noteq> []" and "seek_search_start ls ps start eof mode \<le> i"
    and "take (length ps) (drop i ls) = ps"
    and "\<And>j. seek_search_start ls ps start eof mode \<le> j \<Longrightarrow> j < i \<Longrightarrow>
           take (length ps) (drop j ls) \<noteq> ps"
  shows "seek_sequence ls ps start eof mode = Some i"
proof -
  from assms(1,3) have len: "i + length ps \<le> length ls"
    by (metis add.commute drop_eq_Nil2 le_diff_conv2 length_drop length_take min_def nle_le take_Nil)
  with assms have "norm_pass id ls ps (seek_search_start ls ps start eof mode)
      (length ls - length ps) = Some i"
    by (auto simp: norm_pass_Some_iff take_eq_iff_lines_agree)
  with assms(1) len show ?thesis by (simp add: seek_sequence_passes Let_def)
qed

theorem seek_sequence_first_exact_witness:
  "seek_sequence [lit ''x '', lit ''x'', lit ''x''] [lit ''x''] 0 False PreserveLineEndings = Some 1"
  by (rule seek_sequence_first_exact) (auto simp: seek_search_start_def lit_def less_Suc_eq)

text \<open>
  With the end-of-file flag in the mode that normalises to LF there is one candidate
  only, the last lines of the file: what precedes them is never searched, whatever
  \<open>start\<close> is.
\<close>

theorem seek_sequence_eof_only:
  "seek_sequence ls ps start True NormalizeToLf =
     (if ps = [] then Some start
      else if length ps \<le> length ls \<and> lines_agree normalise (drop (length ls - length ps) ls) ps
      then Some (length ls - length ps) else None)"
proof (cases "ps = [] \<or> length ls < length ps")
  case True
  then show ?thesis by (auto simp: seek_sequence_def)
next
  case False
  let ?b = "length ls - length ps"
  have start: "seek_search_start ls ps start True NormalizeToLf = ?b"
    using False by (simp add: seek_search_start_def Let_def)
  show ?thesis
  proof (cases "seek_sequence ls ps start True NormalizeToLf")
    case None
    then show ?thesis using False seek_sequence_None_iff [of ls ps start True NormalizeToLf] start
      by auto
  next
    case (Some i)
    with False have "?b \<le> i" "i + length ps \<le> length ls" "lines_agree normalise (drop i ls) ps"
      using seek_sequence_SomeD [of ls ps start True NormalizeToLf i] start by auto
    moreover from this have "i = ?b" by auto
    ultimately show ?thesis using False Some by auto
  qed
qed

end
