(* ===== verification/TextFile.thy ===== *)
theory TextFile
  imports PatchTypes
begin

text \<open>
  \<open>apply-patch/src/text_file.rs\<close>: a file as logical lines that keep their own line
  endings, and the in-order application of replacements to it. Lines of a file are an
  abstraction shared with the other update mode: replacing is shown to be \<open>splice\<close>.
\<close>

section \<open>Lines and endings\<close>

datatype line_ending = Lf | CrLf | Cr

fun ending_str :: "line_ending \<Rightarrow> str" where
  "ending_str Lf = [LF]"
| "ending_str CrLf = [CR, LF]"
| "ending_str Cr = [CR]"

record source_line =
  text_of :: str
  ending :: "line_ending option"

record source_file =
  file_lines :: "source_line list"
  preferred_ending :: line_ending

definition mk_line :: "str \<Rightarrow> line_ending option \<Rightarrow> source_line" where
  "mk_line t e = \<lparr>text_of = t, ending = e\<rparr>"

definition get_or_insert :: "'a option \<Rightarrow> 'a \<Rightarrow> 'a option" where
  "get_or_insert x d = (case x of None \<Rightarrow> Some d | Some y \<Rightarrow> Some y)"

text \<open>
  The loop of \<open>SourceFile::parse\<close>: \<open>cur\<close> is the slice from \<open>line_start\<close> to \<open>cursor\<close>, the
  last argument what follows \<open>cursor\<close>.
\<close>

fun parse_loop ::
    "source_line list \<Rightarrow> line_ending option \<Rightarrow> str \<Rightarrow> str \<Rightarrow> source_line list \<times> line_ending option" where
  "parse_loop ls pref cur [] =
     (if cur = [] then (ls, pref) else (ls @ [mk_line cur None], pref))"
| "parse_loop ls pref cur (c # rest) =
     (if c = CR then
        (case rest of
           d # rest' \<Rightarrow>
             (if d = LF
              then parse_loop (ls @ [mk_line cur (Some CrLf)]) (get_or_insert pref CrLf) [] rest'
              else parse_loop (ls @ [mk_line cur (Some Cr)]) (get_or_insert pref Cr) [] rest)
         | [] \<Rightarrow> parse_loop (ls @ [mk_line cur (Some Cr)]) (get_or_insert pref Cr) [] rest)
      else if c = LF
        then parse_loop (ls @ [mk_line cur (Some Lf)]) (get_or_insert pref Lf) [] rest
      else parse_loop ls pref (cur @ [c]) rest)"

definition parse_source :: "str \<Rightarrow> source_file" where
  "parse_source contents =
     (let (ls, pref) = parse_loop [] None [] contents
      in \<lparr>file_lines = ls, preferred_ending = (case pref of None \<Rightarrow> Lf | Some e \<Rightarrow> e)\<rparr>)"

definition line_texts :: "source_file \<Rightarrow> str list" where
  "line_texts f = map text_of (file_lines f)"

definition render_line :: "source_line \<Rightarrow> str" where
  "render_line l = text_of l @ (case ending l of None \<Rightarrow> [] | Some e \<Rightarrow> ending_str e)"

definition into_contents :: "source_file \<Rightarrow> str" where
  "into_contents f = concat (map render_line (file_lines f))"

section \<open>Replacements\<close>

type_synonym replacement = "nat \<times> nat \<times> str list"

text \<open>
  The loop of \<open>SourceFile::apply_replacements\<close>: \<open>src\<close> is what the iterator over the
  source lines has not yielded, \<open>idx\<close> the variable \<open>source_index\<close>. A replacement that
  starts before it trips the \<open>debug_assert\<close> and the subtraction below zero: a panic
  (an unchecked release build would wrap and take every remaining line instead).
\<close>

fun replace_loop ::
    "line_ending \<Rightarrow> source_line list \<Rightarrow> source_line list \<Rightarrow> nat \<Rightarrow> replacement list
     \<Rightarrow> source_line list patch_result" where
  "replace_loop pref acc src idx [] = Inr (acc @ src)"
| "replace_loop pref acc src idx ((start, old_len, segment) # rs) =
     bind_result (usize_sub start idx) (\<lambda>skip.
       replace_loop pref
         (acc @ take skip src @ map (\<lambda>t. mk_line t (Some pref)) segment)
         (drop old_len (drop skip src))
         (start + old_len) rs)"

definition end_line :: "line_ending \<Rightarrow> source_line \<Rightarrow> source_line" where
  "end_line pref l = l\<lparr>ending := get_or_insert (ending l) pref\<rparr>"

definition source_apply_replacements ::
    "source_file \<Rightarrow> replacement list \<Rightarrow> source_file patch_result" where
  "source_apply_replacements f rs =
     bind_result (replace_loop (preferred_ending f) [] (file_lines f) 0 rs)
       (\<lambda>ls. Inr (f\<lparr>file_lines := map (end_line (preferred_ending f)) ls\<rparr>))"

section \<open>Parsing and rendering\<close>

lemma parse_loop_concat:
  "concat (map render_line (fst (parse_loop ls pref cur s)))
     = concat (map render_line ls) @ cur @ s"
  by (induction ls pref cur s rule: parse_loop.induct)
     (auto simp: render_line_def mk_line_def split: list.splits)

lemma parse_source_simps [simp]:
  "file_lines (parse_source s) = fst (parse_loop [] None [] s)"
  "preferred_ending (parse_source s)
     = (case snd (parse_loop [] None [] s) of None \<Rightarrow> Lf | Some e \<Rightarrow> e)"
  by (simp_all add: parse_source_def case_prod_beta)

text \<open>
  Parsing a file into lines loses nothing: rendering the lines with their endings
  gives back the contents, whatever mixture of endings they have.
\<close>

theorem source_roundtrip: "into_contents (parse_source s) = s"
  using parse_loop_concat [of "[]" None "[]" s]
  by (simp add: into_contents_def)

definition line_ok :: "source_line \<Rightarrow> bool" where
  "line_ok l \<longleftrightarrow> CR \<notin> set (text_of l) \<and> LF \<notin> set (text_of l)"

text \<open>Only the last line can lack an ending, and then it is not empty.\<close>

definition lines_ok :: "source_line list \<Rightarrow> bool" where
  "lines_ok ls \<longleftrightarrow> list_all line_ok ls \<and> list_all (\<lambda>l. ending l \<noteq> None) (butlast ls)
     \<and> (ls \<noteq> [] \<longrightarrow> ending (last ls) = None \<longrightarrow> text_of (last ls) \<noteq> [])"

lemma parse_loop_ok:
  "list_all (\<lambda>l. line_ok l \<and> ending l \<noteq> None) ls \<Longrightarrow> CR \<notin> set cur \<Longrightarrow> LF \<notin> set cur \<Longrightarrow>
   lines_ok (fst (parse_loop ls pref cur s))"
proof (induction ls pref cur s rule: parse_loop.induct)
  case (1 ls pref cur)
  then show ?case
    by (cases ls rule: rev_cases) (auto simp: lines_ok_def line_ok_def mk_line_def list_all_iff butlast_append)
next
  case (2 ls pref cur c rest)
  then show ?case
    by (cases rest) (auto simp: line_ok_def mk_line_def)
qed

lemma parse_source_ok: "lines_ok (file_lines (parse_source s))"
  using parse_loop_ok [of "[]" "[]" None s] by simp

section \<open>Replacing as splicing\<close>

text \<open>
  What replacing means, of any list: walk the list once, copying up to each replacement.
  The replacements must start in order, not overlap and stay in range.
\<close>

fun splice_from :: "nat \<Rightarrow> (nat \<times> nat \<times> 'a list) list \<Rightarrow> 'a list \<Rightarrow> 'a list" where
  "splice_from idx [] ls = ls"
| "splice_from idx ((start, n, seg) # rs) ls =
     take (start - idx) ls @ seg @ splice_from (start + n) rs (drop (start - idx + n) ls)"

fun replacements_ok :: "nat \<Rightarrow> nat \<Rightarrow> (nat \<times> nat \<times> 'a list) list \<Rightarrow> bool" where
  "replacements_ok idx len [] \<longleftrightarrow> idx \<le> len"
| "replacements_ok idx len ((start, n, seg) # rs) \<longleftrightarrow>
     idx \<le> start \<and> replacements_ok (start + n) len rs"

lemma replacements_ok_le: "replacements_ok idx len rs \<Longrightarrow> idx \<le> len"
  by (induction idx len rs rule: replacements_ok.induct) auto

lemma replacements_ok_range:
  "replacements_ok idx len rs \<Longrightarrow> (s, n, seg) \<in> set rs \<Longrightarrow> idx \<le> s \<and> s + n \<le> len"
  by (induction idx len rs rule: replacements_ok.induct) (auto dest: replacements_ok_le)

definition map_replacement :: "('a \<Rightarrow> 'b) \<Rightarrow> nat \<times> nat \<times> 'a list \<Rightarrow> nat \<times> nat \<times> 'b list" where
  "map_replacement f r = (case r of (s, n, seg) \<Rightarrow> (s, n, map f seg))"

lemma replace_loop_splice:
  "replacements_ok idx len rs \<Longrightarrow> len = idx + length src \<Longrightarrow>
   replace_loop pref acc src idx rs
     = Inr (acc @ splice_from idx (map (map_replacement (\<lambda>t. mk_line t (Some pref))) rs) src)"
proof (induction pref acc src idx rs rule: replace_loop.induct)
  case (2 pref acc src idx start old_len segment rs)
  from "2.prems" have "idx \<le> start" and ok: "replacements_ok (start + old_len) len rs"
    by auto
  moreover have "len = start + old_len + length (drop old_len (drop (start - idx) src))"
    using replacements_ok_le [OF ok] \<open>idx \<le> start\<close> "2.prems"(2) by simp
  ultimately show ?case
    using "2.IH" [of "start - idx"]
    by (simp add: usize_sub_def map_replacement_def add.commute [of old_len])
qed simp

lemma map_splice_from:
  "map f (splice_from idx rs ls) = splice_from idx (map (map_replacement f) rs) (map f ls)"
  by (induction idx rs ls rule: splice_from.induct)
     (simp_all add: map_replacement_def take_map drop_map)

lemma text_of_end_line [simp]: "text_of (end_line p l) = text_of l"
  by (simp add: end_line_def)

lemma ending_end_line: "ending (end_line p l) = Some (case ending l of None \<Rightarrow> p | Some e \<Rightarrow> e)"
  by (simp add: end_line_def get_or_insert_def split: option.splits)

lemma map_replacement_text [simp]:
  "map_replacement text_of (map_replacement (\<lambda>t. mk_line t e) r) = r"
  by (simp add: map_replacement_def mk_line_def o_def split: prod.splits)

lemma source_splice:
  assumes "replacements_ok 0 (length (file_lines f)) rs"
  shows "\<exists>g. source_apply_replacements f rs = Inr g
    \<and> line_texts g = splice_from 0 rs (line_texts f) \<and> list_all (\<lambda>l. ending l \<noteq> None) (file_lines g)"
proof -
  let ?p = "preferred_ending f"
  let ?ls = "splice_from 0 (map (map_replacement (\<lambda>t. mk_line t (Some ?p))) rs) (file_lines f)"
  have "source_apply_replacements f rs = Inr (f\<lparr>file_lines := map (end_line ?p) ?ls\<rparr>)"
    by (simp add: source_apply_replacements_def replace_loop_splice [OF assms])
  moreover have "map (text_of \<circ> end_line ?p) ?ls = splice_from 0 rs (map text_of (file_lines f))"
    by (simp add: map_splice_from comp_def)
  ultimately show ?thesis by (simp add: line_texts_def list_all_iff ending_end_line)
qed

text \<open>
  Replacing in a file that keeps its endings does not panic on ordered, disjoint,
  in-range replacements, and does exactly this: the line texts are spliced, and every
  line of the result is a source line, with its own ending, or an inserted one, with
  the preferred ending.
\<close>

theorem source_apply_replacements_splice:
  assumes "replacements_ok 0 (length (file_lines f)) rs"
  shows "\<exists>g. source_apply_replacements f rs = Inr g
    \<and> line_texts g = splice_from 0 rs (line_texts f)
    \<and> map ending (file_lines g)
        = splice_from 0 (map (\<lambda>(s, n, seg). (s, n, map (\<lambda>_. Some (preferred_ending f)) seg)) rs)
            (map (\<lambda>l. Some (case ending l of None \<Rightarrow> preferred_ending f | Some e \<Rightarrow> e)) (file_lines f))"
proof -
  let ?p = "preferred_ending f"
  let ?rs = "map (map_replacement (\<lambda>t. mk_line t (Some ?p))) rs"
  let ?ls = "splice_from 0 ?rs (file_lines f)"
  have run: "source_apply_replacements f rs = Inr (f\<lparr>file_lines := map (end_line ?p) ?ls\<rparr>)"
    by (simp add: source_apply_replacements_def replace_loop_splice [OF assms])
  have texts: "map (text_of \<circ> end_line ?p) ?ls = splice_from 0 rs (map text_of (file_lines f))"
    by (simp add: map_splice_from comp_def)
  have seg: "map_replacement (\<lambda>l. Some (case ending l of None \<Rightarrow> ?p | Some e \<Rightarrow> e))
        (map_replacement (\<lambda>t. mk_line t (Some ?p)) r)
      = (case r of (s, n, seg) \<Rightarrow> (s, n, map (\<lambda>_. Some ?p) seg))" for r :: replacement
    by (simp add: map_replacement_def comp_def mk_line_def split: prod.splits)
  have "map (ending \<circ> end_line ?p) ?ls
      = splice_from 0 (map (\<lambda>(s, n, seg). (s, n, map (\<lambda>_. Some ?p) seg)) rs)
          (map (\<lambda>l. Some (case ending l of None \<Rightarrow> ?p | Some e \<Rightarrow> e)) (file_lines f))"
    unfolding map_splice_from by (simp add: seg ending_end_line comp_def)
  with run texts show ?thesis by (simp add: line_texts_def)
qed

theorem source_apply_replacements_splice_witness:
  "\<exists>g. source_apply_replacements (parse_source [97, 13, 10, 98]) [(1, 1, [[99], [100]])] = Inr g
     \<and> line_texts g = [[97], [99], [100]]"
  using source_apply_replacements_splice [of "parse_source [97, 13, 10, 98]" "[(1, 1, [[99], [100]])]"]
  by (auto simp: parse_source_def mk_line_def line_texts_def)

end
