(* ===== verification/FileUpdate.thy ===== *)
theory FileUpdate
  imports SeekSequence TextFile
begin

text \<open>
  \<open>apply-patch/src/file_update.rs\<close>: from the chunks of an update hunk to replacements, and
  from replacements to the new contents of the file, in both update modes. Reading the
  file is the caller's (\<open>ApplyHunks\<close>); the diff of the \<open>similar\<close> crate is a parameter.
\<close>

section \<open>Computing replacements\<close>

definition insertion_idx :: "str list \<Rightarrow> file_update_mode \<Rightarrow> nat" where
  "insertion_idx original_lines mode =
     (case mode of
        NormalizeToLf \<Rightarrow>
          (if original_lines \<noteq> [] \<and> last original_lines = [] then length original_lines - 1
           else length original_lines)
      | PreserveLineEndings \<Rightarrow> length original_lines)"

text \<open>
  The loop over the context pairs of a chunk: \<open>os\<close> and \<open>ns\<close> are \<open>old_start\<close> and
  \<open>new_start\<close>, \<open>plen\<close> the length of the pattern.
\<close>

fun context_loop ::
    "nat \<Rightarrow> nat \<Rightarrow> str list \<Rightarrow> (nat \<times> nat) list \<Rightarrow> nat \<Rightarrow> nat \<Rightarrow> replacement list
     \<Rightarrow> (nat \<times> nat \<times> replacement list) patch_result" where
  "context_loop start_idx plen new_slice [] os ns reps = Inr (os, ns, reps)"
| "context_loop start_idx plen new_slice ((oc, nc) # ps) os ns reps =
     (if plen \<le> oc \<or> length new_slice \<le> nc then Inr (os, ns, reps)
      else bind_result
        (if os \<noteq> oc \<or> ns \<noteq> nc then
           bind_result (usize_sub oc os) (\<lambda>n.
           bind_result (slice new_slice ns nc) (\<lambda>seg.
           Inr (reps @ [(start_idx + os, n, seg)])))
         else Inr reps)
        (\<lambda>reps'. context_loop start_idx plen new_slice ps (Suc oc) (Suc nc) reps'))"

definition chunk_replacements ::
    "file_update_mode \<Rightarrow> nat \<Rightarrow> str list \<Rightarrow> str list \<Rightarrow> (nat \<times> nat) list \<Rightarrow> replacement list
     \<Rightarrow> replacement list patch_result" where
  "chunk_replacements mode start_idx pattern new_slice pairs reps =
     (case mode of
        NormalizeToLf \<Rightarrow> Inr (reps @ [(start_idx, length pattern, new_slice)])
      | PreserveLineEndings \<Rightarrow>
          bind_result (context_loop start_idx (length pattern) new_slice pairs 0 0 reps)
            (\<lambda>(os, ns, reps').
              if os \<noteq> length pattern \<or> ns \<noteq> length new_slice then
                bind_result (usize_sub (length pattern) os) (\<lambda>n.
                bind_result (slice new_slice ns (length new_slice)) (\<lambda>seg.
                Inr (reps' @ [(start_idx + os, n, seg)])))
              else Inr reps'))"

definition context_error :: "str \<Rightarrow> str \<Rightarrow> apply_patch_error" where
  "context_error ctx_line path = ComputeReplacements
     (lit ''Failed to find context '' @ [39] @ ctx_line @ [39] @ lit '' in '' @ path)"

definition expected_lines_error :: "str list \<Rightarrow> str \<Rightarrow> apply_patch_error" where
  "expected_lines_error olds path = ComputeReplacements
     (lit ''Failed to find expected lines in '' @ path @ [58, LF] @ join [LF] olds)"

text \<open>The search for \<open>change_context\<close>: the line index after it.\<close>

definition seek_context ::
    "str list \<Rightarrow> str \<Rightarrow> file_update_mode \<Rightarrow> str option \<Rightarrow> nat \<Rightarrow> nat patch_result" where
  "seek_context original_lines path mode ctx line_index =
     (case ctx of
        None \<Rightarrow> Inr line_index
      | Some ctx_line \<Rightarrow>
          (case seek_sequence original_lines [ctx_line] line_index False mode of
             Some idx \<Rightarrow> Inr (idx + 1)
           | None \<Rightarrow> Inl (Failed (context_error ctx_line path))))"

text \<open>
  The search for the old lines, retried without a final empty line: where they were
  found, with the pattern and the new lines that go with it.
\<close>

definition seek_old_lines ::
    "str list \<Rightarrow> file_update_mode \<Rightarrow> update_file_chunk \<Rightarrow> nat
     \<Rightarrow> (nat option \<times> str list \<times> str list)" where
  "seek_old_lines original_lines mode c line_index =
     (let pattern = old_lines c; new_slice = new_lines c;
          found = seek_sequence original_lines pattern line_index (is_end_of_file c) mode
      in if found = None \<and> pattern \<noteq> [] \<and> last pattern = [] then
           (let pattern' = butlast pattern;
                new_slice' = (if new_slice \<noteq> [] \<and> last new_slice = [] then butlast new_slice
                              else new_slice)
            in (seek_sequence original_lines pattern' line_index (is_end_of_file c) mode,
                pattern', new_slice'))
         else (found, pattern, new_slice))"

definition chunk_step ::
    "str list \<Rightarrow> str \<Rightarrow> file_update_mode \<Rightarrow> update_file_chunk \<Rightarrow> replacement list \<times> nat
     \<Rightarrow> (replacement list \<times> nat) patch_result" where
  "chunk_step original_lines path mode c st =
     (case st of (reps, line_index0) \<Rightarrow>
      bind_result (seek_context original_lines path mode (change_context c) line_index0)
        (\<lambda>line_index.
          if old_lines c = [] then
            Inr (reps @ [(insertion_idx original_lines mode, 0, new_lines c)], line_index)
          else
            (case seek_old_lines original_lines mode c line_index of
               (Some start_idx, pattern, new_slice) \<Rightarrow>
                 bind_result
                   (chunk_replacements mode start_idx pattern new_slice
                      (context_line_indices c) reps)
                   (\<lambda>reps'. Inr (reps', start_idx + length pattern))
             | (None, pattern, new_slice) \<Rightarrow>
                 Inl (Failed (expected_lines_error (old_lines c) path)))))"

fun chunk_loop ::
    "str list \<Rightarrow> str \<Rightarrow> file_update_mode \<Rightarrow> update_file_chunk list \<Rightarrow> replacement list \<times> nat
     \<Rightarrow> (replacement list \<times> nat) patch_result" where
  "chunk_loop original_lines path mode [] st = Inr st"
| "chunk_loop original_lines path mode (c # cs) st =
     bind_result (chunk_step original_lines path mode c st)
       (\<lambda>st'. chunk_loop original_lines path mode cs st')"

definition compute_replacements ::
    "str list \<Rightarrow> str \<Rightarrow> update_file_chunk list \<Rightarrow> file_update_mode
     \<Rightarrow> replacement list patch_result" where
  "compute_replacements original_lines path chunks mode =
     bind_result (chunk_loop original_lines path mode chunks ([], 0))
       (\<lambda>(reps, _). Inr (sort_key fst reps))"

section \<open>Applying replacements to lines\<close>

fun remove_loop :: "nat \<Rightarrow> nat \<Rightarrow> str list \<Rightarrow> str list" where
  "remove_loop start_idx 0 ls = ls"
| "remove_loop start_idx (Suc n) ls =
     remove_loop start_idx n
       (if start_idx < length ls then take start_idx ls @ drop (Suc start_idx) ls else ls)"

text \<open>\<open>Vec::insert\<close> panics on an index beyond the end.\<close>

fun insert_loop :: "nat \<Rightarrow> str list \<Rightarrow> str list \<Rightarrow> str list patch_result" where
  "insert_loop i [] ls = Inr ls"
| "insert_loop i (l # new) ls =
     (if i \<le> length ls then insert_loop (Suc i) new (take i ls @ l # drop i ls)
      else Inl Panic)"

fun apply_in_order :: "replacement list \<Rightarrow> str list \<Rightarrow> str list patch_result" where
  "apply_in_order [] ls = Inr ls"
| "apply_in_order ((start_idx, old_len, new_segment) # rs) ls =
     bind_result (insert_loop start_idx new_segment (remove_loop start_idx old_len ls))
       (\<lambda>ls'. apply_in_order rs ls')"

definition apply_replacements :: "str list \<Rightarrow> replacement list \<Rightarrow> str list patch_result" where
  "apply_replacements ls reps = apply_in_order (rev reps) ls"

section \<open>The new contents\<close>

text \<open>The split of the LF mode: no empty last line after a final newline.\<close>

definition split_original_lines :: "str \<Rightarrow> str list" where
  "split_original_lines contents =
     (let ls = split_on LF contents in if last ls = [] then butlast ls else ls)"

definition join_new_lines :: "str list \<Rightarrow> str" where
  "join_new_lines ls =
     join [LF] (if ls \<noteq> [] \<and> last ls = [] then ls else ls @ [[]])"

definition new_contents_of ::
    "str \<Rightarrow> str \<Rightarrow> update_file_chunk list \<Rightarrow> file_update_mode \<Rightarrow> str patch_result" where
  "new_contents_of path original_contents chunks mode =
     (case mode of
        NormalizeToLf \<Rightarrow>
          (let original_lines = split_original_lines original_contents in
           bind_result (compute_replacements original_lines path chunks mode) (\<lambda>reps.
           bind_result (apply_replacements original_lines reps) (\<lambda>new_lines.
           Inr (join_new_lines new_lines))))
      | PreserveLineEndings \<Rightarrow>
          (let source = parse_source original_contents in
           bind_result (compute_replacements (line_texts source) path chunks mode) (\<lambda>reps.
           bind_result (source_apply_replacements source reps) (\<lambda>source'.
           Inr (into_contents source')))))"

record applied_patch =
  original_contents :: str
  new_contents :: str

text \<open>
  \<open>derive_new_contents_from_chunks\<close>, of what reading the file returned; \<open>path\<close> is
  \<open>inferred_native_path_string\<close> of the path.
\<close>

definition derive_new_contents_from_chunks ::
    "str \<Rightarrow> io_error + str \<Rightarrow> update_file_chunk list \<Rightarrow> file_update_mode
     \<Rightarrow> applied_patch patch_result" where
  "derive_new_contents_from_chunks path read chunks mode =
     (case read of
        Inl err \<Rightarrow> Inl (Failed (IoErrorE (lit ''Failed to read file to update '' @ path) err))
      | Inr contents \<Rightarrow>
          bind_result (new_contents_of path contents chunks mode)
            (\<lambda>new. Inr \<lparr>original_contents = contents, new_contents = new\<rparr>))"

record apply_patch_file_update =
  unified_diff :: str
  original_content :: str
  content :: str

text \<open>\<open>text_diff old new context\<close> stands for the unified diff of the \<open>similar\<close> crate.\<close>

definition unified_diff_from_chunks_with_context_and_mode ::
    "(str \<Rightarrow> str \<Rightarrow> nat \<Rightarrow> str) \<Rightarrow> str \<Rightarrow> io_error + str \<Rightarrow> update_file_chunk list \<Rightarrow> nat
     \<Rightarrow> file_update_mode \<Rightarrow> apply_patch_file_update patch_result" where
  "unified_diff_from_chunks_with_context_and_mode text_diff path read chunks context mode =
     bind_result (derive_new_contents_from_chunks path read chunks mode)
       (\<lambda>a. Inr \<lparr>unified_diff = text_diff (original_contents a) (new_contents a) context,
                  original_content = original_contents a, content = new_contents a\<rparr>)"

definition unified_diff_from_chunks_with_mode ::
    "(str \<Rightarrow> str \<Rightarrow> nat \<Rightarrow> str) \<Rightarrow> str \<Rightarrow> io_error + str \<Rightarrow> update_file_chunk list
     \<Rightarrow> file_update_mode \<Rightarrow> apply_patch_file_update patch_result" where
  "unified_diff_from_chunks_with_mode text_diff path read chunks mode =
     unified_diff_from_chunks_with_context_and_mode text_diff path read chunks 1 mode"

definition unified_diff_from_chunks ::
    "(str \<Rightarrow> str \<Rightarrow> nat \<Rightarrow> str) \<Rightarrow> str \<Rightarrow> io_error + str \<Rightarrow> update_file_chunk list
     \<Rightarrow> apply_patch_file_update patch_result" where
  "unified_diff_from_chunks text_diff path read chunks =
     unified_diff_from_chunks_with_mode text_diff path read chunks NormalizeToLf"

definition unified_diff_from_chunks_with_context ::
    "(str \<Rightarrow> str \<Rightarrow> nat \<Rightarrow> str) \<Rightarrow> str \<Rightarrow> io_error + str \<Rightarrow> update_file_chunk list \<Rightarrow> nat
     \<Rightarrow> apply_patch_file_update patch_result" where
  "unified_diff_from_chunks_with_context text_diff path read chunks context =
     unified_diff_from_chunks_with_context_and_mode text_diff path read chunks context NormalizeToLf"

end
