(* ===== verification/FileUpdateCorrect.thy ===== *)
theory FileUpdateCorrect
  imports FileUpdate
begin

text \<open>
  Correctness of \<open>FileUpdate\<close>: the computed replacements are in order, disjoint and in
  range; applying them, in either of the two ways the sources do it, is one splice and
  never panics; what the modes preserve.
\<close>

section \<open>Ordered, disjoint replacements\<close>

definition before :: "nat \<times> nat \<times> 'a list \<Rightarrow> nat \<times> nat \<times> 'a list \<Rightarrow> bool" where
  "before r r' \<longleftrightarrow> fst r + fst (snd r) \<le> fst r'"

definition in_range :: "nat \<Rightarrow> nat \<times> nat \<times> 'a list \<Rightarrow> bool" where
  "in_range len r \<longleftrightarrow> fst r + fst (snd r) \<le> len"

lemma before_trans: "before r r' \<Longrightarrow> before r' r'' \<Longrightarrow> before r r''"
  by (simp add: before_def)

lemma before_sorted: "sorted_wrt before rs \<Longrightarrow> sorted (map fst rs)"
  by (induction rs) (fastforce simp: before_def)+

lemma replacements_ok_iff:
  "replacements_ok idx len rs \<longleftrightarrow>
     idx \<le> len \<and> sorted_wrt before rs \<and> list_all (in_range len) rs \<and> list_all (\<lambda>r. idx \<le> fst r) rs"
proof (induction idx len rs rule: replacements_ok.induct)
  case (2 idx len start n seg rs)
  then show ?case
    by (auto simp: before_def in_range_def list_all_iff)
qed simp

lemma replacements_ok_weaken: "replacements_ok idx len rs \<Longrightarrow> idx' \<le> idx \<Longrightarrow> replacements_ok idx' len rs"
  by (cases "(idx, len, rs)" rule: replacements_ok.cases) auto

lemma replacements_ok_append:
  "replacements_ok idx mid qs \<Longrightarrow> replacements_ok mid len rs \<Longrightarrow> replacements_ok idx len (qs @ rs)"
proof (induction idx mid qs rule: replacements_ok.induct)
  case (1 idx mid)
  then show ?case
    by (cases "(idx, len, rs)" rule: replacements_ok.cases) auto
qed auto

text \<open>
  Chunks without old lines insert at the end of the file wherever they stand in the
  patch; everything else is found left to right. The stable sort puts such insertions
  where they belong: a list in which each replacement is before every later one or is
  an insertion at the end is, sorted, in order.
\<close>

definition at_end :: "nat \<Rightarrow> nat \<times> nat \<times> 'a list \<Rightarrow> bool" where
  "at_end len r \<longleftrightarrow> fst r = len \<and> fst (snd r) = 0"

lemma insort_before:
  assumes "sorted_wrt before rs" and "list_all (in_range len) (r # rs)"
    and "\<forall>r' \<in> set rs. before r r' \<or> at_end len r"
  shows "sorted_wrt before (insort_key fst r rs)"
  using assms
proof (induction rs)
  case (Cons q rs)
  show ?case
  proof (cases "fst r \<le> fst q")
    case True
    have "before r x" if "x \<in> set (q # rs)" for x
      using Cons.prems that True
      by (auto simp: before_def at_end_def in_range_def list_all_iff)
    with True Cons.prems show ?thesis by auto
  next
    case False
    then have "at_end len r" using Cons.prems by (auto simp: before_def)
    with False Cons show ?thesis
      by (auto simp: set_insort_key before_def at_end_def in_range_def list_all_iff)
  qed
qed simp

lemma sort_before:
  "sorted_wrt (\<lambda>r r'. before r r' \<or> at_end len r) rs \<Longrightarrow> list_all (in_range len) rs \<Longrightarrow>
   sorted_wrt before (sort_key fst rs)"
proof (induction rs)
  case (Cons r rs)
  then show ?case
    by (simp only: sort_key_simps) (rule insort_before [where len = len], auto simp: list_all_iff)
qed simp

section \<open>The replacements of one chunk\<close>

lemma context_loop_ok:
  "context_pairs_from os ns olds news ps \<Longrightarrow> os \<le> plen \<Longrightarrow> ns \<le> length new_slice \<Longrightarrow>
   \<exists>os' ns' qs. context_loop start_idx plen new_slice ps os ns reps = Inr (os', ns', reps @ qs)
     \<and> os' \<le> plen \<and> ns' \<le> length new_slice
     \<and> replacements_ok (start_idx + os) (start_idx + os') qs"
proof (induction ps arbitrary: os ns reps)
  case (Cons p ps)
  obtain oc nc where p: "p = (oc, nc)" by (cases p)
  show ?case
  proof (cases "plen \<le> oc \<or> length new_slice \<le> nc")
    case True
    with Cons.prems show ?thesis by (auto simp: p intro: exI [of _ "[]"])
  next
    case False
    let ?seg = "take (nc - ns) (drop ns new_slice)"
    let ?q = "if os \<noteq> oc \<or> ns \<noteq> nc then [(start_idx + os, oc - os, ?seg)] else []"
    from Cons.prems p have le: "os \<le> oc" "ns \<le> nc"
      and rest: "context_pairs_from (Suc oc) (Suc nc) olds news ps" by auto
    from Cons.IH [OF rest, of "reps @ ?q"] False obtain os' ns' qs where
      run: "context_loop start_idx plen new_slice ps (Suc oc) (Suc nc) (reps @ ?q)
              = Inr (os', ns', (reps @ ?q) @ qs)"
      and bounds: "os' \<le> plen" "ns' \<le> length new_slice"
      and ok: "replacements_ok (start_idx + Suc oc) (start_idx + os') qs"
      by auto
    have "replacements_ok (start_idx + os) (start_idx + os') (?q @ qs)"
      by (rule replacements_ok_append [of _ "start_idx + oc"])
         (use le in auto, rule replacements_ok_weaken [OF ok], simp)
    moreover have "context_loop start_idx plen new_slice (p # ps) os ns reps
        = Inr (os', ns', reps @ ?q @ qs)"
      using run False le by (auto simp: p usize_sub_def slice_def)
    ultimately show ?thesis using bounds by blast
  qed
qed (auto intro: exI [of _ "[]"])

lemma chunk_replacements_ok:
  assumes "context_pairs_from 0 0 olds news pairs"
  shows "\<exists>qs. chunk_replacements mode start_idx pattern new_slice pairs reps = Inr (reps @ qs)
    \<and> replacements_ok start_idx (start_idx + length pattern) qs"
proof (cases mode)
  case NormalizeToLf
  then show ?thesis by (simp add: chunk_replacements_def)
next
  case PreserveLineEndings
  from context_loop_ok [OF assms, of "length pattern" new_slice start_idx reps]
  obtain os ns qs where
    run: "context_loop start_idx (length pattern) new_slice pairs 0 0 reps = Inr (os, ns, reps @ qs)"
    and os: "os \<le> length pattern" and ns: "ns \<le> length new_slice"
    and ok: "replacements_ok start_idx (start_idx + os) qs" by auto
  let ?q = "if os \<noteq> length pattern \<or> ns \<noteq> length new_slice
            then [(start_idx + os, length pattern - os, drop ns new_slice)] else []"
  have "replacements_ok start_idx (start_idx + length pattern) (qs @ ?q)"
    using os by (intro replacements_ok_append [OF ok]) auto
  moreover have "chunk_replacements mode start_idx pattern new_slice pairs reps = Inr (reps @ qs @ ?q)"
    using run os ns PreserveLineEndings
    by (auto simp: chunk_replacements_def usize_sub_def slice_def)
  ultimately show ?thesis by blast
qed

section \<open>The replacements of all chunks\<close>

lemma seek_sequence_in_range:
  assumes "seek_sequence ls ps start eof mode = Some i" and "start \<le> length ls"
  shows "i + length ps \<le> length ls"
proof (cases "ps = []")
  case False
  show ?thesis by (rule seek_sequence_SomeD(1) [OF assms(1) False])
qed (use assms in auto)

text \<open>When a chunk is searched left to right, and additions go after the last line.\<close>

definition in_order :: "str list \<Rightarrow> file_update_mode \<Rightarrow> update_file_chunk \<Rightarrow> bool" where
  "in_order ls mode c \<longleftrightarrow>
     mode = PreserveLineEndings \<or> (\<not> is_end_of_file c \<and> (ls = [] \<or> last ls \<noteq> []))"

lemma insertion_idx_le [simp]: "insertion_idx ls mode \<le> length ls"
  by (auto simp: insertion_idx_def split: file_update_mode.splits)

lemma insertion_idx_in_order: "in_order ls mode c \<Longrightarrow> insertion_idx ls mode = length ls"
  by (auto simp: insertion_idx_def in_order_def split: file_update_mode.splits)

lemma seek_old_lines_seek:
  "seek_old_lines ls mode c li = (found, pattern, new_slice) \<Longrightarrow>
   seek_sequence ls pattern li (is_end_of_file c) mode = found"
  by (auto simp: seek_old_lines_def Let_def split: if_splits)

lemma seek_old_lines_SomeD:
  assumes "seek_old_lines ls mode c li = (Some s, pattern, new_slice)" and "li \<le> length ls"
  shows "s + length pattern \<le> length ls"
    and "in_order ls mode c \<Longrightarrow> li \<le> s"
  using seek_sequence_in_range [OF seek_old_lines_seek [OF assms(1)] assms(2)]
    seek_sequence_ge_start [OF seek_old_lines_seek [OF assms(1)]]
  by (auto simp: in_order_def)

lemma seek_context_InrD:
  assumes "seek_context ls path mode ctx li = Inr li'" and "li \<le> length ls"
  shows "li \<le> li'" and "li' \<le> length ls"
proof -
  have "li \<le> li' \<and> li' \<le> length ls"
  proof (cases ctx)
    case (Some line)
    with assms(1) obtain i where i: "seek_sequence ls [line] li False mode = Some i" "li' = Suc i"
      by (auto simp: seek_context_def split: option.splits)
    show ?thesis
      using seek_sequence_ge_start [OF i(1)] seek_sequence_in_range [OF i(1) assms(2)] i(2) by simp
  qed (use assms in \<open>auto simp: seek_context_def\<close>)
  then show "li \<le> li'" and "li' \<le> length ls" by auto
qed

lemma seek_context_no_panic [simp]: "seek_context ls path mode ctx li \<noteq> Inl Panic"
  by (auto simp: seek_context_def split: option.splits)

text \<open>What one chunk does to the state of the loop, when it does not fail.\<close>

lemma chunk_step_InrD:
  assumes "chunk_step ls path mode c (reps, li) = Inr (reps', li')"
    and "li \<le> length ls" and "chunk_wf c"
  obtains qs lo where "reps' = reps @ qs" "li' \<le> length ls"
    "old_lines c = [] \<Longrightarrow> qs = [(insertion_idx ls mode, 0, new_lines c)] \<and> li \<le> li'"
    "old_lines c \<noteq> [] \<Longrightarrow> replacements_ok lo li' qs"
    "in_order ls mode c \<Longrightarrow> old_lines c \<noteq> [] \<Longrightarrow> li \<le> lo"
proof -
  from assms(1) obtain li1 where ctx: "seek_context ls path mode (change_context c) li = Inr li1"
    by (auto simp: chunk_step_def)
  note li1 = seek_context_InrD [OF ctx assms(2)]
  show thesis
  proof (cases "old_lines c = []")
    case True
    with assms(1) ctx li1 that show thesis by (auto simp: chunk_step_def)
  next
    case False
    with assms(1) ctx obtain s pattern new_slice where
      seek: "seek_old_lines ls mode c li1 = (Some s, pattern, new_slice)"
      and reps: "chunk_replacements mode s pattern new_slice (context_line_indices c) reps = Inr reps'"
      and li': "li' = s + length pattern"
      by (auto simp: chunk_step_def split: prod.splits option.splits)
    from chunk_replacements_ok [of "old_lines c" "new_lines c" "context_line_indices c" mode s pattern
        new_slice reps] assms(3) reps obtain qs where
      "reps' = reps @ qs" "replacements_ok s (s + length pattern) qs"
      by (auto simp: chunk_wf_def)
    with that [of qs s] False li' li1(1) seek_old_lines_SomeD [OF seek li1(2)] show thesis
      using order_trans [OF li1(1)] by blast
  qed
qed

lemma chunk_step_no_panic:
  assumes "chunk_wf c"
  shows "chunk_step ls path mode c (reps, li) \<noteq> Inl Panic"
proof (cases "seek_context ls path mode (change_context c) li")
  case (Inr li1)
  obtain f pattern new_slice where seek: "seek_old_lines ls mode c li1 = (f, pattern, new_slice)"
    by (cases "seek_old_lines ls mode c li1")
  show ?thesis
  proof (cases f)
    case (Some s)
    from chunk_replacements_ok [of "old_lines c" "new_lines c" "context_line_indices c" mode s pattern
        new_slice reps] assms Inr seek Some show ?thesis
      by (auto simp: chunk_step_def chunk_wf_def)
  qed (use Inr seek in \<open>auto simp: chunk_step_def\<close>)
qed (use seek_context_no_panic [of ls path mode "change_context c" li] in \<open>auto simp: chunk_step_def\<close>)

section \<open>Invariants of the chunk loop\<close>

definition reps_inv :: "nat \<Rightarrow> nat \<Rightarrow> replacement list \<Rightarrow> bool" where
  "reps_inv len li reps \<longleftrightarrow> li \<le> len \<and> list_all (in_range len) reps
     \<and> sorted_wrt (\<lambda>r r'. before r r' \<or> at_end len r) reps
     \<and> list_all (\<lambda>r. fst r + fst (snd r) \<le> li \<or> at_end len r) reps"

lemma reps_inv_append:
  assumes "reps_inv len li reps" and "li \<le> lo" and "replacements_ok lo li' qs" and "li' \<le> len"
  shows "reps_inv len li' (reps @ qs)"
  using assms unfolding reps_inv_def replacements_ok_iff
  by (fastforce simp: sorted_wrt_append list_all_iff before_def in_range_def
      intro: sorted_wrt_mono_rel [of qs before])

lemma reps_inv_insertion:
  "reps_inv len li reps \<Longrightarrow> li \<le> li' \<Longrightarrow> li' \<le> len \<Longrightarrow> reps_inv len li' (reps @ [(len, 0, seg)])"
  by (fastforce simp: reps_inv_def sorted_wrt_append list_all_iff before_def in_range_def at_end_def)

lemma chunk_step_inv:
  assumes "chunk_step ls path mode c (reps, li) = Inr (reps', li')"
    and "reps_inv (length ls) li reps" and "chunk_wf c" and "in_order ls mode c"
  shows "reps_inv (length ls) li' reps'"
proof -
  from assms(2) have "li \<le> length ls" by (simp add: reps_inv_def)
  from chunk_step_InrD [OF assms(1) this assms(3)] obtain qs lo where
    qs: "reps' = reps @ qs" "li' \<le> length ls"
      "old_lines c = [] \<Longrightarrow> qs = [(insertion_idx ls mode, 0, new_lines c)] \<and> li \<le> li'"
      "old_lines c \<noteq> [] \<Longrightarrow> replacements_ok lo li' qs"
      "in_order ls mode c \<Longrightarrow> old_lines c \<noteq> [] \<Longrightarrow> li \<le> lo" by blast
  show ?thesis
  proof (cases "old_lines c = []")
    case True
    with qs assms(2,4) show ?thesis
      by (auto simp: insertion_idx_in_order [OF assms(4)] intro: reps_inv_insertion)
  next
    case False
    with qs assms(2,4) show ?thesis by (auto intro: reps_inv_append)
  qed
qed

lemma chunk_loop_inv:
  "chunk_loop ls path mode cs st = Inr st' \<Longrightarrow> reps_inv (length ls) (snd st) (fst st) \<Longrightarrow>
   list_all chunk_wf cs \<Longrightarrow> list_all (in_order ls mode) cs \<Longrightarrow>
   reps_inv (length ls) (snd st') (fst st')"
proof (induction cs arbitrary: st)
  case (Cons c cs)
  obtain reps li where st: "st = (reps, li)" by (cases st)
  from Cons.prems(1) st obtain reps1 li1 where
    step: "chunk_step ls path mode c (reps, li) = Inr (reps1, li1)"
    and rest: "chunk_loop ls path mode cs (reps1, li1) = Inr st'" by auto
  from chunk_step_inv [OF step] Cons.prems st have "reps_inv (length ls) li1 reps1" by simp
  with Cons.IH [OF rest] Cons.prems show ?case by simp
qed simp

text \<open>Without the guard the replacements are in range still.\<close>

lemma chunk_loop_in_range:
  "chunk_loop ls path mode cs st = Inr st' \<Longrightarrow>
   snd st \<le> length ls \<and> list_all (in_range (length ls)) (fst st) \<Longrightarrow> list_all chunk_wf cs \<Longrightarrow>
   snd st' \<le> length ls \<and> list_all (in_range (length ls)) (fst st')"
proof (induction cs arbitrary: st)
  case (Cons c cs)
  obtain reps li where st: "st = (reps, li)" by (cases st)
  from Cons.prems(1) st obtain reps1 li1 where
    step: "chunk_step ls path mode c (reps, li) = Inr (reps1, li1)"
    and rest: "chunk_loop ls path mode cs (reps1, li1) = Inr st'" by auto
  from Cons.prems st have "li \<le> length ls" "chunk_wf c" by auto
  from chunk_step_InrD [OF step this] obtain qs lo where
    qs: "reps1 = reps @ qs" "li1 \<le> length ls"
      "old_lines c = [] \<Longrightarrow> qs = [(insertion_idx ls mode, 0, new_lines c)] \<and> li \<le> li1"
      "old_lines c \<noteq> [] \<Longrightarrow> replacements_ok lo li1 qs" by blast
  then have "list_all (in_range (length ls)) qs"
    by (cases "old_lines c = []") (auto simp: replacements_ok_iff in_range_def list_all_iff)
  with Cons.IH [OF rest] Cons.prems st qs show ?case by auto
qed simp

lemma chunk_loop_no_panic:
  "list_all chunk_wf cs \<Longrightarrow> chunk_loop ls path mode cs st \<noteq> Inl Panic"
proof (induction cs arbitrary: st)
  case (Cons c cs)
  obtain reps li where "st = (reps, li)" by (cases st)
  with Cons chunk_step_no_panic [of c ls path mode reps li] show ?case
    by (cases "chunk_step ls path mode c st") auto
qed simp

lemma compute_replacements_InrD:
  assumes "compute_replacements ls path cs mode = Inr rs"
  obtains reps li where "chunk_loop ls path mode cs ([], 0) = Inr (reps, li)" "rs = sort_key fst reps"
  using assms by (auto simp: compute_replacements_def)

lemma computed_replacements_ok:
  assumes "compute_replacements ls path cs mode = Inr rs"
    and "list_all chunk_wf cs" and "list_all (in_order ls mode) cs"
  shows "replacements_ok 0 (length ls) rs"
proof -
  obtain reps li where loop: "chunk_loop ls path mode cs ([], 0) = Inr (reps, li)"
    and rs: "rs = sort_key fst reps"
    using assms(1) by (rule compute_replacements_InrD)
  have "reps_inv (length ls) li reps"
    using chunk_loop_inv [OF loop _ assms(2,3)] by (simp add: reps_inv_def)
  then show ?thesis
    by (simp add: rs replacements_ok_iff sort_before [where len = "length ls"] reps_inv_def list_all_iff)
qed

text \<open>
  The replacements computed from a parsed patch start in order, do not overlap and
  stay inside the file: always in the mode that preserves line endings, and in the mode
  that normalises them when no chunk is anchored at the end of the file and its last
  line is not empty.
\<close>

theorem compute_replacements_ok:
  assumes "compute_replacements ls path cs mode = Inr rs"
    and "list_all chunk_wf cs" and "list_all (in_order ls mode) cs"
  shows "replacements_ok 0 (length ls) rs"
  using assms by (rule computed_replacements_ok)

theorem compute_replacements_ok_witness:
  "\<exists>rs. compute_replacements [lit ''a'', lit ''b''] (lit ''f'')
          [default_chunk\<lparr>old_lines := [lit ''b''], new_lines := [lit ''c'']\<rparr>] PreserveLineEndings = Inr rs
     \<and> replacements_ok 0 2 rs"
proof -
  let ?c = "default_chunk\<lparr>old_lines := [lit ''b''], new_lines := [lit ''c'']\<rparr>"
  have run: "compute_replacements [lit ''a'', lit ''b''] (lit ''f'') [?c] PreserveLineEndings
      = Inr [(1, 1, [lit ''c''])]" by code_simp
  have "replacements_ok 0 (length [lit ''a'', lit ''b'']) [(1, 1, [lit ''c''])]"
    by (rule compute_replacements_ok [OF run])
       (simp_all add: chunk_wf_def default_chunk_def in_order_def)
  with run show ?thesis by auto
qed

end
