(* ===== verification/FileUpdateApply.thy ===== *)
theory FileUpdateApply
  imports FileUpdateCorrect
begin

text \<open>
  Applying replacements: both ways of the sources meet one interface, an editor of
  lines that splices, and what follows from it for the new contents of a file.
\<close>

section \<open>Applying in descending order\<close>

lemma remove_loop_eq [simp]: "remove_loop s n ls = take s ls @ drop (s + n) ls"
  by (induction s n ls rule: remove_loop.induct) (auto simp: min_def add.commute)

lemma insert_loop_eq: "i \<le> length ls \<Longrightarrow> insert_loop i new ls = Inr (take i ls @ new @ drop i ls)"
  by (induction i new ls rule: insert_loop.induct) (auto simp: min_def)

lemma apply_in_order_append:
  "apply_in_order (rs @ rs') ls = bind_result (apply_in_order rs ls) (apply_in_order rs')"
proof (induction rs arbitrary: ls)
  case (Cons r rs)
  then have "apply_in_order (rs @ rs') = (\<lambda>x. bind_result (apply_in_order rs x) (apply_in_order rs'))"
    by (intro ext)
  then show ?case by (cases r) (simp add: bind_result_assoc)
qed simp

lemma apply_in_order_single:
  "s \<le> length ls \<Longrightarrow> apply_in_order [(s, n, seg)] ls = Inr (take s ls @ seg @ drop (s + n) ls)"
  by (simp add: insert_loop_eq min_def)

text \<open>Sorted by start and in range, the replacements never make an insertion fail.\<close>

lemma apply_in_order_prefix:
  "sorted (map fst rs) \<Longrightarrow> \<forall>r \<in> set rs. m \<le> fst r \<and> fst r \<le> length ls \<Longrightarrow> m \<le> length ls \<Longrightarrow>
   \<exists>ls'. apply_in_order (rev rs) ls = Inr ls' \<and> m \<le> length ls' \<and> take m ls' = take m ls"
proof (induction rs arbitrary: m)
  case (Cons r rs)
  obtain s n seg where r: "r = (s, n, seg)" by (cases r)
  from Cons.prems r have "sorted (map fst rs)" "\<forall>q \<in> set rs. s \<le> fst q \<and> fst q \<le> length ls"
    and s: "m \<le> s" "s \<le> length ls" by auto
  from Cons.IH [OF this(1,2) s(2)] obtain ls' where
    ls': "apply_in_order (rev rs) ls = Inr ls'" "s \<le> length ls'" "take s ls' = take s ls" by blast
  then have "take m ls' = take m ls" using s by (metis min.absorb1 take_take)
  moreover have "apply_in_order (rev (r # rs)) ls = Inr (take s ls' @ seg @ drop (s + n) ls')"
    using ls' by (simp add: r apply_in_order_append apply_in_order_single del: apply_in_order.simps)
  ultimately show ?case using s ls'(2) by (auto simp: min_def)
qed simp

lemma apply_replacements_no_panic:
  assumes "sorted (map fst rs)" and "list_all (in_range (length ls)) rs"
  shows "\<exists>ls'. apply_replacements ls rs = Inr ls'"
  using apply_in_order_prefix [of rs 0 ls] assms
  by (fastforce simp: apply_replacements_def list_all_iff in_range_def)

lemma apply_in_order_splice:
  "replacements_ok idx (length ls) rs \<Longrightarrow>
   apply_in_order (rev rs) ls = Inr (take idx ls @ splice_from idx rs (drop idx ls))"
proof (induction idx "length ls" rs rule: replacements_ok.induct)
  case (2 idx s n seg rs)
  from "2.prems" have idx: "idx \<le> s" and ok: "replacements_ok (s + n) (length ls) rs" by auto
  from replacements_ok_le [OF ok] have "s + n \<le> length ls" .
  with 2 idx show ?case
    by (simp add: apply_in_order_append apply_in_order_single min_def del: apply_in_order.simps)
       (metis add.commute append.assoc drop_drop le_add_diff_inverse take_add)
qed simp

text \<open>
  The in-place editing from the last replacement to the first is the same as one pass
  over the lines: removing and inserting never shifts a replacement that is still to be
  applied, and no insertion is out of range.
\<close>

theorem apply_replacements_splice:
  assumes "replacements_ok 0 (length ls) rs"
  shows "apply_replacements ls rs = Inr (splice_from 0 rs ls)"
  using apply_in_order_splice [OF assms] by (simp add: apply_replacements_def)

theorem apply_replacements_splice_witness:
  "apply_replacements [lit ''a'', lit ''b'', lit ''c''] [(0, 1, []), (2, 0, [lit ''x'', lit ''y''])]
     = Inr [lit ''b'', lit ''x'', lit ''y'', lit ''c'']"
  using apply_replacements_splice
      [of "[lit ''a'', lit ''b'', lit ''c'']" "[(0, 1, []), (2, 0, [lit ''x'', lit ''y''])]"]
  by simp

section \<open>Editors of lines\<close>

text \<open>
  What the two update modes share: a representation of a file with its line texts, and
  an edit that splices ordered, disjoint replacements into them.
\<close>

locale line_editor =
  fixes texts :: "'f \<Rightarrow> str list"
    and edit :: "'f \<Rightarrow> replacement list \<Rightarrow> 'f patch_result"
  assumes edit_splice: "replacements_ok 0 (length (texts f)) rs \<Longrightarrow>
    \<exists>g. edit f rs = Inr g \<and> texts g = splice_from 0 rs (texts f)"
begin

lemma update_splice:
  assumes "compute_replacements (texts f) path cs mode = Inr rs"
    and "list_all chunk_wf cs" and "list_all (in_order (texts f) mode) cs"
  shows "\<exists>g. bind_result (compute_replacements (texts f) path cs mode) (edit f) = Inr g
           \<and> texts g = splice_from 0 rs (texts f)"
  using edit_splice [OF computed_replacements_ok [OF assms]] assms(1) by simp

lemma update_error:
  assumes "bind_result (compute_replacements (texts f) path cs mode) (edit f) = Inl e"
    and "list_all chunk_wf cs" and "list_all (in_order (texts f) mode) cs"
  shows "compute_replacements (texts f) path cs mode = Inl e"
proof (cases "compute_replacements (texts f) path cs mode")
  case (Inr rs)
  with update_splice [OF Inr assms(2,3)] assms(1) show ?thesis by auto
qed (use assms in auto)

end

interpretation lf_lines: line_editor "\<lambda>ls. ls" apply_replacements
  by unfold_locales (simp add: apply_in_order_splice [where idx = 0, simplified] apply_replacements_def)

interpretation source_lines: line_editor line_texts source_apply_replacements
proof unfold_locales
  fix f :: source_file and rs :: "replacement list"
  assume "replacements_ok 0 (length (line_texts f)) rs"
  then show "\<exists>g. source_apply_replacements f rs = Inr g \<and> line_texts g = splice_from 0 rs (line_texts f)"
    using source_splice [of f rs] by (auto simp: line_texts_def)
qed

end
