(* ===== verification/FileUpdatePass.thy ===== *)
theory FileUpdatePass
  imports FileUpdateApply
begin

text \<open>
  The specification of an update and its refinement. Applying the chunks of a patch
  means one pass over the lines of the file: seek the context, seek the old lines, copy
  what is in between, emit the chunk's side. The code collects replacements, sorts them and applies them; the results are
  the same, errors included.
\<close>

section \<open>The specification\<close>

text \<open>
  The lines a matched chunk leaves in the file: the patch's new lines, where the mode
  that preserves line endings keeps the file's own line for every context line.
\<close>

fun keep_context :: "nat \<Rightarrow> nat \<Rightarrow> str list \<Rightarrow> str list \<Rightarrow> (nat \<times> nat) list \<Rightarrow> str list" where
  "keep_context os ns file news [] = drop ns news"
| "keep_context os ns file news ((i, j) # ps) =
     (if length file \<le> i \<or> length news \<le> j then drop ns news
      else take (j - ns) (drop ns news) @ file ! i # keep_context (Suc i) (Suc j) file news ps)"

definition chunk_window ::
    "file_update_mode \<Rightarrow> str list \<Rightarrow> str list \<Rightarrow> (nat \<times> nat) list \<Rightarrow> str list" where
  "chunk_window mode file news pairs =
     (case mode of NormalizeToLf \<Rightarrow> news | PreserveLineEndings \<Rightarrow> keep_context 0 0 file news pairs)"

fun patch_pass ::
    "str list \<Rightarrow> str \<Rightarrow> file_update_mode \<Rightarrow> update_file_chunk list \<Rightarrow> nat \<Rightarrow> nat
     \<Rightarrow> str list patch_result" where
  "patch_pass ls path mode [] pos li = Inr (drop pos ls)"
| "patch_pass ls path mode (c # cs) pos li =
     bind_result (seek_context ls path mode (change_context c) li) (\<lambda>li1.
       if old_lines c = [] then
         bind_result (patch_pass ls path mode cs (length ls) li1) (\<lambda>rest.
           Inr (drop pos ls @ new_lines c @ rest))
       else
         (case seek_old_lines ls mode c li1 of
            (Some s, pattern, news) \<Rightarrow>
              (let copied = take (s - pos) (drop pos ls);
                   window = chunk_window mode (take (length pattern) (drop s ls)) news
                              (context_line_indices c);
                   next_pos = s + length pattern
               in bind_result (patch_pass ls path mode cs next_pos next_pos) (\<lambda>rest.
                    Inr (copied @ window @ rest)))
          | (None, pattern, news) \<Rightarrow> Inl (Failed (expected_lines_error (old_lines c) path))))"

text \<open>Chunks that only add come after the chunks that match lines of the file.\<close>

fun additions_last :: "update_file_chunk list \<Rightarrow> bool" where
  "additions_last [] \<longleftrightarrow> True"
| "additions_last (c # cs) \<longleftrightarrow>
     (if old_lines c = [] then list_all (\<lambda>c. old_lines c = []) cs else additions_last cs)"

lemma additions_last_all: "list_all (\<lambda>c. old_lines c = []) cs \<Longrightarrow> additions_last cs"
  by (cases cs) auto

section \<open>Segments of one chunk\<close>

fun segs ::
    "nat \<Rightarrow> nat \<Rightarrow> str list \<Rightarrow> (nat \<times> nat) list \<Rightarrow> nat \<Rightarrow> nat \<Rightarrow> replacement list" where
  "segs s plen news [] os ns =
     (if os \<noteq> plen \<or> ns \<noteq> length news then [(s + os, plen - os, drop ns news)] else [])"
| "segs s plen news ((i, j) # ps) os ns =
     (if plen \<le> i \<or> length news \<le> j then
        (if os \<noteq> plen \<or> ns \<noteq> length news then [(s + os, plen - os, drop ns news)] else [])
      else (if os \<noteq> i \<or> ns \<noteq> j then [(s + os, i - os, take (j - ns) (drop ns news))] else [])
           @ segs s plen news ps (Suc i) (Suc j))"

lemma segs_ok:
  "context_pairs_from os ns olds news' ps \<Longrightarrow> os \<le> plen \<Longrightarrow>
   replacements_ok (s + os) (s + plen) (segs s plen news ps os ns)"
proof (induction s plen news ps os ns rule: segs.induct)
  case (2 s plen news i j ps os ns)
  show ?case
  proof (cases "plen \<le> i \<or> length news \<le> j")
    case False
    with 2 have ok: "replacements_ok (s + Suc i) (s + plen) (segs s plen news ps (Suc i) (Suc j))"
      and le: "os \<le> i" by auto
    have from_i: "replacements_ok (s + i) (s + plen) (segs s plen news ps (Suc i) (Suc j))"
      by (rule replacements_ok_weaken [OF ok]) simp
    with le False show ?thesis
      using replacements_ok_weaken [OF from_i, of "s + os"] by auto
  qed (use 2 in auto)
qed auto

lemma context_loop_segs:
  "context_pairs_from os ns olds news' ps \<Longrightarrow> os \<le> plen \<Longrightarrow> ns \<le> length news \<Longrightarrow>
   \<exists>os' ns' qs. context_loop s plen news ps os ns reps = Inr (os', ns', reps @ qs)
     \<and> os' \<le> plen \<and> ns' \<le> length news
     \<and> segs s plen news ps os ns = qs @ segs s plen news [] os' ns'"
proof (induction ps arbitrary: os ns reps)
  case (Cons p ps)
  obtain i j where p: "p = (i, j)" by (cases p)
  show ?case
  proof (cases "plen \<le> i \<or> length news \<le> j")
    case True
    with Cons.prems show ?thesis by (auto simp: p intro: exI [of _ "[]"])
  next
    case False
    let ?q = "if os \<noteq> i \<or> ns \<noteq> j then [(s + os, i - os, take (j - ns) (drop ns news))] else []"
    from Cons.prems p have le: "os \<le> i" "ns \<le> j"
      and rest: "context_pairs_from (Suc i) (Suc j) olds news' ps" by auto
    from Cons.IH [OF rest, of "reps @ ?q"] False obtain os' ns' qs where
      "context_loop s plen news ps (Suc i) (Suc j) (reps @ ?q) = Inr (os', ns', (reps @ ?q) @ qs)"
      "os' \<le> plen" "ns' \<le> length news"
      "segs s plen news ps (Suc i) (Suc j) = qs @ segs s plen news [] os' ns'" by auto
    moreover from this(1) have
      "context_loop s plen news (p # ps) os ns reps = Inr (os', ns', reps @ ?q @ qs)"
      using False le by (auto simp: p usize_sub_def slice_def)
    moreover have "segs s plen news (p # ps) os ns = ?q @ segs s plen news ps (Suc i) (Suc j)"
      using False by (simp add: p)
    ultimately show ?thesis by (intro exI [of _ os'] exI [of _ ns'] exI [of _ "?q @ qs"]) simp
  qed
qed (auto intro: exI [of _ "[]"])

lemma chunk_replacements_segs:
  assumes "context_pairs_from 0 0 olds news' pairs"
  shows "chunk_replacements PreserveLineEndings s pattern news pairs reps
    = Inr (reps @ segs s (length pattern) news pairs 0 0)"
proof -
  from context_loop_segs [OF assms, of "length pattern" news s reps] obtain os ns qs where
    "context_loop s (length pattern) news pairs 0 0 reps = Inr (os, ns, reps @ qs)"
    "os \<le> length pattern" "ns \<le> length news"
    "segs s (length pattern) news pairs 0 0 = qs @ segs s (length pattern) news [] os ns" by auto
  then show ?thesis by (auto simp: chunk_replacements_def usize_sub_def slice_def)
qed

text \<open>Starting the splice later only splits the copied lines.\<close>

lemma splice_from_skip:
  assumes "idx \<le> idx'" and "replacements_ok idx' (length ls) rs"
  shows "splice_from idx rs (drop idx ls)
    = take (idx' - idx) (drop idx ls) @ splice_from idx' rs (drop idx' ls)"
proof (cases rs)
  case Nil
  with assms(1) show ?thesis
    using append_take_drop_id [of "idx' - idx" "drop idx ls"]
    by (simp del: append_take_drop_id)
next
  case (Cons r rs')
  obtain st n seg where r: "r = (st, n, seg)" by (cases r)
  with Cons assms have "idx' \<le> st" by simp
  then have "take (st - idx) (drop idx ls)
      = take (idx' - idx) (drop idx ls) @ take (st - idx') (drop idx' ls)"
    using assms(1) take_add [of "idx' - idx" "st - idx'" "drop idx ls"] by simp
  with Cons r \<open>idx' \<le> st\<close> assms(1) show ?thesis by simp
qed

lemma splice_segs:
  "context_pairs_from os ns olds news' ps \<Longrightarrow> os \<le> plen \<Longrightarrow> s + plen \<le> length ls \<Longrightarrow>
   replacements_ok (s + plen) (length ls) rest \<Longrightarrow> ns \<le> length news \<Longrightarrow>
   splice_from (s + os) (segs s plen news ps os ns @ rest) (drop (s + os) ls)
     = keep_context os ns (take plen (drop s ls)) news ps @ splice_from (s + plen) rest (drop (s + plen) ls)"
proof (induction s plen news ps os ns rule: segs.induct)
  case (2 s plen news i j ps os ns)
  show ?case
  proof (cases "plen \<le> i \<or> length news \<le> j")
    case False
    let ?q = "segs s plen news ps (Suc i) (Suc j) @ rest"
    from "2.prems" False have le: "os \<le> i" "ns \<le> j"
      and pairs: "context_pairs_from (Suc i) (Suc j) olds news' ps" by auto
    from segs_ok [OF pairs, of plen s news] False
    have "replacements_ok (s + Suc i) (length ls) ?q"
      by (intro replacements_ok_append [of _ "s + plen"]) (use "2.prems" in auto)
    from splice_from_skip [OF _ this, of "s + i"]
    have "splice_from (s + i) ?q (drop (s + i) ls)
        = ls ! (s + i) # splice_from (s + Suc i) ?q (drop (s + Suc i) ls)"
      using "2.prems"(3) False by (simp add: take_Suc_conv_app_nth)
    also have "splice_from (s + Suc i) ?q (drop (s + Suc i) ls)
        = keep_context (Suc i) (Suc j) (take plen (drop s ls)) news ps
            @ splice_from (s + plen) rest (drop (s + plen) ls)"
      by (rule "2.IH") (use False pairs "2.prems" in auto)
    finally show ?thesis using False le "2.prems"(3) by (auto simp: add.commute [of i s])
  qed (use 2 in \<open>auto simp: add.commute [of plen s]\<close>)
qed (auto simp: add.commute)

lemma splice_chunk:
  assumes "chunk_replacements mode s pattern news pairs reps = Inr (reps @ qs)"
    and "context_pairs_from 0 0 olds news' pairs" and "s + length pattern \<le> length ls"
    and "replacements_ok (s + length pattern) (length ls) rest" and "pos \<le> s"
  shows "splice_from pos (qs @ rest) (drop pos ls)
    = take (s - pos) (drop pos ls)
      @ chunk_window mode (take (length pattern) (drop s ls)) news pairs
      @ splice_from (s + length pattern) rest (drop (s + length pattern) ls)"
proof (cases mode)
  case NormalizeToLf
  with assms(1) have "qs = [(s, length pattern, news)]" by (simp add: chunk_replacements_def)
  with NormalizeToLf assms(5) show ?thesis by (simp add: chunk_window_def)
next
  case PreserveLineEndings
  with assms(1) chunk_replacements_segs [OF assms(2)]
  have qs: "qs = segs s (length pattern) news pairs 0 0" by simp
  have "replacements_ok s (length ls) (qs @ rest)"
    unfolding qs by (rule replacements_ok_append [OF _ assms(4)])
      (use segs_ok [OF assms(2), of "length pattern" s news] in simp)
  from splice_from_skip [OF assms(5) this] splice_segs [OF assms(2) _ assms(3,4), of news] show ?thesis
    by (simp add: qs PreserveLineEndings chunk_window_def)
qed

section \<open>Refinement\<close>

lemma chunk_replacements_append:
  assumes "context_pairs_from 0 0 olds news' pairs"
  shows "\<exists>qs. \<forall>reps. chunk_replacements mode s pattern news pairs reps = Inr (reps @ qs)"
proof (cases mode)
  case NormalizeToLf
  then show ?thesis by (simp add: chunk_replacements_def)
next
  case PreserveLineEndings
  with chunk_replacements_segs [OF assms] show ?thesis by blast
qed

definition pass_refines ::
    "str list \<Rightarrow> nat \<Rightarrow> str list patch_result \<Rightarrow> replacement list
     \<Rightarrow> (replacement list \<times> nat) patch_result \<Rightarrow> bool" where
  "pass_refines ls pos spec reps run \<longleftrightarrow>
     (case run of
        Inl e \<Rightarrow> spec = Inl e
      | Inr (reps', li') \<Rightarrow> (\<exists>qs. reps' = reps @ qs \<and> replacements_ok pos (length ls) qs
          \<and> spec = Inr (splice_from pos qs (drop pos ls))))"

lemma pass_refines_found:
  assumes run: "\<And>reps. pass_refines ls (s + length pattern) spec reps (run reps)"
    and pairs: "context_pairs_from 0 0 olds news' pairs"
    and bounds: "s + length pattern \<le> length ls" "pos \<le> s"
  shows "pass_refines ls pos
    (bind_result spec (\<lambda>rest. Inr (take (s - pos) (drop pos ls)
       @ chunk_window mode (take (length pattern) (drop s ls)) news pairs @ rest))) reps
    (bind_result (chunk_replacements mode s pattern news pairs reps) run)"
proof -
  obtain qs where qs: "\<And>reps. chunk_replacements mode s pattern news pairs reps = Inr (reps @ qs)"
    using chunk_replacements_append [OF pairs, of mode s pattern news] by blast
  from chunk_replacements_ok [OF pairs, of mode s pattern news reps]
  have ok: "replacements_ok s (s + length pattern) qs" by (simp add: qs)
  show ?thesis
  proof (cases "run (reps @ qs)")
    case (Inl e)
    with run [of "reps @ qs"] show ?thesis by (simp add: pass_refines_def qs)
  next
    case (Inr st)
    obtain reps' li' where st: "st = (reps', li')" by (cases st)
    from run [of "reps @ qs"] obtain rest where
      rest: "reps' = reps @ qs @ rest" "replacements_ok (s + length pattern) (length ls) rest"
        "spec = Inr (splice_from (s + length pattern) rest (drop (s + length pattern) ls))"
      by (auto simp: pass_refines_def Inr st)
    have "replacements_ok pos (length ls) (qs @ rest)"
      by (rule replacements_ok_append [OF replacements_ok_weaken [OF ok bounds(2)] rest(2)])
    moreover from splice_chunk [OF qs pairs bounds(1) rest(2) bounds(2)] rest(3)
    have "bind_result spec (\<lambda>rest. Inr (take (s - pos) (drop pos ls)
        @ chunk_window mode (take (length pattern) (drop s ls)) news pairs @ rest))
      = Inr (splice_from pos (qs @ rest) (drop pos ls))" by simp
    ultimately show ?thesis using rest(1) by (auto simp: pass_refines_def qs Inr st)
  qed
qed

lemma pass_refines_addition:
  assumes "pass_refines ls (length ls) spec (reps @ [(length ls, 0, new)]) run" and "pos \<le> length ls"
  shows "pass_refines ls pos (bind_result spec (\<lambda>rest. Inr (drop pos ls @ new @ rest))) reps run"
proof (cases run)
  case (Inr st)
  obtain reps' li' where st: "st = (reps', li')" by (cases st)
  from assms(1) obtain qs where "reps' = reps @ (length ls, 0, new) # qs"
      "replacements_ok (length ls) (length ls) qs"
      "spec = Inr (splice_from (length ls) qs [])"
    by (auto simp: pass_refines_def Inr st)
  with assms(2) show ?thesis by (auto simp: pass_refines_def Inr st)
qed (use assms in \<open>simp add: pass_refines_def\<close>)

lemma chunk_loop_refines:
  "pos \<le> length ls \<Longrightarrow> li \<le> length ls \<Longrightarrow> pos \<le> li \<or> list_all (\<lambda>c. old_lines c = []) cs \<Longrightarrow>
   additions_last cs \<Longrightarrow> list_all chunk_wf cs \<Longrightarrow> list_all (in_order ls mode) cs \<Longrightarrow>
   pass_refines ls pos (patch_pass ls path mode cs pos li) reps (chunk_loop ls path mode cs (reps, li))"
proof (induction cs arbitrary: pos li reps)
  case Nil
  then show ?case by (simp add: pass_refines_def)
next
  case (Cons c cs)
  show ?case
  proof (cases "seek_context ls path mode (change_context c) li")
    case (Inl e)
    then show ?thesis by (simp add: chunk_step_def pass_refines_def)
  next
    case ctx: (Inr li1)
    note li1 = seek_context_InrD [OF ctx Cons.prems(2)]
    show ?thesis
    proof (cases "old_lines c = []")
      case True
      with Cons.prems have "pass_refines ls (length ls) (patch_pass ls path mode cs (length ls) li1)
          (reps @ [(length ls, 0, new_lines c)])
          (chunk_loop ls path mode cs (reps @ [(length ls, 0, new_lines c)], li1))"
        by (intro Cons.IH) (auto simp: li1 list_all_iff intro: additions_last_all)
      moreover have "insertion_idx ls mode = length ls"
        by (rule insertion_idx_in_order [of _ _ c]) (use Cons.prems in simp)
      ultimately show ?thesis
        using pass_refines_addition [OF _ Cons.prems(1)] True by (simp add: chunk_step_def ctx)
    next
      case False
      obtain f pattern news where seek: "seek_old_lines ls mode c li1 = (f, pattern, news)"
        by (cases "seek_old_lines ls mode c li1")
      show ?thesis
      proof (cases f)
        case None
        with False show ?thesis by (simp add: chunk_step_def ctx seek pass_refines_def)
      next
        case (Some s)
        note s = seek_old_lines_SomeD [OF seek [unfolded Some] li1(2)]
        from Cons.prems False have "additions_last cs" "chunk_wf c" "in_order ls mode c" "pos \<le> li"
          by auto
        have "pass_refines ls (s + length pattern)
            (patch_pass ls path mode cs (s + length pattern) (s + length pattern)) reps
            (chunk_loop ls path mode cs (reps, s + length pattern))" for reps
          by (intro Cons.IH) (use Cons.prems s \<open>additions_last cs\<close> in auto)
        from pass_refines_found [where run = "\<lambda>reps. chunk_loop ls path mode cs (reps, s + length pattern)",
            OF this \<open>chunk_wf c\<close> [unfolded chunk_wf_def] s(1)]
          s(2) [OF \<open>in_order ls mode c\<close>] \<open>pos \<le> li\<close> li1(1)
        show ?thesis
          by (simp add: chunk_step_def ctx seek Some False bind_result_assoc Let_def)
      qed
    qed
  qed
qed

text \<open>An editor of lines computes what the specification says, whatever it represents.\<close>

context line_editor
begin

lemma update_refines:
  assumes "list_all chunk_wf cs" and "list_all (in_order (texts f) mode) cs" and "additions_last cs"
  shows "map_sum id texts (bind_result (compute_replacements (texts f) path cs mode) (edit f))
    = patch_pass (texts f) path mode cs 0 0"
proof -
  have r: "pass_refines (texts f) 0 (patch_pass (texts f) path mode cs 0 0) []
      (chunk_loop (texts f) path mode cs ([], 0))"
    by (rule chunk_loop_refines) (use assms in auto)
  show ?thesis
  proof (cases "chunk_loop (texts f) path mode cs ([], 0)")
    case (Inl e)
    with r show ?thesis by (simp add: pass_refines_def compute_replacements_def)
  next
    case (Inr st)
    obtain reps li where st: "st = (reps, li)" by (cases st)
    with r Inr have ok: "replacements_ok 0 (length (texts f)) reps"
      and spec: "patch_pass (texts f) path mode cs 0 0 = Inr (splice_from 0 reps (texts f))"
      by (auto simp: pass_refines_def)
    from ok have "sorted (map fst reps)"
      by (simp add: replacements_ok_iff before_sorted)
    then have "sort_key fst reps = reps" by (rule sort_key_id_if_sorted)
    with edit_splice [OF ok] spec Inr st show ?thesis by (auto simp: compute_replacements_def)
  qed
qed

end



definition sample_chunks :: "update_file_chunk list" where
  "sample_chunks =
    [\<lparr>change_context = Some (lit ''f''), old_lines = [lit ''a'', lit ''b''],
      new_lines = [lit ''a'', lit ''c''], context_line_indices = [(0, 0)], is_end_of_file = False\<rparr>,
     default_chunk\<lparr>new_lines := [lit ''z'']\<rparr>]"

lemma sample_chunks_ok:
  "list_all chunk_wf sample_chunks" "additions_last sample_chunks"
  "list_all (in_order [lit ''f'', lit ''a '', lit ''b''] mode) sample_chunks"
  by (simp_all add: sample_chunks_def chunk_wf_def default_chunk_def in_order_def lit_def)



section \<open>Panics and endings\<close>

lemma new_contents_no_panic:
  assumes "list_all chunk_wf cs"
  shows "new_contents_of path contents cs mode \<noteq> Inl Panic"
proof -
  have no: "compute_replacements ls path cs mode \<noteq> Inl Panic" for ls
    using chunk_loop_no_panic [OF assms, of ls path mode "([], 0)"]
    by (cases "chunk_loop ls path mode cs ([], 0)") (auto simp: compute_replacements_def)
  show ?thesis
  proof (cases mode)
    case NormalizeToLf
    let ?ls = "split_original_lines contents"
    show ?thesis
    proof (cases "compute_replacements ?ls path cs mode")
      case (Inr rs)
      then obtain reps li where "chunk_loop ?ls path mode cs ([], 0) = Inr (reps, li)"
          "rs = sort_key fst reps"
        by (rule compute_replacements_InrD)
      with chunk_loop_in_range [of ?ls path mode cs "([], 0)" "(reps, li)"] assms
      have "sorted (map fst rs)" "list_all (in_range (length ?ls)) rs"
        by (auto simp: list_all_iff)
      from apply_replacements_no_panic [OF this] Inr NormalizeToLf show ?thesis
        by (auto simp: new_contents_of_def Let_def)
    qed (use no [of ?ls] NormalizeToLf in \<open>auto simp: new_contents_of_def Let_def\<close>)
  next
    case PreserveLineEndings
    let ?f = "parse_source contents"
    show ?thesis
    proof (cases "compute_replacements (line_texts ?f) path cs mode")
      case (Inr rs)
      have "list_all (in_order (line_texts ?f) mode) cs"
        by (simp add: in_order_def PreserveLineEndings list_all_iff)
      from source_lines.update_splice [OF Inr assms this] Inr PreserveLineEndings show ?thesis
        by (auto simp: new_contents_of_def Let_def)
    qed (use no [of "line_texts ?f"] PreserveLineEndings in \<open>auto simp: new_contents_of_def Let_def\<close>)
  qed
qed

lemma join_last_empty: "ls \<noteq> [] \<Longrightarrow> last ls = [] \<Longrightarrow> join [LF] ls = [] \<or> last (join [LF] ls) = LF"
proof (induction "[LF] :: str" ls rule: join.induct)
  case (3 x y ys)
  then show ?case by (cases "join [LF] (y # ys) = []") auto
qed auto

lemma into_contents_last:
  "list_all (\<lambda>l. ending l \<noteq> None) (file_lines g) \<Longrightarrow>
   into_contents g = [] \<or> last (into_contents g) \<in> {LF, CR}"
proof (cases "file_lines g" rule: rev_cases)
  case (snoc ls l)
  moreover assume "list_all (\<lambda>l. ending l \<noteq> None) (file_lines g)"
  ultimately obtain e where "ending l = Some e" by auto
  with snoc show ?thesis by (cases e) (auto simp: into_contents_def render_line_def)
qed (simp add: into_contents_def)

text \<open>
  An updated file is empty or ends with a line ending, which is a newline in the mode
  that normalises to LF.
\<close>

theorem new_contents_trailing_newline:
  assumes "new_contents_of path contents cs mode = Inr s" and "list_all chunk_wf cs"
  shows "s = [] \<or> last s = LF \<or> mode = PreserveLineEndings \<and> last s = CR"
proof (cases mode)
  case NormalizeToLf
  with assms(1) obtain ls where "s = join_new_lines ls"
    by (auto simp: new_contents_of_def Let_def)
  then show ?thesis
    using join_last_empty [of "if ls \<noteq> [] \<and> last ls = [] then ls else ls @ [[]]"]
    by (auto simp: join_new_lines_def)
next
  case PreserveLineEndings
  let ?f = "parse_source contents"
  from assms(1) PreserveLineEndings obtain rs g where
    rs: "compute_replacements (line_texts ?f) path cs PreserveLineEndings = Inr rs"
    and g: "source_apply_replacements ?f rs = Inr g" "s = into_contents g"
    by (auto simp: new_contents_of_def Let_def)
  have "replacements_ok 0 (length (file_lines ?f)) rs"
    using computed_replacements_ok [OF rs assms(2)]
    by (simp add: in_order_def list_all_iff line_texts_def)
  from source_splice [OF this] g have "list_all (\<lambda>l. ending l \<noteq> None) (file_lines g)" by auto
  with into_contents_last [of g] g(2) PreserveLineEndings show ?thesis by auto
qed

theorem new_contents_trailing_newline_witness:
  "new_contents_of [] (lit ''a'') [default_chunk\<lparr>new_lines := [lit ''b'']\<rparr>] NormalizeToLf
     = Inr (join [LF] [lit ''a'', lit ''b'', []])
   \<and> last (join [LF] [lit ''a'', lit ''b'', []]) = LF"
proof -
  let ?c = "default_chunk\<lparr>new_lines := [lit ''b'']\<rparr>"
  have run: "new_contents_of [] (lit ''a'') [?c] NormalizeToLf = Inr (join [LF] [lit ''a'', lit ''b'', []])"
    by code_simp
  have wf: "list_all chunk_wf [?c]" by (simp add: chunk_wf_def default_chunk_def)
  have "join [LF] [lit ''a'', lit ''b'', []] \<noteq> []" by simp
  with run new_contents_trailing_newline [OF run wf] show ?thesis by blast
qed

section \<open>What the modes disagree on\<close>

text \<open>
  On an exact match the mode that preserves line endings leaves the patch's new
  lines in the file, as the other mode does: keeping the file's context lines matters
  only where the match was lenient.
\<close>

theorem chunk_window_exact:
  assumes "chunk_wf c"
  shows "chunk_window mode (old_lines c) (new_lines c) (context_line_indices c) = new_lines c"
proof -
  have "context_pairs_from os ns olds news ps \<Longrightarrow> keep_context os ns olds news ps = drop ns news"
    for os ns ps and olds news :: "str list"
  proof (induction os ns olds news ps rule: context_pairs_from.induct)
    case (2 os ns olds news i j ps)
    then have "keep_context os ns olds news ((i, j) # ps)
        = take (j - ns) (drop ns news) @ news ! j # drop (Suc j) news" by simp
    also have "\<dots> = drop ns news"
      using 2 by (simp add: Cons_nth_drop_Suc)
        (metis append_take_drop_id drop_drop le_add_diff_inverse2)
    finally show ?case .
  qed simp
  from this [OF assms [unfolded chunk_wf_def]] show ?thesis
    by (simp add: chunk_window_def split: file_update_mode.splits)
qed

theorem chunk_window_exact_witness:
  "chunk_window PreserveLineEndings [lit ''a'', lit ''b''] [lit ''a'', lit ''c''] [(0, 0)]
     = [lit ''a'', lit ''c'']"
  using chunk_window_exact [of "hd sample_chunks" PreserveLineEndings]
  by (simp add: sample_chunks_def chunk_wf_def)

definition overlapping_chunks :: "update_file_chunk list" where
  "overlapping_chunks =
    [default_chunk\<lparr>old_lines := [lit ''a'', lit ''b''], new_lines := [lit ''x'']\<rparr>,
     default_chunk\<lparr>old_lines := [lit ''b''], new_lines := [lit ''b'', lit ''c''], is_end_of_file := True\<rparr>]"

text \<open>
  Why \<open>in_order\<close> is needed: in the mode that normalises to LF an end-of-file chunk
  may match a line that an earlier chunk has already replaced. The overlapping
  replacements are applied without an error; the other mode rejects the same patch.
\<close>

theorem eof_chunk_overlap:
  "new_contents_of (lit ''f'') (join [LF] [lit ''a'', lit ''b'', []]) overlapping_chunks NormalizeToLf
     = Inr (join [LF] [lit ''x'', lit ''c'', []])
   \<and> new_contents_of (lit ''f'') (join [LF] [lit ''a'', lit ''b'', []]) overlapping_chunks
       PreserveLineEndings
     = Inl (Failed (expected_lines_error [lit ''b''] (lit ''f'')))"
  by (intro conjI) code_simp+

end
