(* ===== verification/PatchParser.thy ===== *)
theory PatchParser
  imports PatchTypes
begin

text \<open>
  \<open>apply-patch/src/streaming_parser.rs\<close> and \<open>apply-patch/src/parser.rs\<close>: the line-driven
  parser of patches, fed in pieces of any size, and the parser of a whole patch text
  built on it, with the leniency for heredocs.
\<close>

section \<open>Markers\<close>

definition BEGIN_PATCH_MARKER :: str where "BEGIN_PATCH_MARKER = lit ''*** Begin Patch''"
definition END_PATCH_MARKER :: str where "END_PATCH_MARKER = lit ''*** End Patch''"
definition ADD_FILE_MARKER :: str where "ADD_FILE_MARKER = lit ''*** Add File: ''"
definition DELETE_FILE_MARKER :: str where "DELETE_FILE_MARKER = lit ''*** Delete File: ''"
definition UPDATE_FILE_MARKER :: str where "UPDATE_FILE_MARKER = lit ''*** Update File: ''"
definition MOVE_TO_MARKER :: str where "MOVE_TO_MARKER = lit ''*** Move to: ''"
definition EOF_MARKER :: str where "EOF_MARKER = lit ''*** End of File''"
definition CHANGE_CONTEXT_MARKER :: str where "CHANGE_CONTEXT_MARKER = lit ''@@ ''"
definition EMPTY_CHANGE_CONTEXT_MARKER :: str where "EMPTY_CHANGE_CONTEXT_MARKER = lit ''@@''"
definition ENVIRONMENT_ID_MARKER :: str where "ENVIRONMENT_ID_MARKER = lit ''*** Environment ID:''"

section \<open>Parser state\<close>

datatype parser_mode =
    NotStarted
  | StartedPatch
  | AddFileMode
  | DeleteFileMode
  | UpdateFileMode nat
  | EndedPatch

record parser =
  line_buffer :: str
  parser_mode :: parser_mode
  hunks :: "hunk list"
  environment_id :: "str option"
  line_number :: nat

definition default_parser :: parser where
  "default_parser = \<lparr>line_buffer = [], parser_mode = NotStarted, hunks = [],
     environment_id = None, line_number = 0\<rparr>"

section \<open>Messages\<close>

definition quoted :: "str \<Rightarrow> str" where
  "quoted s = [39] @ s @ [39]"

definition first_line_error :: parse_error where
  "first_line_error = InvalidPatchError
     (lit ''The first line of the patch must be '' @ quoted BEGIN_PATCH_MARKER)"

definition last_line_error :: parse_error where
  "last_line_error = InvalidPatchError
     (lit ''The last line of the patch must be '' @ quoted END_PATCH_MARKER)"

definition invalid_header_error :: "str \<Rightarrow> nat \<Rightarrow> parse_error" where
  "invalid_header_error line n = InvalidHunkError
     (quoted line @ lit '' is not a valid hunk header. Valid hunk headers: ''
      @ quoted (lit ''*** Add File: {path}'') @ lit '', ''
      @ quoted (lit ''*** Delete File: {path}'') @ lit '', ''
      @ quoted (lit ''*** Update File: {path}'')) n"

definition unexpected_line_error :: "str \<Rightarrow> nat \<Rightarrow> parse_error" where
  "unexpected_line_error line n = InvalidHunkError
     (lit ''Unexpected line found in update hunk: '' @ quoted line
      @ lit ''. Every line should start with '' @ quoted (lit '' '') @ lit '' (context line), ''
      @ quoted (lit ''+'') @ lit '' (added line), or '' @ quoted (lit ''-'') @ lit '' (removed line)'') n"

definition expected_context_error :: "str \<Rightarrow> nat \<Rightarrow> parse_error" where
  "expected_context_error line n = InvalidHunkError
     (lit ''Expected update hunk to start with a @@ context marker, got: '' @ quoted line) n"

definition no_lines_error :: "nat \<Rightarrow> parse_error" where
  "no_lines_error n = InvalidHunkError (lit ''Update hunk does not contain any lines'') n"

definition empty_hunk_error :: "str \<Rightarrow> nat \<Rightarrow> parse_error" where
  "empty_hunk_error path n = InvalidHunkError
     (lit ''Update file hunk for path '' @ quoted path @ lit '' is empty'') n"

section \<open>Handling a line\<close>

definition chunk_empty :: "update_file_chunk \<Rightarrow> bool" where
  "chunk_empty c \<longleftrightarrow> old_lines c = [] \<and> new_lines c = []"

definition last_is_some_and :: "('a \<Rightarrow> bool) \<Rightarrow> 'a list \<Rightarrow> bool" where
  "last_is_some_and P xs \<longleftrightarrow> xs \<noteq> [] \<and> P (last xs)"

definition ensure_update_hunk_is_not_empty :: "parser \<Rightarrow> str \<Rightarrow> parse_error + unit" where
  "ensure_update_hunk_is_not_empty p line =
     (if hunks p = [] then Inr ()
      else case last (hunks p) of
        UpdateFile path mv chunks \<Rightarrow>
          (case (chunks, parser_mode p) of
             ([], UpdateFileMode n) \<Rightarrow> Inl (empty_hunk_error path n)
           | _ \<Rightarrow>
             (if last_is_some_and chunk_empty chunks then
                (if line = END_PATCH_MARKER then Inl (no_lines_error (line_number p))
                 else Inl (unexpected_line_error line (line_number p)))
              else Inr ()))
      | _ \<Rightarrow> Inr ())"

text \<open>
  \<open>handle_hunk_headers_and_end_patch\<close> returns whether it handled the line; here
  \<open>Some\<close> of the new state when it did. No error leaves a changed state behind.
\<close>

definition handle_hunk_headers_and_end_patch :: "parser \<Rightarrow> str \<Rightarrow> parse_error + parser option" where
  "handle_hunk_headers_and_end_patch p trimmed =
     (case (if parser_mode p = StartedPatch then strip_prefix ENVIRONMENT_ID_MARKER trimmed else None) of
        Some env \<Rightarrow>
          (if environment_id p \<noteq> None then
             Inl (InvalidPatchError (lit ''apply_patch environment_id cannot be specified more than once''))
           else if trim env = [] then
             Inl (InvalidPatchError (lit ''apply_patch environment_id cannot be empty''))
           else Inr (Some (p\<lparr>environment_id := Some (trim env)\<rparr>)))
      | None \<Rightarrow>
     (if trimmed = END_PATCH_MARKER then
        bind_result (ensure_update_hunk_is_not_empty p trimmed)
          (\<lambda>_. Inr (Some (p\<lparr>parser_mode := EndedPatch\<rparr>)))
      else case strip_prefix ADD_FILE_MARKER trimmed of
        Some path \<Rightarrow>
          bind_result (ensure_update_hunk_is_not_empty p trimmed)
            (\<lambda>_. Inr (Some (p\<lparr>hunks := hunks p @ [AddFile path []], parser_mode := AddFileMode\<rparr>)))
      | None \<Rightarrow>
     (case strip_prefix DELETE_FILE_MARKER trimmed of
        Some path \<Rightarrow>
          bind_result (ensure_update_hunk_is_not_empty p trimmed)
            (\<lambda>_. Inr (Some (p\<lparr>hunks := hunks p @ [DeleteFile path], parser_mode := DeleteFileMode\<rparr>)))
      | None \<Rightarrow>
     (case strip_prefix UPDATE_FILE_MARKER trimmed of
        Some path \<Rightarrow>
          bind_result (ensure_update_hunk_is_not_empty p trimmed)
            (\<lambda>_. Inr (Some (p\<lparr>hunks := hunks p @ [UpdateFile path None []],
                            parser_mode := UpdateFileMode (line_number p)\<rparr>)))
      | None \<Rightarrow> Inr None))))"

definition set_last_hunk :: "hunk \<Rightarrow> parser \<Rightarrow> parser" where
  "set_last_hunk h p = p\<lparr>hunks := butlast (hunks p) @ [h]\<rparr>"

text \<open>A chunk is pushed when there is none, then the last one is changed.\<close>

definition change_last_chunk ::
    "(update_file_chunk \<Rightarrow> update_file_chunk) \<Rightarrow> update_file_chunk list \<Rightarrow> update_file_chunk list" where
  "change_last_chunk f chunks =
     (let cs = (if chunks = [] then [default_chunk] else chunks) in butlast cs @ [f (last cs)])"

definition is_context_marker :: "str \<Rightarrow> bool" where
  "is_context_marker u \<longleftrightarrow> u = EMPTY_CHANGE_CONTEXT_MARKER \<or> starts_with u CHANGE_CONTEXT_MARKER"

text \<open>
  The body of an update hunk: \<open>line\<close> is the line, \<open>u\<close> the line without trailing white
  space; the last hunk is an update of \<open>path\<close> with \<open>move_path\<close> \<open>mv\<close>.
\<close>

definition process_update_body ::
    "parser \<Rightarrow> str \<Rightarrow> str \<Rightarrow> str \<Rightarrow> str option \<Rightarrow> update_file_chunk list \<Rightarrow> parse_error + parser" where
  "process_update_body p line u path mv chunks =
    (let n = line_number p;
         set_chunks = (\<lambda>cs. Inr (set_last_hunk (UpdateFile path mv cs) p)) in
     if last_is_some_and is_end_of_file chunks \<and> u = [] then Inr p
     else if last_is_some_and is_end_of_file chunks \<and> \<not> is_context_marker u then
       Inl (expected_context_error line n)
     else case (if chunks = [] \<and> mv = None then strip_prefix MOVE_TO_MARKER u else None) of
       Some dest \<Rightarrow> Inr (set_last_hunk (UpdateFile path (Some dest) chunks) p)
     | None \<Rightarrow>
     (if is_context_marker u \<and> last_is_some_and chunk_empty chunks then
        Inl (unexpected_line_error line n)
      else if u = EMPTY_CHANGE_CONTEXT_MARKER then set_chunks (chunks @ [default_chunk])
      else case strip_prefix CHANGE_CONTEXT_MARKER u of
        Some ctx \<Rightarrow> set_chunks (chunks @ [default_chunk\<lparr>change_context := Some ctx\<rparr>])
      | None \<Rightarrow>
     (if u = EOF_MARKER then
        (if last_is_some_and chunk_empty chunks then Inl (no_lines_error n)
         else if chunks = [] then Inr p
         else set_chunks (butlast chunks @ [(last chunks)\<lparr>is_end_of_file := True\<rparr>]))
      else if line = [] then set_chunks (change_last_chunk (push_context_line []) chunks)
      else case strip_prefix (lit '' '') line of
        Some l \<Rightarrow> set_chunks (change_last_chunk (push_context_line l) chunks)
      | None \<Rightarrow>
     (case strip_prefix (lit ''+'') line of
        Some l \<Rightarrow> set_chunks (change_last_chunk (\<lambda>c. c\<lparr>new_lines := new_lines c @ [l]\<rparr>) chunks)
      | None \<Rightarrow>
     (case strip_prefix (lit ''-'') line of
        Some l \<Rightarrow> set_chunks (change_last_chunk (\<lambda>c. c\<lparr>old_lines := old_lines c @ [l]\<rparr>) chunks)
      | None \<Rightarrow>
     (if last_is_some_and (\<lambda>c. \<not> chunk_empty c) chunks then Inl (expected_context_error line n)
      else Inl (unexpected_line_error line n)))))))"

definition process_update_line :: "parser \<Rightarrow> str \<Rightarrow> parse_error + parser" where
  "process_update_line p line =
     (let u = trim_end line in
      bind_result (handle_hunk_headers_and_end_patch p u) (\<lambda>handled.
        case handled of
          Some p' \<Rightarrow> Inr p'
        | None \<Rightarrow>
            (if hunks p = [] then Inl (unexpected_line_error line (line_number p))
             else case last (hunks p) of
               UpdateFile path mv chunks \<Rightarrow> process_update_body p line u path mv chunks
             | _ \<Rightarrow> Inl (unexpected_line_error line (line_number p)))))"

definition process_header_line :: "parser \<Rightarrow> str \<Rightarrow> parse_error + parser" where
  "process_header_line p line =
     bind_result (handle_hunk_headers_and_end_patch p (trim line)) (\<lambda>handled.
       case handled of
         Some p' \<Rightarrow> Inr p'
       | None \<Rightarrow> Inl (invalid_header_error (trim line) (line_number p)))"

definition process_add_line :: "parser \<Rightarrow> str \<Rightarrow> parse_error + parser" where
  "process_add_line p line =
     bind_result (handle_hunk_headers_and_end_patch p (trim line)) (\<lambda>handled.
       case handled of
         Some p' \<Rightarrow> Inr p'
       | None \<Rightarrow>
           (case strip_prefix (lit ''+'') line of
              None \<Rightarrow> Inl (invalid_header_error (trim line) (line_number p))
            | Some l \<Rightarrow>
                (if hunks p = [] then Inl (invalid_header_error (trim line) (line_number p))
                 else case last (hunks p) of
                   AddFile path contents \<Rightarrow>
                     Inr (set_last_hunk (AddFile path (contents @ l @ [LF])) p)
                 | _ \<Rightarrow> Inl (invalid_header_error (trim line) (line_number p)))))"

definition process_line :: "parser \<Rightarrow> str \<Rightarrow> parse_error + parser" where
  "process_line p line =
     (case parser_mode p of
        NotStarted \<Rightarrow>
          (if trim line = BEGIN_PATCH_MARKER then Inr (p\<lparr>parser_mode := StartedPatch\<rparr>)
           else Inl first_line_error)
      | StartedPatch \<Rightarrow> process_header_line p line
      | AddFileMode \<Rightarrow> process_add_line p line
      | DeleteFileMode \<Rightarrow> process_header_line p line
      | UpdateFileMode n \<Rightarrow> process_update_line p line
      | EndedPatch \<Rightarrow> (if trim line = [] then Inr p else Inl last_line_error))"

section \<open>Feeding text\<close>

definition strip_cr :: "str \<Rightarrow> str" where
  "strip_cr line = (case strip_suffix [CR] line of None \<Rightarrow> line | Some l \<Rightarrow> l)"

text \<open>
  Pushing returns the parser with the result: after an error the buffer is empty, the
  line counted, and the rest of the delta dropped.
\<close>

fun push_delta :: "parser \<Rightarrow> str \<Rightarrow> parser \<times> (parse_error + hunk list)" where
  "push_delta p [] = (p, Inr (hunks p))"
| "push_delta p (ch # delta) =
     (if ch = LF then
        (let line = strip_cr (line_buffer p);
             p1 = p\<lparr>line_buffer := [], line_number := line_number p + 1\<rparr>
         in case process_line p1 line of
              Inl e \<Rightarrow> (p1, Inl e)
            | Inr p2 \<Rightarrow> push_delta p2 delta)
      else push_delta (p\<lparr>line_buffer := line_buffer p @ [ch]\<rparr>) delta)"

definition finish_line :: "parser \<Rightarrow> parse_error + parser" where
  "finish_line p =
     (if line_buffer p = [] then Inr p
      else
        (let line = line_buffer p;
             p1 = p\<lparr>line_buffer := [], line_number := line_number p + 1\<rparr>
         in if trim line = END_PATCH_MARKER then
              bind_result (ensure_update_hunk_is_not_empty p1 (trim line))
                (\<lambda>_. Inr (p1\<lparr>parser_mode := EndedPatch\<rparr>))
            else process_line p1 line))"

definition finish :: "parser \<Rightarrow> parse_error + hunk list" where
  "finish p = bind_result (finish_line p)
     (\<lambda>p'. if parser_mode p' = EndedPatch then Inr (hunks p') else Inl last_line_error)"

section \<open>Parsing a patch text\<close>

datatype parse_mode = Strict | Lenient

record apply_patch_args =
  args_patch :: str
  args_hunks :: "hunk list"
  args_workdir :: "str option"
  args_environment_id :: "str option"

fun check_start_and_end_lines_strict :: "str option \<Rightarrow> str option \<Rightarrow> parse_error + unit" where
  "check_start_and_end_lines_strict first_line last_line =
     (case (map_option trim first_line, map_option trim last_line) of
        (Some f, Some l) \<Rightarrow>
          (if f = BEGIN_PATCH_MARKER \<and> l = END_PATCH_MARKER then Inr ()
           else if f \<noteq> BEGIN_PATCH_MARKER then Inl first_line_error
           else Inl last_line_error)
      | (Some f, None) \<Rightarrow>
          (if f \<noteq> BEGIN_PATCH_MARKER then Inl first_line_error else Inl last_line_error)
      | (None, _) \<Rightarrow> Inl last_line_error)"

definition check_patch_boundaries_strict :: "str list \<Rightarrow> parse_error + str list" where
  "check_patch_boundaries_strict ls =
     bind_result
       (if ls = [] then check_start_and_end_lines_strict None None
        else check_start_and_end_lines_strict (Some (hd ls)) (Some (last ls)))
       (\<lambda>_. Inr ls)"

definition heredoc_starts :: "str list" where
  "heredoc_starts = [lit ''<<EOF'', lit ''<<'' @ quoted (lit ''EOF''),
     lit ''<<'' @ [34] @ lit ''EOF'' @ [34]]"

definition check_patch_boundaries_lenient :: "str list \<Rightarrow> parse_error + str list" where
  "check_patch_boundaries_lenient ls =
     (case check_patch_boundaries_strict ls of
        Inr ls' \<Rightarrow> Inr ls'
      | Inl e \<Rightarrow>
          (if 2 \<le> length ls \<and> hd ls \<in> set heredoc_starts \<and> ends_with (last ls) (lit ''EOF'')
              \<and> 4 \<le> length ls
           then check_patch_boundaries_strict (butlast (tl ls))
           else Inl e))"

definition parse_patch_text :: "str \<Rightarrow> parse_mode \<Rightarrow> parse_error + apply_patch_args" where
  "parse_patch_text text mode =
     (let ls = str_lines (trim text) in
      bind_result
        (case mode of
           Strict \<Rightarrow> check_patch_boundaries_strict ls
         | Lenient \<Rightarrow> check_patch_boundaries_lenient ls)
        (\<lambda>patch_lines.
          let patch = join [LF] patch_lines in
          case push_delta default_parser patch of
            (p, Inl e) \<Rightarrow> Inl e
          | (p, Inr _) \<Rightarrow>
              bind_result (finish_line p) (\<lambda>p'.
                if parser_mode p' = EndedPatch then
                  Inr \<lparr>args_patch = patch, args_hunks = hunks p', args_workdir = None,
                       args_environment_id = environment_id p'\<rparr>
                else Inl last_line_error)))"

text \<open>\<open>PARSE_IN_STRICT_MODE\<close> is false.\<close>

definition parse_patch :: "str \<Rightarrow> parse_error + apply_patch_args" where
  "parse_patch patch = parse_patch_text patch Lenient"

end
