(* ===== verification/PatchParserCorrect.thy ===== *)
theory PatchParserCorrect
  imports PatchParser
begin

text \<open>
  Invariants of the streaming parser: the result does not depend on how the text is cut
  into deltas, the mode agrees with the last hunk, and an accepted patch holds complete,
  well-formed hunks only.
\<close>

section \<open>Deltas\<close>

text \<open>
  A consumer of deltas whose state after a text does not depend on where the text was
  cut: pushing a text is pushing its parts, up to the first error.
\<close>

fun feed :: "('s \<Rightarrow> str \<Rightarrow> 's \<times> ('e + 'o)) \<Rightarrow> 's \<Rightarrow> str list \<Rightarrow> 's \<times> ('e + 'o)" where
  "feed push s [] = push s []"
| "feed push s (d # ds) =
     (case push s d of (s', Inl e) \<Rightarrow> (s', Inl e) | (s', Inr out) \<Rightarrow> feed push s' ds)"

locale delta_stream =
  fixes push :: "'s \<Rightarrow> str \<Rightarrow> 's \<times> ('e + 'o)"
  assumes push_append: "push s (a @ b) =
    (case push s a of (s', Inl e) \<Rightarrow> (s', Inl e) | (s', Inr out) \<Rightarrow> push s' b)"
begin

lemma feed_concat: "feed push s ds = push s (concat ds)"
  by (induction ds arbitrary: s) (auto simp: push_append split: prod.splits sum.splits)

lemma feed_recut: "concat ds = concat ds' \<Longrightarrow> feed push s ds = feed push s ds'"
  by (simp add: feed_concat)

end

lemma push_delta_append:
  "push_delta p (a @ b) =
     (case push_delta p a of (p', Inl e) \<Rightarrow> (p', Inl e) | (p', Inr out) \<Rightarrow> push_delta p' b)"
  by (induction p a rule: push_delta.induct) (auto simp: Let_def split: sum.splits)

interpretation patch_stream: delta_stream push_delta
  by unfold_locales (rule push_delta_append)



section \<open>Mode and hunks\<close>

fun hunk_complete :: "hunk \<Rightarrow> bool" where
  "hunk_complete (AddFile path contents) \<longleftrightarrow> contents = [] \<or> last contents = LF"
| "hunk_complete (DeleteFile path) \<longleftrightarrow> True"
| "hunk_complete (UpdateFile path mv cs) \<longleftrightarrow>
     cs \<noteq> [] \<and> list_all (\<lambda>c. chunk_wf c \<and> \<not> chunk_empty c) cs"

definition chunks_open :: "update_file_chunk list \<Rightarrow> bool" where
  "chunks_open cs \<longleftrightarrow> list_all chunk_wf cs \<and> list_all (\<lambda>c. \<not> chunk_empty c) (butlast cs)"

definition parser_inv :: "parser \<Rightarrow> bool" where
  "parser_inv p \<longleftrightarrow>
     (case parser_mode p of
        NotStarted \<Rightarrow> hunks p = []
      | StartedPatch \<Rightarrow> hunks p = []
      | AddFileMode \<Rightarrow> list_all hunk_complete (hunks p)
          \<and> (\<exists>hs path contents. hunks p = hs @ [AddFile path contents])
      | DeleteFileMode \<Rightarrow> list_all hunk_complete (hunks p)
          \<and> (\<exists>hs path. hunks p = hs @ [DeleteFile path])
      | UpdateFileMode n \<Rightarrow>
          (\<exists>hs path mv cs. hunks p = hs @ [UpdateFile path mv cs]
             \<and> list_all hunk_complete hs \<and> chunks_open cs)
      | EndedPatch \<Rightarrow> list_all hunk_complete (hunks p))"

lemma parser_inv_default [simp]: "parser_inv default_parser"
  by (simp add: parser_inv_def default_parser_def)

lemma parser_inv_bookkeeping [simp]:
  "parser_inv (p\<lparr>line_buffer := b\<rparr>) = parser_inv p"
  "parser_inv (p\<lparr>line_number := n\<rparr>) = parser_inv p"
  "parser_inv (p\<lparr>environment_id := e\<rparr>) = parser_inv p"
  by (simp_all add: parser_inv_def split: parser_mode.split)

lemma ensure_complete:
  assumes "ensure_update_hunk_is_not_empty p line = Inr ()" and "parser_inv p"
  shows "list_all hunk_complete (hunks p)"
proof (cases "parser_mode p")
  case (UpdateFileMode n)
  with assms(2) obtain hs path mv cs where h: "hunks p = hs @ [UpdateFile path mv cs]"
      "list_all hunk_complete hs" "chunks_open cs"
    by (auto simp: parser_inv_def)
  with assms(1) UpdateFileMode have "cs \<noteq> []" "\<not> chunk_empty (last cs)"
    by (auto simp: ensure_update_hunk_is_not_empty_def last_is_some_and_def
        split: list.splits if_splits)
  with h show ?thesis
    by (cases cs rule: rev_cases) (auto simp: chunks_open_def list_all_iff)
qed (use assms(2) in \<open>auto simp: parser_inv_def\<close>)

lemma handle_headers_inv:
  assumes "handle_hunk_headers_and_end_patch p u = Inr (Some p')" and "parser_inv p"
  shows "parser_inv p'"
  using assms
  by (auto simp: handle_hunk_headers_and_end_patch_def split: option.splits if_splits
      dest!: ensure_complete [OF _ assms(2)])
     (auto simp: parser_inv_def chunks_open_def)

lemma chunks_open_small [simp]:
  "chunks_open []"
  "chunks_open [c] \<longleftrightarrow> chunk_wf c"
  by (simp_all add: chunks_open_def)

lemma chunks_open_change_last:
  assumes "chunks_open cs" and "\<And>c. chunk_wf c \<Longrightarrow> chunk_wf (f c)"
  shows "chunks_open (change_last_chunk f cs)"
  using assms
  by (cases cs rule: rev_cases)
     (auto simp: change_last_chunk_def chunks_open_def Let_def)

lemma chunks_open_push:
  assumes "chunks_open cs" and "\<not> last_is_some_and chunk_empty cs" and "chunk_wf c"
  shows "chunks_open (cs @ [c])"
  using assms by (cases cs rule: rev_cases) (auto simp: chunks_open_def last_is_some_and_def butlast_append)

lemma chunks_open_mark_eof:
  "chunks_open cs \<Longrightarrow> cs \<noteq> [] \<Longrightarrow> chunks_open (butlast cs @ [(last cs)\<lparr>is_end_of_file := True\<rparr>])"
  by (cases cs rule: rev_cases) (auto simp: chunks_open_def)

definition rewrites_last :: "parser \<Rightarrow> str \<Rightarrow> parser \<Rightarrow> bool" where
  "rewrites_last p path p' \<longleftrightarrow> p' = p \<or>
     (\<exists>mv cs. p' = set_last_hunk (UpdateFile path mv cs) p \<and> chunks_open cs)"

lemma rewrites_last_intros:
  "rewrites_last p path p"
  "chunks_open cs \<Longrightarrow> rewrites_last p path (set_last_hunk (UpdateFile path mv cs) p)"
  by (auto simp: rewrites_last_def)

lemma process_update_body_shape:
  assumes "process_update_body p line u path mv cs = Inr p'" and "chunks_open cs"
  shows "rewrites_last p path p'"
  using assms unfolding process_update_body_def Let_def
  by (auto split: option.splits if_splits simp: is_context_marker_def starts_with_def
      intro!: rewrites_last_intros chunks_open_change_last chunks_open_push chunks_open_mark_eof)

lemma process_line_inv:
  assumes "process_line p line = Inr p'" and "parser_inv p"
  shows "parser_inv p'"
proof (cases "parser_mode p")
  case (UpdateFileMode n)
  with assms obtain hs path mv cs where h: "hunks p = hs @ [UpdateFile path mv cs]"
      "list_all hunk_complete hs" "chunks_open cs"
    by (auto simp: parser_inv_def)
  from assms(1) UpdateFileMode obtain r where
    r: "handle_hunk_headers_and_end_patch p (trim_end line) = Inr r"
    by (auto simp: process_line_def process_update_line_def Let_def)
  show ?thesis
  proof (cases r)
    case None
    with assms(1) r UpdateFileMode h(1)
    have "process_update_body p line (trim_end line) path mv cs = Inr p'"
      by (simp add: process_line_def process_update_line_def Let_def)
    from process_update_body_shape [OF this h(3)] assms(2) h UpdateFileMode show ?thesis
      by (auto simp: rewrites_last_def parser_inv_def set_last_hunk_def)
  next
    case (Some q)
    with assms r UpdateFileMode show ?thesis
      by (auto simp: process_line_def process_update_line_def Let_def intro: handle_headers_inv)
  qed
next
  case AddFileMode
  with assms(2) obtain hs path contents where
    "hunks p = hs @ [AddFile path contents]" "list_all hunk_complete hs"
    by (auto simp: parser_inv_def)
  with assms AddFileMode show ?thesis
    by (auto simp: process_line_def process_add_line_def set_last_hunk_def
        intro: handle_headers_inv split: option.splits)
       (auto simp: parser_inv_def)
next
  case NotStarted
  with assms show ?thesis by (auto simp: process_line_def parser_inv_def split: if_splits)
qed (use assms in \<open>auto simp: process_line_def process_header_line_def
       intro: handle_headers_inv split: option.splits if_splits\<close>)

lemma process_counted_line_inv:
  "process_line (p\<lparr>line_buffer := b, line_number := n\<rparr>) l = Inr p' \<Longrightarrow> parser_inv p \<Longrightarrow> parser_inv p'"
  by (erule process_line_inv) simp

lemma push_delta_inv: "parser_inv p \<Longrightarrow> parser_inv (fst (push_delta p s))"
  by (induction p s rule: push_delta.induct)
     (auto simp: Let_def split: sum.splits dest: process_counted_line_inv)

lemma finish_line_inv:
  assumes "finish_line p = Inr p'" and "parser_inv p"
  shows "parser_inv p'"
proof -
  let ?p1 = "p\<lparr>line_buffer := [], line_number := line_number p + 1\<rparr>"
  have "parser_inv ?p1" using assms(2) by simp
  with assms ensure_complete [of ?p1 "trim (line_buffer p)"] show ?thesis
    by (auto simp: finish_line_def Let_def split: if_splits dest: process_counted_line_inv)
       (auto simp: parser_inv_def)
qed

text \<open>
  In every state a stream of deltas can reach, the mode and the hunks agree: in the
  add, delete and update modes the last hunk is of that kind, so the parser's matches on
  the last hunk never fall through; every earlier hunk is complete, and so are all once
  the patch has ended.
\<close>

theorem streaming_parser_invariant:
  "parser_inv (fst (feed push_delta default_parser ds))"
  by (simp add: patch_stream.feed_concat push_delta_inv)

lemma parsed_hunks_complete:
  assumes "parse_patch_text s mode = Inr args"
  shows "list_all hunk_complete (args_hunks args)"
proof -
  from assms obtain ls where
    "(case push_delta default_parser (join [LF] ls) of
        (p, Inl e) \<Rightarrow> Inl e
      | (p, Inr _) \<Rightarrow>
          bind_result (finish_line p) (\<lambda>p'.
            if parser_mode p' = EndedPatch then
              Inr \<lparr>args_patch = join [LF] ls, args_hunks = hunks p', args_workdir = None,
                   args_environment_id = environment_id p'\<rparr>
            else Inl last_line_error)) = Inr args"
    by (auto simp: parse_patch_text_def Let_def)
  then obtain p where
    fin: "finish_line (fst (push_delta default_parser (join [LF] ls))) = Inr p"
    and ended: "parser_mode p = EndedPatch" "args_hunks args = hunks p"
    by (auto split: prod.splits sum.splits if_splits)
  have "parser_inv p"
    by (rule finish_line_inv [OF fin]) (simp add: push_delta_inv)
  with ended show ?thesis by (simp add: parser_inv_def)
qed

lemma hunk_complete_chunks_wf: "hunk_complete h \<Longrightarrow> hunk_chunks_wf h"
  by (cases h) (auto simp: list_all_iff)

text \<open>
  C25. A patch is only accepted with complete hunks: an update has at least one chunk,
  every chunk has a line, its context pairs point at equal lines of its two sides in
  increasing order, and the contents of an added file are whole lines.
\<close>

theorem parse_patch_complete:
  assumes "parse_patch s = Inr args"
  shows "list_all hunk_complete (args_hunks args)"
  using assms by (simp add: parse_patch_def parsed_hunks_complete)

definition sample_patch_lines :: "str list" where
  "sample_patch_lines = [lit ''*** Begin Patch'', lit ''*** Add File: a'', lit ''+x'',
     lit ''*** Update File: b'', lit ''@@'', lit ''-y'', lit ''+z'', lit ''*** End Patch'']"

definition sample_args :: apply_patch_args where
  "sample_args = \<lparr>args_patch = join [LF] sample_patch_lines,
     args_hunks = [AddFile (lit ''a'') (lit ''x'' @ [LF]),
       UpdateFile (lit ''b'') None
         [default_chunk\<lparr>old_lines := [lit ''y''], new_lines := [lit ''z'']\<rparr>]],
     args_workdir = None, args_environment_id = None\<rparr>"

theorem parse_patch_complete_witness:
  "list_all hunk_complete (args_hunks sample_args)"
proof (rule parse_patch_complete)
  show "parse_patch (join [LF] sample_patch_lines) = Inr sample_args" by code_simp
qed

end
