(* ===== verification/PatchRender.thy ===== *)
theory PatchRender
  imports PatchParserCorrect
begin

text \<open>
  The patch language from the side of the one who writes a patch: a patch as hunks of
  changed lines, its rendering as text, and the proof that the parser reads every
  rendered patch back.
\<close>

section \<open>Patches and their text\<close>

datatype change_line = ContextLine str | AddedLine str | RemovedLine str

record chunk_spec =
  spec_context :: "str option"
  spec_lines :: "change_line list"
  spec_eof :: bool

datatype hunk_spec =
    SpecAdd str "str list"
  | SpecDelete str
  | SpecUpdate str "str option" "chunk_spec list"

fun render_change :: "change_line \<Rightarrow> str" where
  "render_change (ContextLine l) = 32 # l"
| "render_change (AddedLine l) = 43 # l"
| "render_change (RemovedLine l) = 45 # l"

definition render_context :: "str option \<Rightarrow> str" where
  "render_context ctx = (case ctx of
     None \<Rightarrow> EMPTY_CHANGE_CONTEXT_MARKER | Some x \<Rightarrow> CHANGE_CONTEXT_MARKER @ x)"

definition render_chunk :: "chunk_spec \<Rightarrow> str list" where
  "render_chunk c = render_context (spec_context c) # map render_change (spec_lines c)
     @ (if spec_eof c then [EOF_MARKER] else [])"

fun render_hunk :: "hunk_spec \<Rightarrow> str list" where
  "render_hunk (SpecAdd path ls) = (ADD_FILE_MARKER @ path) # map (\<lambda>l. 43 # l) ls"
| "render_hunk (SpecDelete path) = [DELETE_FILE_MARKER @ path]"
| "render_hunk (SpecUpdate path mv cs) =
     (UPDATE_FILE_MARKER @ path) # (case mv of None \<Rightarrow> [] | Some dest \<Rightarrow> [MOVE_TO_MARKER @ dest])
     @ concat (map render_chunk cs)"

definition render_patch :: "str option \<Rightarrow> hunk_spec list \<Rightarrow> str list" where
  "render_patch env hs = [BEGIN_PATCH_MARKER]
     @ (case env of None \<Rightarrow> [] | Some e \<Rightarrow> [ENVIRONMENT_ID_MARKER @ e])
     @ concat (map render_hunk hs) @ [END_PATCH_MARKER]"

section \<open>What the text means\<close>

fun apply_change_line :: "change_line \<Rightarrow> update_file_chunk \<Rightarrow> update_file_chunk" where
  "apply_change_line (ContextLine l) c = push_context_line l c"
| "apply_change_line (AddedLine l) c = c\<lparr>new_lines := new_lines c @ [l]\<rparr>"
| "apply_change_line (RemovedLine l) c = c\<lparr>old_lines := old_lines c @ [l]\<rparr>"

definition chunk_of :: "chunk_spec \<Rightarrow> update_file_chunk" where
  "chunk_of c = (fold apply_change_line (spec_lines c)
     (default_chunk\<lparr>change_context := spec_context c\<rparr>))\<lparr>is_end_of_file := spec_eof c\<rparr>"

fun hunk_of :: "hunk_spec \<Rightarrow> hunk" where
  "hunk_of (SpecAdd path ls) = AddFile path (concat (map (\<lambda>l. l @ [LF]) ls))"
| "hunk_of (SpecDelete path) = DeleteFile path"
| "hunk_of (SpecUpdate path mv cs) = UpdateFile path mv (map chunk_of cs)"

fun option_all :: "('a \<Rightarrow> bool) \<Rightarrow> 'a option \<Rightarrow> bool" where
  "option_all P None \<longleftrightarrow> True"
| "option_all P (Some x) \<longleftrightarrow> P x"

text \<open>
  What can be written: names and contexts end visibly and lie on one line, lines have no
  line ending of their own, and no chunk and no update is empty.
\<close>

definition good_name :: "str \<Rightarrow> bool" where
  "good_name s \<longleftrightarrow> s \<noteq> [] \<and> \<not> is_whitespace (last s) \<and> LF \<notin> set s"

fun change_text :: "change_line \<Rightarrow> str" where
  "change_text (ContextLine l) = l"
| "change_text (AddedLine l) = l"
| "change_text (RemovedLine l) = l"

definition good_chunk :: "chunk_spec \<Rightarrow> bool" where
  "good_chunk c \<longleftrightarrow> option_all good_name (spec_context c) \<and> spec_lines c \<noteq> []
     \<and> list_all (\<lambda>l. plain_line (change_text l)) (spec_lines c)"

fun good_hunk :: "hunk_spec \<Rightarrow> bool" where
  "good_hunk (SpecAdd path ls) \<longleftrightarrow> good_name path \<and> list_all plain_line ls"
| "good_hunk (SpecDelete path) \<longleftrightarrow> good_name path"
| "good_hunk (SpecUpdate path mv cs) \<longleftrightarrow>
     good_name path \<and> option_all good_name mv \<and> cs \<noteq> [] \<and> list_all good_chunk cs"

section \<open>Running the parser on lines\<close>

fun run_lines :: "parser \<Rightarrow> str list \<Rightarrow> parse_error + parser" where
  "run_lines p [] = Inr p"
| "run_lines p (l # ls) =
     bind_result (process_line (p\<lparr>line_number := line_number p + 1\<rparr>) l) (\<lambda>p'. run_lines p' ls)"

lemma run_lines_append:
  "run_lines p (ls @ ms) = bind_result (run_lines p ls) (\<lambda>p'. run_lines p' ms)"
  by (induction ls arbitrary: p) (auto simp: bind_result_assoc)

lemma push_delta_no_LF:
  "LF \<notin> set l \<Longrightarrow>
     push_delta p (l @ s) = push_delta (p\<lparr>line_buffer := line_buffer p @ l\<rparr>) s"
  by (induction l arbitrary: p) auto

lemma strip_cr_plain: "plain_line l \<Longrightarrow> strip_cr l = l"
  by (simp add: strip_cr_def plain_line_def strip_suffix_single_None_iff [THEN iffD2])

lemma process_line_buffer:
  "process_line p l = Inr p' \<Longrightarrow> line_buffer p' = line_buffer p"
  by (auto simp: process_line_def process_header_line_def process_add_line_def process_update_line_def
      process_update_body_def handle_hunk_headers_and_end_patch_def set_last_hunk_def Let_def
      split: parser_mode.splits if_splits option.splits hunk.splits)

lemma push_delta_lines:
  assumes "list_all plain_line ls" and "line_buffer p = []" and "run_lines p ls = Inr p'"
  shows "push_delta p (concat (map (\<lambda>l. l @ [LF]) ls) @ s) = push_delta p' s"
  using assms
proof (induction ls arbitrary: p)
  case (Cons l ls)
  then obtain p1 where p1: "process_line (p\<lparr>line_number := line_number p + 1\<rparr>) l = Inr p1"
      "run_lines p1 ls = Inr p'"
    by auto
  from Cons.prems have same: "p\<lparr>line_buffer := [], line_number := n\<rparr> = p\<lparr>line_number := n\<rparr>" for n
    by (cases p) simp
  from p1(1) have "process_line (p\<lparr>line_buffer := [], line_number := line_number p + 1\<rparr>) l = Inr p1"
    unfolding same .
  moreover from process_line_buffer [OF p1(1)] Cons.prems have "line_buffer p1 = []" by simp
  ultimately show ?case
    using Cons p1 by (simp add: Let_def push_delta_no_LF plain_line_def strip_cr_plain [unfolded plain_line_def])
qed simp

lemma join_LF_snoc: "join [LF] (ls @ [l]) = concat (map (\<lambda>l. l @ [LF]) ls) @ l"
  by (induction ls) (auto simp: join_Cons)

section \<open>Markers\<close>

lemmas marker_defs = BEGIN_PATCH_MARKER_def END_PATCH_MARKER_def ADD_FILE_MARKER_def
  DELETE_FILE_MARKER_def UPDATE_FILE_MARKER_def MOVE_TO_MARKER_def EOF_MARKER_def
  CHANGE_CONTEXT_MARKER_def EMPTY_CHANGE_CONTEXT_MARKER_def ENVIRONMENT_ID_MARKER_def lit_def

lemma header_prefixes [simp]:
  "strip_prefix ADD_FILE_MARKER (DELETE_FILE_MARKER @ s) = None"
  "strip_prefix ADD_FILE_MARKER (UPDATE_FILE_MARKER @ s) = None"
  "strip_prefix DELETE_FILE_MARKER (UPDATE_FILE_MARKER @ s) = None"
  "strip_prefix ENVIRONMENT_ID_MARKER (ADD_FILE_MARKER @ s) = None"
  "strip_prefix ENVIRONMENT_ID_MARKER (DELETE_FILE_MARKER @ s) = None"
  "strip_prefix ENVIRONMENT_ID_MARKER (UPDATE_FILE_MARKER @ s) = None"
  "strip_prefix ENVIRONMENT_ID_MARKER END_PATCH_MARKER = None"
  "ADD_FILE_MARKER @ s \<noteq> END_PATCH_MARKER"
  "DELETE_FILE_MARKER @ s \<noteq> END_PATCH_MARKER"
  "UPDATE_FILE_MARKER @ s \<noteq> END_PATCH_MARKER"
  by (simp_all add: marker_defs)

lemma move_prefixes [simp]:
  "strip_prefix ADD_FILE_MARKER (MOVE_TO_MARKER @ s) = None"
  "strip_prefix DELETE_FILE_MARKER (MOVE_TO_MARKER @ s) = None"
  "strip_prefix UPDATE_FILE_MARKER (MOVE_TO_MARKER @ s) = None"
  "MOVE_TO_MARKER @ s \<noteq> END_PATCH_MARKER"
  by (simp_all add: marker_defs)

lemma eof_prefixes [simp]:
  "strip_prefix ADD_FILE_MARKER EOF_MARKER = None"
  "strip_prefix DELETE_FILE_MARKER EOF_MARKER = None"
  "strip_prefix UPDATE_FILE_MARKER EOF_MARKER = None"
  "strip_prefix MOVE_TO_MARKER EOF_MARKER = None"
  "strip_prefix CHANGE_CONTEXT_MARKER EOF_MARKER = None"
  "EOF_MARKER \<noteq> END_PATCH_MARKER"
  "EOF_MARKER \<noteq> EMPTY_CHANGE_CONTEXT_MARKER"
  "EOF_MARKER \<noteq> []"
  by (simp_all add: marker_defs)

lemma body_prefixes:
  assumes "u = [] \<or> hd u \<noteq> 42"
  shows "strip_prefix ADD_FILE_MARKER u = None" and "strip_prefix DELETE_FILE_MARKER u = None"
    and "strip_prefix UPDATE_FILE_MARKER u = None" and "strip_prefix MOVE_TO_MARKER u = None"
    and "strip_prefix ENVIRONMENT_ID_MARKER u = None" and "u \<noteq> END_PATCH_MARKER" and "u \<noteq> EOF_MARKER"
  using assms by (cases u; simp add: marker_defs)+

lemma context_marker_prefixes:
  assumes "u = [] \<or> hd u \<noteq> 64"
  shows "strip_prefix CHANGE_CONTEXT_MARKER u = None" and "u \<noteq> EMPTY_CHANGE_CONTEXT_MARKER"
  using assms by (cases u; simp add: marker_defs)+

lemma trim_end_append [simp]: "s \<noteq> [] \<Longrightarrow> \<not> is_whitespace (last s) \<Longrightarrow> trim_end (m @ s) = m @ s"
  by (cases s rule: rev_cases) (auto simp flip: append_assoc)

lemma marker_heads [simp]:
  "ADD_FILE_MARKER \<noteq> []" "hd ADD_FILE_MARKER = 42"
  "DELETE_FILE_MARKER \<noteq> []" "hd DELETE_FILE_MARKER = 42"
  "UPDATE_FILE_MARKER \<noteq> []" "hd UPDATE_FILE_MARKER = 42"
  "ENVIRONMENT_ID_MARKER \<noteq> []" "hd ENVIRONMENT_ID_MARKER = 42"
  by (simp_all add: marker_defs)

lemma trim_marked [simp]:
  assumes "good_name s" and "m \<noteq> []" and "hd m = 42"
  shows "trim (m @ s) = m @ s" and "trim_end (m @ s) = m @ s"
proof -
  from assms(1) show "trim_end (m @ s) = m @ s" by (simp add: good_name_def)
  moreover from assms(2,3) have "trim_start (m @ s) = m @ s"
    by (cases m) (simp_all add: is_whitespace_def)
  ultimately show "trim (m @ s) = m @ s" by (simp add: trim_def)
qed

lemma trim_END [simp]: "trim END_PATCH_MARKER = END_PATCH_MARKER" "trim_end END_PATCH_MARKER = END_PATCH_MARKER"
  by (simp_all add: trim_def marker_defs is_whitespace_def)

section \<open>Headers\<close>

definition ready :: "parser \<Rightarrow> hunk list \<Rightarrow> str option \<Rightarrow> bool" where
  "ready p hs env \<longleftrightarrow> hunks p = hs \<and> environment_id p = env
     \<and> list_all hunk_complete hs \<and> line_buffer p = []
     \<and> parser_mode p \<noteq> NotStarted \<and> parser_mode p \<noteq> EndedPatch"

lemma ready_line_number [simp]: "ready (p\<lparr>line_number := n\<rparr>) hs env = ready p hs env"
  by (simp add: ready_def)

lemma ensure_ready: "ready p hs env \<Longrightarrow> ensure_update_hunk_is_not_empty p l = Inr ()"
  by (cases hs rule: rev_cases)
     (auto simp: ready_def ensure_update_hunk_is_not_empty_def last_is_some_and_def list_all_iff
       split: hunk.split list.split)

lemma process_header:
  assumes "ready p hs env" and "handle_hunk_headers_and_end_patch p l = Inr (Some p')"
    and "trim l = l" and "trim_end l = l"
  shows "process_line p l = Inr p'"
  using assms
  by (cases "parser_mode p")
     (simp_all add: ready_def process_line_def process_header_line_def process_add_line_def
       process_update_line_def Let_def)

lemma header_steps:
  assumes "ready p hs env" and "good_name s"
  shows "process_line p (ADD_FILE_MARKER @ s)
      = Inr (p\<lparr>hunks := hs @ [AddFile s []], parser_mode := AddFileMode\<rparr>)"
    and "process_line p (DELETE_FILE_MARKER @ s)
      = Inr (p\<lparr>hunks := hs @ [DeleteFile s], parser_mode := DeleteFileMode\<rparr>)"
    and "process_line p (UPDATE_FILE_MARKER @ s)
      = Inr (p\<lparr>hunks := hs @ [UpdateFile s None []], parser_mode := UpdateFileMode (line_number p)\<rparr>)"
  using assms ensure_ready [OF assms(1)]
  by (intro process_header [OF assms(1)];
      simp add: handle_hunk_headers_and_end_patch_def; simp add: ready_def)+

lemma end_step:
  assumes "ready p hs env"
  shows "process_line p END_PATCH_MARKER = Inr (p\<lparr>parser_mode := EndedPatch\<rparr>)"
  using assms ensure_ready [OF assms]
  by (intro process_header [OF assms]) (simp_all add: handle_hunk_headers_and_end_patch_def)

lemma handle_body:
  "u = [] \<or> hd u \<noteq> 42 \<Longrightarrow> handle_hunk_headers_and_end_patch p u = Inr None"
  by (simp add: handle_hunk_headers_and_end_patch_def body_prefixes)

section \<open>Bodies\<close>

lemma run_add_lines:
  assumes "parser_mode p = AddFileMode" and "hunks p = hs @ [AddFile path c]"
  shows "run_lines p (map (\<lambda>l. 43 # l) ls) = Inr (p\<lparr>
    hunks := hs @ [AddFile path (c @ concat (map (\<lambda>l. l @ [LF]) ls))],
    line_number := line_number p + length ls\<rparr>)"
  using assms
proof (induction ls arbitrary: p c)
  case (Cons l ls)
  let ?p = "p\<lparr>line_number := line_number p + 1\<rparr>"
  have "\<not> is_whitespace 43" by (simp add: is_whitespace_def)
  then have "handle_hunk_headers_and_end_patch ?p (trim (43 # l)) = Inr None"
    by (intro handle_body) (simp add: trim_Cons_visible)
  with Cons.prems have "process_line ?p (43 # l)
      = Inr (?p\<lparr>hunks := hs @ [AddFile path (c @ l @ [LF])]\<rparr>)"
    by (simp add: process_line_def process_add_line_def set_last_hunk_def lit_def)
  with Cons.prems Cons.IH [of "?p\<lparr>hunks := hs @ [AddFile path (c @ l @ [LF])]\<rparr>" "c @ l @ [LF]"]
  show ?case by simp
qed simp

lemma process_update:
  assumes "parser_mode p = UpdateFileMode n" and "hunks p = hs @ [UpdateFile path mv cs]"
    and "handle_hunk_headers_and_end_patch p (trim_end l) = Inr None"
  shows "process_line p l = process_update_body p l (trim_end l) path mv cs"
  using assms by (simp add: process_line_def process_update_line_def Let_def)

lemma last_is_some_and_snoc [simp]: "last_is_some_and P (xs @ [x]) = P x"
  by (simp add: last_is_some_and_def)

lemma change_last_chunk_snoc [simp]: "change_last_chunk f (cs @ [c]) = cs @ [f c]"
  by (simp add: change_last_chunk_def)

lemma trim_end_change:
  "trim_end (render_change l) = [] \<or> hd (trim_end (render_change l)) \<in> {32, 43, 45}"
  by (cases l) (auto simp: is_whitespace_def)

lemma update_body_change:
  assumes "hunks p = hs @ [UpdateFile path mv (cs @ [c])]" and "\<not> is_end_of_file c"
    and "u \<noteq> EOF_MARKER" and "u \<noteq> EMPTY_CHANGE_CONTEXT_MARKER"
    and "strip_prefix CHANGE_CONTEXT_MARKER u = None"
  shows "process_update_body p (render_change l) u path mv (cs @ [c])
    = Inr (p\<lparr>hunks := hs @ [UpdateFile path mv (cs @ [apply_change_line l c])]\<rparr>)"
  using assms
  by (cases l)
     (simp_all add: process_update_body_def Let_def is_context_marker_def starts_with_def
       set_last_hunk_def lit_def)

lemma change_step:
  assumes "parser_mode p = UpdateFileMode n" and "hunks p = hs @ [UpdateFile path mv (cs @ [c])]"
    and "\<not> is_end_of_file c"
  shows "process_line p (render_change l)
    = Inr (p\<lparr>hunks := hs @ [UpdateFile path mv (cs @ [apply_change_line l c])]\<rparr>)"
proof -
  let ?u = "trim_end (render_change l)"
  have u: "?u = [] \<or> hd ?u \<noteq> 42" "?u = [] \<or> hd ?u \<noteq> 64"
    using trim_end_change [of l] by auto
  have "process_line p (render_change l)
      = process_update_body p (render_change l) ?u path mv (cs @ [c])"
    by (rule process_update [OF assms(1,2) handle_body [OF u(1)]])
  also have "\<dots> = Inr (p\<lparr>hunks := hs @ [UpdateFile path mv (cs @ [apply_change_line l c])]\<rparr>)"
    by (rule update_body_change [OF assms(2,3) body_prefixes(7) [OF u(1)]
          context_marker_prefixes(2,1) [OF u(2)]])
  finally show ?thesis .
qed

lemma is_end_of_file_apply_change [simp]:
  "is_end_of_file (apply_change_line l c) = is_end_of_file c"
  by (cases l) (simp_all add: push_context_line_def)

lemma run_changes:
  assumes "parser_mode p = UpdateFileMode n" and "hunks p = hs @ [UpdateFile path mv (cs @ [c])]"
    and "\<not> is_end_of_file c"
  shows "run_lines p (map render_change ls) = Inr (p\<lparr>
    hunks := hs @ [UpdateFile path mv (cs @ [fold apply_change_line ls c])],
    line_number := line_number p + length ls\<rparr>)"
  using assms
proof (induction ls arbitrary: p c)
  case (Cons l ls)
  let ?p = "p\<lparr>line_number := line_number p + 1\<rparr>"
  let ?q = "?p\<lparr>hunks := hs @ [UpdateFile path mv (cs @ [apply_change_line l c])]\<rparr>"
  from Cons.prems change_step [of ?p n hs path mv cs c l]
  have "process_line ?p (render_change l) = Inr ?q" by simp
  with Cons.prems Cons.IH [of ?q "apply_change_line l c"] show ?case by simp
qed simp

lemma context_marker_facts [simp]:
  "strip_prefix CHANGE_CONTEXT_MARKER EMPTY_CHANGE_CONTEXT_MARKER = None"
  "EMPTY_CHANGE_CONTEXT_MARKER \<noteq> []"
  "hd EMPTY_CHANGE_CONTEXT_MARKER = 64"
  "CHANGE_CONTEXT_MARKER @ x \<noteq> []"
  "hd (CHANGE_CONTEXT_MARKER @ x) = 64"
  "CHANGE_CONTEXT_MARKER \<noteq> []"
  by (simp_all add: marker_defs)

lemma marker_trims [simp]:
  "trim_end EMPTY_CHANGE_CONTEXT_MARKER = EMPTY_CHANGE_CONTEXT_MARKER"
  "trim_end EOF_MARKER = EOF_MARKER"
  by code_simp+

lemma last_is_some_and_Nil [simp]: "\<not> last_is_some_and P []"
  by (simp add: last_is_some_and_def)

lemma context_marker_not_empty: "x \<noteq> [] \<Longrightarrow> CHANGE_CONTEXT_MARKER @ x \<noteq> EMPTY_CHANGE_CONTEXT_MARKER"
  by (simp add: marker_defs)

lemma render_context_facts:
  assumes "option_all good_name ctx"
  shows "trim_end (render_context ctx) = render_context ctx" and "hd (render_context ctx) = 64"
    and "render_context ctx \<noteq> []" and "is_context_marker (render_context ctx)"
  using assms
  by (auto simp: render_context_def is_context_marker_def starts_with_def good_name_def
      split: option.splits)

lemma last_is_some_and_all:
  "list_all (\<lambda>c. \<not> chunk_empty c) cs \<Longrightarrow> \<not> last_is_some_and chunk_empty cs"
  by (auto simp: last_is_some_and_def list_all_iff)

lemma update_body_context:
  assumes "hunks p = hs @ [UpdateFile path mv cs]" and "list_all (\<lambda>c. \<not> chunk_empty c) cs"
    and "option_all good_name ctx"
  shows "process_update_body p (render_context ctx) (render_context ctx) path mv cs
    = Inr (p\<lparr>hunks := hs @ [UpdateFile path mv (cs @ [default_chunk\<lparr>change_context := ctx\<rparr>])]\<rparr>)"
proof -
  note u = render_context_facts [OF assms(3)]
  have "strip_prefix MOVE_TO_MARKER (render_context ctx) = None"
    using u by (intro body_prefixes) simp
  with assms u last_is_some_and_all [OF assms(2)] show ?thesis
    by (cases ctx)
       (simp_all add: process_update_body_def Let_def set_last_hunk_def render_context_def
         good_name_def context_marker_not_empty default_chunk_def)
qed

lemma context_step:
  assumes "parser_mode p = UpdateFileMode n" and "hunks p = hs @ [UpdateFile path mv cs]"
    and "list_all (\<lambda>c. \<not> chunk_empty c) cs" and "option_all good_name ctx"
  shows "process_line p (render_context ctx)
    = Inr (p\<lparr>hunks := hs @ [UpdateFile path mv (cs @ [default_chunk\<lparr>change_context := ctx\<rparr>])]\<rparr>)"
proof -
  note u = render_context_facts [OF assms(4)]
  have "handle_hunk_headers_and_end_patch p (trim_end (render_context ctx)) = Inr None"
    by (rule handle_body) (simp add: u)
  from process_update [OF assms(1,2) this] update_body_context [OF assms(2,3,4)] show ?thesis
    by (simp add: u)
qed

lemma eof_step:
  assumes "parser_mode p = UpdateFileMode n" and "hunks p = hs @ [UpdateFile path mv (cs @ [c])]"
    and "\<not> chunk_empty c" and "\<not> is_end_of_file c"
  shows "process_line p EOF_MARKER
    = Inr (p\<lparr>hunks := hs @ [UpdateFile path mv (cs @ [c\<lparr>is_end_of_file := True\<rparr>])]\<rparr>)"
proof -
  have "handle_hunk_headers_and_end_patch p (trim_end EOF_MARKER) = Inr None"
    using assms(1) by (simp add: handle_hunk_headers_and_end_patch_def)
  from process_update [OF assms(1,2) this] assms show ?thesis
    by (simp add: process_update_body_def Let_def is_context_marker_def starts_with_def
        set_last_hunk_def)
qed

lemma chunk_empty_apply [simp]: "\<not> chunk_empty (apply_change_line l c)"
  by (cases l) (auto simp: chunk_empty_def push_context_line_def)

lemma chunk_empty_fold: "\<not> chunk_empty c \<Longrightarrow> \<not> chunk_empty (fold apply_change_line ls c)"
  by (induction ls arbitrary: c) auto

lemma chunk_empty_fold_lines: "ls \<noteq> [] \<Longrightarrow> \<not> chunk_empty (fold apply_change_line ls c)"
  by (cases ls) (auto simp: chunk_empty_fold)

lemma chunk_empty_flag [simp]: "chunk_empty (c\<lparr>is_end_of_file := b\<rparr>) = chunk_empty c"
  by (simp add: chunk_empty_def)

lemma is_end_of_file_fold [simp]:
  "is_end_of_file (fold apply_change_line ls c) = is_end_of_file c"
  by (induction ls arbitrary: c) auto

lemma chunk_of_not_empty: "good_chunk c \<Longrightarrow> \<not> chunk_empty (chunk_of c)"
  by (simp add: chunk_of_def good_chunk_def chunk_empty_fold_lines)

lemma run_chunk:
  assumes "parser_mode p = UpdateFileMode n" and "hunks p = hs @ [UpdateFile path mv cs]"
    and "list_all (\<lambda>c. \<not> chunk_empty c) cs" and "good_chunk c"
  shows "run_lines p (render_chunk c) = Inr (p\<lparr>
    hunks := hs @ [UpdateFile path mv (cs @ [chunk_of c])],
    line_number := line_number p + length (render_chunk c)\<rparr>)"
proof -
  let ?c0 = "default_chunk\<lparr>change_context := spec_context c\<rparr>"
  let ?c1 = "fold apply_change_line (spec_lines c) ?c0"
  let ?p0 = "p\<lparr>hunks := hs @ [UpdateFile path mv (cs @ [?c0])], line_number := line_number p + 1\<rparr>"
  let ?p1 = "p\<lparr>hunks := hs @ [UpdateFile path mv (cs @ [?c1])],
      line_number := line_number p + 1 + length (spec_lines c)\<rparr>"
  have ne: "\<not> chunk_empty ?c1" and eof: "\<not> is_end_of_file ?c1" and ctx: "option_all good_name (spec_context c)"
    using assms(4) by (simp_all add: good_chunk_def chunk_empty_fold_lines default_chunk_def)
  have "process_line (p\<lparr>line_number := line_number p + 1\<rparr>) (render_context (spec_context c)) = Inr ?p0"
    using context_step [of "p\<lparr>line_number := line_number p + 1\<rparr>", OF _ _ assms(3) ctx] assms(1,2)
    by simp
  moreover have "run_lines ?p0 (map render_change (spec_lines c)) = Inr ?p1"
    using run_changes [of ?p0 n hs path mv cs ?c0] assms(1) by (simp add: default_chunk_def)
  moreover have "process_line (?p1\<lparr>line_number := line_number ?p1 + 1\<rparr>) EOF_MARKER
    = Inr (?p1\<lparr>line_number := line_number ?p1 + 1,
                hunks := hs @ [UpdateFile path mv (cs @ [?c1\<lparr>is_end_of_file := True\<rparr>])]\<rparr>)"
    using eof_step [of "?p1\<lparr>line_number := line_number ?p1 + 1\<rparr>", OF _ _ ne eof] assms(1) by simp
  moreover have "?c1\<lparr>is_end_of_file := False\<rparr> = ?c1" using eof by (cases ?c1) simp
  ultimately show ?thesis
    by (simp add: render_chunk_def run_lines_append chunk_of_def)
qed

lemma run_chunks:
  assumes "parser_mode p = UpdateFileMode n" and "hunks p = hs @ [UpdateFile path mv cs]"
    and "list_all (\<lambda>c. \<not> chunk_empty c) cs" and "list_all good_chunk ss"
  shows "run_lines p (concat (map render_chunk ss)) = Inr (p\<lparr>
    hunks := hs @ [UpdateFile path mv (cs @ map chunk_of ss)],
    line_number := line_number p + length (concat (map render_chunk ss))\<rparr>)"
  using assms
proof (induction ss arbitrary: p cs)
  case (Cons c ss)
  let ?q = "p\<lparr>hunks := hs @ [UpdateFile path mv (cs @ [chunk_of c])],
    line_number := line_number p + length (render_chunk c)\<rparr>"
  from Cons.prems run_chunk [OF Cons.prems(1,2,3), of c] have "run_lines p (render_chunk c) = Inr ?q"
    by simp
  moreover have "run_lines ?q (concat (map render_chunk ss)) = Inr (?q\<lparr>
    hunks := hs @ [UpdateFile path mv ((cs @ [chunk_of c]) @ map chunk_of ss)],
    line_number := line_number ?q + length (concat (map render_chunk ss))\<rparr>)"
    using Cons.prems by (intro Cons.IH) (simp_all add: chunk_of_not_empty)
  ultimately show ?case by (simp add: run_lines_append)
qed simp

section \<open>Hunks\<close>

lemma chunk_wf_apply: "chunk_wf c \<Longrightarrow> chunk_wf (apply_change_line l c)"
  by (cases l) auto

lemma chunk_wf_fold: "chunk_wf c \<Longrightarrow> chunk_wf (fold apply_change_line ls c)"
  by (induction ls arbitrary: c) (simp_all add: chunk_wf_apply)

lemma hunk_of_complete: "good_hunk h \<Longrightarrow> hunk_complete (hunk_of h)"
proof (cases h)
  case (SpecAdd path ls)
  then show ?thesis by (cases ls rule: rev_cases) auto
next
  case (SpecUpdate path mv cs)
  moreover assume "good_hunk h"
  moreover have "chunk_wf (chunk_of c)" for c by (simp add: chunk_of_def chunk_wf_fold)
  ultimately show ?thesis by (auto simp: list_all_iff chunk_of_not_empty)
qed simp

lemma readyD: "ready p hs env \<Longrightarrow> hunks p = hs \<and> environment_id p = env \<and> list_all hunk_complete hs
    \<and> line_buffer p = []"
  by (simp add: ready_def)

lemma move_step:
  assumes "parser_mode p = UpdateFileMode n" and "hunks p = hs @ [UpdateFile path None []]"
    and "good_name dest"
  shows "process_line p (MOVE_TO_MARKER @ dest) = Inr (p\<lparr>hunks := hs @ [UpdateFile path (Some dest) []]\<rparr>)"
proof -
  have u: "trim_end (MOVE_TO_MARKER @ dest) = MOVE_TO_MARKER @ dest"
    using assms(3) by (simp add: good_name_def)
  have "handle_hunk_headers_and_end_patch p (trim_end (MOVE_TO_MARKER @ dest)) = Inr None"
    unfolding u using assms(1) by (simp add: handle_hunk_headers_and_end_patch_def)
  from process_update [OF assms(1,2) this] show ?thesis
    by (simp add: u process_update_body_def Let_def set_last_hunk_def assms(2))
qed

lemma run_moves:
  assumes "parser_mode p = UpdateFileMode n" and "hunks p = hs @ [UpdateFile path None []]"
    and "option_all good_name mv"
  shows "run_lines p (case mv of None \<Rightarrow> [] | Some dest \<Rightarrow> [MOVE_TO_MARKER @ dest])
    = Inr (p\<lparr>hunks := hs @ [UpdateFile path mv []],
             line_number := line_number p + (if mv = None then 0 else 1)\<rparr>)"
  using assms move_step [of "p\<lparr>line_number := line_number p + 1\<rparr>" n hs path]
  by (auto split: option.split)

lemma run_hunk:
  assumes "ready p hs env" and "good_hunk h"
  shows "\<exists>p'. run_lines p (render_hunk h) = Inr p' \<and> ready p' (hs @ [hunk_of h]) env"
proof -
  let ?p = "p\<lparr>line_number := line_number p + 1\<rparr>"
  have ready: "ready ?p hs env" using assms(1) by simp
  note hs = readyD [OF assms(1)]
  note complete = hunk_of_complete [OF assms(2)]
  show ?thesis
  proof (cases h)
    case (SpecAdd path ls)
    with assms(2) header_steps(1) [OF ready] run_add_lines
      [of "?p\<lparr>hunks := hs @ [AddFile path []], parser_mode := AddFileMode\<rparr>" hs path "[]" ls]
      hs complete
    show ?thesis by (simp add: ready_def)
  next
    case (SpecDelete path)
    with assms(2) header_steps(2) [OF ready] hs show ?thesis by (simp add: ready_def)
  next
    case (SpecUpdate path mv cs)
    let ?q = "?p\<lparr>hunks := hs @ [UpdateFile path None []], parser_mode := UpdateFileMode (line_number ?p)\<rparr>"
    let ?r = "?q\<lparr>hunks := hs @ [UpdateFile path mv []],
        line_number := line_number ?q + (if mv = None then 0 else 1)\<rparr>"
    from SpecUpdate assms(2) header_steps(3) [OF ready] have "process_line ?p (UPDATE_FILE_MARKER @ path) = Inr ?q"
      by simp
    moreover from SpecUpdate assms(2) run_moves [of ?q _ hs path mv]
    have "run_lines ?q (case mv of None \<Rightarrow> [] | Some dest \<Rightarrow> [MOVE_TO_MARKER @ dest]) = Inr ?r" by simp
    moreover from SpecUpdate assms(2) run_chunks [of ?r _ hs path mv "[]" cs]
    have "run_lines ?r (concat (map render_chunk cs)) = Inr (?r\<lparr>
      hunks := hs @ [UpdateFile path mv (map chunk_of cs)],
      line_number := line_number ?r + length (concat (map render_chunk cs))\<rparr>)" by simp
    ultimately show ?thesis
      using SpecUpdate hs complete by (auto simp: run_lines_append ready_def)
  qed
qed

lemma run_hunks:
  "ready p hs env \<Longrightarrow> list_all good_hunk gs \<Longrightarrow>
     \<exists>p'. run_lines p (concat (map render_hunk gs)) = Inr p' \<and> ready p' (hs @ map hunk_of gs) env"
proof (induction gs arbitrary: p hs)
  case (Cons g gs)
  then obtain p1 where "run_lines p (render_hunk g) = Inr p1" "ready p1 (hs @ [hunk_of g]) env"
    using run_hunk by fastforce
  with Cons.IH [OF this(2)] Cons.prems show ?case by (auto simp: run_lines_append)
qed auto

section \<open>The whole patch\<close>

definition good_env :: "str \<Rightarrow> bool" where
  "good_env e \<longleftrightarrow> good_name e \<and> \<not> is_whitespace (hd e)"

lemma begin_facts [simp]:
  "trim BEGIN_PATCH_MARKER = BEGIN_PATCH_MARKER" "BEGIN_PATCH_MARKER \<noteq> []"
  "hd BEGIN_PATCH_MARKER = 42" "END_PATCH_MARKER \<noteq> []" "BEGIN_PATCH_MARKER \<noteq> END_PATCH_MARKER"
  by code_simp+

lemma run_preamble:
  assumes "option_all good_env env"
  shows "\<exists>p. run_lines default_parser (BEGIN_PATCH_MARKER #
      (case env of None \<Rightarrow> [] | Some e \<Rightarrow> [ENVIRONMENT_ID_MARKER @ e])) = Inr p \<and> ready p [] env"
proof (cases env)
  case None
  then show ?thesis by (simp add: process_line_def default_parser_def ready_def)
next
  case (Some e)
  with assms have "trim_end e = e" "trim_start e = e" "e \<noteq> []"
    using trim_end_append [of e "[]"] by (cases e; simp add: good_env_def good_name_def)+
  then have "trim e = e" by (simp add: trim_def)
  with Some assms \<open>e \<noteq> []\<close> show ?thesis
    by (simp add: process_line_def default_parser_def process_header_line_def good_env_def
        handle_hunk_headers_and_end_patch_def ready_def)
qed

lemma LF_free_markers [simp]:
  "LF \<notin> set BEGIN_PATCH_MARKER" "LF \<notin> set END_PATCH_MARKER" "LF \<notin> set ADD_FILE_MARKER"
  "LF \<notin> set DELETE_FILE_MARKER" "LF \<notin> set UPDATE_FILE_MARKER" "LF \<notin> set MOVE_TO_MARKER"
  "LF \<notin> set CHANGE_CONTEXT_MARKER" "LF \<notin> set ENVIRONMENT_ID_MARKER"
  by code_simp+

lemma plain_markers [simp]:
  "plain_line BEGIN_PATCH_MARKER" "plain_line END_PATCH_MARKER" "plain_line EOF_MARKER"
  "plain_line EMPTY_CHANGE_CONTEXT_MARKER"
  by code_simp+

lemma plain_named: "good_name s \<Longrightarrow> LF \<notin> set m \<Longrightarrow> plain_line (m @ s)"
  by (auto simp: good_name_def plain_line_def is_whitespace_def)

lemma plain_render_change: "plain_line (change_text l) \<Longrightarrow> plain_line (render_change l)"
  by (cases l) (auto simp: plain_line_def)

lemma plain_render_chunk: "good_chunk c \<Longrightarrow> list_all plain_line (render_chunk c)"
  by (auto simp: render_chunk_def good_chunk_def render_context_def list_all_iff plain_render_change
      plain_named split: option.splits)

lemma plain_render_hunk: "good_hunk h \<Longrightarrow> list_all plain_line (render_hunk h)"
proof (cases h)
  case (SpecAdd path ls)
  moreover assume "good_hunk h"
  ultimately show ?thesis
    using plain_render_change [of "AddedLine _"] by (auto simp: list_all_iff plain_named)
next
  case (SpecUpdate path mv cs)
  moreover assume "good_hunk h"
  ultimately show ?thesis
    using plain_render_chunk by (auto simp: list_all_iff plain_named split: option.split)
qed (simp add: plain_named)

lemma plain_render_patch:
  assumes "option_all good_env env" and "list_all good_hunk hs"
  shows "list_all plain_line (render_patch env hs)"
  using assms plain_render_hunk
  by (auto simp: render_patch_def list_all_iff good_env_def plain_named split: option.split)

lemma trim_visible:
  assumes "s \<noteq> []" and "\<not> is_whitespace (hd s)" and "\<not> is_whitespace (last s)"
  shows "trim s = s"
proof -
  from assms(1,2) have "trim_start s = s" by (cases s) simp_all
  with assms trim_end_append [of s "[]"] show ?thesis by (simp add: trim_def)
qed

lemma END_visible: "\<not> is_whitespace (last END_PATCH_MARKER)" "\<not> is_whitespace 42"
  by code_simp+

lemma render_patch_split:
  "render_patch env hs = ((BEGIN_PATCH_MARKER #
     (case env of None \<Rightarrow> [] | Some e \<Rightarrow> [ENVIRONMENT_ID_MARKER @ e]))
     @ concat (map render_hunk hs)) @ [END_PATCH_MARKER]"
  by (simp add: render_patch_def)

lemma render_patch_body:
  "join [LF] (render_patch env hs) = concat (map (\<lambda>l. l @ [LF]) (BEGIN_PATCH_MARKER #
     (case env of None \<Rightarrow> [] | Some e \<Rightarrow> [ENVIRONMENT_ID_MARKER @ e])
     @ concat (map render_hunk hs))) @ END_PATCH_MARKER"
  unfolding render_patch_split join_LF_snoc by simp

lemma rendered_lines:
  assumes "option_all good_env env" and "list_all good_hunk hs"
  shows "str_lines (trim (join [LF] (render_patch env hs))) = render_patch env hs"
proof -
  let ?ls = "render_patch env hs"
  have "trim (join [LF] ?ls) = join [LF] ?ls"
    unfolding render_patch_body using END_visible by (intro trim_visible) simp_all
  moreover have "str_lines (join [LF] ?ls) = ?ls"
    using plain_render_patch [OF assms]
    by (intro str_lines_join) (simp_all add: render_patch_def list_all_iff)
  ultimately show ?thesis by simp
qed

lemma parse_rendered:
  assumes "option_all good_env env" and "list_all good_hunk hs"
  shows "parse_patch_text (join [LF] (render_patch env hs)) mode = Inr \<lparr>
    args_patch = join [LF] (render_patch env hs), args_hunks = map hunk_of hs,
    args_workdir = None, args_environment_id = env\<rparr>"
proof -
  let ?ls = "render_patch env hs"
  let ?head = "BEGIN_PATCH_MARKER # (case env of None \<Rightarrow> [] | Some e \<Rightarrow> [ENVIRONMENT_ID_MARKER @ e])"
  let ?init = "?head @ concat (map render_hunk hs)"
  have plain: "list_all plain_line ?ls" by (rule plain_render_patch [OF assms])
  obtain p where p: "run_lines default_parser ?head = Inr p" "ready p [] env"
    using run_preamble [OF assms(1)] by blast
  from run_hunks [OF p(2) assms(2)] obtain q where
    q: "run_lines p (concat (map render_hunk hs)) = Inr q" "ready q (map hunk_of hs) env" by auto
  have run: "run_lines default_parser ?init = Inr q"
    unfolding run_lines_append p(1) bind_result.simps q(1) ..
  note rendered_lines [OF assms]
  moreover have "check_patch_boundaries_strict ?ls = Inr ?ls"
    by (simp add: check_patch_boundaries_strict_def render_patch_def)
  moreover have "push_delta default_parser (join [LF] ?ls)
      = (q\<lparr>line_buffer := END_PATCH_MARKER\<rparr>, Inr (map hunk_of hs))"
    unfolding render_patch_body using push_delta_lines [OF _ _ run, of END_PATCH_MARKER] plain
      push_delta_no_LF [of END_PATCH_MARKER q "[]"] readyD [OF q(2)]
    by (simp add: render_patch_split default_parser_def)
  moreover have "finish_line (q\<lparr>line_buffer := END_PATCH_MARKER\<rparr>)
      = Inr (q\<lparr>line_buffer := [], line_number := line_number q + 1, parser_mode := EndedPatch\<rparr>)"
  proof -
    have "ready (q\<lparr>line_buffer := [], line_number := line_number q + 1\<rparr>) (map hunk_of hs) env"
      using q(2) by (simp add: ready_def)
    from ensure_ready [OF this] show ?thesis by (simp add: finish_line_def Let_def)
  qed
  ultimately show ?thesis
    using readyD [OF q(2)]
    by (cases mode) (simp_all add: parse_patch_text_def check_patch_boundaries_lenient_def Let_def)
qed

text \<open>
  C16. Every patch that can be written is read back: parsing the text of a list of hunks,
  with or without an environment, gives exactly those hunks.
\<close>

theorem parse_patch_rendered:
  assumes "option_all good_env env" and "list_all good_hunk hs"
  shows "parse_patch (join [LF] (render_patch env hs)) = Inr \<lparr>
    args_patch = join [LF] (render_patch env hs), args_hunks = map hunk_of hs,
    args_workdir = None, args_environment_id = env\<rparr>"
  unfolding parse_patch_def by (rule parse_rendered [OF assms])

definition sample_spec :: "hunk_spec list" where
  "sample_spec = [SpecAdd (lit ''a'') [lit ''x'', []], SpecDelete (lit ''d''),
     SpecUpdate (lit ''b'') (Some (lit ''c''))
       [\<lparr>spec_context = Some (lit ''f''), spec_lines = [ContextLine [], RemovedLine (lit ''y''),
          AddedLine (lit ''*** End Patch'')], spec_eof = True\<rparr>]]"

theorem parse_patch_rendered_witness:
  "map_sum id args_hunks (parse_patch (join [LF] (render_patch (Some (lit ''e'')) sample_spec)))
     = Inr (map hunk_of sample_spec)"
proof -
  have "option_all good_env (Some (lit ''e''))" "list_all good_hunk sample_spec" by code_simp+
  from parse_patch_rendered [OF this] show ?thesis by simp
qed

section \<open>Heredocs\<close>

lemma check_lenient_heredoc:
  assumes "h \<in> set heredoc_starts" and "check_patch_boundaries_strict ls = Inr ls" and "2 \<le> length ls"
  shows "check_patch_boundaries_lenient (h # ls @ [lit ''EOF'']) = Inr ls"
proof -
  have "trim h \<noteq> BEGIN_PATCH_MARKER"
    using assms(1) unfolding heredoc_starts_def by (auto; code_simp)
  moreover have "ends_with (lit ''EOF'') (lit ''EOF'')" by code_simp
  ultimately show ?thesis
    using assms by (simp add: check_patch_boundaries_lenient_def check_patch_boundaries_strict_def)
qed

lemma heredoc_line:
  "h \<in> set heredoc_starts \<Longrightarrow> plain_line h \<and> h \<noteq> [] \<and> \<not> is_whitespace (hd h)"
  unfolding heredoc_starts_def by (auto; code_simp)

lemma parse_heredoc:
  assumes "h \<in> set heredoc_starts" and "option_all good_env env" and "list_all good_hunk hs"
  shows "parse_patch (join [LF] (h # render_patch env hs @ [lit ''EOF'']))
    = parse_patch (join [LF] (render_patch env hs))"
proof -
  let ?ls = "render_patch env hs" and ?ms = "h # render_patch env hs @ [lit ''EOF'']"
  note h = heredoc_line [OF assms(1)]
  have eof: "\<not> is_whitespace (last (lit ''EOF''))" "lit ''EOF'' \<noteq> []" "plain_line (lit ''EOF'')"
    by code_simp+
  have body: "join [LF] ?ms = concat (map (\<lambda>l. l @ [LF]) (h # ?ls)) @ lit ''EOF''"
    using join_LF_snoc [of "h # ?ls" "lit ''EOF''"] by simp
  have trim: "trim (join [LF] ?ms) = join [LF] ?ms"
    unfolding body using h eof by (intro trim_visible) simp_all
  have lines: "str_lines (join [LF] ?ms) = ?ms"
    using plain_render_patch [OF assms(2,3)] h eof
    by (intro str_lines_join) (simp_all add: list_all_iff)
  have strict: "check_patch_boundaries_strict ?ls = Inr ?ls"
    by (simp add: check_patch_boundaries_strict_def render_patch_def)
  have lenient: "check_patch_boundaries_lenient ?ms = Inr ?ls"
    by (rule check_lenient_heredoc [OF assms(1) strict]) (simp add: render_patch_def)
  have "parse_patch_text (join [LF] ?ms) Lenient = parse_patch_text (join [LF] ?ls) Strict"
    using lenient strict
    by (simp add: parse_patch_text_def Let_def trim lines rendered_lines [OF assms(2,3)])
  then show ?thesis
    by (simp add: parse_patch_def parse_rendered [OF assms(2,3)])
qed

text \<open>
  A patch that is wrapped in a heredoc, plain or quoted either way, is read as the
  patch itself.
\<close>

theorem parse_patch_heredoc:
  assumes "h \<in> set heredoc_starts" and "option_all good_env env" and "list_all good_hunk hs"
  shows "parse_patch (join [LF] (h # render_patch env hs @ [lit ''EOF'']))
    = parse_patch (join [LF] (render_patch env hs))"
  by (rule parse_heredoc [OF assms])

theorem parse_patch_heredoc_witness:
  "parse_patch (join [LF] (lit ''<<EOF'' # render_patch None sample_spec @ [lit ''EOF'']))
    = parse_patch (join [LF] (render_patch None sample_spec))"
proof (rule parse_patch_heredoc)
  show "lit ''<<EOF'' \<in> set heredoc_starts" by (simp add: heredoc_starts_def)
  show "list_all good_hunk sample_spec" by code_simp
qed simp

end
