(* ===== verification/ApplyHunks.thy ===== *)
theory ApplyHunks
  imports FileUpdate PatchParser
begin

text \<open>
  \<open>apply-patch/src/lib.rs\<close>: applying hunks to a file system, with the delta of what was
  committed, and applying a patch text. The file system is the trait
  \<open>ExecutorFileSystem\<close> of \<open>exec-server\<close>, here a record of its operations over a state;
  paths are \<open>PathUri\<close>s, here an arbitrary type with the operations the code uses.
\<close>

section \<open>The file system and the paths\<close>

record file_metadata =
  is_file :: bool
  is_directory :: bool
  is_symlink :: bool

text \<open>
  The operations, with the flag \<open>follow_symlinks\<close>; a failed write may have changed the
  state. Reading does not change it. The sandbox is fixed, so part of the operations.
\<close>

record ('s, 'p) fs_ops =
  read_file_text :: "'s \<Rightarrow> 'p \<Rightarrow> bool \<Rightarrow> io_error + str"
  get_metadata :: "'s \<Rightarrow> 'p \<Rightarrow> bool \<Rightarrow> io_error + file_metadata"
  write_file :: "'s \<Rightarrow> 'p \<Rightarrow> str \<Rightarrow> bool \<Rightarrow> 's \<times> (io_error + unit)"
  create_directory :: "'s \<Rightarrow> 'p \<Rightarrow> bool \<Rightarrow> 's \<times> (io_error + unit)"
  remove_file :: "'s \<Rightarrow> 'p \<Rightarrow> bool \<Rightarrow> 's \<times> (io_error + unit)"

record 'p path_ops =
  path_join :: "'p \<Rightarrow> str \<Rightarrow> str + 'p"
  path_parent :: "'p \<Rightarrow> 'p option"
  native_path_string :: "'p \<Rightarrow> str"

section \<open>The delta\<close>

datatype 'p applied_file_change =
    AppliedAdd str "str option"
  | AppliedDelete str
  | AppliedUpdate "'p option" str "str option" str

record 'p applied_change =
  change_path :: 'p
  file_change :: "'p applied_file_change"

record 'p applied_delta =
  delta_changes :: "'p applied_change list"
  delta_exact :: bool

definition empty_delta :: "'p applied_delta" where
  "empty_delta = \<lparr>delta_changes = [], delta_exact = True\<rparr>"

definition delta_append :: "'p applied_delta \<Rightarrow> 'p applied_delta \<Rightarrow> 'p applied_delta" where
  "delta_append d e = d\<lparr>delta_changes := delta_changes d @ delta_changes e,
     delta_exact := delta_exact d \<and> delta_exact e\<rparr>"

section \<open>Errors on the way\<close>

text \<open>
  An \<open>anyhow::Error\<close> as the code builds it: an I/O error, with or without a context, an
  error of \<open>apply-patch\<close>, of a path, or a message.
\<close>

datatype any_error =
    AnyIo "str option" io_error
  | AnyPatch apply_patch_error
  | AnyPath str
  | AnyMessage str

fun display_parse_error :: "parse_error \<Rightarrow> str" where
  "display_parse_error (InvalidPatchError m) = lit ''invalid patch: '' @ m"
| "display_parse_error (InvalidHunkError m n) =
     lit ''invalid hunk at line '' @ show_nat n @ lit '', '' @ m"

fun display_patch_error :: "apply_patch_error \<Rightarrow> str" where
  "display_patch_error (ParseErrorE e) = display_parse_error e"
| "display_patch_error (IoErrorE context source) = context @ lit '': '' @ io_message source"
| "display_patch_error (ComputeReplacements m) = m"
| "display_patch_error (PathUriE m) = m"
| "display_patch_error ImplicitInvocation =
     lit ''patch detected without explicit call to apply_patch. Rerun as ''
     @ lit ''[\"apply_patch\", \"<patch>\"]''"

text \<open>The context hides the I/O error from \<open>to_string\<close>.\<close>

fun display_any :: "any_error \<Rightarrow> str" where
  "display_any (AnyIo (Some context) e) = context"
| "display_any (AnyIo None e) = io_message e"
| "display_any (AnyPatch e) = display_patch_error e"
| "display_any (AnyPath m) = m"
| "display_any (AnyMessage m) = m"

text \<open>
  The error of a failed application: \<open>downcast_ref\<close> finds an I/O error under its context
  too, and the context is then lost.
\<close>

fun final_error :: "any_error \<Rightarrow> apply_patch_error" where
  "final_error (AnyIo context e) = IoErrorE (lit ''I/O error'') e"
| "final_error e = IoErrorE (display_any e) \<lparr>kind = Other, io_message = display_any e\<rparr>"

definition io_apply_error :: "io_error \<Rightarrow> apply_patch_error" where
  "io_apply_error e = IoErrorE (lit ''I/O error'') e"

definition with_context :: "str \<Rightarrow> io_error + 'a \<Rightarrow> any_error + 'a" where
  "with_context context r = (case r of Inl e \<Rightarrow> Inl (AnyIo (Some context) e) | Inr x \<Rightarrow> Inr x)"

section \<open>File system helpers\<close>

definition ensure_not_directory ::
    "('s, 'p) fs_ops \<Rightarrow> bool \<Rightarrow> 's \<Rightarrow> 'p \<Rightarrow> io_error + unit" where
  "ensure_not_directory fs follow s path =
     bind_result (get_metadata fs s path follow) (\<lambda>md.
       if is_directory md then Inl \<lparr>kind = InvalidInput, io_message = lit ''path is a directory''\<rparr>
       else Inr ())"

definition remove_failure_was_side_effect_free ::
    "('s, 'p) fs_ops \<Rightarrow> bool \<Rightarrow> 's \<Rightarrow> 'p \<Rightarrow> str option \<Rightarrow> bool" where
  "remove_failure_was_side_effect_free fs follow s path expected =
     (case expected of
        Some c \<Rightarrow> read_file_text fs s path follow = Inr c
      | None \<Rightarrow> False)"

text \<open>\<open>exact\<close> is passed and returned.\<close>

definition note_existing_path_delta_support ::
    "('s, 'p) fs_ops \<Rightarrow> bool \<Rightarrow> 's \<Rightarrow> 'p \<Rightarrow> bool \<Rightarrow> bool" where
  "note_existing_path_delta_support fs follow s path exact =
     (case get_metadata fs s path follow of
        Inr md \<Rightarrow> (if is_file md \<and> \<not> is_symlink md then exact else False)
      | Inl e \<Rightarrow> (if kind e = NotFound then exact else False))"

definition read_optional_file_text_for_delta ::
    "('s, 'p) fs_ops \<Rightarrow> bool \<Rightarrow> 's \<Rightarrow> 'p \<Rightarrow> bool \<Rightarrow> bool \<times> str option" where
  "read_optional_file_text_for_delta fs follow s path exact =
     (let exact = note_existing_path_delta_support fs follow s path exact in
      case read_file_text fs s path follow of
        Inr c \<Rightarrow> (exact, Some c)
      | Inl e \<Rightarrow> (if kind e = NotFound then (exact, None) else (False, None)))"

definition failed_to_write :: "'p path_ops \<Rightarrow> 'p \<Rightarrow> str" where
  "failed_to_write paths path = lit ''Failed to write file '' @ native_path_string paths path"

definition failed_to_delete :: "'p path_ops \<Rightarrow> 'p \<Rightarrow> str" where
  "failed_to_delete paths path = lit ''Failed to delete file '' @ native_path_string paths path"

definition failed_to_remove_original :: "'p path_ops \<Rightarrow> 'p \<Rightarrow> str" where
  "failed_to_remove_original paths path =
     lit ''Failed to remove original '' @ native_path_string paths path"

definition failed_to_create_parents :: "'p path_ops \<Rightarrow> 'p \<Rightarrow> str" where
  "failed_to_create_parents paths path =
     lit ''Failed to create parent directories for '' @ native_path_string paths path"

definition create_parent ::
    "('s, 'p) fs_ops \<Rightarrow> 'p path_ops \<Rightarrow> bool \<Rightarrow> 's \<Rightarrow> 'p \<Rightarrow> 's \<times> (any_error + unit)" where
  "create_parent fs paths follow s path =
     (case path_parent paths path of
        None \<Rightarrow> (s, Inr ())
      | Some parent \<Rightarrow>
          (case create_directory fs s parent follow of
             (s', r) \<Rightarrow> (s', with_context (failed_to_create_parents paths path) r)))"

definition write_file_with_missing_parent_retry ::
    "('s, 'p) fs_ops \<Rightarrow> 'p path_ops \<Rightarrow> bool \<Rightarrow> 's \<Rightarrow> 'p \<Rightarrow> str \<Rightarrow> 's \<times> (any_error + unit)" where
  "write_file_with_missing_parent_retry fs paths follow s path contents =
     (case write_file fs s path contents follow of
        (s1, Inr u) \<Rightarrow> (s1, Inr ())
      | (s1, Inl err) \<Rightarrow>
          (if kind err = NotFound then
             (case create_parent fs paths follow s1 path of
                (s2, Inl e) \<Rightarrow> (s2, Inl e)
              | (s2, Inr u) \<Rightarrow>
                  (case write_file fs s2 path contents follow of
                     (s3, r) \<Rightarrow> (s3, with_context (failed_to_write paths path) r)))
           else (s1, Inl (AnyIo (Some (failed_to_write paths path)) err))))"

section \<open>Applying a hunk\<close>

text \<open>
  What the loop over the hunks changes: the file system, the delta, which the caller
  sees after a failure too, and the affected paths.
\<close>

record affected_paths =
  added :: "str list"
  modified :: "str list"
  deleted :: "str list"

record ('s, 'p) apply_state =
  fs_state :: 's
  delta :: "'p applied_delta"
  affected :: affected_paths

type_synonym ('s, 'p) apply_step = "('s, 'p) apply_state \<times> (any_error fault + unit)"

definition push_change :: "'p \<Rightarrow> 'p applied_file_change \<Rightarrow> ('s, 'p) apply_state \<Rightarrow> ('s, 'p) apply_state" where
  "push_change path c st = st\<lparr>delta := (delta st)\<lparr>delta_changes :=
     delta_changes (delta st) @ [\<lparr>change_path = path, file_change = c\<rparr>]\<rparr>\<rparr>"

definition set_exact :: "bool \<Rightarrow> ('s, 'p) apply_state \<Rightarrow> ('s, 'p) apply_state" where
  "set_exact b st = st\<lparr>delta := (delta st)\<lparr>delta_exact := b\<rparr>\<rparr>"

definition push_added :: "str \<Rightarrow> ('s, 'p) apply_state \<Rightarrow> ('s, 'p) apply_state" where
  "push_added p st = st\<lparr>affected := (affected st)\<lparr>added := added (affected st) @ [p]\<rparr>\<rparr>"

definition push_modified :: "str \<Rightarrow> ('s, 'p) apply_state \<Rightarrow> ('s, 'p) apply_state" where
  "push_modified p st = st\<lparr>affected := (affected st)\<lparr>modified := modified (affected st) @ [p]\<rparr>\<rparr>"

definition push_deleted :: "str \<Rightarrow> ('s, 'p) apply_state \<Rightarrow> ('s, 'p) apply_state" where
  "push_deleted p st = st\<lparr>affected := (affected st)\<lparr>deleted := deleted (affected st) @ [p]\<rparr>\<rparr>"

text \<open>The macro \<open>try_write\<close>: a failed write leaves the delta inexact.\<close>

definition try_write ::
    "'s \<times> (any_error + unit) \<Rightarrow> ('s, 'p) apply_state
     \<Rightarrow> (('s, 'p) apply_state \<Rightarrow> ('s, 'p) apply_step) \<Rightarrow> ('s, 'p) apply_step" where
  "try_write r st k =
     (case r of
        (s', Inl e) \<Rightarrow> (set_exact False (st\<lparr>fs_state := s'\<rparr>), Inl (Failed e))
      | (s', Inr u) \<Rightarrow> k (st\<lparr>fs_state := s'\<rparr>))"

definition apply_add ::
    "('s, 'p) fs_ops \<Rightarrow> 'p path_ops \<Rightarrow> bool \<Rightarrow> str \<Rightarrow> 'p \<Rightarrow> str \<Rightarrow> ('s, 'p) apply_state
     \<Rightarrow> ('s, 'p) apply_step" where
  "apply_add fs paths follow affected_path path_uri contents st =
     (case read_optional_file_text_for_delta fs follow (fs_state st) path_uri (delta_exact (delta st)) of
        (exact, overwritten) \<Rightarrow>
          try_write
            (write_file_with_missing_parent_retry fs paths follow (fs_state st) path_uri contents)
            (set_exact exact st)
            (\<lambda>st. (push_added affected_path (push_change path_uri (AppliedAdd contents overwritten) st),
                   Inr ())))"

text \<open>
  Removing a file that is not a directory: \<open>context\<close> is that of both errors and
  \<open>expected\<close> what the file held.
\<close>

definition checked_remove ::
    "('s, 'p) fs_ops \<Rightarrow> bool \<Rightarrow> 'p \<Rightarrow> str \<Rightarrow> str option \<Rightarrow> ('s, 'p) apply_state
     \<Rightarrow> (('s, 'p) apply_state \<Rightarrow> ('s, 'p) apply_step) \<Rightarrow> ('s, 'p) apply_step" where
  "checked_remove fs follow path_uri context expected st k =
     (case ensure_not_directory fs follow (fs_state st) path_uri of
        Inl e \<Rightarrow> (st, Inl (Failed (AnyIo (Some context) e)))
      | Inr u \<Rightarrow>
          (case remove_file fs (fs_state st) path_uri follow of
             (s', Inl e) \<Rightarrow>
               (set_exact (delta_exact (delta st)
                   \<and> remove_failure_was_side_effect_free fs follow s' path_uri expected)
                  (st\<lparr>fs_state := s'\<rparr>), Inl (Failed (AnyIo (Some context) e)))
           | (s', Inr u) \<Rightarrow> k (st\<lparr>fs_state := s'\<rparr>)))"

definition apply_delete ::
    "('s, 'p) fs_ops \<Rightarrow> 'p path_ops \<Rightarrow> bool \<Rightarrow> str \<Rightarrow> 'p \<Rightarrow> ('s, 'p) apply_state
     \<Rightarrow> ('s, 'p) apply_step" where
  "apply_delete fs paths follow affected_path path_uri st =
     (let exact = note_existing_path_delta_support fs follow (fs_state st) path_uri
                    (delta_exact (delta st));
          deleted_content = (case read_file_text fs (fs_state st) path_uri follow of
                               Inr c \<Rightarrow> Some c | Inl e \<Rightarrow> None);
          st = set_exact (if deleted_content = None then False else exact) st
      in checked_remove fs follow path_uri (failed_to_delete paths path_uri) deleted_content st
           (\<lambda>st. (push_deleted affected_path
                    (case deleted_content of
                       Some c \<Rightarrow> push_change path_uri (AppliedDelete c) st
                     | None \<Rightarrow> st), Inr ())))"

text \<open>
  The move of an update: the write of the destination is in the delta as an addition
  until the original is removed.
\<close>

definition replace_last_change ::
    "'p \<Rightarrow> 'p applied_file_change \<Rightarrow> ('s, 'p) apply_state \<Rightarrow> nat \<Rightarrow> ('s, 'p) apply_state" where
  "replace_last_change path c st i = st\<lparr>delta := (delta st)\<lparr>delta_changes :=
     (delta_changes (delta st))[i := \<lparr>change_path = path, file_change = c\<rparr>]\<rparr>\<rparr>"

definition apply_move ::
    "('s, 'p) fs_ops \<Rightarrow> 'p path_ops \<Rightarrow> bool \<Rightarrow> 'p \<Rightarrow> str \<Rightarrow> 'p \<Rightarrow> str \<Rightarrow> applied_patch
     \<Rightarrow> ('s, 'p) apply_state \<Rightarrow> ('s, 'p) apply_step" where
  "apply_move fs paths follow cwd affected_path path_uri dest a st =
     (case path_join paths cwd dest of
        Inl e \<Rightarrow> (st, Inl (Failed (AnyPath e)))
      | Inr dest_uri \<Rightarrow>
          (case read_optional_file_text_for_delta fs follow (fs_state st) dest_uri
                  (delta_exact (delta st)) of
             (exact, overwritten) \<Rightarrow>
               try_write
                 (write_file_with_missing_parent_retry fs paths follow (fs_state st) dest_uri
                    (new_contents a))
                 (set_exact exact st)
                 (\<lambda>st1.
                   checked_remove fs follow path_uri (failed_to_remove_original paths path_uri)
                     (Some (original_contents a))
                     (push_change dest_uri (AppliedAdd (new_contents a) overwritten) st1)
                     (\<lambda>st2. (push_modified affected_path
                        (replace_last_change path_uri
                          (AppliedUpdate (Some dest_uri) (original_contents a) overwritten
                             (new_contents a)) st2 (length (delta_changes (delta st1)))),
                       Inr ())))))"

definition apply_in_place ::
    "('s, 'p) fs_ops \<Rightarrow> 'p path_ops \<Rightarrow> bool \<Rightarrow> str \<Rightarrow> 'p \<Rightarrow> applied_patch
     \<Rightarrow> ('s, 'p) apply_state \<Rightarrow> ('s, 'p) apply_step" where
  "apply_in_place fs paths follow affected_path path_uri a st =
     try_write
       (case write_file fs (fs_state st) path_uri (new_contents a) follow of
          (s', r) \<Rightarrow> (s', with_context (failed_to_write paths path_uri) r))
       st
       (\<lambda>st. (push_modified affected_path
          (push_change path_uri
             (AppliedUpdate None (original_contents a) None (new_contents a)) st), Inr ()))"

definition apply_update ::
    "('s, 'p) fs_ops \<Rightarrow> 'p path_ops \<Rightarrow> apply_patch_options \<Rightarrow> 'p \<Rightarrow> str \<Rightarrow> 'p \<Rightarrow> str option
     \<Rightarrow> update_file_chunk list \<Rightarrow> ('s, 'p) apply_state \<Rightarrow> ('s, 'p) apply_step" where
  "apply_update fs paths opts cwd affected_path path_uri move_path chunks st =
     (let follow = opt_follow_symlinks opts;
          st = set_exact (note_existing_path_delta_support fs follow (fs_state st) path_uri
                            (delta_exact (delta st))) st
      in case derive_new_contents_from_chunks (native_path_string paths path_uri)
                (read_file_text fs (fs_state st) path_uri follow) chunks
                (opt_update_file_mode opts) of
           Inl Panic \<Rightarrow> (st, Inl Panic)
         | Inl (Failed e) \<Rightarrow> (st, Inl (Failed (AnyPatch e)))
         | Inr a \<Rightarrow>
             (case move_path of
                Some dest \<Rightarrow> apply_move fs paths follow cwd affected_path path_uri dest a st
              | None \<Rightarrow> apply_in_place fs paths follow affected_path path_uri a st))"

definition apply_hunk ::
    "('s, 'p) fs_ops \<Rightarrow> 'p path_ops \<Rightarrow> apply_patch_options \<Rightarrow> 'p \<Rightarrow> hunk \<Rightarrow> ('s, 'p) apply_state
     \<Rightarrow> ('s, 'p) apply_step" where
  "apply_hunk fs paths opts cwd h st =
     (case path_join paths cwd (hunk_source_path h) of
        Inl e \<Rightarrow> (st, Inl (Failed (AnyPath e)))
      | Inr path_uri \<Rightarrow>
          (case h of
             AddFile path contents \<Rightarrow>
               apply_add fs paths (opt_follow_symlinks opts) (hunk_path h) path_uri contents st
           | DeleteFile path \<Rightarrow>
               apply_delete fs paths (opt_follow_symlinks opts) (hunk_path h) path_uri st
           | UpdateFile path move_path chunks \<Rightarrow>
               apply_update fs paths opts cwd (hunk_path h) path_uri move_path chunks st))"

fun apply_hunk_loop ::
    "('s, 'p) fs_ops \<Rightarrow> 'p path_ops \<Rightarrow> apply_patch_options \<Rightarrow> 'p \<Rightarrow> hunk list \<Rightarrow> ('s, 'p) apply_state
     \<Rightarrow> ('s, 'p) apply_step" where
  "apply_hunk_loop fs paths opts cwd [] st = (st, Inr ())"
| "apply_hunk_loop fs paths opts cwd (h # hs) st =
     (case apply_hunk fs paths opts cwd h st of
        (st', Inl e) \<Rightarrow> (st', Inl e)
      | (st', Inr u) \<Rightarrow> apply_hunk_loop fs paths opts cwd hs st')"

definition initial_apply_state :: "'s \<Rightarrow> ('s, 'p) apply_state" where
  "initial_apply_state s = \<lparr>fs_state = s, delta = empty_delta,
     affected = \<lparr>added = [], modified = [], deleted = []\<rparr>\<rparr>"

definition apply_hunks_to_files ::
    "('s, 'p) fs_ops \<Rightarrow> 'p path_ops \<Rightarrow> hunk list \<Rightarrow> apply_patch_options \<Rightarrow> 'p \<Rightarrow> 's
     \<Rightarrow> ('s, 'p) apply_step" where
  "apply_hunks_to_files fs paths hs opts cwd s =
     (if hs = [] then
        (initial_apply_state s, Inl (Failed (AnyMessage (lit ''No files were modified.''))))
      else apply_hunk_loop fs paths opts cwd hs (initial_apply_state s))"

section \<open>Reporting\<close>

text \<open>
  The writers \<open>stdout\<close> and \<open>stderr\<close> are states with a \<open>writeln\<close> that may fail.
\<close>

type_synonym 'w writer = "'w \<Rightarrow> str \<Rightarrow> 'w \<times> (io_error + unit)"

fun write_lines :: "'w writer \<Rightarrow> str list \<Rightarrow> 'w \<Rightarrow> 'w \<times> (io_error + unit)" where
  "write_lines writeln [] out = (out, Inr ())"
| "write_lines writeln (l # ls) out =
     (case writeln out l of
        (out', Inl e) \<Rightarrow> (out', Inl e)
      | (out', Inr u) \<Rightarrow> write_lines writeln ls out')"

definition summary_lines :: "affected_paths \<Rightarrow> str list" where
  "summary_lines a =
     [lit ''Success. Updated the following files:'']
     @ map (\<lambda>p. lit ''A '' @ p) (added a)
     @ map (\<lambda>p. lit ''M '' @ p) (modified a)
     @ map (\<lambda>p. lit ''D '' @ p) (deleted a)"

definition print_summary :: "'w writer \<Rightarrow> affected_paths \<Rightarrow> 'w \<Rightarrow> 'w \<times> (io_error + unit)" where
  "print_summary writeln a out = write_lines writeln (summary_lines a) out"

record ('s, 'w) apply_env =
  env_fs :: 's
  env_stdout :: 'w
  env_stderr :: 'w

text \<open>An \<open>ApplyPatchFailure\<close> is the error with the delta.\<close>

type_synonym 'p apply_outcome = "(apply_patch_error \<times> 'p applied_delta) fault + 'p applied_delta"

definition apply_hunks_with_options ::
    "('s, 'p) fs_ops \<Rightarrow> 'p path_ops \<Rightarrow> 'w writer \<Rightarrow> hunk list \<Rightarrow> apply_patch_options \<Rightarrow> 'p
     \<Rightarrow> ('s, 'w) apply_env \<Rightarrow> ('s, 'w) apply_env \<times> 'p apply_outcome" where
  "apply_hunks_with_options fs paths writeln hs opts cwd env =
     (case apply_hunks_to_files fs paths hs opts cwd (env_fs env) of
        (st, Inr u) \<Rightarrow>
          (case print_summary writeln (affected st) (env_stdout env) of
             (out, r) \<Rightarrow>
               (env\<lparr>env_fs := fs_state st, env_stdout := out\<rparr>,
                case r of
                  Inl e \<Rightarrow> Inl (Failed (io_apply_error e, delta st))
                | Inr u \<Rightarrow> Inr (delta st)))
      | (st, Inl Panic) \<Rightarrow> (env\<lparr>env_fs := fs_state st\<rparr>, Inl Panic)
      | (st, Inl (Failed error)) \<Rightarrow>
          (case writeln (env_stderr env) (display_any error) of
             (err, r) \<Rightarrow>
               (env\<lparr>env_fs := fs_state st, env_stderr := err\<rparr>,
                case r of
                  Inl e \<Rightarrow> Inl (Failed (io_apply_error e, delta st))
                | Inr u \<Rightarrow> Inl (Failed (final_error error, delta st)))))"

definition apply_hunks ::
    "('s, 'p) fs_ops \<Rightarrow> 'p path_ops \<Rightarrow> 'w writer \<Rightarrow> hunk list \<Rightarrow> 'p
     \<Rightarrow> ('s, 'w) apply_env \<Rightarrow> ('s, 'w) apply_env \<times> 'p apply_outcome" where
  "apply_hunks fs paths writeln hs cwd env =
     apply_hunks_with_options fs paths writeln hs default_options cwd env"

fun invalid_patch_line :: "parse_error \<Rightarrow> str" where
  "invalid_patch_line (InvalidPatchError m) = lit ''Invalid patch: '' @ m"
| "invalid_patch_line (InvalidHunkError m n) =
     lit ''Invalid patch hunk on line '' @ show_nat n @ lit '': '' @ m"

definition apply_patch_with_options ::
    "('s, 'p) fs_ops \<Rightarrow> 'p path_ops \<Rightarrow> 'w writer \<Rightarrow> str \<Rightarrow> apply_patch_options \<Rightarrow> 'p
     \<Rightarrow> ('s, 'w) apply_env \<Rightarrow> ('s, 'w) apply_env \<times> 'p apply_outcome" where
  "apply_patch_with_options fs paths writeln patch opts cwd env =
     (case parse_patch patch of
        Inr args \<Rightarrow> apply_hunks_with_options fs paths writeln (args_hunks args) opts cwd env
      | Inl e \<Rightarrow>
          (case writeln (env_stderr env) (invalid_patch_line e) of
             (err, r) \<Rightarrow>
               (env\<lparr>env_stderr := err\<rparr>,
                case r of
                  Inl io \<Rightarrow> Inl (Failed (io_apply_error io, empty_delta))
                | Inr u \<Rightarrow> Inl (Failed (ParseErrorE e, empty_delta)))))"

definition apply_patch ::
    "('s, 'p) fs_ops \<Rightarrow> 'p path_ops \<Rightarrow> 'w writer \<Rightarrow> str \<Rightarrow> 'p
     \<Rightarrow> ('s, 'w) apply_env \<Rightarrow> ('s, 'w) apply_env \<times> 'p apply_outcome" where
  "apply_patch fs paths writeln patch cwd env =
     apply_patch_with_options fs paths writeln patch default_options cwd env"

end
