(* ===== verification/ApplyHunksCorrect.thy ===== *)
theory ApplyHunksCorrect
  imports ApplyHunks
begin

text \<open>
  What the delta of an application says: the changes of an exact delta, replayed on the
  text files there were, give the text files there are, and undone they give the old ones
  back, for a failed application as for a successful one.
\<close>

section \<open>Text files\<close>

definition text_at :: "('s, 'p) fs_ops \<Rightarrow> bool \<Rightarrow> 's \<Rightarrow> 'p \<Rightarrow> str option" where
  "text_at fs follow s p = (case read_file_text fs s p follow of Inr c \<Rightarrow> Some c | Inl e \<Rightarrow> None)"

text \<open>A path is regular when it is a file that is no symlink, or missing.\<close>

definition regular :: "('s, 'p) fs_ops \<Rightarrow> bool \<Rightarrow> 's \<Rightarrow> 'p \<Rightarrow> bool" where
  "regular fs follow s p \<longleftrightarrow>
     (case get_metadata fs s p follow of
        Inr md \<Rightarrow> is_file md \<and> \<not> is_symlink md
      | Inl e \<Rightarrow> kind e = NotFound)"

text \<open>
  What the application relies on, of regular paths only: a write that succeeds leaves the
  text written, one that fails changes no other file, a removal that succeeds removes the
  file, one that fails leaves it as it was or missing, neither changes another file, and no
  write or new directory makes another regular path something else.
\<close>

definition write_laws :: "('s, 'p) fs_ops \<Rightarrow> bool \<Rightarrow> bool" where
  "write_laws fs f \<longleftrightarrow>
     (\<forall>s p c s' r. write_file fs s p c f = (s', r) \<longrightarrow> regular fs f s p \<longrightarrow>
        (r = Inr () \<longrightarrow> text_at fs f s' p = Some c)
        \<and> (\<forall>q. q \<noteq> p \<longrightarrow> text_at fs f s' q = text_at fs f s q)
        \<and> (\<forall>q. regular fs f s q \<longrightarrow> regular fs f s' q))"

definition remove_laws :: "('s, 'p) fs_ops \<Rightarrow> bool \<Rightarrow> bool" where
  "remove_laws fs f \<longleftrightarrow>
     (\<forall>s p s' r. remove_file fs s p f = (s', r) \<longrightarrow> regular fs f s p \<longrightarrow>
        (if r = Inr () then text_at fs f s' p = None
         else text_at fs f s' p = None \<or> text_at fs f s' p = text_at fs f s p)
        \<and> (\<forall>q. q \<noteq> p \<longrightarrow> text_at fs f s' q = text_at fs f s q))"

definition directory_laws :: "('s, 'p) fs_ops \<Rightarrow> 'p path_ops \<Rightarrow> bool \<Rightarrow> bool" where
  "directory_laws fs paths f \<longleftrightarrow>
     (\<forall>s d s' r. create_directory fs s d f = (s', r) \<longrightarrow>
        text_at fs f s' = text_at fs f s
        \<and> (\<forall>q. regular fs f s q \<longrightarrow> text_at fs f s q \<noteq> None \<or> path_parent paths q = Some d
              \<longrightarrow> regular fs f s' q))"

definition fs_laws :: "('s, 'p) fs_ops \<Rightarrow> 'p path_ops \<Rightarrow> bool \<Rightarrow> bool" where
  "fs_laws fs paths f \<longleftrightarrow> write_laws fs f \<and> remove_laws fs f \<and> directory_laws fs paths f"

lemma write_lawsD:
  assumes "fs_laws fs paths f" and "write_file fs s p c f = (s', r)" and "regular fs f s p"
  shows "r = Inr () \<Longrightarrow> text_at fs f s' = (text_at fs f s)(p \<mapsto> c)"
    and "q \<noteq> p \<Longrightarrow> text_at fs f s' q = text_at fs f s q"
    and "regular fs f s q \<Longrightarrow> regular fs f s' q"
  using assms unfolding fs_laws_def write_laws_def by (auto intro!: ext)

lemma remove_lawsD:
  assumes "fs_laws fs paths f" and "remove_file fs s p f = (s', r)" and "regular fs f s p"
  shows "r = Inr () \<Longrightarrow> text_at fs f s' = (text_at fs f s)(p := None)"
    and "q \<noteq> p \<or> text_at fs f s' p \<noteq> None \<Longrightarrow> text_at fs f s' q = text_at fs f s q"
proof -
  from assms have laws:
    "if r = Inr () then text_at fs f s' p = None
     else text_at fs f s' p = None \<or> text_at fs f s' p = text_at fs f s p"
    "\<And>q. q \<noteq> p \<Longrightarrow> text_at fs f s' q = text_at fs f s q"
    unfolding fs_laws_def remove_laws_def by blast+
  then show "r = Inr () \<Longrightarrow> text_at fs f s' = (text_at fs f s)(p := None)"
    and "q \<noteq> p \<or> text_at fs f s' p \<noteq> None \<Longrightarrow> text_at fs f s' q = text_at fs f s q"
    by (auto intro!: ext split: if_splits) (metis option.distinct(1))
qed

lemma directory_lawsD:
  assumes "fs_laws fs paths f" and "create_directory fs s d f = (s', r)"
  shows "text_at fs f s' = text_at fs f s"
    and "regular fs f s q \<Longrightarrow> text_at fs f s q \<noteq> None \<or> path_parent paths q = Some d
         \<Longrightarrow> regular fs f s' q"
  using assms unfolding fs_laws_def directory_laws_def by blast+

section \<open>The helpers\<close>

lemma note_existing_iff [simp]:
  "note_existing_path_delta_support fs f s p exact \<longleftrightarrow> exact \<and> regular fs f s p"
  by (auto simp: note_existing_path_delta_support_def regular_def split: sum.splits)

lemma read_optional_exact:
  assumes "read_optional_file_text_for_delta fs f s p exact = (exact', c)" and exact'
  shows "exact" and "regular fs f s p" and "c = text_at fs f s p"
  using assms
  by (auto simp: read_optional_file_text_for_delta_def text_at_def Let_def
      split: sum.splits if_splits)

lemma text_at_read: "text_at fs f s p = Some c \<longleftrightarrow> read_file_text fs s p f = Inr c"
  by (auto simp: text_at_def split: sum.splits)

lemma with_context_Inr [simp]: "with_context m r = Inr x \<longleftrightarrow> r = Inr x"
  by (auto simp: with_context_def split: sum.splits)

lemma create_parent_laws:
  assumes laws: "fs_laws fs paths f" and "create_parent fs paths f s p = (s', r)"
  shows "text_at fs f s' = text_at fs f s"
    and "regular fs f s q \<Longrightarrow> text_at fs f s q \<noteq> None \<or> q = p \<Longrightarrow> regular fs f s' q"
  using assms(2) directory_lawsD [OF laws]
  by (auto simp: create_parent_def split: option.splits prod.splits)

lemma write_retry_laws:
  assumes laws: "fs_laws fs paths f" and reg: "regular fs f s p"
    and "write_file_with_missing_parent_retry fs paths f s p c = (s', Inr ())"
  shows "text_at fs f s' = (text_at fs f s)(p \<mapsto> c)"
    and "regular fs f s q \<Longrightarrow> text_at fs f s q \<noteq> None \<Longrightarrow> regular fs f s' q"
proof -
  obtain s1 r1 where w1: "write_file fs s p c f = (s1, r1)" by fastforce
  note first = write_lawsD [OF laws w1 reg]
  have "text_at fs f s' = (text_at fs f s)(p \<mapsto> c)
     \<and> (regular fs f s q \<longrightarrow> text_at fs f s q \<noteq> None \<longrightarrow> regular fs f s' q)"
  proof (cases r1)
    case (Inr u)
    with assms(3) w1 first show ?thesis
      by (auto simp: write_file_with_missing_parent_retry_def)
  next
    case (Inl e)
    with assms(3) w1 obtain s2 u where
      mk: "create_parent fs paths f s1 p = (s2, Inr u)"
      and w2: "write_file fs s2 p c f = (s', Inr ())"
      by (auto simp: write_file_with_missing_parent_retry_def split: if_splits prod.splits sum.splits)
    have reg2: "regular fs f s2 p"
      using create_parent_laws(2) [OF laws mk] first(3) [OF reg] by blast
    have "text_at fs f s' = (text_at fs f s)(p \<mapsto> c)"
      using write_lawsD(1) [OF laws w2 reg2] create_parent_laws(1) [OF laws mk] first(2)
      by (auto intro!: ext)
    moreover have "regular fs f s' q" if "regular fs f s q" "text_at fs f s q \<noteq> None"
    proof (rule write_lawsD(3) [OF laws w2 reg2])
      show "regular fs f s2 q"
        using create_parent_laws(2) [OF laws mk] first(3) [OF that(1)] first(2) [of q] that(2) by metis
    qed
    ultimately show ?thesis by blast
  qed
  then show "text_at fs f s' = (text_at fs f s)(p \<mapsto> c)"
    and "regular fs f s q \<Longrightarrow> text_at fs f s q \<noteq> None \<Longrightarrow> regular fs f s' q"
    by blast+
qed

section \<open>Replaying and undoing changes\<close>

fun replay_change :: "'p applied_change \<Rightarrow> ('p \<Rightarrow> str option) \<Rightarrow> 'p \<Rightarrow> str option" where
  "replay_change ch v =
     (case file_change ch of
        AppliedAdd new over \<Rightarrow> v(change_path ch \<mapsto> new)
      | AppliedDelete old \<Rightarrow> v(change_path ch := None)
      | AppliedUpdate None old over new \<Rightarrow> v(change_path ch \<mapsto> new)
      | AppliedUpdate (Some dest) old over new \<Rightarrow> (v(dest \<mapsto> new))(change_path ch := None))"

fun undo_change :: "'p applied_change \<Rightarrow> ('p \<Rightarrow> str option) \<Rightarrow> 'p \<Rightarrow> str option" where
  "undo_change ch v =
     (case file_change ch of
        AppliedAdd new over \<Rightarrow> v(change_path ch := over)
      | AppliedDelete old \<Rightarrow> v(change_path ch \<mapsto> old)
      | AppliedUpdate None old over new \<Rightarrow> v(change_path ch \<mapsto> old)
      | AppliedUpdate (Some dest) old over new \<Rightarrow> (v(dest := over))(change_path ch \<mapsto> old))"

definition replay :: "'p applied_change list \<Rightarrow> ('p \<Rightarrow> str option) \<Rightarrow> 'p \<Rightarrow> str option" where
  "replay cs v = fold replay_change cs v"

definition undo :: "'p applied_change list \<Rightarrow> ('p \<Rightarrow> str option) \<Rightarrow> 'p \<Rightarrow> str option" where
  "undo cs v = foldr undo_change cs v"

text \<open>A change is accurate for the text files there were when undoing it gives them back.\<close>

fun accurate :: "('p \<Rightarrow> str option) \<Rightarrow> 'p applied_change list \<Rightarrow> bool" where
  "accurate v [] \<longleftrightarrow> True"
| "accurate v (ch # cs) \<longleftrightarrow>
     undo_change ch (replay_change ch v) = v \<and> accurate (replay_change ch v) cs"

lemma accurate_append: "accurate v (cs @ ds) \<longleftrightarrow> accurate v cs \<and> accurate (replay cs v) ds"
  by (induction cs arbitrary: v) (simp_all add: replay_def)

lemma accurate_undo: "accurate v cs \<Longrightarrow> undo cs (replay cs v) = v"
  by (induction cs arbitrary: v) (simp_all add: replay_def undo_def)

text \<open>
  A step adds changes to the delta, and if the delta is still exact after it, it was
  before and the changes added say what happened to the text files.
\<close>

definition accounts :: "('s, 'p) fs_ops \<Rightarrow> bool \<Rightarrow> ('s, 'p) apply_state \<Rightarrow> ('s, 'p) apply_state \<Rightarrow> bool" where
  "accounts fs f st st' \<longleftrightarrow>
     (\<exists>cs. delta_changes (delta st') = delta_changes (delta st) @ cs
        \<and> (delta_exact (delta st') \<longrightarrow> delta_exact (delta st)
             \<and> replay cs (text_at fs f (fs_state st)) = text_at fs f (fs_state st')
             \<and> accurate (text_at fs f (fs_state st)) cs))"

lemma accounts_refl [simp]: "accounts fs f st st"
  by (simp add: accounts_def replay_def)

lemma accounts_trans:
  assumes "accounts fs f st1 st2" and "accounts fs f st2 st3"
  shows "accounts fs f st1 st3"
proof -
  from assms obtain cs ds where
    "delta_changes (delta st2) = delta_changes (delta st1) @ cs"
    "delta_changes (delta st3) = delta_changes (delta st2) @ ds"
    "delta_exact (delta st2) \<longrightarrow> delta_exact (delta st1)
       \<and> replay cs (text_at fs f (fs_state st1)) = text_at fs f (fs_state st2)
       \<and> accurate (text_at fs f (fs_state st1)) cs"
    "delta_exact (delta st3) \<longrightarrow> delta_exact (delta st2)
       \<and> replay ds (text_at fs f (fs_state st2)) = text_at fs f (fs_state st3)
       \<and> accurate (text_at fs f (fs_state st2)) ds"
    by (auto simp: accounts_def)
  then show ?thesis
    unfolding accounts_def
    by (intro exI [of _ "cs @ ds"]) (auto simp: accurate_append, auto simp: replay_def)
qed

lemmas apply_state_defs = push_change_def set_exact_def push_added_def push_modified_def
  push_deleted_def replace_last_change_def

lemma accounts_add:
  assumes "fs_laws fs paths f"
  shows "accounts fs f st (fst (apply_add fs paths f a p c st))"
proof -
  obtain exact over where r: "read_optional_file_text_for_delta fs f (fs_state st) p
      (delta_exact (delta st)) = (exact, over)" by fastforce
  obtain s' w where w: "write_file_with_missing_parent_retry fs paths f (fs_state st) p c = (s', w)"
    by fastforce
  show ?thesis
  proof (cases w)
    case (Inl e)
    with r w show ?thesis
      by (auto simp: apply_add_def try_write_def accounts_def apply_state_defs)
  next
    case (Inr u)
    with w have w': "write_file_with_missing_parent_retry fs paths f (fs_state st) p c = (s', Inr ())"
      by simp
    with write_retry_laws(1) [OF assms _ w'] read_optional_exact [OF r] r show ?thesis
      by (auto simp: apply_add_def try_write_def accounts_def apply_state_defs replay_def)
  qed
qed

lemma accounts_delete:
  assumes laws: "fs_laws fs paths f"
  shows "accounts fs f st (fst (apply_delete fs paths f a p st))"
proof (cases "read_file_text fs (fs_state st) p f")
  case (Inl e)
  then show ?thesis
    by (auto simp: apply_delete_def checked_remove_def accounts_def apply_state_defs Let_def
        split: sum.splits prod.splits)
next
  case (Inr c)
  then have c: "text_at fs f (fs_state st) p = Some c" by (simp add: text_at_read)
  obtain s' w where w: "remove_file fs (fs_state st) p f = (s', w)" by fastforce
  show ?thesis
  proof (cases "ensure_not_directory fs f (fs_state st) p")
    case (Inl e)
    with Inr show ?thesis
      by (auto simp: apply_delete_def checked_remove_def accounts_def apply_state_defs Let_def
          replay_def)
  next
    case ok: (Inr u)
    show ?thesis
    proof (cases w)
      case (Inl e)
      have "text_at fs f s' = text_at fs f (fs_state st)"
        if "regular fs f (fs_state st) p" "read_file_text fs s' p f = Inr c"
        using remove_lawsD(2) [OF laws w that(1)] that(2)
        by (auto intro!: ext simp: text_at_def)
      with Inl Inr ok w show ?thesis
        by (auto simp: apply_delete_def checked_remove_def accounts_def apply_state_defs Let_def
            remove_failure_was_side_effect_free_def replay_def)
    next
      case removed: (Inr u)
      with remove_lawsD(1) [OF laws w] Inr ok w c show ?thesis
        by (auto simp: apply_delete_def checked_remove_def accounts_def apply_state_defs Let_def
            replay_def)
    qed
  qed
qed

lemma accounts_in_place:
  assumes laws: "fs_laws fs paths f"
    and old: "text_at fs f (fs_state st) p = Some (original_contents a)"
    and reg: "delta_exact (delta st) \<longrightarrow> regular fs f (fs_state st) p"
  shows "accounts fs f st (fst (apply_in_place fs paths f ap p a st))"
proof -
  obtain s' w where w: "write_file fs (fs_state st) p (new_contents a) f = (s', w)" by fastforce
  show ?thesis
  proof (cases w)
    case (Inl e)
    with w show ?thesis
      by (auto simp: apply_in_place_def try_write_def accounts_def apply_state_defs with_context_def)
  next
    case (Inr u)
    with w write_lawsD(1) [OF laws w] reg old show ?thesis
      by (auto simp: apply_in_place_def try_write_def accounts_def apply_state_defs with_context_def
          replay_def)
  qed
qed

lemma accounts_move:
  assumes laws: "fs_laws fs paths f"
    and old: "text_at fs f (fs_state st) p = Some (original_contents a)"
    and reg: "delta_exact (delta st) \<longrightarrow> regular fs f (fs_state st) p"
  shows "accounts fs f st (fst (apply_move fs paths f cwd ap p dest a st))"
proof (cases "path_join paths cwd dest")
  case (Inl e)
  then show ?thesis by (simp add: apply_move_def)
next
  case d: (Inr d)
  let ?s = "fs_state st" and ?new = "new_contents a" and ?old = "original_contents a"
  obtain exact over where r: "read_optional_file_text_for_delta fs f ?s d
      (delta_exact (delta st)) = (exact, over)" by fastforce
  obtain s1 w where w: "write_file_with_missing_parent_retry fs paths f ?s d ?new = (s1, w)"
    by fastforce
  show ?thesis
  proof (cases w)
    case (Inl e)
    with r w d show ?thesis
      by (auto simp: apply_move_def try_write_def accounts_def apply_state_defs)
  next
    case written: (Inr u)
    with w have w': "write_file_with_missing_parent_retry fs paths f ?s d ?new = (s1, Inr ())"
      by simp
    have s1: "text_at fs f s1 = (text_at fs f ?s)(d \<mapsto> ?new)" "regular fs f s1 p"
        "delta_exact (delta st)" "over = text_at fs f ?s d" if exact
      using write_retry_laws [OF laws _ w'] read_optional_exact [OF r that] reg old
      by auto
    show ?thesis
    proof (cases "ensure_not_directory fs f s1 p")
      case (Inl e)
      with d r w' s1 show ?thesis
        by (auto simp: apply_move_def try_write_def checked_remove_def accounts_def apply_state_defs
            replay_def)
    next
      case ok: (Inr u)
      obtain s2 m where m: "remove_file fs s1 p f = (s2, m)" by fastforce
      show ?thesis
      proof (cases m)
        case (Inl e)
        have "text_at fs f s2 = text_at fs f s1"
          if exact "read_file_text fs s2 p f = Inr ?old"
          using remove_lawsD(2) [OF laws m s1(2)] that by (auto intro!: ext simp: text_at_def)
        with Inl d r w' m ok s1 show ?thesis
          by (auto simp: apply_move_def try_write_def checked_remove_def accounts_def apply_state_defs
              remove_failure_was_side_effect_free_def replay_def)
      next
        case removed: (Inr u)
        with remove_lawsD(1) [OF laws m] d r w' ok m s1 old show ?thesis
          by (auto simp: apply_move_def try_write_def checked_remove_def accounts_def apply_state_defs
              replay_def intro!: ext)
      qed
    qed
  qed
qed

lemma accounts_set_exact: "(b \<Longrightarrow> delta_exact (delta st)) \<Longrightarrow> accounts fs f st (set_exact b st)"
  by (auto simp: accounts_def set_exact_def replay_def)

lemma fs_state_set_exact [simp]: "fs_state (set_exact b st) = fs_state st"
  by (simp add: set_exact_def)

lemma delta_exact_set_exact [simp]: "delta_exact (delta (set_exact b st)) = b"
  by (simp add: set_exact_def)

lemma derive_old_text:
  assumes "derive_new_contents_from_chunks path (read_file_text fs s p f) cs mode = Inr a"
  shows "text_at fs f s p = Some (original_contents a)"
  using assms by (auto simp: derive_new_contents_from_chunks_def text_at_def split: sum.splits)

lemma accounts_update:
  assumes laws: "fs_laws fs paths (opt_follow_symlinks opts)"
  shows "accounts fs (opt_follow_symlinks opts) st
           (fst (apply_update fs paths opts cwd ap p mv cs st))"
proof -
  let ?f = "opt_follow_symlinks opts"
  let ?st = "set_exact (note_existing_path_delta_support fs ?f (fs_state st) p
               (delta_exact (delta st))) st"
  have first: "accounts fs ?f st ?st" by (rule accounts_set_exact) simp
  show ?thesis
  proof (cases "derive_new_contents_from_chunks (native_path_string paths p)
                  (read_file_text fs (fs_state st) p ?f) cs (opt_update_file_mode opts)")
    case (Inl e)
    with first show ?thesis by (cases e) (simp_all add: apply_update_def Let_def)
  next
    case (Inr a)
    from derive_old_text [OF Inr]
    have old: "text_at fs ?f (fs_state ?st) p = Some (original_contents a)"
      by simp
    have reg: "delta_exact (delta ?st) \<longrightarrow> regular fs ?f (fs_state ?st) p" by simp
    from accounts_trans [OF first] accounts_move [OF laws old reg] accounts_in_place [OF laws old reg]
      Inr show ?thesis
      by (simp add: apply_update_def Let_def split: option.split)
  qed
qed

lemma accounts_hunk:
  "fs_laws fs paths (opt_follow_symlinks opts) \<Longrightarrow>
     accounts fs (opt_follow_symlinks opts) st (fst (apply_hunk fs paths opts cwd h st))"
  by (auto simp: apply_hunk_def accounts_add accounts_delete accounts_update
      split: sum.split hunk.split)

lemma accounts_hunk_loop:
  assumes "fs_laws fs paths (opt_follow_symlinks opts)"
  shows "accounts fs (opt_follow_symlinks opts) st (fst (apply_hunk_loop fs paths opts cwd hs st))"
proof (induction hs arbitrary: st)
  case (Cons h hs)
  have "accounts fs (opt_follow_symlinks opts) st (fst (apply_hunk fs paths opts cwd h st))"
    by (rule accounts_hunk [OF assms])
  then show ?case
    by (auto intro: accounts_trans Cons.IH split: prod.split sum.split)
qed simp

lemma accounts_files:
  "fs_laws fs paths (opt_follow_symlinks opts) \<Longrightarrow>
     accounts fs (opt_follow_symlinks opts) (initial_apply_state s)
       (fst (apply_hunks_to_files fs paths hs opts cwd s))"
  by (simp add: apply_hunks_to_files_def accounts_hunk_loop)

text \<open>The delta of an outcome, a failure included.\<close>

fun outcome_delta :: "'p apply_outcome \<Rightarrow> 'p applied_delta option" where
  "outcome_delta (Inr d) = Some d"
| "outcome_delta (Inl (Failed (e, d))) = Some d"
| "outcome_delta (Inl Panic) = None"

lemma initial_apply_state_simps [simp]:
  "fs_state (initial_apply_state s) = s"
  "delta (initial_apply_state s) = empty_delta"
  "delta_changes empty_delta = []"
  "delta_exact empty_delta"
  by (simp_all add: initial_apply_state_def empty_delta_def)

lemma apply_hunks_with_options_delta:
  assumes "apply_hunks_with_options fs paths writeln hs opts cwd env = (env', out)"
    and "outcome_delta out = Some d"
  shows "env_fs env' = fs_state (fst (apply_hunks_to_files fs paths hs opts cwd (env_fs env)))
       \<and> d = delta (fst (apply_hunks_to_files fs paths hs opts cwd (env_fs env)))"
  using assms
  by (cases "apply_hunks_to_files fs paths hs opts cwd (env_fs env)")
     (auto simp: apply_hunks_with_options_def split: sum.splits prod.splits fault.splits)

lemma apply_patch_delta:
  assumes laws: "fs_laws fs paths (opt_follow_symlinks opts)"
    and run: "apply_patch_with_options fs paths writeln patch opts cwd env = (env', out)"
    and "outcome_delta out = Some d" and "delta_exact d"
  shows "replay (delta_changes d) (text_at fs (opt_follow_symlinks opts) (env_fs env))
           = text_at fs (opt_follow_symlinks opts) (env_fs env')
       \<and> accurate (text_at fs (opt_follow_symlinks opts) (env_fs env)) (delta_changes d)"
proof (cases "parse_patch patch")
  case (Inl e)
  with assms show ?thesis
    by (auto simp: apply_patch_with_options_def replay_def split: prod.splits sum.splits)
next
  case (Inr args)
  with run have run': "apply_hunks_with_options fs paths writeln (args_hunks args) opts cwd env = (env', out)"
    by (simp add: apply_patch_with_options_def)
  from apply_hunks_with_options_delta [OF run' assms(3)]
    accounts_files [OF laws, of "env_fs env" "args_hunks args" cwd] assms(4)
  show ?thesis by (auto simp: accounts_def)
qed


end
