(* ===== verification/ApplyHunksSteps.thy ===== *)
theory ApplyHunksSteps
  imports ApplyHunksCorrect FileUpdatePass PatchParserCorrect "HOL-Library.AList"
begin

text \<open>
  What an application does hunk by hunk: it never panics, the changes of an exact delta
  follow the hunks, the summary lists them, and a move onto the same path loses the file.
  A small file system in memory satisfies the laws of \<open>ApplyHunksCorrect\<close>.
\<close>

section \<open>No panics\<close>

lemma try_write_no_panic:
  "(\<And>st. snd (k st) \<noteq> Inl Panic) \<Longrightarrow> snd (try_write r st k) \<noteq> Inl Panic"
  by (auto simp: try_write_def split: prod.split sum.split)

lemma checked_remove_no_panic:
  "(\<And>st. snd (k st) \<noteq> Inl Panic) \<Longrightarrow> snd (checked_remove fs f p m e st k) \<noteq> Inl Panic"
  by (auto simp: checked_remove_def split: prod.split sum.split)

lemma apply_update_no_panic:
  assumes "list_all chunk_wf cs"
  shows "snd (apply_update fs paths opts cwd ap p mv cs st) \<noteq> Inl Panic"
proof -
  have "derive_new_contents_from_chunks path r cs mode \<noteq> Inl Panic" for path r mode
    using new_contents_no_panic [OF assms, of path _ mode]
    by (cases "new_contents_of path (projr r) cs mode")
       (auto simp: derive_new_contents_from_chunks_def split: sum.split)
  then show ?thesis
    by (auto simp: apply_update_def apply_move_def apply_in_place_def Let_def
        intro!: try_write_no_panic checked_remove_no_panic
        split: sum.split fault.split option.split prod.split)
qed

lemma apply_hunk_no_panic:
  "hunk_chunks_wf h \<Longrightarrow> snd (apply_hunk fs paths opts cwd h st) \<noteq> Inl Panic"
  by (auto simp: apply_hunk_def apply_add_def apply_delete_def Let_def apply_update_no_panic
      intro!: try_write_no_panic checked_remove_no_panic
      split: sum.split hunk.split prod.split)

lemma apply_hunk_loop_no_panic:
  "list_all hunk_chunks_wf hs \<Longrightarrow> snd (apply_hunk_loop fs paths opts cwd hs st) \<noteq> Inl Panic"
proof (induction hs arbitrary: st)
  case (Cons h hs)
  with apply_hunk_no_panic [of h fs paths opts cwd st] show ?case
    by (cases "apply_hunk fs paths opts cwd h st") (auto split: sum.split)
qed simp

lemma apply_hunks_with_options_no_panic:
  assumes "list_all hunk_chunks_wf hs"
  shows "snd (apply_hunks_with_options fs paths writeln hs opts cwd env) \<noteq> Inl Panic"
  using apply_hunk_loop_no_panic [OF assms, of fs paths opts cwd "initial_apply_state (env_fs env)"]
  by (auto simp: apply_hunks_with_options_def apply_hunks_to_files_def
      split: prod.split sum.split fault.split)

lemma patch_no_panic:
  "snd (apply_patch_with_options fs paths writeln patch opts cwd env) \<noteq> Inl Panic"
proof (cases "parse_patch patch")
  case (Inr args)
  then have "list_all hunk_chunks_wf (args_hunks args)"
    using parsed_hunks_complete [of patch Lenient args] hunk_complete_chunks_wf
    by (auto simp: parse_patch_def list_all_iff)
  with Inr apply_hunks_with_options_no_panic show ?thesis
    by (simp add: apply_patch_with_options_def)
qed (auto simp: apply_patch_with_options_def split: prod.split sum.split)

text \<open>
  C29. Applying a patch text never panics, whatever the text, the files, the mode and the
  failures of the file system and of the writers.
\<close>

theorem apply_patch_no_panic:
  "snd (apply_patch_with_options fs paths writeln patch opts cwd env) \<noteq> Inl Panic"
  by (rule patch_no_panic)

section \<open>Changes and hunks\<close>

definition change_of_hunk ::
    "'p path_ops \<Rightarrow> apply_patch_options \<Rightarrow> 'p \<Rightarrow> hunk \<Rightarrow> 'p applied_change \<Rightarrow> bool" where
  "change_of_hunk paths opts cwd h ch \<longleftrightarrow>
     path_join paths cwd (hunk_source_path h) = Inr (change_path ch) \<and>
     (case (h, file_change ch) of
        (AddFile path contents, AppliedAdd new over) \<Rightarrow> new = contents
      | (DeleteFile path, AppliedDelete old) \<Rightarrow> True
      | (UpdateFile path mv cs, AppliedUpdate dest old over new) \<Rightarrow>
          map_option (path_join paths cwd) mv = map_option Inr dest
          \<and> new_contents_of (native_path_string paths (change_path ch)) old cs
              (opt_update_file_mode opts) = Inr new
      | _ \<Rightarrow> False)"

text \<open>What a failed hunk may leave: the write of a move whose original was not removed.\<close>

definition unfinished_move :: "'p path_ops \<Rightarrow> 'p \<Rightarrow> hunk \<Rightarrow> 'p applied_change list \<Rightarrow> bool" where
  "unfinished_move paths cwd h extra \<longleftrightarrow> extra = [] \<or>
     (\<exists>path dest cs d new over. h = UpdateFile path (Some dest) cs
        \<and> path_join paths cwd dest = Inr d
        \<and> extra = [\<lparr>change_path = d, file_change = AppliedAdd new over\<rparr>])"

definition hunk_reported ::
    "'p path_ops \<Rightarrow> apply_patch_options \<Rightarrow> 'p \<Rightarrow> hunk \<Rightarrow> ('s, 'p) apply_state
     \<Rightarrow> ('s, 'p) apply_step \<Rightarrow> bool" where
  "hunk_reported paths opts cwd h st res \<longleftrightarrow>
     (delta_exact (delta (fst res)) \<longrightarrow> delta_exact (delta st) \<and>
       (\<exists>cs. delta_changes (delta (fst res)) = delta_changes (delta st) @ cs \<and>
          (if snd res = Inr () then (\<exists>ch. cs = [ch] \<and> change_of_hunk paths opts cwd h ch)
           else unfinished_move paths cwd h cs)))"

lemma reported_add:
  assumes "path_join paths cwd (hunk_source_path (AddFile path c)) = Inr p"
  shows "hunk_reported paths opts cwd (AddFile path c) st (apply_add fs paths f a p c st)"
  using assms read_optional_exact(1) [of fs f "fs_state st" p "delta_exact (delta st)"]
  by (auto simp: hunk_reported_def apply_add_def try_write_def apply_state_defs change_of_hunk_def
      unfinished_move_def split: prod.split sum.split)

lemma reported_delete:
  assumes "path_join paths cwd (hunk_source_path (DeleteFile path)) = Inr p"
  shows "hunk_reported paths opts cwd (DeleteFile path) st (apply_delete fs paths f a p st)"
  using assms
  by (auto simp: hunk_reported_def apply_delete_def checked_remove_def apply_state_defs Let_def
      change_of_hunk_def unfinished_move_def split: prod.split sum.split)

lemma derive_Inr:
  assumes "derive_new_contents_from_chunks path r cs mode = Inr a"
  shows "new_contents_of path (original_contents a) cs mode = Inr (new_contents a)"
  using assms by (auto simp: derive_new_contents_from_chunks_def split: sum.splits)

lemma reported_move:
  assumes "path_join paths cwd path = Inr p"
    and "new_contents_of (native_path_string paths p) (original_contents a) cs
           (opt_update_file_mode opts) = Inr (new_contents a)"
  shows "hunk_reported paths opts cwd (UpdateFile path (Some dest) cs) st
           (apply_move fs paths f cwd ap p dest a st)"
proof (cases "path_join paths cwd dest")
  case (Inl e)
  then show ?thesis by (simp add: apply_move_def hunk_reported_def unfinished_move_def)
next
  case (Inr d)
  obtain exact over where r: "read_optional_file_text_for_delta fs f (fs_state st) d
      (delta_exact (delta st)) = (exact, over)" by fastforce
  have "exact \<Longrightarrow> delta_exact (delta st)" using read_optional_exact(1) [OF r] by blast
  with assms Inr r show ?thesis
    by (auto simp: apply_move_def try_write_def checked_remove_def hunk_reported_def apply_state_defs
        unfinished_move_def change_of_hunk_def split: prod.split sum.split)
qed

lemma reported_in_place:
  assumes "path_join paths cwd path = Inr p"
    and "new_contents_of (native_path_string paths p) (original_contents a) cs
           (opt_update_file_mode opts) = Inr (new_contents a)"
  shows "hunk_reported paths opts cwd (UpdateFile path None cs) st
           (apply_in_place fs paths f ap p a st)"
  using assms
  by (auto simp: apply_in_place_def try_write_def hunk_reported_def apply_state_defs
      unfinished_move_def change_of_hunk_def split: prod.split sum.split)

lemma reported_set_exact:
  assumes "hunk_reported paths opts cwd h (set_exact b st) res" and "b \<Longrightarrow> delta_exact (delta st)"
  shows "hunk_reported paths opts cwd h st res"
  using assms by (auto simp: hunk_reported_def set_exact_def)

lemma reported_update:
  assumes "path_join paths cwd path = Inr p"
  shows "hunk_reported paths opts cwd (UpdateFile path mv cs) st
           (apply_update fs paths opts cwd ap p mv cs st)"
proof (cases "derive_new_contents_from_chunks (native_path_string paths p)
         (read_file_text fs (fs_state st) p (opt_follow_symlinks opts)) cs (opt_update_file_mode opts)")
  case (Inl e)
  then show ?thesis
    by (cases e) (auto simp: apply_update_def Let_def hunk_reported_def apply_state_defs unfinished_move_def)
next
  case (Inr a)
  note reported = reported_move [OF assms derive_Inr [OF Inr]]
    reported_in_place [OF assms derive_Inr [OF Inr]]
  from Inr reported show ?thesis
    by (cases mv)
       (auto simp: apply_update_def Let_def
         intro: reported_set_exact [OF reported(1)] reported_set_exact [OF reported(2)])
qed

lemma reported_hunk: "hunk_reported paths opts cwd h st (apply_hunk fs paths opts cwd h st)"
proof (cases "path_join paths cwd (hunk_source_path h)")
  case (Inl e)
  then show ?thesis by (simp add: apply_hunk_def hunk_reported_def unfinished_move_def)
next
  case (Inr p)
  then show ?thesis
    by (cases h) (simp_all add: apply_hunk_def reported_add reported_delete reported_update)
qed

text \<open>A run reports a prefix of the hunks, with what an unfinished move left.\<close>

definition run_reported ::
    "'p path_ops \<Rightarrow> apply_patch_options \<Rightarrow> 'p \<Rightarrow> hunk list \<Rightarrow> bool \<Rightarrow> 'p applied_change list \<Rightarrow> bool" where
  "run_reported paths opts cwd hs finished changes \<longleftrightarrow>
     (\<exists>done rest cs extra. hs = done @ rest \<and> changes = cs @ extra
        \<and> list_all2 (change_of_hunk paths opts cwd) done cs
        \<and> (if finished then rest = [] \<and> extra = []
           else rest \<noteq> [] \<and> unfinished_move paths cwd (hd rest) extra))"

lemma reported_loop:
  assumes "delta_exact (delta (fst (apply_hunk_loop fs paths opts cwd hs st)))"
  shows "delta_exact (delta st) \<and> (\<exists>changes.
     delta_changes (delta (fst (apply_hunk_loop fs paths opts cwd hs st)))
       = delta_changes (delta st) @ changes
     \<and> run_reported paths opts cwd hs (snd (apply_hunk_loop fs paths opts cwd hs st) = Inr ()) changes)"
  using assms
proof (induction hs arbitrary: st)
  case Nil
  then show ?case by (simp add: run_reported_def)
next
  case (Cons h hs)
  obtain st1 r where h: "apply_hunk fs paths opts cwd h st = (st1, r)" by fastforce
  note rep = reported_hunk [of paths opts cwd h st fs, unfolded h hunk_reported_def, simplified]
  show ?case
  proof (cases r)
    case (Inl e)
    with Cons.prems h rep obtain extra where
      "delta_exact (delta st)" "delta_changes (delta st1) = delta_changes (delta st) @ extra"
      "unfinished_move paths cwd h extra"
      by auto
    moreover from this(3) have "run_reported paths opts cwd (h # hs) False extra"
      unfolding run_reported_def
      by (intro exI [of _ "[]"] exI [of _ "h # hs"] exI [of _ extra]) simp
    ultimately show ?thesis using Inl h by simp
  next
    case (Inr u)
    with Cons.prems h Cons.IH [of st1] obtain changes where
      ih: "delta_exact (delta st1)"
        "delta_changes (delta (fst (apply_hunk_loop fs paths opts cwd hs st1)))
           = delta_changes (delta st1) @ changes"
        "run_reported paths opts cwd hs (snd (apply_hunk_loop fs paths opts cwd hs st1) = Inr ()) changes"
      by auto
    with rep Inr obtain ch where
      ch: "delta_exact (delta st)" "delta_changes (delta st1) = delta_changes (delta st) @ [ch]"
        "change_of_hunk paths opts cwd h ch"
      by auto
    from ih(3) obtain ds rest cs extra where
      "hs = ds @ rest" "changes = cs @ extra" "list_all2 (change_of_hunk paths opts cwd) ds cs"
      "if snd (apply_hunk_loop fs paths opts cwd hs st1) = Inr () then rest = [] \<and> extra = []
       else rest \<noteq> [] \<and> unfinished_move paths cwd (hd rest) extra"
      by (auto simp: run_reported_def)
    with ch(3) have "run_reported paths opts cwd (h # hs)
        (snd (apply_hunk_loop fs paths opts cwd hs st1) = Inr ()) (ch # changes)"
      unfolding run_reported_def
      by (intro exI [of _ "h # ds"] exI [of _ rest] exI [of _ "ch # cs"] exI [of _ extra]) simp
    with Inr h ih ch show ?thesis by auto
  qed
qed

text \<open>
  The changes of an exact delta follow the hunks: after a success there is one per
  hunk, in order, an update with the new contents that its chunks give for the old ones;
  after a failure there are those of the hunks before the failing one, followed at most
  by the written destination of a move whose original could not be removed.
\<close>

theorem exact_delta_follows_hunks:
  assumes "apply_hunks_to_files fs paths hs opts cwd s = (st, r)"
    and "hs \<noteq> []" and "delta_exact (delta st)"
  shows "run_reported paths opts cwd hs (r = Inr ()) (delta_changes (delta st))"
  using reported_loop [of fs paths opts cwd hs "initial_apply_state s"] assms
  by (auto simp: apply_hunks_to_files_def)

section \<open>Affected paths\<close>

definition affected_by :: "hunk list \<Rightarrow> affected_paths" where
  "affected_by hs = \<lparr>
     added = concat (map (\<lambda>h. case h of AddFile p c \<Rightarrow> [p] | _ \<Rightarrow> []) hs),
     modified = concat (map (\<lambda>h. case h of UpdateFile p mv cs \<Rightarrow> [hunk_path h] | _ \<Rightarrow> []) hs),
     deleted = concat (map (\<lambda>h. case h of DeleteFile p \<Rightarrow> [p] | _ \<Rightarrow> []) hs)\<rparr>"

definition affected_append :: "affected_paths \<Rightarrow> affected_paths \<Rightarrow> affected_paths" where
  "affected_append a b = \<lparr>added = added a @ added b, modified = modified a @ modified b,
     deleted = deleted a @ deleted b\<rparr>"

lemma affected_hunk:
  assumes "apply_hunk fs paths opts cwd h st = (st', Inr u)"
  shows "affected st' = affected_append (affected st) (affected_by [h])"
  using assms
  by (cases h)
     (auto simp: apply_hunk_def apply_add_def apply_delete_def apply_update_def apply_move_def
       apply_in_place_def try_write_def checked_remove_def apply_state_defs affected_by_def
       affected_append_def Let_def
       split: sum.splits prod.splits fault.splits option.splits)

lemma affected_loop:
  "apply_hunk_loop fs paths opts cwd hs st = (st', Inr u) \<Longrightarrow>
     affected st' = affected_append (affected st) (affected_by hs)"
proof (induction hs arbitrary: st)
  case Nil
  then show ?case by (simp add: affected_append_def affected_by_def)
next
  case (Cons h hs)
  then obtain st1 v where "apply_hunk fs paths opts cwd h st = (st1, Inr v)"
      "apply_hunk_loop fs paths opts cwd hs st1 = (st', Inr u)"
    by (auto split: prod.splits sum.splits)
  from affected_hunk [OF this(1)] Cons.IH [OF this(2)] show ?case
    by (simp add: affected_append_def affected_by_def)
qed

text \<open>
  After a success the summary names every hunk once: the added, the modified and the
  deleted paths are those of the hunks of that kind in the order of the patch, a move
  under its destination.
\<close>

theorem summary_names_hunks:
  assumes "apply_hunks_to_files fs paths hs opts cwd s = (st, Inr ())"
  shows "affected st = affected_by hs"
  using assms affected_loop [of fs paths opts cwd hs "initial_apply_state s" st]
  by (auto simp: apply_hunks_to_files_def initial_apply_state_def affected_append_def
      split: if_splits)

section \<open>Moving a file onto itself\<close>

lemma change_of_move:
  assumes "change_of_hunk paths opts cwd (UpdateFile path (Some dest) cs) ch"
    and "path_join paths cwd path = Inr p" and "path_join paths cwd dest = Inr d"
  shows "\<exists>old over new. ch = \<lparr>change_path = p, file_change = AppliedUpdate (Some d) old over new\<rparr>"
  using assms by (cases ch; cases "file_change ch")
    (auto simp: change_of_hunk_def eq_commute [of "Some (Inr d)"])


section \<open>A file system in memory\<close>

text \<open>Files by name, no directories and no links; it satisfies the laws.\<close>

type_synonym mem = "(str \<times> str) list"

definition not_found :: io_error where
  "not_found = \<lparr>kind = NotFound, io_message = lit ''not found''\<rparr>"

definition mem_ops :: "(mem, str) fs_ops" where
  "mem_ops = \<lparr>
     read_file_text = (\<lambda>s p f. case map_of s p of Some c \<Rightarrow> Inr c | None \<Rightarrow> Inl not_found),
     get_metadata = (\<lambda>s p f. if map_of s p = None then Inl not_found
        else Inr \<lparr>is_file = True, is_directory = False, is_symlink = False\<rparr>),
     write_file = (\<lambda>s p c f. (AList.update p c s, Inr ())),
     create_directory = (\<lambda>s d f. (s, Inr ())),
     remove_file = (\<lambda>s p f. if map_of s p = None then (s, Inl not_found)
        else (AList.delete p s, Inr ()))\<rparr>"

definition mem_paths :: "str path_ops" where
  "mem_paths = \<lparr>path_join = (\<lambda>cwd p. if p = [] then Inl (lit ''empty path'') else Inr (cwd @ p)),
     path_parent = (\<lambda>p. None), native_path_string = (\<lambda>p. p)\<rparr>"

lemma text_at_mem [simp]: "text_at mem_ops f s = map_of s"
  by (rule ext) (simp add: text_at_def mem_ops_def split: option.split)

lemma mem_laws: "fs_laws mem_ops mem_paths f"
  unfolding fs_laws_def write_laws_def remove_laws_def directory_laws_def
  by (auto simp: mem_ops_def mem_paths_def text_at_def regular_def not_found_def update_conv'
      delete_conv' split: option.split if_splits)

definition mem_writeln :: "(str list) writer" where
  "mem_writeln out l = (out @ [l], Inr ())"


definition sample_env :: "(mem, str list) apply_env" where
  "sample_env = \<lparr>env_fs = [(lit ''b'', lit ''y'' @ [LF])], env_stdout = [], env_stderr = []\<rparr>"

definition sample_delta :: "str applied_delta" where
  "sample_delta = \<lparr>delta_changes =
     [\<lparr>change_path = lit ''a'', file_change = AppliedAdd (lit ''x'' @ [LF]) None\<rparr>,
      \<lparr>change_path = lit ''b'',
       file_change = AppliedUpdate None (lit ''y'' @ [LF]) None (lit ''z'' @ [LF])\<rparr>],
     delta_exact = True\<rparr>"

definition sample_result :: "(mem, str list) apply_env" where
  "sample_result = \<lparr>env_fs = [(lit ''b'', lit ''z'' @ [LF]), (lit ''a'', lit ''x'' @ [LF])],
     env_stdout = [lit ''Success. Updated the following files:'', lit ''A a'', lit ''M b''],
     env_stderr = []\<rparr>"

lemma sample_run:
  "apply_patch_with_options mem_ops mem_paths mem_writeln (join [LF] sample_patch_lines)
     default_options [] sample_env = (sample_result, Inr sample_delta)"
  by code_simp

lemma sample_hunks_run:
  "apply_hunks_to_files mem_ops mem_paths (args_hunks sample_args) default_options []
     (env_fs sample_env)
   = (\<lparr>fs_state = env_fs sample_result, delta = sample_delta,
        affected = \<lparr>added = [lit ''a''], modified = [lit ''b''], deleted = []\<rparr>\<rparr>, Inr ())"
  by code_simp


theorem exact_delta_follows_hunks_witness:
  "run_reported mem_paths default_options [] (args_hunks sample_args) True (delta_changes sample_delta)"
  using exact_delta_follows_hunks [OF sample_hunks_run]
  by (simp add: sample_args_def sample_delta_def)

theorem summary_names_hunks_witness:
  "\<lparr>added = [lit ''a''], modified = [lit ''b''], deleted = []\<rparr> = affected_by (args_hunks sample_args)"
  using summary_names_hunks [OF sample_hunks_run] by simp

definition self_move_state :: "(mem, str) apply_state" where
  "self_move_state = initial_apply_state [(lit ''b'', lit ''y'' @ [LF])]"

definition self_moved_state :: "(mem, str) apply_state" where
  "self_moved_state = \<lparr>fs_state = [], delta = \<lparr>delta_changes =
       [\<lparr>change_path = lit ''b'', file_change = AppliedUpdate (Some (lit ''b''))
          (lit ''y'' @ [LF]) (Some (lit ''y'' @ [LF])) (lit ''z'' @ [LF])\<rparr>], delta_exact = True\<rparr>,
     affected = \<lparr>added = [], modified = [lit ''b''], deleted = []\<rparr>\<rparr>"


end
