(* ===== verification/TurnDiff.thy ===== *)
theory TurnDiff
  imports ApplyHunks "HOL-Library.AList" "HOL-Library.List_Lexorder"
begin

text \<open>
  \<open>core/src/turn_diff_tracker.rs\<close>: the net text diff of a turn, kept from the deltas of
  the patches applied in it. A \<open>HashMap\<close> is an association list; its order stands for the
  order of the map's iteration, which the source leaves open. SHA-1, the line diff of the
  \<open>similar\<close> crate and the path operations are parameters.
\<close>

section \<open>State\<close>

record tracked_content =
  tracked_text :: str
  revision :: nat

record 'p tracked_path =
  tracked_environment :: str
  tracked_uri :: 'p

record 'p diff_cache_key =
  left_path :: "'p tracked_path"
  left_revision :: "nat option"
  right_path :: "'p tracked_path"
  right_revision :: "nat option"

record 'p turn_diff_tracker =
  valid :: bool
  display_roots :: "(str \<times> 'p) list"
  baseline_by_path :: "('p tracked_path \<times> tracked_content) list"
  current_by_path :: "('p tracked_path \<times> tracked_content) list"
  origin_by_current_path :: "('p tracked_path \<times> 'p tracked_path) list"
  next_revision :: nat
  rendered_diffs :: "('p diff_cache_key \<times> str option) list"
  tracker_diff :: "str option"

record 'p diff_ops =
  relative_path_from :: "'p \<Rightarrow> 'p \<Rightarrow> str option"
  native_path :: "'p \<Rightarrow> str"
  sha1_hex :: "str \<Rightarrow> str"
  unified_lines :: "str \<Rightarrow> str \<Rightarrow> str \<Rightarrow> str \<Rightarrow> str"

definition new_tracker :: "(str \<times> 'p) list \<Rightarrow> 'p turn_diff_tracker" where
  "new_tracker roots = \<lparr>valid = True, display_roots = roots, baseline_by_path = [],
     current_by_path = [], origin_by_current_path = [], next_revision = 0, rendered_diffs = [],
     tracker_diff = None\<rparr>"

definition contains_key :: "'k \<Rightarrow> ('k \<times> 'v) list \<Rightarrow> bool" where
  "contains_key k m \<longleftrightarrow> map_of m k \<noteq> None"

section \<open>Applying changes\<close>

text \<open>\<open>tracked_content\<close> takes the next revision.\<close>

definition next_content :: "str \<Rightarrow> 'p turn_diff_tracker \<Rightarrow> tracked_content \<times> 'p turn_diff_tracker" where
  "next_content contents t =
     (\<lparr>tracked_text = contents, revision = next_revision t\<rparr>,
      t\<lparr>next_revision := next_revision t + 1\<rparr>)"

definition insert_baseline :: "'p tracked_path \<Rightarrow> str \<Rightarrow> 'p turn_diff_tracker \<Rightarrow> 'p turn_diff_tracker" where
  "insert_baseline path contents t =
     (case next_content contents t of (c, t) \<Rightarrow>
        t\<lparr>baseline_by_path := AList.update path c (baseline_by_path t)\<rparr>)"

definition insert_current :: "'p tracked_path \<Rightarrow> str \<Rightarrow> 'p turn_diff_tracker \<Rightarrow> 'p turn_diff_tracker" where
  "insert_current path contents t =
     (case next_content contents t of (c, t) \<Rightarrow>
        t\<lparr>current_by_path := AList.update path c (current_by_path t)\<rparr>)"

definition remove_origin :: "'p tracked_path \<Rightarrow> 'p turn_diff_tracker \<Rightarrow> 'p turn_diff_tracker" where
  "remove_origin path t = t\<lparr>origin_by_current_path := AList.delete path (origin_by_current_path t)\<rparr>"

definition remove_current :: "'p tracked_path \<Rightarrow> 'p turn_diff_tracker \<Rightarrow> 'p turn_diff_tracker" where
  "remove_current path t = t\<lparr>current_by_path := AList.delete path (current_by_path t)\<rparr>"

definition is_tracked :: "'p turn_diff_tracker \<Rightarrow> 'p tracked_path \<Rightarrow> bool" where
  "is_tracked t path \<longleftrightarrow>
     contains_key path (current_by_path t) \<or> contains_key path (baseline_by_path t)"

text \<open>The text a change overwrites is the baseline of a path that was not tracked.\<close>

definition keep_overwritten ::
    "'p tracked_path \<Rightarrow> str option \<Rightarrow> 'p turn_diff_tracker \<Rightarrow> 'p turn_diff_tracker" where
  "keep_overwritten path overwritten t =
     (if \<not> is_tracked t path
      then (case overwritten of Some c \<Rightarrow> insert_baseline path c t | None \<Rightarrow> t) else t)"

definition tracker_apply_add ::
    "'p tracked_path \<Rightarrow> str \<Rightarrow> str option \<Rightarrow> 'p turn_diff_tracker \<Rightarrow> 'p turn_diff_tracker" where
  "tracker_apply_add path contents overwritten t =
     insert_current path contents (keep_overwritten path overwritten (remove_origin path t))"

definition tracker_apply_delete ::
    "'p tracked_path \<Rightarrow> str \<Rightarrow> 'p turn_diff_tracker \<Rightarrow> 'p turn_diff_tracker" where
  "tracker_apply_delete path contents t =
     (let missing = \<not> contains_key path (current_by_path t);
          t = remove_current path t;
          t = (if missing \<and> \<not> contains_key path (baseline_by_path t)
               then insert_baseline path contents t else t)
      in remove_origin path t)"

definition set_origin ::
    "'p tracked_path \<Rightarrow> 'p tracked_path \<Rightarrow> 'p turn_diff_tracker \<Rightarrow> 'p turn_diff_tracker" where
  "set_origin dest origin t =
     (let t = remove_origin dest t in
      if dest \<noteq> origin
      then t\<lparr>origin_by_current_path := AList.update dest origin (origin_by_current_path t)\<rparr>
      else t)"

definition origin_of :: "'p turn_diff_tracker \<Rightarrow> 'p tracked_path \<Rightarrow> 'p tracked_path" where
  "origin_of t source =
     (case map_of (origin_by_current_path t) source of Some from_path \<Rightarrow> from_path | None \<Rightarrow> source)"

definition tracker_apply_move ::
    "'p tracked_path \<Rightarrow> 'p tracked_path \<Rightarrow> str option \<Rightarrow> str \<Rightarrow> 'p turn_diff_tracker
     \<Rightarrow> 'p turn_diff_tracker" where
  "tracker_apply_move source dest overwritten contents t =
     (let t = keep_overwritten dest overwritten t in
      set_origin dest (origin_of t source)
        (insert_current dest contents (remove_current source (remove_origin source t))))"

definition tracker_apply_update ::
    "'p tracked_path \<Rightarrow> 'p tracked_path option \<Rightarrow> str \<Rightarrow> str option \<Rightarrow> str \<Rightarrow> 'p turn_diff_tracker
     \<Rightarrow> 'p turn_diff_tracker" where
  "tracker_apply_update source move_path old_content overwritten contents t =
     (let t = (if \<not> is_tracked t source then insert_baseline source old_content t else t)
      in case move_path of
           Some dest \<Rightarrow> tracker_apply_move source dest overwritten contents t
         | None \<Rightarrow> insert_current source contents t)"

definition apply_change :: "str \<Rightarrow> 'p applied_change \<Rightarrow> 'p turn_diff_tracker \<Rightarrow> 'p turn_diff_tracker" where
  "apply_change env ch t =
     (let path = (\<lambda>p. \<lparr>tracked_environment = env, tracked_uri = p\<rparr>); source = path (change_path ch)
      in case file_change ch of
           AppliedAdd contents over \<Rightarrow> tracker_apply_add source contents over t
         | AppliedDelete contents \<Rightarrow> tracker_apply_delete source contents t
         | AppliedUpdate mv old over new \<Rightarrow>
             tracker_apply_update source (map_option path mv) old over new t)"

section \<open>Rendering\<close>

definition display_path :: "'p diff_ops \<Rightarrow> (str \<times> 'p) list \<Rightarrow> 'p tracked_path \<Rightarrow> str" where
  "display_path ops roots path =
     (let display =
        (case map_of roots (tracked_environment path) of
           None \<Rightarrow> native_path ops (tracked_uri path)
         | Some root \<Rightarrow>
             (case relative_path_from ops (tracked_uri path) root of
                None \<Rightarrow> native_path ops (tracked_uri path)
              | Some r \<Rightarrow> r))
      in if 1 < length roots \<and> tracked_environment path \<noteq> []
         then tracked_environment path @ [47] @ display else display)"

definition git_blob_oid :: "'p diff_ops \<Rightarrow> str \<Rightarrow> str" where
  "git_blob_oid ops data = sha1_hex ops (lit ''blob '' @ show_nat (str_len data) @ [0] @ data)"

definition ZERO_OID :: str where "ZERO_OID = replicate 40 48"
definition DEV_NULL :: str where "DEV_NULL = lit ''/dev/null''"
definition REGULAR_FILE_MODE :: str where "REGULAR_FILE_MODE = lit ''100644''"

definition slashes :: "str \<Rightarrow> str" where
  "slashes s = map (\<lambda>c. if c = 92 then 47 else c) s"

definition render_diff ::
    "'p diff_ops \<Rightarrow> (str \<times> 'p) list \<Rightarrow> 'p tracked_path \<Rightarrow> str option \<Rightarrow> 'p tracked_path
     \<Rightarrow> str option \<Rightarrow> str option" where
  "render_diff ops roots lp left rp right =
     (if left = right then None
      else
        (let left_display = slashes (display_path ops roots lp);
             right_display = slashes (display_path ops roots rp);
             oid = (\<lambda>c. case c of None \<Rightarrow> ZERO_OID | Some d \<Rightarrow> git_blob_oid ops d);
             text_of = (\<lambda>c. case c of None \<Rightarrow> [] | Some d \<Rightarrow> d);
             old_header = (if left = None then DEV_NULL else lit ''a/'' @ left_display);
             new_header = (if right = None then DEV_NULL else lit ''b/'' @ right_display)
         in Some (lit ''diff --git a/'' @ left_display @ lit '' b/'' @ right_display @ [LF]
              @ (case (left, right) of
                   (None, Some r) \<Rightarrow> lit ''new file mode '' @ REGULAR_FILE_MODE @ [LF]
                 | (Some l, None) \<Rightarrow> lit ''deleted file mode '' @ REGULAR_FILE_MODE @ [LF]
                 | _ \<Rightarrow> [])
              @ lit ''index '' @ oid left @ lit ''..'' @ oid right @ [LF]
              @ unified_lines ops (text_of left) (text_of right) old_header new_header)))"

definition rename_pairs :: "'p turn_diff_tracker \<Rightarrow> ('p tracked_path \<times> 'p tracked_path) list" where
  "rename_pairs t =
     fold (\<lambda>(dest, origin) m.
         if dest = origin \<or> contains_key origin (current_by_path t)
            \<or> \<not> contains_key dest (current_by_path t)
            \<or> \<not> contains_key origin (baseline_by_path t)
            \<or> contains_key dest (baseline_by_path t)
         then m else AList.update origin dest m)
       (origin_by_current_path t) []"

definition diff_paths :: "'p diff_ops \<Rightarrow> 'p turn_diff_tracker \<Rightarrow> 'p tracked_path list" where
  "diff_paths ops t =
     remdups_adj (sort_key (display_path ops (display_roots t))
       (map fst (baseline_by_path t) @ map fst (current_by_path t)))"

text \<open>The state of the loop over the paths.\<close>

record 'p refresh_state =
  handled :: "'p tracked_path list"
  previous_diffs :: "('p diff_cache_key \<times> str option) list"
  new_diffs :: "('p diff_cache_key \<times> str option) list"
  aggregated :: str

definition cache_key :: "'p turn_diff_tracker \<Rightarrow> 'p tracked_path \<Rightarrow> 'p tracked_path \<Rightarrow> 'p diff_cache_key" where
  "cache_key t lp rp = \<lparr>left_path = lp,
     left_revision = map_option revision (map_of (baseline_by_path t) lp),
     right_path = rp,
     right_revision = map_option revision (map_of (current_by_path t) rp)\<rparr>"

definition fresh_diff ::
    "'p diff_ops \<Rightarrow> 'p turn_diff_tracker \<Rightarrow> 'p tracked_path \<Rightarrow> 'p tracked_path \<Rightarrow> str option" where
  "fresh_diff ops t lp rp =
     render_diff ops (display_roots t) lp (map_option tracked_text (map_of (baseline_by_path t) lp))
       rp (map_option tracked_text (map_of (current_by_path t) rp))"

definition push_diff :: "str option \<Rightarrow> str \<Rightarrow> str" where
  "push_diff rendered agg =
     (case rendered of
        None \<Rightarrow> agg
      | Some d \<Rightarrow> (let agg = agg @ d in if ends_with agg [LF] then agg else agg @ [LF]))"

definition refresh_path ::
    "'p diff_ops \<Rightarrow> 'p turn_diff_tracker \<Rightarrow> ('p tracked_path \<times> 'p tracked_path) list
     \<Rightarrow> 'p tracked_path \<Rightarrow> 'p refresh_state \<Rightarrow> 'p refresh_state" where
  "refresh_path ops t pairs path st =
     (if path \<in> set (handled st) then st
      else
        (let st = st\<lparr>handled := path # handled st\<rparr> in
         if path \<in> set (map snd pairs) then st
         else
           (let (rp, st) = (case map_of pairs path of
                  Some dest \<Rightarrow> (dest, st\<lparr>handled := dest # handled st\<rparr>)
                | None \<Rightarrow> (path, st));
                key = cache_key t path rp;
                (rendered, prev) =
                  (case map_of (previous_diffs st) key of
                     Some d \<Rightarrow> (d, AList.delete key (previous_diffs st))
                   | None \<Rightarrow> (fresh_diff ops t path rp, previous_diffs st))
            in st\<lparr>previous_diffs := prev, aggregated := push_diff rendered (aggregated st),
                  new_diffs := AList.update key rendered (new_diffs st)\<rparr>)))"

definition refresh_unified_diff :: "'p diff_ops \<Rightarrow> 'p turn_diff_tracker \<Rightarrow> 'p turn_diff_tracker" where
  "refresh_unified_diff ops t =
     (let st = fold (refresh_path ops t (rename_pairs t)) (diff_paths ops t)
                 \<lparr>handled = [], previous_diffs = rendered_diffs t, new_diffs = [], aggregated = []\<rparr>
      in t\<lparr>rendered_diffs := new_diffs st,
           tracker_diff := (if aggregated st = [] then None else Some (aggregated st))\<rparr>)"

section \<open>Tracking\<close>

definition invalidate :: "'p turn_diff_tracker \<Rightarrow> 'p turn_diff_tracker" where
  "invalidate t = t\<lparr>valid := False, rendered_diffs := [], tracker_diff := None\<rparr>"

definition track_delta ::
    "'p diff_ops \<Rightarrow> str \<Rightarrow> 'p applied_delta \<Rightarrow> 'p turn_diff_tracker \<Rightarrow> 'p turn_diff_tracker" where
  "track_delta ops env d t =
     (if \<not> valid t then t
      else if \<not> delta_exact d then invalidate t
      else refresh_unified_diff ops (fold (apply_change env) (delta_changes d) t))"

definition get_unified_diff :: "'p turn_diff_tracker \<Rightarrow> str option" where
  "get_unified_diff t = tracker_diff t"

definition has_unified_diff :: "'p turn_diff_tracker \<Rightarrow> bool" where
  "has_unified_diff t \<longleftrightarrow> tracker_diff t \<noteq> None"

end
