(* ===== verification/TurnDiffCorrect.thy ===== *)
theory TurnDiffCorrect
  imports TurnDiff ApplyHunksSteps
begin

text \<open>
  The tracker follows the files: what it holds as baseline and as current text of a path
  is what the files held when the turn began and hold now, and its cache of rendered
  diffs never shows.
\<close>

section \<open>Maps\<close>

lemma map_of_update_list [simp]: "map_of (AList.update k v m) = (map_of m)(k \<mapsto> v)"
  by (rule update_conv')

lemma map_of_delete_list [simp]: "map_of (AList.delete k m) = (map_of m)(k := None)"
  by (rule delete_conv')

lemmas tracker_map_defs = contains_key_def is_tracked_def next_content_def insert_baseline_def
  insert_current_def remove_origin_def remove_current_def

section \<open>Baseline and current texts\<close>

definition in_env :: "str \<Rightarrow> 'p \<Rightarrow> 'p tracked_path" where
  "in_env e p = \<lparr>tracked_environment = e, tracked_uri = p\<rparr>"

lemma in_env_eq [simp]: "in_env e p = in_env e q \<longleftrightarrow> p = q"
  by (simp add: in_env_def)

definition baseline_text :: "'p turn_diff_tracker \<Rightarrow> 'p tracked_path \<Rightarrow> str option" where
  "baseline_text t k = map_option tracked_text (map_of (baseline_by_path t) k)"

definition current_text :: "'p turn_diff_tracker \<Rightarrow> 'p tracked_path \<Rightarrow> str option" where
  "current_text t k = map_option tracked_text (map_of (current_by_path t) k)"

text \<open>
  The tracker \<open>t\<close> is right about an environment whose text files were \<open>v0\<close> when the
  turn began and are \<open>v\<close> now: it knows both texts of a path it tracks, and a path it
  does not track has not changed.
\<close>

definition follows :: "str \<Rightarrow> ('p \<Rightarrow> str option) \<Rightarrow> ('p \<Rightarrow> str option) \<Rightarrow> 'p turn_diff_tracker \<Rightarrow> bool" where
  "follows e v0 v t \<longleftrightarrow>
     (\<forall>p. let b = baseline_text t (in_env e p); c = current_text t (in_env e p) in
        if b = None \<and> c = None then v0 p = v p else b = v0 p \<and> c = v p)"

lemma is_tracked_iff: "is_tracked t k \<longleftrightarrow> baseline_text t k \<noteq> None \<or> current_text t k \<noteq> None"
  by (auto simp: is_tracked_def contains_key_def baseline_text_def current_text_def)

lemma contains_key_baseline: "contains_key k (baseline_by_path t) \<longleftrightarrow> baseline_text t k \<noteq> None"
  by (simp add: contains_key_def baseline_text_def)

lemma contains_key_current: "contains_key k (current_by_path t) \<longleftrightarrow> current_text t k \<noteq> None"
  by (simp add: contains_key_def current_text_def)

lemma insert_texts [simp]:
  "baseline_text (insert_baseline k c t) = (baseline_text t)(k \<mapsto> c)"
  "current_text (insert_baseline k c t) = current_text t"
  "baseline_text (insert_current k c t) = baseline_text t"
  "current_text (insert_current k c t) = (current_text t)(k \<mapsto> c)"
  by (auto simp: baseline_text_def current_text_def insert_baseline_def insert_current_def
      next_content_def intro!: ext)

lemma remove_texts [simp]:
  "baseline_text (remove_origin k t) = baseline_text t"
  "current_text (remove_origin k t) = current_text t"
  "baseline_text (remove_current k t) = baseline_text t"
  "current_text (remove_current k t) = (current_text t)(k := None)"
  "baseline_text (t\<lparr>origin_by_current_path := m\<rparr>) = baseline_text t"
  "current_text (t\<lparr>origin_by_current_path := m\<rparr>) = current_text t"
  by (auto simp: baseline_text_def current_text_def remove_origin_def remove_current_def
      intro!: ext)

section \<open>Changes\<close>

fun no_self_move :: "'p applied_change \<Rightarrow> bool" where
  "no_self_move ch = (case file_change ch of
     AppliedUpdate (Some dest) old over new \<Rightarrow> dest \<noteq> change_path ch | _ \<Rightarrow> True)"

lemmas text_facts = is_tracked_iff contains_key_baseline contains_key_current

lemma followsD:
  assumes "follows e v0 v t"
  shows "baseline_text t (in_env e p) = None \<Longrightarrow> current_text t (in_env e p) = None \<Longrightarrow> v0 p = v p"
    and "baseline_text t (in_env e p) \<noteq> None \<or> current_text t (in_env e p) \<noteq> None \<Longrightarrow>
         baseline_text t (in_env e p) = v0 p \<and> current_text t (in_env e p) = v p"
  using assms unfolding follows_def Let_def by (auto split: if_splits)

lemma keep_overwritten_texts [simp]:
  "baseline_text (keep_overwritten k over t) =
     (if is_tracked t k then baseline_text t else (baseline_text t)(k := over))"
  "current_text (keep_overwritten k over t) = current_text t"
  by (auto simp: keep_overwritten_def text_facts split: option.split intro!: ext)

lemma set_origin_texts [simp]:
  "baseline_text (set_origin d x t) = baseline_text t"
  "current_text (set_origin d x t) = current_text t"
  by (simp_all add: set_origin_def Let_def)

lemma apply_add_texts:
  "baseline_text (tracker_apply_add k c over t) =
     (if is_tracked t k then baseline_text t else (baseline_text t)(k := over))"
  "current_text (tracker_apply_add k c over t) = (current_text t)(k \<mapsto> c)"
  by (auto simp: tracker_apply_add_def Let_def text_facts split: option.split intro!: ext)

lemma apply_delete_texts:
  "baseline_text (tracker_apply_delete k c t) =
     (if is_tracked t k then baseline_text t else (baseline_text t)(k \<mapsto> c))"
  "current_text (tracker_apply_delete k c t) = (current_text t)(k := None)"
  by (auto simp: tracker_apply_delete_def Let_def text_facts intro!: ext)

lemma apply_move_texts:
  "baseline_text (tracker_apply_move k d over c t) =
     (if is_tracked t d then baseline_text t else (baseline_text t)(d := over))"
  "current_text (tracker_apply_move k d over c t) = (current_text t)(k := None, d \<mapsto> c)"
  by (auto simp: tracker_apply_move_def Let_def text_facts split: option.split intro!: ext)

lemma apply_update_texts:
  "baseline_text (tracker_apply_update k None old over c t) =
     (if is_tracked t k then baseline_text t else (baseline_text t)(k \<mapsto> old))"
  "current_text (tracker_apply_update k None old over c t) = (current_text t)(k \<mapsto> c)"
  "baseline_text (tracker_apply_update k (Some d) old over c t) =
     (let b = (if is_tracked t k then baseline_text t else (baseline_text t)(k \<mapsto> old))
      in if is_tracked t d \<or> d = k then b else b(d := over))"
  "current_text (tracker_apply_update k (Some d) old over c t) = (current_text t)(k := None, d \<mapsto> c)"
  by (auto simp: tracker_apply_update_def Let_def apply_move_texts text_facts intro!: ext)

lemma follows_change:
  assumes "follows e v0 v t" and undone: "undo_change ch (replay_change ch v) = v" and "no_self_move ch"
  shows "follows e v0 (replay_change ch v) (apply_change e ch t)"
proof (cases "file_change ch")
  case (AppliedAdd c over)
  with undone have "v (change_path ch) = over" by (auto dest: fun_cong [of _ _ "change_path ch"])
  with AppliedAdd followsD [OF assms(1)] show ?thesis
    unfolding follows_def
    by (auto simp: apply_change_def Let_def apply_add_texts text_facts in_env_def [symmetric])
next
  case (AppliedDelete c)
  with undone have "v (change_path ch) = Some c" by (auto dest: fun_cong [of _ _ "change_path ch"])
  with AppliedDelete followsD [OF assms(1)] show ?thesis
    unfolding follows_def
    by (auto simp: apply_change_def Let_def apply_delete_texts text_facts in_env_def [symmetric])
next
  case (AppliedUpdate mv old over new)
  show ?thesis
  proof (cases mv)
    case None
    with AppliedUpdate undone have "v (change_path ch) = Some old"
      by (auto dest: fun_cong [of _ _ "change_path ch"])
    with AppliedUpdate None followsD [OF assms(1)] show ?thesis
      unfolding follows_def
      by (auto simp: apply_change_def Let_def apply_update_texts text_facts in_env_def [symmetric])
  next
    case (Some d)
    with AppliedUpdate assms(3) have "d \<noteq> change_path ch" by simp
    with Some AppliedUpdate undone have "v (change_path ch) = Some old" "v d = over"
      by (auto dest: fun_cong [of _ _ "change_path ch"], auto dest: fun_cong [of _ _ d])
    with AppliedUpdate Some \<open>d \<noteq> change_path ch\<close> followsD [OF assms(1)] show ?thesis
      unfolding follows_def
      by (auto simp: apply_change_def Let_def apply_update_texts text_facts in_env_def [symmetric])
  qed
qed

lemma follows_changes:
  "follows e v0 v t \<Longrightarrow> accurate v cs \<Longrightarrow> list_all no_self_move cs \<Longrightarrow>
     follows e v0 (replay cs v) (fold (apply_change e) cs t)"
proof (induction cs arbitrary: v t)
  case (Cons ch cs)
  then have "follows e v0 (replay_change ch v) (apply_change e ch t)"
    by (intro follows_change) simp_all
  with Cons show ?case by (simp add: replay_def)
qed (simp add: replay_def)

lemma follows_refresh [simp]: "follows e v0 v (refresh_unified_diff ops t) = follows e v0 v t"
  by (simp add: follows_def refresh_unified_diff_def Let_def baseline_text_def current_text_def)

lemma follows_new [simp]: "follows e v v (new_tracker roots)"
  by (simp add: follows_def new_tracker_def baseline_text_def current_text_def Let_def)

lemma follows_track_delta:
  assumes "follows e v0 v t" and "delta_exact d \<longrightarrow> accurate v (delta_changes d) \<and> replay (delta_changes d) v = v'"
    and "list_all no_self_move (delta_changes d)" and "valid (track_delta ops e d t)"
  shows "follows e v0 v' (track_delta ops e d t)"
  using assms follows_changes [OF assms(1)]
  by (auto simp: track_delta_def invalidate_def split: if_splits)

section \<open>Changes of a patch\<close>

text \<open>A patch that names a destination different from the source in every move.\<close>

fun move_elsewhere :: "'p path_ops \<Rightarrow> 'p \<Rightarrow> hunk \<Rightarrow> bool" where
  "move_elsewhere paths cwd (UpdateFile path (Some dest) cs) \<longleftrightarrow>
     path_join paths cwd path \<noteq> path_join paths cwd dest"
| "move_elsewhere paths cwd h \<longleftrightarrow> True"

definition moves_elsewhere :: "'p path_ops \<Rightarrow> 'p \<Rightarrow> str \<Rightarrow> bool" where
  "moves_elsewhere paths cwd patch \<longleftrightarrow>
     (case parse_patch patch of
        Inl e \<Rightarrow> True
      | Inr args \<Rightarrow> list_all (move_elsewhere paths cwd) (args_hunks args))"

lemma change_of_hunk_no_self_move:
  assumes "change_of_hunk paths opts cwd h ch"
    and "move_elsewhere paths cwd h"
  shows "no_self_move ch"
proof (cases "file_change ch")
  case (AppliedUpdate d old over new)
  with assms(1) obtain path mv cs where
    h: "h = UpdateFile path mv cs" "path_join paths cwd path = Inr (change_path ch)"
      "map_option (path_join paths cwd) mv = map_option Inr d"
    by (cases h) (auto simp: change_of_hunk_def)
  with AppliedUpdate assms(2) show ?thesis by (cases mv; cases d) auto
qed simp_all

lemma list_all2_all:
  assumes "list_all2 P xs ys" and "\<And>x y. P x y \<Longrightarrow> Q x \<Longrightarrow> R y"
  shows "list_all Q xs \<Longrightarrow> list_all R ys"
  using assms(1) by (induction rule: list_all2_induct) (auto intro: assms(2))

lemma run_reported_no_self_move:
  assumes "run_reported paths opts cwd hs finished cs"
    and "list_all (move_elsewhere paths cwd) hs"
  shows "list_all no_self_move cs"
proof -
  from assms(1) obtain ds rest as extra where
    parts: "hs = ds @ rest" "cs = as @ extra" "list_all2 (change_of_hunk paths opts cwd) ds as"
      "extra = [] \<or> unfinished_move paths cwd (hd rest) extra"
    unfolding run_reported_def by (auto split: if_splits)
  from assms(2) parts(1) have elsewhere: "list_all (move_elsewhere paths cwd) ds" by simp
  have "list_all no_self_move as"
    by (rule list_all2_all [OF parts(3) _ elsewhere]) (rule change_of_hunk_no_self_move)
  moreover have "list_all no_self_move extra"
    using parts(4) by (auto simp: unfinished_move_def)
  ultimately show ?thesis using parts(2) by simp
qed

lemma patch_delta_no_self_move:
  assumes run: "apply_patch_with_options fs paths writeln patch opts cwd env = (env', out)"
    and "outcome_delta out = Some d" and "delta_exact d" and "moves_elsewhere paths cwd patch"
  shows "list_all no_self_move (delta_changes d)"
proof (cases "parse_patch patch")
  case (Inl e)
  with assms show ?thesis
    by (auto simp: apply_patch_with_options_def split: prod.splits sum.splits)
next
  case (Inr args)
  let ?res = "apply_hunks_to_files fs paths (args_hunks args) opts cwd (env_fs env)"
  from Inr run have "apply_hunks_with_options fs paths writeln (args_hunks args) opts cwd env = (env', out)"
    by (simp add: apply_patch_with_options_def)
  from apply_hunks_with_options_delta [OF this assms(2)] have d: "d = delta (fst ?res)" by simp
  show ?thesis
  proof (cases "args_hunks args = []")
    case True
    with d show ?thesis by (simp add: apply_hunks_to_files_def)
  next
    case False
    with reported_loop [of fs paths opts cwd "args_hunks args" "initial_apply_state (env_fs env)"]
      d assms(3) obtain b where
      "run_reported paths opts cwd (args_hunks args) b (delta_changes d)"
      by (auto simp: apply_hunks_to_files_def)
    with assms(4) Inr show ?thesis
      by (auto simp: moves_elsewhere_def intro: run_reported_no_self_move)
  qed
qed

section \<open>The patches of a turn\<close>

text \<open>
  A patch applied in a turn: its delta is tracked whatever the outcome, as
  \<open>emit_patch_end\<close> in \<open>core/src/tools/events.rs\<close> does.
\<close>

definition run_patch ::
    "('s, 'p) fs_ops \<Rightarrow> 'p path_ops \<Rightarrow> 'w writer \<Rightarrow> apply_patch_options \<Rightarrow> 'p \<Rightarrow> 'p diff_ops \<Rightarrow> str
     \<Rightarrow> str \<Rightarrow> ('s, 'w) apply_env \<times> 'p turn_diff_tracker \<Rightarrow> ('s, 'w) apply_env \<times> 'p turn_diff_tracker" where
  "run_patch fs paths writeln opts cwd ops e patch st =
     (case apply_patch_with_options fs paths writeln patch opts cwd (fst st) of
        (env', out) \<Rightarrow> (env', case outcome_delta out of
            Some d \<Rightarrow> track_delta ops e d (snd st)
          | None \<Rightarrow> snd st))"

definition run_turn ::
    "('s, 'p) fs_ops \<Rightarrow> 'p path_ops \<Rightarrow> 'w writer \<Rightarrow> apply_patch_options \<Rightarrow> 'p \<Rightarrow> 'p diff_ops \<Rightarrow> str
     \<Rightarrow> str list \<Rightarrow> ('s, 'w) apply_env \<times> 'p turn_diff_tracker \<Rightarrow> ('s, 'w) apply_env \<times> 'p turn_diff_tracker" where
  "run_turn fs paths writeln opts cwd ops e patches st =
     fold (run_patch fs paths writeln opts cwd ops e) patches st"

lemma outcome_delta_None: "outcome_delta out = None \<longleftrightarrow> out = Inl Panic"
  by (cases out rule: outcome_delta.cases) auto

lemma run_patch_follows:
  assumes laws: "fs_laws fs paths (opt_follow_symlinks opts)"
    and "follows e v0 (text_at fs (opt_follow_symlinks opts) (env_fs (fst st))) (snd st)"
    and "moves_elsewhere paths cwd patch"
    and "valid (snd (run_patch fs paths writeln opts cwd ops e patch st))"
  shows "follows e v0
     (text_at fs (opt_follow_symlinks opts) (env_fs (fst (run_patch fs paths writeln opts cwd ops e patch st))))
     (snd (run_patch fs paths writeln opts cwd ops e patch st))"
proof -
  obtain env' out where run: "apply_patch_with_options fs paths writeln patch opts cwd (fst st) = (env', out)"
    by fastforce
  from patch_no_panic [of fs paths writeln patch opts cwd "fst st"] run obtain d where
    d: "outcome_delta out = Some d" by (cases "outcome_delta out") (auto simp: outcome_delta_None)
  from run d assms(4) have v: "valid (track_delta ops e d (snd st))" by (simp add: run_patch_def)
  then have "valid (snd st)" and exact: "delta_exact d"
    by (auto simp: track_delta_def invalidate_def split: if_splits)
  with apply_patch_delta [OF laws run d exact] patch_delta_no_self_move [OF run d exact assms(3)]
    follows_changes [OF assms(2), of "delta_changes d"] run d
  show ?thesis by (simp add: run_patch_def track_delta_def)
qed

lemma track_delta_valid: "valid (track_delta ops e d t) \<Longrightarrow> valid t"
  by (auto simp: track_delta_def invalidate_def split: if_splits)

lemma run_patch_valid: "valid (snd (run_patch fs paths writeln opts cwd ops e patch st)) \<Longrightarrow> valid (snd st)"
  by (auto simp: run_patch_def split: prod.splits option.splits dest: track_delta_valid)

lemma run_turn_valid: "valid (snd (run_turn fs paths writeln opts cwd ops e patches st)) \<Longrightarrow> valid (snd st)"
proof (induction patches arbitrary: st)
  case (Cons patch patches)
  from Cons.IH [of "run_patch fs paths writeln opts cwd ops e patch st"] Cons.prems
  have "valid (snd (run_patch fs paths writeln opts cwd ops e patch st))" by (simp add: run_turn_def)
  then show ?case by (rule run_patch_valid)
qed (simp add: run_turn_def)

lemma run_turn_follows:
  assumes laws: "fs_laws fs paths (opt_follow_symlinks opts)"
    and "follows e v0 (text_at fs (opt_follow_symlinks opts) (env_fs (fst st))) (snd st)"
    and "list_all (moves_elsewhere paths cwd) patches"
    and "valid (snd (run_turn fs paths writeln opts cwd ops e patches st))"
  shows "follows e v0
     (text_at fs (opt_follow_symlinks opts) (env_fs (fst (run_turn fs paths writeln opts cwd ops e patches st))))
     (snd (run_turn fs paths writeln opts cwd ops e patches st))"
  using assms(2-)
proof (induction patches arbitrary: st)
  case (Cons patch patches)
  let ?st = "run_patch fs paths writeln opts cwd ops e patch st"
  have "valid (snd ?st)" using Cons.prems(3) by (auto simp: run_turn_def dest: run_turn_valid [unfolded run_turn_def])
  with run_patch_follows [OF laws Cons.prems(1)] Cons.prems(2)
  have "follows e v0 (text_at fs (opt_follow_symlinks opts) (env_fs (fst ?st))) (snd ?st)" by simp
  with Cons.IH [of ?st] Cons.prems show ?case by (simp add: run_turn_def)
qed (simp add: run_turn_def)

end
