(* ===== verification/TurnDiffCache.thy ===== *)
theory TurnDiffCache
  imports TurnDiffCorrect
begin

text \<open>
  The cache of rendered diffs: keyed by paths and revisions, it always holds what a fresh
  rendering gives, so dropping it at any moment changes nothing.
\<close>

section \<open>Revisions\<close>

text \<open>Every revision given out names one text, and the cache holds renderings of them.\<close>

definition contents_revised :: "(nat \<Rightarrow> str) \<Rightarrow> nat \<Rightarrow> ('k \<times> tracked_content) list \<Rightarrow> bool" where
  "contents_revised f n m \<longleftrightarrow>
     (\<forall>k c. map_of m k = Some c \<longrightarrow> revision c < n \<and> f (revision c) = tracked_text c)"

definition cache_revised ::
    "'p diff_ops \<Rightarrow> (str \<times> 'p) list \<Rightarrow> (nat \<Rightarrow> str) \<Rightarrow> nat \<Rightarrow> ('p diff_cache_key \<times> str option) list \<Rightarrow> bool" where
  "cache_revised ops roots f n m \<longleftrightarrow>
     (\<forall>key d. map_of m key = Some d \<longrightarrow>
        (\<forall>r. left_revision key = Some r \<or> right_revision key = Some r \<longrightarrow> r < n)
        \<and> d = render_diff ops roots (left_path key) (map_option f (left_revision key))
                (right_path key) (map_option f (right_revision key)))"

definition tracker_revised :: "'p diff_ops \<Rightarrow> (nat \<Rightarrow> str) \<Rightarrow> 'p turn_diff_tracker \<Rightarrow> bool" where
  "tracker_revised ops f t \<longleftrightarrow>
     contents_revised f (next_revision t) (baseline_by_path t)
     \<and> contents_revised f (next_revision t) (current_by_path t)
     \<and> cache_revised ops (display_roots t) f (next_revision t) (rendered_diffs t)
     \<and> (\<not> valid t \<longrightarrow> rendered_diffs t = [])"

definition cache_inv :: "'p diff_ops \<Rightarrow> 'p turn_diff_tracker \<Rightarrow> bool" where
  "cache_inv ops t \<longleftrightarrow> (\<exists>f. tracker_revised ops f t)"

lemma contents_revised_next:
  assumes "contents_revised f n m"
  shows "contents_revised (f(n := c)) (Suc n) m"
    and "contents_revised (f(n := c)) (Suc n) (AList.update k \<lparr>tracked_text = c, revision = n\<rparr> m)"
  using assms by (fastforce simp: contents_revised_def)+

lemma contents_revised_delete: "contents_revised f n m \<Longrightarrow> contents_revised f n (AList.delete k m)"
  by (auto simp: contents_revised_def)

lemma cache_revised_next:
  assumes "cache_revised ops roots f n m"
  shows "cache_revised ops roots (f(n := c)) (Suc n) m"
  unfolding cache_revised_def
proof (intro allI impI conjI)
  fix key d
  assume "map_of m key = Some d"
  with assms have below: "left_revision key = Some r \<or> right_revision key = Some r \<Longrightarrow> r < n" for r
    by (auto simp: cache_revised_def)
  from \<open>map_of m key = Some d\<close> assms have
    d: "d = render_diff ops roots (left_path key) (map_option f (left_revision key))
                (right_path key) (map_option f (right_revision key))"
    by (auto simp: cache_revised_def)
  show "r < Suc n" if "left_revision key = Some r \<or> right_revision key = Some r" for r
    using below [OF that] by simp
  have "map_option (f(n := c)) (left_revision key) = map_option f (left_revision key)"
    "map_option (f(n := c)) (right_revision key) = map_option f (right_revision key)"
    using below [of n] by (auto intro!: option.map_cong)
  with d show "d = render_diff ops roots (left_path key) (map_option (f(n := c)) (left_revision key))
                (right_path key) (map_option (f(n := c)) (right_revision key))" by simp
qed

lemma cache_inv_insert:
  assumes "cache_inv ops t"
  shows "cache_inv ops (insert_baseline k c t)" and "cache_inv ops (insert_current k c t)"
proof -
  from assms obtain f where f: "tracker_revised ops f t" by (auto simp: cache_inv_def)
  note next_revised = contents_revised_next cache_revised_next
  from f have "tracker_revised ops (f(next_revision t := c)) (insert_baseline k c t)"
    "tracker_revised ops (f(next_revision t := c)) (insert_current k c t)"
    by (auto simp: tracker_revised_def insert_baseline_def insert_current_def next_content_def
        intro: next_revised)
  then show "cache_inv ops (insert_baseline k c t)" "cache_inv ops (insert_current k c t)"
    by (auto simp: cache_inv_def)
qed

lemma cache_inv_remove:
  assumes "cache_inv ops t"
  shows "cache_inv ops (remove_origin k t)" and "cache_inv ops (remove_current k t)"
    and "cache_inv ops (t\<lparr>origin_by_current_path := m\<rparr>)"
  using assms
  by (auto simp: cache_inv_def tracker_revised_def remove_origin_def remove_current_def
      intro: contents_revised_delete)

lemma cache_inv_change: "cache_inv ops t \<Longrightarrow> cache_inv ops (apply_change e ch t)"
  by (auto simp: apply_change_def tracker_apply_add_def tracker_apply_delete_def
      tracker_apply_update_def tracker_apply_move_def keep_overwritten_def set_origin_def Let_def
      cache_inv_insert cache_inv_remove split: applied_file_change.split option.split)

lemma cache_inv_changes: "cache_inv ops t \<Longrightarrow> cache_inv ops (fold (apply_change e) cs t)"
  by (induction cs arbitrary: t) (simp_all add: cache_inv_change)

section \<open>Refreshing\<close>

definition good_cache :: "'p diff_ops \<Rightarrow> 'p turn_diff_tracker \<Rightarrow> ('p diff_cache_key \<times> str option) list \<Rightarrow> bool" where
  "good_cache ops t m \<longleftrightarrow>
     (\<forall>lp rp d. map_of m (cache_key t lp rp) = Some d \<longrightarrow> d = fresh_diff ops t lp rp)"

lemma revised_text:
  "contents_revised f n m \<Longrightarrow>
     map_option f (map_option revision (map_of m k)) = map_option tracked_text (map_of m k)"
  by (cases "map_of m k") (auto simp: contents_revised_def)

lemma fresh_diff_revised:
  assumes "tracker_revised ops f t"
  shows "render_diff ops (display_roots t) lp (map_option f (left_revision (cache_key t lp rp)))
           rp (map_option f (right_revision (cache_key t lp rp))) = fresh_diff ops t lp rp"
proof -
  from assms have "map_option f (map_option revision (map_of (baseline_by_path t) lp))
      = map_option tracked_text (map_of (baseline_by_path t) lp)"
    "map_option f (map_option revision (map_of (current_by_path t) rp))
      = map_option tracked_text (map_of (current_by_path t) rp)"
    by (auto simp: tracker_revised_def intro: revised_text simp del: option.map_comp)
  then show ?thesis
    by (simp add: fresh_diff_def cache_key_def del: option.map_comp)
qed

lemma cache_inv_good: "cache_inv ops t \<Longrightarrow> good_cache ops t (rendered_diffs t)"
proof -
  assume "cache_inv ops t"
  then obtain f where f: "tracker_revised ops f t" by (auto simp: cache_inv_def)
  show ?thesis
    unfolding good_cache_def
  proof (intro allI impI)
    fix lp rp d
    assume "map_of (rendered_diffs t) (cache_key t lp rp) = Some d"
    moreover from f have "cache_revised ops (display_roots t) f (next_revision t) (rendered_diffs t)"
      by (simp add: tracker_revised_def)
    ultimately have "d = render_diff ops (display_roots t) (left_path (cache_key t lp rp))
        (map_option f (left_revision (cache_key t lp rp))) (right_path (cache_key t lp rp))
        (map_option f (right_revision (cache_key t lp rp)))"
      by (simp only: cache_revised_def)
    also have "\<dots> = fresh_diff ops t lp rp"
      using fresh_diff_revised [OF f, of lp rp] by (simp add: cache_key_def del: option.map_comp)
    finally show "d = fresh_diff ops t lp rp" .
  qed
qed

text \<open>The part of the loop's state that is seen does not depend on a good cache.\<close>

definition same_result :: "'p refresh_state \<Rightarrow> 'p refresh_state \<Rightarrow> bool" where
  "same_result a b \<longleftrightarrow> handled a = handled b \<and> new_diffs a = new_diffs b \<and> aggregated a = aggregated b"

lemma good_cache_delete: "good_cache ops t m \<Longrightarrow> good_cache ops t (AList.delete key m)"
  by (auto simp: good_cache_def)

lemma good_cache_lookup:
  assumes "good_cache ops t m"
  shows "\<exists>m'. (case map_of m (cache_key t lp rp) of
        Some d \<Rightarrow> (d, AList.delete (cache_key t lp rp) m)
      | None \<Rightarrow> (fresh_diff ops t lp rp, m)) = (fresh_diff ops t lp rp, m') \<and> good_cache ops t m'"
  using assms
  by (cases "map_of m (cache_key t lp rp)") (auto simp: good_cache_delete, auto simp: good_cache_def)

lemma refresh_path_good:
  assumes "good_cache ops t (previous_diffs a)"
  shows "\<exists>m. good_cache ops t m \<and> refresh_path ops t pairs p a =
    (if p \<in> set (handled a) then a
     else if p \<in> set (map snd pairs) then a\<lparr>handled := p # handled a, previous_diffs := m\<rparr>
     else
       (let rp = (case map_of pairs p of Some dest \<Rightarrow> dest | None \<Rightarrow> p);
            st = (if map_of pairs p = None then a\<lparr>handled := p # handled a\<rparr>
                  else a\<lparr>handled := rp # p # handled a\<rparr>)
        in st\<lparr>previous_diffs := m, aggregated := push_diff (fresh_diff ops t p rp) (aggregated a),
              new_diffs := AList.update (cache_key t p rp) (fresh_diff ops t p rp) (new_diffs a)\<rparr>))"
proof -
  let ?rp = "case map_of pairs p of Some dest \<Rightarrow> dest | None \<Rightarrow> p"
  from good_cache_lookup [OF assms, of p ?rp] obtain m where
    "(case map_of (previous_diffs a) (cache_key t p ?rp) of
        Some d \<Rightarrow> (d, AList.delete (cache_key t p ?rp) (previous_diffs a))
      | None \<Rightarrow> (fresh_diff ops t p ?rp, previous_diffs a)) = (fresh_diff ops t p ?rp, m)"
    "good_cache ops t m" by blast
  then show ?thesis
    using assms
    by (cases "p \<in> set (handled a)"; cases "p \<in> set (map snd pairs)")
       (auto simp: refresh_path_def Let_def split: option.splits)
qed

lemma refresh_path_same:
  assumes "same_result a b" and "good_cache ops t (previous_diffs a)" and "good_cache ops t (previous_diffs b)"
  shows "same_result (refresh_path ops t pairs p a) (refresh_path ops t pairs p b)"
    and "good_cache ops t (previous_diffs (refresh_path ops t pairs p a))"
    and "good_cache ops t (previous_diffs (refresh_path ops t pairs p b))"
  using refresh_path_good [OF assms(2), of pairs p] refresh_path_good [OF assms(3), of pairs p] assms
  by (auto simp: same_result_def Let_def)

lemma refresh_loop_same:
  "same_result a b \<Longrightarrow> good_cache ops t (previous_diffs a) \<Longrightarrow> good_cache ops t (previous_diffs b) \<Longrightarrow>
     same_result (fold (refresh_path ops t pairs) ps a) (fold (refresh_path ops t pairs) ps b)"
proof (induction ps arbitrary: a b)
  case (Cons p ps)
  have "same_result (refresh_path ops t pairs p a) (refresh_path ops t pairs p b)"
    "good_cache ops t (previous_diffs (refresh_path ops t pairs p a))"
    "good_cache ops t (previous_diffs (refresh_path ops t pairs p b))"
    using refresh_path_same Cons.prems by blast+
  then show ?case by (simp add: Cons.IH)
qed simp

lemma good_cache_Nil [simp]: "good_cache ops t []"
  by (simp add: good_cache_def)

lemma rename_pairs_cache [simp]: "rename_pairs (t\<lparr>rendered_diffs := m\<rparr>) = rename_pairs t"
  by (simp add: rename_pairs_def)

lemma diff_paths_cache [simp]: "diff_paths ops (t\<lparr>rendered_diffs := m\<rparr>) = diff_paths ops t"
  by (simp add: diff_paths_def)

lemma refresh_path_cache [simp]:
  "refresh_path ops (t\<lparr>rendered_diffs := m\<rparr>) = refresh_path ops t"
proof -
  have "cache_key (t\<lparr>rendered_diffs := m\<rparr>) = cache_key t"
    "fresh_diff ops (t\<lparr>rendered_diffs := m\<rparr>) = fresh_diff ops t"
    by (intro ext, simp add: cache_key_def fresh_diff_def)+
  then show ?thesis by (intro ext) (unfold refresh_path_def, simp only:)
qed

lemma refresh_drop:
  assumes "cache_inv ops t"
  shows "refresh_unified_diff ops (t\<lparr>rendered_diffs := []\<rparr>) = refresh_unified_diff ops t"
proof -
  let ?st = "\<lambda>m. \<lparr>handled = [], previous_diffs = m, new_diffs = [], aggregated = []\<rparr>"
  have "same_result
      (fold (refresh_path ops t (rename_pairs t)) (diff_paths ops t) (?st []))
      (fold (refresh_path ops t (rename_pairs t)) (diff_paths ops t) (?st (rendered_diffs t)))"
    using cache_inv_good [OF assms] by (intro refresh_loop_same) (simp_all add: same_result_def)
  then show ?thesis by (simp add: refresh_unified_diff_def same_result_def Let_def)
qed

text \<open>What a refresh leaves in the cache are fresh renderings.\<close>

definition cache_fresh :: "'p diff_ops \<Rightarrow> 'p turn_diff_tracker \<Rightarrow> ('p diff_cache_key \<times> str option) list \<Rightarrow> bool" where
  "cache_fresh ops t m \<longleftrightarrow>
     (\<forall>key d. map_of m key = Some d \<longrightarrow> cache_key t (left_path key) (right_path key) = key
        \<and> d = fresh_diff ops t (left_path key) (right_path key))"

lemma cache_key_paths [simp]:
  "left_path (cache_key t lp rp) = lp" "right_path (cache_key t lp rp) = rp"
  by (simp_all add: cache_key_def)

lemma refresh_loop_fresh:
  "good_cache ops t (previous_diffs a) \<Longrightarrow> cache_fresh ops t (new_diffs a) \<Longrightarrow>
     cache_fresh ops t (new_diffs (fold (refresh_path ops t pairs) ps a))"
proof (induction ps arbitrary: a)
  case (Cons p ps)
  have "cache_fresh ops t (new_diffs (refresh_path ops t pairs p a))"
    using refresh_path_good [OF Cons.prems(1), of pairs p] Cons.prems(2)
    by (auto simp: cache_fresh_def Let_def split: if_splits)
  moreover have "good_cache ops t (previous_diffs (refresh_path ops t pairs p a))"
    using refresh_path_same(2) [OF _ Cons.prems(1) Cons.prems(1)] by (simp add: same_result_def)
  ultimately show ?case by (simp add: Cons.IH)
qed simp

lemma cache_fresh_revised:
  assumes "tracker_revised ops f t" and "cache_fresh ops t m"
  shows "cache_revised ops (display_roots t) f (next_revision t) m"
  unfolding cache_revised_def
proof (intro allI impI)
  fix key d
  assume "map_of m key = Some d"
  with assms(2) obtain lp rp where key: "key = cache_key t lp rp" "d = fresh_diff ops t lp rp"
    by (metis cache_fresh_def)
  have "left_revision key = Some r \<or> right_revision key = Some r \<Longrightarrow> r < next_revision t" for r
    using assms(1) by (auto simp: key cache_key_def tracker_revised_def contents_revised_def)
  moreover have "d = render_diff ops (display_roots t) (left_path key) (map_option f (left_revision key))
      (right_path key) (map_option f (right_revision key))"
    using fresh_diff_revised [OF assms(1), of lp rp]
    by (simp add: key cache_key_def del: option.map_comp)
  ultimately show "(\<forall>r. left_revision key = Some r \<or> right_revision key = Some r \<longrightarrow> r < next_revision t) \<and>
      d = render_diff ops (display_roots t) (left_path key) (map_option f (left_revision key))
            (right_path key) (map_option f (right_revision key))" by blast
qed

lemma cache_inv_refresh:
  assumes "cache_inv ops t" and "valid t"
  shows "cache_inv ops (refresh_unified_diff ops t)"
proof -
  from assms obtain f where f: "tracker_revised ops f t" by (auto simp: cache_inv_def)
  let ?st = "fold (refresh_path ops t (rename_pairs t)) (diff_paths ops t)
    \<lparr>handled = [], previous_diffs = rendered_diffs t, new_diffs = [], aggregated = []\<rparr>"
  have "cache_fresh ops t (new_diffs ?st)"
    using cache_inv_good [OF assms(1)] by (intro refresh_loop_fresh) (simp_all add: cache_fresh_def)
  from cache_fresh_revised [OF f this] f assms(2)
  have "tracker_revised ops f (refresh_unified_diff ops t)"
    by (simp add: tracker_revised_def refresh_unified_diff_def Let_def)
  then show ?thesis by (auto simp: cache_inv_def)
qed

lemma valid_changes [simp]: "valid (fold (apply_change e) cs t) = valid t"
proof (induction cs arbitrary: t)
  case (Cons ch cs)
  have "valid (apply_change e ch t) = valid t"
    by (auto simp: apply_change_def tracker_apply_add_def tracker_apply_delete_def
        tracker_apply_update_def tracker_apply_move_def keep_overwritten_def set_origin_def Let_def
        tracker_map_defs split: applied_file_change.split option.split)
  with Cons show ?case by simp
qed simp

lemma cache_inv_track: "cache_inv ops t \<Longrightarrow> cache_inv ops (track_delta ops e d t)"
  by (auto simp: track_delta_def cache_inv_refresh cache_inv_changes)
     (auto simp: invalidate_def cache_inv_def tracker_revised_def cache_revised_def)

lemma cache_inv_new [simp]: "cache_inv ops (new_tracker roots)"
  by (simp add: cache_inv_def new_tracker_def tracker_revised_def contents_revised_def cache_revised_def)

definition track_all ::
    "'p diff_ops \<Rightarrow> (str \<times> 'p applied_delta) list \<Rightarrow> 'p turn_diff_tracker \<Rightarrow> 'p turn_diff_tracker" where
  "track_all ops ds t = fold (\<lambda>(e, d). track_delta ops e d) ds t"

lemma cache_inv_all: "cache_inv ops t \<Longrightarrow> cache_inv ops (track_all ops ds t)"
  by (induction ds arbitrary: t) (auto simp: track_all_def cache_inv_track)

lemma primitive_cache:
  "insert_baseline k c (t\<lparr>rendered_diffs := m\<rparr>) = (insert_baseline k c t)\<lparr>rendered_diffs := m\<rparr>"
  "insert_current k c (t\<lparr>rendered_diffs := m\<rparr>) = (insert_current k c t)\<lparr>rendered_diffs := m\<rparr>"
  "remove_origin k (t\<lparr>rendered_diffs := m\<rparr>) = (remove_origin k t)\<lparr>rendered_diffs := m\<rparr>"
  "remove_current k (t\<lparr>rendered_diffs := m\<rparr>) = (remove_current k t)\<lparr>rendered_diffs := m\<rparr>"
  "is_tracked (t\<lparr>rendered_diffs := m\<rparr>) k = is_tracked t k"
  by (simp_all add: tracker_map_defs)

lemma helper_cache:
  "keep_overwritten k over (t\<lparr>rendered_diffs := m\<rparr>) = (keep_overwritten k over t)\<lparr>rendered_diffs := m\<rparr>"
  "set_origin k x (t\<lparr>rendered_diffs := m\<rparr>) = (set_origin k x t)\<lparr>rendered_diffs := m\<rparr>"
  "origin_of (t\<lparr>rendered_diffs := m\<rparr>) k = origin_of t k"
  "contains_key k (current_by_path (t\<lparr>rendered_diffs := m\<rparr>)) = contains_key k (current_by_path t)"
  by (simp_all add: keep_overwritten_def set_origin_def origin_of_def primitive_cache Let_def
      remove_origin_def split: option.split)

lemma apply_ops_cache:
  "tracker_apply_add k c over (t\<lparr>rendered_diffs := m\<rparr>) = (tracker_apply_add k c over t)\<lparr>rendered_diffs := m\<rparr>"
  "tracker_apply_delete k c (t\<lparr>rendered_diffs := m\<rparr>) = (tracker_apply_delete k c t)\<lparr>rendered_diffs := m\<rparr>"
  "tracker_apply_move k d over c (t\<lparr>rendered_diffs := m\<rparr>)
     = (tracker_apply_move k d over c t)\<lparr>rendered_diffs := m\<rparr>"
  by (simp_all add: tracker_apply_add_def tracker_apply_delete_def tracker_apply_move_def Let_def
      primitive_cache helper_cache)

lemma apply_update_cache:
  "tracker_apply_update k mv old over c (t\<lparr>rendered_diffs := m\<rparr>)
     = (tracker_apply_update k mv old over c t)\<lparr>rendered_diffs := m\<rparr>"
  by (cases mv) (simp_all add: tracker_apply_update_def Let_def primitive_cache apply_ops_cache)

lemma apply_change_cache:
  "apply_change e ch (t\<lparr>rendered_diffs := m\<rparr>) = (apply_change e ch t)\<lparr>rendered_diffs := m\<rparr>"
  by (simp add: apply_change_def Let_def apply_ops_cache apply_update_cache
      split: applied_file_change.split)

lemma apply_changes_cache:
  "fold (apply_change e) cs (t\<lparr>rendered_diffs := m\<rparr>) = (fold (apply_change e) cs t)\<lparr>rendered_diffs := m\<rparr>"
  by (induction cs arbitrary: t) (simp_all add: apply_change_cache)

lemma track_drop:
  assumes "cache_inv ops t"
  shows "track_delta ops e d (t\<lparr>rendered_diffs := []\<rparr>) = track_delta ops e d t"
proof (cases "valid t")
  case True
  with refresh_drop [OF cache_inv_changes [OF assms, of e "delta_changes d"]] show ?thesis
    by (simp add: track_delta_def apply_changes_cache invalidate_def)
next
  case False
  with assms show ?thesis
    by (cases t) (auto simp: track_delta_def cache_inv_def tracker_revised_def)
qed

text \<open>
  The cache of rendered diffs never shows: after any deltas, exact or not, dropping the
  cache leaves the next one with the same diff and the same state.
\<close>

theorem diff_cache_transparent:
  "track_delta ops e d ((track_all ops ds (new_tracker roots))\<lparr>rendered_diffs := []\<rparr>)
     = track_delta ops e d (track_all ops ds (new_tracker roots))"
  by (simp add: track_drop cache_inv_all)

end
