(* ===== verification/ExecRule.thy ===== *)
theory ExecRule
  imports Prelude "HOL-Library.List_Lexorder"
begin

text \<open>
  \<open>execpolicy/src/decision.rs\<close>, \<open>error.rs\<close>, \<open>executable_name.rs\<close> and \<open>rule.rs\<close>: decisions
  and their order, the errors, and the rules of an execution policy. \<open>PrefixRule\<close> is the
  only implementation of the trait \<open>Rule\<close>, so a rule reference is a prefix rule; the
  contract of the trait is the locale \<open>keyed_rule\<close>.
\<close>

section \<open>Decisions\<close>

datatype decision = Allow | Prompt | Forbidden

fun severity :: "decision \<Rightarrow> nat" where
  "severity Allow = 0"
| "severity Prompt = 1"
| "severity Forbidden = 2"

lemma severity_inject [simp]: "severity a = severity b \<longleftrightarrow> a = b"
  by (cases a; cases b) simp_all

text \<open>\<open>Ord\<close> is derived, so the order is that of the constructors.\<close>

instantiation decision :: linorder
begin

definition less_eq_decision :: "decision \<Rightarrow> decision \<Rightarrow> bool" where
  "less_eq_decision a b \<longleftrightarrow> severity a \<le> severity b"

definition less_decision :: "decision \<Rightarrow> decision \<Rightarrow> bool" where
  "less_decision a b \<longleftrightarrow> severity a < severity b"

instance
  by standard (auto simp: less_eq_decision_def less_decision_def)

end

lemma decision_bounds [simp]: "Allow \<le> d" "d \<le> Forbidden"
  by (cases d; simp add: less_eq_decision_def)+

section \<open>Errors\<close>

record text_position =
  pos_line :: nat
  pos_column :: nat

record text_range =
  range_start :: text_position
  range_end :: text_position

record error_location =
  loc_path :: str
  loc_range :: text_range

datatype exec_error =
    InvalidDecision str
  | InvalidPattern str
  | InvalidExample str
  | InvalidRule str
  | ExampleDidNotMatch "str list" "str list" "error_location option"
  | ExampleDidMatch str str "error_location option"
  | StarlarkError str

fun with_location :: "error_location \<Rightarrow> exec_error \<Rightarrow> exec_error" where
  "with_location l (ExampleDidNotMatch rules examples None) = ExampleDidNotMatch rules examples (Some l)"
| "with_location l (ExampleDidMatch rule example None) = ExampleDidMatch rule example (Some l)"
| "with_location l e = e"

text \<open>Of a Starlark error the location is that of its span, a parameter.\<close>

fun error_location_of :: "(str \<Rightarrow> error_location option) \<Rightarrow> exec_error \<Rightarrow> error_location option" where
  "error_location_of span (ExampleDidNotMatch rules examples l) = l"
| "error_location_of span (ExampleDidMatch rule example l) = l"
| "error_location_of span (StarlarkError e) = span e"
| "error_location_of span e = None"

definition parse_decision :: "str \<Rightarrow> exec_error + decision" where
  "parse_decision raw =
     (if raw = lit ''allow'' then Inr Allow
      else if raw = lit ''prompt'' then Inr Prompt
      else if raw = lit ''forbidden'' then Inr Forbidden
      else Inl (InvalidDecision raw))"

section \<open>Names of executables\<close>

text \<open>On Unix; the Windows variant drops an executable suffix.\<close>

definition executable_lookup_key :: "str \<Rightarrow> str" where
  "executable_lookup_key raw = raw"

definition WINDOWS_EXECUTABLE_SUFFIXES :: "str list" where
  "WINDOWS_EXECUTABLE_SUFFIXES = [lit ''.exe'', lit ''.cmd'', lit ''.bat'', lit ''.com'']"

definition executable_lookup_key_windows :: "str \<Rightarrow> str" where
  "executable_lookup_key_windows raw =
     (let raw = to_ascii_lowercase raw in
      case List.find (\<lambda>suf. ends_with raw suf) WINDOWS_EXECUTABLE_SUFFIXES of
        Some suf \<Rightarrow> take (length raw - length suf) raw
      | None \<Rightarrow> raw)"

section \<open>Patterns\<close>

datatype pattern_token = SingleToken str | AltTokens "str list"

fun token_matches :: "pattern_token \<Rightarrow> str \<Rightarrow> bool" where
  "token_matches (SingleToken expected) token \<longleftrightarrow> expected = token"
| "token_matches (AltTokens alternatives) token \<longleftrightarrow> list_ex (\<lambda>alt. alt = token) alternatives"

fun alternatives :: "pattern_token \<Rightarrow> str list" where
  "alternatives (SingleToken expected) = [expected]"
| "alternatives (AltTokens alts) = alts"

record prefix_pattern =
  first_token :: str
  rest_tokens :: "pattern_token list"

fun tokens_match :: "pattern_token list \<Rightarrow> str list \<Rightarrow> bool" where
  "tokens_match [] cmd \<longleftrightarrow> True"
| "tokens_match (t # ts) [] \<longleftrightarrow> True"
| "tokens_match (t # ts) (c # cmd) \<longleftrightarrow> token_matches t c \<and> tokens_match ts cmd"

definition matches_prefix :: "prefix_pattern \<Rightarrow> str list \<Rightarrow> str list option" where
  "matches_prefix p cmd =
     (let pattern_length = length (rest_tokens p) + 1 in
      if length cmd < pattern_length \<or> cmd ! 0 \<noteq> first_token p then None
      else if tokens_match (rest_tokens p) (take (pattern_length - 1) (drop 1 cmd))
      then Some (take pattern_length cmd) else None)"

section \<open>Rules\<close>

text \<open>A resolved program is an absolute path, here its text.\<close>

datatype rule_match =
    PrefixRuleMatch "str list" decision "str option" "str option"
  | HeuristicsRuleMatch "str list" decision

fun match_decision :: "rule_match \<Rightarrow> decision" where
  "match_decision (PrefixRuleMatch matched d program why) = d"
| "match_decision (HeuristicsRuleMatch command d) = d"

fun with_resolved_program :: "str \<Rightarrow> rule_match \<Rightarrow> rule_match" where
  "with_resolved_program p (PrefixRuleMatch matched d program why) =
     PrefixRuleMatch matched d (Some p) why"
| "with_resolved_program p m = m"

record prefix_rule =
  rule_pattern :: prefix_pattern
  rule_decision :: decision
  rule_justification :: "str option"

definition rule_program :: "prefix_rule \<Rightarrow> str" where
  "rule_program r = first_token (rule_pattern r)"

definition rule_matches :: "prefix_rule \<Rightarrow> str list \<Rightarrow> rule_match option" where
  "rule_matches r cmd = map_option
     (\<lambda>matched. PrefixRuleMatch matched (rule_decision r) None (rule_justification r))
     (matches_prefix (rule_pattern r) cmd)"

lemma tokens_match_nth:
  "length ts \<le> length cmd \<Longrightarrow>
     tokens_match ts cmd \<longleftrightarrow> (\<forall>i < length ts. token_matches (ts ! i) (cmd ! i))"
proof (induction ts cmd rule: tokens_match.induct)
  case (3 t ts c cmd)
  then show ?case by (auto simp: less_Suc_eq_0_disj)
qed auto

lemma tokens_match_take: "tokens_match ts (take (length ts) cmd) \<longleftrightarrow> tokens_match ts cmd"
  by (induction ts cmd rule: tokens_match.induct) auto

text \<open>What a prefix is: the pattern's length, its first token and each other token matched.\<close>

lemma matches_prefix_Some_iff:
  "matches_prefix p cmd = Some matched \<longleftrightarrow>
     matched = take (Suc (length (rest_tokens p))) cmd \<and> Suc (length (rest_tokens p)) \<le> length cmd
     \<and> hd cmd = first_token p
     \<and> (\<forall>i < length (rest_tokens p). token_matches (rest_tokens p ! i) (cmd ! Suc i))"
  by (cases cmd) (auto simp: matches_prefix_def Let_def tokens_match_take tokens_match_nth)

section \<open>The contract of a rule\<close>

text \<open>
  What a policy relies on: a rule matches only commands that begin with its program, and
  whether it matches depends on the rest of the command only, so replacing the first word
  by the program is harmless.
\<close>

locale keyed_rule =
  fixes program :: "'r \<Rightarrow> str"
    and matches :: "'r \<Rightarrow> str list \<Rightarrow> 'm option"
  assumes matches_program: "matches r cmd = Some m \<Longrightarrow> cmd \<noteq> [] \<and> hd cmd = program r"
begin

lemma no_match_Nil [simp]: "matches r [] = None"
  by (metis matches_program option.exhaust)

lemma other_program: "program r \<noteq> hd cmd \<Longrightarrow> matches r cmd = None"
  by (metis matches_program option.exhaust)

text \<open>Rules kept by program: looking up the first word finds every rule that matches.\<close>

definition well_keyed :: "(str \<times> 'r list) list \<Rightarrow> bool" where
  "well_keyed m \<longleftrightarrow> distinct (map fst m) \<and> (\<forall>(k, rs) \<in> set m. \<forall>r \<in> set rs. program r = k)"

lemma lookup_complete:
  assumes "well_keyed m" and "cmd \<noteq> []"
  shows "List.map_filter (\<lambda>r. matches r cmd) (concat (map snd m))
    = List.map_filter (\<lambda>r. matches r cmd) (case map_of m (hd cmd) of Some rs \<Rightarrow> rs | None \<Rightarrow> [])"
  using assms
proof (induction m)
  case (Cons e m)
  obtain k rs where e: "e = (k, rs)" by fastforce
  have keyed: "well_keyed m" and rs: "\<forall>r \<in> set rs. program r = k" and new: "k \<notin> fst ` set m"
    using Cons.prems(1) e by (auto simp: well_keyed_def)
  show ?case
  proof (cases "k = hd cmd")
    case True
    with new have "map_of m (hd cmd) = None" by (simp add: map_of_eq_None_iff)
    with Cons.IH [OF keyed] Cons.prems(2) True e show ?thesis by (simp add: map_filter_def)
  next
    case False
    with rs have "\<forall>r \<in> set rs. matches r cmd = None" by (auto intro: other_program)
    with Cons.IH [OF keyed] Cons.prems(2) False e show ?thesis
      by (simp add: map_filter_def filter_empty_conv)
  qed
qed (simp add: map_filter_def)

end

interpretation by_prefix: keyed_rule rule_program rule_matches
  by unfold_locales (auto simp: rule_matches_def rule_program_def matches_prefix_Some_iff)

end
