(* ===== verification/NetworkRule.thy ===== *)
theory NetworkRule
  imports ExecRule
begin

text \<open>
  The network rules of \<open>execpolicy/src/rule.rs\<close>: protocols and hosts, and what the
  normalisation of a host guarantees.
\<close>

section \<open>Protocols\<close>

datatype network_protocol = Http | Https | Socks5Tcp | Socks5Udp

definition parse_protocol :: "str \<Rightarrow> exec_error + network_protocol" where
  "parse_protocol raw =
     (if raw = lit ''http'' then Inr Http
      else if raw \<in> set [lit ''https'', lit ''https_connect'', lit ''http-connect''] then Inr Https
      else if raw = lit ''socks5_tcp'' then Inr Socks5Tcp
      else if raw = lit ''socks5_udp'' then Inr Socks5Udp
      else Inl (InvalidRule
        (lit ''network_rule protocol must be one of http, https, socks5_tcp, socks5_udp (got ''
         @ raw @ lit '')'')))"

fun as_policy_string :: "network_protocol \<Rightarrow> str" where
  "as_policy_string Http = lit ''http''"
| "as_policy_string Https = lit ''https''"
| "as_policy_string Socks5Tcp = lit ''socks5_tcp''"
| "as_policy_string Socks5Udp = lit ''socks5_udp''"

record network_rule =
  net_host :: str
  net_protocol :: network_protocol
  net_decision :: decision
  net_justification :: "str option"

lemma parse_as_policy_string: "parse_protocol (as_policy_string p) = Inr p"
  by (cases p) (simp_all add: parse_protocol_def lit_def)

section \<open>Hosts\<close>

abbreviation COLON :: uchar where "COLON \<equiv> 58"
abbreviation DOT :: uchar where "DOT \<equiv> 46"

definition is_port :: "str \<Rightarrow> bool" where
  "is_port port \<longleftrightarrow> port \<noteq> [] \<and> list_all is_ascii_digit port"

text \<open>A bracketed IPv6 literal, \<open>s\<close> the text after the bracket.\<close>

definition bracketed_host :: "str \<Rightarrow> str \<Rightarrow> exec_error + str" where
  "bracketed_host raw s =
     (case split_once 93 s of
        None \<Rightarrow> Inl (InvalidRule (lit ''network_rule host has an invalid bracketed IPv6 literal''))
      | Some (inside, rest) \<Rightarrow>
          (let port_ok = (case strip_prefix [COLON] rest of None \<Rightarrow> False | Some port \<Rightarrow> is_port port)
           in if rest \<noteq> [] \<and> \<not> port_ok then
                Inl (InvalidRule (lit ''network_rule host contains an unsupported suffix: '' @ raw))
              else Inr inside))"

definition strip_port :: "str \<Rightarrow> str" where
  "strip_port host =
     (if length (filter (\<lambda>c. c = COLON) host) = 1 then
        (case rsplit_once COLON host of
           Some (candidate, port) \<Rightarrow> (if candidate \<noteq> [] \<and> is_port port then candidate else host)
         | None \<Rightarrow> host)
      else host)"

definition check_host :: "str \<Rightarrow> exec_error + str" where
  "check_host host =
     (let normalized = to_ascii_lowercase (trim (trim_end_by (\<lambda>c. c = DOT) host)) in
      if normalized = [] then Inl (InvalidRule (lit ''network_rule host cannot be empty''))
      else if 42 \<in> set normalized then
        Inl (InvalidRule (lit ''network_rule host must be a specific host; wildcards are not allowed''))
      else if list_ex is_whitespace normalized then
        Inl (InvalidRule (lit ''network_rule host cannot contain whitespace''))
      else Inr normalized)"

definition normalize_network_rule_host :: "str \<Rightarrow> exec_error + str" where
  "normalize_network_rule_host raw =
     (let host = trim raw in
      if host = [] then Inl (InvalidRule (lit ''network_rule host cannot be empty''))
      else if str_contains host (lit ''://'') \<or> 47 \<in> set host \<or> 63 \<in> set host \<or> 35 \<in> set host then
        Inl (InvalidRule
          (lit ''network_rule host must be a hostname or IP literal (without scheme or path)''))
      else
        bind_result
          (case strip_prefix [91] host of
             Some s \<Rightarrow> bracketed_host raw s
           | None \<Rightarrow> Inr (strip_port host))
          check_host)"

section \<open>What a normalised host is\<close>

definition plain_host :: "str \<Rightarrow> bool" where
  "plain_host h \<longleftrightarrow> h \<noteq> [] \<and> \<not> list_ex is_whitespace h \<and> set h \<inter> {42, 47, 63, 35} = {}
     \<and> to_ascii_lowercase h = h"

lemma set_trim_start: "set (trim_start s) \<subseteq> set s"
  by (auto simp: trim_start_def dest: set_dropWhileD)

lemma set_trim_end_by: "set (trim_end_by P s) \<subseteq> set s"
  by (auto simp: trim_end_by_def dest: set_dropWhileD)

lemma set_trim: "set (trim s) \<subseteq> set s"
  using set_trim_start set_trim_end_by unfolding trim_def trim_end_def by blast

lemma lowercase_char_idem [simp]:
  "to_ascii_lowercase_char (to_ascii_lowercase_char c) = to_ascii_lowercase_char c"
  by (simp add: to_ascii_lowercase_char_def)

lemma lowercase_idem [simp]: "to_ascii_lowercase (to_ascii_lowercase s) = to_ascii_lowercase s"
  by (simp add: to_ascii_lowercase_def)

lemma lowercase_char_other:
  "to_ascii_lowercase_char c = d \<Longrightarrow> d < 97 \<Longrightarrow> c = d"
  by (simp add: to_ascii_lowercase_char_def split: if_splits)

lemma bracketed_host_subset: "bracketed_host raw s = Inr h \<Longrightarrow> set h \<subseteq> set s"
  by (auto simp: bracketed_host_def Let_def split: option.splits prod.splits if_splits
      dest!: split_once_append)

lemma strip_port_subset: "set (strip_port h) \<subseteq> set h"
  by (auto simp: strip_port_def split: option.splits prod.splits if_splits dest!: rsplit_once_append)

lemma check_host_plain:
  assumes "check_host host = Inr h" and "set host \<inter> {47, 63, 35} = {}"
  shows "plain_host h"
proof -
  let ?t = "trim (trim_end_by (\<lambda>c. c = DOT) host)"
  from assms(1) have h: "h = to_ascii_lowercase ?t" "h \<noteq> []" "42 \<notin> set h" "\<not> list_ex is_whitespace h"
    by (auto simp: check_host_def Let_def split: if_splits)
  have "set ?t \<subseteq> set host" using set_trim set_trim_end_by by blast
  then have "set h \<inter> {47, 63, 35} = {}"
    using assms(2) h(1) by (auto simp: to_ascii_lowercase_def dest!: lowercase_char_other)
  with h show ?thesis by (auto simp: plain_host_def)
qed

lemma normalized_host_plain:
  assumes "normalize_network_rule_host raw = Inr h"
  shows "plain_host h"
proof -
  let ?host = "trim raw"
  from assms have clean: "set ?host \<inter> {47, 63, 35} = {}"
    by (auto simp: normalize_network_rule_host_def Let_def split: if_splits)
  from assms obtain host where
    host: "(case strip_prefix [91] ?host of Some s \<Rightarrow> bracketed_host raw s
            | None \<Rightarrow> Inr (strip_port ?host)) = Inr host" "check_host host = Inr h"
    by (auto simp: normalize_network_rule_host_def Let_def split: if_splits)
  have "set host \<subseteq> set ?host"
    using host(1) strip_port_subset [of ?host]
    by (auto split: option.splits simp: strip_prefix_Some_iff dest!: bracketed_host_subset)
  with clean have "set host \<inter> {47, 63, 35} = {}" by blast
  with host(2) show ?thesis by (rule check_host_plain)
qed

lemma trim_plain: "\<not> list_ex is_whitespace s \<Longrightarrow> trim s = s"
proof -
  assume "\<not> list_ex is_whitespace s"
  then have "\<forall>c \<in> set s. \<not> is_whitespace c" by (auto simp: list_ex_iff)
  then have "trim_start s = s" "trim_end s = s"
    by (induction s) auto
  then show ?thesis by (simp add: trim_def)
qed

text \<open>A plain host without a colon, a leading bracket or a final dot is its own normal form.\<close>

lemma str_contains_sub: "str_contains s p \<Longrightarrow> set p \<subseteq> set s"
proof -
  have "str_find p s = Some i \<Longrightarrow> set p \<subseteq> set s" for i
  proof (induction s arbitrary: i)
    case (Cons c s)
    show ?case
    proof (cases "starts_with (c # s) p")
      case True
      then obtain t where "c # s = p @ t" by (auto simp: starts_with_def strip_prefix_Some_iff)
      then have "set (c # s) = set p \<union> set t" by simp
      then show ?thesis by blast
    qed (use Cons in auto)
  qed (auto split: if_splits)
  then show "str_contains s p \<Longrightarrow> set p \<subseteq> set s" by (auto simp: str_contains_def)
qed

lemma normalize_fixpoint:
  assumes "plain_host h" and "COLON \<notin> set h" and "hd h \<noteq> 91" and "last h \<noteq> DOT"
  shows "normalize_network_rule_host h = Inr h"
proof -
  from assms have h: "h \<noteq> []" "\<not> list_ex is_whitespace h" "to_ascii_lowercase h = h"
      "42 \<notin> set h" "47 \<notin> set h" "63 \<notin> set h" "35 \<notin> set h"
    by (auto simp: plain_host_def)
  have "\<not> str_contains h (lit ''://'')"
    using str_contains_sub [of h "lit ''://''"] h by (auto simp: lit_def)
  moreover have "strip_prefix [91] h = None" using assms(3) h(1) by (cases h) auto
  moreover have "filter (\<lambda>c. c = COLON) h = []" using assms(2) by (auto simp: filter_empty_conv)
  then have "strip_port h = h" by (simp add: strip_port_def)
  moreover have "trim_end_by (\<lambda>c. c = DOT) h = h"
    using assms(4) h(1) by (cases h rule: rev_cases) (simp_all add: trim_end_by_def)
  ultimately show ?thesis
    using h by (simp add: normalize_network_rule_host_def check_host_def trim_plain)
qed

text \<open>
  A normalised host is never empty and holds no white space, no wildcard, no character
  of a scheme or a path and no upper case letter, and a host of that kind without a colon,
  a bracket in front or a dot at the end is left as it is.
\<close>

theorem normalized_network_host:
  "(normalize_network_rule_host raw = Inr h \<longrightarrow> plain_host h)
   \<and> (plain_host raw \<and> COLON \<notin> set raw \<and> hd raw \<noteq> 91 \<and> last raw \<noteq> DOT
      \<longrightarrow> normalize_network_rule_host raw = Inr raw)"
  using normalized_host_plain normalize_fixpoint by blast

theorem normalized_network_host_witness:
  "plain_host (lit ''x.org'') \<and> normalize_network_rule_host (lit ''x.org'') = Inr (lit ''x.org'')"
proof -
  have "normalize_network_rule_host (lit '' X.org.:80 '') = Inr (lit ''x.org'')" by code_simp
  moreover have "COLON \<notin> set (lit ''x.org'')" "hd (lit ''x.org'') \<noteq> 91" "last (lit ''x.org'') \<noteq> DOT"
    by code_simp+
  ultimately show ?thesis
    using normalized_network_host [of "lit '' X.org.:80 ''" "lit ''x.org''"]
      normalized_network_host [of "lit ''x.org''" "lit ''x.org''"] by blast
qed

text \<open>
  A port before a final dot is not stripped: the dot is dropped only after the port
  was looked for, so the normalised host still has the port.
\<close>

theorem port_before_dot_kept:
  "normalize_network_rule_host (lit ''x.org:80.'') = Inr (lit ''x.org:80'')
   \<and> normalize_network_rule_host (lit ''x.org:80'') = Inr (lit ''x.org'')"
  by (intro conjI) code_simp+

end
