(* ===== verification/ExecPolicy.thy ===== *)
theory ExecPolicy
  imports NetworkRule "HOL-Library.AList" "HOL-Library.Multiset"
begin

text \<open>
  \<open>execpolicy/src/policy.rs\<close>: policies, matching a command against one, and the decision
  on it. A \<open>MultiMap\<close> or \<open>HashMap\<close> is an association list whose order stands for the
  order of the map's iteration; paths are texts, and how a text becomes an absolute path
  and what its file name is are parameters.
\<close>

section \<open>Policies\<close>

type_synonym rule_map = "(str \<times> prefix_rule list) list"

definition multimap_insert :: "str \<Rightarrow> prefix_rule \<Rightarrow> rule_map \<Rightarrow> rule_map" where
  "multimap_insert k r m =
     (case map_of m k of
        None \<Rightarrow> m @ [(k, [r])]
      | Some rs \<Rightarrow> AList.update k (rs @ [r]) m)"

record exec_policy =
  rules_by_program :: rule_map
  network_rules :: "network_rule list"
  host_executables_by_name :: "(str \<times> str list) list"

definition empty_policy :: exec_policy where
  "empty_policy = \<lparr>rules_by_program = [], network_rules = [], host_executables_by_name = []\<rparr>"

record host_path_ops =
  absolute_path :: "str \<Rightarrow> str option"
  path_file_name :: "str \<Rightarrow> str option"

definition executable_path_lookup_key :: "host_path_ops \<Rightarrow> str \<Rightarrow> str option" where
  "executable_path_lookup_key hp path = map_option executable_lookup_key (path_file_name hp path)"

definition all_rules :: "exec_policy \<Rightarrow> prefix_rule list" where
  "all_rules p = concat (map snd (rules_by_program p))"

fun render_pattern_token :: "pattern_token \<Rightarrow> str" where
  "render_pattern_token (SingleToken v) = v"
| "render_pattern_token (AltTokens alts) = [91] @ join [124] alts @ [93]"

definition allowed_prefix :: "prefix_rule \<Rightarrow> str list" where
  "allowed_prefix r = first_token (rule_pattern r)
     # map render_pattern_token (rest_tokens (rule_pattern r))"

definition get_allowed_prefixes :: "exec_policy \<Rightarrow> str list list" where
  "get_allowed_prefixes p =
     remdups_adj (sort (map allowed_prefix (filter (\<lambda>r. rule_decision r = Allow) (all_rules p))))"

text \<open>The \<open>Debug\<close> rendering of a rule is a parameter.\<close>

definition fingerprint :: "(prefix_rule \<Rightarrow> str) \<Rightarrow> exec_policy \<Rightarrow> str list" where
  "fingerprint debug p =
     sort (concat (map (\<lambda>(program, rules). map (\<lambda>r. program @ [58] @ debug r) rules)
                       (rules_by_program p)))"

definition requirements_eq :: "(prefix_rule \<Rightarrow> str) \<Rightarrow> exec_policy \<Rightarrow> exec_policy \<Rightarrow> bool" where
  "requirements_eq debug p q \<longleftrightarrow> fingerprint debug p = fingerprint debug q"

section \<open>Changing a policy\<close>

definition insert_rule :: "str \<Rightarrow> prefix_rule \<Rightarrow> exec_policy \<Rightarrow> exec_policy" where
  "insert_rule k r p = p\<lparr>rules_by_program := multimap_insert k r (rules_by_program p)\<rparr>"

definition add_prefix_rule :: "str list \<Rightarrow> decision \<Rightarrow> exec_policy \<Rightarrow> exec_error + exec_policy" where
  "add_prefix_rule tokens d p =
     (case tokens of
        [] \<Rightarrow> Inl (InvalidPattern (lit ''prefix cannot be empty''))
      | t # ts \<Rightarrow> Inr (insert_rule t
          \<lparr>rule_pattern = \<lparr>first_token = t, rest_tokens = map SingleToken ts\<rparr>,
           rule_decision = d, rule_justification = None\<rparr> p))"

definition empty_justification :: "str option \<Rightarrow> bool" where
  "empty_justification j = (case j of None \<Rightarrow> False | Some raw \<Rightarrow> trim raw = [])"

definition add_network_rule ::
    "str \<Rightarrow> network_protocol \<Rightarrow> decision \<Rightarrow> str option \<Rightarrow> exec_policy \<Rightarrow> exec_error + exec_policy" where
  "add_network_rule host protocol d j p =
     bind_result (normalize_network_rule_host host) (\<lambda>host.
       if empty_justification j then Inl (InvalidRule (lit ''justification cannot be empty''))
       else Inr (p\<lparr>network_rules := network_rules p
         @ [\<lparr>net_host = host, net_protocol = protocol, net_decision = d, net_justification = j\<rparr>]\<rparr>))"

definition set_host_executable_paths :: "str \<Rightarrow> str list \<Rightarrow> exec_policy \<Rightarrow> exec_policy" where
  "set_host_executable_paths name paths p =
     p\<lparr>host_executables_by_name := AList.update name paths (host_executables_by_name p)\<rparr>"

fun merge_rules :: "rule_map \<Rightarrow> rule_map \<Rightarrow> rule_map" where
  "merge_rules m [] = m"
| "merge_rules m ((program, rules) # ms) =
     merge_rules (fold (\<lambda>r m. multimap_insert program r m) rules m) ms"

definition merge_overlay :: "exec_policy \<Rightarrow> exec_policy \<Rightarrow> exec_policy" where
  "merge_overlay p overlay =
     \<lparr>rules_by_program = merge_rules (rules_by_program p) (rules_by_program overlay),
      network_rules = network_rules p @ network_rules overlay,
      host_executables_by_name =
        fold (\<lambda>(name, paths). AList.update name paths) (host_executables_by_name overlay)
          (host_executables_by_name p)\<rparr>"

section \<open>Network domains\<close>

definition retain_other :: "str \<Rightarrow> str list \<Rightarrow> str list" where
  "retain_other host entries = filter (\<lambda>e. e \<noteq> host) entries"

definition upsert_domain :: "str list \<Rightarrow> str \<Rightarrow> str list" where
  "upsert_domain entries host = retain_other host entries @ [host]"

definition domain_step :: "network_rule \<Rightarrow> str list \<times> str list \<Rightarrow> str list \<times> str list" where
  "domain_step r st =
     (case st of (allowed, denied) \<Rightarrow>
        (case net_decision r of
           Allow \<Rightarrow> (upsert_domain allowed (net_host r), retain_other (net_host r) denied)
         | Forbidden \<Rightarrow> (retain_other (net_host r) allowed, upsert_domain denied (net_host r))
         | Prompt \<Rightarrow> (allowed, denied)))"

definition compiled_network_domains :: "exec_policy \<Rightarrow> str list \<times> str list" where
  "compiled_network_domains p = fold domain_step (network_rules p) ([], [])"

section \<open>Matching a command\<close>

definition match_exact_rules :: "exec_policy \<Rightarrow> str list \<Rightarrow> rule_match list option" where
  "match_exact_rules p cmd =
     (case cmd of
        [] \<Rightarrow> None
      | first # args \<Rightarrow>
          Some (case map_of (rules_by_program p) first of
                  Some rules \<Rightarrow> List.map_filter (\<lambda>r. rule_matches r cmd) rules
                | None \<Rightarrow> []))"

definition match_host_executable_rules :: "host_path_ops \<Rightarrow> exec_policy \<Rightarrow> str list \<Rightarrow> rule_match list" where
  "match_host_executable_rules hp p cmd =
     (case cmd of
        [] \<Rightarrow> []
      | first # args \<Rightarrow>
     (case absolute_path hp first of
        None \<Rightarrow> []
      | Some program \<Rightarrow>
     (case executable_path_lookup_key hp program of
        None \<Rightarrow> []
      | Some basename \<Rightarrow>
     (case map_of (rules_by_program p) basename of
        None \<Rightarrow> []
      | Some rules \<Rightarrow>
          (if (case map_of (host_executables_by_name p) basename of
                 Some paths \<Rightarrow> \<not> list_ex (\<lambda>path. path = program) paths
               | None \<Rightarrow> False)
           then []
           else map (with_resolved_program program)
                  (List.map_filter (\<lambda>r. rule_matches r (basename # args)) rules))))))"

definition matches_for_command_with_options ::
    "host_path_ops \<Rightarrow> exec_policy \<Rightarrow> str list \<Rightarrow> (str list \<Rightarrow> decision) option \<Rightarrow> bool \<Rightarrow> rule_match list" where
  "matches_for_command_with_options hp p cmd heuristics_fallback resolve_host_executables =
     (let matched_rules =
        (case match_exact_rules p cmd of
           Some (m # ms) \<Rightarrow> m # ms
         | _ \<Rightarrow> (if resolve_host_executables then match_host_executable_rules hp p cmd else []))
      in case (matched_rules, heuristics_fallback) of
           ([], Some fallback) \<Rightarrow> [HeuristicsRuleMatch cmd (fallback cmd)]
         | _ \<Rightarrow> matched_rules)"

definition matches_for_command ::
    "host_path_ops \<Rightarrow> exec_policy \<Rightarrow> str list \<Rightarrow> (str list \<Rightarrow> decision) option \<Rightarrow> rule_match list" where
  "matches_for_command hp p cmd fallback = matches_for_command_with_options hp p cmd fallback False"

section \<open>Evaluations\<close>

record evaluation =
  eval_decision :: decision
  matched_rules :: "rule_match list"

fun is_heuristics :: "rule_match \<Rightarrow> bool" where
  "is_heuristics (HeuristicsRuleMatch cmd d) = True"
| "is_heuristics (PrefixRuleMatch matched d program why) = False"

definition is_match :: "evaluation \<Rightarrow> bool" where
  "is_match e \<longleftrightarrow> list_ex (\<lambda>m. \<not> is_heuristics m) (matched_rules e)"

text \<open>\<open>Iterator::max\<close>, and the panic of \<open>from_matches\<close> without a match.\<close>

fun max_decision :: "decision list \<Rightarrow> decision option" where
  "max_decision [] = None"
| "max_decision (d # ds) = Some (fold max ds d)"

definition from_matches :: "rule_match list \<Rightarrow> exec_error fault + evaluation" where
  "from_matches ms =
     (case max_decision (map match_decision ms) of
        None \<Rightarrow> Inl Panic
      | Some d \<Rightarrow> Inr \<lparr>eval_decision = d, matched_rules = ms\<rparr>)"

definition check_with_options ::
    "host_path_ops \<Rightarrow> exec_policy \<Rightarrow> str list \<Rightarrow> (str list \<Rightarrow> decision) \<Rightarrow> bool
     \<Rightarrow> exec_error fault + evaluation" where
  "check_with_options hp p cmd fallback resolve =
     from_matches (matches_for_command_with_options hp p cmd (Some fallback) resolve)"

definition check_command ::
    "host_path_ops \<Rightarrow> exec_policy \<Rightarrow> str list \<Rightarrow> (str list \<Rightarrow> decision)
     \<Rightarrow> exec_error fault + evaluation" where
  "check_command hp p cmd fallback = check_with_options hp p cmd fallback False"

definition check_multiple_with_options ::
    "host_path_ops \<Rightarrow> exec_policy \<Rightarrow> str list list \<Rightarrow> (str list \<Rightarrow> decision) \<Rightarrow> bool
     \<Rightarrow> exec_error fault + evaluation" where
  "check_multiple_with_options hp p cmds fallback resolve =
     from_matches (concat (map (\<lambda>cmd.
       matches_for_command_with_options hp p cmd (Some fallback) resolve) cmds))"

definition check_multiple ::
    "host_path_ops \<Rightarrow> exec_policy \<Rightarrow> str list list \<Rightarrow> (str list \<Rightarrow> decision)
     \<Rightarrow> exec_error fault + evaluation" where
  "check_multiple hp p cmds fallback = check_multiple_with_options hp p cmds fallback False"

end
