(* ===== verification/ExecPolicyCorrect.thy ===== *)
theory ExecPolicyCorrect
  imports ExecPolicy
begin

text \<open>
  Properties of policies: the rules that decide are all the rules that match, the
  strictest decides, an overlay cannot weaken what a rule forbids, and the compiled
  domains follow the last rule of a host.
\<close>

section \<open>Keyed rules\<close>

definition policy_keyed :: "exec_policy \<Rightarrow> bool" where
  "policy_keyed p \<longleftrightarrow> by_prefix.well_keyed (rules_by_program p)"

lemma map_of_multimap_insert:
  "map_of (multimap_insert k r m) = (map_of m)(k \<mapsto> (case map_of m k of None \<Rightarrow> [] | Some rs \<Rightarrow> rs) @ [r])"
  by (auto simp: multimap_insert_def update_conv' map_add_def split: option.splits intro!: ext)

lemma dom_multimap_insert: "fst ` set (multimap_insert k r m) = insert k (fst ` set m)"
proof -
  have "fst ` set (multimap_insert k r m) = dom (map_of (multimap_insert k r m))"
    by (simp add: dom_map_of_conv_image_fst)
  then show ?thesis by (simp add: map_of_multimap_insert dom_map_of_conv_image_fst)
qed

lemma distinct_multimap_insert:
  "distinct (map fst m) \<Longrightarrow> distinct (map fst (multimap_insert k r m))"
  by (auto simp: multimap_insert_def distinct_update map_of_eq_None_iff split: option.split)

lemma well_keyed_iff:
  "by_prefix.well_keyed m \<longleftrightarrow> distinct (map fst m) \<and> (\<forall>k rs. map_of m k = Some rs \<longrightarrow> (\<forall>r \<in> set rs. rule_program r = k))"
  unfolding by_prefix.well_keyed_def by (fastforce simp: map_of_eq_Some_iff)

lemma well_keyed_insert:
  "by_prefix.well_keyed m \<Longrightarrow> rule_program r = k \<Longrightarrow> by_prefix.well_keyed (multimap_insert k r m)"
  unfolding well_keyed_iff
  by (auto simp: distinct_multimap_insert map_of_multimap_insert split: option.splits)

lemma well_keyed_fold:
  "by_prefix.well_keyed m \<Longrightarrow> \<forall>r \<in> set rs. rule_program r = k \<Longrightarrow>
     by_prefix.well_keyed (fold (\<lambda>r m. multimap_insert k r m) rs m)"
  by (induction rs arbitrary: m) (simp_all add: well_keyed_insert)

lemma well_keyed_merge:
  "by_prefix.well_keyed m \<Longrightarrow> \<forall>(k, rs) \<in> set ms. \<forall>r \<in> set rs. rule_program r = k \<Longrightarrow>
     by_prefix.well_keyed (merge_rules m ms)"
  by (induction m ms rule: merge_rules.induct) (auto simp: well_keyed_fold)

lemma keyed_empty: "policy_keyed empty_policy"
  by (simp add: policy_keyed_def empty_policy_def by_prefix.well_keyed_def)

lemma keyed_insert_rule: "policy_keyed p \<Longrightarrow> rule_program r = k \<Longrightarrow> policy_keyed (insert_rule k r p)"
  by (simp add: policy_keyed_def insert_rule_def well_keyed_insert)

lemma keyed_add_prefix_rule: "policy_keyed p \<Longrightarrow> add_prefix_rule ts d p = Inr q \<Longrightarrow> policy_keyed q"
  by (auto simp: add_prefix_rule_def rule_program_def split: list.splits intro!: keyed_insert_rule)

lemma keyed_merge: "policy_keyed p \<Longrightarrow> policy_keyed q \<Longrightarrow> policy_keyed (merge_overlay p q)"
  by (auto simp: policy_keyed_def merge_overlay_def by_prefix.well_keyed_def [of "rules_by_program q"]
      intro!: well_keyed_merge)

section \<open>The rules that decide\<close>

lemma max_decision_Max: "ds \<noteq> [] \<Longrightarrow> max_decision ds = Some (Max (set ds))"
  using Max.set_eq_fold [of "hd ds" "tl ds"] by (cases ds) simp_all

lemma from_matches_Max:
  "ms \<noteq> [] \<Longrightarrow> from_matches ms = Inr \<lparr>eval_decision = Max (match_decision ` set ms), matched_rules = ms\<rparr>"
  by (simp add: from_matches_def max_decision_Max)

lemma matches_not_empty: "matches_for_command_with_options hp p cmd (Some fallback) resolve \<noteq> []"
  by (auto simp: matches_for_command_with_options_def Let_def split: list.split option.split)

text \<open>
  The strictest matching rule decides. Checking commands panics only when there is none;
  otherwise the evaluation holds the matches of each command in turn, at least one for
  each, and its decision is the greatest of theirs: forbidden over prompt over allow.
\<close>

theorem check_multiple_strictest:
  "if cmds = [] then check_multiple_with_options hp p cmds fallback resolve = Inl Panic
   else (\<exists>e. check_multiple_with_options hp p cmds fallback resolve = Inr e
     \<and> matched_rules e = concat (map (\<lambda>cmd.
          matches_for_command_with_options hp p cmd (Some fallback) resolve) cmds)
     \<and> list_all (\<lambda>cmd. \<exists>m \<in> set (matched_rules e).
          m \<in> set (matches_for_command_with_options hp p cmd (Some fallback) resolve)) cmds
     \<and> eval_decision e = Max (match_decision ` set (matched_rules e)))"
proof (cases "cmds = []")
  case True
  then show ?thesis by (simp add: check_multiple_with_options_def from_matches_def)
next
  case False
  let ?ms = "concat (map (\<lambda>cmd. matches_for_command_with_options hp p cmd (Some fallback) resolve) cmds)"
  have some: "\<exists>m \<in> set ?ms. m \<in> set (matches_for_command_with_options hp p cmd (Some fallback) resolve)"
    if "cmd \<in> set cmds" for cmd
  proof -
    obtain m where "m \<in> set (matches_for_command_with_options hp p cmd (Some fallback) resolve)"
      using matches_not_empty [of hp p cmd fallback resolve] last_in_set by blast
    with that show ?thesis by auto
  qed
  with False have "?ms \<noteq> []" by (cases cmds) fastforce+
  from from_matches_Max [OF this] some False show ?thesis
    by (simp add: check_multiple_with_options_def list_all_iff)
qed

lemma match_exact_all:
  assumes "policy_keyed p" and "cmd \<noteq> []"
  shows "match_exact_rules p cmd = Some (List.map_filter (\<lambda>r. rule_matches r cmd) (all_rules p))"
  using by_prefix.lookup_complete [OF assms(1) [unfolded policy_keyed_def] assms(2)] assms(2)
  by (cases cmd) (auto simp: match_exact_rules_def all_rules_def map_filter_simps split: option.splits)

lemma matching_rule:
  assumes "policy_keyed p" and "\<exists>r \<in> set (all_rules p). rule_matches r cmd \<noteq> None"
  shows "matches_for_command_with_options hp p cmd fb resolve
    = List.map_filter (\<lambda>r. rule_matches r cmd) (all_rules p)"
    and "List.map_filter (\<lambda>r. rule_matches r cmd) (all_rules p) \<noteq> []"
proof -
  from assms(2) show ne: "List.map_filter (\<lambda>r. rule_matches r cmd) (all_rules p) \<noteq> []"
    by (auto simp: map_filter_def filter_empty_conv)
  have "cmd \<noteq> []" using assms(2) by (cases cmd) auto
  from match_exact_all [OF assms(1) this] ne
  show "matches_for_command_with_options hp p cmd fb resolve
    = List.map_filter (\<lambda>r. rule_matches r cmd) (all_rules p)"
    by (cases "List.map_filter (\<lambda>r. rule_matches r cmd) (all_rules p)")
       (auto simp: matches_for_command_with_options_def)
qed

text \<open>
  No matching rule is missed: though a policy looks up only the rules under the first
  word of the command, as soon as one of its rules matches, the matches are those of all
  its rules, and neither the heuristics nor the names of host executables are asked.
\<close>

theorem all_matching_rules_decide:
  assumes "policy_keyed p" and "\<exists>r \<in> set (all_rules p). rule_matches r cmd \<noteq> None"
  shows "matches_for_command_with_options hp p cmd fb resolve
    = List.map_filter (\<lambda>r. rule_matches r cmd) (all_rules p)"
  by (rule matching_rule [OF assms])

section \<open>Overlays\<close>

definition rules_of :: "rule_map \<Rightarrow> prefix_rule multiset" where
  "rules_of m = mset (concat (map snd m))"

lemma update_rules_of:
  assumes "distinct (map fst m)" and "map_of m k = Some rs"
  shows "rules_of (AList.update k (rs @ [r]) m) = add_mset r (rules_of m)"
  using assms
proof (induction m)
  case (Cons e m)
  then show ?case by (cases e) (auto simp: rules_of_def)
qed simp

lemma multimap_insert_rules:
  "distinct (map fst m) \<Longrightarrow> rules_of (multimap_insert k r m) = add_mset r (rules_of m)"
  by (auto simp: multimap_insert_def update_rules_of split: option.split) (simp add: rules_of_def)

lemma fold_insert_rules:
  "distinct (map fst m) \<Longrightarrow>
     rules_of (fold (\<lambda>r m. multimap_insert k r m) rs m) = rules_of m + mset rs
     \<and> distinct (map fst (fold (\<lambda>r m. multimap_insert k r m) rs m))"
  by (induction rs arbitrary: m) (auto simp: multimap_insert_rules distinct_multimap_insert)

lemma merge_rules_of:
  "distinct (map fst m) \<Longrightarrow> rules_of (merge_rules m ms) = rules_of m + rules_of ms"
  by (induction m ms rule: merge_rules.induct)
     (auto simp: fold_insert_rules, auto simp: rules_of_def)

lemma merge_overlay_rules:
  "policy_keyed p \<Longrightarrow> mset (all_rules (merge_overlay p q)) = mset (all_rules p) + mset (all_rules q)"
  using merge_rules_of [of "rules_by_program p" "rules_by_program q"]
  by (simp add: merge_overlay_def all_rules_def rules_of_def policy_keyed_def by_prefix.well_keyed_def)

lemma check_matching:
  assumes "policy_keyed p" and "\<exists>r \<in> set (all_rules p). rule_matches r cmd \<noteq> None"
  shows "check_with_options hp p cmd fallback resolve =
    Inr \<lparr>eval_decision = Max (match_decision ` set (List.map_filter (\<lambda>r. rule_matches r cmd) (all_rules p))),
         matched_rules = List.map_filter (\<lambda>r. rule_matches r cmd) (all_rules p)\<rparr>"
  using matching_rule [OF assms] from_matches_Max by (simp add: check_with_options_def)

lemma overlay_decision:
  assumes "policy_keyed p" and "policy_keyed q"
    and "\<exists>r \<in> set (all_rules p). rule_matches r cmd \<noteq> None"
    and "check_with_options hp p cmd fallback resolve = Inr e"
  shows "\<exists>e'. check_with_options hp (merge_overlay p q) cmd fallback' resolve' = Inr e'
    \<and> eval_decision e \<le> eval_decision e'"
proof -
  let ?f = "\<lambda>rs. List.map_filter (\<lambda>r. rule_matches r cmd) rs"
  have all: "set (all_rules (merge_overlay p q)) = set (all_rules p) \<union> set (all_rules q)"
    using merge_overlay_rules [OF assms(1), of q] by (metis set_mset_mset set_mset_union)
  then have some: "\<exists>r \<in> set (all_rules (merge_overlay p q)). rule_matches r cmd \<noteq> None"
    using assms(3) by blast
  have "match_decision ` set (?f (all_rules p)) \<subseteq> match_decision ` set (?f (all_rules (merge_overlay p q)))"
    using all by (auto simp: map_filter_def)
  moreover have "?f (all_rules p) \<noteq> []" by (rule matching_rule [OF assms(1,3)])
  ultimately have "Max (match_decision ` set (?f (all_rules p)))
      \<le> Max (match_decision ` set (?f (all_rules (merge_overlay p q))))"
    by (intro Max_mono) simp_all
  with check_matching [OF keyed_merge [OF assms(1,2)] some, of hp fallback' resolve']
    check_matching [OF assms(1,3), of hp fallback resolve] assms(4)
  show ?thesis by auto
qed


section \<open>A sample policy\<close>

definition sample_base :: exec_policy where
  "sample_base = insert_rule (lit ''git'')
     \<lparr>rule_pattern = \<lparr>first_token = lit ''git'', rest_tokens = [AltTokens [lit ''push'', lit ''fetch'']]\<rparr>,
      rule_decision = Prompt, rule_justification = None\<rparr>
     (insert_rule (lit ''ls'')
       \<lparr>rule_pattern = \<lparr>first_token = lit ''ls'', rest_tokens = []\<rparr>,
        rule_decision = Allow, rule_justification = None\<rparr> empty_policy)"

definition sample_overlay :: exec_policy where
  "sample_overlay = insert_rule (lit ''git'')
     \<lparr>rule_pattern = \<lparr>first_token = lit ''git'', rest_tokens = [SingleToken (lit ''push'')]\<rparr>,
      rule_decision = Forbidden, rule_justification = None\<rparr> empty_policy"

definition no_paths :: host_path_ops where
  "no_paths = \<lparr>absolute_path = (\<lambda>s. None), path_file_name = (\<lambda>s. None)\<rparr>"

lemma sample_keyed: "policy_keyed sample_base" "policy_keyed sample_overlay"
  unfolding sample_base_def sample_overlay_def
  by (intro keyed_insert_rule keyed_empty; simp add: rule_program_def)+

lemma sample_matches:
  "\<exists>r \<in> set (all_rules sample_base). rule_matches r [lit ''git'', lit ''push''] \<noteq> None"
proof -
  have "list_ex (\<lambda>r. rule_matches r [lit ''git'', lit ''push''] \<noteq> None) (all_rules sample_base)"
    by code_simp
  then show ?thesis by (simp add: list_ex_iff)
qed

theorem all_matching_rules_decide_witness:
  "matches_for_command_with_options no_paths sample_base [lit ''git'', lit ''push''] None True
    = List.map_filter (\<lambda>r. rule_matches r [lit ''git'', lit ''push'']) (all_rules sample_base)"
  by (rule all_matching_rules_decide [OF sample_keyed(1) sample_matches])


section \<open>Domains\<close>

text \<open>The last rule for a host that allows or forbids it.\<close>

definition host_verdict :: "network_rule list \<Rightarrow> str \<Rightarrow> decision option" where
  "host_verdict rules h =
     (let rs = filter (\<lambda>r. net_host r = h \<and> net_decision r \<noteq> Prompt) rules in
      if rs = [] then None else Some (net_decision (last rs)))"

lemma host_verdict_Nil [simp]: "host_verdict [] h = None"
  by (simp add: host_verdict_def)

lemma host_verdict_snoc [simp]:
  "host_verdict (rules @ [r]) h =
     (if net_host r = h \<and> net_decision r \<noteq> Prompt then Some (net_decision r) else host_verdict rules h)"
  by (simp add: host_verdict_def Let_def)

definition domains_follow :: "network_rule list \<Rightarrow> str list \<times> str list \<Rightarrow> bool" where
  "domains_follow rules st \<longleftrightarrow>
     distinct (fst st) \<and> distinct (snd st)
     \<and> (\<forall>h. (h \<in> set (fst st) \<longleftrightarrow> host_verdict rules h = Some Allow)
           \<and> (h \<in> set (snd st) \<longleftrightarrow> host_verdict rules h = Some Forbidden))"

lemma domains_follow_step:
  "domains_follow rules st \<Longrightarrow> domains_follow (rules @ [r]) (domain_step r st)"
  by (cases st; cases "net_decision r")
     (auto simp: domains_follow_def domain_step_def upsert_domain_def retain_other_def)

lemma domains_follow_fold: "domains_follow rules (fold domain_step rules ([], []))"
  by (induction rules rule: rev_induct) (simp_all add: domains_follow_step, simp add: domains_follow_def)

text \<open>
  The last rule of a host decides its compiled domain: a host is in the allowed list
  exactly if the last of its rules that is not a prompt allows it, in the denied list
  exactly if that one forbids it, so no host is in both, and neither list repeats one.
\<close>

theorem compiled_domains_follow_last_rule:
  "distinct (fst (compiled_network_domains p)) \<and> distinct (snd (compiled_network_domains p))
   \<and> set (fst (compiled_network_domains p)) = {h. host_verdict (network_rules p) h = Some Allow}
   \<and> set (snd (compiled_network_domains p)) = {h. host_verdict (network_rules p) h = Some Forbidden}"
  using domains_follow_fold [of "network_rules p"]
  by (auto simp: compiled_network_domains_def domains_follow_def)

section \<open>Lists that do not depend on the order\<close>

lemma fingerprint_mset:
  "fingerprint debug p = sorted_list_of_multiset (image_mset (\<lambda>(k, r). k @ [58] @ debug r)
     (mset (concat (map (\<lambda>(k, rs). map (Pair k) rs) (rules_by_program p)))))"
proof -
  have "concat (map (\<lambda>(k, rs). map (\<lambda>r. k @ [58] @ debug r) rs) m)
    = map (\<lambda>(k, r). k @ [58] @ debug r) (concat (map (\<lambda>(k, rs). map (Pair k) rs) m))" for m
    by (induction m) auto
  then show ?thesis
    by (simp add: fingerprint_def sorted_list_of_multiset_mset flip: mset_map)
qed

lemma distinct_remdups_adj_sorted: "sorted xs \<Longrightarrow> distinct (remdups_adj xs)"
proof (induction xs rule: remdups_adj.induct)
  case (3 x y xs)
  then have "x \<notin> set (y # xs)" if "x \<noteq> y" using that by (auto simp: le_less)
  with 3 show ?case by auto
qed simp_all

text \<open>
  What a policy shows of its rules does not depend on the order in which its map is
  iterated: the allowed prefixes are those of the allow rules, sorted and each once, and
  two policies with the same rules under the same programs are equal requirements.
\<close>

theorem policy_views_order_independent:
  "sorted (get_allowed_prefixes p) \<and> distinct (get_allowed_prefixes p)
   \<and> set (get_allowed_prefixes p) = allowed_prefix ` {r \<in> set (all_rules p). rule_decision r = Allow}
   \<and> (mset (concat (map (\<lambda>(k, rs). map (Pair k) rs) (rules_by_program p)))
        = mset (concat (map (\<lambda>(k, rs). map (Pair k) rs) (rules_by_program q)))
      \<longrightarrow> requirements_eq debug p q)"
  unfolding get_allowed_prefixes_def requirements_eq_def fingerprint_mset
  by (auto simp: sorted_remdups_adj distinct_remdups_adj_sorted)

definition allowed_text :: "prefix_rule \<Rightarrow> str" where
  "allowed_text r = concat (allowed_prefix r)"

definition sample_rule :: "str \<Rightarrow> prefix_rule" where
  "sample_rule t = \<lparr>rule_pattern = \<lparr>first_token = t, rest_tokens = []\<rparr>,
     rule_decision = Allow, rule_justification = None\<rparr>"

theorem policy_views_order_independent_witness:
  "requirements_eq allowed_text
     (empty_policy\<lparr>rules_by_program := [(lit ''a'', [sample_rule (lit ''a'')]), (lit ''b'', [sample_rule (lit ''b'')])]\<rparr>)
     (empty_policy\<lparr>rules_by_program := [(lit ''b'', [sample_rule (lit ''b'')]), (lit ''a'', [sample_rule (lit ''a'')])]\<rparr>)"
  using policy_views_order_independent
    [of "empty_policy\<lparr>rules_by_program := [(lit ''a'', [sample_rule (lit ''a'')]), (lit ''b'', [sample_rule (lit ''b'')])]\<rparr>"
        "empty_policy\<lparr>rules_by_program := [(lit ''b'', [sample_rule (lit ''b'')]), (lit ''a'', [sample_rule (lit ''a'')])]\<rparr>"
        allowed_text]
  by (simp add: add_mset_commute)

end
