(* ===== verification/ExecBuilder.thy ===== *)
theory ExecBuilder
  imports ExecPolicyCorrect
begin

text \<open>
  \<open>execpolicy/src/parser.rs\<close> and the validation of examples in \<open>rule.rs\<close>: the built-in
  functions a policy file calls, the builder they fill, and the check of the examples.
  Starlark values, \<open>shlex\<close>, \<open>Debug\<close> renderings and paths are parameters; a policy file is
  the sequence of built-in calls its evaluation makes.
\<close>

section \<open>What is outside\<close>

record 'v builtin_ops =
  unpack_str :: "'v \<Rightarrow> str option"
  list_content :: "'v \<Rightarrow> 'v list option"
  type_name :: "'v \<Rightarrow> str"
  shlex_split :: "str \<Rightarrow> str list option"
  shlex_join :: "str list \<Rightarrow> str option"
  debug_rule :: "prefix_rule \<Rightarrow> str"
  debug_match :: "rule_match \<Rightarrow> str"
  is_absolute :: "str \<Rightarrow> bool"
  path_error :: "str \<Rightarrow> str"
  single_component :: "str \<Rightarrow> bool"

text \<open>\<open>collect::<Result<Vec<_>, _>>()\<close>: the first error, or all values.\<close>

fun collect_results :: "('e + 'a) list \<Rightarrow> 'e + 'a list" where
  "collect_results [] = Inr []"
| "collect_results (r # rs) =
     bind_result r (\<lambda>x. bind_result (collect_results rs) (\<lambda>xs. Inr (x # xs)))"

section \<open>Arguments\<close>

definition parse_pattern_token :: "'v builtin_ops \<Rightarrow> 'v \<Rightarrow> exec_error + pattern_token" where
  "parse_pattern_token ops v =
     (case unpack_str ops v of
        Some s \<Rightarrow> Inr (SingleToken s)
      | None \<Rightarrow>
     (case list_content ops v of
        Some vs \<Rightarrow>
          bind_result
            (collect_results (map (\<lambda>v. case unpack_str ops v of
               Some s \<Rightarrow> Inr s
             | None \<Rightarrow> Inl (InvalidPattern
                 (lit ''pattern alternative must be a string (got '' @ type_name ops v @ lit '')''))) vs))
            (\<lambda>tokens. case tokens of
               [] \<Rightarrow> Inl (InvalidPattern (lit ''pattern alternatives cannot be empty''))
             | [single] \<Rightarrow> Inr (SingleToken single)
             | _ \<Rightarrow> Inr (AltTokens tokens))
      | None \<Rightarrow> Inl (InvalidPattern
          (lit ''pattern element must be a string or list of strings (got ''
           @ type_name ops v @ lit '')''))))"

definition parse_pattern :: "'v builtin_ops \<Rightarrow> 'v list \<Rightarrow> exec_error + pattern_token list" where
  "parse_pattern ops items =
     bind_result (collect_results (map (parse_pattern_token ops) items)) (\<lambda>tokens.
       if tokens = [] then Inl (InvalidPattern (lit ''pattern cannot be empty'')) else Inr tokens)"

definition parse_string_example :: "'v builtin_ops \<Rightarrow> str \<Rightarrow> exec_error + str list" where
  "parse_string_example ops raw =
     (case shlex_split ops raw of
        None \<Rightarrow> Inl (InvalidExample (lit ''example string has invalid shell syntax''))
      | Some tokens \<Rightarrow>
          (if tokens = [] then Inl (InvalidExample (lit ''example cannot be an empty string''))
           else Inr tokens))"

definition parse_list_example :: "'v builtin_ops \<Rightarrow> 'v list \<Rightarrow> exec_error + str list" where
  "parse_list_example ops vs =
     bind_result
       (collect_results (map (\<lambda>v. case unpack_str ops v of
          Some s \<Rightarrow> Inr s
        | None \<Rightarrow> Inl (InvalidExample
            (lit ''example tokens must be strings (got '' @ type_name ops v @ lit '')''))) vs))
       (\<lambda>tokens. if tokens = [] then Inl (InvalidExample (lit ''example cannot be an empty list''))
                 else Inr tokens)"

definition parse_example :: "'v builtin_ops \<Rightarrow> 'v \<Rightarrow> exec_error + str list" where
  "parse_example ops v =
     (case unpack_str ops v of
        Some raw \<Rightarrow> parse_string_example ops raw
      | None \<Rightarrow>
     (case list_content ops v of
        Some vs \<Rightarrow> parse_list_example ops vs
      | None \<Rightarrow> Inl (InvalidExample
          (lit ''example must be a string or list of strings (got '' @ type_name ops v @ lit '')''))))"

definition parse_examples :: "'v builtin_ops \<Rightarrow> 'v list option \<Rightarrow> exec_error + str list list" where
  "parse_examples ops examples =
     (case examples of
        None \<Rightarrow> Inr []
      | Some vs \<Rightarrow> collect_results (map (parse_example ops) vs))"

definition parse_literal_absolute_path ::
    "'v builtin_ops \<Rightarrow> host_path_ops \<Rightarrow> str \<Rightarrow> exec_error + str" where
  "parse_literal_absolute_path ops hp raw =
     (if \<not> is_absolute ops raw then
        Inl (InvalidRule (lit ''host_executable paths must be absolute (got '' @ raw @ lit '')''))
      else case absolute_path hp raw of
        Some path \<Rightarrow> Inr path
      | None \<Rightarrow> Inl (InvalidRule
          (lit ''invalid absolute path `'' @ raw @ lit ''`: '' @ path_error ops raw)))"

definition validate_host_executable_name ::
    "'v builtin_ops \<Rightarrow> host_path_ops \<Rightarrow> str \<Rightarrow> exec_error + unit" where
  "validate_host_executable_name ops hp name =
     (if name = [] then Inl (InvalidRule (lit ''host_executable name cannot be empty''))
      else if \<not> single_component ops name \<or> path_file_name hp name \<noteq> Some name then
        Inl (InvalidRule (lit ''host_executable name must be a bare executable name (got ''
          @ name @ lit '')''))
      else Inr ())"

definition parse_network_rule_decision :: "str \<Rightarrow> exec_error + decision" where
  "parse_network_rule_decision raw =
     (if raw = lit ''deny'' then Inr Forbidden else parse_decision raw)"

definition parse_justification :: "str option \<Rightarrow> exec_error + str option" where
  "parse_justification j =
     (if empty_justification j then Inl (InvalidRule (lit ''justification cannot be empty''))
      else Inr j)"

section \<open>The builder\<close>

record pending_validation =
  pv_rules :: "prefix_rule list"
  pv_matches :: "str list list"
  pv_not_matches :: "str list list"
  pv_location :: "error_location option"

record policy_builder =
  pb_rules :: rule_map
  pb_network :: "network_rule list"
  pb_hosts :: "(str \<times> str list) list"
  pb_pending :: "pending_validation list"

definition new_builder :: policy_builder where
  "new_builder = \<lparr>pb_rules = [], pb_network = [], pb_hosts = [], pb_pending = []\<rparr>"

definition builder_add_rule :: "prefix_rule \<Rightarrow> policy_builder \<Rightarrow> policy_builder" where
  "builder_add_rule r b = b\<lparr>pb_rules := multimap_insert (rule_program r) r (pb_rules b)\<rparr>"

definition build_policy :: "policy_builder \<Rightarrow> exec_policy" where
  "build_policy b = \<lparr>rules_by_program = pb_rules b, network_rules = pb_network b,
     host_executables_by_name = pb_hosts b\<rparr>"

section \<open>Examples\<close>

definition render_example :: "'v builtin_ops \<Rightarrow> str list \<Rightarrow> str" where
  "render_example ops ex =
     (case shlex_join ops ex of Some s \<Rightarrow> s | None \<Rightarrow> lit ''unable to render example'')"

definition validate_match_examples ::
    "'v builtin_ops \<Rightarrow> host_path_ops \<Rightarrow> exec_policy \<Rightarrow> prefix_rule list \<Rightarrow> str list list \<Rightarrow> exec_error + unit" where
  "validate_match_examples ops hp p rules examples =
     (let unmatched = filter (\<lambda>ex. matches_for_command_with_options hp p ex None True = []) examples in
      if unmatched = [] then Inr ()
      else Inl (ExampleDidNotMatch (map (debug_rule ops) rules) (map (render_example ops) unmatched) None))"

fun validate_not_match_examples ::
    "'v builtin_ops \<Rightarrow> host_path_ops \<Rightarrow> exec_policy \<Rightarrow> str list list \<Rightarrow> exec_error + unit" where
  "validate_not_match_examples ops hp p [] = Inr ()"
| "validate_not_match_examples ops hp p (ex # exs) =
     (case matches_for_command_with_options hp p ex None True of
        m # ms \<Rightarrow> Inl (ExampleDidMatch (debug_match ops m) (render_example ops ex) None)
      | [] \<Rightarrow> validate_not_match_examples ops hp p exs)"

definition attach_validation_location :: "error_location option \<Rightarrow> exec_error + unit \<Rightarrow> exec_error + unit" where
  "attach_validation_location l r =
     (case (r, l) of (Inl e, Some loc) \<Rightarrow> Inl (with_location loc e) | _ \<Rightarrow> r)"

definition rules_policy :: "prefix_rule list \<Rightarrow> (str \<times> str list) list \<Rightarrow> exec_policy" where
  "rules_policy rules hosts =
     \<lparr>rules_by_program = fold (\<lambda>r m. multimap_insert (rule_program r) r m) rules [],
      network_rules = [], host_executables_by_name = hosts\<rparr>"

definition validate_pending ::
    "'v builtin_ops \<Rightarrow> host_path_ops \<Rightarrow> (str \<times> str list) list \<Rightarrow> pending_validation \<Rightarrow> exec_error + unit" where
  "validate_pending ops hp hosts v =
     (let p = rules_policy (pv_rules v) hosts in
      bind_result
        (attach_validation_location (pv_location v)
          (validate_not_match_examples ops hp p (pv_not_matches v)))
        (\<lambda>_. attach_validation_location (pv_location v)
          (validate_match_examples ops hp p (pv_rules v) (pv_matches v))))"

definition validate_pending_examples_from ::
    "'v builtin_ops \<Rightarrow> host_path_ops \<Rightarrow> nat \<Rightarrow> policy_builder \<Rightarrow> exec_error + unit" where
  "validate_pending_examples_from ops hp start b =
     bind_result (collect_results (map (validate_pending ops hp (pb_hosts b)) (drop start (pb_pending b))))
       (\<lambda>_. Inr ())"

section \<open>The built-in functions\<close>

definition expand_pattern :: "pattern_token list \<Rightarrow> decision \<Rightarrow> str option \<Rightarrow> prefix_rule list" where
  "expand_pattern tokens d j =
     map (\<lambda>head. \<lparr>rule_pattern = \<lparr>first_token = head, rest_tokens = tl tokens\<rparr>,
                  rule_decision = d, rule_justification = j\<rparr>) (alternatives (hd tokens))"

definition prefix_rule_builtin ::
    "'v builtin_ops \<Rightarrow> 'v list \<Rightarrow> str option \<Rightarrow> 'v list option \<Rightarrow> 'v list option \<Rightarrow> str option
     \<Rightarrow> error_location option \<Rightarrow> policy_builder \<Rightarrow> exec_error + policy_builder" where
  "prefix_rule_builtin ops pat d matches not_matches j location b =
     bind_result (case d of Some raw \<Rightarrow> parse_decision raw | None \<Rightarrow> Inr Allow) (\<lambda>d.
     bind_result (parse_justification j) (\<lambda>j.
     bind_result (parse_pattern ops pat) (\<lambda>tokens.
     bind_result (parse_examples ops matches) (\<lambda>ms.
     bind_result (parse_examples ops not_matches) (\<lambda>ns.
       let rules = expand_pattern tokens d j in
       Inr (fold builder_add_rule rules
         (b\<lparr>pb_pending := pb_pending b
             @ [\<lparr>pv_rules = rules, pv_matches = ms, pv_not_matches = ns, pv_location = location\<rparr>]\<rparr>)))))))"

definition network_rule_builtin ::
    "str \<Rightarrow> str \<Rightarrow> str \<Rightarrow> str option \<Rightarrow> policy_builder \<Rightarrow> exec_error + policy_builder" where
  "network_rule_builtin host protocol d j b =
     bind_result (parse_protocol protocol) (\<lambda>protocol.
     bind_result (parse_network_rule_decision d) (\<lambda>d.
     bind_result (parse_justification j) (\<lambda>j.
     bind_result (normalize_network_rule_host host) (\<lambda>host.
       Inr (b\<lparr>pb_network := pb_network b
         @ [\<lparr>net_host = host, net_protocol = protocol, net_decision = d, net_justification = j\<rparr>]\<rparr>)))))"

definition basename_error :: "str \<Rightarrow> str \<Rightarrow> exec_error" where
  "basename_error raw name = InvalidRule
     (lit ''host_executable path `'' @ raw @ lit ''` must have basename `'' @ name @ lit ''`'')"

fun host_executable_paths ::
    "'v builtin_ops \<Rightarrow> host_path_ops \<Rightarrow> str \<Rightarrow> 'v list \<Rightarrow> str list \<Rightarrow> exec_error + str list" where
  "host_executable_paths ops hp name [] parsed = Inr parsed"
| "host_executable_paths ops hp name (v # vs) parsed =
     (case unpack_str ops v of
        None \<Rightarrow> Inl (InvalidRule
          (lit ''host_executable paths must be strings (got '' @ type_name ops v @ lit '')''))
      | Some raw \<Rightarrow>
          bind_result (parse_literal_absolute_path ops hp raw) (\<lambda>path.
            case executable_path_lookup_key hp path of
              None \<Rightarrow> Inl (basename_error raw name)
            | Some path_name \<Rightarrow>
                (if path_name \<noteq> executable_lookup_key name then Inl (basename_error raw name)
                 else host_executable_paths ops hp name vs
                   (if path \<in> set parsed then parsed else parsed @ [path]))))"

definition host_executable_builtin ::
    "'v builtin_ops \<Rightarrow> host_path_ops \<Rightarrow> str \<Rightarrow> 'v list \<Rightarrow> policy_builder \<Rightarrow> exec_error + policy_builder" where
  "host_executable_builtin ops hp name paths b =
     bind_result (validate_host_executable_name ops hp name) (\<lambda>_.
     bind_result (host_executable_paths ops hp name paths []) (\<lambda>parsed.
       Inr (b\<lparr>pb_hosts := AList.update (executable_lookup_key name) parsed (pb_hosts b)\<rparr>)))"

section \<open>Parsing a policy file\<close>

datatype 'v builtin_call =
    PrefixRuleCall "'v list" "str option" "'v list option" "'v list option" "str option" "error_location option"
  | NetworkRuleCall str str str "str option"
  | HostExecutableCall str "'v list"

fun run_call ::
    "'v builtin_ops \<Rightarrow> host_path_ops \<Rightarrow> 'v builtin_call \<Rightarrow> policy_builder \<Rightarrow> exec_error + policy_builder" where
  "run_call ops hp (PrefixRuleCall pat d ms ns j l) b = prefix_rule_builtin ops pat d ms ns j l b"
| "run_call ops hp (NetworkRuleCall host protocol d j) b = network_rule_builtin host protocol d j b"
| "run_call ops hp (HostExecutableCall name paths) b = host_executable_builtin ops hp name paths b"

fun run_calls ::
    "'v builtin_ops \<Rightarrow> host_path_ops \<Rightarrow> 'v builtin_call list \<Rightarrow> policy_builder
     \<Rightarrow> policy_builder \<times> (exec_error + unit)" where
  "run_calls ops hp [] b = (b, Inr ())"
| "run_calls ops hp (c # cs) b =
     (case run_call ops hp c b of
        Inl e \<Rightarrow> (b, Inl e)
      | Inr b' \<Rightarrow> run_calls ops hp cs b')"

text \<open>
  \<open>PolicyParser::parse\<close>: the file is a syntax error or the calls of its evaluation, and
  \<open>wrap\<close> makes a Starlark error of an error in a built-in function.
\<close>

definition parse_policy_file ::
    "'v builtin_ops \<Rightarrow> host_path_ops \<Rightarrow> (exec_error \<Rightarrow> exec_error) \<Rightarrow> exec_error + 'v builtin_call list
     \<Rightarrow> policy_builder \<Rightarrow> policy_builder \<times> (exec_error + unit)" where
  "parse_policy_file ops hp wrap prog b =
     (case prog of
        Inl e \<Rightarrow> (b, Inl e)
      | Inr calls \<Rightarrow>
          (case run_calls ops hp calls b of
             (b', Inl e) \<Rightarrow> (b', Inl (wrap e))
           | (b', Inr u) \<Rightarrow> (b', validate_pending_examples_from ops hp (length (pb_pending b)) b')))"

section \<open>What a parsed policy guarantees\<close>

lemma collect_results_Inr:
  "collect_results rs = Inr xs \<Longrightarrow> length rs = length xs \<and> (\<forall>i < length xs. rs ! i = Inr (xs ! i))"
proof (induction rs arbitrary: xs)
  case (Cons r rs)
  then show ?case by (auto simp: less_Suc_eq_0_disj)
qed simp

lemma collect_results_all: "collect_results rs = Inr xs \<Longrightarrow> r \<in> set rs \<Longrightarrow> \<exists>x. r = Inr x"
  by (metis collect_results_Inr in_set_conv_nth)

lemma validate_not_match_Inr:
  "validate_not_match_examples ops hp p exs = Inr u \<longleftrightarrow>
     (\<forall>ex \<in> set exs. matches_for_command_with_options hp p ex None True = [])"
  by (induction exs) (auto split: list.splits)

lemma validate_match_Inr:
  "validate_match_examples ops hp p rules exs = Inr u \<longleftrightarrow>
     (\<forall>ex \<in> set exs. matches_for_command_with_options hp p ex None True \<noteq> [])"
  by (auto simp: validate_match_examples_def Let_def filter_empty_conv)

lemma attach_location_Inr [simp]: "attach_validation_location l r = Inr u \<longleftrightarrow> r = Inr u"
  by (auto simp: attach_validation_location_def split: sum.splits option.splits)

definition examples_hold :: "host_path_ops \<Rightarrow> (str \<times> str list) list \<Rightarrow> pending_validation \<Rightarrow> bool" where
  "examples_hold hp hosts v \<longleftrightarrow>
     (\<forall>ex \<in> set (pv_matches v).
        matches_for_command_with_options hp (rules_policy (pv_rules v) hosts) ex None True \<noteq> [])
     \<and> (\<forall>ex \<in> set (pv_not_matches v).
        matches_for_command_with_options hp (rules_policy (pv_rules v) hosts) ex None True = [])"

lemma validate_pending_Inr: "validate_pending ops hp hosts v = Inr u \<longleftrightarrow> examples_hold hp hosts v"
  by (auto simp: validate_pending_def examples_hold_def Let_def validate_not_match_Inr validate_match_Inr)

lemma keyed_builder_add:
  "by_prefix.well_keyed (pb_rules b) \<Longrightarrow> by_prefix.well_keyed (pb_rules (builder_add_rule r b))"
  by (simp add: builder_add_rule_def well_keyed_insert)

lemma keyed_builder_fold:
  "by_prefix.well_keyed (pb_rules b) \<Longrightarrow> by_prefix.well_keyed (pb_rules (fold builder_add_rule rs b))"
  by (induction rs arbitrary: b) (simp_all add: keyed_builder_add)

lemma run_call_keyed:
  "run_call ops hp c b = Inr b' \<Longrightarrow> by_prefix.well_keyed (pb_rules b) \<Longrightarrow> by_prefix.well_keyed (pb_rules b')"
  by (cases c)
     (auto simp: prefix_rule_builtin_def network_rule_builtin_def host_executable_builtin_def Let_def
       keyed_builder_fold)

lemma run_calls_keyed:
  "by_prefix.well_keyed (pb_rules b) \<Longrightarrow> by_prefix.well_keyed (pb_rules (fst (run_calls ops hp cs b)))"
  by (induction cs arbitrary: b) (auto split: sum.split dest: run_call_keyed)

lemma parse_policy_keyed:
  "by_prefix.well_keyed (pb_rules b) \<Longrightarrow>
     by_prefix.well_keyed (pb_rules (fst (parse_policy_file ops hp wrap prog b)))"
  using run_calls_keyed [of b ops hp]
  by (auto simp: parse_policy_file_def split: sum.split prod.split) (metis fst_conv)+

lemma parsed_examples:
  assumes "parse_policy_file ops hp wrap prog b = (b', Inr u)"
    and "v \<in> set (drop (length (pb_pending b)) (pb_pending b'))"
  shows "examples_hold hp (pb_hosts b') v"
proof -
  from assms(1) obtain vs where
    "collect_results (map (validate_pending ops hp (pb_hosts b'))
        (drop (length (pb_pending b)) (pb_pending b'))) = Inr vs"
    by (auto simp: parse_policy_file_def validate_pending_examples_from_def
        split: sum.splits prod.splits)
  from collect_results_all [OF this] assms(2) obtain x where
    "validate_pending ops hp (pb_hosts b') v = Inr x" by auto
  then show ?thesis by (simp add: validate_pending_Inr)
qed


section \<open>Alternatives of the first word\<close>

lemma expanded_rule_matches:
  assumes "tokens \<noteq> []"
  shows "(\<exists>r \<in> set (expand_pattern tokens d j). rule_matches r cmd \<noteq> None) \<longleftrightarrow>
    length tokens \<le> length cmd \<and> (\<forall>i < length tokens. token_matches (tokens ! i) (cmd ! i))"
proof -
  obtain t ts where tokens: "tokens = t # ts" using assms by (cases tokens) auto
  have head: "token_matches t c \<longleftrightarrow> c \<in> set (alternatives t)" for c
    by (cases t) (auto simp: list_ex_iff)
  have "matches_prefix \<lparr>first_token = h, rest_tokens = ts\<rparr> cmd \<noteq> None \<longleftrightarrow>
      Suc (length ts) \<le> length cmd \<and> hd cmd = h \<and> (\<forall>i < length ts. token_matches (ts ! i) (cmd ! Suc i))" for h
    using matches_prefix_Some_iff [of "\<lparr>first_token = h, rest_tokens = ts\<rparr>" cmd] by auto
  then have "(\<exists>r \<in> set (expand_pattern tokens d j). rule_matches r cmd \<noteq> None) \<longleftrightarrow>
      Suc (length ts) \<le> length cmd \<and> hd cmd \<in> set (alternatives t)
      \<and> (\<forall>i < length ts. token_matches (ts ! i) (cmd ! Suc i))"
    by (auto simp: expand_pattern_def tokens rule_matches_def)
  then show ?thesis
    using head by (cases cmd) (auto simp: tokens less_Suc_eq_0_disj)
qed

text \<open>
  One rule per alternative of the first word is the whole pattern: a command is matched
  by one of them exactly if it is at least as long as the pattern and each word of the
  pattern, the first one included, accepts the word at its place.
\<close>

theorem expanded_rules_match_pattern:
  "tokens \<noteq> [] \<Longrightarrow> (\<exists>r \<in> set (expand_pattern tokens d j). rule_matches r cmd \<noteq> None) \<longleftrightarrow>
    length tokens \<le> length cmd \<and> (\<forall>i < length tokens. token_matches (tokens ! i) (cmd ! i))"
  by (rule expanded_rule_matches)

section \<open>A sample file\<close>

datatype sample_value = StringValue str | ListValue "sample_value list"

fun sample_unpack :: "sample_value \<Rightarrow> str option" where
  "sample_unpack (StringValue s) = Some s"
| "sample_unpack (ListValue vs) = None"

fun sample_list :: "sample_value \<Rightarrow> sample_value list option" where
  "sample_list (StringValue s) = None"
| "sample_list (ListValue vs) = Some vs"

definition sample_ops :: "sample_value builtin_ops" where
  "sample_ops = \<lparr>unpack_str = sample_unpack, list_content = sample_list,
     type_name = (\<lambda>v. lit ''value''), shlex_split = (\<lambda>s. Some (split_on 32 s)),
     shlex_join = (\<lambda>ws. Some (join [32] ws)), debug_rule = allowed_text, debug_match = (\<lambda>m. []),
     is_absolute = (\<lambda>p. starts_with p [47]), path_error = (\<lambda>p. []), single_component = (\<lambda>p. True)\<rparr>"

definition sample_call :: "sample_value builtin_call" where
  "sample_call = PrefixRuleCall
     [ListValue [StringValue (lit ''git''), StringValue (lit ''hg'')], StringValue (lit ''push'')]
     (Some (lit ''prompt'')) (Some [StringValue (lit ''hg push'')]) (Some [StringValue (lit ''git pull'')])
     None None"

definition sample_built :: policy_builder where
  "sample_built = fst (parse_policy_file sample_ops no_paths (\<lambda>e. e) (Inr [sample_call]) new_builder)"


theorem expanded_rules_match_pattern_witness:
  "\<exists>r \<in> set (expand_pattern [AltTokens [lit ''git'', lit ''hg''], SingleToken (lit ''push'')] Prompt None).
     rule_matches r [lit ''hg'', lit ''push'', lit ''-f''] \<noteq> None"
  by (subst expanded_rules_match_pattern) (auto simp: less_Suc_eq_0_disj)

end
