(* ===== verification/ExecAmend.thy ===== *)
theory ExecAmend
  imports NetworkRule
begin

text \<open>
  \<open>execpolicy/src/amend.rs\<close> and \<open>sandbox_migration.rs\<close>: saving a rule as a line of the
  policy file, and the one-shot migration that removes saved rules that are banned now.
  The file operations and JSON are parameters.
\<close>

section \<open>The policy file\<close>

text \<open>
  The operations on the file of a given path, opened for appending; \<open>create_dir\<close> is on
  its parent directory, if it has one.
\<close>

record 's policy_file_ops =
  has_parent :: bool
  create_dir :: "'s \<Rightarrow> 's \<times> (io_error + unit)"
  open_append :: "'s \<Rightarrow> 's \<times> (io_error + unit)"
  lock_file :: "'s \<Rightarrow> 's \<times> (io_error + unit)"
  seek_start :: "'s \<Rightarrow> 's \<times> (io_error + unit)"
  read_contents :: "'s \<Rightarrow> 's \<times> (io_error + str)"
  append_all :: "'s \<Rightarrow> str \<Rightarrow> 's \<times> (io_error + unit)"

record json_ops =
  json_string :: "str \<Rightarrow> str + str"
  json_string_list :: "str \<Rightarrow> str list option"
  debug_strings :: "str list \<Rightarrow> str"

datatype amend_error =
    EmptyPrefix
  | InvalidNetworkRule str
  | MissingParent
  | CreatePolicyDir io_error
  | SerializePrefix str
  | SerializeNetworkRule str
  | OpenPolicyFile io_error
  | WritePolicyFile io_error
  | LockPolicyFile io_error
  | SeekPolicyFile io_error
  | ReadPolicyFile io_error

type_synonym 's amend_result = "'s \<times> (amend_error + unit)"

text \<open>The next step on success, the mapped error otherwise.\<close>

definition try_io ::
    "(io_error \<Rightarrow> amend_error) \<Rightarrow> 's \<times> (io_error + 'a) \<Rightarrow> ('s \<Rightarrow> 'a \<Rightarrow> 's amend_result) \<Rightarrow> 's amend_result" where
  "try_io mk r k = (case r of (s, Inl e) \<Rightarrow> (s, Inl (mk e)) | (s, Inr x) \<Rightarrow> k s x)"

definition append_locked_line :: "'s policy_file_ops \<Rightarrow> str \<Rightarrow> 's \<Rightarrow> 's amend_result" where
  "append_locked_line ops line s =
     try_io OpenPolicyFile (open_append ops s) (\<lambda>s _.
     try_io LockPolicyFile (lock_file ops s) (\<lambda>s _.
     try_io SeekPolicyFile (seek_start ops s) (\<lambda>s _.
     try_io ReadPolicyFile (read_contents ops s) (\<lambda>s contents.
       if list_ex (\<lambda>existing. existing = line) (str_lines contents) then (s, Inr ())
       else
         try_io WritePolicyFile
           (if contents \<noteq> [] \<and> \<not> ends_with contents [LF] then append_all ops s [LF] else (s, Inr ()))
           (\<lambda>s _. try_io WritePolicyFile (append_all ops s (line @ [LF])) (\<lambda>s _. (s, Inr ())))))))"

definition append_rule_line :: "'s policy_file_ops \<Rightarrow> str \<Rightarrow> 's \<Rightarrow> 's amend_result" where
  "append_rule_line ops rule s =
     (if \<not> has_parent ops then (s, Inl MissingParent)
      else case create_dir ops s of
        (s, Inr u) \<Rightarrow> append_locked_line ops rule s
      | (s, Inl e) \<Rightarrow>
          (if kind e = AlreadyExists then append_locked_line ops rule s
           else (s, Inl (CreatePolicyDir e))))"

section \<open>Saving rules\<close>

fun collect_json :: "(str + str) list \<Rightarrow> str + str list" where
  "collect_json [] = Inr []"
| "collect_json (r # rs) =
     bind_result r (\<lambda>x. bind_result (collect_json rs) (\<lambda>xs. Inr (x # xs)))"

definition allow_prefix_line :: "str list \<Rightarrow> str" where
  "allow_prefix_line tokens = lit ''prefix_rule(pattern='' @ ([91] @ join (lit '', '') tokens @ [93])
     @ lit '', decision=\"allow\")''"

definition blocking_append_allow_prefix_rule ::
    "json_ops \<Rightarrow> 's policy_file_ops \<Rightarrow> str list \<Rightarrow> 's \<Rightarrow> 's amend_result" where
  "blocking_append_allow_prefix_rule js ops tokens s =
     (if tokens = [] then (s, Inl EmptyPrefix)
      else case collect_json (map (json_string js) tokens) of
        Inl e \<Rightarrow> (s, Inl (SerializePrefix e))
      | Inr ts \<Rightarrow> append_rule_line ops (allow_prefix_line ts) s)"

fun decision_text :: "decision \<Rightarrow> str" where
  "decision_text Allow = lit ''allow''"
| "decision_text Prompt = lit ''prompt''"
| "decision_text Forbidden = lit ''deny''"

fun display_exec_error :: "json_ops \<Rightarrow> exec_error \<Rightarrow> str" where
  "display_exec_error js (InvalidDecision m) = lit ''invalid decision: '' @ m"
| "display_exec_error js (InvalidPattern m) = lit ''invalid pattern element: '' @ m"
| "display_exec_error js (InvalidExample m) = lit ''invalid example: '' @ m"
| "display_exec_error js (InvalidRule m) = lit ''invalid rule: '' @ m"
| "display_exec_error js (ExampleDidNotMatch rules examples l) =
     lit ''expected every example to match at least one rule. rules: '' @ debug_strings js rules
     @ lit ''; unmatched examples: '' @ debug_strings js examples"
| "display_exec_error js (ExampleDidMatch rule ex l) =
     lit ''expected example to not match rule `'' @ rule @ lit ''`: '' @ ex"
| "display_exec_error js (StarlarkError m) = lit ''starlark error: '' @ m"

definition network_rule_fields ::
    "json_ops \<Rightarrow> str \<Rightarrow> network_protocol \<Rightarrow> decision \<Rightarrow> str option \<Rightarrow> str + str list" where
  "network_rule_fields js host protocol d j =
     bind_result (json_string js host) (\<lambda>host.
     bind_result (json_string js (as_policy_string protocol)) (\<lambda>protocol.
     bind_result (json_string js (decision_text d)) (\<lambda>d.
       let args = [lit ''host='' @ host, lit ''protocol='' @ protocol, lit ''decision='' @ d] in
       case j of
         None \<Rightarrow> Inr args
       | Some text_of \<Rightarrow>
           bind_result (json_string js text_of) (\<lambda>j. Inr (args @ [lit ''justification='' @ j])))))"

definition blocking_append_network_rule ::
    "json_ops \<Rightarrow> 's policy_file_ops \<Rightarrow> str \<Rightarrow> network_protocol \<Rightarrow> decision \<Rightarrow> str option \<Rightarrow> 's
     \<Rightarrow> 's amend_result" where
  "blocking_append_network_rule js ops host protocol d j s =
     (case normalize_network_rule_host host of
        Inl e \<Rightarrow> (s, Inl (InvalidNetworkRule (display_exec_error js e)))
      | Inr host \<Rightarrow>
          (if (case j of None \<Rightarrow> False | Some raw \<Rightarrow> trim raw = []) then
             (s, Inl (InvalidNetworkRule (lit ''justification cannot be empty'')))
           else case network_rule_fields js host protocol d j of
             Inl e \<Rightarrow> (s, Inl (SerializeNetworkRule e))
           | Inr args \<Rightarrow>
               append_rule_line ops (lit ''network_rule('' @ join (lit '', '') args @ lit '')'') s))"

section \<open>The migration\<close>

definition should_remove_rule :: "json_ops \<Rightarrow> str list list \<Rightarrow> str \<Rightarrow> bool" where
  "should_remove_rule js banned line =
     (let line = (case strip_suffix [LF] line of Some l \<Rightarrow> l | None \<Rightarrow> line);
          line = (case strip_suffix [CR] line of Some l \<Rightarrow> l | None \<Rightarrow> line)
      in case strip_prefix (lit ''prefix_rule(pattern='') line of
           None \<Rightarrow> False
         | Some l \<Rightarrow>
             (case strip_suffix (lit '', decision=\"allow\")'') l of
                None \<Rightarrow> False
              | Some pat \<Rightarrow>
                  (case json_string_list js pat of
                     None \<Rightarrow> False
                   | Some tokens \<Rightarrow> map to_ascii_lowercase tokens \<in> set banned)))"

definition strip_banned_allow_rules :: "json_ops \<Rightarrow> str list list \<Rightarrow> str \<Rightarrow> str" where
  "strip_banned_allow_rules js banned_prefixes contents =
     (let banned = map (map to_ascii_lowercase) banned_prefixes in
      concat (filter (\<lambda>line. \<not> should_remove_rule js banned line) (split_inclusive LF contents)))"

text \<open>
  The rules file and the marker file of the migration; the file may change between the
  first reading and the opening.
\<close>

record 's migration_ops =
  marker_exists :: "'s \<Rightarrow> 's \<times> (io_error + bool)"
  write_marker :: "'s \<Rightarrow> 's \<times> (io_error + unit)"
  read_rules :: "'s \<Rightarrow> 's \<times> (io_error + str)"
  open_rules :: "'s \<Rightarrow> 's \<times> (io_error + unit)"
  read_open :: "'s \<Rightarrow> 's \<times> (io_error + str)"
  seek_rules :: "'s \<Rightarrow> 's \<times> (io_error + unit)"
  write_rules :: "'s \<Rightarrow> str \<Rightarrow> 's \<times> (io_error + unit)"
  set_rules_len :: "'s \<Rightarrow> nat \<Rightarrow> 's \<times> (io_error + unit)"

definition bind_io :: "'s \<times> (io_error + 'a) \<Rightarrow> ('s \<Rightarrow> 'a \<Rightarrow> 's \<times> (io_error + 'b)) \<Rightarrow> 's \<times> (io_error + 'b)" where
  "bind_io r k = (case r of (s, Inl e) \<Rightarrow> (s, Inl e) | (s, Inr x) \<Rightarrow> k s x)"

definition found :: "'s \<times> (io_error + 'a) \<Rightarrow> 's \<times> (io_error + 'a option)" where
  "found r = (case r of
     (s, Inr x) \<Rightarrow> (s, Inr (Some x))
   | (s, Inl e) \<Rightarrow> (if kind e = NotFound then (s, Inr None) else (s, Inl e)))"

definition rewrite_rules ::
    "json_ops \<Rightarrow> 's migration_ops \<Rightarrow> str list list \<Rightarrow> 's \<Rightarrow> 's \<times> (io_error + unit)" where
  "rewrite_rules js ops banned s =
     bind_io (read_open ops s) (\<lambda>s contents.
       let retained = strip_banned_allow_rules js banned contents in
       if retained = contents then (s, Inr ())
       else
         bind_io (seek_rules ops s) (\<lambda>s _.
         bind_io (write_rules ops s retained) (\<lambda>s _.
         set_rules_len ops s (str_len retained))))"

definition clean_rules_file ::
    "json_ops \<Rightarrow> 's migration_ops \<Rightarrow> str list list \<Rightarrow> 's \<Rightarrow> 's \<times> (io_error + unit)" where
  "clean_rules_file js ops banned s =
     bind_io (found (read_rules ops s)) (\<lambda>s r.
       case r of
         None \<Rightarrow> (s, Inr ())
       | Some contents \<Rightarrow>
           (if strip_banned_allow_rules js banned contents = contents then (s, Inr ())
            else bind_io (found (open_rules ops s)) (\<lambda>s r.
              case r of
                None \<Rightarrow> (s, Inr ())
              | Some u \<Rightarrow> rewrite_rules js ops banned s)))"

definition prefix_rule_migration ::
    "json_ops \<Rightarrow> 's migration_ops \<Rightarrow> str list list \<Rightarrow> 's \<Rightarrow> 's \<times> (io_error + unit)" where
  "prefix_rule_migration js ops banned s =
     bind_io (marker_exists ops s) (\<lambda>s exists.
       if exists then (s, Inr ())
       else bind_io (clean_rules_file js ops banned s) (\<lambda>s _. write_marker ops s))"

end
