(* ===== verification/ExecAmendCorrect.thy ===== *)
theory ExecAmendCorrect
  imports ExecAmend
begin

text \<open>
  Saving a rule adds its line once and keeps every other line; the migration removes whole
  lines only and undoes the saving of a banned rule.
\<close>

section \<open>Lines\<close>

lemma split_inclusive_append:
  "c = [] \<or> last c = LF \<Longrightarrow> split_inclusive LF (c @ t) = split_inclusive LF c @ split_inclusive LF t"
proof (induction c)
  case (Cons x c)
  show ?case
  proof (cases "c = []")
    case False
    with Cons have "split_inclusive LF (c @ t) = split_inclusive LF c @ split_inclusive LF t" by simp
    moreover have "split_inclusive LF c \<noteq> []" using False by (cases c) (auto split: list.splits)
    ultimately show ?thesis by (auto split: list.splits)
  qed (use Cons in auto)
qed simp

lemma split_inclusive_end:
  "c \<noteq> [] \<Longrightarrow> last c \<noteq> LF \<Longrightarrow>
     split_inclusive LF (c @ [LF]) = butlast (split_inclusive LF c) @ [last (split_inclusive LF c) @ [LF]]
     \<and> split_inclusive LF c \<noteq> [] \<and> last (last (split_inclusive LF c)) = last c
     \<and> LF \<notin> set (last (split_inclusive LF c)) \<and> last (split_inclusive LF c) \<noteq> []"
proof (induction c)
  case (Cons x c)
  show ?case
  proof (cases "c = []")
    case False
    with Cons show ?thesis by (auto split: list.splits)
  qed (use Cons in auto)
qed simp

lemma str_lines_append:
  "c = [] \<or> last c = LF \<Longrightarrow> str_lines (c @ t) = str_lines c @ str_lines t"
  by (simp add: str_lines_def split_inclusive_append)

lemma str_lines_terminate:
  assumes "c \<noteq> []" and "last c \<noteq> LF" and "last c \<noteq> CR"
  shows "str_lines (c @ [LF]) = str_lines c"
proof -
  let ?ps = "split_inclusive LF c"
  note e = split_inclusive_end [OF assms(1,2)]
  have "plain_line (last ?ps)" using e assms(3) by (simp add: plain_line_def)
  then have "strip_line_ending (last ?ps @ [LF]) = strip_line_ending (last ?ps)"
    using e by (simp add: strip_line_ending_LF strip_line_ending_bare)
  moreover have "str_lines c = map strip_line_ending (butlast ?ps) @ [strip_line_ending (last ?ps)]"
    using e append_butlast_last_id [of ?ps] by (metis str_lines_def map_append list.simps(8,9))
  ultimately show ?thesis using e by (simp add: str_lines_def)
qed

section \<open>Appending a line\<close>

definition appended :: "str \<Rightarrow> str \<Rightarrow> str" where
  "appended c line =
     (if line \<in> set (str_lines c) then c
      else (if c \<noteq> [] \<and> last c \<noteq> LF then c @ [LF] else c) @ line @ [LF])"

lemma ends_with_LF: "ends_with c [LF] \<longleftrightarrow> c \<noteq> [] \<and> last c = LF"
  by (cases c rule: rev_cases) (auto simp: ends_with_def)

lemma appended_lines:
  assumes "plain_line line" and "c = [] \<or> last c \<noteq> CR"
  shows "str_lines (appended c line) =
    (if line \<in> set (str_lines c) then str_lines c else str_lines c @ [line])"
proof -
  have one: "str_lines (line @ [LF]) = [line]" using str_lines_Cons [OF assms(1), of "[]"] by simp
  show ?thesis
  proof (cases "c \<noteq> [] \<and> last c \<noteq> LF")
    case True
    have "str_lines ((c @ [LF]) @ (line @ [LF])) = str_lines (c @ [LF]) @ str_lines (line @ [LF])"
      by (rule str_lines_append) simp
    with True one str_lines_terminate [of c] assms(2) show ?thesis by (simp add: appended_def)
  next
    case False
    with one str_lines_append [of c "line @ [LF]"] show ?thesis by (auto simp: appended_def)
  qed
qed

lemma appended_twice:
  "plain_line line \<Longrightarrow> c = [] \<or> last c \<noteq> CR \<Longrightarrow> appended (appended c line) line = appended c line"
  using appended_lines [of line c] by (simp add: appended_def [of "appended c line"])

text \<open>
  What saving relies on: reading gives the text of the file, opening, locking, seeking and
  making the directory leave it, and a write that succeeds appends.
\<close>

definition amend_laws :: "'s policy_file_ops \<Rightarrow> ('s \<Rightarrow> str) \<Rightarrow> bool" where
  "amend_laws ops v \<longleftrightarrow>
     (\<forall>s s' r. create_dir ops s = (s', r) \<longrightarrow> v s' = v s)
     \<and> (\<forall>s s' r. open_append ops s = (s', r) \<longrightarrow> v s' = v s)
     \<and> (\<forall>s s' r. lock_file ops s = (s', r) \<longrightarrow> v s' = v s)
     \<and> (\<forall>s s' r. seek_start ops s = (s', r) \<longrightarrow> v s' = v s)
     \<and> (\<forall>s s' c. read_contents ops s = (s', Inr c) \<longrightarrow> v s' = v s \<and> c = v s)
     \<and> (\<forall>s s' t. append_all ops s t = (s', Inr ()) \<longrightarrow> v s' = v s @ t)"

lemma amend_lawsD:
  assumes "amend_laws ops v"
  shows "create_dir ops s = (s', r) \<Longrightarrow> v s' = v s"
    and "open_append ops s = (s', r) \<Longrightarrow> v s' = v s"
    and "lock_file ops s = (s', r) \<Longrightarrow> v s' = v s"
    and "seek_start ops s = (s', r) \<Longrightarrow> v s' = v s"
    and "read_contents ops s = (s', Inr c) \<Longrightarrow> v s' = v s \<and> c = v s"
    and "append_all ops s t = (s', Inr ()) \<Longrightarrow> v s' = v s @ t"
  using assms unfolding amend_laws_def by blast+

lemma try_io_Inr:
  "try_io mk r k = (s', Inr ()) \<longleftrightarrow> (\<exists>s x. r = (s, Inr x) \<and> k s x = (s', Inr ()))"
  by (cases r; cases "snd r") (auto simp: try_io_def)

lemma append_locked_line_appends:
  assumes laws: "amend_laws ops v" and "append_locked_line ops line s = (s', Inr ())"
  shows "v s' = appended (v s) line"
proof -
  from assms(2) obtain s1 s2 s3 s4 c u1 u2 u3 where
    steps: "open_append ops s = (s1, Inr u1)" "lock_file ops s1 = (s2, Inr u2)"
      "seek_start ops s2 = (s3, Inr u3)" "read_contents ops s3 = (s4, Inr c)"
    and fin: "(if list_ex (\<lambda>existing. existing = line) (str_lines c) then (s4, Inr ())
       else try_io WritePolicyFile
           (if c \<noteq> [] \<and> \<not> ends_with c [LF] then append_all ops s4 [LF] else (s4, Inr ()))
           (\<lambda>s _. try_io WritePolicyFile (append_all ops s (line @ [LF])) (\<lambda>s _. (s, Inr ())))) = (s', Inr ())"
    by (auto simp: append_locked_line_def try_io_Inr)
  have c: "c = v s" "v s4 = v s"
    using amend_lawsD(2) [OF laws steps(1)] amend_lawsD(3) [OF laws steps(2)]
      amend_lawsD(4) [OF laws steps(3)] amend_lawsD(5) [OF laws steps(4)] by simp_all
  note appends = amend_lawsD(6) [OF laws]
  from fin c show ?thesis
    by (auto simp: appended_def list_ex_iff ends_with_LF try_io_Inr split: if_splits dest!: appends)
qed

lemma append_rule_line_appends:
  assumes "amend_laws ops v" and "append_rule_line ops line s = (s', Inr ())"
  shows "v s' = appended (v s) line"
proof -
  from assms(2) obtain s1 r where "create_dir ops s = (s1, r)" "append_locked_line ops line s1 = (s', Inr ())"
    by (auto simp: append_rule_line_def split: prod.splits sum.splits if_splits)
  with append_locked_line_appends [OF assms(1) this(2)] amend_lawsD(1) [OF assms(1) this(1)]
  show ?thesis by simp
qed

text \<open>
  Saving a rule adds one line: the lines of the file stay as they are and in order, the
  new line comes last unless it was there already, and saving it again changes nothing.
\<close>

theorem append_rule_line_once:
  assumes "amend_laws ops v" and "append_rule_line ops line s = (s', Inr ())"
    and "append_rule_line ops line s' = (s'', Inr ())"
    and "plain_line line" and "v s = [] \<or> last (v s) \<noteq> CR"
  shows "str_lines (v s') =
      (if line \<in> set (str_lines (v s)) then str_lines (v s) else str_lines (v s) @ [line])
    \<and> v s'' = v s'"
  using append_rule_line_appends [OF assms(1,2)] append_rule_line_appends [OF assms(1,3)]
    appended_lines [OF assms(4,5)] appended_twice [OF assms(4,5)] by simp

section \<open>Filtering lines\<close>

definition pieces :: "str list \<Rightarrow> bool" where
  "pieces ps \<longleftrightarrow> (\<forall>p \<in> set ps. p \<noteq> [] \<and> LF \<notin> set (butlast p)) \<and> (\<forall>p \<in> set (butlast ps). last p = LF)"

lemma pieces_split: "pieces (split_inclusive LF s)"
proof (induction s)
  case (Cons c s)
  then show ?case by (auto simp: pieces_def split: list.splits)
qed (simp add: pieces_def)

lemma split_pieces: "pieces ps \<Longrightarrow> split_inclusive LF (concat ps) = ps"
proof (induction ps)
  case (Cons p ps)
  then have ih: "split_inclusive LF (concat ps) = ps"
    by (auto simp: pieces_def split: if_splits)
  show ?case
  proof (cases "ps = []")
    case True
    with Cons.prems obtain ys y where "p = ys @ [y]" "LF \<notin> set ys"
      by (cases p rule: rev_cases) (auto simp: pieces_def)
    with True show ?thesis
      using split_inclusive_append_sep [of LF ys "[]"] split_inclusive_no_sep [of LF "ys @ [y]"]
      by (cases "y = LF") auto
  next
    case False
    with Cons.prems have "p \<noteq> []" "last p = LF" "LF \<notin> set (butlast p)" by (auto simp: pieces_def)
    then have "p = butlast p @ [LF]" by (metis append_butlast_last_id)
    then have "split_inclusive LF (p @ concat ps) = p # split_inclusive LF (concat ps)"
      by (metis \<open>LF \<notin> set (butlast p)\<close> append_Cons append_Nil append_assoc split_inclusive_append_sep)
    with ih show ?thesis by simp
  qed
qed (simp add: pieces_def)

lemma pieces_filter: "pieces ps \<Longrightarrow> pieces (filter P ps)"
proof -
  have "set (butlast (filter P ps)) \<subseteq> set (butlast ps)"
    by (induction ps rule: rev_induct) (auto simp: butlast_append dest: in_set_butlastD)
  then show "pieces ps \<Longrightarrow> pieces (filter P ps)" by (auto simp: pieces_def)
qed

lemma split_strip:
  "split_inclusive LF (strip_banned_allow_rules js banned c) =
     filter (\<lambda>l. \<not> should_remove_rule js (map (map to_ascii_lowercase) banned) l) (split_inclusive LF c)"
  by (simp add: strip_banned_allow_rules_def split_pieces pieces_filter pieces_split)

text \<open>
  The migration removes whole lines and nothing else: what is left are the lines of the
  file that are no banned rule, byte for byte and in order, no banned rule is left, and a
  second run changes nothing.
\<close>

theorem migration_filters_lines:
  "split_inclusive LF (strip_banned_allow_rules js banned c) =
     filter (\<lambda>l. \<not> should_remove_rule js (map (map to_ascii_lowercase) banned) l) (split_inclusive LF c)
   \<and> strip_banned_allow_rules js banned (strip_banned_allow_rules js banned c)
     = strip_banned_allow_rules js banned c"
  using split_strip [of js banned c]
  by (simp add: strip_banned_allow_rules_def [of js banned "strip_banned_allow_rules js banned c"])
     (simp add: strip_banned_allow_rules_def)

section \<open>Saved and removed\<close>

text \<open>
  What JSON is relied on for, of the tokens of a prefix: each is written on one line, and
  the array of what is written is read back as them.
\<close>

definition json_reads_back :: "json_ops \<Rightarrow> str list \<Rightarrow> bool" where
  "json_reads_back js ts \<longleftrightarrow>
     (\<forall>ss. collect_json (map (json_string js) ts) = Inr ss \<longrightarrow>
        (\<forall>s \<in> set ss. LF \<notin> set s)
        \<and> json_string_list js ([91] @ join (lit '', '') ss @ [93]) = Some ts)"

lemma collect_json_lines:
  "json_reads_back js ts \<Longrightarrow> collect_json (map (json_string js) ts) = Inr ss \<Longrightarrow> \<forall>s \<in> set ss. LF \<notin> set s"
  by (simp add: json_reads_back_def)

lemma LF_join: "LF \<notin> set sep \<Longrightarrow> \<forall>s \<in> set ss. LF \<notin> set s \<Longrightarrow> LF \<notin> set (join sep ss)"
  by (induction sep ss rule: join.induct) auto

lemma allow_line_LF:
  assumes "\<forall>s \<in> set ss. LF \<notin> set s"
  shows "LF \<notin> set (allow_prefix_line ss)"
proof -
  have "LF \<notin> set (join (lit '', '') ss)" using assms by (intro LF_join) (simp_all add: lit_def)
  then show ?thesis by (simp add: allow_prefix_line_def lit_def)
qed

lemma allow_line_end:
  "strip_suffix [CR] (allow_prefix_line ss) = None"
proof -
  have "allow_prefix_line ss = (lit ''prefix_rule(pattern='' @ ([91] @ join (lit '', '') ss @ [93])
      @ lit '', decision=\"allow\"'') @ [41]"
    by (simp add: allow_prefix_line_def lit_def)
  then show ?thesis by (simp only: strip_suffix_snoc) simp
qed

lemma strip_suffix_append [simp]: "strip_suffix p (s @ p) = Some s"
  by (simp add: strip_suffix_Some_iff)

lemma removes_allow_line:
  assumes "json_reads_back js ts" and "collect_json (map (json_string js) ts) = Inr ss"
  shows "should_remove_rule js banned (allow_prefix_line ss @ [LF]) \<longleftrightarrow> map to_ascii_lowercase ts \<in> set banned"
proof -
  have "strip_prefix (lit ''prefix_rule(pattern='') (allow_prefix_line ss)
      = Some (([91] @ join (lit '', '') ss @ [93]) @ lit '', decision=\"allow\")'')"
    unfolding allow_prefix_line_def append_assoc by (rule strip_prefix_append)
  with assms show ?thesis
    by (simp add: should_remove_rule_def allow_line_end json_reads_back_def
        del: append_assoc append_Cons append.append_Cons)
qed

lemma strip_appended:
  assumes "json_reads_back js ts" and "collect_json (map (json_string js) ts) = Inr ss"
    and "map to_ascii_lowercase ts \<in> set (map (map to_ascii_lowercase) banned)"
    and "c = [] \<or> last c = LF"
  shows "strip_banned_allow_rules js banned (appended c (allow_prefix_line ss))
    = strip_banned_allow_rules js banned c"
proof -
  let ?l = "allow_prefix_line ss"
  have "split_inclusive LF (?l @ [LF]) = [?l @ [LF]]"
    using split_inclusive_append_sep [OF allow_line_LF [OF collect_json_lines [OF assms(1,2)]], of "[]"]
    by simp
  with split_inclusive_append [OF assms(4), of "?l @ [LF]"] removes_allow_line [OF assms(1,2)] assms(3,4)
  show ?thesis by (auto simp: strip_banned_allow_rules_def appended_def Let_def)
qed

text \<open>
  The migration finds what was saved: when a banned prefix is saved as an allow rule in a
  file whose last line is ended, the migrated file is the one without the saving.
\<close>

theorem migration_undoes_saving:
  assumes "amend_laws ops v" and "json_reads_back js ts"
    and "blocking_append_allow_prefix_rule js ops ts s = (s', Inr ())"
    and "map to_ascii_lowercase ts \<in> set (map (map to_ascii_lowercase) banned)"
    and "v s = [] \<or> last (v s) = LF"
  shows "strip_banned_allow_rules js banned (v s') = strip_banned_allow_rules js banned (v s)"
proof -
  from assms(3) obtain ss where ss: "collect_json (map (json_string js) ts) = Inr ss"
      "append_rule_line ops (allow_prefix_line ss) s = (s', Inr ())"
    by (auto simp: blocking_append_allow_prefix_rule_def split: if_splits sum.splits)
  from append_rule_line_appends [OF assms(1) ss(2)] strip_appended [OF assms(2) ss(1) assms(4,5)]
  show ?thesis by simp
qed

section \<open>A file in memory\<close>

definition text_file_ops :: "str policy_file_ops" where
  "text_file_ops = \<lparr>has_parent = True, create_dir = (\<lambda>s. (s, Inr ())), open_append = (\<lambda>s. (s, Inr ())),
     lock_file = (\<lambda>s. (s, Inr ())), seek_start = (\<lambda>s. (s, Inr ())),
     read_contents = (\<lambda>s. (s, Inr s)), append_all = (\<lambda>s t. (s @ t, Inr ()))\<rparr>"

lemma text_file_laws: "amend_laws text_file_ops (\<lambda>s. s)"
  by (simp add: amend_laws_def text_file_ops_def)

theorem append_rule_line_once_witness:
  "str_lines (lit ''a'' @ [LF] @ lit ''b'' @ [LF]) = [lit ''a'', lit ''b'']"
proof -
  have "append_rule_line text_file_ops (lit ''b'') (lit ''a'') = (lit ''a'' @ [LF] @ lit ''b'' @ [LF], Inr ())"
    "append_rule_line text_file_ops (lit ''b'') (lit ''a'' @ [LF] @ lit ''b'' @ [LF])
      = (lit ''a'' @ [LF] @ lit ''b'' @ [LF], Inr ())"
    "plain_line (lit ''b'')" "lit ''a'' = [] \<or> last (lit ''a'') \<noteq> CR"
    "str_lines (lit ''a'') = [lit ''a'']" "lit ''b'' \<noteq> lit ''a''"
    by code_simp+
  from append_rule_line_once [OF text_file_laws this(1,2,3,4)] this(5,6) show ?thesis by simp
qed

definition sample_json :: json_ops where
  "sample_json = \<lparr>json_string = (\<lambda>t. Inr ([34] @ t @ [34])),
     json_string_list = (\<lambda>s. if s = lit ''[\"rm\"]'' then Some [lit ''rm''] else None),
     debug_strings = (\<lambda>ts. [])\<rparr>"

theorem migration_undoes_saving_witness:
  "strip_banned_allow_rules sample_json [[lit ''RM'']]
     (fst (blocking_append_allow_prefix_rule sample_json text_file_ops [lit ''rm''] (lit ''x'' @ [LF])))
   = strip_banned_allow_rules sample_json [[lit ''RM'']] (lit ''x'' @ [LF])"
proof (rule migration_undoes_saving [OF text_file_laws])
  show "json_reads_back sample_json [lit ''rm'']"
  proof -
    have "collect_json (map (json_string sample_json) [lit ''rm'']) = Inr [[34] @ lit ''rm'' @ [34]]"
      "LF \<notin> set ([34] @ lit ''rm'' @ [34])"
      "json_string_list sample_json ([91] @ join (lit '', '') [[34] @ lit ''rm'' @ [34]] @ [93])
        = Some [lit ''rm'']"
      by code_simp+
    then show ?thesis unfolding json_reads_back_def by auto
  qed
  show "blocking_append_allow_prefix_rule sample_json text_file_ops [lit ''rm''] (lit ''x'' @ [LF])
      = (fst (blocking_append_allow_prefix_rule sample_json text_file_ops [lit ''rm''] (lit ''x'' @ [LF])), Inr ())"
    by code_simp
  show "map to_ascii_lowercase [lit ''rm''] \<in> set (map (map to_ascii_lowercase) [[lit ''RM'']])"
    by code_simp
  show "lit ''x'' @ [LF] = [] \<or> last (lit ''x'' @ [LF]) = LF" by simp
qed

end
