(* ===== verification/HeadTailBuffer.thy ===== *)
theory HeadTailBuffer
  imports Prelude "HOL-Library.Word"
begin

text \<open>
  \<open>core/src/unified_exec/head_tail_buffer.rs\<close>: the capped buffer of a command's output,
  which keeps the first and the last bytes and counts the ones it drops in between. The
  capacity \<open>MAX_BYTES\<close> is the argument \<open>m\<close>; a \<open>usize\<close> is a \<open>nat\<close> whose saturating
  operations are written out.
\<close>

section \<open>The buffer\<close>

type_synonym byte = "8 word"

record head_tail_buffer =
  buf_head :: "byte list"
  buf_tail :: "byte list"
  omitted_bytes :: nat

definition empty_buffer :: head_tail_buffer where
  "empty_buffer = \<lparr>buf_head = [], buf_tail = [], omitted_bytes = 0\<rparr>"

definition head_budget :: "nat \<Rightarrow> nat" where
  "head_budget m = m div 2"

definition tail_budget :: "nat \<Rightarrow> nat" where
  "tail_budget m = m - head_budget m"

definition retained_bytes :: "head_tail_buffer \<Rightarrow> nat" where
  "retained_bytes b = sat_add (length (buf_head b)) (length (buf_tail b))"

definition total_bytes :: "head_tail_buffer \<Rightarrow> nat" where
  "total_bytes b = sat_add (retained_bytes b) (omitted_bytes b)"

definition fill_head :: "nat \<Rightarrow> byte list \<Rightarrow> head_tail_buffer \<Rightarrow> head_tail_buffer \<times> byte list" where
  "fill_head m chunk b =
     (let remaining = head_budget m - length (buf_head b);
          (chunk_head, chunk_tail) =
            (if remaining \<le> length chunk then (take remaining chunk, drop remaining chunk)
             else (chunk, []))
      in (b\<lparr>buf_head := buf_head b @ chunk_head\<rparr>, chunk_tail))"

definition push_tail :: "nat \<Rightarrow> byte list \<Rightarrow> head_tail_buffer \<Rightarrow> head_tail_buffer" where
  "push_tail m chunk b =
     (let remaining = tail_budget m - length (buf_tail b);
          excess = length chunk - remaining;
          b = b\<lparr>omitted_bytes := sat_add (omitted_bytes b) excess\<rparr>
      in if excess < length (buf_tail b) then b\<lparr>buf_tail := drop excess (buf_tail b) @ chunk\<rparr>
         else b\<lparr>buf_tail := drop (excess - length (buf_tail b)) chunk\<rparr>)"

definition push_chunk :: "nat \<Rightarrow> byte list \<Rightarrow> head_tail_buffer \<Rightarrow> head_tail_buffer" where
  "push_chunk m chunk b = (case fill_head m chunk b of (b, rest) \<Rightarrow> push_tail m rest b)"

definition to_bytes :: "head_tail_buffer \<Rightarrow> byte list" where
  "to_bytes b = buf_head b @ buf_tail b"

definition format_output_omission_marker :: "nat \<Rightarrow> str" where
  "format_output_omission_marker n = lit ''... '' @ show_nat n @ lit '' bytes omitted ...''"

text \<open>The marker is ASCII, so its bytes are its characters.\<close>

definition to_bytes_with_omission_marker :: "head_tail_buffer \<Rightarrow> byte list" where
  "to_bytes_with_omission_marker b =
     (if omitted_bytes b = 0 then to_bytes b
      else buf_head b @ [10] @ map of_nat (format_output_omission_marker (omitted_bytes b)) @ [10]
        @ buf_tail b)"

text \<open>
  \<open>VecDeque::as_slices\<close> cuts the tail of the pushed buffer in two at some place \<open>slice_at\<close>
  that depends on its history.
\<close>

definition push_buffer :: "nat \<Rightarrow> nat \<Rightarrow> head_tail_buffer \<Rightarrow> head_tail_buffer \<Rightarrow> head_tail_buffer" where
  "push_buffer m slice_at src b =
     (let b = b\<lparr>omitted_bytes := sat_add (omitted_bytes b) (omitted_bytes src)\<rparr>;
          (b, overflow) =
            (if buf_head b = [] then (b\<lparr>buf_head := buf_head src\<rparr>, [])
             else fill_head m (buf_head src) b)
      in if length (buf_tail src) = tail_budget m then
           b\<lparr>omitted_bytes := sat_add (sat_add (omitted_bytes b) (length (buf_tail b))) (length overflow),
             buf_tail := buf_tail src\<rparr>
         else
           (let b = push_tail m overflow b in
            if buf_tail b = [] then b\<lparr>buf_tail := buf_tail src\<rparr>
            else push_tail m (drop slice_at (buf_tail src)) (push_tail m (take slice_at (buf_tail src)) b)))"

section \<open>What the buffer stands for\<close>

text \<open>The buffer of a stream of bytes: its first and last bytes and how many are not kept.\<close>

definition last_bytes :: "nat \<Rightarrow> byte list \<Rightarrow> byte list" where
  "last_bytes n s = drop (length s - n) s"

definition summary :: "nat \<Rightarrow> byte list \<Rightarrow> head_tail_buffer" where
  "summary m s =
     \<lparr>buf_head = take (head_budget m) s,
      buf_tail = last_bytes (tail_budget m) (drop (head_budget m) s),
      omitted_bytes = min (length s - m) USIZE_MAX\<rparr>"

lemma budgets: "head_budget m + tail_budget m = m"
  by (simp add: head_budget_def tail_budget_def)

lemma length_last_bytes [simp]: "length (last_bytes n s) = min n (length s)"
  by (simp add: last_bytes_def)

lemma last_bytes_append: "last_bytes n (last_bytes n s @ t) = last_bytes n (s @ t)"
proof (cases "length s \<le> n")
  case False
  then have "length s + length t - n = (length s - n) + length t" by simp
  with False show ?thesis by (simp add: last_bytes_def add.commute)
qed (simp add: last_bytes_def)

lemma last_bytes_Nil [simp]: "last_bytes n [] = []"
  by (simp add: last_bytes_def)

lemma last_bytes_all: "length s \<le> n \<Longrightarrow> last_bytes n s = s"
  by (simp add: last_bytes_def)

lemma last_bytes_long: "n \<le> length t \<Longrightarrow> last_bytes n (s @ t) = last_bytes n t"
  by (simp add: last_bytes_def)

lemma push_tail_eq:
  assumes "length (buf_tail b) \<le> tail_budget m"
  shows "push_tail m chunk b = b\<lparr>buf_tail := last_bytes (tail_budget m) (buf_tail b @ chunk),
    omitted_bytes := sat_add (omitted_bytes b) (length (buf_tail b) + length chunk - tail_budget m)\<rparr>"
proof -
  have "length chunk - (tail_budget m - length (buf_tail b))
      = length (buf_tail b) + length chunk - tail_budget m"
    using assms by simp
  then show ?thesis
    by (simp add: push_tail_def Let_def last_bytes_def)
qed

lemma fill_head_eq:
  "fill_head m chunk b = (b\<lparr>buf_head := buf_head b @ take (head_budget m - length (buf_head b)) chunk\<rparr>,
     drop (head_budget m - length (buf_head b)) chunk)"
  by (simp add: fill_head_def Let_def)

lemma sat_add_min: "sat_add (min a USIZE_MAX) b = min (a + b) USIZE_MAX"
  by (simp add: sat_add_def)

lemma sat_add_mins: "sat_add (min a USIZE_MAX) (min b USIZE_MAX) = min (a + b) USIZE_MAX"
  by (simp add: sat_add_def)

lemma sat_add_chain:
  "sat_add (sat_add (sat_add (min a USIZE_MAX) (min b USIZE_MAX)) c) d = min (a + b + c + d) USIZE_MAX"
  by (simp add: sat_add_def)

lemma push_tail_summary:
  assumes "head_budget m \<le> length s \<or> chunk = []"
  shows "push_tail m chunk (summary m s) = summary m (s @ chunk)"
proof (cases "chunk = []")
  case True
  then show ?thesis by (simp add: push_tail_eq summary_def sat_add_min last_bytes_def)
next
  case False
  with assms have h: "head_budget m \<le> length s" by simp
  have "length s - m + (min (tail_budget m) (length s - head_budget m) + length chunk - tail_budget m)
      = length s + length chunk - m"
    using h budgets [of m] by simp
  with h show ?thesis
    by (simp add: push_tail_eq summary_def sat_add_min last_bytes_append)
qed

lemma push_chunk_summary: "push_chunk m chunk (summary m s) = summary m (s @ chunk)"
proof -
  let ?k = "head_budget m - length s"
  have "fill_head m chunk (summary m s) = (summary m (s @ take ?k chunk), drop ?k chunk)"
  proof (cases "length s \<le> head_budget m")
    case True
    have "length s + min (length chunk) ?k \<le> m" using True budgets [of m] by simp
    with True show ?thesis using budgets [of m]
      by (simp add: fill_head_eq summary_def min_def last_bytes_def)
  next
    case False
    then show ?thesis by (simp add: fill_head_eq summary_def)
  qed
  moreover have "head_budget m \<le> length (s @ take ?k chunk) \<or> drop ?k chunk = []" by auto
  ultimately show ?thesis
    by (simp add: push_chunk_def push_tail_summary)
qed

lemma push_chunks_summary: "fold (push_chunk m) chunks (summary m s) = summary m (s @ concat chunks)"
  by (induction chunks arbitrary: s) (simp_all add: push_chunk_summary)

lemma summary_empty: "empty_buffer = summary m []"
  by (simp add: empty_buffer_def summary_def last_bytes_def)

lemma push_buffer_full_tail:
  assumes "tail_budget m \<le> length t - head_budget m"
  shows "push_buffer m k (summary m t) (summary m s) = summary m (s @ t)"
proof -
  let ?h = "head_budget m" and ?n = "tail_budget m"
  have full: "length (buf_tail (summary m t)) = ?n" using assms by (simp add: summary_def)
  have len: "?h + ?n \<le> length t"
    using assms by (cases "?h \<le> length t") (auto simp: head_budget_def tail_budget_def)
  have last: "last_bytes ?n (drop ?h t) = last_bytes ?n (drop ?h (s @ t))"
  proof -
    from len have "length t - (?h - length s) - ?n + (?h - length s) = length t - ?h - ?n + ?h" by simp
    then have "last_bytes ?n (drop ?h t) = last_bytes ?n (drop (?h - length s) t)"
      unfolding last_bytes_def drop_drop length_drop by simp
    also have "\<dots> = last_bytes ?n (drop ?h s @ drop (?h - length s) t)"
      using assms by (simp add: last_bytes_long)
    finally show ?thesis by simp
  qed
  have count: "(length s - m) + (length t - m) + min ?n (length s - ?h) + (?h - (?h - length s))
      = length s + length t - m"
    using len budgets [of m] by (cases "length s \<le> ?h"; cases "length s \<le> m") (simp_all add: min_def, linarith+)
  show ?thesis
  proof (cases "s = [] \<or> ?h = 0")
    case True
    then have ne: "take ?h s = []" and head: "take ?h (s @ t) = take ?h t" by auto
    from True count have "(length s - m) + (length t - m) + min ?n (length s - ?h) + 0
      = length s + length t - m" by auto
    moreover have "push_buffer m k (summary m t) (summary m s) =
      \<lparr>buf_head = take ?h t, buf_tail = last_bytes ?n (drop ?h t),
       omitted_bytes = sat_add (sat_add (sat_add (min (length s - m) USIZE_MAX) (min (length t - m) USIZE_MAX))
         (min ?n (length s - ?h))) 0\<rparr>"
      using ne full by (simp add: push_buffer_def Let_def summary_def)
    ultimately have "push_buffer m k (summary m t) (summary m s) =
      \<lparr>buf_head = take ?h t, buf_tail = last_bytes ?n (drop ?h (s @ t)),
       omitted_bytes = min (length s + length t - m) USIZE_MAX\<rparr>"
      by (simp only: sat_add_chain last)
    with head show ?thesis by (simp add: summary_def del: take_append drop_append)
  next
    case False
    let ?r = "?h - length s"
    have ne: "take ?h s \<noteq> []" using False by auto
    have r: "?h - min ?h (length s) = ?r" "min ?r ?h = ?r" by simp_all
    from len have "min ?h (length t) = ?h" by simp
    with count have "(length s - m) + (length t - m) + min ?n (length s - ?h)
      + (min ?h (length t) - ?r) = length s + length t - m" by simp
    moreover have "push_buffer m k (summary m t) (summary m s) =
      \<lparr>buf_head = take ?h s @ take ?r t, buf_tail = last_bytes ?n (drop ?h t),
       omitted_bytes = sat_add (sat_add (sat_add (min (length s - m) USIZE_MAX) (min (length t - m) USIZE_MAX))
         (min ?n (length s - ?h))) (min ?h (length t) - ?r)\<rparr>"
      using ne full r by (simp add: push_buffer_def Let_def summary_def fill_head_eq min.commute)
    ultimately have "push_buffer m k (summary m t) (summary m s) =
      \<lparr>buf_head = take ?h s @ take ?r t, buf_tail = last_bytes ?n (drop ?h (s @ t)),
       omitted_bytes = min (length s + length t - m) USIZE_MAX\<rparr>"
      by (simp only: sat_add_chain last)
    then show ?thesis by (simp add: summary_def)
  qed
qed

lemma push_tail_slices:
  assumes "head_budget m \<le> length s \<or> c = []"
  shows "push_tail m (drop k c) (push_tail m (take k c) (summary m s)) = summary m (s @ c)"
proof -
  have "head_budget m \<le> length (s @ take k c) \<or> drop k c = []" using assms by auto
  moreover have "head_budget m \<le> length s \<or> take k c = []" using assms by auto
  ultimately show ?thesis by (simp add: push_tail_summary)
qed

lemma push_buffer_open_tail:
  assumes "length t - head_budget m < tail_budget m"
  shows "push_buffer m k (summary m t) (summary m s) = summary m (s @ t)"
proof -
  let ?h = "head_budget m" and ?n = "tail_budget m"
  have t: "summary m t = \<lparr>buf_head = take ?h t, buf_tail = drop ?h t, omitted_bytes = 0\<rparr>"
    using assms budgets [of m] by (simp add: summary_def last_bytes_all)
  have s0: "(summary m s)\<lparr>omitted_bytes := sat_add (omitted_bytes (summary m s)) 0\<rparr> = summary m s"
    by (simp add: summary_def sat_add_def)
  have tail: "length (drop ?h t) \<noteq> ?n" using assms by simp
  show ?thesis
  proof (cases "take ?h s = []")
    case True
    show ?thesis
    proof (cases "s = []")
      case True
      then have "(summary m s)\<lparr>buf_head := take ?h t\<rparr> = \<lparr>buf_head = take ?h t, buf_tail = [], omitted_bytes = 0\<rparr>"
        by (simp add: summary_def last_bytes_def)
      with True t s0 tail show ?thesis
        by (simp add: push_buffer_def Let_def push_tail_eq last_bytes_def sat_add_def) (simp add: summary_def last_bytes_def)
    next
      case False
      with True have h: "?h = 0" by simp
      then have "m < 2" by (simp add: head_budget_def div_eq_0_iff)
      with assms h have "t = []" by (cases t) (auto simp: tail_budget_def)
      with h s0 tail True show ?thesis
        using push_tail_slices [of m s "[]" k] push_tail_summary [of m s "[]"]
        by (simp add: push_buffer_def Let_def t) (auto simp: summary_def)
    qed
  next
    case False
    let ?b = "summary m (s @ take ?h t)"
    obtain b0 overflow where f: "fill_head m (take ?h t) (summary m s) = (b0, overflow)"
      by fastforce
    with push_chunk_summary [of m "take ?h t" s] have b: "push_tail m overflow b0 = ?b"
      by (simp add: push_chunk_def)
    have "buf_head (summary m s) \<noteq> []" using False by (simp add: summary_def)
    then have "push_buffer m k (summary m t) (summary m s) =
        (if buf_tail ?b = [] then ?b\<lparr>buf_tail := drop ?h t\<rparr>
         else push_tail m (drop k (drop ?h t)) (push_tail m (take k (drop ?h t)) ?b))"
      using tail by (simp add: push_buffer_def t s0 f b del: drop_drop)
    moreover have "?h \<le> length (s @ take ?h t) \<or> drop ?h t = []" by auto
    moreover have "?b\<lparr>buf_tail := drop ?h t\<rparr> = summary m (s @ t)" if "buf_tail ?b = []"
    proof -
      from that have "min ?n (length (s @ take ?h t) - ?h) = 0"
        by (simp add: summary_def del: drop_append flip: length_0_conv)
      then have short: "length (s @ take ?h t) \<le> ?h" using assms by (simp add: min_def split: if_splits)
      moreover have "s \<noteq> []" using False by auto
      ultimately have "drop ?h t = []" by (cases s) (auto simp: min_def split: if_splits)
      with short have "drop ?h (s @ take ?h t) = []" "drop ?h t = []" by simp_all
      then show ?thesis by (simp add: summary_def last_bytes_def)
    qed
    ultimately show ?thesis by (simp add: push_tail_slices del: drop_drop)
  qed
qed

lemma push_buffer_summary: "push_buffer m k (summary m t) (summary m s) = summary m (s @ t)"
  using push_buffer_full_tail push_buffer_open_tail by (metis linorder_not_le)

text \<open>
  A buffer into which chunks are pushed stands for the concatenation of the chunks: it
  has the first half of the capacity of its bytes, the last half of those after, and the
  number of bytes in between, which saturates. Pushing a second buffer gives exactly the
  buffer of both streams, wherever the ring of its tail happens to wrap.
\<close>

theorem buffer_summarises_stream:
  "fold (push_chunk m) chunks empty_buffer = summary m (concat chunks)
   \<and> push_buffer m k (fold (push_chunk m) chunks' empty_buffer) (fold (push_chunk m) chunks empty_buffer)
     = summary m (concat chunks @ concat chunks')"
  using push_chunks_summary [of m _ "[]"] by (simp add: summary_empty [of m] push_buffer_summary)

text \<open>
  A buffer never holds more bytes than its capacity, its total is the number of bytes
  pushed as long as that is a \<open>usize\<close>, and output that fits comes out unchanged, without
  a marker.
\<close>

theorem buffer_bounds:
  assumes "m \<le> USIZE_MAX" and "b = fold (push_chunk m) chunks empty_buffer"
  shows "length (to_bytes b) \<le> m
    \<and> total_bytes b = min (length (concat chunks)) USIZE_MAX
    \<and> (length (concat chunks) \<le> m \<longrightarrow> to_bytes_with_omission_marker b = concat chunks)"
proof -
  let ?s = "concat chunks"
  have b: "b = summary m ?s"
    using assms(2) push_chunks_summary [of m chunks "[]"] by (simp add: summary_empty [of m])
  have "length (to_bytes b) = min m (length ?s)"
    using budgets [of m] by (simp add: b to_bytes_def summary_def)
  moreover have "retained_bytes b = length (to_bytes b)"
    using calculation assms(1) by (simp add: retained_bytes_def to_bytes_def sat_add_def)
  moreover have "to_bytes_with_omission_marker b = ?s" if "length ?s \<le> m"
    using that budgets [of m]
    by (simp add: b to_bytes_with_omission_marker_def to_bytes_def summary_def last_bytes_all)
  ultimately show ?thesis
    using assms(1) by (auto simp: total_bytes_def sat_add_def b summary_def min_def)
qed

theorem buffer_bounds_witness:
  "to_bytes_with_omission_marker (fold (push_chunk 10) [[1, 2], [3]] empty_buffer) = [1, 2, 3]"
  using buffer_bounds [of 10 _ "[[1, 2], [3]]", OF _ refl] by (simp add: USIZE_MAX_def)

end
