(* ===== verification/StreamText.thy ===== *)
theory StreamText
  imports Prelude
begin

text \<open>
  \<open>utils/stream-parser/src/stream_text.rs\<close>: what a parser of streamed text returns for each
  chunk, and the trait \<open>StreamTextParser\<close> as an interface whose one contract is that the
  cutting of the text into chunks does not matter. Facts on the search in a text that the
  parsers share are here too.
\<close>

section \<open>Chunks\<close>

record 'x stream_chunk =
  visible_text :: str
  extracted :: "'x list"

definition empty_chunk :: "'x stream_chunk" where
  "empty_chunk = \<lparr>visible_text = [], extracted = []\<rparr>"

definition chunk_is_empty :: "'x stream_chunk \<Rightarrow> bool" where
  "chunk_is_empty c \<longleftrightarrow> visible_text c = [] \<and> extracted c = []"

definition add_chunk :: "'x stream_chunk \<Rightarrow> 'x stream_chunk \<Rightarrow> 'x stream_chunk" where
  "add_chunk c d = \<lparr>visible_text = visible_text c @ visible_text d, extracted = extracted c @ extracted d\<rparr>"

lemma add_empty_chunk [simp]: "add_chunk empty_chunk c = c" "add_chunk c empty_chunk = c"
  by (simp_all add: add_chunk_def empty_chunk_def)

lemma add_chunk_assoc: "add_chunk (add_chunk c d) e = add_chunk c (add_chunk d e)"
  by (simp add: add_chunk_def)

section \<open>The interface\<close>

text \<open>
  A push may not return (\<open>None\<close>). What a caller sees of the outputs is their \<open>obs\<close>, put
  together by \<open>cat\<close>; \<open>ok\<close> is what holds of a parser between two pushes.
\<close>

locale stream_parser =
  fixes ok :: "'p \<Rightarrow> bool"
    and push :: "'p \<Rightarrow> str \<Rightarrow> ('p \<times> 'o) option"
    and finish :: "'p \<Rightarrow> 'p \<times> 'o"
    and obs :: "'o \<Rightarrow> 'v"
    and cat :: "'v \<Rightarrow> 'v \<Rightarrow> 'v"
    and nothing :: 'v
  assumes push_returns: "ok p \<Longrightarrow> \<exists>p' out. push p s = Some (p', out) \<and> ok p'"
    and push_Nil: "ok p \<Longrightarrow> push p [] = Some (p', out) \<Longrightarrow> p' = p \<and> obs out = nothing"
    and push_append: "ok p \<Longrightarrow> push p s = Some (p', out) \<Longrightarrow> push p' t = Some (p'', out') \<Longrightarrow>
      \<exists>both. push p (s @ t) = Some (p'', both) \<and> obs both = cat (obs out) (obs out')"
    and cat_assoc: "cat (cat u v) w = cat u (cat v w)"
    and nothing_cat: "cat nothing (obs out) = obs out"
begin

text \<open>All chunks, and the end of the stream.\<close>

fun feed_all :: "'p \<Rightarrow> str list \<Rightarrow> ('p \<times> 'v) option" where
  "feed_all p [] = Some (p, nothing)"
| "feed_all p (s # ss) =
     (case push p s of
        None \<Rightarrow> None
      | Some (p', out) \<Rightarrow>
          (case feed_all p' ss of
             None \<Rightarrow> None
           | Some (p'', v) \<Rightarrow> Some (p'', cat (obs out) v)))"

definition stream_all :: "'p \<Rightarrow> str list \<Rightarrow> 'v option" where
  "stream_all p ss =
     (case feed_all p ss of
        None \<Rightarrow> None
      | Some (p', v) \<Rightarrow> Some (cat v (obs (snd (finish p')))))"

lemma feed_all_concat:
  "ok p \<Longrightarrow> \<exists>p' out v. push p (concat ss) = Some (p', out) \<and> feed_all p ss = Some (p', v)
     \<and> (\<forall>o'. cat v (obs o') = cat (obs out) (obs o')) \<and> ok p'"
proof (induction ss arbitrary: p)
  case Nil
  from push_returns [OF Nil, of "[]"] obtain p' out where "push p [] = Some (p', out)" by blast
  with push_Nil [OF Nil this] Nil show ?case by (simp add: nothing_cat)
next
  case (Cons s ss)
  from push_returns [OF Cons.prems] obtain p1 o1 where 1: "push p s = Some (p1, o1)" "ok p1" by blast
  from Cons.IH [OF 1(2)] obtain p2 o2 v where 2: "push p1 (concat ss) = Some (p2, o2)"
    "feed_all p1 ss = Some (p2, v)" "\<forall>o'. cat v (obs o') = cat (obs o2) (obs o')" "ok p2" by blast
  from push_append [OF Cons.prems 1(1) 2(1)] obtain both where
    "push p (s @ concat ss) = Some (p2, both)" "obs both = cat (obs o1) (obs o2)" by blast
  with 1 2 show ?case by (simp add: cat_assoc)
qed

theorem chunking_irrelevant:
  assumes "ok p"
  shows "\<exists>p' out. push p (concat ss) = Some (p', out)
    \<and> stream_all p ss = Some (cat (obs out) (obs (snd (finish p'))))"
  using feed_all_concat [OF assms, of ss] by (fastforce simp: stream_all_def)

end

section \<open>Searching\<close>

definition occurs_at :: "str \<Rightarrow> str \<Rightarrow> nat \<Rightarrow> bool" where
  "occurs_at p s i \<longleftrightarrow> i \<le> length s \<and> take (length p) (drop i s) = p"

lemma starts_with_iff: "starts_with s p \<longleftrightarrow> (\<exists>t. s = p @ t)"
  by (simp add: starts_with_def strip_prefix_Some_iff)

lemma ends_with_iff: "ends_with s p \<longleftrightarrow> (\<exists>t. s = t @ p)"
  by (simp add: ends_with_def strip_suffix_Some_iff)

lemma take_length_iff: "take (length p) s = p \<longleftrightarrow> (\<exists>t. s = p @ t)"
  by (metis append_eq_conv_conj append_take_drop_id)

lemma occurs_at_0: "occurs_at p s 0 \<longleftrightarrow> starts_with s p"
  by (simp add: occurs_at_def starts_with_iff take_length_iff)

lemma occurs_at_Suc: "occurs_at p (c # s) (Suc i) \<longleftrightarrow> occurs_at p s i"
  by (simp add: occurs_at_def)

lemma occurs_at_iff: "occurs_at p s i \<longleftrightarrow> i \<le> length s \<and> (\<exists>t. drop i s = p @ t)"
  by (simp add: occurs_at_def take_length_iff)

lemma occurs_at_length: "occurs_at p s i \<Longrightarrow> i + length p \<le> length s"
  by (auto simp: occurs_at_iff dest!: arg_cong [of _ _ length])

lemma occurs_at_append: "occurs_at p s i \<Longrightarrow> occurs_at p (s @ t) i"
  using occurs_at_length [of p s i] by (simp add: occurs_at_def)

lemma occurs_at_prefix: "i + length p \<le> length s \<Longrightarrow> occurs_at p (s @ t) i \<longleftrightarrow> occurs_at p s i"
  by (simp add: occurs_at_def)

lemma occurs_at_after: "occurs_at p (u @ s) (length u + i) \<longleftrightarrow> occurs_at p s i"
  by (simp add: occurs_at_def)

lemma occurs_at_nth: "occurs_at p s i \<Longrightarrow> k < length p \<Longrightarrow> s ! (i + k) = p ! k"
  using occurs_at_length [of p s i] by (metis nth_take nth_drop occurs_at_def)

lemma str_find_Some_iff:
  "str_find p s = Some i \<longleftrightarrow> occurs_at p s i \<and> (\<forall>j < i. \<not> occurs_at p s j)"
proof (induction s arbitrary: i)
  case Nil
  then show ?case by (auto simp: occurs_at_def)
next
  case (Cons c s)
  show ?case
  proof (cases i)
    case 0
    then show ?thesis by (auto simp: occurs_at_0)
  next
    case (Suc n)
    have "(\<forall>j < Suc n. \<not> occurs_at p (c # s) j)
        \<longleftrightarrow> \<not> starts_with (c # s) p \<and> (\<forall>j < n. \<not> occurs_at p s j)"
      by (auto simp: less_Suc_eq_0_disj occurs_at_0 occurs_at_Suc)
    then show ?thesis using Cons.IH [of n] by (auto simp: Suc occurs_at_Suc)
  qed
qed

lemma str_find_occurs: "str_find p s = None \<Longrightarrow> \<not> occurs_at p s i"
proof (induction s arbitrary: i)
  case (Cons c s)
  then show ?case by (cases i) (auto simp: occurs_at_0 occurs_at_Suc split: if_splits)
qed (auto simp: occurs_at_def split: if_splits)

lemma str_find_None_iff: "str_find p s = None \<longleftrightarrow> (\<forall>i. \<not> occurs_at p s i)"
  using str_find_occurs [of p s] str_find_Some_iff [of p s] by (cases "str_find p s") auto

text \<open>A pattern whose first character does not occur again is found where it was put.\<close>

lemma str_find_border:
  assumes "p \<noteq> []" and "hd p \<notin> set (tl p)" and "\<not> str_contains v p"
  shows "str_find p (v @ p @ s) = Some (length v)"
proof -
  have no: "\<not> occurs_at p (v @ p @ s) j" if j: "j < length v" for j
  proof (cases "j + length p \<le> length v")
    case True
    then show ?thesis using assms(3)
      by (simp add: occurs_at_prefix str_contains_def str_find_None_iff)
  next
    case False
    let ?k = "length v - j"
    have k: "?k < length p" "?k \<noteq> 0" using j False by auto
    show ?thesis
    proof
      assume "occurs_at p (v @ p @ s) j"
      from occurs_at_nth [OF this k(1)] have "p ! 0 = p ! ?k" using j assms(1) by (simp add: nth_append)
      moreover have "p ! ?k \<in> set (tl p)"
        using k nth_mem [of "?k - 1" "tl p"] by (cases p) (simp_all add: nth_Cons')
      ultimately show False using assms(1,2) by (simp add: hd_conv_nth)
    qed
  qed
  moreover have "occurs_at p (v @ p @ s) (length v)" by (simp add: occurs_at_def)
  ultimately show ?thesis by (simp add: str_find_Some_iff)
qed

end
