(* ===== verification/HiddenTag.thy ===== *)
theory HiddenTag
  imports StreamText "HOL-Library.Monad_Syntax"
begin

text \<open>
  \<open>utils/stream-parser/src/inline_hidden_tag.rs\<close> and \<open>citation.rs\<close>: the streaming parser
  that hides inline tags and extracts what is in them, and its one use, the citations of an
  assistant message.
\<close>

section \<open>The parser\<close>

record 't extracted_tag =
  ext_tag :: 't
  ext_content :: str

record 't tag_spec =
  spec_tag :: 't
  spec_open :: str
  spec_close :: str

record 't active_tag =
  act_tag :: 't
  act_close :: str
  act_content :: str

record 't hidden_parser =
  specs :: "'t tag_spec list"
  pending :: str
  active :: "'t active_tag option"

text \<open>The assertions of \<open>new\<close> are panics.\<close>

definition new_hidden_parser :: "'t tag_spec list \<Rightarrow> str fault + 't hidden_parser" where
  "new_hidden_parser sps =
     (if sps = [] \<or> list_ex (\<lambda>sp. spec_open sp = [] \<or> spec_close sp = []) sps then Inl Panic
      else Inr \<lparr>specs = sps, pending = [], active = None\<rparr>)"

text \<open>The first tag that opens; of two at one place the longer, then the earlier one.\<close>

fun opens_before :: "nat \<times> nat \<times> nat \<Rightarrow> nat \<times> nat \<times> nat \<Rightarrow> bool" where
  "opens_before (p, l, i) (p', l', i') \<longleftrightarrow>
     p < p' \<or> p = p' \<and> (l' < l \<or> l = l' \<and> i \<le> i')"

fun min_open :: "(nat \<times> nat \<times> nat) list \<Rightarrow> (nat \<times> nat \<times> nat) option" where
  "min_open [] = None"
| "min_open (c # cs) =
     (case min_open cs of None \<Rightarrow> Some c | Some d \<Rightarrow> Some (if opens_before c d then c else d))"

definition find_next_open :: "'t hidden_parser \<Rightarrow> (nat \<times> nat) option" where
  "find_next_open p =
     map_option (\<lambda>(pos, len, idx). (pos, idx))
       (min_open (List.map_filter (\<lambda>(idx, sp).
          map_option (\<lambda>pos. (pos, str_len (spec_open sp), idx)) (str_find (spec_open sp) (pending p)))
          (List.enumerate 0 (specs p))))"

text \<open>
  The longest proper prefix of the needle that ends the text. The source counts bytes and
  skips places inside a character; here the places are those between characters.
\<close>

definition longest_suffix_prefix_len :: "str \<Rightarrow> str \<Rightarrow> nat" where
  "longest_suffix_prefix_len s needle =
     (case List.find (\<lambda>k. ends_with s (take k needle)) (rev [1..<length needle]) of
        Some k \<Rightarrow> k | None \<Rightarrow> 0)"

definition max_open_prefix_suffix_len :: "'t hidden_parser \<Rightarrow> nat" where
  "max_open_prefix_suffix_len p =
     fold max (map (\<lambda>sp. longest_suffix_prefix_len (pending p) (spec_open sp)) (specs p)) 0"

definition push_visible_prefix :: "'x stream_chunk \<Rightarrow> str \<Rightarrow> 'x stream_chunk" where
  "push_visible_prefix out s = (if s \<noteq> [] then out\<lparr>visible_text := visible_text out @ s\<rparr> else out)"

definition drain_visible_to_suffix_match ::
    "nat \<Rightarrow> 't hidden_parser \<Rightarrow> 'x stream_chunk \<Rightarrow> 't hidden_parser \<times> 'x stream_chunk" where
  "drain_visible_to_suffix_match keep p out =
     (let n = length (pending p) - keep in
      if n = 0 then (p, out)
      else (p\<lparr>pending := drop n (pending p)\<rparr>, push_visible_prefix out (take n (pending p))))"

definition push_extracted :: "'x stream_chunk \<Rightarrow> 'x \<Rightarrow> 'x stream_chunk" where
  "push_extracted out x = out\<lparr>extracted := extracted out @ [x]\<rparr>"

text \<open>One tag closed, the pending text of an open tag taken in, one tag opened.\<close>

definition close_tag ::
    "nat \<Rightarrow> 't active_tag \<Rightarrow> 't hidden_parser \<Rightarrow> 't extracted_tag stream_chunk
     \<Rightarrow> 't hidden_parser \<times> 't extracted_tag stream_chunk" where
  "close_tag i a p out =
     (p\<lparr>active := None, pending := drop (i + length (act_close a)) (pending p)\<rparr>,
      push_extracted out
        \<lparr>ext_tag = act_tag a, ext_content = act_content a @ take i (pending p)\<rparr>)"

definition absorb :: "'t active_tag \<Rightarrow> 't hidden_parser \<Rightarrow> 't hidden_parser" where
  "absorb a p =
     (let n = length (pending p) - longest_suffix_prefix_len (pending p) (act_close a) in
      if n = 0 then p
      else p\<lparr>active := Some (a\<lparr>act_content := act_content a @ take n (pending p)\<rparr>),
             pending := drop n (pending p)\<rparr>)"

definition open_tag ::
    "nat \<Rightarrow> 't tag_spec \<Rightarrow> 't hidden_parser \<Rightarrow> 'x stream_chunk \<Rightarrow> 't hidden_parser \<times> 'x stream_chunk" where
  "open_tag i sp p out =
     (p\<lparr>pending := drop (i + length (spec_open sp)) (pending p),
        active := Some \<lparr>act_tag = spec_tag sp, act_close = spec_close sp, act_content = []\<rparr>\<rparr>,
      push_visible_prefix out (take i (pending p)))"

text \<open>The loop of \<open>push_str\<close>: with an empty delimiter it would not end.\<close>

partial_function (option) hidden_loop ::
    "'t hidden_parser \<Rightarrow> 't extracted_tag stream_chunk \<Rightarrow> ('t hidden_parser \<times> 't extracted_tag stream_chunk) option" where
  "hidden_loop p out =
     (case active p of
        Some a \<Rightarrow>
          (case str_find (act_close a) (pending p) of
             Some i \<Rightarrow> hidden_loop (fst (close_tag i a p out)) (snd (close_tag i a p out))
           | None \<Rightarrow> Some (absorb a p, out))
      | None \<Rightarrow>
          (case find_next_open p of
             Some (i, idx) \<Rightarrow>
               hidden_loop (fst (open_tag i (specs p ! idx) p out)) (snd (open_tag i (specs p ! idx) p out))
           | None \<Rightarrow> Some (drain_visible_to_suffix_match (max_open_prefix_suffix_len p) p out)))"

definition hidden_push ::
    "'t hidden_parser \<Rightarrow> str \<Rightarrow> ('t hidden_parser \<times> 't extracted_tag stream_chunk) option" where
  "hidden_push p chunk = hidden_loop (p\<lparr>pending := pending p @ chunk\<rparr>) empty_chunk"

definition hidden_finish :: "'t hidden_parser \<Rightarrow> 't hidden_parser \<times> 't extracted_tag stream_chunk" where
  "hidden_finish p =
     (case active p of
        Some a \<Rightarrow>
          (p\<lparr>active := None, pending := []\<rparr>,
           push_extracted empty_chunk
             \<lparr>ext_tag = act_tag a, ext_content = act_content a @ pending p\<rparr>)
      | None \<Rightarrow>
          (if pending p \<noteq> [] then
             (p\<lparr>pending := []\<rparr>, empty_chunk\<lparr>visible_text := pending p\<rparr>)
           else (p, empty_chunk)))"

section \<open>Citations\<close>

datatype citation_tag = Citation

definition CITATION_OPEN :: str where "CITATION_OPEN = lit ''<oai-mem-citation>''"
definition CITATION_CLOSE :: str where "CITATION_CLOSE = lit ''</oai-mem-citation>''"

definition citation_spec :: "citation_tag tag_spec" where
  "citation_spec = \<lparr>spec_tag = Citation, spec_open = CITATION_OPEN, spec_close = CITATION_CLOSE\<rparr>"

type_synonym citation_parser = "citation_tag hidden_parser"

definition new_citation_parser :: "str fault + citation_parser" where
  "new_citation_parser = new_hidden_parser [citation_spec]"

definition citation_chunk :: "citation_tag extracted_tag stream_chunk \<Rightarrow> str stream_chunk" where
  "citation_chunk c = \<lparr>visible_text = visible_text c, extracted = map ext_content (extracted c)\<rparr>"

definition citation_push :: "citation_parser \<Rightarrow> str \<Rightarrow> (citation_parser \<times> str stream_chunk) option" where
  "citation_push p chunk = map_option (\<lambda>(p, c). (p, citation_chunk c)) (hidden_push p chunk)"

definition citation_finish :: "citation_parser \<Rightarrow> citation_parser \<times> str stream_chunk" where
  "citation_finish p = (case hidden_finish p of (p, c) \<Rightarrow> (p, citation_chunk c))"

text \<open>\<open>None\<close> is a panic of \<open>new\<close> or a loop without end; neither happens, as is proved.\<close>

definition strip_citations :: "str \<Rightarrow> (str \<times> str list) option" where
  "strip_citations s =
     (case new_citation_parser of
        Inl e \<Rightarrow> None
      | Inr p \<Rightarrow>
          (case citation_push p s of
             None \<Rightarrow> None
           | Some (p, out) \<Rightarrow>
               (let tail = snd (citation_finish p) in
                Some (visible_text out @ visible_text tail, extracted out @ extracted tail))))"

declare hidden_loop.simps [code]

end
