(* ===== verification/HiddenTagCorrect.thy ===== *)
theory HiddenTagCorrect
  imports HiddenTag
begin

text \<open>
  The streaming parser of hidden tags returns, does not depend on how the text is cut into
  chunks when it has one tag, and holds back less than a delimiter; what citations are.
\<close>

section \<open>The suffix that may begin a delimiter\<close>

lemma find_rev_upt_Some_iff:
  "List.find P (rev [a..<b]) = Some k \<longleftrightarrow> a \<le> k \<and> k < b \<and> P k \<and> (\<forall>j. k < j \<and> j < b \<longrightarrow> \<not> P j)"
proof (induction b)
  case (Suc b)
  then show ?case by (auto simp: less_Suc_eq)
qed simp

lemma longest_suffix_max:
  "ends_with s (take k c) \<Longrightarrow> k < length c \<Longrightarrow> k \<le> longest_suffix_prefix_len s c"
  by (auto simp: longest_suffix_prefix_len_def find_rev_upt_Some_iff find_None_iff split: option.split)
     (meson not_le_imp_less)

lemma longest_suffix_ends: "ends_with s (take (longest_suffix_prefix_len s c) c)"
  by (auto simp: longest_suffix_prefix_len_def find_rev_upt_Some_iff ends_with_iff split: option.split)

lemma longest_suffix_less: "c \<noteq> [] \<Longrightarrow> longest_suffix_prefix_len s c < length c"
  by (auto simp: longest_suffix_prefix_len_def find_rev_upt_Some_iff split: option.split)

lemma longest_suffix_le: "longest_suffix_prefix_len s c \<le> length s"
proof (cases "c = []")
  case False
  from longest_suffix_ends [of s c] obtain t where
    "s = t @ take (longest_suffix_prefix_len s c) c" by (auto simp: ends_with_iff)
  from arg_cong [OF this, of length] longest_suffix_less [OF False, of s] show ?thesis by simp
qed (simp add: longest_suffix_prefix_len_def)

lemma ends_with_append_short:
  "length q \<le> length s \<Longrightarrow> ends_with (u @ s) q \<longleftrightarrow> ends_with s q"
proof
  assume le: "length q \<le> length s" and "ends_with (u @ s) q"
  then obtain t where "u @ s = t @ q" by (auto simp: ends_with_iff)
  with le obtain w where "s = w @ q" by (auto simp: append_eq_append_conv2)
  then show "ends_with s q" by (auto simp: ends_with_iff)
qed (auto simp: ends_with_iff)

text \<open>What is not kept of a text can be forgotten: it takes part in no later occurrence.\<close>

lemma forget_prefix:
  assumes "str_find c x = None" and "n = length x - longest_suffix_prefix_len x c"
  shows "str_find c (x @ y) = map_option ((+) n) (str_find c (drop n x @ y))"
    and "longest_suffix_prefix_len (x @ y) c = longest_suffix_prefix_len (drop n x @ y) c"
proof -
  let ?u = "take n x" and ?v = "drop n x"
  have n: "n \<le> length x" "length ?u = n" using assms(2) by simp_all
  have xy: "x @ y = ?u @ ?v @ y" by simp
  have v: "length ?v = longest_suffix_prefix_len x c"
    using assms(2) longest_suffix_le [of x c] by simp
  have partial: False if "i < n" "0 < m" "m < length c" "drop i x = take m c" for i m
  proof -
    have "ends_with x (take m c)" unfolding ends_with_iff
      by (metis append_take_drop_id that(4))
    then have "m \<le> longest_suffix_prefix_len x c" by (rule longest_suffix_max [OF _ that(3)])
    moreover have "length x - i = m" using arg_cong [OF that(4), of length] that(3) by simp
    ultimately show False using that(1) v n by simp
  qed
  have none: "\<not> occurs_at c (x @ y) i" if i: "i < n" for i
  proof (cases "i + length c \<le> length x")
    case True
    with assms(1) show ?thesis by (simp add: occurs_at_prefix str_find_None_iff)
  next
    case False
    have "drop i x = take (length x - i) c" if "occurs_at c (x @ y) i"
    proof -
      from that have "take (length c) (drop i x @ y) = c" using i n by (simp add: occurs_at_def)
      then have "take (length x - i) (drop i x @ y) = take (length x - i) c" using False
        by (metis (no_types, lifting) add.commute le_diff_conv min.absorb1 nat_le_linear take_take)
      then show ?thesis by simp
    qed
    moreover have "length x - i < length c" "0 < length x - i" using False i n by linarith+
    ultimately show ?thesis using partial [OF i, of "length x - i"] by blast
  qed
  have shift: "occurs_at c (x @ y) (n + j) \<longleftrightarrow> occurs_at c (?v @ y) j" for j
    by (metis xy n(2) occurs_at_after)
  show "str_find c (x @ y) = map_option ((+) n) (str_find c (?v @ y))"
  proof (cases "str_find c (?v @ y)")
    case None
    have "\<not> occurs_at c (x @ y) i" for i
      using none [of i] None shift [of "i - n"] by (cases "i < n") (auto simp: str_find_None_iff)
    then have "str_find c (x @ y) = None" by (simp add: str_find_None_iff)
    with None show ?thesis by simp
  next
    case (Some j)
    have "\<not> occurs_at c (x @ y) i" if "i < n + j" for i
      using none [of i] Some shift [of "i - n"] that
      by (cases "i < n") (auto simp: str_find_Some_iff)
    moreover have "occurs_at c (x @ y) (n + j)"
      using Some shift [of j] by (simp add: str_find_Some_iff)
    ultimately have "str_find c (x @ y) = Some (n + j)" by (simp add: str_find_Some_iff)
    with Some show ?thesis by simp
  qed
  have "ends_with (x @ y) (take m c) \<longleftrightarrow> ends_with (?v @ y) (take m c)"
    if m: "m \<in> set (rev [1..<length c])" for m
  proof (cases "m \<le> length (?v @ y)")
    case True
    then show ?thesis unfolding xy using m by (intro ends_with_append_short) auto
  next
    case False
    have "\<not> ends_with (x @ y) (take m c)"
    proof
      assume "ends_with (x @ y) (take m c)"
      then obtain t where t: "x @ y = t @ take m c" by (auto simp: ends_with_iff)
      from arg_cong [OF t, of length] m have len: "length x + length y = length t + m" by simp
      with False n have i: "length t < n" by simp
      from t have "drop (length t) (x @ y) = take m c" by simp
      then have "drop (length t) x @ y = take m c" using i n by simp
      then have "take (m - length y) (drop (length t) x @ y) = take (m - length y) (take m c)" by simp
      then have "drop (length t) x = take (m - length y) c" using len by simp
      moreover have "0 < m - length y" using len i n by simp
      moreover have "m - length y < length c" using m by (auto intro: less_imp_diff_less)
      ultimately show False using partial [OF i] by blast
    qed
    moreover have "\<not> ends_with (?v @ y) (take m c)"
      using False m by (auto simp: ends_with_iff dest!: arg_cong [of _ _ length])
    ultimately show ?thesis by simp
  qed
  then show "longest_suffix_prefix_len (x @ y) c = longest_suffix_prefix_len (?v @ y) c"
    unfolding longest_suffix_prefix_len_def by (metis (mono_tags, lifting) find_cong)
qed

section \<open>The loop returns\<close>

definition delimited :: "'t hidden_parser \<Rightarrow> bool" where
  "delimited p \<longleftrightarrow> list_all (\<lambda>sp. spec_open sp \<noteq> [] \<and> spec_close sp \<noteq> []) (specs p)
     \<and> pred_option (\<lambda>a. act_close a \<noteq> []) (active p)"

lemma min_open_in: "min_open cs = Some c \<Longrightarrow> c \<in> set cs"
  by (induction cs arbitrary: c) (auto split: option.splits if_splits)

lemma find_next_open_Some:
  assumes "find_next_open p = Some (i, idx)"
  shows "idx < length (specs p) \<and> str_find (spec_open (specs p ! idx)) (pending p) = Some i"
  using assms
  by (auto simp: find_next_open_def map_filter_def in_set_enumerate_eq dest!: min_open_in)

lemma str_find_less:
  "str_find d s = Some i \<Longrightarrow> d \<noteq> [] \<Longrightarrow> length (drop (i + length d) s) < length s"
  using occurs_at_length [of d s i] by (simp add: str_find_Some_iff) (cases d; simp)

lemma turn_fields [simp]:
  "specs (fst (close_tag i a p out)) = specs p" "active (fst (close_tag i a p out)) = None"
  "pending (fst (close_tag i a p out)) = drop (i + length (act_close a)) (pending p)"
  "specs (fst (open_tag i sp p out)) = specs p"
  "active (fst (open_tag i sp p out)) = Some \<lparr>act_tag = spec_tag sp, act_close = spec_close sp, act_content = []\<rparr>"
  "pending (fst (open_tag i sp p out)) = drop (i + length (spec_open sp)) (pending p)"
  by (simp_all add: close_tag_def open_tag_def)

lemma hold_fields [simp]:
  "specs (absorb a p) = specs p" "active p = Some a \<Longrightarrow> map_option act_close (active (absorb a p)) = Some (act_close a)"
  "specs (fst (drain_visible_to_suffix_match k p out)) = specs p"
  "active (fst (drain_visible_to_suffix_match k p out)) = active p"
  by (simp_all add: absorb_def drain_visible_to_suffix_match_def Let_def)

lemma delimited_absorb: "delimited p \<Longrightarrow> active p = Some a \<Longrightarrow> delimited (absorb a p)"
  by (auto simp: delimited_def absorb_def Let_def)

lemma hidden_loop_returns:
  "delimited p \<Longrightarrow> \<exists>p' out'. hidden_loop p out = Some (p', out') \<and> delimited p'"
proof (induction "length (pending p)" arbitrary: p out rule: less_induct)
  case less
  show ?case
  proof (cases "active p")
    case (Some a)
    show ?thesis
    proof (cases "str_find (act_close a) (pending p)")
      case None
      with Some less.prems show ?thesis
        by (subst hidden_loop.simps) (simp add: delimited_absorb)
    next
      case (Some i)
      let ?r = "close_tag i a p out"
      have "delimited (fst ?r)" "act_close a \<noteq> []"
        using less.prems \<open>active p = Some a\<close> by (simp_all add: delimited_def)
      with less.hyps [of "fst ?r" "snd ?r"] str_find_less [OF Some] \<open>active p = Some a\<close> Some
      show ?thesis by (subst hidden_loop.simps) simp
    qed
  next
    case None
    show ?thesis
    proof (cases "find_next_open p")
      case None
      let ?r = "drain_visible_to_suffix_match (max_open_prefix_suffix_len p) p out"
      have "delimited (fst ?r)" using less.prems by (simp add: delimited_def)
      with None \<open>active p = None\<close> show ?thesis
        by (subst hidden_loop.simps) (cases ?r, simp)
    next
      case (Some r)
      obtain i idx where r: "r = (i, idx)" by fastforce
      let ?sp = "specs p ! idx" and ?r = "open_tag i (specs p ! idx) p out"
      from find_next_open_Some [OF Some [unfolded r]]
      have idx: "idx < length (specs p)" "str_find (spec_open ?sp) (pending p) = Some i" by simp_all
      then have "spec_open ?sp \<noteq> []" "delimited (fst ?r)"
        using less.prems by (auto simp: delimited_def list_all_length)
      with less.hyps [of "fst ?r" "snd ?r"] str_find_less [OF idx(2)] \<open>active p = None\<close> Some r
      show ?thesis by (subst hidden_loop.simps) simp
    qed
  qed
qed

section \<open>One tag\<close>

definition one_tag :: "'t tag_spec \<Rightarrow> 't hidden_parser \<Rightarrow> bool" where
  "one_tag sp p \<longleftrightarrow> specs p = [sp] \<and> spec_open sp \<noteq> [] \<and> spec_close sp \<noteq> []
     \<and> pred_option (\<lambda>a. act_close a = spec_close sp) (active p)"

definition delimiter :: "'t tag_spec \<Rightarrow> 't hidden_parser \<Rightarrow> str" where
  "delimiter sp p = (if active p = None then spec_open sp else spec_close sp)"

definition turn ::
    "'t tag_spec \<Rightarrow> nat \<Rightarrow> 't hidden_parser \<times> 't extracted_tag stream_chunk
     \<Rightarrow> 't hidden_parser \<times> 't extracted_tag stream_chunk" where
  "turn sp i st = (case active (fst st) of
     Some a \<Rightarrow> close_tag i a (fst st) (snd st) | None \<Rightarrow> open_tag i sp (fst st) (snd st))"

text \<open>Taking in the first \<open>n\<close> characters of the pending text.\<close>

definition take_in ::
    "nat \<Rightarrow> 't hidden_parser \<times> 'x stream_chunk \<Rightarrow> 't hidden_parser \<times> 'x stream_chunk" where
  "take_in n st = (case active (fst st) of
     Some a \<Rightarrow>
       ((fst st)\<lparr>active := Some (a\<lparr>act_content := act_content a @ take n (pending (fst st))\<rparr>),
                 pending := drop n (pending (fst st))\<rparr>, snd st)
   | None \<Rightarrow>
       ((fst st)\<lparr>pending := drop n (pending (fst st))\<rparr>,
        (snd st)\<lparr>visible_text := visible_text (snd st) @ take n (pending (fst st))\<rparr>))"

lemma one_tag_open: "one_tag sp p \<Longrightarrow> find_next_open p = map_option (\<lambda>i. (i, 0)) (str_find (spec_open sp) (pending p))"
  by (auto simp: one_tag_def find_next_open_def map_filter_simps enumerate_simps split: option.split)

lemma one_tag_max: "one_tag sp p \<Longrightarrow> max_open_prefix_suffix_len p = longest_suffix_prefix_len (pending p) (spec_open sp)"
  by (simp add: one_tag_def max_open_prefix_suffix_len_def)

lemma one_tag_loop:
  assumes "one_tag sp p"
  shows "hidden_loop p out = (case str_find (delimiter sp p) (pending p) of
      Some i \<Rightarrow> hidden_loop (fst (turn sp i (p, out))) (snd (turn sp i (p, out)))
    | None \<Rightarrow> Some (take_in (length (pending p) - longest_suffix_prefix_len (pending p) (delimiter sp p)) (p, out)))"
  using assms one_tag_open [OF assms] one_tag_max [OF assms]
  by (subst hidden_loop.simps)
     (auto simp: one_tag_def delimiter_def turn_def take_in_def absorb_def Let_def
       drain_visible_to_suffix_match_def push_visible_prefix_def split: option.split)

abbreviation with_more :: "'t hidden_parser \<Rightarrow> str \<Rightarrow> 't hidden_parser" where
  "with_more p y \<equiv> p\<lparr>pending := pending p @ y\<rparr>"

lemma one_tag_more [simp]: "one_tag sp (p\<lparr>pending := s\<rparr>) = one_tag sp p"
  "delimiter sp (p\<lparr>pending := s\<rparr>) = delimiter sp p"
  by (simp_all add: one_tag_def delimiter_def)

lemma delimiter_not_empty: "one_tag sp p \<Longrightarrow> delimiter sp p \<noteq> []"
  by (simp add: one_tag_def delimiter_def)

lemma turn_pending:
  "one_tag sp (fst st) \<Longrightarrow>
     pending (fst (turn sp i st)) = drop (i + length (delimiter sp (fst st))) (pending (fst st))"
  by (auto simp: turn_def delimiter_def one_tag_def split: option.split)

lemma turn_one_tag: "one_tag sp (fst st) \<Longrightarrow> one_tag sp (fst (turn sp i st))"
  by (auto simp: turn_def one_tag_def split: option.split)

lemma turn_more:
  assumes "one_tag sp p" and "i + length (delimiter sp p) \<le> length (pending p)"
  shows "turn sp i (with_more p y, out) = (with_more (fst (turn sp i (p, out))) y, snd (turn sp i (p, out)))"
  using assms
  by (auto simp: turn_def delimiter_def one_tag_def close_tag_def open_tag_def split: option.split)

lemma take_in_fields [simp]:
  "pending (fst (take_in n st)) = drop n (pending (fst st))"
  "one_tag sp (fst (take_in n st)) = one_tag sp (fst st)"
  "delimiter sp (fst (take_in n st)) = delimiter sp (fst st)"
  by (auto simp: take_in_def one_tag_def delimiter_def split: option.split)

lemma take_more: "n \<le> length x \<Longrightarrow> take (n + j) (x @ y) = take n x @ take j (drop n x @ y)"
  using take_add [of n j "x @ y"] by simp

lemma drop_more: "n \<le> length x \<Longrightarrow> drop (n + j) (x @ y) = drop j (drop n x @ y)"
  using drop_drop [of j n "x @ y"] by (simp add: add.commute)

lemma take_in_more:
  assumes "n \<le> length (pending p)"
  shows "take_in (n + j) (with_more p y, out)
    = take_in j (with_more (fst (take_in n (p, out))) y, snd (take_in n (p, out)))"
  using assms
  by (cases "active p") (simp_all add: take_in_def take_more drop_more del: take_append drop_append)

lemma turn_take_in:
  assumes "n \<le> length (pending p)"
  shows "turn sp (n + j) (with_more p y, out)
    = turn sp j (with_more (fst (take_in n (p, out))) y, snd (take_in n (p, out)))"
  using assms
  by (cases "active p")
     (simp_all add: turn_def take_in_def close_tag_def open_tag_def push_visible_prefix_def
       push_extracted_def take_more drop_more add.assoc del: take_append drop_append)

lemma turn_add:
  "turn sp i (p, add_chunk c out) = (fst (turn sp i (p, out)), add_chunk c (snd (turn sp i (p, out))))"
  by (auto simp: turn_def close_tag_def open_tag_def push_visible_prefix_def push_extracted_def add_chunk_def
      split: option.split)

lemma take_in_add:
  "take_in n (p, add_chunk c out) = (fst (take_in n (p, out)), add_chunk c (snd (take_in n (p, out))))"
  by (auto simp: take_in_def add_chunk_def split: option.split)

lemma hidden_loop_add:
  "one_tag sp p \<Longrightarrow> hidden_loop p (add_chunk c out)
     = map_option (\<lambda>(p', out'). (p', add_chunk c out')) (hidden_loop p out)"
proof (induction "length (pending p)" arbitrary: p out rule: less_induct)
  case less
  let ?d = "delimiter sp p"
  show ?case
  proof (cases "str_find ?d (pending p)")
    case None
    with less.prems show ?thesis by (simp add: one_tag_loop [OF less.prems] take_in_add split: prod.split)
  next
    case (Some i)
    let ?q = "fst (turn sp i (p, out))"
    have "one_tag sp ?q" "length (pending ?q) < length (pending p)"
      using less.prems str_find_less [OF Some] by (simp_all add: turn_one_tag turn_pending delimiter_not_empty)
    from less.hyps [OF this(2) this(1)] Some show ?thesis
      by (simp add: one_tag_loop [OF less.prems] turn_add)
  qed
qed

lemma str_find_append: "str_find d x = Some i \<Longrightarrow> str_find d (x @ y) = Some i"
  using occurs_at_length [of d x i]
  by (auto simp: str_find_Some_iff occurs_at_append occurs_at_prefix)

text \<open>Text that comes later is only seen by what the loop has left.\<close>

lemma hidden_loop_split:
  "one_tag sp p \<Longrightarrow> hidden_loop p out = Some (p', out') \<Longrightarrow>
     hidden_loop (with_more p y) out = hidden_loop (with_more p' y) out'"
proof (induction "length (pending p)" arbitrary: p out rule: less_induct)
  case less
  let ?d = "delimiter sp p" and ?x = "pending p"
  note loop = one_tag_loop [OF less.prems(1), of out]
  have tag: "one_tag sp (with_more p y)" using less.prems(1) by simp
  note more = one_tag_loop [OF tag, of out]
  show ?case
  proof (cases "str_find ?d ?x")
    case (Some i)
    let ?q = "turn sp i (p, out)"
    have le: "i + length ?d \<le> length ?x"
      using Some by (auto simp: str_find_Some_iff dest: occurs_at_length)
    have q: "one_tag sp (fst ?q)" "length (pending (fst ?q)) < length ?x"
      using less.prems str_find_less [OF Some] by (simp_all add: turn_one_tag turn_pending delimiter_not_empty)
    have "hidden_loop (fst ?q) (snd ?q) = Some (p', out')" using loop less.prems(2) Some by simp
    from less.hyps [OF q(2) q(1) this] show ?thesis
      using more str_find_append [OF Some] turn_more [OF less.prems(1) le] by simp
  next
    case None
    let ?n = "length ?x - longest_suffix_prefix_len ?x ?d" and ?L = "longest_suffix_prefix_len (?x @ y) ?d"
    have p': "(p', out') = take_in ?n (p, out)" using loop less.prems(2) None by simp
    then have fields: "pending p' = drop ?n ?x" "one_tag sp p'" "delimiter sp p' = ?d"
      using less.prems(1) by (metis take_in_fields fst_conv)+
    note forget = forget_prefix [OF None refl, of y]
    have tag': "one_tag sp (with_more p' y)" using fields by simp
    note more' = one_tag_loop [OF tag', of out']
    show ?thesis
    proof (cases "str_find ?d (drop ?n ?x @ y)")
      case None
      have L: "?L \<le> length (drop ?n ?x @ y)" unfolding forget(2) by (rule longest_suffix_le)
      then have "length (?x @ y) - ?L = ?n + (length (drop ?n ?x @ y) - ?L)" by simp
      moreover have "take_in (?n + (length (drop ?n ?x @ y) - ?L)) (with_more p y, out)
          = take_in (length (drop ?n ?x @ y) - ?L) (with_more p' y, out')"
        using take_in_more [of ?n p _ y out] by (simp flip: p')
      ultimately show ?thesis
        using more more' None forget by (simp add: fields del: length_append length_drop)
    next
      case (Some j)
      moreover have "turn sp (?n + j) (with_more p y, out) = turn sp j (with_more p' y, out')"
        using turn_take_in [of ?n p sp j y out] by (simp flip: p')
      ultimately show ?thesis using more more' forget by (simp add: fields)
    qed
  qed
qed

section \<open>Between two chunks\<close>

definition settled :: "'t tag_spec \<Rightarrow> 't hidden_parser \<Rightarrow> bool" where
  "settled sp p \<longleftrightarrow> one_tag sp p \<and> str_find (delimiter sp p) (pending p) = None
     \<and> longest_suffix_prefix_len (pending p) (delimiter sp p) = length (pending p)"

lemma hidden_loop_settles:
  "one_tag sp p \<Longrightarrow> \<exists>p' out'. hidden_loop p out = Some (p', out') \<and> settled sp p'"
proof (induction "length (pending p)" arbitrary: p out rule: less_induct)
  case less
  let ?d = "delimiter sp p" and ?x = "pending p"
  note loop = one_tag_loop [OF less.prems(1), of out]
  show ?case
  proof (cases "str_find ?d ?x")
    case None
    let ?n = "length ?x - longest_suffix_prefix_len ?x ?d"
    let ?q = "take_in ?n (p, out)"
    have "length (drop ?n ?x) = longest_suffix_prefix_len ?x ?d" using longest_suffix_le [of ?x ?d] by simp
    then have "settled sp (fst ?q)"
      using forget_prefix [OF None refl, of "[]"] None less.prems by (simp add: settled_def)
    with loop None show ?thesis by (cases ?q) simp
  next
    case (Some i)
    let ?q = "turn sp i (p, out)"
    have "one_tag sp (fst ?q)" "length (pending (fst ?q)) < length ?x"
      using less.prems str_find_less [OF Some] by (simp_all add: turn_one_tag turn_pending delimiter_not_empty)
    from less.hyps [OF this(2) this(1), of "snd ?q"] loop Some show ?thesis by simp
  qed
qed

lemma settled_one_tag: "settled sp p \<Longrightarrow> one_tag sp p"
  by (simp add: settled_def)

lemma settled_short: "settled sp p \<Longrightarrow> length (pending p) < length (delimiter sp p)"
  using longest_suffix_less [of "delimiter sp p" "pending p"] delimiter_not_empty [of sp p]
  by (simp add: settled_def)

lemma hidden_push_settles:
  "settled sp p \<Longrightarrow> \<exists>p' out. hidden_push p s = Some (p', out) \<and> settled sp p'"
  unfolding hidden_push_def by (rule hidden_loop_settles) (simp add: settled_one_tag)

lemma hidden_push_Nil: "settled sp p \<Longrightarrow> hidden_push p [] = Some (p, empty_chunk)"
  using one_tag_loop [of sp p empty_chunk]
  by (simp add: settled_def hidden_push_def take_in_def empty_chunk_def split: option.split)

lemma hidden_push_append:
  assumes "settled sp p" and "hidden_push p s = Some (p', out)" and "hidden_push p' t = Some (p'', out')"
  shows "hidden_push p (s @ t) = Some (p'', add_chunk out out')"
proof -
  have p': "one_tag sp p'" using hidden_push_settles [OF assms(1), of s] assms(2) by (auto dest: settled_one_tag)
  have "hidden_push p (s @ t) = hidden_loop (with_more p' t) (add_chunk out empty_chunk)"
    using hidden_loop_split [of sp "with_more p s" empty_chunk p' out t] assms(1,2)
    by (simp add: hidden_push_def settled_one_tag)
  also have "\<dots> = map_option (\<lambda>(p, o'). (p, add_chunk out o')) (hidden_loop (with_more p' t) empty_chunk)"
    by (rule hidden_loop_add [of sp]) (simp add: p')
  finally show ?thesis using assms(3) by (simp add: hidden_push_def)
qed

section \<open>Citations\<close>

definition citation_ok :: "citation_parser \<Rightarrow> bool" where
  "citation_ok p \<longleftrightarrow> settled citation_spec p"

lemma citation_chunk_add: "citation_chunk (add_chunk c d) = add_chunk (citation_chunk c) (citation_chunk d)"
  by (simp add: citation_chunk_def add_chunk_def)

lemma citation_chunk_empty [simp]: "citation_chunk empty_chunk = empty_chunk"
  by (simp add: citation_chunk_def empty_chunk_def)

interpretation citations: stream_parser citation_ok citation_push citation_finish "\<lambda>c. c" add_chunk empty_chunk
proof
  fix p s assume "citation_ok p"
  then show "\<exists>p' out. citation_push p s = Some (p', out) \<and> citation_ok p'"
    using hidden_push_settles [of citation_spec p s] by (auto simp: citation_ok_def citation_push_def)
next
  fix p p' out assume "citation_ok p" "citation_push p [] = Some (p', out)"
  then show "p' = p \<and> out = empty_chunk"
    using hidden_push_Nil [of citation_spec p] by (simp add: citation_ok_def citation_push_def)
next
  fix p s p' out t p'' out'
  assume "citation_ok p" "citation_push p s = Some (p', out)" "citation_push p' t = Some (p'', out')"
  then show "\<exists>both. citation_push p (s @ t) = Some (p'', both) \<and> both = add_chunk out out'"
    using hidden_push_append [of citation_spec p s p' _ t p'']
    by (fastforce simp: citation_ok_def citation_push_def citation_chunk_add)
qed (simp_all add: add_chunk_assoc)

definition start_citations :: citation_parser where
  "start_citations = \<lparr>specs = [citation_spec], pending = [], active = None\<rparr>"

lemma new_citations: "new_citation_parser = Inr start_citations"
  by (simp add: new_citation_parser_def new_hidden_parser_def citation_spec_def CITATION_OPEN_def
      CITATION_CLOSE_def lit_def start_citations_def)

lemma start_ok: "citation_ok start_citations"
  by (simp add: citation_ok_def settled_def one_tag_def delimiter_def start_citations_def citation_spec_def
      CITATION_OPEN_def CITATION_CLOSE_def lit_def) (code_simp)

lemma strip_citations_push:
  assumes "citation_push start_citations s = Some (p, out)"
  shows "strip_citations s = Some (visible_text (add_chunk out (snd (citation_finish p))),
    extracted (add_chunk out (snd (citation_finish p))))"
  using assms by (simp add: strip_citations_def new_citations add_chunk_def Let_def)

lemma streamed_citations:
  "map_option (\<lambda>c. (visible_text c, extracted c)) (citations.stream_all start_citations chunks)
     = strip_citations (concat chunks)"
  using citations.chunking_irrelevant [OF start_ok, of chunks] strip_citations_push by auto

section \<open>What is a citation\<close>

text \<open>
  A text is read as pieces of visible text, each before a citation, then the rest, in which
  a last citation may be open.
\<close>

definition cited :: "(str \<times> str) list \<Rightarrow> str" where
  "cited ps = concat (map (\<lambda>(v, c). v @ CITATION_OPEN @ c @ CITATION_CLOSE) ps)"

fun open_citation :: "str option \<Rightarrow> str" where
  "open_citation None = []"
| "open_citation (Some c) = CITATION_OPEN @ c"

definition reads_as :: "str \<Rightarrow> (str \<times> str) list \<Rightarrow> str \<Rightarrow> str option \<Rightarrow> bool" where
  "reads_as s ps v tail \<longleftrightarrow> s = cited ps @ v @ open_citation tail
     \<and> list_all (\<lambda>(v, c). \<not> str_contains v CITATION_OPEN \<and> \<not> str_contains c CITATION_CLOSE) ps
     \<and> \<not> str_contains v CITATION_OPEN \<and> pred_option (\<lambda>c. \<not> str_contains c CITATION_CLOSE) tail"

lemma str_find_split:
  assumes "str_find d s = Some i" and "d \<noteq> []"
  shows "\<exists>u. s = take i s @ d @ u \<and> drop (i + length d) s = u \<and> \<not> str_contains (take i s) d"
proof -
  from assms have occ: "occurs_at d s i" "\<forall>j < i. \<not> occurs_at d s j" by (simp_all add: str_find_Some_iff)
  then obtain u where u: "i \<le> length s" "drop i s = d @ u" by (auto simp: occurs_at_iff)
  have "drop (i + length d) s = u" using u by (metis add.commute append_eq_conv_conj drop_drop)
  moreover have "s = take i s @ d @ u" using u by (metis append_take_drop_id)
  moreover have "\<not> occurs_at d (take i s) j" for j
  proof
    assume a: "occurs_at d (take i s) j"
    then have "occurs_at d s j" using occurs_at_append [of d "take i s" j "drop i s"] by simp
    moreover have "j < i" using occurs_at_length [OF a] u assms(2) by (cases d) auto
    ultimately show False using occ by blast
  qed
  ultimately show ?thesis by (auto simp: str_contains_def str_find_None_iff)
qed

definition begun :: "str \<Rightarrow> citation_parser" where
  "begun s = start_citations\<lparr>pending := s\<rparr>"

definition result_of :: "(citation_parser \<times> citation_tag extracted_tag stream_chunk) option \<Rightarrow> str stream_chunk option" where
  "result_of r = map_option (\<lambda>(p, out). citation_chunk (add_chunk out (snd (hidden_finish p)))) r"

lemma begun_fields [simp]: "active (begun s) = None" "pending (begun s) = s"
  "delimiter citation_spec (begun s) = CITATION_OPEN"
  by (simp_all add: begun_def start_citations_def delimiter_def citation_spec_def)

lemma begun_one_tag: "one_tag citation_spec (begun s)"
  using start_ok by (simp add: citation_ok_def settled_def begun_def)

lemma citation_reading:
  "\<exists>ps v tail. reads_as s ps v tail \<and> result_of (hidden_loop (begun s) out)
     = Some \<lparr>visible_text = visible_text out @ concat (map fst ps) @ v,
             extracted = map ext_content (extracted out) @ map snd ps @ (case tail of None \<Rightarrow> [] | Some c \<Rightarrow> [c])\<rparr>"
proof (induction "length s" arbitrary: s out rule: less_induct)
  case less
  note loop = one_tag_loop [OF begun_one_tag [of s], of out, simplified]
  show ?case
  proof (cases "str_find CITATION_OPEN s")
    case None
    have "result_of (hidden_loop (begun s) out)
        = Some \<lparr>visible_text = visible_text out @ s, extracted = map ext_content (extracted out)\<rparr>"
      by (auto simp: loop None result_of_def take_in_def hidden_finish_def add_chunk_def citation_chunk_def
          empty_chunk_def)
    moreover have "reads_as s [] s None" using None by (simp add: reads_as_def cited_def str_contains_def)
    ultimately show ?thesis by (intro exI [of _ "[]"] exI [of _ s] exI [of _ None]) simp
  next
    case (Some i)
    from str_find_split [OF Some] begun_one_tag [of s] obtain t where
      t: "s = take i s @ CITATION_OPEN @ t" "drop (i + length CITATION_OPEN) s = t"
        "\<not> str_contains (take i s) CITATION_OPEN" by (auto simp: one_tag_def citation_spec_def)
    let ?v = "take i s"
    let ?a = "\<lparr>act_tag = Citation, act_close = CITATION_CLOSE, act_content = []\<rparr>"
    let ?p = "(begun t)\<lparr>active := Some ?a\<rparr>" and ?out = "out\<lparr>visible_text := visible_text out @ ?v\<rparr>"
    have "turn citation_spec i (begun s, out) = (?p, ?out)"
      by (simp add: turn_def open_tag_def citation_spec_def t(2) [unfolded citation_spec_def] push_visible_prefix_def)
         (simp add: begun_def t(2))
    then have step: "hidden_loop (begun s) out = hidden_loop ?p ?out" by (simp add: loop Some)
    have p: "one_tag citation_spec ?p" using begun_one_tag [of t] by (simp add: one_tag_def citation_spec_def)
    have d: "delimiter citation_spec ?p = CITATION_CLOSE" by (simp add: delimiter_def citation_spec_def)
    note loop' = one_tag_loop [OF p, of ?out, unfolded d, simplified]
    show ?thesis
    proof (cases "str_find CITATION_CLOSE t")
      case None
      have "result_of (hidden_loop (begun s) out) = Some \<lparr>visible_text = visible_text out @ ?v,
          extracted = map ext_content (extracted out) @ [t]\<rparr>"
        by (simp add: step loop' None result_of_def take_in_def hidden_finish_def add_chunk_def
            citation_chunk_def empty_chunk_def push_extracted_def)
      moreover have "reads_as s [] ?v (Some t)"
        using None t by (simp add: reads_as_def cited_def str_contains_def)
      ultimately show ?thesis by (intro exI [of _ "[]"] exI [of _ ?v] exI [of _ "Some t"]) simp
    next
      case (Some j)
      from str_find_split [OF Some] p obtain u where
        u: "t = take j t @ CITATION_CLOSE @ u" "drop (j + length CITATION_CLOSE) t = u"
          "\<not> str_contains (take j t) CITATION_CLOSE" by (auto simp: one_tag_def citation_spec_def)
      let ?c = "take j t"
      let ?out' = "push_extracted ?out \<lparr>ext_tag = Citation, ext_content = ?c\<rparr>"
      have "turn citation_spec j (?p, ?out) = (begun u, ?out')"
        by (simp add: turn_def close_tag_def u(2)) (simp add: begun_def start_citations_def)
      then have step': "hidden_loop (begun s) out = hidden_loop (begun u) ?out'"
        by (simp add: step loop' Some)
      have "length u < length s"
      proof -
        have "CITATION_OPEN \<noteq> []" by (simp add: CITATION_OPEN_def lit_def)
        then have "length t < length s"
          using str_find_less [OF \<open>str_find CITATION_OPEN s = Some i\<close>] t(2) by simp
        moreover have "length u \<le> length t" unfolding u(2) [symmetric] by simp
        ultimately show ?thesis by simp
      qed
      from less [OF this, of ?out'] obtain ps v tail where
        r: "reads_as u ps v tail" "result_of (hidden_loop (begun u) ?out')
          = Some \<lparr>visible_text = visible_text ?out' @ concat (map fst ps) @ v,
              extracted = map ext_content (extracted ?out') @ map snd ps @ (case tail of None \<Rightarrow> [] | Some c \<Rightarrow> [c])\<rparr>"
        by blast
      have "?v @ CITATION_OPEN @ t = ?v @ CITATION_OPEN @ ?c @ CITATION_CLOSE @ u"
        by (simp only: same_append_eq) (rule u(1))
      with t(1) have "s = ?v @ CITATION_OPEN @ ?c @ CITATION_CLOSE @ u" by (rule trans)
      then have "reads_as s ((?v, ?c) # ps) v tail" using r(1) t(3) u(3)
        by (simp add: reads_as_def cited_def)
      with r(2) step' show ?thesis
        by (intro exI [of _ "(?v, ?c) # ps"] exI [of _ v] exI [of _ tail]) (simp add: push_extracted_def)
    qed
  qed
qed

lemma strip_citations_reading:
  "\<exists>ps v tail. reads_as s ps v tail
     \<and> strip_citations s = Some (concat (map fst ps) @ v, map snd ps @ (case tail of None \<Rightarrow> [] | Some c \<Rightarrow> [c]))"
proof -
  obtain p out where r: "hidden_push start_citations s = Some (p, out)"
    using hidden_push_settles [of citation_spec start_citations s] start_ok by (auto simp: citation_ok_def)
  then have "hidden_loop (begun s) empty_chunk = Some (p, out)"
    by (simp add: hidden_push_def begun_def start_citations_def)
  moreover have "strip_citations s = map_option (\<lambda>c. (visible_text c, extracted c)) (result_of (Some (p, out)))"
    using strip_citations_push [of s p "citation_chunk out"] r
    by (simp add: citation_push_def result_of_def citation_chunk_add citation_finish_def split: prod.split)
  ultimately show ?thesis
    using citation_reading [of s empty_chunk] by (fastforce simp: empty_chunk_def)
qed

section \<open>Properties\<close>

text \<open>Any tags, any chunks: the parsers and outputs after each.\<close>

fun push_all :: "'t hidden_parser \<Rightarrow> str list \<Rightarrow> 't hidden_parser option" where
  "push_all p [] = Some p"
| "push_all p (s # ss) = (case hidden_push p s of None \<Rightarrow> None | Some (p', out) \<Rightarrow> push_all p' ss)"

lemma push_all_returns: "delimited p \<Longrightarrow> \<exists>p'. push_all p ss = Some p'"
proof (induction ss arbitrary: p)
  case (Cons s ss)
  have "delimited (with_more p s)" using Cons.prems by (simp add: delimited_def)
  from hidden_loop_returns [OF this, of empty_chunk] Cons.IH show ?case
    by (auto simp: hidden_push_def)
qed simp

lemma new_delimited: "new_hidden_parser sps = Inr p \<Longrightarrow> delimited p"
  by (auto simp: new_hidden_parser_def delimited_def list_ex_iff list_all_iff split: if_splits)

text \<open>
  C39. The parser of hidden tags always returns: whatever tags it is built for, its
  constructor panics or every push of every sequence of chunks ends, though the loop of a
  push has no bound of its own.
\<close>

theorem hidden_parser_returns:
  "new_hidden_parser sps = Inr p \<Longrightarrow> \<exists>p'. push_all p chunks = Some p'"
  using push_all_returns new_delimited by blast

theorem hidden_parser_returns_witness:
  "\<exists>p'. push_all \<lparr>specs = [citation_spec], pending = [], active = None\<rparr> [CITATION_OPEN, [65]] = Some p'"
  by (rule hidden_parser_returns [of "[citation_spec]"])
     (simp add: new_hidden_parser_def citation_spec_def CITATION_OPEN_def CITATION_CLOSE_def lit_def)

text \<open>The message of an assistant as it is streamed: all chunks, then the end.\<close>

fun feed_citations :: "citation_parser \<Rightarrow> str stream_chunk \<Rightarrow> str list \<Rightarrow> str stream_chunk option" where
  "feed_citations p acc [] = Some (add_chunk acc (snd (citation_finish p)))"
| "feed_citations p acc (s # ss) =
     (case citation_push p s of
        None \<Rightarrow> None
      | Some (p', out) \<Rightarrow> feed_citations p' (add_chunk acc out) ss)"

definition streamed :: "str list \<Rightarrow> (str \<times> str list) option" where
  "streamed chunks = (case new_citation_parser of
     Inl e \<Rightarrow> None
   | Inr p \<Rightarrow> map_option (\<lambda>c. (visible_text c, extracted c)) (feed_citations p empty_chunk chunks))"

lemma feed_citations_all:
  "feed_citations p acc ss = (case citations.feed_all p ss of
     None \<Rightarrow> None | Some (p', v) \<Rightarrow> Some (add_chunk (add_chunk acc v) (snd (citation_finish p'))))"
proof (induction p acc ss rule: feed_citations.induct)
  case (2 p acc s ss)
  then show ?case by (cases "citation_push p s") (auto simp: add_chunk_assoc split: option.splits)
qed simp

lemma streamed_citations_feed:
  "map_option (\<lambda>c. (visible_text c, extracted c)) (feed_citations start_citations empty_chunk chunks)
     = strip_citations (concat chunks)"
proof -
  have "feed_citations start_citations empty_chunk chunks = citations.stream_all start_citations chunks"
    by (simp add: feed_citations_all citations.stream_all_def split: option.split)
  then show ?thesis by (simp add: streamed_citations)
qed

text \<open>
  A citation is found wherever the stream is cut: pushing any chunks and finishing gives
  the visible text and the citations of the whole text.
\<close>

theorem citations_streamed: "streamed chunks = strip_citations (concat chunks)"
  by (simp add: streamed_def new_citations streamed_citations_feed)

text \<open>
  Stripping citations reads every text: there is a way to write the text as visible
  pieces, none with an opening delimiter, before citations, none with a closing one, and a
  last citation that may be open; the visible pieces and the contents are the result.
\<close>

theorem citations_read:
  "\<exists>ps v tail. reads_as s ps v tail
     \<and> strip_citations s = Some (concat (map fst ps) @ v, map snd ps @ (case tail of None \<Rightarrow> [] | Some c \<Rightarrow> [c]))"
  by (rule strip_citations_reading)

lemma push_holds_little:
  assumes "citation_push start_citations s = Some (p, out)"
  shows "\<exists>held cs. strip_citations s = Some (visible_text out @ held, extracted out @ cs)
    \<and> length held < length CITATION_OPEN \<and> length cs \<le> 1"
proof -
  obtain out0 where "hidden_push start_citations s = Some (p, out0)"
    using assms by (auto simp: citation_push_def)
  with hidden_push_settles [of citation_spec start_citations s] start_ok have p: "settled citation_spec p"
    by (auto simp: citation_ok_def)
  let ?tail = "snd (citation_finish p)"
  have "length (visible_text ?tail) < length CITATION_OPEN"
    using settled_short [OF p] settled_one_tag [OF p]
    by (cases "active p") (simp_all add: citation_finish_def hidden_finish_def citation_chunk_def
      empty_chunk_def push_extracted_def delimiter_def one_tag_def citation_spec_def)
  moreover have "length (extracted ?tail) \<le> 1"
    by (cases "active p") (simp_all add: citation_finish_def hidden_finish_def citation_chunk_def
      empty_chunk_def push_extracted_def)
  ultimately show ?thesis using strip_citations_push [OF assms] by (auto simp: add_chunk_def)
qed


end
