(* ===== verification/TaggedLine.thy ===== *)
theory TaggedLine
  imports StreamText
begin

text \<open>
  \<open>utils/stream-parser/src/tagged_line_parser.rs\<close> and \<open>proposed_plan.rs\<close>: the streaming
  parser of blocks between tags that stand alone on a line, and its one use, the proposed
  plan of an assistant message.
\<close>

section \<open>The line parser\<close>

record 't line_tag =
  line_open :: str
  line_close :: str
  line_tag_of :: 't

datatype 't segment =
    Normal str
  | TagStart 't
  | TagDelta 't str
  | TagEnd 't

record 't line_parser =
  line_tags :: "'t line_tag list"
  active_tag :: "'t option"
  detect_tag :: bool
  tag_line_buffer :: str

definition new_line_parser :: "'t line_tag list \<Rightarrow> 't line_parser" where
  "new_line_parser tags = \<lparr>line_tags = tags, active_tag = None, detect_tag = True, tag_line_buffer = []\<rparr>"

fun push_segment :: "'t segment \<Rightarrow> 't segment list \<Rightarrow> 't segment list" where
  "push_segment (Normal d) segments =
     (if d = [] then segments
      else if segments = [] then [Normal d]
      else case last segments of
             Normal existing \<Rightarrow> butlast segments @ [Normal (existing @ d)]
           | _ \<Rightarrow> segments @ [Normal d])"
| "push_segment (TagDelta tag d) segments =
     (if d = [] then segments
      else if segments = [] then [TagDelta tag d]
      else case last segments of
             TagDelta existing_tag existing \<Rightarrow>
               (if existing_tag = tag then butlast segments @ [TagDelta existing_tag (existing @ d)]
                else segments @ [TagDelta tag d])
           | _ \<Rightarrow> segments @ [TagDelta tag d])"
| "push_segment (TagStart tag) segments = segments @ [TagStart tag]"
| "push_segment (TagEnd tag) segments = segments @ [TagEnd tag]"

definition text_segment :: "'t option \<Rightarrow> str \<Rightarrow> 't segment" where
  "text_segment active s = (case active of Some tag \<Rightarrow> TagDelta tag s | None \<Rightarrow> Normal s)"

definition push_text :: "'t line_parser \<Rightarrow> str \<Rightarrow> 't segment list \<Rightarrow> 't segment list" where
  "push_text p s segments = push_segment (text_segment (active_tag p) s) segments"

definition is_tag_prefix :: "'t line_parser \<Rightarrow> str \<Rightarrow> bool" where
  "is_tag_prefix p slug =
     (let slug = trim_end slug in
      list_ex (\<lambda>sp. starts_with (line_open sp) slug \<or> starts_with (line_close sp) slug) (line_tags p))"

definition match_open :: "'t line_parser \<Rightarrow> str \<Rightarrow> 't option" where
  "match_open p slug = map_option line_tag_of (List.find (\<lambda>sp. line_open sp = slug) (line_tags p))"

definition match_close :: "'t line_parser \<Rightarrow> str \<Rightarrow> 't option" where
  "match_close p slug = map_option line_tag_of (List.find (\<lambda>sp. line_close sp = slug) (line_tags p))"

definition line_slug :: "str \<Rightarrow> str" where
  "line_slug line = trim_end (trim_start (case strip_suffix [LF] line of Some l \<Rightarrow> l | None \<Rightarrow> line))"

text \<open>What a whole line is: the tag that opens or closes with it, or text.\<close>

definition line_event :: "'t line_parser \<Rightarrow> str \<Rightarrow> 't option \<times> 't segment" where
  "line_event p line =
     (let slug = line_slug line in
      case (match_open p slug, active_tag p) of
        (Some tag, None) \<Rightarrow> (Some tag, TagStart tag)
      | _ \<Rightarrow>
          (case (match_close p slug, active_tag p) of
             (Some tag, Some tag') \<Rightarrow>
               (if tag = tag' then (None, TagEnd tag) else (active_tag p, text_segment (active_tag p) line))
           | _ \<Rightarrow> (active_tag p, text_segment (active_tag p) line)))"

definition finish_tag_line :: "'t line_parser \<Rightarrow> 't segment list \<Rightarrow> 't line_parser \<times> 't segment list" where
  "finish_tag_line p segments =
     (case line_event p (tag_line_buffer p) of
        (tag, seg) \<Rightarrow>
          (p\<lparr>tag_line_buffer := [], active_tag := tag, detect_tag := True\<rparr>, push_segment seg segments))"

text \<open>The loop over the characters of a delta, with the run of text it has not yet pushed.\<close>

fun parse_chars ::
    "'t line_parser \<Rightarrow> str \<Rightarrow> 't segment list \<Rightarrow> str \<Rightarrow> 't line_parser \<times> 't segment list" where
  "parse_chars p run segments [] =
     (p, if run \<noteq> [] then push_text p run segments else segments)"
| "parse_chars p run segments (ch # delta) =
     (if detect_tag p then
        (let segments = (if run \<noteq> [] then push_text p run segments else segments);
             p = p\<lparr>tag_line_buffer := tag_line_buffer p @ [ch]\<rparr>
         in if ch = LF then
              (case finish_tag_line p segments of (p, segments) \<Rightarrow> parse_chars p [] segments delta)
            else
              (let slug = trim_start (tag_line_buffer p) in
               if slug = [] \<or> is_tag_prefix p slug then parse_chars p [] segments delta
               else parse_chars (p\<lparr>tag_line_buffer := [], detect_tag := False\<rparr>) []
                      (push_text p (tag_line_buffer p) segments) delta))
      else if ch = LF then
        parse_chars (p\<lparr>detect_tag := True\<rparr>) [] (push_text p (run @ [ch]) segments) delta
      else parse_chars p (run @ [ch]) segments delta)"

definition parse_delta :: "'t line_parser \<Rightarrow> str \<Rightarrow> 't line_parser \<times> 't segment list" where
  "parse_delta p delta = parse_chars p [] [] delta"

definition finish_lines :: "'t line_parser \<Rightarrow> 't line_parser \<times> 't segment list" where
  "finish_lines p =
     (let (p, segments) =
        (if tag_line_buffer p \<noteq> [] then
           (case line_event p (tag_line_buffer p) of
              (tag, seg) \<Rightarrow> (p\<lparr>tag_line_buffer := [], active_tag := tag\<rparr>, push_segment seg []))
         else (p, []))
      in (p\<lparr>active_tag := None, detect_tag := True\<rparr>,
          case active_tag p of Some tag \<Rightarrow> push_segment (TagEnd tag) segments | None \<Rightarrow> segments))"

section \<open>Proposed plans\<close>

datatype plan_tag = ProposedPlan

datatype plan_segment =
    PlanNormal str
  | ProposedPlanStart
  | ProposedPlanDelta str
  | ProposedPlanEnd

definition OPEN_TAG :: str where "OPEN_TAG = lit ''<proposed_plan>''"
definition CLOSE_TAG :: str where "CLOSE_TAG = lit ''</proposed_plan>''"

type_synonym plan_parser = "plan_tag line_parser"

definition new_plan_parser :: plan_parser where
  "new_plan_parser = new_line_parser [\<lparr>line_open = OPEN_TAG, line_close = CLOSE_TAG, line_tag_of = ProposedPlan\<rparr>]"

fun map_segment :: "plan_tag segment \<Rightarrow> plan_segment" where
  "map_segment (Normal s) = PlanNormal s"
| "map_segment (TagStart tag) = ProposedPlanStart"
| "map_segment (TagDelta tag s) = ProposedPlanDelta s"
| "map_segment (TagEnd tag) = ProposedPlanEnd"

fun shown :: "plan_segment \<Rightarrow> str" where
  "shown (PlanNormal s) = s"
| "shown ProposedPlanStart = []"
| "shown (ProposedPlanDelta s) = []"
| "shown ProposedPlanEnd = []"

definition map_segments :: "plan_tag segment list \<Rightarrow> plan_segment stream_chunk" where
  "map_segments segments =
     (let mapped = map map_segment segments in
      \<lparr>visible_text = concat (map shown mapped), extracted = mapped\<rparr>)"

definition plan_push :: "plan_parser \<Rightarrow> str \<Rightarrow> plan_parser \<times> plan_segment stream_chunk" where
  "plan_push p chunk = (case parse_delta p chunk of (p, segments) \<Rightarrow> (p, map_segments segments))"

definition plan_finish :: "plan_parser \<Rightarrow> plan_parser \<times> plan_segment stream_chunk" where
  "plan_finish p = (case finish_lines p of (p, segments) \<Rightarrow> (p, map_segments segments))"

definition strip_proposed_plan_blocks :: "str \<Rightarrow> str" where
  "strip_proposed_plan_blocks s =
     (case plan_push new_plan_parser s of (p, out) \<Rightarrow>
        visible_text out @ visible_text (snd (plan_finish p)))"

text \<open>Whether a plan was seen, and the text of the last one.\<close>

fun extract_step :: "plan_segment \<Rightarrow> bool \<times> str \<Rightarrow> bool \<times> str" where
  "extract_step ProposedPlanStart (seen, plan) = (True, [])"
| "extract_step (ProposedPlanDelta d) (seen, plan) = (seen, plan @ d)"
| "extract_step ProposedPlanEnd st = st"
| "extract_step (PlanNormal s) st = st"

definition extract_proposed_plan_text :: "str \<Rightarrow> str option" where
  "extract_proposed_plan_text s =
     (case plan_push new_plan_parser s of (p, out) \<Rightarrow>
        (case fold extract_step (extracted out @ extracted (snd (plan_finish p))) (False, []) of
           (seen, plan) \<Rightarrow> if seen then Some plan else None))"

end
