(* ===== verification/TaggedLineCorrect.thy ===== *)
theory TaggedLineCorrect
  imports TaggedLine
begin

text \<open>
  The line parser gives the same segments, up to joining neighbours, however the text is
  cut, and these are what a reading line by line gives; what a proposed plan is.
\<close>

section \<open>Joining segments\<close>

abbreviation push_segments :: "'t segment list \<Rightarrow> 't segment list \<Rightarrow> 't segment list" where
  "push_segments new segments \<equiv> fold push_segment new segments"

definition coalesce :: "'t segment list \<Rightarrow> 't segment list" where
  "coalesce segments = push_segments segments []"

lemma push_Normal_twice: "push_segment (Normal d) (push_segment (Normal e) X) = push_segment (Normal (e @ d)) X"
  by (cases X rule: rev_cases) (auto simp: butlast_append split: segment.split)

lemma push_TagDelta_twice:
  "push_segment (TagDelta t d) (push_segment (TagDelta t e) X) = push_segment (TagDelta t (e @ d)) X"
  by (cases X rule: rev_cases) (auto simp: butlast_append split: segment.split)

lemma push_Nil_text [simp]: "push_segment (Normal []) X = X" "push_segment (TagDelta t []) X = X"
  by simp_all

lemma push_segments_push: "push_segments (push_segment s w) v = push_segment s (push_segments w v)"
proof (cases w rule: rev_cases)
  case Nil
  then show ?thesis by (cases s) simp_all
next
  case (snoc w' x)
  let ?X = "push_segments w' v"
  have w: "push_segments w v = push_segment x ?X" by (simp add: snoc)
  show ?thesis
  proof (cases "\<exists>d e. s = Normal d \<and> x = Normal e \<and> d \<noteq> []")
    case True
    then obtain d e where 1: "s = Normal d" "x = Normal e" "d \<noteq> []" by blast
    then have "push_segment s w = w' @ [Normal (e @ d)]" by (simp add: snoc)
    then show ?thesis unfolding w 1 push_Normal_twice by simp
  next
    case False
    show ?thesis
    proof (cases "\<exists>t d e. s = TagDelta t d \<and> x = TagDelta t e \<and> d \<noteq> []")
      case True
      then obtain t d e where 1: "s = TagDelta t d" "x = TagDelta t e" "d \<noteq> []" by blast
      then have "push_segment s w = w' @ [TagDelta t (e @ d)]" by (simp add: snoc)
      then show ?thesis unfolding w 1 push_TagDelta_twice by simp
    next
      case not: False
      have "push_segment s w = w \<and> push_segment s (push_segments w v) = push_segments w v
          \<or> push_segment s w = w @ [s]"
        using False not by (cases s; cases x) (auto simp: snoc)
      then show ?thesis by auto
    qed
  qed
qed

lemma push_segments_segments: "push_segments (push_segments u w) v = push_segments u (push_segments w v)"
  by (induction u arbitrary: w) (simp_all add: push_segments_push)

lemma push_coalesce [simp]: "push_segments (coalesce w) v = push_segments w v"
  by (simp add: coalesce_def push_segments_segments)

lemma push_text_Nil [simp]: "push_text p [] X = X"
  by (simp add: push_text_def text_segment_def split: option.split)

lemma push_text_twice: "push_text p d (push_text p e X) = push_text p (e @ d) X"
  by (simp add: push_text_def text_segment_def push_Normal_twice push_TagDelta_twice split: option.split
      del: push_segment.simps)

lemma push_segments_text: "push_segments (push_text p s w) v = push_text p s (push_segments w v)"
  by (simp add: push_text_def push_segments_push)

section \<open>Cutting the text\<close>

lemma parse_chars_run: "parse_chars p run X delta = parse_chars p [] (push_text p run X) delta"
proof (induction delta arbitrary: run X)
  case (Cons ch delta)
  show ?case
  proof (cases "detect_tag p")
    case False
    have "push_text p (run @ [ch]) X = push_text p [ch] (push_text p run X)" by (simp add: push_text_twice)
    then show ?thesis
      using False Cons.IH [of "run @ [ch]" X] Cons.IH [of "[ch]" "push_text p run X"]
      by (cases "ch = LF") simp_all
  qed simp
qed simp

lemma parse_chars_append:
  "parse_chars p run X (a @ b) = (case parse_chars p run X a of (p', X') \<Rightarrow> parse_chars p' [] X' b)"
proof (induction p run X a rule: parse_chars.induct)
  case (1 p run X)
  then show ?case by (simp add: parse_chars_run [of p run])
next
  case (2 p run X ch a)
  then show ?case by (simp add: Let_def split: prod.split)
qed

lemma parse_chars_out:
  "parse_chars p run (push_segments w v) delta
     = (case parse_chars p run w delta of (p', w') \<Rightarrow> (p', push_segments w' v))"
proof (induction delta arbitrary: p run w)
  case Nil
  then show ?case by (simp add: push_segments_text)
next
  case (Cons ch delta)
  have flush: "push_text q s (push_segments w v) = push_segments (push_text q s w) v" for q s w
    by (simp add: push_segments_text)
  have seg: "push_segment s (push_segments w v) = push_segments (push_segment s w) v" for s w
    by (simp add: push_segments_push)
  show ?case
    by (simp add: Let_def finish_tag_line_def flush seg Cons.IH split: prod.split)
qed

lemma parse_delta_append:
  assumes "parse_delta p s = (p', out)" and "parse_delta p' t = (p'', out')"
  shows "parse_delta p (s @ t) = (p'', push_segments out' out)"
  using assms parse_chars_out [of p' "[]" "[]" out t] by (simp add: parse_delta_def parse_chars_append)

interpretation line_stream: stream_parser "\<lambda>p. True" "\<lambda>p s. Some (parse_delta p s)" finish_lines
    coalesce "\<lambda>v w. push_segments w v" "[]"
proof
  fix p :: "'a line_parser" and s p' out t p'' out'
  assume "Some (parse_delta p s) = Some (p', out)" "Some (parse_delta p' t) = Some (p'', out')"
  then have "parse_delta p (s @ t) = (p'', push_segments out' out)"
    by (simp add: parse_delta_append)
  then show "\<exists>both. Some (parse_delta p (s @ t)) = Some (p'', both)
      \<and> coalesce both = push_segments (coalesce out') (coalesce out)"
    by (simp add: coalesce_def push_segments_segments)
qed (auto simp: parse_delta_def coalesce_def push_segments_segments)

section \<open>Reading line by line\<close>

definition line_step :: "str \<Rightarrow> 't line_parser \<times> 't segment list \<Rightarrow> 't line_parser \<times> 't segment list" where
  "line_step line st = (case line_event (fst st) line of
     (tag, seg) \<Rightarrow> ((fst st)\<lparr>active_tag := tag\<rparr>, push_segment seg (snd st)))"

definition close_block :: "'t line_parser \<times> 't segment list \<Rightarrow> 't segment list" where
  "close_block st = (case active_tag (fst st) of
     Some tag \<Rightarrow> push_segment (TagEnd tag) (snd st) | None \<Rightarrow> snd st)"

definition read_lines :: "'t line_tag list \<Rightarrow> str \<Rightarrow> 't segment list" where
  "read_lines tags s = close_block (fold line_step (split_inclusive LF s) (new_line_parser tags, []))"

lemma trim_end_append_prefix: "\<exists>t. trim_end (a @ w) = trim_end a @ t"
  by (induction a) auto

lemma trim_start_append: "trim_start z \<noteq> [] \<Longrightarrow> trim_start (z @ w) = trim_start z @ w"
  by (induction z) auto

text \<open>A line of which some beginning is not the beginning of a tag is text.\<close>

definition not_tag :: "'t line_parser \<Rightarrow> str \<Rightarrow> bool" where
  "not_tag p l \<longleftrightarrow> (\<exists>z w. l = z @ w \<and> trim_start z \<noteq> [] \<and> \<not> is_tag_prefix p (trim_start z))"

lemma not_tag_event:
  assumes "not_tag p l" and "line = l \<or> line = l @ [LF]" and "LF \<notin> set l"
  shows "line_event p line = (active_tag p, text_segment (active_tag p) line)"
proof -
  from assms(1) obtain z w where z: "l = z @ w" "trim_start z \<noteq> []" "\<not> is_tag_prefix p (trim_start z)"
    by (auto simp: not_tag_def)
  have "(case strip_suffix [LF] line of Some l \<Rightarrow> l | None \<Rightarrow> line) = l"
  proof -
    have "strip_suffix [LF] l = None"
      using assms(3) by (metis last_in_set strip_suffix_single_None_iff)
    with assms(2) show ?thesis by auto
  qed
  then have slug: "line_slug line = trim_end (trim_start z @ w)"
    using z by (simp add: line_slug_def trim_start_append)
  obtain t where "trim_end (trim_start z @ w) = trim_end (trim_start z) @ t"
    using trim_end_append_prefix by blast
  then have "starts_with (line_slug line) (trim_end (trim_start z))" by (auto simp: slug starts_with_iff)
  with z(3) have "sp \<in> set (line_tags p) \<Longrightarrow> line_open sp \<noteq> line_slug line \<and> line_close sp \<noteq> line_slug line" for sp
    by (auto simp: is_tag_prefix_def Let_def list_ex_iff)
  then have "match_open p (line_slug line) = None" "match_close p (line_slug line) = None"
    by (auto simp: match_open_def match_close_def find_None_iff)
  then show ?thesis by (simp add: line_event_def Let_def)
qed

lemma parse_text:
  "\<not> detect_tag p \<Longrightarrow> LF \<notin> set y \<Longrightarrow> parse_chars p [] X (y @ rest) = parse_chars p [] (push_text p y X) rest"
proof (induction y arbitrary: X)
  case (Cons c y)
  from Cons.prems have "parse_chars p [] X ((c # y) @ rest) = parse_chars p [c] X (y @ rest)" by simp
  also have "\<dots> = parse_chars p [] (push_text p [c] X) (y @ rest)" by (rule parse_chars_run)
  also have "\<dots> = parse_chars p [] (push_text p (c # y) X) rest"
    using Cons by (simp add: push_text_twice)
  finally show ?case .
qed simp

text \<open>Inside a line either all of it is in the buffer, or it was found to be text.\<close>

lemma parse_in_line:
  assumes "detect_tag p" and "LF \<notin> set y"
  shows "parse_chars p [] X (y @ rest) = parse_chars (p\<lparr>tag_line_buffer := tag_line_buffer p @ y\<rparr>) [] X rest
    \<or> not_tag p (tag_line_buffer p @ y)
      \<and> parse_chars p [] X (y @ rest) = parse_chars (p\<lparr>tag_line_buffer := [], detect_tag := False\<rparr>) []
          (push_text p (tag_line_buffer p @ y) X) rest"
  using assms
proof (induction y arbitrary: p X)
  case (Cons c y)
  let ?b = "tag_line_buffer p @ [c]"
  let ?p = "p\<lparr>tag_line_buffer := ?b\<rparr>" and ?q = "p\<lparr>tag_line_buffer := [], detect_tag := False\<rparr>"
  show ?case
  proof (cases "trim_start ?b = [] \<or> is_tag_prefix p (trim_start ?b)")
    case True
    then have step: "parse_chars p [] X ((c # y) @ rest) = parse_chars ?p [] X (y @ rest)"
      using Cons.prems by (auto simp: is_tag_prefix_def)
    have "not_tag ?p l = not_tag p l" "push_text ?p l X = push_text p l X" for l X
      by (simp_all add: not_tag_def is_tag_prefix_def push_text_def)
    with Cons.IH [of ?p X] Cons.prems step show ?thesis by auto
  next
    case False
    then have step: "parse_chars p [] X ((c # y) @ rest) = parse_chars ?q [] (push_text p ?b X) (y @ rest)"
      using Cons.prems by (auto simp: is_tag_prefix_def push_text_def)
    have "not_tag p (?b @ y)" using False unfolding not_tag_def by blast
    moreover have "push_text ?q y (push_text p ?b X) = push_text p (?b @ y) X"
      using push_text_twice [of p y ?b X] by (simp add: push_text_def)
    ultimately show ?thesis
      using step parse_text [of ?q y "push_text p ?b X" rest] Cons.prems by simp
  qed
qed simp

definition fresh_line :: "'t line_parser \<Rightarrow> bool" where
  "fresh_line p \<longleftrightarrow> detect_tag p \<and> tag_line_buffer p = []"

lemma line_event_buffer: "line_event (p\<lparr>tag_line_buffer := s\<rparr>) = line_event p"
proof -
  have "match_open (p\<lparr>tag_line_buffer := s\<rparr>) = match_open p"
    "match_close (p\<lparr>tag_line_buffer := s\<rparr>) = match_close p"
    by (rule ext, simp add: match_open_def match_close_def)+
  moreover have "active_tag (p\<lparr>tag_line_buffer := s\<rparr>) = active_tag p" by simp
  ultimately show ?thesis unfolding line_event_def by (simp only:)
qed

lemma parse_line:
  assumes "fresh_line p" and "LF \<notin> set l"
  shows "parse_chars p [] X (l @ LF # rest)
      = parse_chars (fst (line_step (l @ [LF]) (p, X))) [] (snd (line_step (l @ [LF]) (p, X))) rest
    \<and> fresh_line (fst (line_step (l @ [LF]) (p, X)))"
proof -
  have eq: "p\<lparr>tag_line_buffer := [], detect_tag := True\<rparr> = p" using assms(1) by (simp add: fresh_line_def)
  let ?b = "p\<lparr>tag_line_buffer := l\<rparr>"
  have fresh: "fresh_line (fst (line_step (l @ [LF]) (p, X)))"
    using assms(1) by (simp add: line_step_def fresh_line_def split: prod.split)
  have "detect_tag p" using assms(1) by (simp add: fresh_line_def)
  from parse_in_line [OF this assms(2), of X "LF # rest"] show ?thesis
  proof (elim disjE)
    assume "parse_chars p [] X (l @ LF # rest) = parse_chars (p\<lparr>tag_line_buffer := tag_line_buffer p @ l\<rparr>) [] X (LF # rest)"
    moreover have "line_event (p\<lparr>tag_line_buffer := s\<rparr>) = line_event p" for s
      by (rule line_event_buffer)
    moreover have "p\<lparr>tag_line_buffer := [], active_tag := a, detect_tag := True\<rparr> = p\<lparr>active_tag := a\<rparr>" for a
      using assms(1) by (simp add: fresh_line_def)
    ultimately show ?thesis using assms(1) fresh
      by (simp add: fresh_line_def finish_tag_line_def line_step_def split: prod.split)
  next
    assume a: "not_tag p (tag_line_buffer p @ l) \<and> parse_chars p [] X (l @ LF # rest)
      = parse_chars (p\<lparr>tag_line_buffer := [], detect_tag := False\<rparr>) [] (push_text p (tag_line_buffer p @ l) X) (LF # rest)"
    then have "line_event p (l @ [LF]) = (active_tag p, text_segment (active_tag p) (l @ [LF]))"
      using not_tag_event [of p l "l @ [LF]"] assms by (simp add: fresh_line_def)
    then have "line_step (l @ [LF]) (p, X) = (p, push_text p (l @ [LF]) X)"
      by (simp add: line_step_def push_text_def)
    moreover have "push_text (p\<lparr>tag_line_buffer := [], detect_tag := False\<rparr>) [LF] (push_text p l X) = push_text p (l @ [LF]) X"
      using push_text_twice [of p "[LF]" l X] by (simp add: push_text_def)
    ultimately show ?thesis using a fresh eq assms(1) by (simp add: fresh_line_def)
  qed
qed

lemma finish_lines_buffer:
  "tag_line_buffer p \<noteq> [] \<Longrightarrow> push_segments (snd (finish_lines p)) X = close_block (line_step (tag_line_buffer p) (p, X))"
  by (simp add: finish_lines_def close_block_def line_step_def push_segments_push split: prod.split option.split)

lemma finish_lines_none:
  "tag_line_buffer p = [] \<Longrightarrow> push_segments (snd (finish_lines p)) X = close_block (p, X)"
  by (simp add: finish_lines_def close_block_def split: option.split)

lemma parse_lines:
  assumes "fresh_line p"
  shows "(case parse_chars p [] X s of (p', X') \<Rightarrow> push_segments (snd (finish_lines p')) X')
    = close_block (fold line_step (split_inclusive LF s) (p, X))"
  using assms
proof (induction "length s" arbitrary: p X s rule: less_induct)
  case less
  show ?case
  proof (cases "LF \<in> set s")
    case True
    then obtain l rest where s: "s = l @ LF # rest" "LF \<notin> set l" by (metis split_list_first)
    note step = parse_line [OF less.prems s(2), of X rest]
    let ?st = "line_step (l @ [LF]) (p, X)"
    from less.hyps [of rest "fst ?st" "snd ?st"] step show ?thesis
      by (simp add: s split_inclusive_append_sep)
  next
    case no: False
    show ?thesis
    proof (cases "s = []")
      case True
      with less.prems show ?thesis by (simp add: finish_lines_none fresh_line_def)
    next
      case False
      have d: "detect_tag p" "tag_line_buffer p = []" using less.prems by (simp_all add: fresh_line_def)
      from parse_in_line [OF d(1) no, of X "[]"] d(2) consider
        (buffered) "parse_chars p [] X s = (p\<lparr>tag_line_buffer := s\<rparr>, X)"
        | (flushed) "not_tag p s" "parse_chars p [] X s = (p\<lparr>tag_line_buffer := [], detect_tag := False\<rparr>, push_text p s X)"
        by auto
      then show ?thesis
      proof cases
        case buffered
        have "close_block (line_step s (p\<lparr>tag_line_buffer := s\<rparr>, X)) = close_block (line_step s (p, X))"
          by (auto simp: line_step_def close_block_def line_event_buffer split: prod.split option.split)
        with buffered False no show ?thesis
          by (simp add: finish_lines_buffer split_inclusive_no_sep)
      next
        case flushed
        then have "line_event p s = (active_tag p, text_segment (active_tag p) s)"
          using not_tag_event [of p s s] no by simp
        with flushed False no show ?thesis
          by (auto simp: finish_lines_none split_inclusive_no_sep line_step_def close_block_def push_text_def
              split: option.split)
      qed
    qed
  qed
qed

text \<open>All the segments of a stream: of every chunk and of the end.\<close>

fun all_segments :: "'t line_parser \<Rightarrow> str list \<Rightarrow> 't segment list" where
  "all_segments p [] = snd (finish_lines p)"
| "all_segments p (s # ss) = (case parse_delta p s of (p', segments) \<Rightarrow> segments @ all_segments p' ss)"

lemma all_segments_concat:
  "push_segments (all_segments p ss) X
     = (case parse_delta p (concat ss) of (p', out) \<Rightarrow> push_segments (snd (finish_lines p')) (push_segments out X))"
proof (induction ss arbitrary: p X)
  case Nil
  then show ?case by (simp add: parse_delta_def)
next
  case (Cons s ss)
  obtain p1 o1 where 1: "parse_delta p s = (p1, o1)" by fastforce
  obtain p2 o2 where 2: "parse_delta p1 (concat ss) = (p2, o2)" by fastforce
  from parse_delta_append [OF 1 2] Cons.IH [of p1] 1 2 show ?case
    by (simp add: push_segments_segments)
qed

lemma streamed_lines: "coalesce (all_segments (new_line_parser tags) chunks) = read_lines tags (concat chunks)"
proof -
  let ?p = "new_line_parser tags" and ?s = "concat chunks"
  obtain p' out where run: "parse_chars ?p [] [] ?s = (p', out)" by fastforce
  have out: "push_segments out [] = out" using parse_chars_out [of ?p "[]" "[]" "[]" ?s] run by simp
  have "fresh_line ?p" by (simp add: fresh_line_def new_line_parser_def)
  from parse_lines [OF this, of "[]" ?s] run out show ?thesis
    by (simp add: coalesce_def all_segments_concat parse_delta_def read_lines_def)
qed

section \<open>Plans\<close>

text \<open>
  Whether a plan block is open, the lines shown, and the text of the last plan, line by line.
\<close>

fun plan_line :: "str \<Rightarrow> bool \<times> str \<times> str option \<Rightarrow> bool \<times> str \<times> str option" where
  "plan_line line (inside, text_shown, plan) =
     (if line_slug line = OPEN_TAG \<and> \<not> inside then (True, text_shown, Some [])
      else if line_slug line = CLOSE_TAG \<and> inside then (False, text_shown, plan)
      else if inside then (True, text_shown, map_option (\<lambda>t. t @ line) plan)
      else (False, text_shown @ line, plan))"

definition read_plan :: "str \<Rightarrow> str \<times> str option" where
  "read_plan s = snd (fold plan_line (split_inclusive LF s) (False, [], None))"

definition shown_text :: "plan_tag segment list \<Rightarrow> str" where
  "shown_text segments = concat (map (shown \<circ> map_segment) segments)"

definition plan_state :: "plan_tag segment list \<Rightarrow> bool \<times> str" where
  "plan_state segments = fold extract_step (map map_segment segments) (False, [])"

lemma extract_text_Nil: "extract_step (ProposedPlanDelta []) st = st"
  by (cases st) simp

lemma extract_twice:
  "extract_step (ProposedPlanDelta (e @ d)) st = extract_step (ProposedPlanDelta d) (extract_step (ProposedPlanDelta e) st)"
  by (cases st) simp

lemma push_segment_shown: "shown_text (push_segment s X) = shown_text X @ shown (map_segment s)"
proof (cases X rule: rev_cases)
  case Nil
  then show ?thesis by (cases s) (simp_all add: shown_text_def)
next
  case (snoc X' x)
  show ?thesis unfolding snoc by (cases s; cases x) (simp_all add: shown_text_def)
qed

lemma push_segment_plan: "plan_state (push_segment s X) = extract_step (map_segment s) (plan_state X)"
proof (cases X rule: rev_cases)
  case Nil
  then show ?thesis by (cases s) (simp_all add: plan_state_def)
next
  case (snoc X' x)
  show ?thesis unfolding snoc
    by (cases s; cases x) (auto simp: plan_state_def extract_text_Nil extract_twice)
qed

lemma coalesce_views: "shown_text (coalesce segs) = shown_text segs" "plan_state (coalesce segs) = plan_state segs"
proof -
  have "shown_text (push_segments segs X) = shown_text X @ shown_text segs" for X
    by (induction segs arbitrary: X) (simp_all add: push_segment_shown, simp_all add: shown_text_def)
  from this [of "[]"] show "shown_text (coalesce segs) = shown_text segs"
    by (simp add: coalesce_def shown_text_def)
  have "plan_state (push_segments segs X) = fold extract_step (map map_segment segs) (plan_state X)" for X
    by (induction segs arbitrary: X) (simp_all add: push_segment_plan)
  from this [of "[]"] show "plan_state (coalesce segs) = plan_state segs"
    by (simp add: coalesce_def plan_state_def)
qed

abbreviation plan_tags :: "plan_tag line_tag list" where
  "plan_tags \<equiv> [\<lparr>line_open = OPEN_TAG, line_close = CLOSE_TAG, line_tag_of = ProposedPlan\<rparr>]"

definition plan_of :: "bool \<times> str \<Rightarrow> str option" where
  "plan_of st = (if fst st then Some (snd st) else None)"

definition plan_view :: "plan_parser \<times> plan_tag segment list \<Rightarrow> bool \<times> str \<times> str option \<Rightarrow> bool" where
  "plan_view st v \<longleftrightarrow> line_tags (fst st) = plan_tags \<and> fst v = (active_tag (fst st) \<noteq> None)
     \<and> fst (snd v) = shown_text (snd st) \<and> snd (snd v) = plan_of (plan_state (snd st))
     \<and> (fst v \<longrightarrow> fst (plan_state (snd st)))"

lemma plan_tags_differ: "OPEN_TAG \<noteq> CLOSE_TAG"
  by (simp add: OPEN_TAG_def CLOSE_TAG_def lit_def)

lemma plan_event:
  assumes "line_tags p = plan_tags"
  shows "line_event p line =
    (if line_slug line = OPEN_TAG \<and> active_tag p = None then (Some ProposedPlan, TagStart ProposedPlan)
     else if line_slug line = CLOSE_TAG \<and> active_tag p \<noteq> None then (None, TagEnd ProposedPlan)
     else (active_tag p, text_segment (active_tag p) line))"
proof -
  have tag: "ProposedPlan = t" for t by (cases t) simp
  show ?thesis using assms plan_tags_differ
    by (cases "active_tag p") (auto simp: line_event_def Let_def match_open_def match_close_def tag)
qed

lemma plan_view_step:
  assumes "plan_view st v"
  shows "plan_view (line_step line st) (plan_line line v)"
proof -
  obtain p X where st: "st = (p, X)" by fastforce
  obtain inside vis plan where v: "v = (inside, vis, plan)" by (metis prod_cases3)
  obtain seen t where state: "plan_state X = (seen, t)" by fastforce
  from assms have p: "line_tags p = plan_tags" by (simp add: plan_view_def st)
  show ?thesis
    using assms plan_tags_differ unfolding st v
    by (auto simp: plan_view_def line_step_def plan_event [OF p] p push_segment_shown push_segment_plan state
        plan_of_def text_segment_def simp del: push_segment.simps split: option.splits)
qed

lemma plan_view_fold: "plan_view st v \<Longrightarrow> plan_view (fold line_step ls st) (fold plan_line ls v)"
  by (induction ls arbitrary: st v) (auto simp: plan_view_step)

lemma read_lines_plan:
  "shown_text (read_lines plan_tags s) = fst (read_plan s)
   \<and> plan_of (plan_state (read_lines plan_tags s)) = snd (read_plan s)"
proof -
  let ?st = "fold line_step (split_inclusive LF s) (new_line_parser plan_tags, [])"
  have "plan_view (new_line_parser plan_tags, []) (False, [], None)"
    by (simp add: plan_view_def new_line_parser_def shown_text_def plan_state_def plan_of_def)
  from plan_view_fold [OF this] have v: "plan_view ?st (fold plan_line (split_inclusive LF s) (False, [], None))" .
  have "shown_text (close_block st) = shown_text (snd st)" "plan_state (close_block st) = plan_state (snd st)" for st
    by (cases "plan_state (snd st)";
        simp add: close_block_def push_segment_shown push_segment_plan del: push_segment.simps split: option.split)+
  with v show ?thesis by (simp add: read_lines_def read_plan_def plan_view_def)
qed

lemma map_segments_append: "map_segments (a @ b) = add_chunk (map_segments a) (map_segments b)"
  by (simp add: map_segments_def add_chunk_def Let_def)

lemma map_segments_views:
  "visible_text (map_segments segs) = shown_text segs"
  "fold extract_step (extracted (map_segments segs)) (False, []) = plan_state segs"
  by (simp_all add: map_segments_def Let_def shown_text_def plan_state_def)

lemma all_segments_plan:
  "shown_text (all_segments new_plan_parser chunks) = fst (read_plan (concat chunks))"
  "plan_of (plan_state (all_segments new_plan_parser chunks)) = snd (read_plan (concat chunks))"
  using read_lines_plan [of "concat chunks"] coalesce_views [of "all_segments new_plan_parser chunks"]
  by (simp_all add: streamed_lines new_plan_parser_def)

lemma plan_run_once:
  "strip_proposed_plan_blocks s = shown_text (all_segments new_plan_parser [s])"
  "extract_proposed_plan_text s = plan_of (plan_state (all_segments new_plan_parser [s]))"
  by (simp_all add: strip_proposed_plan_blocks_def extract_proposed_plan_text_def plan_push_def plan_finish_def
      map_segments_def Let_def shown_text_def plan_state_def plan_of_def split: prod.split)

section \<open>Properties\<close>

text \<open>
  The streaming line parser is a reading line by line: for any tags and any cutting of
  the text, its segments, with neighbours of the same text joined, are those of taking each
  whole line, which opens or closes a block if it is nothing but a tag and is text otherwise,
  and of closing an open block at the end.
\<close>

theorem tagged_lines_streamed:
  "coalesce (all_segments (new_line_parser tags) chunks) = read_lines tags (concat chunks)"
  by (rule streamed_lines)

text \<open>The message of an assistant in plan mode as it is streamed.\<close>

fun feed_plan :: "plan_parser \<Rightarrow> plan_segment stream_chunk \<Rightarrow> str list \<Rightarrow> plan_segment stream_chunk" where
  "feed_plan p acc [] = add_chunk acc (snd (plan_finish p))"
| "feed_plan p acc (s # ss) = (case plan_push p s of (p', out) \<Rightarrow> feed_plan p' (add_chunk acc out) ss)"

lemma feed_plan_segments: "feed_plan p acc ss = add_chunk acc (map_segments (all_segments p ss))"
  by (induction p acc ss rule: feed_plan.induct)
     (simp_all add: plan_push_def plan_finish_def map_segments_append add_chunk_assoc split: prod.split)

text \<open>
  A proposed plan is found wherever the stream is cut: what is shown are the lines
  outside of plan blocks and the plan is the text of the last block, as when the functions
  for whole messages strip and extract plans.
\<close>

theorem plan_streamed:
  "visible_text (feed_plan new_plan_parser empty_chunk chunks) = fst (read_plan (concat chunks))
   \<and> plan_of (fold extract_step (extracted (feed_plan new_plan_parser empty_chunk chunks)) (False, []))
      = snd (read_plan (concat chunks))
   \<and> (strip_proposed_plan_blocks (concat chunks), extract_proposed_plan_text (concat chunks))
      = read_plan (concat chunks)"
  using all_segments_plan [of chunks] all_segments_plan [of "[concat chunks]"]
  by (simp add: feed_plan_segments map_segments_views plan_run_once prod_eq_iff)

end
