(* ===== verification/AssistantText.thy ===== *)
theory AssistantText
  imports HiddenTagCorrect TaggedLineCorrect
begin

text \<open>
  \<open>utils/stream-parser/src/assistant_text.rs\<close>: the parser of an assistant message, which
  feeds the text without citations to the parser of plans.
\<close>

record assistant_chunk =
  assistant_text :: str
  found_citations :: "str list"
  plan_segments :: "plan_segment list"

definition empty_assistant_chunk :: assistant_chunk where
  "empty_assistant_chunk = \<lparr>assistant_text = [], found_citations = [], plan_segments = []\<rparr>"

definition assistant_chunk_is_empty :: "assistant_chunk \<Rightarrow> bool" where
  "assistant_chunk_is_empty c \<longleftrightarrow> assistant_text c = [] \<and> found_citations c = [] \<and> plan_segments c = []"

record assistant_parser =
  plan_mode :: bool
  citation_part :: citation_parser
  plan_part :: plan_parser

text \<open>\<open>None\<close> is the panic of the citation parser's constructor.\<close>

definition new_assistant_parser :: "bool \<Rightarrow> assistant_parser option" where
  "new_assistant_parser mode =
     (case new_citation_parser of
        Inl e \<Rightarrow> None
      | Inr c \<Rightarrow> Some \<lparr>plan_mode = mode, citation_part = c, plan_part = new_plan_parser\<rparr>)"

definition parse_visible_text :: "assistant_parser \<Rightarrow> str \<Rightarrow> assistant_parser \<times> assistant_chunk" where
  "parse_visible_text p s =
     (if \<not> plan_mode p then (p, empty_assistant_chunk\<lparr>assistant_text := s\<rparr>)
      else case plan_push (plan_part p) s of (q, out) \<Rightarrow>
        (p\<lparr>plan_part := q\<rparr>,
         empty_assistant_chunk\<lparr>assistant_text := visible_text out, plan_segments := extracted out\<rparr>))"

definition assistant_push :: "assistant_parser \<Rightarrow> str \<Rightarrow> (assistant_parser \<times> assistant_chunk) option" where
  "assistant_push p chunk =
     (case citation_push (citation_part p) chunk of
        None \<Rightarrow> None
      | Some (c, cited_chunk) \<Rightarrow>
          (case parse_visible_text (p\<lparr>citation_part := c\<rparr>) (visible_text cited_chunk) of
             (p, out) \<Rightarrow> Some (p, out\<lparr>found_citations := extracted cited_chunk\<rparr>)))"

definition assistant_finish :: "assistant_parser \<Rightarrow> assistant_parser \<times> assistant_chunk" where
  "assistant_finish p =
     (case citation_finish (citation_part p) of (c, cited_chunk) \<Rightarrow>
     (case parse_visible_text (p\<lparr>citation_part := c\<rparr>) (visible_text cited_chunk) of (p, out) \<Rightarrow>
       (let (p, out) =
          (if plan_mode p then
             (case plan_finish (plan_part p) of (q, tail) \<Rightarrow>
                (p\<lparr>plan_part := q\<rparr>,
                 if chunk_is_empty tail then out
                 else out\<lparr>assistant_text := assistant_text out @ visible_text tail,
                          plan_segments := plan_segments out @ extracted tail\<rparr>))
           else (p, out))
        in (p, out\<lparr>found_citations := extracted cited_chunk\<rparr>))))"

section \<open>A streamed message\<close>

definition add_assistant :: "assistant_chunk \<Rightarrow> assistant_chunk \<Rightarrow> assistant_chunk" where
  "add_assistant c d = \<lparr>assistant_text = assistant_text c @ assistant_text d,
     found_citations = found_citations c @ found_citations d,
     plan_segments = plan_segments c @ plan_segments d\<rparr>"

fun feed_assistant :: "assistant_parser \<Rightarrow> assistant_chunk \<Rightarrow> str list \<Rightarrow> assistant_chunk option" where
  "feed_assistant p acc [] = Some (add_assistant acc (snd (assistant_finish p)))"
| "feed_assistant p acc (s # ss) =
     (case assistant_push p s of
        None \<Rightarrow> None
      | Some (p', out) \<Rightarrow> feed_assistant p' (add_assistant acc out) ss)"

definition streamed_message :: "bool \<Rightarrow> str list \<Rightarrow> assistant_chunk option" where
  "streamed_message mode chunks =
     Option.bind (new_assistant_parser mode) (\<lambda>p. feed_assistant p empty_assistant_chunk chunks)"

text \<open>The visible pieces the citation parser gives for the chunks, the last at the end.\<close>

fun visible_pieces :: "citation_parser \<Rightarrow> str list \<Rightarrow> str list" where
  "visible_pieces c [] = [visible_text (snd (citation_finish c))]"
| "visible_pieces c (s # ss) =
     (case citation_push c s of
        None \<Rightarrow> []
      | Some (c', out) \<Rightarrow> visible_text out # visible_pieces c' ss)"

lemma feed_citations_visible:
  "feed_citations c acc ss = Some r \<Longrightarrow> visible_text r = visible_text acc @ concat (visible_pieces c ss)"
  by (induction c acc ss rule: feed_citations.induct) (auto simp: add_chunk_def split: option.splits)

definition with_plan :: "bool \<Rightarrow> str stream_chunk \<Rightarrow> plan_segment stream_chunk \<Rightarrow> assistant_chunk" where
  "with_plan mode c q = \<lparr>assistant_text = (if mode then visible_text q else visible_text c),
     found_citations = extracted c, plan_segments = (if mode then extracted q else [])\<rparr>"

lemma chunk_is_empty_iff: "chunk_is_empty c \<longleftrightarrow> c = empty_chunk"
  by (auto simp: chunk_is_empty_def empty_chunk_def)

lemma add_with_plan: "add_assistant (with_plan m c q) (with_plan m c' q') = with_plan m (add_chunk c c') (add_chunk q q')"
  by (simp add: add_assistant_def with_plan_def add_chunk_def)

lemma with_plan_finish:
  "snd (assistant_finish p) = with_plan (plan_mode p) (snd (citation_finish (citation_part p)))
     (case plan_push (plan_part p) (visible_text (snd (citation_finish (citation_part p)))) of
        (q, out) \<Rightarrow> add_chunk out (snd (plan_finish q)))"
  by (auto simp: assistant_finish_def parse_visible_text_def with_plan_def empty_assistant_chunk_def
      chunk_is_empty_iff add_chunk_def empty_chunk_def Let_def split: prod.split)

lemma with_plan_push:
  "assistant_push p s = (case citation_push (citation_part p) s of
     None \<Rightarrow> None
   | Some (c, cited_chunk) \<Rightarrow>
       (case plan_push (plan_part p) (visible_text cited_chunk) of (q, out) \<Rightarrow>
          Some (\<lparr>plan_mode = plan_mode p, citation_part = c, plan_part = (if plan_mode p then q else plan_part p)\<rparr>,
                with_plan (plan_mode p) cited_chunk out)))"
  by (cases p) (auto simp: assistant_push_def parse_visible_text_def with_plan_def empty_assistant_chunk_def
      split: prod.split option.split)

lemma feed_assistant_plan:
  "plan_mode p \<Longrightarrow> feed_assistant p (with_plan True c q) ss =
     map_option (\<lambda>c'. with_plan True c' (feed_plan (plan_part p) q (visible_pieces (citation_part p) ss)))
       (feed_citations (citation_part p) c ss)"
proof (induction ss arbitrary: p c q)
  case Nil
  then show ?case
    by (simp add: with_plan_finish add_with_plan add_chunk_assoc split: prod.split)
next
  case (Cons s ss)
  then show ?case by (simp add: with_plan_push add_with_plan split: prod.split option.split)
qed

lemma feed_assistant_no_plan:
  "\<not> plan_mode p \<Longrightarrow> feed_assistant p (with_plan False c q) ss =
     map_option (\<lambda>c'. with_plan False c' q) (feed_citations (citation_part p) c ss)"
proof (induction ss arbitrary: p c q)
  case Nil
  then show ?case by (simp add: with_plan_finish) (simp add: add_assistant_def with_plan_def add_chunk_def)
next
  case (Cons s ss)
  have "add_assistant (with_plan False c q) (with_plan False d r) = with_plan False (add_chunk c d) q" for d r
    by (simp add: add_assistant_def with_plan_def add_chunk_def)
  with Cons show ?case by (simp add: with_plan_push split: prod.split option.split)
qed

text \<open>
  However an assistant message is cut into chunks, what is shown and extracted is that
  of the whole message: the citations are those stripped from it, and what is shown is the
  text without them, in plan mode only its lines outside of plans, where the plan is the
  last one of the text without citations.
\<close>

theorem message_streamed:
  "\<exists>r vis cs. streamed_message mode chunks = Some r
     \<and> strip_citations (concat chunks) = Some (vis, cs) \<and> found_citations r = cs
     \<and> (assistant_text r, plan_of (fold extract_step (plan_segments r) (False, [])))
       = (if mode then read_plan vis else (vis, None))"
proof -
  let ?p = "\<lparr>plan_mode = mode, citation_part = start_citations, plan_part = new_plan_parser\<rparr>"
  have start: "empty_assistant_chunk = with_plan mode empty_chunk empty_chunk"
    by (simp add: empty_assistant_chunk_def with_plan_def empty_chunk_def)
  have msg: "streamed_message mode chunks = feed_assistant ?p (with_plan mode empty_chunk empty_chunk) chunks"
    by (simp add: streamed_message_def new_assistant_parser_def new_citations flip: start)
  obtain vis cs where strip: "strip_citations (concat chunks) = Some (vis, cs)"
    using strip_citations_reading [of "concat chunks"] by blast
  with streamed_citations_feed [of chunks] obtain c where
    c: "feed_citations start_citations empty_chunk chunks = Some c" "visible_text c = vis" "extracted c = cs"
    by auto
  let ?pieces = "visible_pieces start_citations chunks"
  have pieces: "concat ?pieces = vis"
    using feed_citations_visible [OF c(1)] c(2) by (simp add: empty_chunk_def)
  show ?thesis
  proof (cases mode)
    case True
    have "feed_plan new_plan_parser empty_chunk ?pieces
        = map_segments (all_segments new_plan_parser ?pieces)" by (simp add: feed_plan_segments)
    with all_segments_plan [of ?pieces] pieces True c strip show ?thesis
      using msg by (simp add: feed_assistant_plan) (simp add: with_plan_def map_segments_views prod_eq_iff)
  next
    case False
    with c strip show ?thesis
      using msg by (simp add: feed_assistant_no_plan) (simp add: with_plan_def plan_of_def empty_chunk_def)
  qed
qed

end
