(* ===== verification/Utf8.thy ===== *)
theory Utf8
  imports Prelude
begin

text \<open>
  How \<open>std\<close> decodes UTF-8 and UTF-16. Nothing here models a file of the repository, so the
  definitions have no entry in the map.
\<close>

section \<open>UTF-8\<close>

text \<open>The first character of some bytes with its length, an invalid sequence with the
  length of its valid beginning, or too few bytes to tell.\<close>

datatype first_char = Scalar uchar nat | Invalid nat | Short

definition continuation :: "nat \<Rightarrow> bool" where
  "continuation b \<longleftrightarrow> 128 \<le> b \<and> b \<le> 191"

text \<open>The second byte after a first one of three or four: no overlong form, no surrogate,
  nothing above the last character.\<close>

definition second_ok :: "nat \<Rightarrow> nat \<Rightarrow> bool" where
  "second_ok b c \<longleftrightarrow> continuation c \<and> (b = 224 \<longrightarrow> 160 \<le> c) \<and> (b = 237 \<longrightarrow> c \<le> 159)
     \<and> (b = 240 \<longrightarrow> 144 \<le> c) \<and> (b = 244 \<longrightarrow> c \<le> 143)"

fun decode_first :: "nat list \<Rightarrow> first_char" where
  "decode_first [] = Short"
| "decode_first (b # bs) =
     (if b < 128 then Scalar b 1
      else if 194 \<le> b \<and> b \<le> 223 then
        (case bs of
           [] \<Rightarrow> Short
         | c # _ \<Rightarrow> (if continuation c then Scalar ((b - 192) * 64 + (c - 128)) 2 else Invalid 1))
      else if 224 \<le> b \<and> b \<le> 239 then
        (case bs of
           [] \<Rightarrow> Short
         | [c] \<Rightarrow> (if second_ok b c then Short else Invalid 1)
         | c # d # _ \<Rightarrow>
             (if \<not> second_ok b c then Invalid 1
              else if \<not> continuation d then Invalid 2
              else Scalar ((b - 224) * 4096 + (c - 128) * 64 + (d - 128)) 3))
      else if 240 \<le> b \<and> b \<le> 244 then
        (case bs of
           [] \<Rightarrow> Short
         | [c] \<Rightarrow> (if second_ok b c then Short else Invalid 1)
         | [c, d] \<Rightarrow>
             (if \<not> second_ok b c then Invalid 1 else if continuation d then Short else Invalid 2)
         | c # d # e # _ \<Rightarrow>
             (if \<not> second_ok b c then Invalid 1
              else if \<not> continuation d then Invalid 2
              else if \<not> continuation e then Invalid 3
              else Scalar ((b - 240) * 262144 + (c - 128) * 4096 + (d - 128) * 64 + (e - 128)) 4))
      else Invalid 1)"

lemma decode_first_length: "decode_first bs = Scalar c k \<Longrightarrow> 0 < k \<and> k \<le> length bs"
  by (cases bs) (auto split: if_splits list.splits)

text \<open>\<open>String::from_utf8_lossy\<close>: each maximal invalid beginning becomes a replacement character.\<close>

abbreviation REPLACEMENT :: uchar where "REPLACEMENT \<equiv> 65533"

function from_utf8_lossy :: "nat list \<Rightarrow> str" where
  "from_utf8_lossy bs =
     (if bs = [] then []
      else case decode_first bs of
        Scalar c k \<Rightarrow> c # from_utf8_lossy (drop k bs)
      | Invalid k \<Rightarrow> REPLACEMENT # from_utf8_lossy (drop (max 1 k) bs)
      | Short \<Rightarrow> [REPLACEMENT])"
  by pat_completeness auto

termination by (relation "measure length") (auto dest: decode_first_length)

declare from_utf8_lossy.simps [simp del]

section \<open>UTF-16\<close>

text \<open>\<open>str::encode_utf16\<close> and \<open>String::from_utf16_lossy\<close>.\<close>

definition utf16_units :: "uchar \<Rightarrow> nat list" where
  "utf16_units c = (if c < 65536 then [c]
     else [55296 + (c - 65536) div 1024, 56320 + (c - 65536) mod 1024])"

definition high_surrogate :: "nat \<Rightarrow> bool" where
  "high_surrogate w \<longleftrightarrow> 55296 \<le> w \<and> w \<le> 56319"

definition low_surrogate :: "nat \<Rightarrow> bool" where
  "low_surrogate w \<longleftrightarrow> 56320 \<le> w \<and> w \<le> 57343"

fun from_utf16_lossy :: "nat list \<Rightarrow> str" where
  "from_utf16_lossy [] = []"
| "from_utf16_lossy (w # ws) =
     (if high_surrogate w \<and> ws \<noteq> [] \<and> low_surrogate (hd ws)
      then (65536 + (w - 55296) * 1024 + (hd ws - 56320)) # from_utf16_lossy (tl ws)
      else if high_surrogate w \<or> low_surrogate w then REPLACEMENT # from_utf16_lossy ws
      else w # from_utf16_lossy ws)"

end
