(* ===== verification/Utf8Stream.thy ===== *)
theory Utf8Stream
  imports HiddenTagCorrect Utf8 "HOL-Library.Word"
begin

text \<open>
  \<open>utils/stream-parser/src/utf8_stream.rs\<close>: a streaming parser fed with bytes, which keeps
  the beginning of a character until the rest of it comes. \<open>std::str::from_utf8\<close> is
  modelled, with where and why it stops.
\<close>

section \<open>UTF-8\<close>

type_synonym octet = "8 word"

text \<open>
  The text of the longest valid beginning, its length in bytes (\<open>valid_up_to\<close>), and, unless
  that is all, the \<open>error_len\<close>, \<open>None\<close> for an unexpected end.
\<close>

function utf8_scan :: "nat list \<Rightarrow> str \<times> nat \<times> nat option option" where
  "utf8_scan bs =
     (if bs = [] then ([], 0, None)
      else case decode_first bs of
        Scalar c k \<Rightarrow> (case utf8_scan (drop k bs) of (s, n, e) \<Rightarrow> (c # s, k + n, e))
      | Invalid k \<Rightarrow> ([], 0, Some (Some k))
      | Short \<Rightarrow> ([], 0, Some None))"
  by pat_completeness auto

termination
  by (relation "measure length") (auto dest: decode_first_length)

declare utf8_scan.simps [simp del]

definition from_utf8 :: "octet list \<Rightarrow> (nat \<times> nat option) + str" where
  "from_utf8 bs = (case utf8_scan (map unat bs) of
     (s, n, None) \<Rightarrow> Inr s | (s, n, Some e) \<Rightarrow> Inl (n, e))"

section \<open>The parser\<close>

datatype utf8_error = InvalidUtf8 nat nat | IncompleteUtf8AtEof

record 'p utf8_parser =
  inner :: 'p
  pending_utf8 :: "octet list"

definition new_utf8_parser :: "'p \<Rightarrow> 'p utf8_parser" where
  "new_utf8_parser p = \<lparr>inner = p, pending_utf8 = []\<rparr>"

definition set_inner ::
    "octet list \<Rightarrow> ('p \<times> 'o) option \<Rightarrow> ('p utf8_parser \<times> (utf8_error + 'o)) option" where
  "set_inner rest r = map_option (\<lambda>(p, out). (\<lparr>inner = p, pending_utf8 = rest\<rparr>, Inr out)) r"

text \<open>The push of the inner parser, which may not return, is an argument.\<close>

definition push_bytes ::
    "('p \<Rightarrow> str \<Rightarrow> ('p \<times> 'x stream_chunk) option) \<Rightarrow> 'p utf8_parser \<Rightarrow> octet list
     \<Rightarrow> ('p utf8_parser \<times> (utf8_error + 'x stream_chunk)) option" where
  "push_bytes push p chunk =
     (let old_len = length (pending_utf8 p);
          bytes = pending_utf8 p @ chunk
      in case from_utf8 bytes of
           Inr s \<Rightarrow> set_inner [] (push (inner p) s)
         | Inl (valid_up_to, Some error_len) \<Rightarrow>
             Some (p\<lparr>pending_utf8 := take old_len bytes\<rparr>, Inl (InvalidUtf8 valid_up_to error_len))
         | Inl (valid_up_to, None) \<Rightarrow>
             (if valid_up_to = 0 then Some (p\<lparr>pending_utf8 := bytes\<rparr>, Inr empty_chunk)
              else case from_utf8 (take valid_up_to bytes) of
                     Inr s \<Rightarrow> set_inner (drop valid_up_to bytes) (push (inner p) s)
                   | Inl (n, e) \<Rightarrow>
                       Some (p\<lparr>pending_utf8 := take old_len bytes\<rparr>,
                             Inl (InvalidUtf8 n (case e of Some k \<Rightarrow> k | None \<Rightarrow> 0)))))"

fun pending_error :: "nat \<times> nat option \<Rightarrow> utf8_error" where
  "pending_error (n, Some k) = InvalidUtf8 n k"
| "pending_error (n, None) = IncompleteUtf8AtEof"

definition finish_bytes ::
    "('p \<Rightarrow> str \<Rightarrow> ('p \<times> 'x stream_chunk) option) \<Rightarrow> ('p \<Rightarrow> 'p \<times> 'x stream_chunk) \<Rightarrow> 'p utf8_parser
     \<Rightarrow> ('p utf8_parser \<times> (utf8_error + 'x stream_chunk)) option" where
  "finish_bytes push finish p =
     (if pending_utf8 p = [] then
        (case finish (inner p) of (q, tail) \<Rightarrow> Some (p\<lparr>inner := q\<rparr>, Inr (add_chunk empty_chunk tail)))
      else case from_utf8 (pending_utf8 p) of
        Inl e \<Rightarrow> Some (p, Inl (pending_error e))
      | Inr s \<Rightarrow>
          (case push (inner p) s of
             None \<Rightarrow> None
           | Some (q, out) \<Rightarrow>
               (case finish q of (q, tail) \<Rightarrow>
                  Some (\<lparr>inner = q, pending_utf8 = []\<rparr>, Inr (add_chunk out tail)))))"

definition into_inner :: "'p utf8_parser \<Rightarrow> utf8_error + 'p" where
  "into_inner p =
     (if pending_utf8 p = [] then Inr (inner p)
      else case from_utf8 (pending_utf8 p) of
        Inr s \<Rightarrow> Inr (inner p) | Inl e \<Rightarrow> Inl (pending_error e))"

definition into_inner_lossy :: "'p utf8_parser \<Rightarrow> 'p" where
  "into_inner_lossy p = inner p"

section \<open>Cutting the bytes\<close>

lemma decode_first_append:
  "decode_first bs = Scalar c k \<Longrightarrow> decode_first (bs @ t) = Scalar c k"
  "decode_first bs = Invalid k \<Longrightarrow> decode_first (bs @ t) = Invalid k"
  by (cases bs; auto split: if_splits list.splits)+

lemma utf8_scan_Nil [simp]: "utf8_scan [] = ([], 0, None)"
  by (simp add: utf8_scan.simps)

lemma utf8_scan_append:
  "utf8_scan a = (s, n, e) \<Longrightarrow> utf8_scan (a @ b) =
     (case e of
        Some (Some k) \<Rightarrow> (s, n, e)
      | _ \<Rightarrow> (case utf8_scan (drop n a @ b) of (s', n', e') \<Rightarrow> (s @ s', n + n', e')))"
proof (induction a arbitrary: s n e rule: utf8_scan.induct)
  case (1 a)
  show ?case
  proof (cases "a = []")
    case True
    with 1 show ?thesis by (auto split: prod.split)
  next
    case False
    show ?thesis
    proof (cases "decode_first a")
      case (Scalar c k)
      obtain s1 n1 e1 where r: "utf8_scan (drop k a) = (s1, n1, e1)" by (metis prod_cases3)
      with 1 False Scalar have "s = c # s1" "n = k + n1" "e = e1" by (simp_all add: utf8_scan.simps [of a])
      moreover have "k \<le> length a" using decode_first_length [OF Scalar] by simp
      ultimately show ?thesis
        using "1.IH" [OF False Scalar r] False decode_first_append(1) [OF Scalar, of b]
        by (simp add: utf8_scan.simps [of "a @ b"] drop_drop add.commute split: option.split prod.split)
    next
      case (Invalid k)
      with 1 False decode_first_append(2) [OF Invalid, of b] show ?thesis
        by (auto simp: utf8_scan.simps [of a] utf8_scan.simps [of "a @ b"])
    next
      case Short
      with 1 False show ?thesis by (auto simp: utf8_scan.simps [of a] split: prod.split)
    qed
  qed
qed

lemma utf8_scan_valid:
  "utf8_scan a = (s, n, e) \<Longrightarrow> n \<le> length a \<and> utf8_scan (take n a) = (s, n, None) \<and> (e = None \<longrightarrow> n = length a)"
proof (induction a arbitrary: s n e rule: utf8_scan.induct)
  case (1 a)
  show ?case
  proof (cases "a = []")
    case False
    show ?thesis
    proof (cases "decode_first a")
      case (Scalar c k)
      obtain s1 n1 e1 where r: "utf8_scan (drop k a) = (s1, n1, e1)" by (metis prod_cases3)
      with 1 False Scalar have eqs: "s = c # s1" "n = k + n1" "e = e1" by (simp_all add: utf8_scan.simps [of a])
      have k: "0 < k" "k \<le> length a" using decode_first_length [OF Scalar] by simp_all
      have first: "decode_first (take n a) = Scalar c k"
      proof -
        have "decode_first (take k a) = Scalar c k" using Scalar k by (cases a) (auto split: if_splits list.splits)
        from decode_first_append(1) [OF this, of "take n1 (drop k a)"] show ?thesis
          by (simp add: eqs take_add)
      qed
      from "1.IH" [OF False Scalar r] have ih: "n1 \<le> length a - k"
        "utf8_scan (take n1 (drop k a)) = (s1, n1, None)" "e1 = None \<longrightarrow> n1 = length a - k" by simp_all
      have "take n a \<noteq> []" using False k eqs by simp
      then have "utf8_scan (take n a) = (s, n, None)"
        using first ih(2) by (subst utf8_scan.simps) (simp add: eqs drop_take)
      with ih k eqs show ?thesis by auto
    qed (use 1 False in \<open>auto simp: utf8_scan.simps [of a]\<close>)
  qed (use 1 in auto)
qed

lemma from_utf8_Inr: "from_utf8 bs = Inr s \<longleftrightarrow> (\<exists>n. utf8_scan (map unat bs) = (s, n, None))"
  by (auto simp: from_utf8_def split: prod.split option.split)

lemma from_utf8_Inl: "from_utf8 bs = Inl (n, e) \<longleftrightarrow> (\<exists>s. utf8_scan (map unat bs) = (s, n, Some e))"
  by (auto simp: from_utf8_def split: prod.split option.split)

lemma from_utf8_Nil [simp]: "from_utf8 [] = Inr []"
  by (simp add: from_utf8_def)

text \<open>What bytes mean that come after others.\<close>

lemma from_utf8_append_Inr:
  "from_utf8 a = Inr s \<Longrightarrow> from_utf8 (a @ b) = (case from_utf8 b of Inr t \<Rightarrow> Inr (s @ t) | Inl (n, e) \<Rightarrow> Inl (length a + n, e))"
proof -
  assume "from_utf8 a = Inr s"
  then obtain n where n: "utf8_scan (map unat a) = (s, n, None)" by (auto simp: from_utf8_Inr)
  then have "n = length a" using utf8_scan_valid [OF n] by simp
  with utf8_scan_append [OF n, of "map unat b"] show ?thesis
    by (cases "utf8_scan (map unat b)") (auto simp: from_utf8_def split: option.split)
qed

lemma from_utf8_append_Invalid:
  "from_utf8 a = Inl (n, Some k) \<Longrightarrow> from_utf8 (a @ b) = Inl (n, Some k)"
  using utf8_scan_append [of "map unat a" _ n "Some (Some k)" "map unat b"] by (auto simp: from_utf8_Inl)

lemma from_utf8_append_Short:
  assumes "from_utf8 a = Inl (n, None)"
  shows "\<exists>s. from_utf8 (take n a) = Inr s \<and> n \<le> length a"
  using assms utf8_scan_valid by (fastforce simp: from_utf8_Inl from_utf8_Inr take_map)

section \<open>Bytes in, the inner parser's outputs out\<close>

locale chunk_parser = stream_parser ok push finish "\<lambda>c. c" add_chunk empty_chunk
  for ok :: "'p \<Rightarrow> bool"
    and push :: "'p \<Rightarrow> str \<Rightarrow> ('p \<times> 'x stream_chunk) option"
    and finish :: "'p \<Rightarrow> 'p \<times> 'x stream_chunk"

fun feed_bytes ::
    "('p \<Rightarrow> str \<Rightarrow> ('p \<times> 'x stream_chunk) option) \<Rightarrow> ('p \<Rightarrow> 'p \<times> 'x stream_chunk) \<Rightarrow> 'p utf8_parser
     \<Rightarrow> 'x stream_chunk \<Rightarrow> octet list list \<Rightarrow> (utf8_error + 'x stream_chunk) option" where
  "feed_bytes push finish p acc [] =
     (case finish_bytes push finish p of
        None \<Rightarrow> None
      | Some (p', Inl e) \<Rightarrow> Some (Inl e)
      | Some (p', Inr out) \<Rightarrow> Some (Inr (add_chunk acc out)))"
| "feed_bytes push finish p acc (c # cs) =
     (case push_bytes push p c of
        None \<Rightarrow> None
      | Some (p', Inl e) \<Rightarrow> Some (Inl e)
      | Some (p', Inr out) \<Rightarrow> feed_bytes push finish p' (add_chunk acc out) cs)"

definition whole ::
    "('p \<Rightarrow> str \<Rightarrow> ('p \<times> 'x stream_chunk) option) \<Rightarrow> ('p \<Rightarrow> 'p \<times> 'x stream_chunk) \<Rightarrow> 'p \<Rightarrow> str
     \<Rightarrow> 'x stream_chunk option" where
  "whole push finish q s = (case push q s of
     None \<Rightarrow> None | Some (q', out) \<Rightarrow> Some (add_chunk out (snd (finish q'))))"

text \<open>Whether the answer to a stream is the right one for its bytes.\<close>

fun answers :: "(nat \<times> nat option) + str \<Rightarrow> (str \<Rightarrow> 'x stream_chunk option) \<Rightarrow> (utf8_error + 'x stream_chunk) option \<Rightarrow> bool" where
  "answers (Inr s) w r = (r = map_option Inr (w s))"
| "answers (Inl (n, None)) w r = (r = Some (Inl IncompleteUtf8AtEof))"
| "answers (Inl (n, Some k)) w r = (\<exists>m. r = Some (Inl (InvalidUtf8 m k)))"

context chunk_parser
begin

lemma whole_append:
  assumes "ok q" and "push q s = Some (q', out)"
  shows "ok q'" "whole push finish q (s @ t) = map_option (add_chunk out) (whole push finish q' t)"
proof -
  show q': "ok q'" using push_returns [OF assms(1), of s] assms(2) by auto
  from push_returns [OF q', of t] obtain q'' out' where 2: "push q' t = Some (q'', out')" by blast
  from push_append [OF assms 2] 2 show "whole push finish q (s @ t) = map_option (add_chunk out) (whole push finish q' t)"
    by (auto simp: whole_def add_chunk_assoc)
qed

lemma feed_bytes_answers:
  "ok (inner p) \<Longrightarrow> answers (from_utf8 (pending_utf8 p @ concat cs))
     (\<lambda>s. map_option (add_chunk acc) (whole push finish (inner p) s)) (feed_bytes push finish p acc cs)"
proof (induction cs arbitrary: p acc)
  case Nil
  obtain q where q: "push (inner p) [] = Some (inner p, empty_chunk)"
    using push_returns [OF Nil, of "[]"] push_Nil [OF Nil] by fastforce
  show ?case
  proof (cases "pending_utf8 p = []")
    case True
    with q show ?thesis by (auto simp: finish_bytes_def whole_def split: prod.split)
  next
    case False
    show ?thesis
    proof (cases "from_utf8 (pending_utf8 p)")
      case (Inl ne)
      obtain n e where "ne = (n, e)" by fastforce
      with Inl False show ?thesis by (cases e) (simp_all add: finish_bytes_def)
    next
      case (Inr s)
      with False show ?thesis
        by (auto simp: finish_bytes_def whole_def split: option.split prod.split)
    qed
  qed
next
  case (Cons c cs)
  let ?bytes = "pending_utf8 p @ c" and ?rest = "concat cs"
  have step: "answers (from_utf8 (?bytes @ ?rest)) (\<lambda>s. map_option (add_chunk acc) (whole push finish (inner p) s))
      (feed_bytes push finish \<lparr>inner = q, pending_utf8 = drop n ?bytes\<rparr> (add_chunk acc out) cs)"
    if s: "from_utf8 (take n ?bytes) = Inr s" and out: "push (inner p) s = Some (q, out)" for n s q out
  proof -
    note w = whole_append [OF Cons.prems out]
    have split: "?bytes @ ?rest = take n ?bytes @ drop n ?bytes @ ?rest"
      by (metis append_assoc append_take_drop_id)
    from Cons.IH [of "\<lparr>inner = q, pending_utf8 = drop n ?bytes\<rparr>" "add_chunk acc out"] w(1)
    have "answers (from_utf8 (drop n ?bytes @ ?rest))
        (\<lambda>t. map_option (add_chunk (add_chunk acc out)) (whole push finish q t))
        (feed_bytes push finish \<lparr>inner = q, pending_utf8 = drop n ?bytes\<rparr> (add_chunk acc out) cs)" by simp
    then show ?thesis
      unfolding split from_utf8_append_Inr [OF s]
      by (cases "from_utf8 (drop n ?bytes @ ?rest)" rule: sum.exhaust)
         (auto simp: w(2) option.map_comp comp_def add_chunk_assoc split: prod.splits elim!: answers.elims)
  qed
  show ?case
  proof (cases "from_utf8 ?bytes")
    case (Inr s)
    from push_returns [OF Cons.prems, of s] obtain q out where out: "push (inner p) s = Some (q, out)" by blast
    from step [of "length ?bytes" s q out] Inr out show ?thesis
      by (simp add: push_bytes_def set_inner_def)
  next
    case (Inl ne)
    obtain n e where ne: "ne = (n, e)" by fastforce
    show ?thesis
    proof (cases e)
      case (Some k)
      with Inl ne from_utf8_append_Invalid [of ?bytes n k ?rest] show ?thesis
        by (simp add: push_bytes_def)
    next
      case None
      with Inl ne have short: "from_utf8 ?bytes = Inl (n, None)" by simp
      from from_utf8_append_Short [OF short] obtain s where s: "from_utf8 (take n ?bytes) = Inr s" by blast
      from push_returns [OF Cons.prems, of s] obtain q out where out: "push (inner p) s = Some (q, out)" by blast
      show ?thesis
      proof (cases "n = 0")
        case True
        with Cons.IH [of "p\<lparr>pending_utf8 := ?bytes\<rparr>" acc] Cons.prems short show ?thesis
          by (simp add: push_bytes_def)
      next
        case False
        from step [OF s out] False short s out show ?thesis
          by (simp add: push_bytes_def set_inner_def)
      qed
    qed
  qed
qed

end

interpretation citation_bytes: chunk_parser citation_ok citation_push citation_finish ..

section \<open>Encoded text\<close>

definition is_scalar :: "uchar \<Rightarrow> bool" where
  "is_scalar c \<longleftrightarrow> c < 1114112 \<and> \<not> (55296 \<le> c \<and> c \<le> 57343)"

definition utf8_encode :: "str \<Rightarrow> octet list" where
  "utf8_encode s = map of_nat (concat (map utf8_char s))"

lemma continuation_digit [simp]: "continuation (128 + n mod 64)"
  by (simp add: continuation_def)

lemma base64_digits:
  fixes c :: nat
  shows "c = c div 4096 * 4096 + c div 64 mod 64 * 64 + c mod 64"
    and "c = c div 262144 * 262144 + c div 4096 mod 64 * 4096 + c div 64 mod 64 * 64 + c mod 64"
proof -
  have 1: "c = c div 64 * 64 + c mod 64" by simp
  have 2: "c div 64 = c div 4096 * 64 + c div 64 mod 64"
    using div_mult_mod_eq [of "c div 64" 64] by (simp flip: div_mult2_eq)
  have 3: "c div 4096 = c div 262144 * 64 + c div 4096 mod 64"
    using div_mult_mod_eq [of "c div 4096" 64] by (simp flip: div_mult2_eq)
  from 1 2 show "c = c div 4096 * 4096 + c div 64 mod 64 * 64 + c mod 64" by linarith
  with 3 show "c = c div 262144 * 262144 + c div 4096 mod 64 * 4096 + c div 64 mod 64 * 64 + c mod 64"
    by linarith
qed

lemma decode_utf8_char:
  assumes "is_scalar c"
  shows "decode_first (utf8_char c @ t) = Scalar c (length (utf8_char c))"
proof -
  let ?x = "c div 4096" and ?y = "c div 64 mod 64" and ?z = "c mod 64"
  consider "c < 128" | "128 \<le> c" "c < 2048" | "2048 \<le> c" "c < 65536" | "65536 \<le> c" by linarith
  then show ?thesis
  proof cases
    case 2
    then have "2 \<le> c div 64" "c div 64 \<le> 31" by linarith+
    with 2 show ?thesis by (simp add: utf8_char_def)
  next
    case 3
    have x: "?x \<le> 15" using 3 by linarith
    have "32 \<le> ?y" if "?x = 0" using base64_digits(1) [of c] that 3 mod_less_divisor [of 64 c] by linarith
    moreover have "?y \<le> 31" if "?x = 13"
      using base64_digits(1) [of c] that assms unfolding is_scalar_def by linarith
    ultimately have "second_ok (224 + ?x) (128 + ?y)" using x by (auto simp: second_ok_def)
    with 3 x base64_digits(1) [of c] show ?thesis by (simp add: utf8_char_def)
  next
    case 4
    let ?w = "c div 262144" and ?v = "?x mod 64"
    have w: "?w \<le> 4" using assms unfolding is_scalar_def by linarith
    have z: "?y \<le> 63" "?z \<le> 63" using mod_less_divisor [of 64 "c div 64"] mod_less_divisor [of 64 c] by linarith+
    have "16 \<le> ?v" if "?w = 0" using base64_digits(2) [of c] that 4 z by linarith
    moreover have "?v \<le> 15" if "?w = 4"
      using base64_digits(2) [of c] that assms unfolding is_scalar_def by linarith
    ultimately have "second_ok (240 + ?w) (128 + ?v)" using w by (auto simp: second_ok_def)
    with 4 w base64_digits(2) [of c] show ?thesis by (simp add: utf8_char_def)
  qed (simp_all add: utf8_char_def)
qed

lemma utf8_char_bytes: "is_scalar c \<Longrightarrow> b \<in> set (utf8_char c) \<Longrightarrow> b < 256"
proof -
  assume c: "is_scalar c" and b: "b \<in> set (utf8_char c)"
  have m: "n mod 64 < 64" for n :: nat by simp
  have "c < 2048 \<Longrightarrow> c div 64 < 32" "c < 65536 \<Longrightarrow> c div 4096 < 16" "c div 262144 < 5"
    using c unfolding is_scalar_def by linarith+
  with b m [of c] m [of "c div 64"] m [of "c div 4096"] show "b < 256"
    by (auto simp: utf8_char_def split: if_splits)
qed

lemma utf8_scan_encoded:
  "list_all is_scalar s \<Longrightarrow> \<exists>n. utf8_scan (concat (map utf8_char s)) = (s, n, None)"
proof (induction s)
  case (Cons c s)
  have "utf8_char c \<noteq> []" by (simp add: utf8_char_def)
  with Cons decode_utf8_char [of c "concat (map utf8_char s)"] show ?case
    by (subst utf8_scan.simps) auto
qed simp

lemma from_utf8_encode:
  assumes "list_all is_scalar s"
  shows "from_utf8 (utf8_encode s) = Inr s"
proof -
  have "map unat (utf8_encode s) = concat (map utf8_char s)"
    unfolding utf8_encode_def map_map
    using assms utf8_char_bytes by (intro map_idI) (fastforce simp: unat_of_nat list_all_iff)
  with utf8_scan_encoded [OF assms] show ?thesis by (simp add: from_utf8_Inr)
qed

section \<open>Properties\<close>

lemma map_add_empty: "map_option (add_chunk empty_chunk) r = r"
  by (cases r) simp_all

text \<open>
  Bytes may be cut anywhere, inside of a character too: for any bytes in any chunks the
  citation parser over bytes answers with the citations and the visible text of the text
  they encode, and if they encode none, with the error that says why.
\<close>

theorem utf8_stream_answers:
  "answers (from_utf8 (concat chunks)) (\<lambda>s. whole citation_push citation_finish start_citations s)
     (feed_bytes citation_push citation_finish (new_utf8_parser start_citations) empty_chunk chunks)"
  using citation_bytes.feed_bytes_answers [of "new_utf8_parser start_citations" chunks empty_chunk] start_ok
  by (simp add: new_utf8_parser_def map_add_empty)

lemma whole_citations:
  "map_option (\<lambda>c. (visible_text c, extracted c)) (whole citation_push citation_finish start_citations s)
     = strip_citations s"
proof -
  obtain p out where "citation_push start_citations s = Some (p, out)"
    using citations.push_returns [OF start_ok] by blast
  with strip_citations_push [OF this] show ?thesis by (simp add: whole_def)
qed

text \<open>
  Encoding, cutting into chunks of bytes and parsing strips the citations of a text.
\<close>

theorem utf8_citations_roundtrip:
  assumes "list_all is_scalar s" and "concat chunks = utf8_encode s"
  shows "\<exists>c. feed_bytes citation_push citation_finish (new_utf8_parser start_citations) empty_chunk chunks = Some (Inr c)
    \<and> strip_citations s = Some (visible_text c, extracted c)"
proof -
  obtain c where c: "whole citation_push citation_finish start_citations s = Some c"
    using whole_citations [of s] strip_citations_reading [of s] by auto
  with citation_bytes.feed_bytes_answers [of "new_utf8_parser start_citations" chunks empty_chunk] start_ok
  have "feed_bytes citation_push citation_finish (new_utf8_parser start_citations) empty_chunk chunks = Some (Inr c)"
    by (simp add: new_utf8_parser_def assms(2) from_utf8_encode [OF assms(1)])
  with c whole_citations [of s] show ?thesis by auto
qed

theorem utf8_citations_roundtrip_witness:
  "\<exists>c. feed_bytes citation_push citation_finish (new_utf8_parser start_citations) empty_chunk [[195], [169, 60]]
     = Some (Inr c) \<and> strip_citations [233, 60] = Some (visible_text c, extracted c)"
  by (rule utf8_citations_roundtrip) (simp_all add: is_scalar_def utf8_encode_def utf8_char_def)

text \<open>
  Invalid bytes are rolled back: a push that answers with an error leaves the parser as
  it was, with the bytes kept from before and the inner parser untouched, and it answers so
  only for bytes that no later ones can make valid.
\<close>

theorem invalid_push_rolled_back:
  assumes "push_bytes push p chunk = Some (p', Inl e)"
  shows "p' = p
    \<and> (\<exists>n k. e = InvalidUtf8 n k \<and> from_utf8 (pending_utf8 p @ chunk @ later) = Inl (n, Some k))"
proof -
  let ?bytes = "pending_utf8 p @ chunk"
  have inner: "set_inner r (push (inner p) s) \<noteq> Some (p', Inl e)" for r s
    by (cases "push (inner p) s") (auto simp: set_inner_def)
  have short: "from_utf8 ?bytes \<noteq> Inl (n, None)" for n
  proof
    assume *: "from_utf8 ?bytes = Inl (n, None)"
    from from_utf8_append_Short [OF this] obtain s where "from_utf8 (take n ?bytes) = Inr s" by blast
    with * assms inner [of "drop n ?bytes" s] show False
      by (simp add: push_bytes_def Let_def del: take_append drop_append split: if_splits)
  qed
  obtain n k where k: "from_utf8 ?bytes = Inl (n, Some k)"
  proof (cases "from_utf8 ?bytes")
    case (Inl ne)
    with short that show ?thesis by (metis option.exhaust surj_pair)
  next
    case (Inr s)
    with assms inner [of "[]" s] show ?thesis by (simp add: push_bytes_def)
  qed
  with assms have "e = InvalidUtf8 n k" "p' = p" by (auto simp: push_bytes_def)
  with from_utf8_append_Invalid [OF k, of later] show ?thesis by simp
qed

theorem invalid_push_rolled_back_witness:
  "push_bytes citation_push (new_utf8_parser start_citations) [65, 255]
     = Some (new_utf8_parser start_citations, Inl (InvalidUtf8 1 1))
   \<and> from_utf8 ([65, 255] @ [128]) = Inl (1, Some 1)"
proof -
  have "push_bytes citation_push (new_utf8_parser start_citations) [65, 255]
     = Some (new_utf8_parser start_citations, Inl (InvalidUtf8 1 1))" by code_simp
  from this invalid_push_rolled_back [OF this, of "[128]"] show ?thesis
    by (simp add: new_utf8_parser_def)
qed

end
