(* ===== verification/Truncation.thy ===== *)
theory Truncation
  imports Prelude "HOL-Library.Monad_Syntax"
begin

text \<open>
  The truncation of texts and tool outputs: \<open>utils/string/src/truncate.rs\<close>,
  \<open>utils/output-truncation/src/lib.rs\<close>, \<open>guardian-context/src/truncation.rs\<close> and the
  policy of \<open>protocol/src/protocol.rs\<close>. Here indices are byte offsets, as in the sources,
  and a slice that cuts a character is a panic, \<open>None\<close>.
\<close>

section \<open>Byte offsets\<close>

text \<open>\<open>&s[..n]\<close> and \<open>&s[n..]\<close>.\<close>

fun take_bytes :: "nat \<Rightarrow> str \<Rightarrow> str option" where
  "take_bytes n [] = (if n = 0 then Some [] else None)"
| "take_bytes n (c # s) =
     (if n = 0 then Some []
      else if len_utf8 c \<le> n then map_option ((#) c) (take_bytes (n - len_utf8 c) s)
      else None)"

fun drop_bytes :: "nat \<Rightarrow> str \<Rightarrow> str option" where
  "drop_bytes n [] = (if n = 0 then Some [] else None)"
| "drop_bytes n (c # s) =
     (if n = 0 then Some (c # s)
      else if len_utf8 c \<le> n then drop_bytes (n - len_utf8 c) s
      else None)"

definition is_char_boundary :: "str \<Rightarrow> nat \<Rightarrow> bool" where
  "is_char_boundary s n \<longleftrightarrow> take_bytes n s \<noteq> None"

text \<open>\<open>str::char_indices\<close>, from an offset.\<close>

fun char_indices :: "nat \<Rightarrow> str \<Rightarrow> (nat \<times> uchar) list" where
  "char_indices i [] = []"
| "char_indices i (c # s) = (i, c) # char_indices (i + len_utf8 c) s"

section \<open>Truncating a text in the middle\<close>

definition APPROX_BYTES_PER_TOKEN :: nat where "APPROX_BYTES_PER_TOKEN = 4"

definition approx_token_count :: "str \<Rightarrow> nat" where
  "approx_token_count s =
     sat_add (str_len s) (APPROX_BYTES_PER_TOKEN - 1) div APPROX_BYTES_PER_TOKEN"

definition approx_bytes_for_tokens :: "nat \<Rightarrow> nat" where
  "approx_bytes_for_tokens tokens = sat_mul tokens APPROX_BYTES_PER_TOKEN"

definition approx_tokens_from_byte_count :: "nat \<Rightarrow> nat" where
  "approx_tokens_from_byte_count bytes =
     sat_add bytes (APPROX_BYTES_PER_TOKEN - 1) div APPROX_BYTES_PER_TOKEN"

record split_scan =
  prefix_end :: nat
  suffix_start :: nat
  removed_chars :: nat
  suffix_started :: bool

definition scan_char :: "nat \<Rightarrow> nat \<Rightarrow> nat \<times> uchar \<Rightarrow> split_scan \<Rightarrow> split_scan" where
  "scan_char beginning_bytes tail_start_target ic st =
     (case ic of (idx, ch) \<Rightarrow>
        let char_end = idx + len_utf8 ch in
        if char_end \<le> beginning_bytes then st\<lparr>prefix_end := char_end\<rparr>
        else if tail_start_target \<le> idx then
          (if \<not> suffix_started st then st\<lparr>suffix_start := idx, suffix_started := True\<rparr> else st)
        else st\<lparr>removed_chars := sat_add (removed_chars st) 1\<rparr>)"

definition split_string :: "str \<Rightarrow> nat \<Rightarrow> nat \<Rightarrow> (nat \<times> str \<times> str) option" where
  "split_string s beginning_bytes end_bytes =
     (if s = [] then Some (0, [], [])
      else
        (let len = str_len s;
             st = fold (scan_char beginning_bytes (len - end_bytes)) (char_indices 0 s)
               \<lparr>prefix_end = 0, suffix_start = len, removed_chars = 0, suffix_started = False\<rparr>;
             start = (if suffix_start st < prefix_end st then prefix_end st else suffix_start st)
         in do {
           before \<leftarrow> take_bytes (prefix_end st) s;
           after \<leftarrow> drop_bytes start s;
           Some (removed_chars st, before, after)
         }))"

definition split_budget :: "nat \<Rightarrow> nat \<times> nat" where
  "split_budget budget = (let left = budget div 2 in (left, budget - left))"

definition ELLIPSIS :: str where "ELLIPSIS = [8230]"

definition format_truncation_marker :: "bool \<Rightarrow> nat \<Rightarrow> str" where
  "format_truncation_marker use_tokens removed_count =
     (if use_tokens then ELLIPSIS @ show_nat removed_count @ lit '' tokens truncated'' @ ELLIPSIS
      else ELLIPSIS @ show_nat removed_count @ lit '' chars truncated'' @ ELLIPSIS)"

definition removed_units :: "bool \<Rightarrow> nat \<Rightarrow> nat \<Rightarrow> nat" where
  "removed_units use_tokens removed_bytes removed =
     (if use_tokens then approx_tokens_from_byte_count removed_bytes else removed)"

definition assemble_truncated_output :: "str \<Rightarrow> str \<Rightarrow> str \<Rightarrow> str" where
  "assemble_truncated_output before after marker = before @ marker @ after"

definition truncate_with_byte_estimate :: "str \<Rightarrow> nat \<Rightarrow> bool \<Rightarrow> str option" where
  "truncate_with_byte_estimate s max_bytes use_tokens =
     (if s = [] then Some []
      else if max_bytes = 0 then
        Some (format_truncation_marker use_tokens (removed_units use_tokens (str_len s) (length s)))
      else if str_len s \<le> max_bytes then Some s
      else case split_budget max_bytes of (left_budget, right_budget) \<Rightarrow> do {
        (removed, left, right) \<leftarrow> split_string s left_budget right_budget;
        Some (assemble_truncated_output left right
          (format_truncation_marker use_tokens
            (removed_units use_tokens (str_len s - max_bytes) removed)))
      })"

definition truncate_middle_chars :: "str \<Rightarrow> nat \<Rightarrow> str option" where
  "truncate_middle_chars s max_bytes = truncate_with_byte_estimate s max_bytes False"

definition truncate_middle_with_token_budget :: "str \<Rightarrow> nat \<Rightarrow> (str \<times> nat option) option" where
  "truncate_middle_with_token_budget s max_tokens =
     (if s = [] then Some ([], None)
      else if 0 < max_tokens \<and> str_len s \<le> approx_bytes_for_tokens max_tokens then Some (s, None)
      else do {
        truncated \<leftarrow> truncate_with_byte_estimate s (approx_bytes_for_tokens max_tokens) True;
        Some (if truncated = s then (truncated, None)
              else (truncated, Some (approx_token_count s)))
      })"

section \<open>Policies\<close>

datatype truncation_policy = Bytes nat | Tokens nat

fun token_budget :: "truncation_policy \<Rightarrow> nat" where
  "token_budget (Bytes bytes) = approx_tokens_from_byte_count bytes"
| "token_budget (Tokens tokens) = tokens"

fun byte_budget :: "truncation_policy \<Rightarrow> nat" where
  "byte_budget (Bytes bytes) = bytes"
| "byte_budget (Tokens tokens) = approx_bytes_for_tokens tokens"

fun truncate_text :: "str \<Rightarrow> truncation_policy \<Rightarrow> str option" where
  "truncate_text content (Bytes bytes) = truncate_middle_chars content bytes"
| "truncate_text content (Tokens tokens) =
     map_option fst (truncate_middle_with_token_budget content tokens)"

definition formatted_truncate_text :: "str \<Rightarrow> truncation_policy \<Rightarrow> str option" where
  "formatted_truncate_text content policy =
     (if str_len content \<le> byte_budget policy then Some content
      else do {
        result \<leftarrow> truncate_text content policy;
        Some (lit ''Warning: truncated output (original token count: ''
          @ show_nat (approx_token_count content) @ lit '')'' @ [LF] @ lit ''Total output lines: ''
          @ show_nat (length (str_lines content)) @ [LF, LF] @ result)
      })"

text \<open>
  Scaling a policy by 1.2, \<open>(bytes as f64 * 1.2).ceil() as usize\<close>: the nearest double of the
  number, times the double nearest to 1.2, rounded to the nearest double, ties to even. A
  number with \<open>2 ^ e\<close> as its unit in the last place is \<open>f64_round e\<close>.
\<close>

function bit_length :: "nat \<Rightarrow> nat" where
  "bit_length n = (if n = 0 then 0 else Suc (bit_length (n div 2)))"
  by pat_completeness auto

termination by (relation "measure id") auto

declare bit_length.simps [simp del]

definition f64_round :: "nat \<Rightarrow> nat" where
  "f64_round n =
     (let s = bit_length n - 53; q = n div 2 ^ s; r = n mod 2 ^ s in
      if 2 * r < 2 ^ s \<or> 2 * r = 2 ^ s \<and> even q then q * 2 ^ s else (q + 1) * 2 ^ s)"

text \<open>The double nearest to 1.2 is \<open>5404319552844595 / 2 ^ 52\<close>.\<close>

definition scale_budget :: "nat \<Rightarrow> nat" where
  "scale_budget n =
     (let product = f64_round (f64_round n * 5404319552844595);
          whole = product div 2 ^ 52
      in min USIZE_MAX (if product mod 2 ^ 52 = 0 then whole else whole + 1))"

fun scale_policy :: "truncation_policy \<Rightarrow> truncation_policy" where
  "scale_policy (Bytes bytes) = Bytes (scale_budget bytes)"
| "scale_policy (Tokens tokens) = Tokens (scale_budget tokens)"

section \<open>The output of a tool\<close>

datatype image_detail = Auto | Low | High | Original

datatype output_content =
    InputText str
  | InputImage str "image_detail option"
  | InputAudio str
  | EncryptedContent str

datatype output_body = Text str | ContentItems "output_content list"

record output_payload =
  body :: output_body
  success :: "bool option"

text \<open>The loop over the items, with what is left of the budget and how many texts and audios
  are left out.\<close>

record items_scan =
  items_out :: "output_content list"
  remaining_budget :: nat
  omitted_text_items :: nat
  omitted_audio_items :: nat

definition text_cost :: "truncation_policy \<Rightarrow> str \<Rightarrow> nat" where
  "text_cost policy s = (case policy of Bytes _ \<Rightarrow> str_len s | Tokens _ \<Rightarrow> approx_token_count s)"

definition audio_cost :: "truncation_policy \<Rightarrow> nat \<Rightarrow> nat" where
  "audio_cost policy token_cost =
     (case policy of Bytes _ \<Rightarrow> approx_bytes_for_tokens token_cost | Tokens _ \<Rightarrow> token_cost)"

definition snippet_policy :: "truncation_policy \<Rightarrow> nat \<Rightarrow> truncation_policy" where
  "snippet_policy policy remaining =
     (case policy of Bytes _ \<Rightarrow> Bytes remaining | Tokens _ \<Rightarrow> Tokens remaining)"

fun scan_item ::
    "truncation_policy \<Rightarrow> (str \<Rightarrow> nat) \<Rightarrow> output_content \<Rightarrow> items_scan \<Rightarrow> items_scan option" where
  "scan_item policy audio_tokens (InputText s) st =
     (if s = [] then Some st
      else if remaining_budget st = 0 then
        Some (st\<lparr>omitted_text_items := omitted_text_items st + 1\<rparr>)
      else if text_cost policy s \<le> remaining_budget st then
        Some (st\<lparr>items_out := items_out st @ [InputText s],
                 remaining_budget := remaining_budget st - text_cost policy s\<rparr>)
      else do {
        snippet \<leftarrow> truncate_text s (snippet_policy policy (remaining_budget st));
        Some ((if snippet = [] then st\<lparr>omitted_text_items := omitted_text_items st + 1\<rparr>
               else st\<lparr>items_out := items_out st @ [InputText snippet]\<rparr>)
              \<lparr>remaining_budget := 0\<rparr>)
      })"
| "scan_item policy audio_tokens (InputImage image_url detail) st =
     Some (st\<lparr>items_out := items_out st @ [InputImage image_url detail]\<rparr>)"
| "scan_item policy audio_tokens (InputAudio audio_url) st =
     (let cost = audio_cost policy (audio_tokens audio_url) in
      Some (if cost \<le> remaining_budget st then
              st\<lparr>items_out := items_out st @ [InputAudio audio_url],
                 remaining_budget := remaining_budget st - cost\<rparr>
            else st\<lparr>omitted_audio_items := omitted_audio_items st + 1\<rparr>))"
| "scan_item policy audio_tokens (EncryptedContent s) st =
     Some (st\<lparr>items_out := items_out st @ [EncryptedContent s]\<rparr>)"

fun scan_items ::
    "truncation_policy \<Rightarrow> (str \<Rightarrow> nat) \<Rightarrow> output_content list \<Rightarrow> items_scan \<Rightarrow> items_scan option" where
  "scan_items policy audio_tokens [] st = Some st"
| "scan_items policy audio_tokens (item # items) st =
     do { st \<leftarrow> scan_item policy audio_tokens item st; scan_items policy audio_tokens items st }"

definition start_budget :: "truncation_policy \<Rightarrow> nat" where
  "start_budget policy =
     (case policy of Bytes _ \<Rightarrow> byte_budget policy | Tokens _ \<Rightarrow> token_budget policy)"

definition omission_notices :: "nat \<Rightarrow> nat \<Rightarrow> output_content list" where
  "omission_notices texts audios =
     (if 0 < texts then [InputText (lit ''[omitted '' @ show_nat texts @ lit '' text items ...]'')] else [])
     @ (if 0 < audios then [InputText (lit ''[omitted '' @ show_nat audios @ lit '' audio items ...]'')]
        else [])"

definition truncate_function_output_items_with_policy ::
    "output_content list \<Rightarrow> truncation_policy \<Rightarrow> (str \<Rightarrow> nat) \<Rightarrow> output_content list option" where
  "truncate_function_output_items_with_policy items policy audio_tokens =
     do {
       st \<leftarrow> scan_items policy audio_tokens items
         \<lparr>items_out = [], remaining_budget = start_budget policy, omitted_text_items = 0,
          omitted_audio_items = 0\<rparr>;
       Some (items_out st @ omission_notices (omitted_text_items st) (omitted_audio_items st))
     }"

definition truncate_function_output_payload ::
    "output_payload \<Rightarrow> truncation_policy \<Rightarrow> (str \<Rightarrow> nat) \<Rightarrow> output_payload option" where
  "truncate_function_output_payload output policy audio_tokens =
     (case body output of
        Text s \<Rightarrow> map_option (\<lambda>t. output\<lparr>body := Text t\<rparr>) (truncate_text s policy)
      | ContentItems items \<Rightarrow>
          map_option (\<lambda>items. output\<lparr>body := ContentItems items\<rparr>)
            (truncate_function_output_items_with_policy items policy audio_tokens))"

fun input_text :: "output_content \<Rightarrow> str option" where
  "input_text (InputText s) = Some s"
| "input_text _ = None"

definition push_combined :: "str \<Rightarrow> str \<Rightarrow> str" where
  "push_combined s combined = (if combined \<noteq> [] then combined @ [LF] @ s else combined @ s)"

definition formatted_truncate_text_content_items_with_policy ::
    "output_content list \<Rightarrow> truncation_policy \<Rightarrow> (output_content list \<times> nat option) option" where
  "formatted_truncate_text_content_items_with_policy items policy =
     (let text_segments = List.map_filter input_text items in
      if text_segments = [] then Some (items, None)
      else
        (let combined = fold push_combined text_segments [] in
         if str_len combined \<le> byte_budget policy then Some (items, None)
         else do {
           t \<leftarrow> formatted_truncate_text combined policy;
           Some (InputText t # filter (\<lambda>item. input_text item = None) items,
                 Some (approx_token_count combined))
         }))"

definition approx_tokens_from_byte_count_i64 :: "int \<Rightarrow> int" where
  "approx_tokens_from_byte_count_i64 bytes =
     (if bytes \<le> 0 then 0
      else min (2 ^ 63 - 1) (int (approx_tokens_from_byte_count (nat bytes))))"

section \<open>The truncation of the reviewer\<close>

text \<open>The loops to a character boundary, downwards and upwards; upwards there is none past
  the end, where the source would run into an overflow.\<close>

fun floor_boundary :: "str \<Rightarrow> nat \<Rightarrow> nat" where
  "floor_boundary s 0 = 0"
| "floor_boundary s (Suc n) = (if is_char_boundary s (Suc n) then Suc n else floor_boundary s n)"

function ceil_boundary :: "str \<Rightarrow> nat \<Rightarrow> nat option" where
  "ceil_boundary s n =
     (if is_char_boundary s n then Some n
      else if str_len s \<le> n then None else ceil_boundary s (Suc n))"
  by pat_completeness auto

termination by (relation "measure (\<lambda>(s, n). str_len s - n)") auto

declare ceil_boundary.simps [simp del]

definition omission_marker :: "nat \<Rightarrow> str" where
  "omission_marker omitted_tokens =
     lit ''<truncated omitted_approx_tokens='' @ [34] @ show_nat omitted_tokens @ [34] @ lit '' />''"

definition guardian_text :: "str \<Rightarrow> nat \<Rightarrow> str option" where
  "guardian_text s max_tokens =
     (let max_bytes = byte_budget (Tokens max_tokens) in
      if str_len s \<le> max_bytes then Some s
      else
        (let marker = omission_marker (token_budget (Bytes (str_len s - max_bytes))) in
         if max_bytes \<le> str_len marker then Some marker
         else
           (let available_bytes = max_bytes - str_len marker;
                prefix_bytes = available_bytes div 2;
                suffix_bytes = available_bytes - prefix_bytes
            in do {
              start \<leftarrow> ceil_boundary s (str_len s - suffix_bytes);
              before \<leftarrow> take_bytes (floor_boundary s prefix_bytes) s;
              after \<leftarrow> drop_bytes start s;
              Some (before @ marker @ after)
            })))"

definition guardian_truncate_text :: "str \<Rightarrow> nat \<Rightarrow> (str \<times> bool) option" where
  "guardian_truncate_text content token_cap =
     map_option (\<lambda>t. (t, approx_bytes_for_tokens token_cap < str_len content))
       (guardian_text content token_cap)"

end
