(* ===== verification/ResponseItem.thy ===== *)
theory ResponseItem
  imports Truncation
begin

text \<open>
  The items of a conversation, \<open>protocol/src/models.rs\<close>, their envelopes in
  \<open>history/src/lib.rs\<close> and their annotated content in
  \<open>context-fragments/src/annotated_content.rs\<close>. JSON values, JSON numbers and the record of
  executed tool calls are values of the type \<open>'j\<close>, which nothing here inspects.
\<close>

section \<open>Items\<close>

datatype agent_content = AgentText str | AgentEncrypted str

datatype content_item =
    InputText str
  | InputImage str "image_detail option"
  | InputAudio str
  | OutputText str

datatype message_phase = Commentary | FinalAnswer

datatype reasoning_summary = SummaryText str

datatype reasoning_content = ReasoningText str | PlainText str

datatype local_shell_status = Completed | InProgress | Incomplete

record local_shell_exec =
  exec_command :: "str list"
  timeout_ms :: "nat option"
  working_directory :: "str option"
  exec_env :: "(str \<rightharpoonup> str) option"
  exec_user :: "str option"

datatype local_shell_action = Exec local_shell_exec

datatype web_search_action =
    Search "str option" "str list option"
  | OpenPage "str option"
  | FindInPage "str option" "str option"
  | OtherAction

datatype reasoning_effort =
    EffortNone | Minimal | EffortLow | Medium | EffortHigh | XHigh | Max | Ultra | Persistent | Custom str

text \<open>\<open>InternalChatMessageMetadataPassthrough\<close>, and its \<open>Default\<close>.\<close>

record 'j passthrough =
  pt_turn_id :: "str option"
  create_time :: "'j option"
  content_item_kinds :: "str list option"
  cell_id :: "str option"
  executed_tool_calls :: "'j list option"
  tool_calls_complete :: "bool option"

definition default_passthrough :: "'j passthrough" where
  "default_passthrough = \<lparr>pt_turn_id = None, create_time = None, content_item_kinds = None,
     cell_id = None, executed_tool_calls = None, tool_calls_complete = None\<rparr>"

text \<open>
  The arguments are the fields in the order of the source: the id first, the metadata last.
\<close>

datatype 'j response_item =
    AdditionalTools "str option" str "'j list"
  | Message "str option" str "content_item list" "message_phase option" "'j passthrough option"
  | AgentMessage "str option" str str "agent_content list" "'j passthrough option"
  | Reasoning "str option" "reasoning_summary list" "reasoning_content list option" "str option"
      "'j passthrough option"
  | LocalShellCall "str option" "str option" local_shell_status local_shell_action "'j passthrough option"
  | FunctionCall "str option" str "str option" str "str list option" str "'j passthrough option"
  | ToolSearchCall "str option" "str option" "str option" str 'j "'j passthrough option"
  | FunctionCallOutput "str option" "str option" "str option" "str option" output_payload
      "'j passthrough option"
  | CustomToolCall "str option" "str option" str str "str option" str "'j passthrough option"
  | CustomToolCallOutput "str option" str "str option" output_payload "'j passthrough option"
  | ToolSearchOutput "str option" "str option" str str "'j list" "'j passthrough option"
  | WebSearchCall "str option" "str option" "web_search_action option" "'j passthrough option"
  | ImageGenerationCall "str option" str "str option" str "'j passthrough option"
  | Compaction "str option" str "'j passthrough option"
  | ConfigurationUpdate reasoning_effort
  | CompactionTrigger
  | ContextCompaction "str option" "str option" "'j passthrough option"
  | OtherItem

definition is_user_message :: "'j response_item \<Rightarrow> bool" where
  "is_user_message i = (case i of Message _ role _ _ _ \<Rightarrow> role = lit ''user'' | _ \<Rightarrow> False)"

fun item_id :: "'j response_item \<Rightarrow> str option" where
  "item_id (AdditionalTools i _ _) = i"
| "item_id (Message i _ _ _ _) = i"
| "item_id (AgentMessage i _ _ _ _) = i"
| "item_id (LocalShellCall i _ _ _ _) = i"
| "item_id (FunctionCall i _ _ _ _ _ _) = i"
| "item_id (ToolSearchCall i _ _ _ _ _) = i"
| "item_id (FunctionCallOutput i _ _ _ _ _) = i"
| "item_id (CustomToolCall i _ _ _ _ _ _) = i"
| "item_id (CustomToolCallOutput i _ _ _ _) = i"
| "item_id (ToolSearchOutput i _ _ _ _ _) = i"
| "item_id (WebSearchCall i _ _ _) = i"
| "item_id (Reasoning i _ _ _ _) = i"
| "item_id (ImageGenerationCall i _ _ _ _) = i"
| "item_id (Compaction i _ _) = i"
| "item_id (ContextCompaction i _ _) = i"
| "item_id (ConfigurationUpdate _) = None"
| "item_id CompactionTrigger = None"
| "item_id OtherItem = None"

fun item_metadata :: "'j response_item \<Rightarrow> 'j passthrough option" where
  "item_metadata (Message _ _ _ _ m) = m"
| "item_metadata (AgentMessage _ _ _ _ m) = m"
| "item_metadata (Reasoning _ _ _ _ m) = m"
| "item_metadata (LocalShellCall _ _ _ _ m) = m"
| "item_metadata (FunctionCall _ _ _ _ _ _ m) = m"
| "item_metadata (ToolSearchCall _ _ _ _ _ m) = m"
| "item_metadata (FunctionCallOutput _ _ _ _ _ m) = m"
| "item_metadata (CustomToolCall _ _ _ _ _ _ m) = m"
| "item_metadata (CustomToolCallOutput _ _ _ _ m) = m"
| "item_metadata (ToolSearchOutput _ _ _ _ _ m) = m"
| "item_metadata (WebSearchCall _ _ _ m) = m"
| "item_metadata (ImageGenerationCall _ _ _ _ m) = m"
| "item_metadata (Compaction _ _ m) = m"
| "item_metadata (ContextCompaction _ _ m) = m"
| "item_metadata (ConfigurationUpdate _) = None"
| "item_metadata CompactionTrigger = None"
| "item_metadata (AdditionalTools _ _ _) = None"
| "item_metadata OtherItem = None"

definition turn_id :: "'j response_item \<Rightarrow> str option" where
  "turn_id i =
     (case Option.bind (item_metadata i) pt_turn_id of
        Some t \<Rightarrow> (if t \<noteq> [] then Some t else None)
      | None \<Rightarrow> None)"

definition from_text :: "str \<Rightarrow> output_payload" where
  "from_text content = \<lparr>body = Text content, success = None\<rparr>"

section \<open>Envelopes\<close>

record harness_metadata =
  client_authored :: bool
  fallback_token_limit_override :: "nat option"
  inline_images_persisted :: bool
  harness_authored_configuration :: bool
  compaction_model_hash :: "str option"
  user_input_order :: "nat option"
  inherited_user_message :: bool

record 'j envelope =
  item :: "'j response_item"
  env_metadata :: "harness_metadata option"

definition new_envelope :: "'j response_item \<Rightarrow> 'j envelope" where
  "new_envelope i = \<lparr>item = i, env_metadata = None\<rparr>"

section \<open>Annotated content\<close>

type_synonym annotated_content = "content_item \<times> str"

text \<open>\<open>to_annotated_content\<close> takes the content and its kinds out of the message.\<close>

definition pad_kinds :: "nat \<Rightarrow> str list \<Rightarrow> str list" where
  "pad_kinds n kinds = kinds @ replicate (n - length kinds) (lit ''unknown'')"

definition to_annotated_content ::
    "'j response_item \<Rightarrow> 'j response_item \<times> annotated_content list option" where
  "to_annotated_content i =
     (case i of
        Message mid role content phase metadata \<Rightarrow>
          (let kinds = (case Option.bind metadata content_item_kinds of Some ks \<Rightarrow> ks | None \<Rightarrow> [])
           in (Message mid role [] phase (map_option (\<lambda>m. m\<lparr>content_item_kinds := None\<rparr>) metadata),
               Some (zip content (pad_kinds (length content) kinds))))
      | _ \<Rightarrow> (i, None))"

definition set_annotated_content ::
    "'j response_item \<Rightarrow> annotated_content list \<Rightarrow> 'j response_item option" where
  "set_annotated_content i annotated =
     (case i of
        Message mid role content phase metadata \<Rightarrow>
          Some (Message mid role (map fst annotated) phase
            (Some ((case metadata of Some m \<Rightarrow> m | None \<Rightarrow> default_passthrough)
                   \<lparr>content_item_kinds := Some (map snd annotated)\<rparr>)))
      | _ \<Rightarrow> None)"

end
