(* ===== verification/ContextualText.thy ===== *)
theory ContextualText
  imports Truncation ResponseItem
begin

text \<open>
  What the harness injects into the conversation as messages of the user, and how it
  recognises it later: \<open>core/src/context/contextual_user_message.rs\<close> with the fragments of
  \<open>core/src/context\<close>, the traits of \<open>context-fragments\<close>, the developer prefixes of
  \<open>core/src/event_mapping.rs\<close> and the merging of fragments into messages
  (\<open>core/src/context_manager/updates.rs\<close>).

  The XML reader of a hook prompt is the argument \<open>hook_xml\<close>: the text and the run id it reads.
\<close>

section \<open>Marked text\<close>

definition has_prefix_ignore_case :: "str \<Rightarrow> str \<Rightarrow> bool" where
  "has_prefix_ignore_case px s \<longleftrightarrow>
     (case take_bytes (str_len px) s of Some candidate \<Rightarrow> eq_ignore_ascii_case candidate px | None \<Rightarrow> False)"

definition has_suffix_ignore_case :: "str \<Rightarrow> str \<Rightarrow> bool" where
  "has_suffix_ignore_case sx s \<longleftrightarrow>
     (case drop_bytes (str_len s - str_len sx) s of
        Some candidate \<Rightarrow> eq_ignore_ascii_case candidate sx | None \<Rightarrow> False)"

definition matches_marked_text :: "str \<Rightarrow> str \<Rightarrow> str \<Rightarrow> bool" where
  "matches_marked_text start_marker end_marker s \<longleftrightarrow>
     start_marker \<noteq> [] \<and> end_marker \<noteq> []
     \<and> has_prefix_ignore_case start_marker (trim_start s)
     \<and> has_suffix_ignore_case end_marker (trim_end (trim_start s))"

definition split_once_text :: "str \<Rightarrow> str \<Rightarrow> (str \<times> str) option" where
  "split_once_text pat s =
     map_option (\<lambda>i. (take i s, drop (i + length pat) s)) (str_find pat s)"

section \<open>Fragments\<close>

text \<open>
  The fragments with the role of the user. JSON values, the environments and a duration are
  the text they are written as.
\<close>

datatype fragment =
    UserInstructions "str option" str
  | EnvironmentsState str
  | AdditionalContext str str
  | SkillInstructions str str str "str option"
  | UserShellCommand str int str str
  | TurnAborted str
  | SubagentNotification str
  | InternalModelContext str str
  | RecommendedPlugins "(str \<times> str) list"

definition MAX_ADDITIONAL_CONTEXT_VALUE_TOKENS :: nat where
  "MAX_ADDITIONAL_CONTEXT_VALUE_TOKENS = 1000"

text \<open>
  What a type says of itself: the kind of its content, its markers and its body. Cutting the
  value of additional context can slice, so a body is an option. All have the role of the user.
\<close>

record fragment_impl =
  kind_of :: str
  markers_of :: "str \<times> str"
  body_text :: "str option"

definition show_int :: "int \<Rightarrow> str" where
  "show_int i = (if i < 0 then 45 # show_nat (nat (- i)) else show_nat (nat i))"

definition user_instructions :: "str option \<Rightarrow> str \<Rightarrow> fragment_impl" where
  "user_instructions directory s =
     \<lparr>kind_of = lit ''agents_md.instructions'',
      markers_of = (lit ''# AGENTS.md instructions'', lit ''</INSTRUCTIONS>''),
      body_text = Some ((case directory of Some d \<Rightarrow> lit '' for '' @ d | None \<Rightarrow> [])
        @ [LF, LF] @ lit ''<INSTRUCTIONS>'' @ [LF] @ s @ [LF])\<rparr>"

definition environments_state :: "str \<Rightarrow> fragment_impl" where
  "environments_state s =
     \<lparr>kind_of = lit ''environments.environment_context'',
      markers_of = (lit ''<environment_context>'', lit ''</environment_context>''),
      body_text = Some s\<rparr>"

definition additional_context_body :: "str \<Rightarrow> str \<Rightarrow> str option" where
  "additional_context_body k v =
     map_option (\<lambda>(v, _). k @ lit ''>'' @ v @ lit ''</external_'' @ k)
       (truncate_middle_with_token_budget v MAX_ADDITIONAL_CONTEXT_VALUE_TOKENS)"

definition additional_context :: "str \<Rightarrow> str \<Rightarrow> fragment_impl" where
  "additional_context k v =
     \<lparr>kind_of = lit ''additional_content.'' @ k,
      markers_of = (lit ''<external_'', lit ''>''),
      body_text = additional_context_body k v\<rparr>"

definition skill_instructions :: "str \<Rightarrow> str \<Rightarrow> str \<Rightarrow> str option \<Rightarrow> fragment_impl" where
  "skill_instructions skill_name path contents resource_access =
     \<lparr>kind_of = lit ''skills.selected_skill_instructions'',
      markers_of = (lit ''<skill>'', lit ''</skill>''),
      body_text = Some ([LF] @ lit ''<name>'' @ skill_name @ lit ''</name>'' @ [LF]
        @ lit ''<path>'' @ path @ lit ''</path>''
        @ (case resource_access of
             Some metadata \<Rightarrow> [LF] @ lit ''<resource_access>'' @ metadata @ lit ''</resource_access>''
           | None \<Rightarrow> [])
        @ [LF] @ contents @ [LF])\<rparr>"

definition user_shell_command :: "str \<Rightarrow> int \<Rightarrow> str \<Rightarrow> str \<Rightarrow> fragment_impl" where
  "user_shell_command command exit_code duration shell_output =
     \<lparr>kind_of = lit ''shell.user_command'',
      markers_of = (lit ''<user_shell_command>'', lit ''</user_shell_command>''),
      body_text = Some ([LF] @ lit ''<command>'' @ [LF] @ command @ [LF] @ lit ''</command>'' @ [LF]
        @ lit ''<result>'' @ [LF] @ lit ''Exit code: '' @ show_int exit_code @ [LF]
        @ lit ''Duration: '' @ duration @ lit '' seconds'' @ [LF]
        @ lit ''Output:'' @ [LF] @ shell_output @ [LF] @ lit ''</result>'' @ [LF])\<rparr>"

definition turn_aborted :: "str \<Rightarrow> fragment_impl" where
  "turn_aborted guidance =
     \<lparr>kind_of = lit ''generic.turn_aborted'',
      markers_of = (lit ''<turn_aborted>'', lit ''</turn_aborted>''),
      body_text = Some ([LF] @ guidance @ [LF])\<rparr>"

definition subagent_notification :: "str \<Rightarrow> fragment_impl" where
  "subagent_notification json =
     \<lparr>kind_of = lit ''multi_agent.subagent_notification'',
      markers_of = (lit ''<subagent_notification>'', lit ''</subagent_notification>''),
      body_text = Some ([LF] @ json @ [LF])\<rparr>"

definition internal_model_context :: "str \<Rightarrow> str \<Rightarrow> fragment_impl" where
  "internal_model_context source s =
     \<lparr>kind_of = source @ lit ''.internal_context'',
      markers_of = (lit ''<codex_internal_context'', lit ''</codex_internal_context>''),
      body_text = Some (lit '' source='' @ [34] @ source @ [34] @ lit ''>'' @ [LF] @ s @ [LF])\<rparr>"

definition recommended_plugins :: "(str \<times> str) list \<Rightarrow> fragment_impl" where
  "recommended_plugins plugins =
     \<lparr>kind_of = lit ''plugins.recommendations'',
      markers_of = (lit ''<recommended_plugins>'', lit ''</recommended_plugins>''),
      body_text = Some ([LF] @ lit ''Here is a list of plugins that are available but not installed.'' @ [LF, LF]
        @ join [LF] (map (\<lambda>(n, i). lit ''- '' @ n @ lit '' ('' @ i @ lit '')'') plugins) @ [LF])\<rparr>"

lemmas fragment_impls =
  user_instructions_def environments_state_def additional_context_def skill_instructions_def
  user_shell_command_def turn_aborted_def subagent_notification_def internal_model_context_def
  recommended_plugins_def

fun fragment_impl_of :: "fragment \<Rightarrow> fragment_impl" where
  "fragment_impl_of (UserInstructions directory s) = user_instructions directory s"
| "fragment_impl_of (EnvironmentsState s) = environments_state s"
| "fragment_impl_of (AdditionalContext k v) = additional_context k v"
| "fragment_impl_of (SkillInstructions n path contents access) = skill_instructions n path contents access"
| "fragment_impl_of (UserShellCommand command exit_code duration out) =
     user_shell_command command exit_code duration out"
| "fragment_impl_of (TurnAborted guidance) = turn_aborted guidance"
| "fragment_impl_of (SubagentNotification json) = subagent_notification json"
| "fragment_impl_of (InternalModelContext source s) = internal_model_context source s"
| "fragment_impl_of (RecommendedPlugins plugins) = recommended_plugins plugins"

definition render :: "fragment_impl \<Rightarrow> str option" where
  "render f = (case markers_of f of (start_marker, end_marker) \<Rightarrow>
     if start_marker = [] \<and> end_marker = [] then body_text f
     else map_option (\<lambda>body. start_marker @ body @ end_marker) (body_text f))"

record rendered_fragment =
  fragment_role :: str
  annotated :: annotated_content

definition render_fragment :: "fragment_impl \<Rightarrow> rendered_fragment option" where
  "render_fragment f =
     map_option (\<lambda>s. \<lparr>fragment_role = lit ''user'', annotated = (InputText s, kind_of f)\<rparr>) (render f)"

definition item_of_fragment :: "rendered_fragment \<Rightarrow> 'j response_item" where
  "item_of_fragment r =
     Message None (fragment_role r) [fst (annotated r)] None
       (Some (default_passthrough\<lparr>content_item_kinds := Some [snd (annotated r)]\<rparr>))"

section \<open>Merging fragments into messages\<close>

definition build_rendered_message :: "rendered_fragment list \<Rightarrow> 'j response_item option" where
  "build_rendered_message fragments =
     (case fragments of
        [] \<Rightarrow> None
      | f # _ \<Rightarrow> Some (Message None (fragment_role f) (map (\<lambda>f. fst (annotated f)) fragments) None
          (Some (default_passthrough\<lparr>content_item_kinds := Some (map (\<lambda>f. snd (annotated f)) fragments)\<rparr>))))"

text \<open>
  A fragment comes with whether it requires a message of its own. The groups are in reverse
  order, so that the last one is at the head.
\<close>

definition push_fragment ::
    "bool \<times> rendered_fragment \<Rightarrow> (str \<times> bool \<times> rendered_fragment list) list
     \<Rightarrow> (str \<times> bool \<times> rendered_fragment list) list" where
  "push_fragment f groups =
     (case (f, groups) of
        ((standalone, r), (previous_role, previous_standalone, rs) # rest) \<Rightarrow>
          (if previous_role = fragment_role r \<and> \<not> previous_standalone \<and> \<not> standalone
           then (previous_role, previous_standalone, rs @ [r]) # rest
           else (fragment_role r, standalone, [r]) # groups)
      | ((standalone, r), []) \<Rightarrow> [(fragment_role r, standalone, [r])])"

definition merge_contextual_fragments :: "(bool \<times> rendered_fragment) list \<Rightarrow> 'j response_item list" where
  "merge_contextual_fragments fragments =
     List.map_filter (\<lambda>(_, _, rs). build_rendered_message rs) (rev (fold push_fragment fragments []))"

section \<open>Recognition\<close>

definition is_ascii_lowercase :: "uchar \<Rightarrow> bool" where
  "is_ascii_lowercase c \<longleftrightarrow> 97 \<le> c \<and> c \<le> 122"

definition is_valid_source :: "str \<Rightarrow> bool" where
  "is_valid_source source =
     (case source of
        [] \<Rightarrow> False
      | first # chars \<Rightarrow> is_ascii_lowercase first
          \<and> list_all (\<lambda>c. is_ascii_lowercase c \<or> is_ascii_digit c \<or> c = 95) chars)"

definition matches_legacy_goal_context :: "str \<Rightarrow> bool" where
  "matches_legacy_goal_context s \<longleftrightarrow> starts_with s (lit ''<goal_context>'') \<and> ends_with s (lit ''</goal_context>'')"

definition matches_internal_context :: "str \<Rightarrow> bool" where
  "matches_internal_context s =
     (let trimmed = trim s in
      matches_legacy_goal_context trimmed
      \<or> (case strip_prefix (lit ''<codex_internal_context'') trimmed of
           None \<Rightarrow> False
         | Some rest \<Rightarrow>
             (case strip_prefix (lit '' source='' @ [34]) rest of
                None \<Rightarrow> False
              | Some rest \<Rightarrow>
                  (case split_once_text (34 # lit ''>'') rest of
                     None \<Rightarrow> False
                   | Some (source, body_and_close) \<Rightarrow>
                       is_valid_source source \<and> ends_with body_and_close (lit ''</codex_internal_context>'')))))"

definition matches_additional_context :: "str \<Rightarrow> bool" where
  "matches_additional_context s =
     (case strip_prefix (lit ''<external_'') (trim s) of
        None \<Rightarrow> False
      | Some rest \<Rightarrow>
          (case split_once_text (lit ''>'') rest of
             None \<Rightarrow> False
           | Some (k, value_and_close) \<Rightarrow> ends_with value_and_close (lit ''</external_'' @ k @ lit ''>'')))"

definition matches_exec_limit_warning :: "str \<Rightarrow> bool" where
  "matches_exec_limit_warning s =
     starts_with (trim s) (lit ''Warning: The maximum number of unified exec processes you can keep open is'')"

definition matches_apply_patch_warning :: "str \<Rightarrow> bool" where
  "matches_apply_patch_warning s \<longleftrightarrow>
     starts_with (trim s) (lit ''Warning: apply_patch was requested via '')
     \<and> ends_with (trim s) (lit ''Use the apply_patch tool instead of exec_command.'')"

definition matches_model_warning :: "str \<Rightarrow> bool" where
  "matches_model_warning s =
     starts_with (trim s) (lit ''Warning: Your account was flagged for potentially high-risk cyber activity'')"

definition CONTEXTUAL_USER_FRAGMENT_MATCHERS :: "(str \<Rightarrow> bool) list" where
  "CONTEXTUAL_USER_FRAGMENT_MATCHERS =
     [matches_marked_text (lit ''# AGENTS.md instructions'') (lit ''</INSTRUCTIONS>''),
      matches_marked_text (lit ''<environment_context>'') (lit ''</environment_context>''),
      matches_additional_context,
      matches_marked_text (lit ''<skill>'') (lit ''</skill>''),
      matches_marked_text (lit ''<user_shell_command>'') (lit ''</user_shell_command>''),
      matches_marked_text (lit ''<turn_aborted>'') (lit ''</turn_aborted>''),
      matches_marked_text (lit ''<subagent_notification>'') (lit ''</subagent_notification>''),
      matches_internal_context,
      matches_marked_text (lit ''<recommended_plugins>'') (lit ''</recommended_plugins>''),
      matches_exec_limit_warning,
      matches_apply_patch_warning,
      matches_model_warning]"

definition is_standard_contextual_user_text :: "str \<Rightarrow> bool" where
  "is_standard_contextual_user_text s = list_ex (\<lambda>m. m s) CONTEXTUAL_USER_FRAGMENT_MATCHERS"

definition parse_hook_prompt_fragment :: "(str \<Rightarrow> (str \<times> str) option) \<Rightarrow> str \<Rightarrow> (str \<times> str) option" where
  "parse_hook_prompt_fragment hook_xml s =
     (case hook_xml (trim s) of
        None \<Rightarrow> None
      | Some (prompt, run_id) \<Rightarrow> if trim run_id = [] then None else Some (prompt, run_id))"

fun is_contextual_user_fragment :: "(str \<Rightarrow> (str \<times> str) option) \<Rightarrow> content_item \<Rightarrow> bool" where
  "is_contextual_user_fragment hook_xml (InputText s) \<longleftrightarrow>
     parse_hook_prompt_fragment hook_xml s \<noteq> None \<or> is_standard_contextual_user_text s"
| "is_contextual_user_fragment hook_xml _ \<longleftrightarrow> False"

definition is_contextual_user_message_content :: "(str \<Rightarrow> (str \<times> str) option) \<Rightarrow> content_item list \<Rightarrow> bool" where
  "is_contextual_user_message_content hook_xml = list_ex (is_contextual_user_fragment hook_xml)"

text \<open>The prompts of hooks in a message that has nothing else to show.\<close>

fun visible_hook_prompts ::
    "(str \<Rightarrow> (str \<times> str) option) \<Rightarrow> content_item list \<Rightarrow> (str \<times> str) list option" where
  "visible_hook_prompts hook_xml [] = Some []"
| "visible_hook_prompts hook_xml (InputText s # cs) =
     (case parse_hook_prompt_fragment hook_xml s of
        Some f \<Rightarrow> map_option ((#) f) (visible_hook_prompts hook_xml cs)
      | None \<Rightarrow>
          (if is_standard_contextual_user_text s then visible_hook_prompts hook_xml cs else None))"
| "visible_hook_prompts hook_xml (_ # cs) = None"

definition parse_visible_hook_prompt_message ::
    "(str \<Rightarrow> (str \<times> str) option) \<Rightarrow> content_item list \<Rightarrow> (str \<times> str) list option" where
  "parse_visible_hook_prompt_message hook_xml content =
     (case visible_hook_prompts hook_xml content of
        None \<Rightarrow> None
      | Some fragments \<Rightarrow> if fragments = [] then None else Some fragments)"

section \<open>Authorization\<close>

text \<open>Whether a message may change what the user has authorized: the annotations decide, not the text.\<close>

definition is_user_kind :: "str \<Rightarrow> bool" where
  "is_user_kind k \<longleftrightarrow> starts_with k (lit ''user.'')
     \<or> k \<in> set [[], lit ''unknown'', lit ''images.preparation_error'', lit ''images.unsupported'',
         lit ''audio.unsupported'']"

fun is_user_authorization_message :: "'j response_item \<Rightarrow> bool" where
  "is_user_authorization_message (Message _ role content _ metadata) \<longleftrightarrow>
     role = lit ''user''
     \<and> (case Option.bind metadata content_item_kinds of
          None \<Rightarrow> True
        | Some kinds \<Rightarrow> kinds = [] \<or> length kinds \<noteq> length content \<or> list_ex is_user_kind kinds)"
| "is_user_authorization_message _ \<longleftrightarrow> False"

section \<open>Developer messages\<close>

definition CONTEXTUAL_DEVELOPER_PREFIXES :: "str list" where
  "CONTEXTUAL_DEVELOPER_PREFIXES = map lit
     [''<permissions instructions>'', ''Approved command prefix saved:'', ''<model_switch>'',
      ''<managed_developer_instructions>'', ''<persistent_mode>'', ''<apps_instructions>'',
      ''<collaboration_mode>'', ''<multi_agent_role>'', ''<multi_agent_mode>'',
      ''<environments_instructions>'', ''<git_attribution>'', ''<plugins_instructions>'',
      ''<realtime_conversation>'', ''<skills_instructions>'', ''<tools>'', ''<personality_spec>'',
      ''<token_budget>'', ''<context_window>'', ''<context_window_guidance>'', ''<rollout_budget>'']"

fun is_contextual_dev_fragment :: "content_item \<Rightarrow> bool" where
  "is_contextual_dev_fragment (InputText s) \<longleftrightarrow>
     list_ex (\<lambda>px. has_prefix_ignore_case px (trim_start s)) CONTEXTUAL_DEVELOPER_PREFIXES"
| "is_contextual_dev_fragment _ \<longleftrightarrow> False"

definition is_contextual_dev_message_content :: "content_item list \<Rightarrow> bool" where
  "is_contextual_dev_message_content = list_ex is_contextual_dev_fragment"

definition has_non_contextual_dev_message_content :: "content_item list \<Rightarrow> bool" where
  "has_non_contextual_dev_message_content = list_ex (\<lambda>c. \<not> is_contextual_dev_fragment c)"

text \<open>Fragments that a rollback rebuilds from the next step's model and effort.\<close>

fun is_rebuilt_fragment :: "content_item \<Rightarrow> bool" where
  "is_rebuilt_fragment (InputText s) \<longleftrightarrow>
     matches_marked_text (lit ''<model_switch>'') (lit ''</model_switch>'') s
     \<or> matches_marked_text (lit ''<persistent_mode>'') (lit ''</persistent_mode>'') s"
| "is_rebuilt_fragment _ \<longleftrightarrow> False"

end
