(* ===== verification/EventMapping.thy ===== *)
theory EventMapping
  imports ContextualText
begin

text \<open>
  \<open>core/src/event_mapping.rs\<close>: the item of a turn that the client shows for an item of the
  history. The labels around images and audio are not shown (\<open>protocol/src/models.rs\<close>), the
  detail of a web search comes from \<open>core/src/web_search.rs\<close>. The id of an agent message
  that has none is a random one, the argument \<open>new_id\<close>.
\<close>

section \<open>Labels\<close>

definition is_image_open_tag_text :: "str \<Rightarrow> bool" where
  "is_image_open_tag_text s \<longleftrightarrow> s = lit ''<image>''"

definition is_image_close_tag_text :: "str \<Rightarrow> bool" where
  "is_image_close_tag_text s \<longleftrightarrow> s = lit ''</image>''"

definition is_local_image_open_tag_text :: "str \<Rightarrow> bool" where
  "is_local_image_open_tag_text s =
     (case strip_prefix (lit ''<image name='') s of Some rest \<Rightarrow> ends_with rest (lit ''>'') | None \<Rightarrow> False)"

definition is_local_image_close_tag_text :: "str \<Rightarrow> bool" where
  "is_local_image_close_tag_text s = is_image_close_tag_text s"

definition is_audio_open_tag_text :: "str \<Rightarrow> bool" where
  "is_audio_open_tag_text s \<longleftrightarrow> s = lit ''<audio>''"

definition is_audio_close_tag_text :: "str \<Rightarrow> bool" where
  "is_audio_close_tag_text s \<longleftrightarrow> s = lit ''</audio>''"

definition is_local_audio_open_tag_text :: "str \<Rightarrow> bool" where
  "is_local_audio_open_tag_text s =
     (case strip_prefix (lit ''<audio name='') s of Some rest \<Rightarrow> ends_with rest (lit ''>'') | None \<Rightarrow> False)"

definition is_local_audio_close_tag_text :: "str \<Rightarrow> bool" where
  "is_local_audio_close_tag_text s = is_audio_close_tag_text s"

section \<open>Messages of the user\<close>

datatype user_input =
    UserText str
  | UserImage str "image_detail option"
  | UserAudio str

fun image_at :: "content_item option \<Rightarrow> bool" where
  "image_at (Some (InputImage _ _)) = True"
| "image_at _ = False"

fun audio_at :: "content_item option \<Rightarrow> bool" where
  "audio_at (Some (InputAudio _)) = True"
| "audio_at _ = False"

text \<open>The neighbours are \<open>message.get(idx - 1)\<close>, when there is one, and \<open>message.get(idx + 1)\<close>.\<close>

definition is_image_label :: "content_item option \<Rightarrow> content_item option \<Rightarrow> str \<Rightarrow> bool" where
  "is_image_label before after s \<longleftrightarrow>
     (is_local_image_open_tag_text s \<or> is_image_open_tag_text s) \<and> image_at after
     \<or> (is_local_image_close_tag_text s \<or> is_image_close_tag_text s) \<and> image_at before"

definition is_audio_label :: "content_item option \<Rightarrow> content_item option \<Rightarrow> str \<Rightarrow> bool" where
  "is_audio_label before after s \<longleftrightarrow>
     (is_local_audio_open_tag_text s \<or> is_audio_open_tag_text s) \<and> audio_at after
     \<or> (is_local_audio_close_tag_text s \<or> is_audio_close_tag_text s) \<and> audio_at before"

definition next_item :: "'a list \<Rightarrow> 'a option" where
  "next_item xs = (case xs of [] \<Rightarrow> None | x # _ \<Rightarrow> Some x)"

fun user_inputs :: "content_item option \<Rightarrow> content_item list \<Rightarrow> user_input list" where
  "user_inputs before [] = []"
| "user_inputs before (InputText s # cs) =
     (if is_image_label before (next_item cs) s \<or> is_audio_label before (next_item cs) s
      then user_inputs (Some (InputText s)) cs
      else UserText s # user_inputs (Some (InputText s)) cs)"
| "user_inputs before (InputImage url detail # cs) =
     UserImage url detail # user_inputs (Some (InputImage url detail)) cs"
| "user_inputs before (InputAudio url # cs) = UserAudio url # user_inputs (Some (InputAudio url)) cs"
| "user_inputs before (OutputText s # cs) = user_inputs (Some (OutputText s)) cs"

definition parse_user_message ::
    "(str \<Rightarrow> (str \<times> str) option) \<Rightarrow> content_item list \<Rightarrow> user_input list option" where
  "parse_user_message hook_xml message =
     (if is_contextual_user_message_content hook_xml message then None else Some (user_inputs None message))"

fun input_message :: "user_input \<Rightarrow> str" where
  "input_message (UserText s) = s"
| "input_message _ = []"

text \<open>\<open>UserMessageItem::message\<close>.\<close>

definition user_message :: "user_input list \<Rightarrow> str" where
  "user_message inputs = concat (map input_message inputs)"

section \<open>Items of a turn\<close>

datatype turn_item =
    UserMessageTurn "user_input list"
  | HookPromptTurn "str option" "(str \<times> str) list"
  | AgentMessageTurn str "str list" "message_phase option"
  | ReasoningTurn str "str list" "str list"
  | WebSearchTurn str str web_search_action
  | ImageGenerationTurn str str "str option" str

definition agent_texts :: "content_item list \<Rightarrow> str list" where
  "agent_texts message =
     List.map_filter (\<lambda>c. case c of InputText s \<Rightarrow> Some s | OutputText s \<Rightarrow> Some s | _ \<Rightarrow> None) message"

definition first_query :: "str list option \<Rightarrow> str" where
  "first_query queries =
     (let first = (case queries of Some (q # _) \<Rightarrow> q | _ \<Rightarrow> [])
      in if (case queries of Some qs \<Rightarrow> 1 < length qs | None \<Rightarrow> False) \<and> first \<noteq> []
         then first @ lit '' ...'' else first)"

definition search_action_detail :: "str option \<Rightarrow> str list option \<Rightarrow> str" where
  "search_action_detail query queries =
     (case query of
        Some q \<Rightarrow> if q \<noteq> [] then q else first_query queries
      | None \<Rightarrow> first_query queries)"

definition or_empty :: "str option \<Rightarrow> str" where
  "or_empty s = (case s of Some t \<Rightarrow> t | None \<Rightarrow> [])"

fun web_search_action_detail :: "web_search_action \<Rightarrow> str" where
  "web_search_action_detail (Search query queries) = search_action_detail query queries"
| "web_search_action_detail (OpenPage url) = or_empty url"
| "web_search_action_detail (FindInPage (Some url) (Some pattern)) = [39] @ pattern @ [39] @ lit '' in '' @ url"
| "web_search_action_detail (FindInPage None (Some pattern)) = [39] @ pattern @ [39]"
| "web_search_action_detail (FindInPage url None) = or_empty url"
| "web_search_action_detail OtherAction = []"

fun reasoning_text :: "reasoning_content \<Rightarrow> str" where
  "reasoning_text (ReasoningText s) = s"
| "reasoning_text (PlainText s) = s"

fun summary_text :: "reasoning_summary \<Rightarrow> str" where
  "summary_text (SummaryText s) = s"

fun parse_turn_item :: "(str \<Rightarrow> (str \<times> str) option) \<Rightarrow> str \<Rightarrow> 'j response_item \<Rightarrow> turn_item option" where
  "parse_turn_item hook_xml new_id (Message i role content phase _) =
     (if role = lit ''user'' then
        (case parse_visible_hook_prompt_message hook_xml content of
           Some fragments \<Rightarrow> Some (HookPromptTurn i fragments)
         | None \<Rightarrow> map_option UserMessageTurn (parse_user_message hook_xml content))
      else if role = lit ''assistant'' then
        Some (AgentMessageTurn (case i of Some i \<Rightarrow> i | None \<Rightarrow> new_id) (agent_texts content) phase)
      else None)"
| "parse_turn_item hook_xml new_id (Reasoning i summary content _ _) =
     Some (ReasoningTurn (or_empty i) (map summary_text summary)
       (case content of Some c \<Rightarrow> map reasoning_text c | None \<Rightarrow> []))"
| "parse_turn_item hook_xml new_id (WebSearchCall i _ action _) =
     (case action of
        Some a \<Rightarrow> Some (WebSearchTurn (or_empty i) (web_search_action_detail a) a)
      | None \<Rightarrow> Some (WebSearchTurn (or_empty i) [] OtherAction))"
| "parse_turn_item hook_xml new_id (ImageGenerationCall i status revised_prompt result _) =
     map_option (\<lambda>i. ImageGenerationTurn i status revised_prompt result) i"
| "parse_turn_item hook_xml new_id _ = None"

text \<open>The words of the user that an item holds.\<close>

definition shown_user_message :: "(str \<Rightarrow> (str \<times> str) option) \<Rightarrow> 'j response_item \<Rightarrow> str option" where
  "shown_user_message hook_xml i =
     (case parse_turn_item hook_xml [] i of
        Some (UserMessageTurn inputs) \<Rightarrow> Some (user_message inputs) | _ \<Rightarrow> None)"

end
