(* ===== verification/Normalize.thy ===== *)
theory Normalize
  imports ResponseItem
begin

text \<open>
  \<open>core/src/context_manager/normalize.rs\<close>: what makes a history fit for a prompt. Calls get
  the outputs they lack, outputs without a call go, images and audio the model does not
  support are replaced.

  \<open>error_or_panic\<close> panics in a debug build: the argument \<open>debug\<close> is \<open>cfg!(debug_assertions)\<close>
  and a panic is \<open>None\<close>. \<open>Uuid::new_v5\<close> in the fixed namespace, as text, is the argument
  \<open>uuid5\<close>. The sets of ids are the lists of their elements.
\<close>

section \<open>The ids of calls and outputs\<close>

type_synonym 'j items = "'j envelope list"

fun function_output_id :: "'j response_item \<Rightarrow> str option" where
  "function_output_id (FunctionCallOutput _ (Some c) _ _ _ _) = Some c"
| "function_output_id _ = None"

fun tool_search_output_id :: "'j response_item \<Rightarrow> str option" where
  "tool_search_output_id (ToolSearchOutput _ (Some c) _ _ _ _) = Some c"
| "tool_search_output_id _ = None"

fun custom_tool_output_id :: "'j response_item \<Rightarrow> str option" where
  "custom_tool_output_id (CustomToolCallOutput _ c _ _ _) = Some c"
| "custom_tool_output_id _ = None"

fun function_call_id :: "'j response_item \<Rightarrow> str option" where
  "function_call_id (FunctionCall _ _ _ _ _ c _) = Some c"
| "function_call_id (LocalShellCall _ (Some c) _ _ _) = Some c"
| "function_call_id _ = None"

fun tool_search_call_id :: "'j response_item \<Rightarrow> str option" where
  "tool_search_call_id (ToolSearchCall _ (Some c) _ _ _ _) = Some c"
| "tool_search_call_id _ = None"

fun custom_tool_call_id :: "'j response_item \<Rightarrow> str option" where
  "custom_tool_call_id (CustomToolCall _ _ c _ _ _ _) = Some c"
| "custom_tool_call_id _ = None"

definition ids_of :: "('j response_item \<Rightarrow> str option) \<Rightarrow> 'j items \<Rightarrow> str list" where
  "ids_of f items = List.map_filter (\<lambda>e. f (item e)) items"

section \<open>Missing outputs\<close>

definition synthetic_output_id :: "(str \<Rightarrow> str) \<Rightarrow> str \<Rightarrow> str option \<Rightarrow> str option" where
  "synthetic_output_id uuid5 px source =
     (case source of
        Some s \<Rightarrow> (if s \<noteq> [] then Some (px @ lit ''_'' @ uuid5 (px @ lit '':'' @ s)) else None)
      | None \<Rightarrow> None)"

text \<open>The output that a call lacks, with whether that is reported with \<open>error_or_panic\<close>.\<close>

definition aborted_output :: "(str \<Rightarrow> str) \<Rightarrow> str option \<Rightarrow> str \<Rightarrow> 'j response_item" where
  "aborted_output uuid5 source c =
     FunctionCallOutput (synthetic_output_id uuid5 (lit ''fco'') source) (Some c) None None
       (from_text (lit ''aborted'')) None"

fun missing_output ::
    "(str \<Rightarrow> str) \<Rightarrow> str list \<times> str list \<times> str list \<Rightarrow> 'j response_item
     \<Rightarrow> (bool \<times> 'j response_item) option" where
  "missing_output uuid5 (function_ids, tool_search_ids, custom_ids) (FunctionCall i _ _ _ _ c _) =
     (if c \<notin> set function_ids then Some (False, aborted_output uuid5 i c) else None)"
| "missing_output uuid5 (function_ids, tool_search_ids, custom_ids) (ToolSearchCall i (Some c) _ _ _ _) =
     (if c \<notin> set tool_search_ids then
        Some (False, ToolSearchOutput (synthetic_output_id uuid5 (lit ''tso'') i) (Some c)
          (lit ''completed'') (lit ''client'') [] None)
      else None)"
| "missing_output uuid5 (function_ids, tool_search_ids, custom_ids) (CustomToolCall i _ c _ _ _ _) =
     (if c \<notin> set custom_ids then
        Some (True, CustomToolCallOutput (synthetic_output_id uuid5 (lit ''ctco'') i) c None
          (from_text (lit ''aborted'')) None)
      else None)"
| "missing_output uuid5 (function_ids, tool_search_ids, custom_ids) (LocalShellCall i (Some c) _ _ _) =
     (if c \<notin> set function_ids then Some (True, aborted_output uuid5 i c) else None)"
| "missing_output uuid5 ids _ = None"

definition output_ids :: "'j items \<Rightarrow> str list \<times> str list \<times> str list" where
  "output_ids items =
     (ids_of function_output_id items, ids_of tool_search_output_id items,
      ids_of custom_tool_output_id items)"

fun missing_outputs ::
    "bool \<Rightarrow> (str \<Rightarrow> str) \<Rightarrow> str list \<times> str list \<times> str list \<Rightarrow> (nat \<times> 'j envelope) list
     \<Rightarrow> (nat \<times> 'j envelope) list option" where
  "missing_outputs debug uuid5 ids [] = Some []"
| "missing_outputs debug uuid5 ids ((idx, e) # es) =
     (case missing_output uuid5 ids (item e) of
        None \<Rightarrow> missing_outputs debug uuid5 ids es
      | Some (reported, out) \<Rightarrow>
          (if reported \<and> debug then None
           else map_option ((#) (idx, new_envelope out)) (missing_outputs debug uuid5 ids es)))"

text \<open>\<open>Vec::insert\<close>; the index is at most the length, which only grows.\<close>

definition insert_at :: "nat \<Rightarrow> 'a \<Rightarrow> 'a list \<Rightarrow> 'a list" where
  "insert_at n x xs = take n xs @ x # drop n xs"

definition ensure_call_outputs_present :: "bool \<Rightarrow> (str \<Rightarrow> str) \<Rightarrow> 'j items \<Rightarrow> 'j items option" where
  "ensure_call_outputs_present debug uuid5 items =
     map_option (\<lambda>missing. fold (\<lambda>(idx, out). insert_at (idx + 1) out) (rev missing) items)
       (missing_outputs debug uuid5 (output_ids items) (List.enumerate 0 items))"

section \<open>Orphan outputs\<close>

definition call_ids :: "'j items \<Rightarrow> str list \<times> str list \<times> str list" where
  "call_ids items =
     (ids_of function_call_id items, ids_of tool_search_call_id items,
      ids_of custom_tool_call_id items)"

fun is_orphan :: "str list \<times> str list \<times> str list \<Rightarrow> 'j response_item \<Rightarrow> bool" where
  "is_orphan (function_ids, tool_search_ids, custom_ids) (FunctionCallOutput _ (Some c) _ _ _ _)
     \<longleftrightarrow> c \<notin> set function_ids"
| "is_orphan (function_ids, tool_search_ids, custom_ids) (CustomToolCallOutput _ c _ _ _)
     \<longleftrightarrow> c \<notin> set custom_ids"
| "is_orphan (function_ids, tool_search_ids, custom_ids) (ToolSearchOutput _ (Some c) _ execution _ _)
     \<longleftrightarrow> execution \<noteq> lit ''server'' \<and> c \<notin> set tool_search_ids"
| "is_orphan ids _ \<longleftrightarrow> False"

fun orphan_positions ::
    "bool \<Rightarrow> str list \<times> str list \<times> str list \<Rightarrow> (nat \<times> 'j envelope) list \<Rightarrow> nat list option" where
  "orphan_positions debug ids [] = Some []"
| "orphan_positions debug ids ((position, e) # es) =
     (if is_orphan ids (item e) then
        (if debug then None else map_option ((#) position) (orphan_positions debug ids es))
      else orphan_positions debug ids es)"

text \<open>\<open>retain\<close> with the positions to leave out, which are peeked at in order.\<close>

fun retain_positions :: "nat list \<Rightarrow> nat \<Rightarrow> 'a list \<Rightarrow> 'a list" where
  "retain_positions ps position [] = []"
| "retain_positions [] position (x # xs) = x # retain_positions [] (position + 1) xs"
| "retain_positions (p # ps) position (x # xs) =
     (if p \<noteq> position then x # retain_positions (p # ps) (position + 1) xs
      else retain_positions ps (position + 1) xs)"

definition remove_orphan_outputs :: "bool \<Rightarrow> 'j items \<Rightarrow> 'j items option" where
  "remove_orphan_outputs debug items =
     map_option (\<lambda>ps. if ps \<noteq> [] then retain_positions ps 0 items else items)
       (orphan_positions debug (call_ids items) (List.enumerate 0 items))"

section \<open>The counterpart of a removed item\<close>

fun remove_first_matching :: "('j response_item \<Rightarrow> bool) \<Rightarrow> 'j items \<Rightarrow> 'j items" where
  "remove_first_matching P [] = []"
| "remove_first_matching P (e # es) = (if P (item e) then es else e # remove_first_matching P es)"

fun is_function_call :: "str \<Rightarrow> 'j response_item \<Rightarrow> bool" where
  "is_function_call c (FunctionCall _ _ _ _ _ c' _) = (c' = c)"
| "is_function_call c _ = False"

fun is_local_shell_call :: "str \<Rightarrow> 'j response_item \<Rightarrow> bool" where
  "is_local_shell_call c (LocalShellCall _ (Some c') _ _ _) = (c' = c)"
| "is_local_shell_call c _ = False"

fun remove_corresponding_for :: "'j response_item \<Rightarrow> 'j items \<Rightarrow> 'j items" where
  "remove_corresponding_for (FunctionCall _ _ _ _ _ c _) items =
     remove_first_matching (\<lambda>i. function_output_id i = Some c) items"
| "remove_corresponding_for (FunctionCallOutput _ (Some c) _ _ _ _) items =
     (if list_ex (\<lambda>e. is_function_call c (item e)) items then remove_first_matching (is_function_call c) items
      else remove_first_matching (is_local_shell_call c) items)"
| "remove_corresponding_for (ToolSearchCall _ (Some c) _ _ _ _) items =
     remove_first_matching (\<lambda>i. tool_search_output_id i = Some c) items"
| "remove_corresponding_for (ToolSearchOutput _ (Some c) _ _ _ _) items =
     remove_first_matching (\<lambda>i. tool_search_call_id i = Some c) items"
| "remove_corresponding_for (CustomToolCall _ _ c _ _ _ _) items =
     remove_first_matching (\<lambda>i. custom_tool_output_id i = Some c) items"
| "remove_corresponding_for (CustomToolCallOutput _ c _ _ _) items =
     remove_first_matching (\<lambda>i. custom_tool_call_id i = Some c) items"
| "remove_corresponding_for (LocalShellCall _ (Some c) _ _ _) items =
     remove_first_matching (\<lambda>i. function_output_id i = Some c) items"
| "remove_corresponding_for _ items = items"

section \<open>Unsupported media\<close>

datatype input_modality = TextInput | ImageInput | AudioInput

record unsupported_media =
  media_text :: str
  media_kind :: str

definition UNSUPPORTED_IMAGE :: unsupported_media where
  "UNSUPPORTED_IMAGE =
     \<lparr>media_text = lit ''image content omitted because you do not support image input'',
      media_kind = lit ''images.unsupported''\<rparr>"

definition UNSUPPORTED_AUDIO :: unsupported_media where
  "UNSUPPORTED_AUDIO =
     \<lparr>media_text = lit ''audio content omitted because you do not support audio input'',
      media_kind = lit ''audio.unsupported''\<rparr>"

text \<open>The fragment renders without markers, to its text and its kind.\<close>

definition media_fragment :: "unsupported_media \<Rightarrow> annotated_content" where
  "media_fragment m = (InputText (media_text m), media_kind m)"

fun is_image :: "content_item \<Rightarrow> bool" where
  "is_image (InputImage _ _) = True"
| "is_image _ = False"

fun is_audio_content :: "content_item \<Rightarrow> bool" where
  "is_audio_content (InputAudio _) = True"
| "is_audio_content _ = False"

definition replace_content ::
    "(content_item \<Rightarrow> bool) \<Rightarrow> unsupported_media \<Rightarrow> 'j response_item \<Rightarrow> 'j response_item" where
  "replace_content P m i =
     (case to_annotated_content i of
        (i', None) \<Rightarrow> i'
      | (i', Some content) \<Rightarrow>
          (case set_annotated_content i'
             (map (\<lambda>(c, k). if P c then media_fragment m else (c, k)) content) of
             Some i'' \<Rightarrow> i'' | None \<Rightarrow> i'))"

definition replace_output ::
    "(output_content \<Rightarrow> bool) \<Rightarrow> unsupported_media \<Rightarrow> output_payload \<Rightarrow> output_payload" where
  "replace_output P m output =
     (case body output of
        Text _ \<Rightarrow> output
      | ContentItems items \<Rightarrow>
          output\<lparr>body := ContentItems
            (map (\<lambda>c. if P c then output_content.InputText (media_text m) else c) items)\<rparr>)"

fun is_output_image :: "output_content \<Rightarrow> bool" where
  "is_output_image (output_content.InputImage _ _) = True"
| "is_output_image _ = False"

fun is_output_audio :: "output_content \<Rightarrow> bool" where
  "is_output_audio (output_content.InputAudio _) = True"
| "is_output_audio _ = False"

fun strip_image :: "'j response_item \<Rightarrow> 'j response_item" where
  "strip_image (Message i role content phase m) =
     replace_content is_image UNSUPPORTED_IMAGE (Message i role content phase m)"
| "strip_image (FunctionCallOutput i c n ns output m) =
     FunctionCallOutput i c n ns (replace_output is_output_image UNSUPPORTED_IMAGE output) m"
| "strip_image (CustomToolCallOutput i c n output m) =
     CustomToolCallOutput i c n (replace_output is_output_image UNSUPPORTED_IMAGE output) m"
| "strip_image (ImageGenerationCall i status revised_prompt result m) =
     ImageGenerationCall i status revised_prompt [] m"
| "strip_image i = i"

fun strip_audio :: "'j response_item \<Rightarrow> 'j response_item" where
  "strip_audio (Message i role content phase m) =
     replace_content is_audio_content UNSUPPORTED_AUDIO (Message i role content phase m)"
| "strip_audio (FunctionCallOutput i c n ns output m) =
     FunctionCallOutput i c n ns (replace_output is_output_audio UNSUPPORTED_AUDIO output) m"
| "strip_audio (CustomToolCallOutput i c n output m) =
     CustomToolCallOutput i c n (replace_output is_output_audio UNSUPPORTED_AUDIO output) m"
| "strip_audio i = i"

definition strip_images_when_unsupported :: "input_modality list \<Rightarrow> 'j items \<Rightarrow> 'j items" where
  "strip_images_when_unsupported modalities items =
     (if ImageInput \<in> set modalities then items
      else map (\<lambda>e. e\<lparr>item := strip_image (item e)\<rparr>) items)"

definition strip_audio_when_unsupported :: "input_modality list \<Rightarrow> 'j items \<Rightarrow> 'j items" where
  "strip_audio_when_unsupported modalities items =
     (if AudioInput \<in> set modalities then items
      else map (\<lambda>e. e\<lparr>item := strip_audio (item e)\<rparr>) items)"

text \<open>\<open>normalize_history\<close> of \<open>context_manager/history.rs\<close>.\<close>

definition normalize_history ::
    "bool \<Rightarrow> (str \<Rightarrow> str) \<Rightarrow> input_modality list \<Rightarrow> 'j items \<Rightarrow> 'j items option" where
  "normalize_history debug uuid5 modalities items =
     do {
       items \<leftarrow> ensure_call_outputs_present debug uuid5 items;
       items \<leftarrow> remove_orphan_outputs debug items;
       let items = strip_images_when_unsupported modalities items;
       Some (strip_audio_when_unsupported modalities items)
     }"

end
