(* ===== verification/TokenEstimate.thy ===== *)
theory TokenEstimate
  imports Normalize ContextualText "HOL-Library.Word"
begin

text \<open>
  Token usage (\<open>protocol/src/protocol.rs\<close>) and the byte heuristics that estimate the tokens of
  an item (\<open>core/src/context_manager/history.rs\<close>).

  An \<open>i64\<close> counter that the source adds without a check is a 64-bit word, which wraps as in a
  release build; a JSON number is its text; the saturating estimates are \<open>int\<close>s cut to the range of \<open>i64\<close>. What is not in
  the repository is an argument: how many bytes \<open>serde_json\<close> writes, the audio decoder, and the
  size of the image in base64 data. The caches of estimates keep the value of a pure function.
\<close>

section \<open>Integers\<close>

type_synonym i64 = "64 word"

definition I64_MAX :: int where "I64_MAX = 2 ^ 63 - 1"

definition sat_i64 :: "int \<Rightarrow> int" where
  "sat_i64 i = max (- (2 ^ 63)) (min i I64_MAX)"

definition i64_of_usize :: "nat \<Rightarrow> int" where
  "i64_of_usize n = min (int n) I64_MAX"

section \<open>Token usage\<close>

record token_usage =
  input_tokens :: i64
  cached_input_tokens :: i64
  cache_write_input_tokens :: i64
  output_tokens :: i64
  reasoning_output_tokens :: i64
  total_tokens :: i64
  codex_rollout_budget_units :: "str option"

definition default_usage :: token_usage where
  "default_usage = \<lparr>input_tokens = 0, cached_input_tokens = 0, cache_write_input_tokens = 0,
     output_tokens = 0, reasoning_output_tokens = 0, total_tokens = 0, codex_rollout_budget_units = None\<rparr>"

definition add_usage :: "token_usage \<Rightarrow> token_usage \<Rightarrow> token_usage" where
  "add_usage a b =
     \<lparr>input_tokens = input_tokens a + input_tokens b,
      cached_input_tokens = cached_input_tokens a + cached_input_tokens b,
      cache_write_input_tokens = cache_write_input_tokens a + cache_write_input_tokens b,
      output_tokens = output_tokens a + output_tokens b,
      reasoning_output_tokens = reasoning_output_tokens a + reasoning_output_tokens b,
      total_tokens = total_tokens a + total_tokens b,
      codex_rollout_budget_units = codex_rollout_budget_units a\<rparr>"

text \<open>\<open>i64::max(0)\<close>.\<close>

definition max_0 :: "i64 \<Rightarrow> i64" where
  "max_0 w = (if sint w < 0 then 0 else w)"

definition cached_input :: "token_usage \<Rightarrow> i64" where
  "cached_input u = max_0 (cached_input_tokens u)"

definition non_cached_input :: "token_usage \<Rightarrow> i64" where
  "non_cached_input u = max_0 (input_tokens u - cached_input u)"

definition blended_total :: "token_usage \<Rightarrow> i64" where
  "blended_total u = max_0 (non_cached_input u + max_0 (output_tokens u))"

record token_usage_info =
  total_token_usage :: token_usage
  last_token_usage :: token_usage
  model_context_window :: "i64 option"

definition append_last_usage :: "token_usage \<Rightarrow> token_usage_info \<Rightarrow> token_usage_info" where
  "append_last_usage usage info =
     info\<lparr>total_token_usage := add_usage (total_token_usage info) usage, last_token_usage := usage\<rparr>"

definition new_or_append ::
    "token_usage_info option \<Rightarrow> token_usage option \<Rightarrow> i64 option \<Rightarrow> token_usage_info option" where
  "new_or_append info usage window =
     (if info = None \<and> usage = None then None
      else
        (let new_info = (case info of Some i \<Rightarrow> i
               | None \<Rightarrow> \<lparr>total_token_usage = default_usage, last_token_usage = default_usage,
                         model_context_window = window\<rparr>);
             new_info = (case usage of Some u \<Rightarrow> append_last_usage u new_info | None \<Rightarrow> new_info)
         in Some (case window of Some w \<Rightarrow> new_info\<lparr>model_context_window := Some w\<rparr> | None \<Rightarrow> new_info)))"

definition fill_to_context_window :: "i64 \<Rightarrow> token_usage_info \<Rightarrow> token_usage_info" where
  "fill_to_context_window window info =
     \<lparr>total_token_usage = default_usage\<lparr>total_tokens := window\<rparr>,
      last_token_usage = default_usage\<lparr>total_tokens := max_0 (window - total_tokens (total_token_usage info))\<rparr>,
      model_context_window = Some window\<rparr>"

definition full_context_window :: "i64 \<Rightarrow> token_usage_info" where
  "full_context_window window = fill_to_context_window window
     \<lparr>total_token_usage = default_usage, last_token_usage = default_usage, model_context_window = Some window\<rparr>"

section \<open>Data URLs\<close>

definition parse_base64_data_url :: "str \<Rightarrow> str \<Rightarrow> str option" where
  "parse_base64_data_url url media_type_prefix =
     (if \<not> has_prefix_ignore_case (lit ''data:'') url then None
      else case split_once 44 url of
        None \<Rightarrow> None
      | Some (metadata, payload) \<Rightarrow>
          (case split_on 59 (drop 5 metadata) of
             [] \<Rightarrow> None
           | mime_type # parts \<Rightarrow>
               (if \<not> has_prefix_ignore_case media_type_prefix mime_type then None
                else if \<not> list_ex (\<lambda>p. eq_ignore_ascii_case p (lit ''base64'')) parts then None
                else Some payload)))"

definition parse_base64_image_data_url :: "str \<Rightarrow> str option" where
  "parse_base64_image_data_url url = parse_base64_data_url url (lit ''image/'')"

definition parse_base64_audio_data_url :: "str \<Rightarrow> str option" where
  "parse_base64_audio_data_url url = parse_base64_data_url url (lit ''audio/'')"

section \<open>Estimates\<close>

record 'j meters =
  serialized_json_bytes :: "'j response_item \<Rightarrow> nat option"
  estimate_audio_token_count :: "str \<Rightarrow> nat"
  decoded_image_size :: "str \<Rightarrow> (nat \<times> nat) option"

definition estimate_reasoning_length :: "nat \<Rightarrow> nat" where
  "estimate_reasoning_length encoded_len = sat_mul encoded_len 3 div 4 - 650"

definition estimate_encrypted_function_output_length :: "nat \<Rightarrow> nat" where
  "estimate_encrypted_function_output_length encoded_len = (sat_mul encoded_len 9 + 15) div 16"

definition RESIZED_IMAGE_BYTES_ESTIMATE :: int where "RESIZED_IMAGE_BYTES_ESTIMATE = 7373"
definition ORIGINAL_IMAGE_PATCH_SIZE :: nat where "ORIGINAL_IMAGE_PATCH_SIZE = 32"
definition ORIGINAL_IMAGE_MAX_PATCHES :: nat where "ORIGINAL_IMAGE_MAX_PATCHES = 10000"

definition estimate_original_image_bytes :: "'j meters \<Rightarrow> str \<Rightarrow> int option" where
  "estimate_original_image_bytes mt image_url =
     (case parse_base64_image_data_url image_url of
        None \<Rightarrow> None
      | Some payload \<Rightarrow>
          map_option (\<lambda>(width, height).
              (let patches_wide = (width + (ORIGINAL_IMAGE_PATCH_SIZE - 1)) div ORIGINAL_IMAGE_PATCH_SIZE;
                   patches_high = (height + (ORIGINAL_IMAGE_PATCH_SIZE - 1)) div ORIGINAL_IMAGE_PATCH_SIZE;
                   patch_count = min (patches_wide * patches_high) ORIGINAL_IMAGE_MAX_PATCHES
               in i64_of_usize (approx_bytes_for_tokens patch_count)))
            (decoded_image_size mt payload))"

definition estimate_image_bytes :: "'j meters \<Rightarrow> str \<Rightarrow> image_detail option \<Rightarrow> int" where
  "estimate_image_bytes mt image_url detail =
     (if detail = Some Original then
        (case estimate_original_image_bytes mt image_url of Some n \<Rightarrow> n | None \<Rightarrow> RESIZED_IMAGE_BYTES_ESTIMATE)
      else RESIZED_IMAGE_BYTES_ESTIMATE)"

text \<open>One step of the accumulators: what is taken off and what is put in its place.\<close>

definition accumulate :: "int \<times> int \<Rightarrow> int \<times> int \<Rightarrow> int \<times> int" where
  "accumulate d acc = (sat_i64 (fst acc + fst d), sat_i64 (snd acc + snd d))"

definition image_adjustment :: "'j meters \<Rightarrow> str \<times> image_detail option \<Rightarrow> (int \<times> int) option" where
  "image_adjustment mt img =
     map_option (\<lambda>payload. (i64_of_usize (str_len payload), estimate_image_bytes mt (fst img) (snd img)))
       (parse_base64_image_data_url (fst img))"

definition audio_adjustment :: "'j meters \<Rightarrow> str \<Rightarrow> (int \<times> int) option" where
  "audio_adjustment mt audio_url =
     map_option (\<lambda>payload. (i64_of_usize (str_len payload),
         i64_of_usize (approx_bytes_for_tokens (estimate_audio_token_count mt audio_url))))
       (parse_base64_audio_data_url audio_url)"

definition encrypted_adjustment :: "str \<Rightarrow> int \<times> int" where
  "encrypted_adjustment content =
     (i64_of_usize (str_len content), i64_of_usize (estimate_encrypted_function_output_length (str_len content)))"

definition output_items :: "output_payload \<Rightarrow> output_content list" where
  "output_items out = (case body out of ContentItems items \<Rightarrow> items | Text _ \<Rightarrow> [])"

fun content_image :: "content_item \<Rightarrow> (str \<times> image_detail option) option" where
  "content_image (InputImage url detail) = Some (url, detail)"
| "content_image _ = None"

fun output_image :: "output_content \<Rightarrow> (str \<times> image_detail option) option" where
  "output_image (output_content.InputImage url detail) = Some (url, detail)"
| "output_image _ = None"

fun content_audio :: "content_item \<Rightarrow> str option" where
  "content_audio (InputAudio url) = Some url"
| "content_audio _ = None"

fun output_audio :: "output_content \<Rightarrow> str option" where
  "output_audio (output_content.InputAudio url) = Some url"
| "output_audio _ = None"

fun output_encrypted :: "output_content \<Rightarrow> str option" where
  "output_encrypted (output_content.EncryptedContent s) = Some s"
| "output_encrypted _ = None"

fun agent_encrypted :: "agent_content \<Rightarrow> str option" where
  "agent_encrypted (AgentEncrypted s) = Some s"
| "agent_encrypted _ = None"

fun image_data_url_estimate_adjustment :: "'j meters \<Rightarrow> 'j response_item \<Rightarrow> int \<times> int" where
  "image_data_url_estimate_adjustment mt (Message _ _ content _ _) =
     fold accumulate (List.map_filter (image_adjustment mt) (List.map_filter content_image content)) (0, 0)"
| "image_data_url_estimate_adjustment mt (FunctionCallOutput _ _ _ _ out _) =
     fold accumulate (List.map_filter (image_adjustment mt) (List.map_filter output_image (output_items out))) (0, 0)"
| "image_data_url_estimate_adjustment mt (CustomToolCallOutput _ _ _ out _) =
     fold accumulate (List.map_filter (image_adjustment mt) (List.map_filter output_image (output_items out))) (0, 0)"
| "image_data_url_estimate_adjustment mt _ = (0, 0)"

fun audio_data_url_estimate_adjustment :: "'j meters \<Rightarrow> 'j response_item \<Rightarrow> int \<times> int" where
  "audio_data_url_estimate_adjustment mt (Message _ _ content _ _) =
     fold accumulate (List.map_filter (audio_adjustment mt) (List.map_filter content_audio content)) (0, 0)"
| "audio_data_url_estimate_adjustment mt (FunctionCallOutput _ _ _ _ out _) =
     fold accumulate (List.map_filter (audio_adjustment mt) (List.map_filter output_audio (output_items out))) (0, 0)"
| "audio_data_url_estimate_adjustment mt (CustomToolCallOutput _ _ _ out _) =
     fold accumulate (List.map_filter (audio_adjustment mt) (List.map_filter output_audio (output_items out))) (0, 0)"
| "audio_data_url_estimate_adjustment mt _ = (0, 0)"

fun encrypted_function_output_estimate_adjustment :: "'j response_item \<Rightarrow> int \<times> int" where
  "encrypted_function_output_estimate_adjustment (FunctionCallOutput _ _ _ _ out _) =
     fold accumulate (map encrypted_adjustment (List.map_filter output_encrypted (output_items out))) (0, 0)"
| "encrypted_function_output_estimate_adjustment (AgentMessage _ _ _ content _) =
     fold accumulate (map encrypted_adjustment (List.map_filter agent_encrypted content)) (0, 0)"
| "encrypted_function_output_estimate_adjustment _ = (0, 0)"

text \<open>The content that is opaque to the client, whose length alone is estimated.\<close>

fun opaque_content :: "'j response_item \<Rightarrow> str option" where
  "opaque_content (Reasoning _ _ _ encrypted _) = encrypted"
| "opaque_content (Compaction _ encrypted _) = Some encrypted"
| "opaque_content (ContextCompaction _ encrypted _) = encrypted"
| "opaque_content _ = None"

definition replace_bytes :: "int \<times> int \<Rightarrow> int \<Rightarrow> int" where
  "replace_bytes adjustment raw = sat_i64 (sat_i64 (raw - fst adjustment) + snd adjustment)"

definition estimate_response_item_model_visible_bytes :: "'j meters \<Rightarrow> 'j response_item \<Rightarrow> int" where
  "estimate_response_item_model_visible_bytes mt i =
     (case opaque_content i of
        Some content \<Rightarrow> i64_of_usize (estimate_reasoning_length (str_len content))
      | None \<Rightarrow>
          (let raw = (case serialized_json_bytes mt i of Some n \<Rightarrow> i64_of_usize n | None \<Rightarrow> 0);
               raw = replace_bytes (image_data_url_estimate_adjustment mt i) raw;
               raw = replace_bytes (audio_data_url_estimate_adjustment mt i) raw
           in replace_bytes (encrypted_function_output_estimate_adjustment i) raw))"

definition estimate_item_token_count :: "'j meters \<Rightarrow> 'j response_item \<Rightarrow> int" where
  "estimate_item_token_count mt i =
     approx_tokens_from_byte_count_i64 (estimate_response_item_model_visible_bytes mt i)"

definition sum_tokens :: "'j meters \<Rightarrow> 'j response_item list \<Rightarrow> int" where
  "sum_tokens mt items = fold (\<lambda>i n. sat_i64 (n + estimate_item_token_count mt i)) items 0"

end
