(* ===== verification/TruncationCorrect.thy ===== *)
theory TruncationCorrect
  imports Truncation
begin

text \<open>
  What truncation keeps: the longest beginning and the longest end of whole characters that
  the halves of the budget hold, and of a tool output everything the budget covers.
\<close>

section \<open>Byte offsets\<close>

lemma len_utf8_pos [simp]: "0 < len_utf8 c"
  by (simp add: len_utf8_def)

lemma len_utf8_le: "len_utf8 c \<le> 4"
  by (simp add: len_utf8_def)

lemma str_len_simps [simp]:
  "str_len [] = 0" "str_len (c # s) = len_utf8 c + str_len s" "str_len (s @ t) = str_len s + str_len t"
  by (simp_all add: str_len_def)

lemma str_len_rev [simp]: "str_len (rev s) = str_len s"
  by (induction s) (simp_all add: add.commute)

lemma str_len_0 [simp]: "str_len s = 0 \<longleftrightarrow> s = []"
  by (cases s) auto

lemma length_le_str_len: "length s \<le> str_len s"
proof (induction s)
  case (Cons c s)
  with len_utf8_pos [of c] show ?case by (simp del: len_utf8_pos)
qed simp

lemma take_bytes_append [simp]: "take_bytes (str_len a) (a @ b) = Some a"
  by (induction a) (auto, cases b, auto)

lemma drop_bytes_append [simp]: "drop_bytes (str_len a) (a @ b) = Some b"
  by (induction a) (auto, cases b, auto)

lemma take_bytes_Some: "take_bytes n s = Some a \<Longrightarrow> \<exists>b. s = a @ b \<and> n = str_len a"
  by (induction n s arbitrary: a rule: take_bytes.induct) (fastforce split: if_splits)+

lemma boundary_iff: "is_char_boundary s n \<longleftrightarrow> (\<exists>a b. s = a @ b \<and> n = str_len a)"
  using take_bytes_Some by (fastforce simp: is_char_boundary_def)

lemma char_indices_append:
  "char_indices i (a @ b) = char_indices i a @ char_indices (i + str_len a) b"
  by (induction a arbitrary: i) (auto simp: add.assoc)

section \<open>The longest beginning and the longest end\<close>

fun longest_within :: "nat \<Rightarrow> str \<Rightarrow> str" where
  "longest_within n [] = []"
| "longest_within n (c # s) =
     (if len_utf8 c \<le> n then c # longest_within (n - len_utf8 c) s else [])"

definition longest_tail :: "nat \<Rightarrow> str \<Rightarrow> str" where
  "longest_tail n s = rev (longest_within n (rev s))"

lemma longest_within_split:
  obtains q where "s = longest_within n s @ q" "str_len (longest_within n s) \<le> n"
    "q \<noteq> [] \<Longrightarrow> n < str_len (longest_within n s) + len_utf8 (hd q)"
proof -
  have "\<exists>q. s = longest_within n s @ q \<and> str_len (longest_within n s) \<le> n
      \<and> (q \<noteq> [] \<longrightarrow> n < str_len (longest_within n s) + len_utf8 (hd q))"
  proof (induction s arbitrary: n)
    case (Cons c s)
    show ?case
    proof (cases "len_utf8 c \<le> n")
      case True
      from Cons.IH [of "n - len_utf8 c"] obtain q where
        "s = longest_within (n - len_utf8 c) s @ q"
        "str_len (longest_within (n - len_utf8 c) s) \<le> n - len_utf8 c"
        "q \<noteq> [] \<longrightarrow> n - len_utf8 c < str_len (longest_within (n - len_utf8 c) s) + len_utf8 (hd q)" by blast
      with True show ?thesis by (intro exI [of _ q]) auto
    qed simp
  qed simp
  with that show thesis by blast
qed

lemma longest_tail_split:
  obtains q where "s = q @ longest_tail n s" "str_len (longest_tail n s) \<le> n"
    "q \<noteq> [] \<Longrightarrow> n < str_len (longest_tail n s) + len_utf8 (last q)"
proof -
  obtain q where "rev s = longest_within n (rev s) @ q" "str_len (longest_within n (rev s)) \<le> n"
    "q \<noteq> [] \<Longrightarrow> n < str_len (longest_within n (rev s)) + len_utf8 (hd q)"
    using longest_within_split [of "rev s" n] by blast
  with that [of "rev q"] show thesis
    by (simp add: longest_tail_def last_rev) (metis rev_append rev_rev_ident)
qed

text \<open>A budget below the length of the text leaves something out between the two.\<close>

lemma split_middle:
  assumes "b + e < str_len s"
  obtains m where "s = longest_within b s @ m @ longest_tail e s" "m \<noteq> []"
    "str_len (longest_within b s) \<le> b" "str_len (longest_tail e s) \<le> e"
    "b < str_len (longest_within b s) + len_utf8 (hd m)"
    "e < str_len (longest_tail e s) + len_utf8 (last m)"
proof -
  obtain q where q: "s = longest_within b s @ q" "str_len (longest_within b s) \<le> b"
    "q \<noteq> [] \<Longrightarrow> b < str_len (longest_within b s) + len_utf8 (hd q)"
    using longest_within_split [of s b] by blast
  obtain p where p: "s = p @ longest_tail e s" "str_len (longest_tail e s) \<le> e"
    "p \<noteq> [] \<Longrightarrow> e < str_len (longest_tail e s) + len_utf8 (last p)"
    using longest_tail_split [of s e] by blast
  let ?l = "longest_within b s" and ?r = "longest_tail e s"
  from p(1) q(1) have "p @ ?r = ?l @ q" by simp
  then obtain u where "p = ?l @ u \<and> q = u @ ?r \<or> ?l = p @ u \<and> ?r = u @ q"
    using append_eq_append_conv2 [THEN iffD1, of p ?r ?l q] by metis
  moreover have False if "?l = p @ u" "?r = u @ q"
  proof -
    have "str_len s = str_len p + str_len ?r" using arg_cong [OF p(1), of str_len] by simp
    moreover have "str_len p \<le> str_len ?l" using arg_cong [OF that(1), of str_len] by simp
    ultimately show False using assms q(2) p(2) by linarith
  qed
  ultimately have u: "p = ?l @ u" "q = u @ ?r" by blast+
  have "u \<noteq> []"
  proof
    assume "u = []"
    with u p(1) have "str_len s = str_len ?l + str_len ?r" by (metis append_Nil2 str_len_simps(3))
    with assms q(2) p(2) show False by linarith
  qed
  with that [of u] u p q show thesis by auto
qed

section \<open>One pass over the text\<close>

lemma scan_prefix:
  "i + str_len a \<le> b \<Longrightarrow> fold (scan_char b t) (char_indices i a) st
     = (if a = [] then st else st\<lparr>prefix_end := i + str_len a\<rparr>)"
  by (induction a arbitrary: i st) (auto simp: scan_char_def add.assoc)

lemma scan_middle:
  "m \<noteq> [] \<Longrightarrow> b < i + len_utf8 (hd m) \<Longrightarrow> i + str_len (butlast m) < t \<Longrightarrow>
   fold (scan_char b t) (char_indices i m) st
     = st\<lparr>removed_chars := min (removed_chars st + length m) USIZE_MAX\<rparr>"
proof (induction m arbitrary: i st)
  case (Cons c m)
  have step: "scan_char b t (i, c) st = st\<lparr>removed_chars := min (removed_chars st + 1) USIZE_MAX\<rparr>"
    using Cons.prems by (auto simp: scan_char_def sat_add_def split: if_splits)
  show ?case
  proof (cases "m = []")
    case True
    with step show ?thesis by simp
  next
    case False
    with Cons.prems have "b < i + len_utf8 c + len_utf8 (hd m)" "i + len_utf8 c + str_len (butlast m) < t"
      by auto
    from Cons.IH [OF False this] step show ?thesis by simp
  qed
qed simp

lemma scan_suffix:
  "t \<le> i \<Longrightarrow> (r \<noteq> [] \<Longrightarrow> b < i + len_utf8 (hd r)) \<Longrightarrow> fold (scan_char b t) (char_indices i r) st
     = (if r = [] \<or> suffix_started st then st else st\<lparr>suffix_start := i, suffix_started := True\<rparr>)"
proof (induction r arbitrary: i st)
  case (Cons c r)
  have "fold (scan_char b t) (char_indices (i + len_utf8 c) r) st'
      = (if r = [] \<or> suffix_started st' then st' else st'\<lparr>suffix_start := i + len_utf8 c, suffix_started := True\<rparr>)" for st'
    using Cons.prems by (intro Cons.IH) auto
  moreover have "scan_char b t (i, c) st
      = (if suffix_started st then st else st\<lparr>suffix_start := i, suffix_started := True\<rparr>)"
    using Cons.prems by (auto simp: scan_char_def)
  ultimately show ?case by simp
qed simp

lemma split_string_middle:
  assumes "b + e < str_len s" "str_len s \<le> USIZE_MAX"
  shows "split_string s b e = Some
     (length s - length (longest_within b s) - length (longest_tail e s), longest_within b s, longest_tail e s)"
proof -
  obtain m where s: "s = longest_within b s @ m @ longest_tail e s" and m: "m \<noteq> []"
    and l: "str_len (longest_within b s) \<le> b" and r: "str_len (longest_tail e s) \<le> e"
    and hd_m: "b < str_len (longest_within b s) + len_utf8 (hd m)"
    and last_m: "e < str_len (longest_tail e s) + len_utf8 (last m)"
    by (rule split_middle [OF assms(1)])
  define l where "l = longest_within b s"
  define r where "r = longest_tail e s"
  note folded = s [folded l_def r_def] l [folded l_def] r [folded r_def] hd_m [folded l_def] last_m [folded r_def]
  have len: "str_len s = str_len l + str_len m + str_len r" using folded(1) by (metis add.assoc str_len_simps(3))
  have bl: "str_len m = str_len (butlast m) + len_utf8 (last m)"
    using m by (metis append_butlast_last_id str_len_simps add_0_right)
  let ?t = "str_len s - e" and ?st = "\<lparr>prefix_end = 0, suffix_start = str_len s, removed_chars = 0, suffix_started = False\<rparr>"
  let ?st1 = "if l = [] then ?st else ?st\<lparr>prefix_end := str_len l\<rparr>"
  have 1: "fold (scan_char b ?t) (char_indices 0 l) ?st = ?st1"
    using scan_prefix [of 0 l b ?t ?st] folded(2) by simp
  have 2: "fold (scan_char b ?t) (char_indices (str_len l) m) ?st1
      = ?st1\<lparr>removed_chars := min (length m) USIZE_MAX\<rparr>"
    using scan_middle [OF m, of b "str_len l" ?t ?st1] folded(4,5) len bl assms(1) by auto
  have 3: "fold (scan_char b ?t) (char_indices (str_len l + str_len m) r) st
      = (if r = [] \<or> suffix_started st then st else st\<lparr>suffix_start := str_len l + str_len m, suffix_started := True\<rparr>)" for st
    using folded(3,4) len bl m by (intro scan_suffix) (auto simp: neq_Nil_conv)
  have run: "fold (scan_char b ?t) (char_indices 0 s) ?st =
      \<lparr>prefix_end = str_len l, suffix_start = str_len l + str_len m, removed_chars = length m,
       suffix_started = (r \<noteq> [])\<rparr>"
  proof -
    have "length m \<le> USIZE_MAX" using length_le_str_len [of m] len assms(2) by linarith
    with 1 2 3 len show ?thesis
      by (subst (2) folded(1)) (auto simp: char_indices_append min_absorb1)
  qed
  have "take_bytes (str_len l) s = Some l" "drop_bytes (str_len l + str_len m) s = Some r"
    using take_bytes_append [of l "m @ r"] drop_bytes_append [of "l @ m" r] folded(1) by simp_all
  moreover have "length s - length l - length r = length m"
    using arg_cong [OF folded(1), of length] by simp
  moreover have "s \<noteq> []" using m folded(1) by auto
  ultimately show ?thesis
    unfolding split_string_def Let_def run by (simp add: l_def [symmetric] r_def [symmetric])
qed

text \<open>What truncating to a number of bytes is.\<close>

definition truncated :: "str \<Rightarrow> nat \<Rightarrow> bool \<Rightarrow> str" where
  "truncated s m use_tokens =
     (if str_len s \<le> m then s
      else
        (let left = longest_within (m div 2) s; right = longest_tail (m - m div 2) s in
         left @ format_truncation_marker use_tokens
           (if use_tokens then (str_len s - m + 3) div 4 else length s - length left - length right) @ right))"

lemma longest_within_0 [simp]: "longest_within 0 s = []"
  by (cases s) auto

lemma longest_tail_0 [simp]: "longest_tail 0 s = []"
  by (simp add: longest_tail_def)

lemma tokens_of_bytes: "n + 3 \<le> USIZE_MAX \<Longrightarrow> approx_tokens_from_byte_count n = (n + 3) div 4"
  by (simp add: approx_tokens_from_byte_count_def sat_add_def APPROX_BYTES_PER_TOKEN_def)

lemma truncate_with_byte_estimate_eq:
  assumes "str_len s + 3 \<le> USIZE_MAX"
  shows "truncate_with_byte_estimate s m use_tokens = Some (truncated s m use_tokens)"
proof -
  let ?b = "m div 2" and ?e = "m - m div 2"
  have units: "removed_units use_tokens (str_len s - m) n = (if use_tokens then (str_len s - m + 3) div 4 else n)" for n
    using assms by (simp add: removed_units_def tokens_of_bytes)
  show ?thesis
  proof (cases "s = [] \<or> m = 0 \<or> str_len s \<le> m")
    case True
    with units [of "length s"] show ?thesis
      by (auto simp: truncate_with_byte_estimate_def truncated_def)
  next
    case False
    then have "split_string s ?b ?e = Some (length s - length (longest_within ?b s) - length (longest_tail ?e s),
        longest_within ?b s, longest_tail ?e s)"
      using assms by (intro split_string_middle) simp_all
    with False units show ?thesis
      by (simp add: truncate_with_byte_estimate_def truncated_def split_budget_def Let_def
          assemble_truncated_output_def)
  qed
qed

definition truncated_by :: "truncation_policy \<Rightarrow> str \<Rightarrow> str" where
  "truncated_by policy s = truncated s (byte_budget policy) (case policy of Bytes _ \<Rightarrow> False | Tokens _ \<Rightarrow> True)"

lemma truncate_text_eq:
  "str_len s + 3 \<le> USIZE_MAX \<Longrightarrow> truncate_text s policy = Some (truncated_by policy s)"
  by (cases policy)
     (auto simp: truncate_middle_chars_def truncate_middle_with_token_budget_def truncated_by_def
       truncate_with_byte_estimate_eq truncated_def)

lemma truncated_ends:
  assumes "m < str_len s"
  obtains left mid right n where "s = left @ mid @ right" "mid \<noteq> []"
    "truncated s m use_tokens = left @ format_truncation_marker use_tokens n @ right"
    "n = (if use_tokens then (str_len s - m + 3) div 4 else length mid)"
    "str_len left \<le> m div 2" "str_len right \<le> m - m div 2" "m < str_len (left @ right) + 8"
proof -
  let ?l = "longest_within (m div 2) s" and ?r = "longest_tail (m - m div 2) s"
  obtain mid where mid: "s = ?l @ mid @ ?r" "mid \<noteq> []" "str_len ?l \<le> m div 2" "str_len ?r \<le> m - m div 2"
    "m div 2 < str_len ?l + len_utf8 (hd mid)" "m - m div 2 < str_len ?r + len_utf8 (last mid)"
    using split_middle [of "m div 2" "m - m div 2" s] assms by auto
  have "length mid = length s - length ?l - length ?r" using arg_cong [OF mid(1), of length] by simp
  moreover have "m < str_len (?l @ ?r) + 8"
    using mid(5,6) len_utf8_le [of "hd mid"] len_utf8_le [of "last mid"] by simp
  ultimately show thesis
    using mid(1-4) assms by (intro that [of ?l mid ?r]) (simp_all add: truncated_def Let_def)
qed

section \<open>The truncation of the reviewer\<close>

lemma take_floor_boundary: "take_bytes (floor_boundary s n) s = Some (longest_within n s)"
proof -
  obtain q where q: "s = longest_within n s @ q" "str_len (longest_within n s) \<le> n"
    "q \<noteq> [] \<Longrightarrow> n < str_len (longest_within n s) + len_utf8 (hd q)"
    using longest_within_split [of s n] by blast
  let ?l = "longest_within n s"
  have no: "\<not> is_char_boundary s k" if "str_len ?l < k" "k \<le> n" for k
  proof
    assume "is_char_boundary s k"
    then obtain a b where ab: "s = a @ b" "k = str_len a" by (auto simp: boundary_iff)
    then obtain u where "a = ?l @ u \<and> q = u @ b \<or> ?l = a @ u \<and> b = u @ q"
      using append_eq_append_conv2 [THEN iffD1, of a b ?l q] q(1) by metis
    then show False
    proof
      assume u: "a = ?l @ u \<and> q = u @ b"
      then have "k = str_len ?l + str_len u" using ab(2) by (metis str_len_simps(3))
      with that(1) obtain c v where "u = c # v" by (cases u) auto
      with u q(3) that(2) \<open>k = str_len ?l + str_len u\<close> show False by simp
    next
      assume "?l = a @ u \<and> b = u @ q"
      then have "str_len ?l = k + str_len u" using ab(2) by (metis str_len_simps(3))
      with that(1) show False by simp
    qed
  qed
  have "floor_boundary s k = str_len ?l" if "str_len ?l \<le> k" "k \<le> n" for k
    using that
  proof (induction k)
    case (Suc k)
    have "is_char_boundary s (str_len ?l)" using q(1) by (auto simp: boundary_iff)
    with Suc no [of "Suc k"] show ?case by (cases "str_len ?l = Suc k") auto
  qed simp
  with q(1,2) show ?thesis using take_bytes_append [of ?l q] by auto
qed

lemma drop_ceil_boundary:
  assumes "e \<le> str_len s"
  shows "\<exists>k. ceil_boundary s (str_len s - e) = Some k \<and> drop_bytes k s = Some (longest_tail e s)"
proof -
  obtain p where p: "s = p @ longest_tail e s" "str_len (longest_tail e s) \<le> e"
    "p \<noteq> [] \<Longrightarrow> e < str_len (longest_tail e s) + len_utf8 (last p)"
    using longest_tail_split [of s e] by blast
  let ?r = "longest_tail e s"
  have len: "str_len s = str_len p + str_len ?r" using arg_cong [OF p(1), of str_len] by simp
  have no: "\<not> is_char_boundary s k" if "str_len s - e \<le> k" "k < str_len p" for k
  proof
    assume "is_char_boundary s k"
    then obtain a b where ab: "s = a @ b" "k = str_len a" by (auto simp: boundary_iff)
    then obtain u where "a = p @ u \<and> ?r = u @ b \<or> p = a @ u \<and> b = u @ ?r"
      using append_eq_append_conv2 [THEN iffD1, of a b p ?r] p(1) by metis
    moreover have "\<not> (a = p @ u)" using that(2) ab(2) by auto
    moreover have "u \<noteq> []" if "p = a @ u" using that \<open>k < str_len p\<close> ab(2) by auto
    ultimately obtain u where u: "p = a @ u" "u \<noteq> []" by blast
    then have "str_len p = k + str_len (butlast u) + len_utf8 (last p)"
      using ab(2) append_butlast_last_id [of u] by (metis add.assoc add_0_right last_appendR str_len_simps)
    with u that len p(3) show False by auto
  qed
  have boundary: "is_char_boundary s (str_len p)" using p(1) by (auto simp: boundary_iff)
  have "ceil_boundary s k = Some (str_len p)" if "str_len s - e \<le> k" "k \<le> str_len p" for k
    using that
  proof (induction "str_len p - k" arbitrary: k)
    case 0
    with boundary show ?case by (simp add: ceil_boundary.simps)
  next
    case (Suc n)
    with no [of k] len show ?case by (subst ceil_boundary.simps) auto
  qed
  moreover have "str_len s - e \<le> str_len p" using len p(2) by simp
  moreover have "drop_bytes (str_len p) s = Some ?r" using drop_bytes_append [of p ?r] p(1) by simp
  ultimately show ?thesis by blast
qed

text \<open>The text of the reviewer: both ends around the marker, within the budget or the marker alone.\<close>

definition omitted_tokens :: "str \<Rightarrow> nat \<Rightarrow> nat" where
  "omitted_tokens s cap = token_budget (Bytes (str_len s - approx_bytes_for_tokens cap))"

lemma guardian_text_cut:
  assumes "approx_bytes_for_tokens cap < str_len s"
  shows "\<exists>left mid right. s = left @ mid @ right \<and> mid \<noteq> []
    \<and> guardian_text s cap = Some (left @ omission_marker (omitted_tokens s cap) @ right)
    \<and> str_len (left @ omission_marker (omitted_tokens s cap) @ right)
        \<le> max (approx_bytes_for_tokens cap) (str_len (omission_marker (omitted_tokens s cap)))"
proof -
  let ?m = "approx_bytes_for_tokens cap" and ?marker = "omission_marker (omitted_tokens s cap)"
  show ?thesis
  proof (cases "?m \<le> str_len ?marker")
    case True
    with assms have "guardian_text s cap = Some ([] @ ?marker @ [])"
      by (simp add: guardian_text_def omitted_tokens_def)
    moreover have "s = [] @ s @ []" "s \<noteq> []" using assms by auto
    ultimately show ?thesis by (metis append_Nil append_Nil2 max.cobounded2)
  next
    case False
    let ?a = "?m - str_len ?marker"
    let ?b = "?a div 2"
    let ?e = "?a - ?b"
    have "?b + ?e < str_len s" using assms by simp
    then obtain mid where mid: "s = longest_within ?b s @ mid @ longest_tail ?e s" "mid \<noteq> []"
      "str_len (longest_within ?b s) \<le> ?b" "str_len (longest_tail ?e s) \<le> ?e"
      by (rule split_middle)
    have "?e \<le> str_len s" using assms by simp
    from drop_ceil_boundary [OF this] obtain k where k: "ceil_boundary s (str_len s - ?e) = Some k"
      "drop_bytes k s = Some (longest_tail ?e s)" by blast
    have "guardian_text s cap = Some (longest_within ?b s @ ?marker @ longest_tail ?e s)"
      using assms False k take_floor_boundary [of s ?b]
      by (simp add: guardian_text_def omitted_tokens_def Let_def del: diff_diff_left)
    moreover have "str_len (longest_within ?b s @ ?marker @ longest_tail ?e s) \<le> ?m"
      using mid(3,4) False unfolding str_len_simps by linarith
    ultimately show ?thesis using mid(1,2) by (metis max.coboundedI1)
  qed
qed

section \<open>Tool outputs\<close>

fun is_media :: "output_content \<Rightarrow> bool" where
  "is_media (InputImage _ _) = True"
| "is_media (EncryptedContent _) = True"
| "is_media _ = False"

fun is_audio :: "output_content \<Rightarrow> bool" where
  "is_audio (InputAudio _) = True"
| "is_audio _ = False"

fun has_text :: "output_content \<Rightarrow> bool" where
  "has_text (InputText s) = (s \<noteq> [])"
| "has_text _ = False"

fun item_cost :: "truncation_policy \<Rightarrow> (str \<Rightarrow> nat) \<Rightarrow> output_content \<Rightarrow> nat" where
  "item_cost policy audio_tokens (InputText s) = text_cost policy s"
| "item_cost policy audio_tokens (InputAudio u) = audio_cost policy (audio_tokens u)"
| "item_cost policy audio_tokens _ = 0"

definition in_usize :: "output_content \<Rightarrow> bool" where
  "in_usize item = (case input_text item of Some s \<Rightarrow> str_len s + 3 \<le> USIZE_MAX | None \<Rightarrow> True)"

text \<open>What one pass over the items shows: the kept ones and at most one cut text.\<close>

definition shows_items ::
    "truncation_policy \<Rightarrow> (str \<Rightarrow> nat) \<Rightarrow> nat \<Rightarrow> output_content list
     \<Rightarrow> output_content list \<times> output_content list \<times> output_content list \<Rightarrow> nat \<Rightarrow> nat \<Rightarrow> bool" where
  "shows_items policy audio_tokens budget items shown texts audios \<longleftrightarrow>
     (case shown of (before, snippet, after) \<Rightarrow>
        subseq (before @ after) items
        \<and> sum_list (map (item_cost policy audio_tokens) (before @ after)) \<le> budget
        \<and> (snippet = [] \<or> (\<exists>s n. InputText s \<in> set items \<and> n < text_cost policy s
             \<and> snippet = [InputText (truncated_by (snippet_policy policy n) s)]))
        \<and> filter is_media (before @ after) = filter is_media items
        \<and> length (filter has_text (before @ snippet @ after)) + texts = length (filter has_text items)
        \<and> length (filter is_audio (before @ after)) + audios = length (filter is_audio items))"

lemma truncated_not_Nil:
  assumes "n < text_cost policy s" "0 < n"
  shows "truncated_by (snippet_policy policy n) s \<noteq> []"
proof -
  have "s \<noteq> []" using assms by (cases policy) (auto simp: text_cost_def approx_token_count_def sat_add_def APPROX_BYTES_PER_TOKEN_def)
  then show ?thesis
    by (simp add: truncated_by_def truncated_def Let_def format_truncation_marker_def ELLIPSIS_def)
qed

lemma scan_items_exhausted:
  "remaining_budget st = 0 \<Longrightarrow> \<exists>kept texts audios.
     scan_items policy audio_tokens items st = Some (st\<lparr>items_out := items_out st @ kept,
       omitted_text_items := omitted_text_items st + texts,
       omitted_audio_items := omitted_audio_items st + audios\<rparr>)
     \<and> shows_items policy audio_tokens 0 items (kept, [], []) texts audios"
proof (induction items arbitrary: st)
  case Nil
  then show ?case by (intro exI [of _ "[]"] exI [of _ 0]) (simp add: shows_items_def)
next
  case (Cons item items)
  show ?case
  proof (cases "is_media item \<or> (\<exists>u. item = InputAudio u \<and> audio_cost policy (audio_tokens u) = 0)")
    case True
    then have step: "scan_item policy audio_tokens item st = Some (st\<lparr>items_out := items_out st @ [item]\<rparr>)"
      using Cons.prems by (cases item) auto
    from Cons.IH [of "st\<lparr>items_out := items_out st @ [item]\<rparr>"] Cons.prems obtain kept texts audios where
      r: "scan_items policy audio_tokens items (st\<lparr>items_out := items_out st @ [item]\<rparr>)
        = Some (st\<lparr>items_out := items_out st @ item # kept, omitted_text_items := omitted_text_items st + texts,
           omitted_audio_items := omitted_audio_items st + audios\<rparr>)"
      "shows_items policy audio_tokens 0 items (kept, [], []) texts audios" by auto
    then have "shows_items policy audio_tokens 0 (item # items) (item # kept, [], []) texts audios"
      using True by (cases item) (auto simp: shows_items_def)
    with step r(1) show ?thesis by (intro exI [of _ "item # kept"]) auto
  next
    case False
    let ?t = "if has_text item then 1 else 0" and ?a = "if is_audio item then 1 else 0"
    let ?st = "st\<lparr>omitted_text_items := omitted_text_items st + ?t, omitted_audio_items := omitted_audio_items st + ?a\<rparr>"
    have step: "scan_item policy audio_tokens item st = Some ?st"
      using Cons.prems False by (cases item) auto
    from Cons.IH [of ?st] Cons.prems obtain kept texts audios where
      r: "scan_items policy audio_tokens items ?st
        = Some (?st\<lparr>items_out := items_out st @ kept, omitted_text_items := omitted_text_items st + ?t + texts,
           omitted_audio_items := omitted_audio_items st + ?a + audios\<rparr>)"
      "shows_items policy audio_tokens 0 items (kept, [], []) texts audios" by auto
    then have "shows_items policy audio_tokens 0 (item # items) (kept, [], []) (?t + texts) (?a + audios)"
      using False by (cases item) (auto simp: shows_items_def intro: subseq_Cons2)
    with step r(1) show ?thesis
      by (intro exI [of _ kept] exI [of _ "?t + texts"] exI [of _ "?a + audios"]) (auto simp: add.assoc)
  qed
qed

lemma shows_items_keep:
  assumes "shows_items policy audio_tokens (budget - item_cost policy audio_tokens item) items (before, snippet, after) texts audios"
    and "item_cost policy audio_tokens item \<le> budget" and "is_media item \<or> has_text item \<or> is_audio item"
  shows "shows_items policy audio_tokens budget (item # items) (item # before, snippet, after) texts audios"
  using assms by (cases item) (auto simp: shows_items_def)

lemma shows_items_drop:
  assumes "shows_items policy audio_tokens budget items (before, snippet, after) texts audios"
    and "\<not> is_media item"
  shows "shows_items policy audio_tokens budget (item # items) (before, snippet, after)
    ((if has_text item then 1 else 0) + texts) ((if is_audio item then 1 else 0) + audios)"
  using assms by (cases item) (auto simp: shows_items_def intro: subseq_Cons2)

lemma shows_items_cut:
  assumes "shows_items policy audio_tokens 0 items (kept, [], []) texts audios"
    and "n < text_cost policy s" "0 < n"
  shows "shows_items policy audio_tokens n (InputText s # items)
    ([], [InputText (truncated_by (snippet_policy policy n) s)], kept) texts audios"
proof -
  have "s \<noteq> []"
    using assms(2,3) by (cases policy) (auto simp: text_cost_def approx_token_count_def sat_add_def APPROX_BYTES_PER_TOKEN_def)
  moreover have "sum_list (map (item_cost policy audio_tokens) kept) \<le> n"
    using assms(1) unfolding shows_items_def by (simp del: sum_list_eq_0_iff)
  ultimately show ?thesis using assms truncated_not_Nil [OF assms(2,3)]
    unfolding shows_items_def by (auto intro: subseq_Cons2)
qed

lemma scan_items_shows:
  "list_all in_usize items \<Longrightarrow> \<exists>before snippet after texts audios left.
     scan_items policy audio_tokens items st = Some (st\<lparr>items_out := items_out st @ before @ snippet @ after,
       remaining_budget := left, omitted_text_items := omitted_text_items st + texts,
       omitted_audio_items := omitted_audio_items st + audios\<rparr>)
     \<and> shows_items policy audio_tokens (remaining_budget st) items (before, snippet, after) texts audios"
proof (induction items arbitrary: st)
  case Nil
  show ?case by (intro exI [of _ "[]"] exI [of _ 0] exI [of _ "remaining_budget st"]) (simp add: shows_items_def)
next
  case (Cons item items)
  let ?cost = "item_cost policy audio_tokens item" and ?r = "remaining_budget st"
  consider (exhausted) "?r = 0"
    | (kept) "0 < ?r" "?cost \<le> ?r" "is_media item \<or> has_text item \<or> is_audio item"
    | (cut) s where "0 < ?r" "item = InputText s" "s \<noteq> []" "?r < ?cost"
    | (dropped) "0 < ?r" "item = InputText [] \<or> is_audio item \<and> ?r < ?cost"
    by (cases item) force+
  then show ?case
  proof cases
    case exhausted
    from scan_items_exhausted [OF exhausted] obtain kept texts audios where
      "scan_items policy audio_tokens (item # items) st = Some (st\<lparr>items_out := items_out st @ kept,
         omitted_text_items := omitted_text_items st + texts, omitted_audio_items := omitted_audio_items st + audios\<rparr>)"
      "shows_items policy audio_tokens 0 (item # items) (kept, [], []) texts audios" by blast
    with exhausted show ?thesis
      by (intro exI [of _ kept] exI [of _ "[]"] exI [of _ texts] exI [of _ audios] exI [of _ 0]) simp
  next
    case kept
    let ?st = "st\<lparr>items_out := items_out st @ [item], remaining_budget := ?r - ?cost\<rparr>"
    have step: "scan_item policy audio_tokens item st = Some ?st" using kept by (cases item) (auto simp: Let_def)
    from Cons.IH [of ?st] Cons.prems obtain before snippet after texts audios left where
      "scan_items policy audio_tokens items ?st = Some (?st\<lparr>items_out := items_out st @ item # before @ snippet @ after,
         remaining_budget := left, omitted_text_items := omitted_text_items st + texts,
         omitted_audio_items := omitted_audio_items st + audios\<rparr>)"
      "shows_items policy audio_tokens (?r - ?cost) items (before, snippet, after) texts audios" by auto
    with step shows_items_keep [OF this(2) kept(2,3)] show ?thesis
      by (intro exI [of _ "item # before"] exI [of _ snippet] exI [of _ after] exI [of _ texts]
          exI [of _ audios] exI [of _ left]) simp
  next
    case cut
    let ?t = "truncated_by (snippet_policy policy ?r) s"
    let ?st = "st\<lparr>items_out := items_out st @ [InputText ?t], remaining_budget := 0\<rparr>"
    have "str_len s + 3 \<le> USIZE_MAX" using Cons.prems cut(2) by (simp add: in_usize_def)
    then have step: "scan_item policy audio_tokens item st = Some ?st"
      using cut truncated_not_Nil [of ?r policy s] by (simp add: truncate_text_eq)
    from scan_items_exhausted [of ?st policy audio_tokens items] obtain kept texts audios where
      r: "scan_items policy audio_tokens items ?st = Some (?st\<lparr>items_out := items_out st @ InputText ?t # kept,
         omitted_text_items := omitted_text_items st + texts, omitted_audio_items := omitted_audio_items st + audios\<rparr>)"
      "shows_items policy audio_tokens 0 items (kept, [], []) texts audios" by auto
    from shows_items_cut [OF r(2), of ?r s] cut have
      "shows_items policy audio_tokens ?r (item # items) ([], [InputText ?t], kept) texts audios" by simp
    with step r(1) show ?thesis
      by (intro exI [of _ "[]"] exI [of _ "[InputText ?t]"] exI [of _ kept] exI [of _ texts]
          exI [of _ audios] exI [of _ 0]) simp
  next
    case dropped
    let ?a = "if is_audio item then 1 else 0"
    let ?st = "st\<lparr>omitted_audio_items := omitted_audio_items st + ?a\<rparr>"
    have step: "scan_item policy audio_tokens item st = Some ?st" "\<not> is_media item" "\<not> has_text item"
      using dropped by (cases item; auto simp: Let_def)+
    from Cons.IH [of ?st] Cons.prems obtain before snippet after texts audios left where
      r: "scan_items policy audio_tokens items ?st = Some (?st\<lparr>items_out := items_out st @ before @ snippet @ after,
         remaining_budget := left, omitted_text_items := omitted_text_items st + texts,
         omitted_audio_items := omitted_audio_items st + ?a + audios\<rparr>)"
      "shows_items policy audio_tokens ?r items (before, snippet, after) texts audios" by auto
    from shows_items_drop [OF r(2) step(2)] step(3)
    have "shows_items policy audio_tokens ?r (item # items) (before, snippet, after) texts (?a + audios)" by simp
    with step(1) r(1) show ?thesis
      by (intro exI [of _ before] exI [of _ snippet] exI [of _ after] exI [of _ texts]
          exI [of _ "?a + audios"] exI [of _ left]) (simp add: add.assoc)
  qed
qed

lemma scan_items_all:
  "sum_list (map (item_cost policy audio_tokens) items) \<le> remaining_budget st \<Longrightarrow>
   \<exists>left. scan_items policy audio_tokens items st = Some (st\<lparr>items_out :=
      items_out st @ filter (\<lambda>item. item \<noteq> InputText []) items, remaining_budget := left\<rparr>)"
proof (induction items arbitrary: st)
  case Nil
  show ?case by (intro exI [of _ "remaining_budget st"]) simp
next
  case (Cons item items)
  let ?st = "st\<lparr>items_out := items_out st @ [item], remaining_budget := remaining_budget st - item_cost policy audio_tokens item\<rparr>"
  have cost: "0 < text_cost policy s" if "s \<noteq> []" for s
  proof -
    have "0 < str_len s" using that by (cases s) auto
    then show ?thesis
      by (cases policy) (simp_all add: text_cost_def approx_token_count_def sat_add_def
          APPROX_BYTES_PER_TOKEN_def USIZE_MAX_def div_greater_zero_iff)
  qed
  show ?case
  proof (cases "item = InputText []")
    case True
    with Cons.IH [of st] Cons.prems show ?thesis by simp
  next
    case False
    then have "scan_item policy audio_tokens item st = Some ?st"
      using Cons.prems cost [of "the (input_text item)"] by (cases item) (auto simp: Let_def)
    with False Cons.IH [of ?st] Cons.prems show ?thesis by auto
  qed
qed

section \<open>Properties\<close>

text \<open>
  A text within the budget stays as it is; of a longer one the beginning and the end stay,
  whole characters and as many as the two halves of the budget hold, around a marker that
  says how many characters, or for a budget in tokens how many tokens, are missing. No slice
  cuts a character.
\<close>

theorem truncated_text_keeps_ends:
  assumes "str_len s + 3 \<le> USIZE_MAX"
  shows "\<exists>t. truncate_text s policy = Some t \<and>
    (if str_len s \<le> byte_budget policy then t = s
     else \<exists>left mid right. s = left @ mid @ right \<and> mid \<noteq> []
       \<and> t = left @ (case policy of
                Bytes m \<Rightarrow> format_truncation_marker False (length mid)
              | Tokens n \<Rightarrow> format_truncation_marker True ((str_len s - byte_budget policy + 3) div 4)) @ right
       \<and> str_len left \<le> byte_budget policy div 2 \<and> str_len (left @ right) \<le> byte_budget policy
       \<and> byte_budget policy < str_len (left @ right) + 8)"
proof (cases "str_len s \<le> byte_budget policy")
  case True
  with truncate_text_eq [OF assms, of policy] show ?thesis by (simp add: truncated_by_def truncated_def)
next
  case False
  let ?tokens = "case policy of Bytes m \<Rightarrow> False | Tokens n \<Rightarrow> True"
  from False have "byte_budget policy < str_len s" by simp
  then obtain left mid right n where ends: "s = left @ mid @ right" "mid \<noteq> []"
    "truncated s (byte_budget policy) ?tokens = left @ format_truncation_marker ?tokens n @ right"
    "n = (if ?tokens then (str_len s - byte_budget policy + 3) div 4 else length mid)"
    "str_len left \<le> byte_budget policy div 2" "str_len right \<le> byte_budget policy - byte_budget policy div 2"
    "byte_budget policy < str_len (left @ right) + 8" by (rule truncated_ends)
  have "truncated_by policy s = left @ (case policy of
                Bytes m \<Rightarrow> format_truncation_marker False (length mid)
              | Tokens n \<Rightarrow> format_truncation_marker True ((str_len s - byte_budget policy + 3) div 4)) @ right"
    using ends(3,4) by (cases policy) (simp_all only: truncated_by_def truncation_policy.case if_True if_False)
  moreover have "str_len (left @ right) \<le> byte_budget policy"
    using ends(5,6) unfolding str_len_simps by linarith
  ultimately show ?thesis
    using False truncate_text_eq [OF assms, of policy] ends(1,2,5,7) unfolding if_not_P [OF False] by blast
qed

theorem truncated_text_keeps_ends_witness:
  "\<exists>left mid right. [97, 233, 98, 99, 233, 100] = left @ mid @ right \<and> mid \<noteq> []
     \<and> truncate_text [97, 233, 98, 99, 233, 100] (Bytes 5) = Some (left @ format_truncation_marker False (length mid) @ right)"
  using truncated_text_keeps_ends [of "[97, 233, 98, 99, 233, 100]" "Bytes 5"]
  by (auto simp: len_utf8_def USIZE_MAX_def)

text \<open>
  C32. The items of a tool output: what is kept whole is in order, costs no more than the
  budget and has all images and encrypted contents; at most one text is cut; every other
  text, unless empty, and every other audio is counted in a notice. An output that costs no
  more than the budget loses only its empty texts.
\<close>

theorem tool_output_within_budget:
  assumes "list_all in_usize items"
  shows "\<exists>before snippet after texts audios.
    truncate_function_output_items_with_policy items policy audio_tokens
      = Some (before @ snippet @ after @ omission_notices texts audios)
    \<and> shows_items policy audio_tokens (start_budget policy) items (before, snippet, after) texts audios
    \<and> (sum_list (map (item_cost policy audio_tokens) items) \<le> start_budget policy \<longrightarrow>
         truncate_function_output_items_with_policy items policy audio_tokens
           = Some (filter (\<lambda>item. item \<noteq> InputText []) items))"
proof -
  let ?st = "\<lparr>items_out = [], remaining_budget = start_budget policy, omitted_text_items = 0, omitted_audio_items = 0\<rparr>"
  from scan_items_shows [OF assms, of policy audio_tokens ?st]
  obtain before snippet after texts audios left where
    "scan_items policy audio_tokens items ?st = Some (?st\<lparr>items_out := before @ snippet @ after,
       remaining_budget := left, omitted_text_items := texts, omitted_audio_items := audios\<rparr>)"
    "shows_items policy audio_tokens (start_budget policy) items (before, snippet, after) texts audios" by auto
  moreover from scan_items_all [of policy audio_tokens items ?st]
  have "sum_list (map (item_cost policy audio_tokens) items) \<le> start_budget policy \<longrightarrow>
      truncate_function_output_items_with_policy items policy audio_tokens
        = Some (filter (\<lambda>item. item \<noteq> InputText []) items)"
    by (auto simp: truncate_function_output_items_with_policy_def omission_notices_def)
  ultimately show ?thesis
    by (intro exI [of _ before] exI [of _ snippet] exI [of _ after] exI [of _ texts] exI [of _ audios])
       (simp add: truncate_function_output_items_with_policy_def)
qed

theorem tool_output_within_budget_witness:
  "\<exists>before snippet after texts audios.
    truncate_function_output_items_with_policy [InputText [97, 98, 99], InputImage [] None, InputText [97]]
      (Bytes 2) (\<lambda>_. 1) = Some (before @ snippet @ after @ omission_notices texts audios)
    \<and> filter is_media (before @ after) = [InputImage [] None]"
proof -
  have "list_all in_usize [InputText [97, 98, 99], InputImage [] None, InputText [97]]"
    by (simp add: in_usize_def len_utf8_def USIZE_MAX_def)
  from tool_output_within_budget [OF this, of "Bytes 2" "\<lambda>_. 1"]
  obtain before snippet after texts audios where
    r: "truncate_function_output_items_with_policy [InputText [97, 98, 99], InputImage [] None, InputText [97]]
      (Bytes 2) (\<lambda>_. 1) = Some (before @ snippet @ after @ omission_notices texts audios)"
    and "shows_items (Bytes 2) (\<lambda>_. 1) (start_budget (Bytes 2))
      [InputText [97, 98, 99], InputImage [] None, InputText [97]] (before, snippet, after) texts audios"
    by blast
  from this(2) have "filter is_media (before @ after) = [InputImage [] None]" by (simp add: shows_items_def)
  with r show ?thesis by blast
qed

text \<open>
  The reviewer's truncation returns for every text and budget: the text itself if it fits,
  or its two ends around the marker with the omitted tokens, which is no longer than the
  budget, or the marker alone when the budget does not hold it; it says whether it cut.
\<close>

theorem reviewer_text_bounded:
  "\<exists>t cut. guardian_truncate_text s cap = Some (t, cut) \<and>
     (if cut then
        str_len t \<le> max (approx_bytes_for_tokens cap) (str_len (omission_marker (omitted_tokens s cap)))
        \<and> (\<exists>left mid right. s = left @ mid @ right \<and> mid \<noteq> []
             \<and> t = left @ omission_marker (omitted_tokens s cap) @ right)
      else t = s \<and> str_len s \<le> approx_bytes_for_tokens cap)"
proof (cases "approx_bytes_for_tokens cap < str_len s")
  case True
  from guardian_text_cut [OF this] obtain left mid right where
    "s = left @ mid @ right" "mid \<noteq> []"
    "guardian_text s cap = Some (left @ omission_marker (omitted_tokens s cap) @ right)"
    "str_len (left @ omission_marker (omitted_tokens s cap) @ right)
       \<le> max (approx_bytes_for_tokens cap) (str_len (omission_marker (omitted_tokens s cap)))" by blast
  with True show ?thesis
    by (intro exI [of _ "left @ omission_marker (omitted_tokens s cap) @ right"] exI [of _ True])
       (simp add: guardian_truncate_text_def, blast)
next
  case False
  then show ?thesis
    by (intro exI [of _ s] exI [of _ False]) (simp add: guardian_truncate_text_def guardian_text_def)
qed

end
