(* ===== verification/RetainedContext.thy ===== *)
theory RetainedContext
  imports TruncationCorrect ResponseItem
begin

text \<open>
  \<open>history/src/retained_context.rs\<close>: the facts the host keeps outside of the model's
  history, bounded in number and size, so that a reviewer knows what the user said and
  answered. How many bytes \<open>serde_json\<close> writes for a record is an argument, \<open>None\<close> if it
  fails; for a family of records it writes an array. A \<open>u64\<close> is a \<open>nat\<close> with saturating
  operations.
\<close>

section \<open>Records\<close>

definition MAX_FAMILY_RECORDS :: nat where "MAX_FAMILY_RECORDS = 8"
definition MAX_RECORD_BYTES :: nat where "MAX_RECORD_BYTES = 16384"
definition MAX_FAMILY_BYTES :: nat where "MAX_FAMILY_BYTES = 65536"

record verified_question_answer =
  question :: str
  answer_text :: str

record verified_answer =
  va_turn_id :: str
  va_call_id :: str
  questions :: "verified_question_answer list"

record retained_user_message =
  um_turn_id :: str
  message_id :: "str option"
  um_text :: str
  complete :: bool

datatype retained_input_source = LocalInput "nat option" | InheritedInput

fun acceptance_order :: "retained_input_source \<Rightarrow> nat option" where
  "acceptance_order (LocalInput n) = n"
| "acceptance_order InheritedInput = None"

definition source_of :: "harness_metadata option \<Rightarrow> retained_input_source" where
  "source_of metadata =
     (if (case metadata of Some m \<Rightarrow> inherited_user_message m | None \<Rightarrow> False) then InheritedInput
      else LocalInput (Option.bind metadata user_input_order))"

text \<open>The inherited prefix comes before what is local; the derived order is an instance.\<close>

datatype retained_order = Inherited nat | Local nat

instantiation retained_order :: linorder
begin

fun less_eq_retained_order :: "retained_order \<Rightarrow> retained_order \<Rightarrow> bool" where
  "less_eq_retained_order (Inherited a) (Inherited b) \<longleftrightarrow> a \<le> b"
| "less_eq_retained_order (Inherited a) (Local b) \<longleftrightarrow> True"
| "less_eq_retained_order (Local a) (Inherited b) \<longleftrightarrow> False"
| "less_eq_retained_order (Local a) (Local b) \<longleftrightarrow> a \<le> b"

definition less_retained_order :: "retained_order \<Rightarrow> retained_order \<Rightarrow> bool" where
  "less_retained_order a b \<longleftrightarrow> a \<le> b \<and> \<not> b \<le> (a :: retained_order)"

instance
proof
  fix a b c :: retained_order
  show "a < b \<longleftrightarrow> a \<le> b \<and> \<not> b \<le> a" by (rule less_retained_order_def)
  show "a \<le> a" by (cases a) auto
  show "a \<le> b \<Longrightarrow> b \<le> c \<Longrightarrow> a \<le> c" by (cases a; cases b; cases c) auto
  show "a \<le> b \<Longrightarrow> b \<le> a \<Longrightarrow> a = b" by (cases a; cases b) auto
  show "a \<le> b \<or> b \<le> a" by (cases a; cases b) auto
qed

end

record 'a ordered =
  inherited :: bool
  order :: nat
  value_of :: 'a

definition key :: "'a ordered \<Rightarrow> retained_order" where
  "key e = (if inherited e then Inherited (order e) else Local (order e))"

datatype retained_entry = UserMessageEntry retained_user_message | VerifiedAnswerEntry verified_answer

record retained_event =
  event_answer :: verified_answer
  event_order :: "nat option"

record retained_context =
  verified_answers :: "verified_answer ordered list"
  verified_answers_incomplete :: bool
  user_messages :: "retained_user_message ordered list"
  user_messages_incomplete :: bool
  next_order :: nat

definition default_retained :: retained_context where
  "default_retained = \<lparr>verified_answers = [], verified_answers_incomplete = False,
     user_messages = [], user_messages_incomplete = False, next_order = 0\<rparr>"

text \<open>The bytes of a record, of an answer and of a message in JSON.\<close>

record json_sizes =
  answer_entry_bytes :: "verified_answer ordered \<Rightarrow> nat option"
  message_entry_bytes :: "retained_user_message ordered \<Rightarrow> nat option"
  answer_bytes :: "verified_answer \<Rightarrow> nat option"
  message_bytes :: "retained_user_message \<Rightarrow> nat option"

section \<open>Bounds\<close>

text \<open>An array is its elements, separated by commas, in brackets.\<close>

fun elements_bytes :: "('a \<Rightarrow> nat option) \<Rightarrow> 'a list \<Rightarrow> nat option" where
  "elements_bytes bytes [] = Some 0"
| "elements_bytes bytes (x # xs) =
     (case (bytes x, elements_bytes bytes xs) of
        (Some m, Some n) \<Rightarrow> Some (m + (if xs = [] then 0 else 1) + n)
      | _ \<Rightarrow> None)"

definition array_bytes :: "('a \<Rightarrow> nat option) \<Rightarrow> 'a list \<Rightarrow> nat option" where
  "array_bytes bytes xs = map_option (\<lambda>n. n + 2) (elements_bytes bytes xs)"

definition exceeds :: "nat option \<Rightarrow> nat \<Rightarrow> bool" where
  "exceeds bytes m = (case bytes of Some n \<Rightarrow> m < n | None \<Rightarrow> True)"

text \<open>The loop of \<open>bound_family\<close>: an empty family is never over the limit.\<close>

fun evict :: "('a ordered \<Rightarrow> nat option) \<Rightarrow> 'a ordered list \<Rightarrow> bool \<Rightarrow> 'a ordered list \<times> bool" where
  "evict bytes [] incomplete = ([], incomplete)"
| "evict bytes (e # es) incomplete =
     (if MAX_FAMILY_RECORDS < length (e # es) \<or> exceeds (array_bytes bytes (e # es)) MAX_FAMILY_BYTES
      then evict bytes es True
      else (e # es, incomplete))"

definition bound_family ::
    "('a ordered \<Rightarrow> nat option) \<Rightarrow> 'a ordered list \<Rightarrow> bool \<Rightarrow> 'a ordered list \<times> bool" where
  "bound_family bytes items incomplete = evict bytes (sort_key key items) incomplete"

text \<open>\<open>truncate(floor_char_boundary(n))\<close> is the longest beginning of whole characters in
  \<open>n\<close> bytes, see \<open>floor_char_boundary_truncates\<close>.\<close>

definition floor_char_boundary :: "str \<Rightarrow> nat \<Rightarrow> nat" where
  "floor_char_boundary s n = (if str_len s \<le> n then str_len s else floor_boundary s n)"

definition truncate_id :: "str \<Rightarrow> str" where
  "truncate_id s = longest_within 1024 s"

definition bound_message :: "json_sizes \<Rightarrow> retained_user_message \<Rightarrow> retained_user_message" where
  "bound_message js m =
     (if exceeds (message_bytes js m) MAX_RECORD_BYTES then
        m\<lparr>um_text := [], complete := False, um_turn_id := truncate_id (um_turn_id m),
          message_id := map_option truncate_id (message_id m)\<rparr>
      else m)"

definition bound_answer :: "json_sizes \<Rightarrow> verified_answer \<Rightarrow> verified_answer" where
  "bound_answer js a =
     (if exceeds (answer_bytes js a) MAX_RECORD_BYTES then
        a\<lparr>questions := [], va_turn_id := truncate_id (va_turn_id a), va_call_id := truncate_id (va_call_id a)\<rparr>
      else a)"

definition bound_answers :: "json_sizes \<Rightarrow> retained_context \<Rightarrow> retained_context" where
  "bound_answers js ctx =
     (case bound_family (answer_entry_bytes js) (verified_answers ctx) (verified_answers_incomplete ctx) of
        (items, incomplete) \<Rightarrow> ctx\<lparr>verified_answers := items, verified_answers_incomplete := incomplete\<rparr>)"

definition bound_messages :: "json_sizes \<Rightarrow> retained_context \<Rightarrow> retained_context" where
  "bound_messages js ctx =
     (case bound_family (message_entry_bytes js) (user_messages ctx) (user_messages_incomplete ctx) of
        (items, incomplete) \<Rightarrow> ctx\<lparr>user_messages := items, user_messages_incomplete := incomplete\<rparr>)"

section \<open>Operations\<close>

definition reserve_order :: "retained_context \<Rightarrow> retained_context \<times> nat" where
  "reserve_order ctx = (ctx\<lparr>next_order := sat_add (next_order ctx) 1\<rparr>, next_order ctx)"

definition record_order :: "nat option \<Rightarrow> retained_context \<Rightarrow> retained_context \<times> nat" where
  "record_order accepted ctx =
     (let n = (case accepted of Some n \<Rightarrow> n | None \<Rightarrow> next_order ctx)
      in (ctx\<lparr>next_order := max (next_order ctx) (sat_add n 1)\<rparr>, n))"

definition verified_answers_complete :: "retained_context \<Rightarrow> bool" where
  "verified_answers_complete ctx \<longleftrightarrow> \<not> verified_answers_incomplete ctx
     \<and> list_all (\<lambda>e. questions (value_of e) \<noteq> []) (verified_answers ctx)"

definition has_missing_user_messages :: "retained_context \<Rightarrow> bool" where
  "has_missing_user_messages ctx = user_messages_incomplete ctx"

definition user_messages_complete :: "retained_context \<Rightarrow> bool" where
  "user_messages_complete ctx \<longleftrightarrow> \<not> has_missing_user_messages ctx
     \<and> list_all (\<lambda>e. complete (value_of e)) (user_messages ctx)"

definition mark_user_messages_incomplete :: "retained_context \<Rightarrow> retained_context" where
  "mark_user_messages_incomplete ctx = ctx\<lparr>user_messages_incomplete := True\<rparr>"

definition has_inherited_user_messages :: "retained_context \<Rightarrow> bool" where
  "has_inherited_user_messages ctx \<longleftrightarrow> list_ex inherited (user_messages ctx)"

definition ordered_entries :: "retained_context \<Rightarrow> (retained_order \<times> retained_entry) list" where
  "ordered_entries ctx =
     sort_key fst
       (map (\<lambda>e. (key e, VerifiedAnswerEntry (value_of e))) (verified_answers ctx)
        @ map (\<lambda>e. (key e, UserMessageEntry (value_of e))) (user_messages ctx))"

text \<open>\<open>position\<close> with \<open>remove\<close> of that index.\<close>

fun remove_first :: "('a \<Rightarrow> bool) \<Rightarrow> 'a list \<Rightarrow> 'a list" where
  "remove_first P [] = []"
| "remove_first P (x # xs) = (if P x then xs else x # remove_first P xs)"

definition same_message :: "retained_user_message \<Rightarrow> retained_user_message ordered \<Rightarrow> bool" where
  "same_message m e \<longleftrightarrow> message_id m \<noteq> None \<and> message_id (value_of e) = message_id m"

definition inherited_order :: "retained_user_message ordered list \<Rightarrow> nat" where
  "inherited_order ms = fold max (map (\<lambda>e. sat_add (order e) 1) (filter inherited ms)) 0"

definition add_message ::
    "json_sizes \<Rightarrow> retained_user_message \<Rightarrow> retained_input_source \<Rightarrow> retained_context \<Rightarrow> retained_context" where
  "add_message js message source ctx =
     (let from_parent = (source = InheritedInput);
          (ctx, n) = (if from_parent then (ctx, inherited_order (user_messages ctx))
                      else record_order (acceptance_order source) ctx)
      in bound_messages js (ctx\<lparr>user_messages := user_messages ctx
           @ [\<lparr>inherited = from_parent, order = n, value_of = message\<rparr>]\<rparr>))"

definition record_user_message ::
    "json_sizes \<Rightarrow> retained_user_message \<Rightarrow> retained_input_source \<Rightarrow> retained_context \<Rightarrow> retained_context" where
  "record_user_message js message source ctx =
     (let message = bound_message js message;
          from_parent = (source = InheritedInput);
          ctx = ctx\<lparr>verified_answers_incomplete := verified_answers_incomplete ctx \<or> from_parent\<rparr>
      in case List.find (same_message message) (user_messages ctx) of
           Some e \<Rightarrow>
             (if value_of e = message \<and> inherited e = from_parent then ctx
              else add_message js message source
                (ctx\<lparr>user_messages := remove_first (same_message message) (user_messages ctx)\<rparr>))
         | None \<Rightarrow> add_message js message source ctx)"

definition recover_excerpt ::
    "json_sizes \<Rightarrow> (str \<Rightarrow> str option) \<Rightarrow> retained_user_message \<Rightarrow> retained_user_message" where
  "recover_excerpt js excerpt_for_id m =
     (if um_text m = [] \<and> \<not> complete m then
        (case Option.bind (message_id m) excerpt_for_id of
           Some t \<Rightarrow> bound_message js (m\<lparr>um_text := t\<rparr>)
         | None \<Rightarrow> m)
      else m)"

definition recover_user_message_excerpts ::
    "json_sizes \<Rightarrow> (str \<Rightarrow> str option) \<Rightarrow> retained_context \<Rightarrow> retained_context" where
  "recover_user_message_excerpts js excerpt_for_id ctx =
     bound_messages js (ctx\<lparr>user_messages :=
       map (\<lambda>e. e\<lparr>value_of := recover_excerpt js excerpt_for_id (value_of e)\<rparr>) (user_messages ctx)\<rparr>)"

definition same_answer :: "verified_answer \<Rightarrow> verified_answer ordered \<Rightarrow> bool" where
  "same_answer a e \<longleftrightarrow> va_turn_id (value_of e) = va_turn_id a \<and> va_call_id (value_of e) = va_call_id a"

definition add_answer ::
    "json_sizes \<Rightarrow> verified_answer \<Rightarrow> nat option \<Rightarrow> retained_context \<Rightarrow> retained_context" where
  "add_answer js a accepted ctx =
     (case record_order accepted ctx of
        (ctx, n) \<Rightarrow> bound_answers js (ctx\<lparr>verified_answers := verified_answers ctx
          @ [\<lparr>inherited = False, order = n, value_of = a\<rparr>]\<rparr>))"

definition record_event :: "json_sizes \<Rightarrow> retained_event \<Rightarrow> retained_context \<Rightarrow> retained_context \<times> bool" where
  "record_event js event ctx =
     (let a = bound_answer js (event_answer event)
      in case List.find (same_answer a) (verified_answers ctx) of
           Some e \<Rightarrow>
             (if value_of e = a then (ctx, False)
              else (add_answer js a (event_order event)
                      (ctx\<lparr>verified_answers := remove_first (same_answer a) (verified_answers ctx)\<rparr>), True))
         | None \<Rightarrow> (add_answer js a (event_order event) ctx, True))"

text \<open>The three loops of \<open>restore\<close>.\<close>

definition advance_past :: "nat \<Rightarrow> retained_context \<Rightarrow> retained_context" where
  "advance_past n ctx = ctx\<lparr>next_order := max (next_order ctx) (sat_add n 1)\<rparr>"

definition restore_answer :: "verified_answer ordered \<Rightarrow> retained_context \<Rightarrow> retained_context" where
  "restore_answer e ctx = advance_past (order e) ctx"

definition restore_message :: "retained_user_message ordered \<Rightarrow> retained_context \<Rightarrow> retained_context" where
  "restore_message e ctx =
     (let ctx = ctx\<lparr>verified_answers_incomplete := verified_answers_incomplete ctx \<or> inherited e\<rparr>
      in if \<not> inherited e then advance_past (order e) ctx else ctx)"

definition surviving_orders :: "'j envelope list \<Rightarrow> nat list" where
  "surviving_orders items =
     List.map_filter (\<lambda>e. Option.bind (env_metadata e)
       (\<lambda>m. if \<not> inherited_user_message m then user_input_order m else None)) items"

definition restore ::
    "json_sizes \<Rightarrow> retained_context option \<Rightarrow> 'j envelope list \<Rightarrow> retained_context" where
  "restore js checkpoint surviving_items =
     (let ctx = (case checkpoint of Some c \<Rightarrow> c
                 | None \<Rightarrow> default_retained\<lparr>user_messages_incomplete := True\<rparr>);
          ctx = fold restore_answer (verified_answers ctx)
            (ctx\<lparr>verified_answers := map (\<lambda>e. e\<lparr>value_of := bound_answer js (value_of e)\<rparr>) (verified_answers ctx)\<rparr>);
          ctx = fold restore_message (user_messages ctx)
            (ctx\<lparr>user_messages := map (\<lambda>e. e\<lparr>value_of := bound_message js (value_of e)\<rparr>) (user_messages ctx)\<rparr>);
          ctx = fold advance_past (surviving_orders surviving_items) ctx
      in bound_messages js (bound_answers js ctx))"

definition retain_answers :: "(verified_answer \<Rightarrow> bool) \<Rightarrow> retained_context \<Rightarrow> retained_context" where
  "retain_answers keep ctx = ctx\<lparr>verified_answers := filter (\<lambda>e. keep (value_of e)) (verified_answers ctx)\<rparr>"

definition rollback_boundary ::
    "str option \<Rightarrow> retained_input_source \<Rightarrow> retained_context \<Rightarrow> retained_order option" where
  "rollback_boundary first_removed_message_id source ctx =
     (case acceptance_order source of
        Some n \<Rightarrow> Some (Local n)
      | None \<Rightarrow>
          Option.bind first_removed_message_id (\<lambda>i.
            map_option key (List.find (\<lambda>e. message_id (value_of e) = Some i) (user_messages ctx))))"

definition rollback ::
    "str list \<Rightarrow> str option \<Rightarrow> retained_input_source \<Rightarrow> retained_context \<Rightarrow> retained_context" where
  "rollback turn_ids first_removed_message_id source ctx =
     (case rollback_boundary first_removed_message_id source ctx of
        Some boundary \<Rightarrow>
          ctx\<lparr>verified_answers := filter (\<lambda>e. key e < boundary) (verified_answers ctx),
              user_messages := filter (\<lambda>e. key e < boundary) (user_messages ctx)\<rparr>
      | None \<Rightarrow>
          ctx\<lparr>user_messages_incomplete := user_messages_incomplete ctx
                \<or> first_removed_message_id \<noteq> None
                \<or> list_ex (\<lambda>e. um_turn_id (value_of e) \<in> set turn_ids) (user_messages ctx),
              verified_answers := filter (\<lambda>e. source \<noteq> InheritedInput
                \<and> va_turn_id (value_of e) \<notin> set turn_ids) (verified_answers ctx),
              user_messages := filter (\<lambda>e. (source \<noteq> InheritedInput \<or> inherited e)
                \<and> um_turn_id (value_of e) \<notin> set turn_ids) (user_messages ctx)\<rparr>)"

end
