(* ===== verification/RolloutPayload.thy ===== *)
theory RolloutPayload
  imports TokenEstimate RetainedContext
begin

text \<open>
  \<open>history/src/rollout_payload.rs\<close>: how a compaction checkpoint is written to a rollout and read
  back. Inline images that an earlier checkpoint already holds are left out of a later one. What
  the checkpoint only carries along is of types that are arguments; \<open>serde\<close> writes and reads the
  wire form itself.
\<close>

section \<open>Inline images\<close>

definition is_inline_base64_image_url :: "str \<Rightarrow> bool" where
  "is_inline_base64_image_url url =
     (has_prefix_ignore_case (lit ''data:'') url
      \<and> (case split_once 44 url of
           None \<Rightarrow> False
         | Some (metadata, _) \<Rightarrow>
             (case drop_bytes (str_len (lit ''data:'')) metadata of
                None \<Rightarrow> False
              | Some metadata \<Rightarrow>
                  (case split_on 59 metadata of
                     [] \<Rightarrow> False
                   | mime_type # parts \<Rightarrow>
                       has_prefix_ignore_case (lit ''image/'') mime_type
                       \<and> list_ex (\<lambda>p. eq_ignore_ascii_case p (lit ''base64'')) parts))))"

fun inline_content :: "content_item \<Rightarrow> bool" where
  "inline_content (InputImage image_url _) = is_inline_base64_image_url image_url"
| "inline_content _ = False"

fun inline_output :: "output_content \<Rightarrow> bool" where
  "inline_output (output_content.InputImage image_url _) = is_inline_base64_image_url image_url"
| "inline_output _ = False"

fun has_inline_base64_images :: "'j response_item \<Rightarrow> bool" where
  "has_inline_base64_images (Message _ _ content _ _) = list_ex inline_content content"
| "has_inline_base64_images (FunctionCallOutput _ _ _ _ out _) = list_ex inline_output (output_items out)"
| "has_inline_base64_images (CustomToolCallOutput _ _ _ out _) = list_ex inline_output (output_items out)"
| "has_inline_base64_images _ = False"

definition PRUNED_INLINE_IMAGE_TEXT :: str where
  "PRUNED_INLINE_IMAGE_TEXT = lit ''[inline base64 image payload pruned after repeated context compaction]''"

definition prune_content :: "content_item \<Rightarrow> content_item" where
  "prune_content c = (if inline_content c then InputText PRUNED_INLINE_IMAGE_TEXT else c)"

definition prune_output :: "output_payload \<Rightarrow> output_payload" where
  "prune_output out =
     (case body out of
        Text _ \<Rightarrow> out
      | ContentItems items \<Rightarrow>
          out\<lparr>body := ContentItems
            (map (\<lambda>c. if inline_output c then output_content.InputText PRUNED_INLINE_IMAGE_TEXT else c) items)\<rparr>)"

text \<open>The item after \<open>prune_inline_base64_images\<close>.\<close>

fun prune_inline_base64_images :: "'j response_item \<Rightarrow> 'j response_item" where
  "prune_inline_base64_images (Message i role content phase m) = Message i role (map prune_content content) phase m"
| "prune_inline_base64_images (FunctionCallOutput i c n ns out m) = FunctionCallOutput i c n ns (prune_output out) m"
| "prune_inline_base64_images (CustomToolCallOutput i c n out m) = CustomToolCallOutput i c n (prune_output out) m"
| "prune_inline_base64_images i = i"

definition persisted_response_item :: "'j response_item \<Rightarrow> bool \<Rightarrow> 'j response_item" where
  "persisted_response_item i prune = (if prune then prune_inline_base64_images i else i)"

section \<open>Marks of \<open>history/src/lib.rs\<close>\<close>

definition default_metadata :: harness_metadata where
  "default_metadata = \<lparr>client_authored = False, fallback_token_limit_override = None,
     inline_images_persisted = False, harness_authored_configuration = False,
     compaction_model_hash = None, user_input_order = None, inherited_user_message = False\<rparr>"

definition images_persisted :: "'j envelope \<Rightarrow> bool" where
  "images_persisted e = (case env_metadata e of Some m \<Rightarrow> inline_images_persisted m | None \<Rightarrow> False)"

definition mark_images :: "'j envelope \<Rightarrow> 'j envelope" where
  "mark_images e =
     (if has_inline_base64_images (item e) then
        e\<lparr>env_metadata := Some ((case env_metadata e of Some m \<Rightarrow> m | None \<Rightarrow> default_metadata)
            \<lparr>inline_images_persisted := True\<rparr>)\<rparr>
      else e)"

definition mark_inline_images_persisted :: "'j items \<Rightarrow> 'j items" where
  "mark_inline_images_persisted items = map mark_images items"

definition reset_inline_images_persisted :: "'j items \<Rightarrow> 'j items" where
  "reset_inline_images_persisted items =
     map (\<lambda>e. if has_inline_base64_images (item e)
              then e\<lparr>env_metadata := map_option (\<lambda>m. m\<lparr>inline_images_persisted := False\<rparr>) (env_metadata e)\<rparr>
              else e) items"

section \<open>The checkpoint\<close>

record ('j, 'o, 'u) compacted_item =
  ci_message :: str
  replacement_history :: "'j items option"
  guardian_history :: "'j response_item list option"
  ci_retained :: "retained_context option"
  mcp_resource_origins :: "'o option"
  window_number :: "nat option"
  first_window_id :: "str option"
  previous_window_id :: "str option"
  window_id :: "str option"
  compaction_response_id :: "str option"
  latest_token_usage_record :: "'u option"

datatype window_id_wire = Id str | LegacyWindowNumber nat

record ('j, 'o, 'u) compacted_item_wire =
  w_message :: str
  w_replacement_history :: "'j response_item list option"
  w_replacement_history_metadata :: "harness_metadata list option"
  w_guardian_history :: "'j response_item list option"
  w_retained :: "retained_context option"
  w_mcp_resource_origins :: "'o option"
  w_window_number :: "nat option"
  w_first_window_id :: "str option"
  w_previous_window_id :: "str option"
  w_window_id :: "window_id_wire option"
  w_compaction_response_id :: "str option"
  w_latest_token_usage_record :: "'u option"

definition replacement_metadata :: "'j items \<Rightarrow> harness_metadata list option" where
  "replacement_metadata items =
     (if list_ex (\<lambda>e. env_metadata e \<noteq> None) items then
        Some (map (\<lambda>e. case env_metadata e of Some m \<Rightarrow> m | None \<Rightarrow> default_metadata) items)
      else None)"

definition to_wire :: "('j, 'o, 'u) compacted_item \<Rightarrow> ('j, 'o, 'u) compacted_item_wire" where
  "to_wire c =
     \<lparr>w_message = ci_message c,
      w_replacement_history =
        map_option (map (\<lambda>e. persisted_response_item (item e) (images_persisted e))) (replacement_history c),
      w_replacement_history_metadata = Option.bind (replacement_history c) replacement_metadata,
      w_guardian_history = guardian_history c,
      w_retained = ci_retained c,
      w_mcp_resource_origins = mcp_resource_origins c,
      w_window_number = window_number c,
      w_first_window_id = first_window_id c,
      w_previous_window_id = previous_window_id c,
      w_window_id = map_option Id (window_id c),
      w_compaction_response_id = compaction_response_id c,
      w_latest_token_usage_record = latest_token_usage_record c\<rparr>"

definition metadata_count_error :: "nat \<Rightarrow> nat \<Rightarrow> str" where
  "metadata_count_error metadata_len history_len =
     lit ''replacement_history_metadata has '' @ show_nat metadata_len @ lit '' entries for ''
       @ show_nat history_len @ lit '' history items''"

definition read_replacement_history ::
    "'j response_item list option \<Rightarrow> harness_metadata list option \<Rightarrow> str + 'j items option" where
  "read_replacement_history history metadata =
     (case (history, metadata) of
        (Some items, Some ms) \<Rightarrow>
          (if length items \<noteq> length ms then Inl (metadata_count_error (length ms) (length items))
           else Inr (Some (map (\<lambda>(i, m). \<lparr>item = i, env_metadata = Some m\<rparr>) (zip items ms))))
      | (Some items, None) \<Rightarrow> Inr (Some (map new_envelope items))
      | (None, Some _) \<Rightarrow> Inl (lit ''replacement_history_metadata requires replacement_history'')
      | (None, None) \<Rightarrow> Inr None)"

definition from_wire :: "('j, 'o, 'u) compacted_item_wire \<Rightarrow> str + ('j, 'o, 'u) compacted_item" where
  "from_wire w =
     bind_result (read_replacement_history (w_replacement_history w) (w_replacement_history_metadata w))
       (\<lambda>history.
          (let history = map_option mark_inline_images_persisted history;
               (number, window) = (case w_window_id w of
                  Some (Id i) \<Rightarrow> (w_window_number w, Some i)
                | Some (LegacyWindowNumber n) \<Rightarrow>
                    (case w_window_number w of None \<Rightarrow> (Some n, None) | Some m \<Rightarrow> (Some m, None))
                | None \<Rightarrow> (w_window_number w, None))
           in Inr \<lparr>ci_message = w_message w, replacement_history = history,
                   guardian_history = w_guardian_history w, ci_retained = w_retained w,
                   mcp_resource_origins = w_mcp_resource_origins w, window_number = number,
                   first_window_id = w_first_window_id w, previous_window_id = w_previous_window_id w,
                   window_id = window, compaction_response_id = w_compaction_response_id w,
                   latest_token_usage_record = w_latest_token_usage_record w\<rparr>))"

definition item_of_checkpoint :: "('j, 'o, 'u) compacted_item \<Rightarrow> 'j response_item" where
  "item_of_checkpoint c = Message None (lit ''assistant'') [OutputText (ci_message c)] None None"

section \<open>Images are pruned and only they\<close>

lemma prune_content_not_inline [simp]: "\<not> inline_content (prune_content c)"
  by (simp add: prune_content_def)

lemma pruned_has_no_images: "\<not> has_inline_base64_images (prune_inline_base64_images i)"
  by (cases i) (auto simp: list_ex_iff prune_output_def output_items_def split: output_body.splits if_splits)

lemma prune_without_images: "\<not> has_inline_base64_images i \<Longrightarrow> prune_inline_base64_images i = i"
  by (cases i) (auto simp: list_ex_iff prune_output_def output_items_def prune_content_def
      intro!: map_idI output_payload.equality split: output_body.splits)

lemma map_zip_map: "map f (zip (map g xs) (map h xs)) = map (\<lambda>x. f (g x, h x)) xs"
  by (induction xs) auto

text \<open>What one item becomes when its checkpoint is read back.\<close>

definition reread :: "bool \<Rightarrow> 'j envelope \<Rightarrow> 'j envelope" where
  "reread given e = mark_images
     \<lparr>item = persisted_response_item (item e) (images_persisted e),
      env_metadata = (if given then Some (case env_metadata e of Some m \<Rightarrow> m | None \<Rightarrow> default_metadata) else None)\<rparr>"

lemma read_written_history:
  "read_replacement_history (map_option (map (\<lambda>e. persisted_response_item (item e) (images_persisted e))) history)
     (Option.bind history replacement_metadata)
   = Inr (map_option (\<lambda>items. map (\<lambda>e.
       \<lparr>item = persisted_response_item (item e) (images_persisted e),
        env_metadata = (if list_ex (\<lambda>e. env_metadata e \<noteq> None) items
          then Some (case env_metadata e of Some m \<Rightarrow> m | None \<Rightarrow> default_metadata) else None)\<rparr>) items) history)"
  by (cases history)
     (auto simp: read_replacement_history_def replacement_metadata_def map_zip_map new_envelope_def comp_def)

lemma written_and_read:
  "from_wire (to_wire c) = Inr (c\<lparr>replacement_history := map_option (\<lambda>items.
     map (reread (list_ex (\<lambda>e. env_metadata e \<noteq> None) items)) items) (replacement_history c)\<rparr>)"
  by (cases "window_id c")
     (auto simp: from_wire_def to_wire_def read_written_history reread_def [abs_def] mark_inline_images_persisted_def
       option.map_comp comp_def intro!: compacted_item.equality)

lemma mark_images_effect:
  "item (mark_images e) = item e"
  "has_inline_base64_images (item e) \<Longrightarrow> images_persisted (mark_images e)"
  by (simp_all add: mark_images_def images_persisted_def)

lemma reread_images:
  "item (reread given e) = (if images_persisted e then prune_inline_base64_images (item e) else item e)"
  "has_inline_base64_images (item (reread given e)) \<Longrightarrow> images_persisted (reread given e)"
  unfolding reread_def mark_images_effect(1) by (auto simp: persisted_response_item_def intro: mark_images_effect(2))


text \<open>
  Inline images are written completely once and never twice: the first checkpoint with an
  item holds it unchanged, the checkpoint after one that was read back holds no inline image.
\<close>

theorem images_written_once:
  assumes "from_wire (to_wire c) = Inr c'"
  shows "list_all (\<lambda>i. \<not> has_inline_base64_images i)
      (case w_replacement_history (to_wire c') of Some items \<Rightarrow> items | None \<Rightarrow> [])
    \<and> (list_all (\<lambda>e. \<not> images_persisted e) (case replacement_history c of Some es \<Rightarrow> es | None \<Rightarrow> [])
        \<longrightarrow> w_replacement_history (to_wire c) = map_option (map item) (replacement_history c))"
proof -
  have "c' = c\<lparr>replacement_history := map_option (\<lambda>items.
     map (reread (list_ex (\<lambda>e. env_metadata e \<noteq> None) items)) items) (replacement_history c)\<rparr>"
    using assms written_and_read [of c] by simp
  then show ?thesis
    by (cases "replacement_history c")
       (auto simp: to_wire_def list_all_iff persisted_response_item_def pruned_has_no_images dest: reread_images(2))
qed

definition image_checkpoint :: "(nat, nat, nat) compacted_item" where
  "image_checkpoint = \<lparr>ci_message = lit ''summary'',
     replacement_history = Some [new_envelope (Message None (lit ''user'') [InputImage (lit ''data:image/png;base64,aa'') None] None None)],
     guardian_history = None, ci_retained = None, mcp_resource_origins = None, window_number = Some 2,
     first_window_id = None, previous_window_id = None, window_id = None, compaction_response_id = None,
     latest_token_usage_record = None\<rparr>"

theorem images_written_once_witness:
  "w_replacement_history (to_wire image_checkpoint) = map_option (map item) (replacement_history image_checkpoint)"
  using images_written_once [of image_checkpoint, OF written_and_read]
  by (simp add: image_checkpoint_def new_envelope_def images_persisted_def)

end
