(* ===== verification/TranscriptHistory.thy ===== *)
theory TranscriptHistory
  imports ResponseItem "HOL-Library.Sublist"
begin

text \<open>
  \<open>guardian-context/src/history.rs\<close>: the review history, which survives compaction. User
  messages and other items have separate limits and keep their order. How many bytes
  \<open>serde_json\<close> writes is an argument, as is the fixed size of a \<open>ResponseItem\<close>.
\<close>

section \<open>The history\<close>

definition MAX_ITEMS_PER_KIND :: nat where "MAX_ITEMS_PER_KIND = 128"
definition MAX_BYTES_PER_KIND :: nat where "MAX_BYTES_PER_KIND = 4 * 1024 * 1024"

record 'j transcript =
  tr_items :: "('j response_item \<times> nat) list"
  generation :: nat

definition new_transcript :: "nat \<Rightarrow> 'j transcript" where
  "new_transcript n = \<lparr>tr_items = [], generation = n\<rparr>"

record 'j item_sizes =
  fixed_size :: nat
  item_bytes :: "'j response_item \<Rightarrow> nat"
  reasoning_bytes :: "reasoning_content list option \<Rightarrow> nat"
  header_bytes :: "str option \<times> str \<times> message_phase option \<times> 'j passthrough option \<Rightarrow> nat"
  content_bytes :: "content_item \<Rightarrow> nat"

text \<open>\<open>BoundedSize\<close>: writing fails as soon as the limit would be exceeded.\<close>

definition charge :: "nat \<Rightarrow> nat \<Rightarrow> nat option" where
  "charge n bytes = (if n \<le> MAX_BYTES_PER_KIND - bytes then Some (bytes + n) else None)"

definition measure_item :: "'j item_sizes \<Rightarrow> 'j response_item \<Rightarrow> nat option" where
  "measure_item sz i =
     (case charge (item_bytes sz i) (fixed_size sz) of
        None \<Rightarrow> None
      | Some bytes \<Rightarrow>
          (case i of Reasoning _ _ content _ _ \<Rightarrow> charge (reasoning_bytes sz content) bytes | _ \<Rightarrow> Some bytes))"

definition same_kind :: "bool \<Rightarrow> 'j response_item \<times> nat \<Rightarrow> bool" where
  "same_kind user e \<longleftrightarrow> is_user_message (fst e) = user"

definition over_limit :: "nat \<Rightarrow> nat \<Rightarrow> bool" where
  "over_limit count bytes \<longleftrightarrow> MAX_ITEMS_PER_KIND \<le> count \<or> MAX_BYTES_PER_KIND < bytes"

text \<open>\<open>retain\<close> with the count and the bytes that are left.\<close>

fun evict_kind ::
    "bool \<Rightarrow> nat \<Rightarrow> nat \<Rightarrow> ('j response_item \<times> nat) list \<Rightarrow> ('j response_item \<times> nat) list" where
  "evict_kind user count bytes [] = []"
| "evict_kind user count bytes (e # es) =
     (if same_kind user e \<and> over_limit count bytes then evict_kind user (count - 1) (bytes - snd e) es
      else e # evict_kind user count bytes es)"

definition push_measured :: "'j response_item \<Rightarrow> nat \<Rightarrow> 'j transcript \<Rightarrow> 'j transcript" where
  "push_measured i n t =
     (let user = is_user_message i;
          (count, bytes) = fold (\<lambda>e (count, bytes). (count + 1, bytes + snd e))
            (filter (same_kind user) (tr_items t)) (0, n);
          t = (if over_limit count bytes then
                 t\<lparr>tr_items := evict_kind user count bytes (tr_items t), generation := sat_add (generation t) 1\<rparr>
               else t)
      in t\<lparr>tr_items := tr_items t @ [(i, n)]\<rparr>)"

fun is_text_content :: "content_item \<Rightarrow> bool" where
  "is_text_content (InputText _) = True"
| "is_text_content (OutputText _) = True"
| "is_text_content _ = False"

fun is_image_content :: "content_item \<Rightarrow> bool" where
  "is_image_content (InputImage _ _) = True"
| "is_image_content _ = False"

fun charge_all :: "'j item_sizes \<Rightarrow> content_item list \<Rightarrow> nat \<Rightarrow> nat option" where
  "charge_all sz [] bytes = Some bytes"
| "charge_all sz (c # cs) bytes =
     (case charge (content_bytes sz c) bytes of None \<Rightarrow> None | Some bytes \<Rightarrow> charge_all sz cs bytes)"

text \<open>The message that stands for a user message whose images are too large.\<close>

definition text_fallback :: "'j item_sizes \<Rightarrow> 'j response_item \<Rightarrow> 'j response_item option" where
  "text_fallback sz i =
     (case i of
        Message mid role content phase metadata \<Rightarrow>
          (if role = lit ''user'' \<and> list_ex is_image_content content then
             (case charge (header_bytes sz (mid, role, phase, metadata)) (fixed_size sz) of
                None \<Rightarrow> None
              | Some bytes \<Rightarrow>
                  (let texts = filter is_text_content content in
                   case charge_all sz texts bytes of
                     None \<Rightarrow> None
                   | Some _ \<Rightarrow> if texts \<noteq> [] then Some (Message mid role texts phase metadata) else None))
           else None)
      | _ \<Rightarrow> None)"

lemma text_not_image: "is_text_content c \<Longrightarrow> \<not> is_image_content c"
  by (cases c) auto

lemma text_fallback_no_image:
  "text_fallback sz i = Some j \<Longrightarrow> text_fallback sz i \<noteq> None \<and> text_fallback sz j = None"
  by (auto simp: text_fallback_def Let_def list_ex_iff split: response_item.splits if_splits option.splits
      dest: text_not_image)

function record_transcript :: "'j item_sizes \<Rightarrow> 'j response_item \<Rightarrow> 'j transcript \<Rightarrow> 'j transcript" where
  "record_transcript sz i t =
     (case measure_item sz i of
        Some n \<Rightarrow> push_measured i n t
      | None \<Rightarrow> (case text_fallback sz i of Some j \<Rightarrow> record_transcript sz j t | None \<Rightarrow> t))"
  by pat_completeness auto

termination
  by (relation "measure (\<lambda>(sz, i, t). if text_fallback sz i \<noteq> None then 1 else 0)")
     (auto dest: text_fallback_no_image)

declare record_transcript.simps [simp del]

definition reset_transcript :: "'j item_sizes \<Rightarrow> 'j response_item list \<Rightarrow> 'j transcript \<Rightarrow> 'j transcript" where
  "reset_transcript sz items t =
     fold (record_transcript sz) items \<lparr>tr_items = [], generation = sat_add (generation t) 1\<rparr>"

definition is_boundary :: "'j response_item \<Rightarrow> 'j response_item \<times> nat \<Rightarrow> bool" where
  "is_boundary boundary e \<longleftrightarrow>
     (case (item_id (fst e), item_id boundary) of (Some a, Some b) \<Rightarrow> a = b | _ \<Rightarrow> False) \<or> fst e = boundary"

definition truncate_before :: "'j response_item \<Rightarrow> 'j transcript \<Rightarrow> 'j transcript" where
  "truncate_before boundary t =
     t\<lparr>tr_items := (if list_ex (is_boundary boundary) (tr_items t)
                    then takeWhile (\<lambda>e. \<not> is_boundary boundary e) (tr_items t) else []),
       generation := sat_add (generation t) 1\<rparr>"

section \<open>Limits\<close>

definition kind_count :: "bool \<Rightarrow> ('j response_item \<times> nat) list \<Rightarrow> nat" where
  "kind_count user es = length (filter (same_kind user) es)"

definition kind_bytes :: "bool \<Rightarrow> ('j response_item \<times> nat) list \<Rightarrow> nat" where
  "kind_bytes user es = sum_list (map snd (filter (same_kind user) es))"

definition within_storage :: "'j transcript \<Rightarrow> bool" where
  "within_storage t \<longleftrightarrow> list_all (\<lambda>user. kind_count user (tr_items t) \<le> MAX_ITEMS_PER_KIND
     \<and> kind_bytes user (tr_items t) \<le> MAX_BYTES_PER_KIND) [True, False]"

lemma fold_count_bytes:
  "fold (\<lambda>e (count, bytes). (count + 1, bytes + snd e)) es (c, b) = (c + length es, b + sum_list (map snd es))"
  by (induction es arbitrary: c b) (auto simp: add.assoc)

lemma evict_kind_none: "\<not> over_limit count bytes \<Longrightarrow> evict_kind user count bytes es = es"
  by (induction es) auto

text \<open>Eviction takes the oldest of one kind, and stops as soon as the limits hold.\<close>

lemma evict_kind_effect:
  assumes "count = kind_count user es" "bytes = kind_bytes user es + n"
    "n \<le> MAX_BYTES_PER_KIND"
  shows "kind_count user (evict_kind user count bytes es) < MAX_ITEMS_PER_KIND
    \<and> kind_bytes user (evict_kind user count bytes es) + n \<le> MAX_BYTES_PER_KIND
    \<and> suffix (filter (same_kind user) (evict_kind user count bytes es)) (filter (same_kind user) es)
    \<and> filter (same_kind (\<not> user)) (evict_kind user count bytes es) = filter (same_kind (\<not> user)) es"
  using assms
proof (induction es arbitrary: count bytes)
  case Nil
  then show ?case by (simp add: kind_count_def kind_bytes_def MAX_ITEMS_PER_KIND_def)
next
  case (Cons e es)
  show ?case
  proof (cases "same_kind user e")
    case True
    show ?thesis
    proof (cases "over_limit count bytes")
      case over: True
      have "count - 1 = kind_count user es" "bytes - snd e = kind_bytes user es + n"
        using Cons.prems True by (simp_all add: kind_count_def kind_bytes_def)
      from Cons.IH [OF this Cons.prems(3)] True over show ?thesis
        by (auto simp: same_kind_def suffix_ConsI)
    next
      case False
      then have "evict_kind user count bytes (e # es) = e # es" by (rule evict_kind_none)
      with False Cons.prems show ?thesis by (auto simp: over_limit_def)
    qed
  next
    case False
    have "count = kind_count user es" "bytes = kind_bytes user es + n"
      using Cons.prems False by (simp_all add: kind_count_def kind_bytes_def)
    from Cons.IH [OF this Cons.prems(3)] False show ?thesis
      by (auto simp: same_kind_def kind_count_def kind_bytes_def)
  qed
qed

lemma within_storageI:
  "(\<And>user. kind_count user (tr_items t) \<le> MAX_ITEMS_PER_KIND \<and> kind_bytes user (tr_items t) \<le> MAX_BYTES_PER_KIND)
    \<Longrightarrow> within_storage t"
  by (simp add: within_storage_def)

lemma within_storageD:
  "within_storage t \<Longrightarrow> kind_count user (tr_items t) \<le> MAX_ITEMS_PER_KIND"
  "within_storage t \<Longrightarrow> kind_bytes user (tr_items t) \<le> MAX_BYTES_PER_KIND"
  by (cases user; simp add: within_storage_def)+

lemma kind_append [simp]:
  "kind_count user (xs @ ys) = kind_count user xs + kind_count user ys"
  "kind_bytes user (xs @ ys) = kind_bytes user xs + kind_bytes user ys"
  by (simp_all add: kind_count_def kind_bytes_def)

lemma kind_single:
  "kind_count user [(i, n)] = (if is_user_message i = user then 1 else 0)"
  "kind_bytes user [(i, n)] = (if is_user_message i = user then n else 0)"
  by (simp_all add: kind_count_def kind_bytes_def same_kind_def)

text \<open>What is evicted: nothing, or the oldest entries of the item's kind and a generation step.\<close>

lemma push_measured_cases:
  assumes "n \<le> MAX_BYTES_PER_KIND"
  obtains kept where "tr_items (push_measured i n t) = kept @ [(i, n)]"
    "kind_count (is_user_message i) kept < MAX_ITEMS_PER_KIND"
    "kind_bytes (is_user_message i) kept + n \<le> MAX_BYTES_PER_KIND"
    "suffix (filter (same_kind (is_user_message i)) kept) (filter (same_kind (is_user_message i)) (tr_items t))"
    "filter (same_kind (\<not> is_user_message i)) kept = filter (same_kind (\<not> is_user_message i)) (tr_items t)"
    "kept = tr_items t \<and> generation (push_measured i n t) = generation t
      \<or> generation (push_measured i n t) = sat_add (generation t) 1"
proof -
  let ?u = "is_user_message i"
  let ?c = "kind_count ?u (tr_items t)" and ?b = "kind_bytes ?u (tr_items t) + n"
  have counted: "fold (\<lambda>e (count, bytes). (count + 1, bytes + snd e)) (filter (same_kind ?u) (tr_items t)) (0, n)
      = (?c, ?b)"
    by (subst fold_count_bytes) (simp add: kind_count_def kind_bytes_def)
  note effect = evict_kind_effect [of ?c ?u "tr_items t" ?b n, OF refl refl assms]
  show thesis
  proof (cases "over_limit ?c ?b")
    case True
    with counted have "push_measured i n t = \<lparr>tr_items = evict_kind ?u ?c ?b (tr_items t) @ [(i, n)],
        generation = sat_add (generation t) 1, \<dots> = transcript.more t\<rparr>"
      by (simp add: push_measured_def Let_def)
    with effect show thesis by (intro that [of "evict_kind ?u ?c ?b (tr_items t)"]) auto
  next
    case False
    with counted have "push_measured i n t = t\<lparr>tr_items := tr_items t @ [(i, n)]\<rparr>"
      by (simp add: push_measured_def Let_def)
    with False show thesis by (intro that [of "tr_items t"]) (auto simp: over_limit_def)
  qed
qed

lemma charge_bounded: "charge n bytes = Some b \<Longrightarrow> bytes \<le> MAX_BYTES_PER_KIND \<Longrightarrow> b \<le> MAX_BYTES_PER_KIND"
  by (auto simp: charge_def split: if_splits)

lemma measure_item_bounded:
  "measure_item sz i = Some n \<Longrightarrow> fixed_size sz \<le> MAX_BYTES_PER_KIND \<Longrightarrow> n \<le> MAX_BYTES_PER_KIND"
  by (auto simp: measure_item_def split: option.splits response_item.splits intro: charge_bounded)

lemma text_fallback_kind: "text_fallback sz i = Some j \<Longrightarrow> is_user_message j = is_user_message i"
  by (auto simp: is_user_message_def text_fallback_def Let_def split: response_item.splits if_splits option.splits)

text \<open>Recording pushes the item, pushes its text fallback, or does nothing.\<close>

lemma record_transcript_cases:
  assumes "fixed_size sz \<le> MAX_BYTES_PER_KIND"
  obtains "record_transcript sz i t = t"
  | j n where "record_transcript sz i t = push_measured j n t" "n \<le> MAX_BYTES_PER_KIND"
      "is_user_message j = is_user_message i" "j = i \<or> text_fallback sz i = Some j"
proof (cases "measure_item sz i")
  case (Some n)
  with assms show thesis
    by (intro that(2) [of i n]) (auto simp: record_transcript.simps measure_item_bounded)
next
  case None
  show thesis
  proof (cases "text_fallback sz i")
    case None
    with \<open>measure_item sz i = None\<close> show thesis by (intro that(1)) (simp add: record_transcript.simps)
  next
    case (Some j)
    have step: "record_transcript sz i t = record_transcript sz j t"
      using \<open>measure_item sz i = None\<close> Some by (subst record_transcript.simps) simp
    have none: "text_fallback sz j = None" using text_fallback_no_image [OF Some] by simp
    show thesis
    proof (cases "measure_item sz j")
      case None
      with none step show thesis by (intro that(1)) (simp add: record_transcript.simps)
    next
      case (Some n)
      with assms step \<open>text_fallback sz i = Some j\<close> show thesis
        by (intro that(2) [of j n])
           (auto simp: record_transcript.simps measure_item_bounded text_fallback_kind)
    qed
  qed
qed

lemma push_measured_within:
  assumes "n \<le> MAX_BYTES_PER_KIND" "within_storage t"
  shows "within_storage (push_measured i n t)"
proof -
  obtain kept where kept: "tr_items (push_measured i n t) = kept @ [(i, n)]"
    "kind_count (is_user_message i) kept < MAX_ITEMS_PER_KIND"
    "kind_bytes (is_user_message i) kept + n \<le> MAX_BYTES_PER_KIND"
    "filter (same_kind (\<not> is_user_message i)) kept = filter (same_kind (\<not> is_user_message i)) (tr_items t)"
    using push_measured_cases [OF assms(1)] by metis
  show ?thesis
  proof (rule within_storageI)
    fix user
    show "kind_count user (tr_items (push_measured i n t)) \<le> MAX_ITEMS_PER_KIND
      \<and> kind_bytes user (tr_items (push_measured i n t)) \<le> MAX_BYTES_PER_KIND"
    proof (cases "user = is_user_message i")
      case True
      with kept show ?thesis by (simp add: kind_single)
    next
      case False
      then have "filter (same_kind user) kept = filter (same_kind user) (tr_items t)"
        using kept(4) by (cases user) auto
      then have "kind_count user kept = kind_count user (tr_items t)" "kind_bytes user kept = kind_bytes user (tr_items t)"
        by (simp_all add: kind_count_def kind_bytes_def)
      with False kept(1) within_storageD [OF assms(2), of user] show ?thesis by (auto simp: kind_single)
    qed
  qed
qed

lemma record_transcript_within:
  "fixed_size sz \<le> MAX_BYTES_PER_KIND \<Longrightarrow> within_storage t \<Longrightarrow> within_storage (record_transcript sz i t)"
  by (rule record_transcript_cases [of sz i t]) (auto intro: push_measured_within)

lemma fold_record_within:
  "fixed_size sz \<le> MAX_BYTES_PER_KIND \<Longrightarrow> within_storage t \<Longrightarrow> within_storage (fold (record_transcript sz) items t)"
  by (induction items arbitrary: t) (auto intro: record_transcript_within)

lemma within_storage_prefix:
  assumes "prefix (tr_items t) (tr_items u)" "within_storage u"
  shows "within_storage t"
proof (rule within_storageI)
  fix user
  obtain rest where "tr_items u = tr_items t @ rest" using assms(1) by (auto elim: prefixE)
  with within_storageD [OF assms(2), of user] show "kind_count user (tr_items t) \<le> MAX_ITEMS_PER_KIND
      \<and> kind_bytes user (tr_items t) \<le> MAX_BYTES_PER_KIND"
    by simp
qed

section \<open>The operations a host calls\<close>

inductive transcript_step :: "'j item_sizes \<Rightarrow> 'j transcript \<Rightarrow> 'j transcript \<Rightarrow> bool" for sz where
  ts_record: "transcript_step sz t (record_transcript sz i t)"
| ts_reset: "transcript_step sz t (reset_transcript sz items t)"
| ts_truncate: "transcript_step sz t (truncate_before boundary t)"

lemma transcript_step_within:
  assumes "transcript_step sz t t'" "fixed_size sz \<le> MAX_BYTES_PER_KIND" "within_storage t"
  shows "within_storage t'"
  using assms(1)
proof cases
  case ts_record
  with assms show ?thesis by (auto intro: record_transcript_within)
next
  case (ts_reset items)
  have "within_storage \<lparr>tr_items = [], generation = sat_add (generation t) 1\<rparr>"
    by (simp add: within_storage_def kind_count_def kind_bytes_def)
  with ts_reset assms(2) show ?thesis
    unfolding reset_transcript_def by (blast intro: fold_record_within)
next
  case (ts_truncate boundary)
  with assms(3) show ?thesis
    by (auto simp: truncate_before_def takeWhile_is_prefix intro!: within_storage_prefix [of _ t])
qed

text \<open>
  The review history never exceeds its storage: whatever a host does with it, at most 128
  user messages of at most 4 MiB and at most 128 other items of at most 4 MiB are kept.
\<close>

theorem review_history_bounded:
  assumes "(transcript_step sz)\<^sup>*\<^sup>* (new_transcript n) t" "fixed_size sz \<le> MAX_BYTES_PER_KIND"
  shows "within_storage t"
  using assms(1)
proof induction
  case base
  show ?case by (simp add: new_transcript_def within_storage_def kind_count_def kind_bytes_def)
next
  case (step t t')
  with assms(2) show ?case by (blast intro: transcript_step_within)
qed

definition sample_sizes :: "nat item_sizes" where
  "sample_sizes = \<lparr>fixed_size = 200, item_bytes = (\<lambda>_. 100), reasoning_bytes = (\<lambda>_. 4),
     header_bytes = (\<lambda>_. 40), content_bytes = (\<lambda>_. 30)\<rparr>"

definition sample_message :: "nat response_item" where
  "sample_message = Message None (lit ''user'') [InputText (lit ''run the tests'')] None None"

theorem review_history_bounded_witness:
  "within_storage (record_transcript sample_sizes sample_message (new_transcript 3))"
  using review_history_bounded [of sample_sizes 3 "record_transcript sample_sizes sample_message (new_transcript 3)"]
  by (auto intro: ts_record simp: sample_sizes_def MAX_BYTES_PER_KIND_def)

text \<open>
  Recording evicts only the oldest entries of the item's own kind: tool traffic never
  removes a user message, nor a user message a tool result. As long as the generation does
  not change, everything kept stays where it was, so a reader may go on from its offset.
\<close>

theorem recording_evicts_own_kind:
  assumes "fixed_size sz \<le> MAX_BYTES_PER_KIND" "t' = record_transcript sz i t"
  shows "filter (same_kind (\<not> is_user_message i)) (tr_items t')
      = filter (same_kind (\<not> is_user_message i)) (tr_items t)
    \<and> (\<exists>kept new. filter (same_kind (is_user_message i)) (tr_items t') = kept @ new
      \<and> suffix kept (filter (same_kind (is_user_message i)) (tr_items t)) \<and> length new \<le> 1)
    \<and> (generation t' = generation t \<longrightarrow> generation t < USIZE_MAX \<longrightarrow> prefix (tr_items t) (tr_items t'))"
  (is ?goal)
proof (rule record_transcript_cases [OF assms(1), of i t])
  assume "record_transcript sz i t = t"
  with assms(2) show ?goal
    by (intro conjI exI [of _ "filter (same_kind (is_user_message i)) (tr_items t)"] exI [of _ "[]"]) auto
next
  fix j n
  assume j: "record_transcript sz i t = push_measured j n t" "n \<le> MAX_BYTES_PER_KIND"
    "is_user_message j = is_user_message i"
  obtain kept where kept: "tr_items (push_measured j n t) = kept @ [(j, n)]"
    "suffix (filter (same_kind (is_user_message i)) kept) (filter (same_kind (is_user_message i)) (tr_items t))"
    "filter (same_kind (\<not> is_user_message i)) kept = filter (same_kind (\<not> is_user_message i)) (tr_items t)"
    "kept = tr_items t \<and> generation (push_measured j n t) = generation t
      \<or> generation (push_measured j n t) = sat_add (generation t) 1"
    by (rule push_measured_cases [OF j(2), of j t, unfolded j(3)])
  have "generation t' = generation t \<Longrightarrow> generation t < USIZE_MAX \<Longrightarrow> kept = tr_items t"
    using kept(4) assms(2) j(1) by (auto simp: sat_add_def)
  moreover have "filter (same_kind (is_user_message i)) (tr_items t')
      = filter (same_kind (is_user_message i)) kept @ [(j, n)]"
    using kept(1) assms(2) j(1,3) by (simp add: same_kind_def)
  moreover have "filter (same_kind (\<not> is_user_message i)) (tr_items t')
      = filter (same_kind (\<not> is_user_message i)) kept"
    using kept(1) assms(2) j(1,3) by (simp add: same_kind_def)
  moreover have "length [(j, n)] \<le> 1" by simp
  ultimately show ?goal using kept(1-3) assms(2) j(1) by (metis prefixI)
qed

theorem recording_evicts_own_kind_witness:
  "tr_items (record_transcript sample_sizes sample_message
     (record_transcript sample_sizes sample_message (new_transcript 3))) = [(sample_message, 300), (sample_message, 300)]
   \<and> prefix [(sample_message, 300)] (tr_items (record_transcript sample_sizes sample_message
       (record_transcript sample_sizes sample_message (new_transcript 3))))"
proof -
  have one: "record_transcript sample_sizes sample_message (new_transcript 3)
      = \<lparr>tr_items = [(sample_message, 300)], generation = 3\<rparr>"
    by (simp add: record_transcript.simps measure_item_def charge_def sample_sizes_def sample_message_def
        MAX_BYTES_PER_KIND_def push_measured_def new_transcript_def over_limit_def MAX_ITEMS_PER_KIND_def)
  have two: "record_transcript sample_sizes sample_message \<lparr>tr_items = [(sample_message, 300)], generation = 3\<rparr>
      = \<lparr>tr_items = [(sample_message, 300), (sample_message, 300)], generation = 3\<rparr>"
    by (simp add: record_transcript.simps measure_item_def charge_def sample_sizes_def sample_message_def
        MAX_BYTES_PER_KIND_def push_measured_def over_limit_def MAX_ITEMS_PER_KIND_def same_kind_def)
  show ?thesis
    unfolding one two
    using recording_evicts_own_kind [of sample_sizes _ sample_message
        "\<lparr>tr_items = [(sample_message, 300)], generation = 3\<rparr>", OF _ refl] two
    by (simp add: sample_sizes_def MAX_BYTES_PER_KIND_def USIZE_MAX_def)
qed

end
