(* ===== verification/ContextManager.thy ===== *)
theory ContextManager
  imports EventMapping RolloutPayload TranscriptHistory
begin

text \<open>
  \<open>core/src/context_manager/history.rs\<close> and \<open>history_user_authorization.rs\<close>: the history of a
  thread. It records items, prepares prompts, is replaced by compaction and rolled back by turns,
  and keeps with it the review history, the facts that survive compaction and the token counts.

  The settings of a turn and the state of the world are of types that are arguments. What the
  manager calls outside the repository is in \<open>host\<close>; \<open>None\<close> is a panic of a slice while cutting text.
\<close>

section \<open>State\<close>

datatype guardian_context_mode = Legacy | ThreadOwned

record ('j, 'c, 'w) context_manager =
  history_items :: "'j items"
  review_history :: "'j transcript option"
  retained :: retained_context
  context_mode :: guardian_context_mode
  retain_inherited :: bool
  history_version :: nat
  user_message_revision :: nat
  token_info :: "token_usage_info option"
  reference_context_item :: "'c option"
  world_state_baseline :: "'w option"

record 'j host =
  hook_xml :: "str \<Rightarrow> (str \<times> str) option"
  agent_message_json :: "str \<Rightarrow> bool"
  meters_of :: "'j meters"
  item_sizes_of :: "'j item_sizes"
  json_sizes_of :: json_sizes

definition new_manager :: "('j, 'c, 'w) context_manager" where
  "new_manager = \<lparr>history_items = [], review_history = None, retained = default_retained,
     context_mode = Legacy, retain_inherited = False, history_version = 0, user_message_revision = 0,
     token_info = new_or_append None None None, reference_context_item = None, world_state_baseline = None\<rparr>"

definition with_guardian_context_mode :: "guardian_context_mode \<Rightarrow> bool \<Rightarrow> ('j, 'c, 'w) context_manager" where
  "with_guardian_context_mode mode non_root_agent =
     new_manager\<lparr>context_mode := mode, retain_inherited := mode = ThreadOwned \<and> \<not> non_root_agent\<rparr>"

definition raw_items :: "('j, 'c, 'w) context_manager \<Rightarrow> 'j response_item list" where
  "raw_items cm = map item (history_items cm)"

section \<open>Kinds of items\<close>

definition is_contextual_user_message :: "'j host \<Rightarrow> 'j response_item \<Rightarrow> bool" where
  "is_contextual_user_message h i =
     (case i of
        Message _ role content _ _ \<Rightarrow>
          role = lit ''user'' \<and> is_contextual_user_message_content (hook_xml h) content
      | _ \<Rightarrow> False)"

fun is_api_message :: "'j response_item \<Rightarrow> harness_metadata option \<Rightarrow> bool" where
  "is_api_message (Message _ role _ _ _) metadata \<longleftrightarrow> role \<noteq> lit ''system''"
| "is_api_message (ConfigurationUpdate _) metadata \<longleftrightarrow>
     (case metadata of Some m \<Rightarrow> harness_authored_configuration m | None \<Rightarrow> False)"
| "is_api_message CompactionTrigger metadata \<longleftrightarrow> False"
| "is_api_message OtherItem metadata \<longleftrightarrow> False"
| "is_api_message _ metadata \<longleftrightarrow> True"

fun is_model_generated_item :: "'j response_item \<Rightarrow> bool" where
  "is_model_generated_item (Message _ role _ _ _) \<longleftrightarrow> role = lit ''assistant''"
| "is_model_generated_item (Reasoning _ _ _ _ _) \<longleftrightarrow> True"
| "is_model_generated_item (FunctionCall _ _ _ _ _ _ _) \<longleftrightarrow> True"
| "is_model_generated_item (ToolSearchCall _ _ _ _ _ _) \<longleftrightarrow> True"
| "is_model_generated_item (WebSearchCall _ _ _ _) \<longleftrightarrow> True"
| "is_model_generated_item (ImageGenerationCall _ _ _ _ _) \<longleftrightarrow> True"
| "is_model_generated_item (CustomToolCall _ _ _ _ _ _ _) \<longleftrightarrow> True"
| "is_model_generated_item (LocalShellCall _ _ _ _ _) \<longleftrightarrow> True"
| "is_model_generated_item (Compaction _ _ _) \<longleftrightarrow> True"
| "is_model_generated_item (ContextCompaction _ _ _) \<longleftrightarrow> True"
| "is_model_generated_item _ \<longleftrightarrow> False"

text \<open>\<open>InterAgentCommunication::is_message_content\<close>: one text that parses.\<close>

fun is_inter_agent_instruction_content :: "'j host \<Rightarrow> content_item list \<Rightarrow> bool" where
  "is_inter_agent_instruction_content h [InputText s] = agent_message_json h s"
| "is_inter_agent_instruction_content h [OutputText s] = agent_message_json h s"
| "is_inter_agent_instruction_content h _ = False"

fun is_user_turn_boundary :: "'j host \<Rightarrow> 'j response_item \<Rightarrow> bool" where
  "is_user_turn_boundary h (AgentMessage _ _ _ _ _) = True"
| "is_user_turn_boundary h (Message _ role content _ _) =
     ((role = lit ''user'' \<and> \<not> is_contextual_user_message_content (hook_xml h) content)
      \<or> (role = lit ''assistant'' \<and> is_inter_agent_instruction_content h content))"
| "is_user_turn_boundary h _ = False"

definition user_message_positions :: "'j host \<Rightarrow> 'j items \<Rightarrow> nat list" where
  "user_message_positions h items =
     List.map_filter (\<lambda>(idx, e). if is_user_turn_boundary h (item e) then Some idx else None)
       (List.enumerate 0 items)"

section \<open>Authorization of the user\<close>

datatype user_message_source = FromOriginal | FromCheckpoint

definition GUARDIAN_MAX_ROOT_MESSAGE_TOKENS :: nat where "GUARDIAN_MAX_ROOT_MESSAGE_TOKENS = 900"

fun written_text :: "content_item \<Rightarrow> str option" where
  "written_text (InputText s) = Some s"
| "written_text (OutputText s) = Some s"
| "written_text _ = None"

definition all_user_kinds :: "'j passthrough option \<Rightarrow> content_item list \<Rightarrow> bool" where
  "all_user_kinds metadata content =
     (case Option.bind metadata content_item_kinds of
        None \<Rightarrow> False
      | Some kinds \<Rightarrow> length kinds = length content \<and> list_all (\<lambda>k. starts_with k (lit ''user.'')) kinds)"

text \<open>The record of one message; the arm of \<open>record_user_authorization\<close> that keeps its words.\<close>

definition retained_message ::
    "'j response_item \<Rightarrow> user_message_source \<Rightarrow> retained_user_message option option" where
  "retained_message i source =
     (case i of
        Message _ _ content _ metadata \<Rightarrow>
          (let whole = (source = FromOriginal \<and> all_user_kinds metadata content
                 \<and> list_all (\<lambda>c. written_text c \<noteq> None) content);
               words = join [LF] (List.map_filter written_text content)
           in map_option (\<lambda>(kept, cut).
                Some \<lparr>um_turn_id = (case turn_id i of Some t \<Rightarrow> t | None \<Rightarrow> []), message_id = item_id i,
                      um_text = kept, complete = whole \<and> \<not> cut\<rparr>)
              (guardian_truncate_text words GUARDIAN_MAX_ROOT_MESSAGE_TOKENS))
      | _ \<Rightarrow> Some None)"

definition is_inherited :: "harness_metadata option \<Rightarrow> bool" where
  "is_inherited metadata = (case metadata of Some m \<Rightarrow> inherited_user_message m | None \<Rightarrow> False)"

definition record_user_authorization ::
    "'j host \<Rightarrow> 'j response_item \<Rightarrow> harness_metadata option \<Rightarrow> user_message_source
     \<Rightarrow> ('j, 'c, 'w) context_manager \<Rightarrow> ('j, 'c, 'w) context_manager option" where
  "record_user_authorization h i metadata source cm =
     (if \<not> is_user_authorization_message i then Some cm
      else
        map_option (\<lambda>cm. cm\<lparr>user_message_revision := sat_add (user_message_revision cm) 1\<rparr>)
          (if context_mode cm = Legacy then
             Some (cm\<lparr>retained := mark_user_messages_incomplete (retained cm)\<rparr>)
           else if \<not> is_inherited metadata \<or> retain_inherited cm then
             map_option (\<lambda>message. case message of
                 Some m \<Rightarrow> cm\<lparr>retained := record_user_message (json_sizes_of h) m (source_of metadata) (retained cm)\<rparr>
               | None \<Rightarrow> cm)
               (retained_message i source)
           else Some cm))"

fun record_authorizations ::
    "'j host \<Rightarrow> 'j items \<Rightarrow> ('j, 'c, 'w) context_manager \<Rightarrow> ('j, 'c, 'w) context_manager option" where
  "record_authorizations h [] cm = Some cm"
| "record_authorizations h (e # es) cm =
     do { cm \<leftarrow> record_user_authorization h (item e) (env_metadata e) FromCheckpoint cm;
          record_authorizations h es cm }"

definition restore_retained_context ::
    "'j host \<Rightarrow> retained_context option \<Rightarrow> ('j, 'c, 'w) context_manager
     \<Rightarrow> ('j, 'c, 'w) context_manager option" where
  "restore_retained_context h checkpoint cm =
     (let cm = cm\<lparr>retained := restore (json_sizes_of h) checkpoint (history_items cm)\<rparr>
      in if retain_inherited cm \<and> \<not> has_inherited_user_messages (retained cm) then
           record_authorizations h (filter (\<lambda>e. is_inherited (env_metadata e)) (history_items cm)) cm
         else Some cm)"

section \<open>Recording items\<close>

definition truncation_policy_for :: "truncation_policy \<Rightarrow> harness_metadata option \<Rightarrow> truncation_policy" where
  "truncation_policy_for policy metadata =
     (case Option.bind metadata fallback_token_limit_override of
        Some tokens \<Rightarrow> Tokens tokens
      | None \<Rightarrow> scale_policy policy)"

fun truncate_item ::
    "'j host \<Rightarrow> truncation_policy \<Rightarrow> 'j response_item \<Rightarrow> 'j response_item option" where
  "truncate_item h policy (FunctionCallOutput i c n ns out m) =
     map_option (\<lambda>out. FunctionCallOutput i c n ns out m)
       (truncate_function_output_payload out policy (estimate_audio_token_count (meters_of h)))"
| "truncate_item h policy (CustomToolCallOutput i c n out m) =
     map_option (\<lambda>out. CustomToolCallOutput i c n out m)
       (truncate_function_output_payload out policy (estimate_audio_token_count (meters_of h)))"
| "truncate_item h policy i = Some i"

definition record_review ::
    "'j host \<Rightarrow> 'j response_item \<Rightarrow> 'j response_item
     \<Rightarrow> ('j, 'c, 'w) context_manager \<Rightarrow> ('j, 'c, 'w) context_manager" where
  "record_review h i processed cm =
     (case review_history cm of
        Some history \<Rightarrow>
          (if is_contextual_user_message h i then cm
           else cm\<lparr>review_history := Some (record_transcript (item_sizes_of h) processed history)\<rparr>)
      | None \<Rightarrow> cm)"

definition record_item ::
    "'j host \<Rightarrow> truncation_policy \<Rightarrow> 'j response_item \<times> harness_metadata option
     \<Rightarrow> ('j, 'c, 'w) context_manager \<Rightarrow> ('j, 'c, 'w) context_manager option" where
  "record_item h policy im cm =
     (case im of (i, metadata) \<Rightarrow>
        if \<not> is_api_message i metadata then Some cm
        else do {
          processed \<leftarrow> truncate_item h (truncation_policy_for policy metadata) i;
          let cm = record_review h i processed cm;
          let cm = cm\<lparr>history_items := history_items cm @ [\<lparr>item = processed, env_metadata = metadata\<rparr>]\<rparr>;
          record_user_authorization h i metadata FromOriginal cm
        })"

fun record_items_with_metadata ::
    "'j host \<Rightarrow> truncation_policy \<Rightarrow> ('j response_item \<times> harness_metadata option) list
     \<Rightarrow> ('j, 'c, 'w) context_manager \<Rightarrow> ('j, 'c, 'w) context_manager option" where
  "record_items_with_metadata h policy [] cm = Some cm"
| "record_items_with_metadata h policy (im # ims) cm =
     do { cm \<leftarrow> record_item h policy im cm; record_items_with_metadata h policy ims cm }"

definition record_items ::
    "'j host \<Rightarrow> 'j response_item list \<Rightarrow> truncation_policy
     \<Rightarrow> ('j, 'c, 'w) context_manager \<Rightarrow> ('j, 'c, 'w) context_manager option" where
  "record_items h items policy cm = record_items_with_metadata h policy (map (\<lambda>i. (i, None)) items) cm"

definition record_annotated_items ::
    "'j host \<Rightarrow> 'j items \<Rightarrow> truncation_policy
     \<Rightarrow> ('j, 'c, 'w) context_manager \<Rightarrow> ('j, 'c, 'w) context_manager option" where
  "record_annotated_items h items policy cm =
     record_items_with_metadata h policy (map (\<lambda>e. (item e, env_metadata e)) items) cm"

definition record_retained_context ::
    "'j host \<Rightarrow> retained_event \<Rightarrow> ('j, 'c, 'w) context_manager \<Rightarrow> ('j, 'c, 'w) context_manager \<times> bool" where
  "record_retained_context h event cm =
     (case record_event (json_sizes_of h) event (retained cm) of
        (ctx, recorded) \<Rightarrow>
          (if recorded then (cm\<lparr>retained := ctx, user_message_revision := sat_add (user_message_revision cm) 1\<rparr>, True)
           else (cm\<lparr>retained := ctx\<rparr>, False)))"

definition reserve_input_order :: "('j, 'c, 'w) context_manager \<Rightarrow> ('j, 'c, 'w) context_manager \<times> nat" where
  "reserve_input_order cm =
     (case reserve_order (retained cm) of (ctx, n) \<Rightarrow> (cm\<lparr>retained := ctx\<rparr>, n))"

definition for_prompt ::
    "bool \<Rightarrow> (str \<Rightarrow> str) \<Rightarrow> input_modality list \<Rightarrow> ('j, 'c, 'w) context_manager \<Rightarrow> 'j response_item list option" where
  "for_prompt debug uuid5 modalities cm =
     map_option (map item) (normalize_history debug uuid5 modalities (history_items cm))"

section \<open>Checkpoints\<close>

definition guardian_history_checkpoint :: "('j, 'c, 'w) context_manager \<Rightarrow> 'j response_item list option" where
  "guardian_history_checkpoint cm =
     (if context_mode cm = ThreadOwned then None
      else map_option (\<lambda>history. map fst (tr_items history)) (review_history cm))"

text \<open>
  The excerpt of an original message, when there is one. Cutting the text for a reviewer never
  panics (\<open>guardian_text_cut\<close>), so that its \<open>None\<close> does not occur.
\<close>

definition excerpt_for ::
    "'j host \<Rightarrow> 'j response_item list \<Rightarrow> str \<Rightarrow> str option" where
  "excerpt_for h originals i =
     (case List.find (\<lambda>original. item_id original = Some i) originals of
        None \<Rightarrow> None
      | Some original \<Rightarrow>
          Option.bind (shown_user_message (hook_xml h) original)
            (\<lambda>words. map_option fst (guardian_truncate_text words GUARDIAN_MAX_ROOT_MESSAGE_TOKENS)))"

definition restore_review_context ::
    "'j host \<Rightarrow> retained_context option \<Rightarrow> 'j response_item list option
     \<Rightarrow> ('j, 'c, 'w) context_manager \<Rightarrow> ('j, 'c, 'w) context_manager option" where
  "restore_review_context h retained_checkpoint checkpoint cm =
     do {
       cm \<leftarrow> restore_retained_context h retained_checkpoint cm;
       Some (if context_mode cm = ThreadOwned then
               cm\<lparr>retained := recover_user_message_excerpts (json_sizes_of h)
                    (excerpt_for h ((case checkpoint of Some c \<Rightarrow> c | None \<Rightarrow> []) @ raw_items cm)) (retained cm),
                  review_history := None\<rparr>
             else
               (let next = sat_add (case review_history cm of
                    Some history \<Rightarrow> generation history | None \<Rightarrow> history_version cm) 1
                in cm\<lparr>review_history :=
                     map_option (\<lambda>c. reset_transcript (item_sizes_of h) c (new_transcript next)) checkpoint\<rparr>))
     }"

section \<open>Replacing the history\<close>

definition reviewed_items :: "'j host \<Rightarrow> 'j items \<Rightarrow> 'j response_item list" where
  "reviewed_items h items = filter (\<lambda>i. \<not> is_contextual_user_message h i) (map item items)"

definition replace_annotated ::
    "'j host \<Rightarrow> 'j items \<Rightarrow> ('j, 'c, 'w) context_manager \<Rightarrow> ('j, 'c, 'w) context_manager" where
  "replace_annotated h items cm =
     cm\<lparr>retained := default_retained,
        user_message_revision := sat_add (user_message_revision cm) 1,
        review_history := map_option (reset_transcript (item_sizes_of h) (reviewed_items h items)) (review_history cm),
        history_items := items,
        history_version := sat_add (history_version cm) 1,
        world_state_baseline := None\<rparr>"

definition replace_compacted ::
    "'j host \<Rightarrow> 'j items \<Rightarrow> ('j, 'c, 'w) context_manager \<Rightarrow> ('j, 'c, 'w) context_manager" where
  "replace_compacted h items cm =
     (let cm = (if context_mode cm = Legacy \<and> review_history cm = None then
                  cm\<lparr>review_history := Some (fold (record_transcript (item_sizes_of h))
                    (reviewed_items h (history_items cm)) (new_transcript (sat_add (history_version cm) 1)))\<rparr>
                else cm)
      in cm\<lparr>history_items := items, history_version := sat_add (history_version cm) 1,
            world_state_baseline := None\<rparr>)"

definition remove_first_item :: "('j, 'c, 'w) context_manager \<Rightarrow> ('j, 'c, 'w) context_manager" where
  "remove_first_item cm =
     (case history_items cm of
        [] \<Rightarrow> cm
      | removed # items \<Rightarrow>
          cm\<lparr>history_items := remove_corresponding_for (item removed) items, world_state_baseline := None\<rparr>)"

section \<open>Rolling back turns\<close>

text \<open>The walk over the context updates above the cut, with whether the reference is lost.\<close>

fun trim_pre_turn_context_updates :: "'j host \<Rightarrow> 'j items \<Rightarrow> nat \<Rightarrow> nat \<Rightarrow> nat \<times> bool" where
  "trim_pre_turn_context_updates h snapshot first 0 = (0, False)"
| "trim_pre_turn_context_updates h snapshot first (Suc n) =
     (if first < Suc n then
        (case item (snapshot ! n) of
           Message _ role content _ _ \<Rightarrow>
             (if role = lit ''developer'' \<and> is_contextual_dev_message_content content then
                (case trim_pre_turn_context_updates h snapshot first n of
                   (n, lost) \<Rightarrow> (n, lost \<or> has_non_contextual_dev_message_content content))
              else if role = lit ''user'' \<and> is_contextual_user_message_content (hook_xml h) content then
                trim_pre_turn_context_updates h snapshot first n
              else (Suc n, False))
         | _ \<Rightarrow> (Suc n, False))
      else (Suc n, False))"

text \<open>Developer messages of the first turn lose what the next step rebuilds.\<close>

definition retain_rebuildable :: "str \<Rightarrow> 'j envelope \<Rightarrow> 'j envelope option" where
  "retain_rebuildable first_turn_id e =
     (if turn_id (item e) = Some first_turn_id
         \<and> (case item e of Message _ role _ _ _ \<Rightarrow> role = lit ''developer'' | _ \<Rightarrow> False) then
        (case to_annotated_content (item e) of
           (_, None) \<Rightarrow> None
         | (i, Some content) \<Rightarrow>
             (let content = filter (\<lambda>(c, _). \<not> is_rebuilt_fragment c) content
              in if content = [] then None
                 else map_option (\<lambda>i. e\<lparr>item := i\<rparr>) (set_annotated_content i content)))
      else Some e)"

fun is_call_of :: "verified_answer \<Rightarrow> 'j envelope \<Rightarrow> bool" where
  "is_call_of a e \<longleftrightarrow>
     turn_id (item e) = Some (va_turn_id a) \<and> is_function_call (va_call_id a) (item e)"

definition rposition :: "('a \<Rightarrow> bool) \<Rightarrow> 'a list \<Rightarrow> nat option" where
  "rposition P xs = List.find (\<lambda>n. P (xs ! n)) (rev [0..<length xs])"

definition keeps_legacy_answer :: "'j items \<Rightarrow> nat \<Rightarrow> str list \<Rightarrow> verified_answer \<Rightarrow> bool" where
  "keeps_legacy_answer snapshot cut_idx removed_turns a =
     (case rposition (is_call_of a) snapshot of
        Some source_index \<Rightarrow> source_index < cut_idx
      | None \<Rightarrow> va_turn_id a \<notin> set removed_turns)"

definition drop_last_n_user_turns ::
    "'j host \<Rightarrow> nat \<Rightarrow> ('j, 'c, 'w) context_manager \<Rightarrow> ('j, 'c, 'w) context_manager" where
  "drop_last_n_user_turns h num_turns cm =
     (if num_turns = 0 then cm
      else
        (let snapshot = history_items cm in
         case user_message_positions h snapshot of
           [] \<Rightarrow> (replace_annotated h snapshot cm)\<lparr>retained := retained cm\<rparr>
         | first # positions \<Rightarrow>
             (let user_positions = first # positions;
                  boundary_idx = (if length user_positions \<le> num_turns then first
                                  else user_positions ! (length user_positions - num_turns));
                  removed = snapshot ! boundary_idx;
                  review = map_option (truncate_before (item removed)) (review_history cm);
                  (cut_idx, lost) = trim_pre_turn_context_updates h snapshot first boundary_idx;
                  retained_items = take cut_idx snapshot;
                  retained_items =
                    (case (cut_idx = first, turn_id (item (snapshot ! first))) of
                       (True, Some t) \<Rightarrow> List.map_filter (retain_rebuildable t) retained_items
                     | _ \<Rightarrow> retained_items);
                  removed_turns = List.map_filter (\<lambda>e. turn_id (item e)) (drop cut_idx snapshot);
                  ctx = (if context_mode cm = ThreadOwned then
                           rollback removed_turns (item_id (item removed)) (source_of (env_metadata removed)) (retained cm)
                         else retain_answers (keeps_legacy_answer snapshot cut_idx removed_turns) (retained cm));
                  cm = (if lost then cm\<lparr>reference_context_item := None\<rparr> else cm)
              in (replace_annotated h retained_items (cm\<lparr>review_history := None\<rparr>))
                   \<lparr>retained := ctx, review_history := review\<rparr>)))"

section \<open>Tokens\<close>

definition set_token_usage_full :: "i64 \<Rightarrow> ('j, 'c, 'w) context_manager \<Rightarrow> ('j, 'c, 'w) context_manager" where
  "set_token_usage_full window cm =
     cm\<lparr>token_info := Some (case token_info cm of
          Some info \<Rightarrow> fill_to_context_window window info | None \<Rightarrow> full_context_window window)\<rparr>"

definition update_token_info ::
    "token_usage \<Rightarrow> i64 option \<Rightarrow> ('j, 'c, 'w) context_manager \<Rightarrow> ('j, 'c, 'w) context_manager" where
  "update_token_info usage window cm = cm\<lparr>token_info := new_or_append (token_info cm) (Some usage) window\<rparr>"

definition set_token_info :: "token_usage_info option \<Rightarrow> ('j, 'c, 'w) context_manager \<Rightarrow> ('j, 'c, 'w) context_manager" where
  "set_token_info info cm = cm\<lparr>token_info := info\<rparr>"

definition estimate_token_count_with_base_instructions ::
    "'j host \<Rightarrow> str \<Rightarrow> ('j, 'c, 'w) context_manager \<Rightarrow> int" where
  "estimate_token_count_with_base_instructions h base_instructions cm =
     sat_i64 (i64_of_usize (approx_token_count base_instructions) + sum_tokens (meters_of h) (raw_items cm))"

fun is_encrypted_reasoning :: "'j response_item \<Rightarrow> bool" where
  "is_encrypted_reasoning (Reasoning _ _ _ (Some _) _) = True"
| "is_encrypted_reasoning _ = False"

definition get_non_last_reasoning_items_tokens :: "'j host \<Rightarrow> ('j, 'c, 'w) context_manager \<Rightarrow> int" where
  "get_non_last_reasoning_items_tokens h cm =
     (case rposition (is_user_turn_boundary h) (raw_items cm) of
        None \<Rightarrow> 0
      | Some last_user_index \<Rightarrow>
          sum_tokens (meters_of h) (filter is_encrypted_reasoning (take last_user_index (raw_items cm))))"

definition items_after_last_model_generated_item :: "('j, 'c, 'w) context_manager \<Rightarrow> 'j response_item list" where
  "items_after_last_model_generated_item cm =
     drop (case rposition is_model_generated_item (raw_items cm) of
             Some index \<Rightarrow> index + 1 | None \<Rightarrow> length (raw_items cm)) (raw_items cm)"

definition get_total_token_usage :: "'j host \<Rightarrow> bool \<Rightarrow> ('j, 'c, 'w) context_manager \<Rightarrow> int" where
  "get_total_token_usage h server_reasoning_included cm =
     (let last_tokens = (case token_info cm of
            Some info \<Rightarrow> sint (total_tokens (last_token_usage info)) | None \<Rightarrow> 0);
          after = sum_tokens (meters_of h) (items_after_last_model_generated_item cm)
      in if server_reasoning_included then sat_i64 (last_tokens + after)
         else sat_i64 (sat_i64 (last_tokens + get_non_last_reasoning_items_tokens h cm) + after))"

section \<open>What the context was last\<close>

definition set_reference_context_item :: "'c option \<Rightarrow> ('j, 'c, 'w) context_manager \<Rightarrow> ('j, 'c, 'w) context_manager" where
  "set_reference_context_item i cm = cm\<lparr>reference_context_item := i\<rparr>"

definition set_world_state_baseline :: "'w \<Rightarrow> ('j, 'c, 'w) context_manager \<Rightarrow> ('j, 'c, 'w) context_manager" where
  "set_world_state_baseline snapshot cm = cm\<lparr>world_state_baseline := Some snapshot\<rparr>"

text \<open>
  What the world looks like and how a difference is rendered and merged are arguments of
  \<open>update_world_state\<close>.
\<close>

datatype 'w world_state_item = FullState 'w | PatchState 'w

definition update_world_state ::
    "'w \<Rightarrow> ('w option \<Rightarrow> 'j response_item list \<Rightarrow> 'f list) \<Rightarrow> ('w \<Rightarrow> 'w \<Rightarrow> 'w option)
     \<Rightarrow> ('j, 'c, 'w) context_manager
     \<Rightarrow> ('j, 'c, 'w) context_manager \<times> 'f list \<times> 'w world_state_item option" where
  "update_world_state snapshot render_history_diff merge_patch cm =
     (cm\<lparr>world_state_baseline := Some snapshot\<rparr>,
      render_history_diff (world_state_baseline cm) (raw_items cm),
      case world_state_baseline cm of
        None \<Rightarrow> Some (FullState snapshot)
      | Some previous \<Rightarrow> map_option PatchState (merge_patch snapshot previous))"

text \<open>One successfully appended checkpoint makes the images of its items durable.\<close>

definition mark_checkpoint_images ::
    "str list \<Rightarrow> ('j, 'c, 'w) context_manager \<Rightarrow> ('j, 'c, 'w) context_manager" where
  "mark_checkpoint_images checkpoint_ids cm =
     cm\<lparr>history_items := map (\<lambda>e.
         if (case item_id (item e) of Some i \<Rightarrow> i \<in> set checkpoint_ids | None \<Rightarrow> False)
         then hd (mark_inline_images_persisted [e]) else e) (history_items cm)\<rparr>"

section \<open>Snapshots\<close>

text \<open>What an extension sees of the history.\<close>

record 'j shared_history =
  shared_items :: "'j items"
  shared_review :: "'j transcript option"
  shared_retained :: retained_context
  shared_mode :: guardian_context_mode
  shared_version :: nat
  shared_revision :: nat

definition conversation_history_snapshot :: "('j, 'c, 'w) context_manager \<Rightarrow> 'j shared_history" where
  "conversation_history_snapshot cm =
     \<lparr>shared_items = history_items cm, shared_review = review_history cm, shared_retained = retained cm,
      shared_mode = context_mode cm, shared_version = history_version cm, shared_revision = user_message_revision cm\<rparr>"

fun is_compaction :: "'j response_item \<Rightarrow> bool" where
  "is_compaction (Compaction _ _ _) = True"
| "is_compaction (ContextCompaction _ _ _) = True"
| "is_compaction _ = False"

definition latest_compaction_model_hash :: "'j shared_history \<Rightarrow> str option" where
  "latest_compaction_model_hash s =
     Option.bind (List.find (\<lambda>e. is_compaction (item e)) (rev (shared_items s)))
       (\<lambda>e. Option.bind (env_metadata e) compaction_model_hash)"

definition snapshot_retained :: "'j shared_history \<Rightarrow> retained_context option" where
  "snapshot_retained s = (if shared_mode s = ThreadOwned then Some (shared_retained s) else None)"

definition visible_items :: "'j host \<Rightarrow> 'j shared_history \<Rightarrow> 'j response_item list" where
  "visible_items h s = reviewed_items h (shared_items s)"

definition review_items :: "'j host \<Rightarrow> 'j shared_history \<Rightarrow> 'j response_item list" where
  "review_items h s =
     (case shared_review s of Some history \<Rightarrow> map fst (tr_items history) | None \<Rightarrow> visible_items h s)"

definition review_history_version :: "'j shared_history \<Rightarrow> nat" where
  "review_history_version s =
     (case shared_review s of Some history \<Rightarrow> generation history | None \<Rightarrow> shared_version s)"

end
