(* ===== verification/NormalizeCorrect.thy ===== *)
theory NormalizeCorrect
  imports Normalize
begin

text \<open>
  Normalizing a history in one line: every call is followed by the output it lacks, orphan
  outputs are gone, unsupported media are replaced, all else stays in order. The result is
  paired and normalizing it again changes nothing.
\<close>

section \<open>One pass\<close>

definition with_output :: "(str \<Rightarrow> str) \<Rightarrow> str list \<times> str list \<times> str list \<Rightarrow> 'j envelope \<Rightarrow> 'j items" where
  "with_output uuid5 ids e =
     e # (case missing_output uuid5 ids (item e) of Some (_, out) \<Rightarrow> [new_envelope out] | None \<Rightarrow> [])"

lemma insert_at_append: "length a = n \<Longrightarrow> insert_at n x (a @ b) = a @ x # b"
  by (simp add: insert_at_def)

lemma missing_outputs_inserted:
  "missing_outputs debug uuid5 ids (List.enumerate n items) = Some ms \<Longrightarrow> length pre = n \<Longrightarrow>
   fold (\<lambda>(idx, out). insert_at (idx + 1) out) (rev ms) (pre @ items)
     = pre @ concat (map (with_output uuid5 ids) items)"
proof (induction items arbitrary: n pre ms)
  case (Cons e items)
  show ?case
  proof (cases "missing_output uuid5 ids (item e)")
    case None
    with Cons.prems Cons.IH [of "Suc n" ms "pre @ [e]"] show ?thesis by (simp add: with_output_def)
  next
    case (Some ro)
    obtain reported out where ro: "ro = (reported, out)" by fastforce
    from Cons.prems Some ro obtain ms' where ms: "ms = (n, new_envelope out) # ms'"
      "missing_outputs debug uuid5 ids (List.enumerate (Suc n) items) = Some ms'"
      by (auto split: if_splits)
    from Cons.IH [OF ms(2), of "pre @ [e]"] Cons.prems(2) Some ro show ?thesis
      by (simp add: ms(1) with_output_def insert_at_def)
  qed
qed simp

definition reports_missing :: "str list \<times> str list \<times> str list \<Rightarrow> 'j response_item \<Rightarrow> bool" where
  "reports_missing ids i = (case missing_output (\<lambda>_. []) ids i of Some (r, _) \<Rightarrow> r | None \<Rightarrow> False)"

lemma missing_output_uuid: "map_option fst (missing_output f ids i) = map_option fst (missing_output g ids i)"
  by (cases ids; cases "(f, ids, i)" rule: missing_output.cases) auto

lemma reports_missing_iff: "reports_missing ids i \<longleftrightarrow> (\<exists>out. missing_output uuid5 ids i = Some (True, out))"
  using missing_output_uuid [of "\<lambda>_. []" ids i uuid5]
  by (cases "missing_output uuid5 ids i"; cases "missing_output (\<lambda>_. []) ids i") (auto simp: reports_missing_def)

lemma missing_outputs_None:
  "missing_outputs debug uuid5 ids (List.enumerate n items) = None
     \<longleftrightarrow> debug \<and> list_ex (\<lambda>e. reports_missing ids (item e)) items"
  by (induction items arbitrary: n) (auto simp: reports_missing_iff [of _ _ uuid5] split: option.splits)

lemma orphan_positions_retained:
  "orphan_positions debug ids (List.enumerate n items) = Some ps \<Longrightarrow>
   retain_positions ps n items = filter (\<lambda>e. \<not> is_orphan ids (item e)) items \<and> (\<forall>p \<in> set ps. n \<le> p)"
proof (induction items arbitrary: n ps)
  case (Cons e items)
  have no_hit: "retain_positions ps n (e # items) = e # retain_positions ps (Suc n) items" if "\<forall>p \<in> set ps. Suc n \<le> p"
    using that by (cases ps) auto
  show ?case
  proof (cases "is_orphan ids (item e)")
    case True
    with Cons.prems obtain ps' where ps: "ps = n # ps'"
      "orphan_positions debug ids (List.enumerate (Suc n) items) = Some ps'" by (auto split: if_splits)
    with True Cons.IH [OF ps(2)] show ?thesis by (auto dest: Suc_leD)
  next
    case False
    with Cons.prems Cons.IH [of "Suc n" ps] no_hit show ?thesis by (auto dest: Suc_leD)
  qed
qed simp

lemma orphan_positions_None:
  "orphan_positions debug ids (List.enumerate n items) = None
     \<longleftrightarrow> debug \<and> list_ex (\<lambda>e. is_orphan ids (item e)) items"
  by (induction items arbitrary: n) auto

lemma retain_positions_Nil [simp]: "retain_positions [] n xs = xs"
  by (induction xs arbitrary: n) auto

lemma ensure_call_outputs_present_eq:
  "ensure_call_outputs_present debug uuid5 items =
     (if debug \<and> list_ex (\<lambda>e. reports_missing (output_ids items) (item e)) items then None
      else Some (concat (map (with_output uuid5 (output_ids items)) items)))"
proof (cases "missing_outputs debug uuid5 (output_ids items) (List.enumerate 0 items)")
  case None
  then show ?thesis using missing_outputs_None [of debug uuid5 "output_ids items" 0 items]
    by (simp add: ensure_call_outputs_present_def)
next
  case (Some ms)
  then show ?thesis
    using missing_outputs_None [of debug uuid5 "output_ids items" 0 items] missing_outputs_inserted [OF Some, of "[]"]
    by (simp add: ensure_call_outputs_present_def)
qed

lemma remove_orphan_outputs_eq:
  "remove_orphan_outputs debug items =
     (if debug \<and> list_ex (\<lambda>e. is_orphan (call_ids items) (item e)) items then None
      else Some (filter (\<lambda>e. \<not> is_orphan (call_ids items) (item e)) items))"
proof (cases "orphan_positions debug (call_ids items) (List.enumerate 0 items)")
  case None
  then show ?thesis using orphan_positions_None [of debug "call_ids items" 0 items]
    by (simp add: remove_orphan_outputs_def)
next
  case (Some ps)
  then show ?thesis
    using orphan_positions_None [of debug "call_ids items" 0 items] orphan_positions_retained [OF Some]
    by (auto simp: remove_orphan_outputs_def)
qed

section \<open>Ids after the steps\<close>

lemma ids_of_Nil [simp]: "ids_of f [] = []"
  by (simp add: ids_of_def)

lemma ids_of_Cons [simp]: "ids_of f (e # es) = (case f (item e) of None \<Rightarrow> ids_of f es | Some c \<Rightarrow> c # ids_of f es)"
  by (simp add: ids_of_def split: option.split)

lemma ids_of_append [simp]: "ids_of f (a @ b) = ids_of f a @ ids_of f b"
  by (induction a) (auto split: option.split)

lemma in_ids_of: "c \<in> set (ids_of f items) \<longleftrightarrow> (\<exists>e \<in> set items. f (item e) = Some c)"
  by (induction items) (auto split: option.splits)

text \<open>A synthetic output is the output of its call and no call itself.\<close>

lemma missing_output_ids:
  assumes "missing_output uuid5 (fs, ts, cs) i = Some (r, out)"
  shows "function_output_id out = (if function_call_id i \<noteq> None then function_call_id i else None)"
    and "tool_search_output_id out = (if tool_search_call_id i \<noteq> None then tool_search_call_id i else None)"
    and "custom_tool_output_id out = (if custom_tool_call_id i \<noteq> None then custom_tool_call_id i else None)"
    and "function_call_id out = None" "tool_search_call_id out = None" "custom_tool_call_id out = None"
  using assms by (cases "(uuid5, (fs, ts, cs), i)" rule: missing_output.cases; auto simp: aborted_output_def split: if_splits)+

lemma missing_output_None_iff:
  "missing_output uuid5 (fs, ts, cs) i = None \<longleftrightarrow>
     pred_option (\<lambda>c. c \<in> set fs) (function_call_id i) \<and> pred_option (\<lambda>c. c \<in> set ts) (tool_search_call_id i)
     \<and> pred_option (\<lambda>c. c \<in> set cs) (custom_tool_call_id i)"
  by (cases "(uuid5, (fs, ts, cs), i)" rule: missing_output.cases) auto

fun client_search_id :: "'j response_item \<Rightarrow> str option" where
  "client_search_id (ToolSearchOutput _ (Some c) _ execution _ _) = (if execution \<noteq> lit ''server'' then Some c else None)"
| "client_search_id _ = None"

text \<open>Every call has an output and every output, but those of the server's searches, a call.\<close>

definition paired :: "'j items \<Rightarrow> bool" where
  "paired items \<longleftrightarrow>
     set (ids_of function_call_id items) = set (ids_of function_output_id items)
     \<and> set (ids_of custom_tool_call_id items) = set (ids_of custom_tool_output_id items)
     \<and> set (ids_of tool_search_call_id items) \<subseteq> set (ids_of tool_search_output_id items)
     \<and> set (ids_of client_search_id items) \<subseteq> set (ids_of tool_search_call_id items)"

lemma is_orphan_iff:
  "is_orphan (fs, ts, cs) i \<longleftrightarrow>
     (\<exists>c. function_output_id i = Some c \<and> c \<notin> set fs \<or> custom_tool_output_id i = Some c \<and> c \<notin> set cs
        \<or> client_search_id i = Some c \<and> c \<notin> set ts)"
  by (cases "((fs, ts, cs), i)" rule: is_orphan.cases) auto

lemma output_no_orphan:
  "function_output_id i = Some c \<Longrightarrow> is_orphan (fs, ts, cs) i \<longleftrightarrow> c \<notin> set fs"
  "custom_tool_output_id i = Some c \<Longrightarrow> is_orphan (fs, ts, cs) i \<longleftrightarrow> c \<notin> set cs"
  "tool_search_output_id i = Some c \<Longrightarrow> c \<in> set ts \<Longrightarrow> \<not> is_orphan (fs, ts, cs) i"
  subgoal by (cases i rule: function_output_id.cases) simp_all
  subgoal by (cases i rule: custom_tool_output_id.cases) simp_all
  subgoal by (cases i rule: tool_search_output_id.cases) simp_all
  done

lemma call_no_orphan:
  "function_call_id i = Some c \<Longrightarrow> \<not> is_orphan ids i"
  "tool_search_call_id i = Some c \<Longrightarrow> \<not> is_orphan ids i"
  "custom_tool_call_id i = Some c \<Longrightarrow> \<not> is_orphan ids i"
  subgoal by (cases ids; cases i rule: function_call_id.cases) simp_all
  subgoal by (cases ids; cases i rule: tool_search_call_id.cases) simp_all
  subgoal by (cases ids; cases i rule: custom_tool_call_id.cases) simp_all
  done

lemma orphan_no_call:
  assumes "is_orphan ids i"
  shows "function_call_id i = None" "tool_search_call_id i = None" "custom_tool_call_id i = None"
  using assms by (cases "(ids, i)" rule: is_orphan.cases; simp)+

lemma call_no_output:
  assumes "missing_output uuid5 ids i = Some x"
  shows "\<not> is_orphan ids' i"
  using assms by (cases "(uuid5, ids, i)" rule: missing_output.cases; cases ids') auto

lemma paired_iff:
  "paired items \<longleftrightarrow> (\<forall>e \<in> set items. missing_output uuid5 (output_ids items) (item e) = None)
     \<and> (\<forall>e \<in> set items. \<not> is_orphan (call_ids items) (item e))"
  unfolding paired_def output_ids_def call_ids_def missing_output_None_iff is_orphan_iff
  by (auto simp: in_ids_of option.pred_set set_eq_iff subset_iff split: option.splits)

section \<open>The normalized history\<close>

definition strip_media :: "input_modality list \<Rightarrow> 'j response_item \<Rightarrow> 'j response_item" where
  "strip_media modalities i =
     (let i = (if ImageInput \<in> set modalities then i else strip_image i)
      in if AudioInput \<in> set modalities then i else strip_audio i)"

definition paired_items :: "(str \<Rightarrow> str) \<Rightarrow> 'j items \<Rightarrow> 'j items" where
  "paired_items uuid5 items =
     concat (map (\<lambda>e. if is_orphan (call_ids items) (item e) then []
                      else with_output uuid5 (output_ids items) e) items)"

definition prompt_items :: "(str \<Rightarrow> str) \<Rightarrow> input_modality list \<Rightarrow> 'j items \<Rightarrow> 'j items" where
  "prompt_items uuid5 modalities items =
     map (\<lambda>e. e\<lparr>item := strip_media modalities (item e)\<rparr>) (paired_items uuid5 items)"

definition reported :: "'j items \<Rightarrow> 'j response_item \<Rightarrow> bool" where
  "reported items i \<longleftrightarrow> reports_missing (output_ids items) i \<or> is_orphan (call_ids items) i"

lemma strips_map:
  "strip_audio_when_unsupported modalities (strip_images_when_unsupported modalities items)
     = map (\<lambda>e. e\<lparr>item := strip_media modalities (item e)\<rparr>) items"
  by (simp add: strip_audio_when_unsupported_def strip_images_when_unsupported_def strip_media_def)

lemma with_output_calls:
  "ids_of function_call_id (with_output uuid5 ids e) = ids_of function_call_id [e]"
  "ids_of tool_search_call_id (with_output uuid5 ids e) = ids_of tool_search_call_id [e]"
  "ids_of custom_tool_call_id (with_output uuid5 ids e) = ids_of custom_tool_call_id [e]"
  by (cases ids; auto simp: with_output_def new_envelope_def missing_output_ids split: option.split)+

lemma call_ids_concat:
  assumes "\<And>e. ids_of f (g e) = ids_of f [e]"
  shows "ids_of f (concat (map g items)) = ids_of f items"
proof (induction items)
  case (Cons e items)
  with assms [of e] show ?case by (simp split: option.split)
qed simp

lemma call_ids_ensured: "call_ids (concat (map (with_output uuid5 ids) items)) = call_ids items"
  by (simp add: call_ids_def call_ids_concat with_output_calls)

lemma synthetic_no_orphan:
  assumes "e \<in> set items" and "missing_output uuid5 ids (item e) = Some (r, out)"
  shows "\<not> is_orphan (call_ids items) out"
proof -
  obtain fs ts cs where ids: "ids = (fs, ts, cs)" by (metis surj_pair)
  note m = missing_output_ids [OF assms(2) [unfolded ids]]
  have "client_search_id out = None \<or> client_search_id out = tool_search_output_id out"
    by (cases out rule: client_search_id.cases) auto
  with m(1-3) assms(1) show ?thesis
    by (auto simp: call_ids_def is_orphan_iff in_ids_of split: if_splits)
qed

lemma filter_orphans_ensured:
  "e \<in> set items \<Longrightarrow> filter (\<lambda>e. \<not> is_orphan (call_ids items) (item e)) (with_output uuid5 ids e)
     = (if is_orphan (call_ids items) (item e) then [] else with_output uuid5 ids e)"
  using call_no_output [of uuid5 ids "item e" _ "call_ids items"] synthetic_no_orphan [of e items uuid5 ids]
  by (auto simp: with_output_def new_envelope_def split: option.split)

lemma normalize_history_eq:
  "normalize_history debug uuid5 modalities items =
     (if debug \<and> list_ex (\<lambda>e. reported items (item e)) items then None
      else Some (prompt_items uuid5 modalities items))"
proof -
  let ?ensured = "concat (map (with_output uuid5 (output_ids items)) items)"
  have "filter (\<lambda>e. \<not> is_orphan (call_ids items) (item e)) ?ensured = paired_items uuid5 items"
    unfolding paired_items_def filter_concat map_map comp_def
    by (rule arg_cong [of _ _ concat]) (simp add: filter_orphans_ensured)
  moreover have "list_ex (\<lambda>e. is_orphan (call_ids items) (item e)) ?ensured
      = list_ex (\<lambda>e. is_orphan (call_ids items) (item e)) items"
  proof -
    have "(\<exists>x \<in> set (with_output uuid5 (output_ids items) e). is_orphan (call_ids items) (item x))
        \<longleftrightarrow> is_orphan (call_ids items) (item e)" if "e \<in> set items" for e
      using synthetic_no_orphan [OF that, of uuid5 "output_ids items"]
      by (cases "missing_output uuid5 (output_ids items) (item e)") (auto simp: with_output_def new_envelope_def)
    then show ?thesis by (auto simp: list_ex_iff)
  qed
  ultimately show ?thesis
    by (auto simp: normalize_history_def ensure_call_outputs_present_eq remove_orphan_outputs_eq
        call_ids_ensured strips_map prompt_items_def reported_def list_ex_iff)
qed

lemma in_paired_items:
  "x \<in> set (paired_items uuid5 items) \<longleftrightarrow> (\<exists>e \<in> set items. \<not> is_orphan (call_ids items) (item e)
     \<and> (x = e \<or> (\<exists>r out. missing_output uuid5 (output_ids items) (item e) = Some (r, out) \<and> x = new_envelope out)))"
proof -
  have "x \<in> set (with_output uuid5 (output_ids items) e) \<longleftrightarrow>
      x = e \<or> (\<exists>r out. missing_output uuid5 (output_ids items) (item e) = Some (r, out) \<and> x = new_envelope out)" for e
    by (cases "missing_output uuid5 (output_ids items) (item e)") (auto simp: with_output_def)
  then show ?thesis by (auto simp: paired_items_def)
qed

lemma call_ids_paired [simp]: "call_ids (paired_items uuid5 items) = call_ids items"
proof -
  have "ids_of f (paired_items uuid5 items) = ids_of f items"
    if f: "f = function_call_id \<or> f = tool_search_call_id \<or> f = custom_tool_call_id" for f
    unfolding paired_items_def
  proof (rule call_ids_concat)
    show "ids_of f (if is_orphan (call_ids items) (item e) then [] else with_output uuid5 (output_ids items) e) = ids_of f [e]" for e
      using f orphan_no_call [of "call_ids items" "item e"] by (auto simp: with_output_calls)
  qed
  then show ?thesis by (simp add: call_ids_def)
qed

lemma paired_items_calls:
  assumes "\<And>i c. callf i = Some c \<Longrightarrow> missing_output uuid5 (output_ids items) i = None \<Longrightarrow> c \<in> set (ids_of outf items)"
    and "\<And>i c r out. callf i = Some c \<Longrightarrow> missing_output uuid5 (output_ids items) i = Some (r, out) \<Longrightarrow> outf out = Some c"
    and "\<And>i c. outf i = Some c \<Longrightarrow> c \<in> set (ids_of callf items) \<Longrightarrow> \<not> is_orphan (call_ids items) i"
    and "\<And>i c. callf i = Some c \<Longrightarrow> \<not> is_orphan (call_ids items) i"
    and "e \<in> set items" "callf (item e) = Some c"
  shows "c \<in> set (ids_of outf (paired_items uuid5 items))"
proof (cases "missing_output uuid5 (output_ids items) (item e)")
  case None
  from assms(1) [OF assms(6) None] obtain e' where e': "e' \<in> set items" "outf (item e') = Some c"
    by (auto simp: in_ids_of)
  moreover have "c \<in> set (ids_of callf items)" using assms(5,6) by (auto simp: in_ids_of)
  ultimately have "e' \<in> set (paired_items uuid5 items)" using assms(3) by (auto simp: in_paired_items)
  with e' show ?thesis by (auto simp: in_ids_of)
next
  case (Some ro)
  obtain r out where "ro = (r, out)" by fastforce
  with Some assms(2) [OF assms(6)] assms(4) [OF assms(6)] assms(5)
  have "new_envelope out \<in> set (paired_items uuid5 items)" "outf out = Some c" by (auto simp: in_paired_items)
  then show ?thesis by (force simp: in_ids_of new_envelope_def)
qed

lemma paired_paired_items: "paired (paired_items uuid5 items)"
proof -
  let ?out = "paired_items uuid5 items"
  have orphans: "\<not> is_orphan (call_ids items) (item x)" if "x \<in> set ?out" for x
    using that synthetic_no_orphan [of _ items uuid5 "output_ids items"]
    by (auto simp: in_paired_items new_envelope_def)
  have kept: "set (ids_of f ?out) = set (ids_of f items)"
    if "f = function_call_id \<or> f = tool_search_call_id \<or> f = custom_tool_call_id" for f
    using that call_ids_paired [of uuid5 items] by (auto simp: call_ids_def)
  note m = missing_output_ids [of uuid5 "ids_of function_output_id items" "ids_of tool_search_output_id items"
      "ids_of custom_tool_output_id items", folded output_ids_def]
  note none = missing_output_None_iff [of uuid5 "ids_of function_output_id items" "ids_of tool_search_output_id items"
      "ids_of custom_tool_output_id items", folded output_ids_def]
  note facts = none m call_ids_def output_no_orphan call_no_orphan
  have f: "c \<in> set (ids_of function_output_id ?out)" if "e \<in> set items" "function_call_id (item e) = Some c" for e c
    using that by (intro paired_items_calls [where callf = function_call_id and outf = function_output_id])
      (auto simp: facts)
  have t: "c \<in> set (ids_of tool_search_output_id ?out)" if "e \<in> set items" "tool_search_call_id (item e) = Some c" for e c
    using that by (intro paired_items_calls [where callf = tool_search_call_id and outf = tool_search_output_id])
      (auto simp: facts)
  have c: "c \<in> set (ids_of custom_tool_output_id ?out)" if "e \<in> set items" "custom_tool_call_id (item e) = Some c" for e c
    using that by (intro paired_items_calls [where callf = custom_tool_call_id and outf = custom_tool_output_id])
      (auto simp: facts)
  have "set (ids_of function_output_id ?out) \<subseteq> set (ids_of function_call_id items)"
    "set (ids_of custom_tool_output_id ?out) \<subseteq> set (ids_of custom_tool_call_id items)"
    "set (ids_of client_search_id ?out) \<subseteq> set (ids_of tool_search_call_id items)"
    using orphans by (auto simp: in_ids_of [of _ _ ?out] call_ids_def is_orphan_iff)
  moreover have "set (ids_of function_call_id items) \<subseteq> set (ids_of function_output_id ?out)"
    using f by (auto simp: in_ids_of [of _ _ items])
  moreover have "set (ids_of custom_tool_call_id items) \<subseteq> set (ids_of custom_tool_output_id ?out)"
    using c by (auto simp: in_ids_of [of _ _ items])
  moreover have "set (ids_of tool_search_call_id items) \<subseteq> set (ids_of tool_search_output_id ?out)"
    using t by (auto simp: in_ids_of [of _ _ items])
  ultimately show ?thesis by (simp add: paired_def kept subset_antisym)
qed

section \<open>Media\<close>

fun shows_image :: "'j response_item \<Rightarrow> bool" where
  "shows_image (Message _ _ content _ _) = list_ex is_image content"
| "shows_image (FunctionCallOutput _ _ _ _ output _) =
     (case body output of ContentItems items \<Rightarrow> list_ex is_output_image items | Text _ \<Rightarrow> False)"
| "shows_image (CustomToolCallOutput _ _ _ output _) =
     (case body output of ContentItems items \<Rightarrow> list_ex is_output_image items | Text _ \<Rightarrow> False)"
| "shows_image (ImageGenerationCall _ _ _ result _) = (result \<noteq> [])"
| "shows_image _ = False"

fun shows_audio :: "'j response_item \<Rightarrow> bool" where
  "shows_audio (Message _ _ content _ _) = list_ex is_audio_content content"
| "shows_audio (FunctionCallOutput _ _ _ _ output _) =
     (case body output of ContentItems items \<Rightarrow> list_ex is_output_audio items | Text _ \<Rightarrow> False)"
| "shows_audio (CustomToolCallOutput _ _ _ output _) =
     (case body output of ContentItems items \<Rightarrow> list_ex is_output_audio items | Text _ \<Rightarrow> False)"
| "shows_audio _ = False"

definition supported :: "input_modality list \<Rightarrow> 'j response_item \<Rightarrow> bool" where
  "supported modalities i \<longleftrightarrow>
     (ImageInput \<in> set modalities \<or> \<not> shows_image i) \<and> (AudioInput \<in> set modalities \<or> \<not> shows_audio i)"

text \<open>A message whose contents all have their kind.\<close>

fun annotated :: "'j response_item \<Rightarrow> bool" where
  "annotated (Message _ _ content _ m) =
     (map_option length (Option.bind m content_item_kinds) = Some (length content))"
| "annotated _ = True"

definition kinds_of :: "content_item list \<Rightarrow> 'j passthrough option \<Rightarrow> str list" where
  "kinds_of content m =
     take (length content) (pad_kinds (length content)
       (case Option.bind m content_item_kinds of Some ks \<Rightarrow> ks | None \<Rightarrow> []))"

lemma length_kinds_of [simp]: "length (kinds_of content m) = length content"
  by (simp add: kinds_of_def pad_kinds_def)

lemma replace_content_Message:
  "replace_content P u (Message i role content phase m) =
     Message i role (map (\<lambda>c. if P c then InputText (media_text u) else c) content) phase
       (Some ((case m of Some x \<Rightarrow> x | None \<Rightarrow> default_passthrough)
         \<lparr>content_item_kinds := Some (map2 (\<lambda>c k. if P c then media_kind u else k) content (kinds_of content m))\<rparr>))"
proof -
  have z: "zip content (pad_kinds (length content) ks) = zip content (take (length content) (pad_kinds (length content) ks))" for ks
    by (rule nth_equalityI) (auto simp: pad_kinds_def nth_append)
  have fst_snd: "map fst (map (\<lambda>(c, k). if P c then media_fragment u else (c, k)) (zip cs ks))
        = map (\<lambda>c. if P c then InputText (media_text u) else c) cs"
      "map snd (map (\<lambda>(c, k). if P c then media_fragment u else (c, k)) (zip cs ks))
        = map2 (\<lambda>c k. if P c then media_kind u else k) cs ks"
    if "length cs = length ks" for cs ks
    using that by (induction cs ks rule: list_induct2) (auto simp: media_fragment_def)
  show ?thesis
    using fst_snd [of content "kinds_of content m"]
    by (cases m) (simp_all add: replace_content_def to_annotated_content_def set_annotated_content_def Let_def
        z kinds_of_def [symmetric] del: map_map)
qed

lemma replace_content_annotated: "annotated (replace_content P u (Message i role content phase m))"
  by (simp add: replace_content_Message)

lemma kinds_of_annotated:
  "annotated (Message i role content phase m) \<Longrightarrow> \<exists>x ks. m = Some x \<and> content_item_kinds x = Some ks
     \<and> kinds_of content m = ks \<and> length ks = length content"
  by (cases m) (auto simp: kinds_of_def pad_kinds_def)

lemma replace_content_nothing:
  assumes "annotated (Message i role content phase m)" "\<not> list_ex P content"
  shows "replace_content P u (Message i role content phase m) = Message i role content phase m"
proof -
  from kinds_of_annotated [OF assms(1)] obtain x ks where m: "m = Some x" "content_item_kinds x = Some ks"
    "kinds_of content m = ks" "length ks = length content" by blast
  have "map (\<lambda>c. if P c then InputText (media_text u) else c) content = content"
    using assms(2) by (intro map_idI) (auto simp: list_ex_iff)
  moreover have "map2 (\<lambda>c k. if P c then media_kind u else k) content ks = ks"
    using assms(2) m(4) by (intro nth_equalityI) (auto simp: list_ex_iff)
  ultimately show ?thesis using m by (cases x) (simp add: replace_content_Message)
qed

lemma replace_output_nothing:
  "\<not> (case body out of ContentItems items \<Rightarrow> list_ex P items | Text _ \<Rightarrow> False) \<Longrightarrow> replace_output P u out = out"
proof (cases "body out")
  case (ContentItems items)
  assume "\<not> (case body out of ContentItems items \<Rightarrow> list_ex P items | Text _ \<Rightarrow> False)"
  with ContentItems have "map (\<lambda>c. if P c then output_content.InputText (media_text u) else c) items = items"
    by (intro map_idI) (auto simp: list_ex_iff)
  with ContentItems show ?thesis by (cases out) (simp add: replace_output_def)
qed (simp add: replace_output_def)

lemma replace_output_body:
  "body (replace_output P u output) = (case body output of Text s \<Rightarrow> Text s
     | ContentItems items \<Rightarrow> ContentItems (map (\<lambda>c. if P c then output_content.InputText (media_text u) else c) items))"
  by (cases "body output") (auto simp: replace_output_def)

text \<open>What the two replacements leave.\<close>

lemma strip_image_effect:
  "\<not> shows_image (strip_image i)" "annotated (strip_image i)"
  "\<not> shows_image i \<Longrightarrow> annotated i \<Longrightarrow> strip_image i = i"
  "shows_audio (strip_image i) = shows_audio i"
proof -
  note content = replace_content_Message list_ex_iff replace_output_body
  show "\<not> shows_image (strip_image i)"
    by (cases i rule: strip_image.cases) (auto simp: content split: output_body.split)
  show "annotated (strip_image i)"
    by (cases i rule: strip_image.cases) (auto simp: content)
  show "strip_image i = i" if "\<not> shows_image i" "annotated i"
    using that by (cases i rule: strip_image.cases) (simp_all add: replace_content_nothing replace_output_nothing)
  show "shows_audio (strip_image i) = shows_audio i"
    by (cases i rule: strip_image.cases) (auto simp: content split: output_body.split elim!: is_image.elims is_output_image.elims)
qed

lemma strip_audio_effect:
  "\<not> shows_audio (strip_audio i)" "annotated (strip_audio i)"
  "\<not> shows_audio i \<Longrightarrow> annotated i \<Longrightarrow> strip_audio i = i"
  "shows_image (strip_audio i) = shows_image i"
proof -
  note content = replace_content_Message list_ex_iff replace_output_body
  show "\<not> shows_audio (strip_audio i)"
    by (cases i rule: strip_audio.cases) (auto simp: content split: output_body.split)
  show "annotated (strip_audio i)"
    by (cases i rule: strip_audio.cases) (auto simp: content)
  show "strip_audio i = i" if "\<not> shows_audio i" "annotated i"
    using that by (cases i rule: strip_audio.cases) (simp_all add: replace_content_nothing replace_output_nothing)
  show "shows_image (strip_audio i) = shows_image i"
    by (cases i rule: strip_audio.cases) (auto simp: content split: output_body.split elim!: is_audio_content.elims is_output_audio.elims)
qed

lemma strip_media_supported: "supported modalities (strip_media modalities i)"
  by (auto simp: supported_def strip_media_def strip_image_effect strip_audio_effect)

lemma strip_media_idem: "strip_media modalities (strip_media modalities i) = strip_media modalities i"
  using strip_image_effect(1,2) [of i] strip_audio_effect(1,2) [of "strip_image i"] strip_audio_effect(1,2) [of i]
  by (auto simp: strip_media_def Let_def strip_audio_effect(3,4) strip_image_effect(3))

lemma function_output_id_output [simp]: "function_output_id (FunctionCallOutput i c n ns out m) = c"
  by (cases c) simp_all

lemma strip_ids:
  assumes "f \<in> {function_call_id, tool_search_call_id, custom_tool_call_id, function_output_id,
    tool_search_output_id, custom_tool_output_id, client_search_id}"
  shows "f (strip_media modalities i) = f i"
proof -
  have "f (strip_image i) = f i" for i
    using assms by (cases i rule: strip_image.cases) (auto simp: replace_content_Message)
  moreover have "f (strip_audio i) = f i" for i
    using assms by (cases i rule: strip_audio.cases) (auto simp: replace_content_Message)
  ultimately show ?thesis by (simp add: strip_media_def Let_def)
qed

lemma ids_of_stripped:
  assumes "f \<in> {function_call_id, tool_search_call_id, custom_tool_call_id, function_output_id,
    tool_search_output_id, custom_tool_output_id, client_search_id}"
  shows "ids_of f (map (\<lambda>e. e\<lparr>item := strip_media modalities (item e)\<rparr>) items) = ids_of f items"
  using strip_ids [OF assms] by (induction items) (auto split: option.split)

lemma paired_prompt_items: "paired (prompt_items uuid5 modalities items)"
  using paired_paired_items [of uuid5 items] by (simp add: paired_def prompt_items_def ids_of_stripped)

lemma paired_items_paired:
  assumes "paired items"
  shows "paired_items uuid5 items = items"
proof -
  from assms have "missing_output uuid5 (output_ids items) (item e) = None" "\<not> is_orphan (call_ids items) (item e)"
    if "e \<in> set items" for e
    using that by (simp_all add: paired_iff [of items uuid5])
  then have "map (\<lambda>e. if is_orphan (call_ids items) (item e) then [] else with_output uuid5 (output_ids items) e) items
      = map (\<lambda>e. [e]) items" by (simp add: with_output_def)
  then show ?thesis unfolding paired_items_def by (simp only: concat_map_singleton map_ident)
qed

lemma paired_not_reported: "paired items \<Longrightarrow> \<not> list_ex (\<lambda>e. reported items (item e)) items"
  by (auto simp: reported_def list_ex_iff paired_iff [of items "\<lambda>_. []"] reports_missing_def)

section \<open>Removing an item with its counterpart\<close>

definition unique_ids :: "'j items \<Rightarrow> bool" where
  "unique_ids items \<longleftrightarrow>
     list_all (\<lambda>f. distinct (ids_of f items))
       [function_call_id, tool_search_call_id, custom_tool_call_id, function_output_id,
        tool_search_output_id, custom_tool_output_id]"

lemma remove_first_matching_ids:
  "(\<And>i. P i \<Longrightarrow> f i = None) \<Longrightarrow> ids_of f (remove_first_matching P items) = ids_of f items"
  by (induction items) (auto split: option.split)

lemma remove_first_matching_found:
  assumes "\<And>i. P i \<Longrightarrow> f i = Some c" "distinct (ids_of f items)" "list_ex (\<lambda>e. P (item e)) items"
  shows "set (ids_of f (remove_first_matching P items)) = set (ids_of f items) - {c}
    \<and> distinct (ids_of f (remove_first_matching P items))"
  using assms(2,3)
proof (induction items)
  case (Cons e items)
  show ?case
  proof (cases "P (item e)")
    case True
    with assms(1) Cons.prems(1) show ?thesis by (auto simp: assms(1))
  next
    case False
    with Cons.prems have ih: "set (ids_of f (remove_first_matching P items)) = set (ids_of f items) - {c}"
      "distinct (ids_of f (remove_first_matching P items))"
      using Cons.IH by (auto split: option.splits)
    obtain e' where "e' \<in> set items" "f (item e') = Some c"
      using Cons.prems(2) False assms(1) by (auto simp: list_ex_iff)
    then have "c \<in> set (ids_of f items)" by (auto simp: in_ids_of)
    with Cons.prems(1) False ih show ?thesis by (auto split: option.splits)
  qed
qed simp

lemma remove_first_matching_none:
  "\<not> list_ex (\<lambda>e. P (item e)) items \<Longrightarrow> remove_first_matching P items = items"
  by (induction items) auto

text \<open>The items whose id a family of functions reads are no items of another family.\<close>

lemma families_disjoint:
  "function_output_id i = Some c \<Longrightarrow> function_call_id i = None \<and> tool_search_call_id i = None \<and> custom_tool_call_id i = None
     \<and> tool_search_output_id i = None \<and> custom_tool_output_id i = None \<and> client_search_id i = None"
  "tool_search_output_id i = Some c \<Longrightarrow> function_call_id i = None \<and> tool_search_call_id i = None \<and> custom_tool_call_id i = None
     \<and> function_output_id i = None \<and> custom_tool_output_id i = None"
  "custom_tool_output_id i = Some c \<Longrightarrow> function_call_id i = None \<and> tool_search_call_id i = None \<and> custom_tool_call_id i = None
     \<and> function_output_id i = None \<and> tool_search_output_id i = None \<and> client_search_id i = None"
  "function_call_id i = Some c \<Longrightarrow> function_output_id i = None \<and> tool_search_output_id i = None \<and> custom_tool_output_id i = None
     \<and> tool_search_call_id i = None \<and> custom_tool_call_id i = None \<and> client_search_id i = None"
  "tool_search_call_id i = Some c \<Longrightarrow> function_output_id i = None \<and> tool_search_output_id i = None \<and> custom_tool_output_id i = None
     \<and> function_call_id i = None \<and> custom_tool_call_id i = None \<and> client_search_id i = None"
  "custom_tool_call_id i = Some c \<Longrightarrow> function_output_id i = None \<and> tool_search_output_id i = None \<and> custom_tool_output_id i = None
     \<and> function_call_id i = None \<and> tool_search_call_id i = None \<and> client_search_id i = None"
  subgoal by (cases i rule: function_output_id.cases) simp_all
  subgoal by (cases i rule: tool_search_output_id.cases) simp_all
  subgoal by (cases i rule: custom_tool_output_id.cases) simp_all
  subgoal by (cases i rule: function_call_id.cases) simp_all
  subgoal by (cases i rule: tool_search_call_id.cases) simp_all
  subgoal by (cases i rule: custom_tool_call_id.cases) simp_all
  done

lemma client_search_output: "client_search_id i = Some c \<Longrightarrow> tool_search_output_id i = Some c"
  by (cases i rule: client_search_id.cases) (auto split: if_splits)

lemma client_subset: "set (ids_of client_search_id items) \<subseteq> set (ids_of tool_search_output_id items)"
  using client_search_output by (fastforce simp: in_ids_of)

lemma client_removed: "set (ids_of client_search_id (remove_first_matching P items)) \<subseteq> set (ids_of client_search_id items)"
  by (induction items) (auto split: option.splits)

lemma call_matches:
  "is_function_call c i \<Longrightarrow> function_call_id i = Some c"
  "is_local_shell_call c i \<Longrightarrow> function_call_id i = Some c"
  "function_call_id i = Some c \<Longrightarrow> is_function_call c i \<or> is_local_shell_call c i"
  subgoal by (cases i rule: function_call_id.cases) simp_all
  subgoal by (cases i rule: function_call_id.cases) simp_all
  subgoal by (cases i rule: function_call_id.cases) simp_all
  done

lemma counterpart:
  "function_call_id i = Some c \<Longrightarrow> remove_corresponding_for i es = remove_first_matching (\<lambda>i. function_output_id i = Some c) es"
  "tool_search_call_id i = Some c \<Longrightarrow> remove_corresponding_for i es = remove_first_matching (\<lambda>i. tool_search_output_id i = Some c) es"
  "custom_tool_call_id i = Some c \<Longrightarrow> remove_corresponding_for i es = remove_first_matching (\<lambda>i. custom_tool_output_id i = Some c) es"
  "tool_search_output_id i = Some c \<Longrightarrow> remove_corresponding_for i es = remove_first_matching (\<lambda>i. tool_search_call_id i = Some c) es"
  "custom_tool_output_id i = Some c \<Longrightarrow> remove_corresponding_for i es = remove_first_matching (\<lambda>i. custom_tool_call_id i = Some c) es"
  "function_output_id i = Some c \<Longrightarrow> remove_corresponding_for i es =
     remove_first_matching (if list_ex (\<lambda>e. is_function_call c (item e)) es then is_function_call c else is_local_shell_call c) es"
  subgoal by (cases i rule: function_call_id.cases) simp_all
  subgoal by (cases i rule: tool_search_call_id.cases) simp_all
  subgoal by (cases i rule: custom_tool_call_id.cases) simp_all
  subgoal by (cases i rule: tool_search_output_id.cases) simp_all
  subgoal by (cases i rule: custom_tool_output_id.cases) simp_all
  subgoal by (cases i rule: function_output_id.cases) simp_all
  done

lemma no_counterpart:
  "function_call_id i = None \<Longrightarrow> tool_search_call_id i = None \<Longrightarrow> custom_tool_call_id i = None \<Longrightarrow>
   function_output_id i = None \<Longrightarrow> tool_search_output_id i = None \<Longrightarrow> custom_tool_output_id i = None \<Longrightarrow>
   remove_corresponding_for i es = es"
  by (cases "(i, es)" rule: remove_corresponding_for.cases) simp_all

lemma family_removed:
  assumes "c \<in> set (ids_of f es)" "distinct (ids_of f es)"
  shows "set (ids_of f (remove_first_matching (\<lambda>i. f i = Some c) es)) = set (ids_of f es) - {c}"
    and "distinct (ids_of f (remove_first_matching (\<lambda>i. f i = Some c) es))"
proof -
  have "list_ex (\<lambda>e. f (item e) = Some c) es" using assms(1) by (auto simp: in_ids_of list_ex_iff)
  with remove_first_matching_found [of "\<lambda>i. f i = Some c" f c es] assms(2)
  show "set (ids_of f (remove_first_matching (\<lambda>i. f i = Some c) es)) = set (ids_of f es) - {c}"
    and "distinct (ids_of f (remove_first_matching (\<lambda>i. f i = Some c) es))" by blast+
qed

lemma counterpart_kept:
  assumes "paired (e # es)" "unique_ids (e # es)"
  shows "paired (remove_corresponding_for (item e) es) \<and> unique_ids (remove_corresponding_for (item e) es)"
proof -
  note defs = paired_def unique_ids_def
  consider (fc) c where "function_call_id (item e) = Some c" | (tc) c where "tool_search_call_id (item e) = Some c"
    | (cc) c where "custom_tool_call_id (item e) = Some c" | (fo) c where "function_output_id (item e) = Some c"
    | (ts) c where "tool_search_output_id (item e) = Some c" | (co) c where "custom_tool_output_id (item e) = Some c"
    | (none) "function_call_id (item e) = None" "tool_search_call_id (item e) = None" "custom_tool_call_id (item e) = None"
      "function_output_id (item e) = None" "tool_search_output_id (item e) = None" "custom_tool_output_id (item e) = None"
    by (metis option.exhaust)
  then show ?thesis
  proof cases
    case fc
    note e = fc families_disjoint(4) [OF fc]
    let ?es = "remove_first_matching (\<lambda>i. function_output_id i = Some c) es"
    from assms e have "c \<in> set (ids_of function_output_id es)" "distinct (ids_of function_output_id es)" by (auto simp: defs)
    note removed = family_removed [OF this]
    have "ids_of f ?es = ids_of f es" if "f \<in> {function_call_id, tool_search_call_id, custom_tool_call_id, tool_search_output_id, custom_tool_output_id, client_search_id}" for f
      using that families_disjoint(1) by (intro remove_first_matching_ids) auto
    with assms e removed show ?thesis unfolding counterpart(1) [OF fc] by (auto simp: defs)
  next
    case cc
    note e = cc families_disjoint(6) [OF cc]
    let ?es = "remove_first_matching (\<lambda>i. custom_tool_output_id i = Some c) es"
    from assms e have "c \<in> set (ids_of custom_tool_output_id es)" "distinct (ids_of custom_tool_output_id es)" by (auto simp: defs)
    note removed = family_removed [OF this]
    have "ids_of f ?es = ids_of f es" if "f \<in> {function_call_id, tool_search_call_id, custom_tool_call_id, function_output_id, tool_search_output_id, client_search_id}" for f
      using that families_disjoint(3) by (intro remove_first_matching_ids) auto
    with assms e removed show ?thesis unfolding counterpart(3) [OF cc] by (auto simp: defs)
  next
    case co
    note e = co families_disjoint(3) [OF co]
    let ?es = "remove_first_matching (\<lambda>i. custom_tool_call_id i = Some c) es"
    from assms e have "c \<in> set (ids_of custom_tool_call_id es)" "distinct (ids_of custom_tool_call_id es)" by (auto simp: defs)
    note removed = family_removed [OF this]
    have "ids_of f ?es = ids_of f es" if "f \<in> {function_call_id, tool_search_call_id, function_output_id, tool_search_output_id, custom_tool_output_id, client_search_id}" for f
      using that families_disjoint(6) by (intro remove_first_matching_ids) auto
    with assms e removed show ?thesis unfolding counterpart(5) [OF co] by (auto simp: defs)
  next
    case tc
    note e = tc families_disjoint(5) [OF tc]
    let ?es = "remove_first_matching (\<lambda>i. tool_search_output_id i = Some c) es"
    from assms e have "c \<in> set (ids_of tool_search_output_id es)" "distinct (ids_of tool_search_output_id es)" by (auto simp: defs)
    note removed = family_removed [OF this]
    have "ids_of f ?es = ids_of f es" if "f \<in> {function_call_id, tool_search_call_id, custom_tool_call_id, function_output_id, custom_tool_output_id}" for f
      using that families_disjoint(2) by (intro remove_first_matching_ids) auto
    with assms e removed client_removed [of "\<lambda>i. tool_search_output_id i = Some c" es]
      client_subset [of ?es] show ?thesis unfolding counterpart(2) [OF tc] by (auto simp: defs)
  next
    case fo
    note e = fo families_disjoint(1) [OF fo]
    let ?P = "if list_ex (\<lambda>e. is_function_call c (item e)) es then is_function_call c else is_local_shell_call c"
    from assms e have c: "c \<in> set (ids_of function_call_id es)" "distinct (ids_of function_call_id es)"
      by (auto simp: defs)
    have P: "function_call_id i = Some c" if "?P i" for i using that call_matches by (auto split: if_splits)
    have "list_ex (\<lambda>e. ?P (item e)) es"
      using c(1) call_matches(3) by (auto simp: in_ids_of list_ex_iff)
    note removed = remove_first_matching_found [OF P c(2) this]
    have "ids_of f (remove_first_matching ?P es) = ids_of f es"
      if "f \<in> {tool_search_call_id, custom_tool_call_id, function_output_id, tool_search_output_id, custom_tool_output_id, client_search_id}" for f
      using that families_disjoint(4) [OF P] by (intro remove_first_matching_ids) auto
    with assms e removed show ?thesis unfolding counterpart(6) [OF fo] by (auto simp: defs)
  next
    case ts
    note e = ts families_disjoint(2) [OF ts]
    let ?es = "remove_first_matching (\<lambda>i. tool_search_call_id i = Some c) es"
    have unchanged: "?es = es" if "c \<notin> set (ids_of tool_search_call_id es)"
      using that by (intro remove_first_matching_none) (auto simp: list_ex_iff in_ids_of)
    have calls: "set (ids_of tool_search_call_id ?es) = set (ids_of tool_search_call_id es) - {c}"
      "distinct (ids_of tool_search_call_id ?es)"
      using assms e family_removed [of c tool_search_call_id es] unchanged
      by (cases "c \<in> set (ids_of tool_search_call_id es)"; auto simp: defs)+
    have same: "ids_of f ?es = ids_of f es" if "f \<in> {function_call_id, custom_tool_call_id, function_output_id,
        tool_search_output_id, custom_tool_output_id, client_search_id}" for f
      using that families_disjoint(5) by (intro remove_first_matching_ids) auto
    have "c \<notin> set (ids_of client_search_id es)"
      using assms e client_subset [of es] by (auto simp: defs)
    moreover have "set (ids_of tool_search_call_id es) \<subseteq> insert c (set (ids_of tool_search_output_id es))"
      "set (ids_of client_search_id es) \<subseteq> set (ids_of tool_search_call_id es)"
      using assms(1) e by (cases "client_search_id (item e)"; simp add: defs)+
    ultimately have "paired ?es"
      using assms(1) e calls(1) by (simp add: defs same) blast
    moreover have "unique_ids ?es"
      using assms(2) e calls(2) by (simp add: defs same)
    ultimately show ?thesis unfolding counterpart(4) [OF ts] ..
  next
    case none
    with assms client_search_output [of "item e"] show ?thesis
      by (cases "client_search_id (item e)") (auto simp: no_counterpart defs)
  qed
qed

section \<open>Properties\<close>

text \<open>
  C6. Normalizing a history does this and nothing else: each call is followed by the output
  it lacks, orphan outputs are left out, unsupported media are replaced, and the other items
  stay as they are and in order. It always returns, but for a debug build, which panics
  exactly when there is an orphan or a custom or shell call without an output.
\<close>

theorem normalize_history_exact:
  "normalize_history debug uuid5 modalities items =
     (if debug \<and> list_ex (\<lambda>e. reported items (item e)) items then None
      else Some (map (\<lambda>e. e\<lparr>item := strip_media modalities (item e)\<rparr>)
        (concat (map (\<lambda>e. if is_orphan (call_ids items) (item e) then []
                          else with_output uuid5 (output_ids items) e) items))))"
  by (simp add: normalize_history_eq prompt_items_def paired_items_def)

text \<open>
  What the model gets is well formed: every call has an output, every output a call, and
  no image or audio is left that the model does not support. To normalize that again changes
  nothing, not even the ids of the outputs that were added, and a debug build has nothing to
  complain about.
\<close>

theorem normalized_history_sound:
  "\<exists>out. normalize_history False uuid5 modalities items = Some out \<and> paired out
     \<and> list_all (\<lambda>e. supported modalities (item e)) out
     \<and> normalize_history debug uuid5 modalities out = Some out"
proof -
  let ?out = "prompt_items uuid5 modalities items"
  have "list_all (\<lambda>e. supported modalities (item e)) ?out"
    by (simp add: prompt_items_def list_all_iff strip_media_supported)
  moreover have "prompt_items uuid5 modalities ?out = ?out"
    unfolding prompt_items_def [of uuid5 modalities ?out] paired_items_paired [OF paired_prompt_items]
    by (simp add: prompt_items_def strip_media_idem)
  ultimately show ?thesis
    using paired_prompt_items [of uuid5 modalities items] paired_not_reported [of ?out] by (simp add: normalize_history_eq)
qed

end
