(* ===== verification/ContextualTextCorrect.thy ===== *)
theory ContextualTextCorrect
  imports ContextualText TruncationCorrect
begin

text \<open>
  Injected fragments are recognised when they come back with the history, they are never taken
  for the user's own words, and merging them into messages loses and reorders nothing.
\<close>

section \<open>Markers\<close>

lemma has_prefix_self [simp]: "has_prefix_ignore_case px (px @ s)"
  by (simp add: has_prefix_ignore_case_def eq_ignore_ascii_case_def)

lemma has_suffix_self [simp]: "has_suffix_ignore_case sx (s @ sx)"
proof -
  have "str_len (s @ sx) - str_len sx = str_len s" by simp
  then show ?thesis by (simp add: has_suffix_ignore_case_def eq_ignore_ascii_case_def)
qed

lemma trim_start_visible: "a \<noteq> [] \<Longrightarrow> \<not> is_whitespace (hd a) \<Longrightarrow> trim_start (a @ s) = a @ s"
  by (cases a) auto

lemma trim_end_visible: "b \<noteq> [] \<Longrightarrow> \<not> is_whitespace (last b) \<Longrightarrow> trim_end (s @ b) = s @ b"
  by (cases b rule: rev_cases) (auto simp flip: append_assoc)

lemma trim_visible_ends:
  assumes "a \<noteq> []" "\<not> is_whitespace (hd a)" "b \<noteq> []" "\<not> is_whitespace (last b)"
  shows "trim (a @ s @ b) = a @ s @ b"
  using trim_start_visible [OF assms(1,2), of "s @ b"] trim_end_visible [OF assms(3,4), of "a @ s"]
  by (simp add: trim_def)

lemma matches_marked_self:
  assumes "a \<noteq> []" "\<not> is_whitespace (hd a)" "b \<noteq> []" "\<not> is_whitespace (last b)"
  shows "matches_marked_text a b (a @ s @ b)"
  using assms trim_start_visible [OF assms(1,2), of "s @ b"] trim_end_visible [OF assms(3,4), of "a @ s"]
    has_suffix_self [of b "a @ s"]
  by (simp add: matches_marked_text_def)

lemma marked_fragment:
  assumes "body_text (fragment_impl_of f) = Some m" "markers_of (fragment_impl_of f) = (a, b)"
    "matches_marked_text a b \<in> set CONTEXTUAL_USER_FRAGMENT_MATCHERS"
    "a \<noteq> [] \<and> \<not> is_whitespace (hd a) \<and> b \<noteq> [] \<and> \<not> is_whitespace (last b)"
  shows "\<exists>s. render (fragment_impl_of f) = Some s \<and> is_standard_contextual_user_text s"
proof -
  have "render (fragment_impl_of f) = Some (a @ m @ b)" using assms by (simp add: render_def)
  moreover have "matches_marked_text a b (a @ m @ b)" using assms(4) by (intro matches_marked_self) simp_all
  then have "is_standard_contextual_user_text (a @ m @ b)"
    using assms(3) unfolding is_standard_contextual_user_text_def list_ex_iff by blast
  ultimately show ?thesis by blast
qed

lemma str_find_first:
  "c \<notin> set a \<Longrightarrow> str_find (c # p) (a @ (c # p) @ b) = Some (length a)"
  by (induction a) (auto simp: starts_with_def)

lemma split_once_text_first:
  "c \<notin> set a \<Longrightarrow> split_once_text (c # p) (a @ (c # p) @ b) = Some (a, b)"
  using str_find_first [of c a p b] by (simp add: split_once_text_def)

lemma ends_with_append [simp]: "ends_with (s @ p) p"
  by (simp add: ends_with_def strip_suffix_def)

lemma additional_context_matches:
  assumes "62 \<notin> set k"
  shows "matches_additional_context (lit ''<external_'' @ (k @ lit ''>'' @ v @ lit ''</external_'' @ k) @ lit ''>'')"
proof -
  let ?t = "lit ''<external_'' @ (k @ lit ''>'' @ v @ lit ''</external_'' @ k) @ lit ''>''"
  have "trim ?t = ?t" by (rule trim_visible_ends) (simp_all add: lit_def is_whitespace_def)
  moreover have "split_once_text (lit ''>'') (k @ lit ''>'' @ v @ lit ''</external_'' @ k @ lit ''>'')
      = Some (k, v @ lit ''</external_'' @ k @ lit ''>'')"
    using split_once_text_first [of 62 k "[]"] assms by (simp add: lit_def)
  ultimately show ?thesis by (simp add: matches_additional_context_def)
qed

lemma valid_source_chars: "is_valid_source s \<Longrightarrow> c \<in> set s \<Longrightarrow> is_ascii_lowercase c \<or> is_ascii_digit c \<or> c = 95"
  by (cases s) (auto simp: is_valid_source_def list_all_iff)

lemma internal_context_matches:
  assumes "is_valid_source source"
  shows "matches_internal_context (lit ''<codex_internal_context''
    @ (lit '' source='' @ [34] @ source @ [34] @ lit ''>'' @ [LF] @ s @ [LF]) @ lit ''</codex_internal_context>'')"
proof -
  let ?t = "lit ''<codex_internal_context''
    @ (lit '' source='' @ [34] @ source @ [34] @ lit ''>'' @ [LF] @ s @ [LF]) @ lit ''</codex_internal_context>''"
  have "trim ?t = ?t" by (rule trim_visible_ends) (simp_all add: lit_def is_whitespace_def)
  moreover have "34 \<notin> set source"
    using valid_source_chars [OF assms, of 34] by (auto simp: is_ascii_lowercase_def is_ascii_digit_def)
  then have "split_once_text (34 # lit ''>'')
      (source @ [34] @ lit ''>'' @ [LF] @ s @ [LF] @ lit ''</codex_internal_context>'')
      = Some (source, [LF] @ s @ [LF] @ lit ''</codex_internal_context>'')"
    using split_once_text_first [of 34 source "lit ''>''" "[LF] @ s @ [LF] @ lit ''</codex_internal_context>''"]
    by simp
  moreover have "strip_prefix (lit '' source='' @ [34]) (lit '' source='' @ [34] @ r) = Some r" for r
    using strip_prefix_append [of "lit '' source='' @ [34]" r] by simp
  moreover have "ends_with ([LF] @ s @ [LF] @ lit ''</codex_internal_context>'') (lit ''</codex_internal_context>'')"
    using ends_with_append [of "[LF] @ s @ [LF]"] by simp
  ultimately show ?thesis using assms by (simp add: matches_internal_context_def Let_def)
qed

text \<open>What the harness must respect: a key has no \<open>>\<close>, a source is valid, values have a length.\<close>

fun recognisable :: "fragment \<Rightarrow> bool" where
  "recognisable (AdditionalContext k v) \<longleftrightarrow> 62 \<notin> set k \<and> str_len v + 3 \<le> USIZE_MAX"
| "recognisable (InternalModelContext source _) \<longleftrightarrow> is_valid_source source"
| "recognisable _ \<longleftrightarrow> True"

lemma truncate_middle_total:
  "str_len v + 3 \<le> USIZE_MAX \<Longrightarrow> \<exists>r. truncate_middle_with_token_budget v n = Some r"
  by (auto simp: truncate_middle_with_token_budget_def truncate_with_byte_estimate_eq)

lemma recognised:
  assumes "recognisable f"
  shows "\<exists>s. render (fragment_impl_of f) = Some s \<and> is_standard_contextual_user_text s"
proof (cases f)
  case (AdditionalContext k v)
  with assms truncate_middle_total [of v] obtain r n
    where r: "truncate_middle_with_token_budget v MAX_ADDITIONAL_CONTEXT_VALUE_TOKENS = Some (r, n)"
    by force
  with AdditionalContext have "render (fragment_impl_of f) = Some (lit ''<external_'' @ (k @ lit ''>'' @ r @ lit ''</external_'' @ k) @ lit ''>'')"
    by (simp add: render_def additional_context_body_def fragment_impls lit_def)
  moreover from AdditionalContext assms
  have "matches_additional_context (lit ''<external_'' @ (k @ lit ''>'' @ r @ lit ''</external_'' @ k) @ lit ''>'')"
    by (intro additional_context_matches) simp
  ultimately show ?thesis
    by (auto simp: is_standard_contextual_user_text_def CONTEXTUAL_USER_FRAGMENT_MATCHERS_def)
next
  case (InternalModelContext source s)
  with assms internal_context_matches [of source s] show ?thesis
    by (auto simp: render_def fragment_impls is_standard_contextual_user_text_def CONTEXTUAL_USER_FRAGMENT_MATCHERS_def lit_def)
qed (rule marked_fragment, simp add: fragment_impls, simp add: fragment_impls, simp add: CONTEXTUAL_USER_FRAGMENT_MATCHERS_def,
     simp add: lit_def is_whitespace_def)+

section \<open>Messages of fragments\<close>

text \<open>A message of a fragment changes no authorization unless its kind claims the user.\<close>

fun harness_owned :: "fragment \<Rightarrow> bool" where
  "harness_owned (InternalModelContext source _) \<longleftrightarrow> is_valid_source source \<and> source \<noteq> lit ''user''"
| "harness_owned _ \<longleftrightarrow> True"

lemma starts_with_appended: "starts_with s p \<longleftrightarrow> (\<exists>t. s = p @ t)"
  by (auto simp: starts_with_def strip_prefix_Some_iff)

lemma valid_source_kind:
  assumes "is_valid_source source"
  shows "is_user_kind (source @ lit ''.internal_context'') \<longleftrightarrow> source = lit ''user''"
proof -
  have dot: "46 \<notin> set source"
    using valid_source_chars [OF assms, of 46] by (auto simp: is_ascii_lowercase_def is_ascii_digit_def)
  have "source = lit ''user''" if "source @ lit ''.internal_context'' = lit ''user.'' @ t" for t
  proof -
    from that have "takeWhile (\<lambda>c. c \<noteq> 46) (source @ 46 # lit ''internal_context'')
        = takeWhile (\<lambda>c. c \<noteq> 46) (lit ''user'' @ 46 # t)"
      by (simp add: lit_def)
    moreover have "takeWhile (\<lambda>c. c \<noteq> 46) source = source" using dot by (auto simp: takeWhile_eq_all_conv)
    ultimately show ?thesis by (simp add: takeWhile_tail lit_def)
  qed
  moreover have "source @ lit ''.internal_context'' \<noteq> k"
    if "k \<in> set [[], lit ''unknown'', lit ''images.preparation_error'', lit ''images.unsupported'', lit ''audio.unsupported'']"
    for k
  proof
    assume eq: "source @ lit ''.internal_context'' = k"
    then have "drop (length k - 17) k = lit ''.internal_context''" "17 \<le> length k"
      by (auto simp: lit_def)
    with that show False by (auto simp: lit_def)
  qed
  ultimately show ?thesis
    by (auto simp: is_user_kind_def starts_with_appended) (auto simp: lit_def)
qed

lemma fragment_kind: "harness_owned f \<Longrightarrow> \<not> is_user_kind (kind_of (fragment_impl_of f))"
  by (cases f) (auto simp: fragment_impls valid_source_kind, auto simp: is_user_kind_def starts_with_appended lit_def)

section \<open>Merging\<close>

fun well_formed_group :: "str \<times> bool \<times> rendered_fragment list \<Rightarrow> bool" where
  "well_formed_group (role, alone, rs) \<longleftrightarrow>
     rs \<noteq> [] \<and> list_all (\<lambda>r. fragment_role r = role) rs \<and> (alone \<longrightarrow> length rs = 1)"

definition flat :: "(str \<times> bool \<times> rendered_fragment list) list \<Rightarrow> (bool \<times> rendered_fragment) list" where
  "flat groups = concat (map (\<lambda>(_, alone, rs). map (Pair alone) rs) (rev groups))"

lemma push_fragment_effect:
  assumes "list_all well_formed_group groups"
  shows "flat (push_fragment f groups) = flat groups @ [f] \<and> list_all well_formed_group (push_fragment f groups)"
  using assms by (cases f; cases groups) (auto simp: push_fragment_def flat_def)

lemma fold_push_effect:
  assumes "list_all well_formed_group groups"
  shows "flat (fold push_fragment fs groups) = flat groups @ fs \<and> list_all well_formed_group (fold push_fragment fs groups)"
  using assms by (induction fs arbitrary: groups) (simp_all add: push_fragment_effect)

lemma flat_group: "(role, own, rs) \<in> set groups \<Longrightarrow> r \<in> set rs \<Longrightarrow> (own, r) \<in> set (flat (rev groups))"
  by (induction groups) (auto simp: flat_def)

text \<open>What a message says, with the kinds of its parts.\<close>

definition annotated_of :: "'j response_item \<Rightarrow> annotated_content list" where
  "annotated_of i = (case snd (to_annotated_content i) of Some cs \<Rightarrow> cs | None \<Rightarrow> [])"

definition message_of :: "str \<times> bool \<times> rendered_fragment list \<Rightarrow> 'j response_item" where
  "message_of g = (case g of (role, _, rs) \<Rightarrow>
     Message None role (map (fst \<circ> annotated) rs) None
       (Some (default_passthrough\<lparr>content_item_kinds := Some (map (snd \<circ> annotated) rs)\<rparr>)))"

lemma built_group:
  "well_formed_group g \<Longrightarrow> build_rendered_message (snd (snd g)) = Some (message_of g)"
  by (cases g; cases "snd (snd g)") (auto simp: build_rendered_message_def message_of_def comp_def)

lemma built_groups:
  "list_all well_formed_group gs
     \<Longrightarrow> List.map_filter (\<lambda>(_, _, rs). build_rendered_message rs) gs = (map message_of gs :: 'j response_item list)"
proof (induction gs)
  case Nil
  show ?case by (simp add: List.map_filter_simps)
next
  case (Cons g gs)
  then have "build_rendered_message (snd (snd g)) = Some (message_of g :: 'j response_item)" by (simp add: built_group)
  with Cons show ?case by (simp add: List.map_filter_simps case_prod_beta)
qed

lemma merged_groups:
  "\<exists>groups. merge_contextual_fragments fs = (map message_of groups :: 'j response_item list)
     \<and> list_all well_formed_group groups \<and> flat (rev groups) = fs"
proof -
  let ?g = "rev (fold push_fragment fs [])"
  have wf: "list_all well_formed_group ?g" and "flat (rev ?g) = fs"
    using fold_push_effect [of "[]" fs] by (simp_all add: list_all_iff flat_def)
  moreover from wf have "merge_contextual_fragments fs = (map message_of ?g :: 'j response_item list)"
    unfolding merge_contextual_fragments_def by (rule built_groups)
  ultimately show ?thesis by blast
qed

lemma annotated_message_of: "annotated_of (message_of (role, alone, rs)) = map annotated rs"
proof -
  have "zip (map (fst \<circ> annotated) rs) (pad_kinds (length rs) (map (snd \<circ> annotated) rs)) = map annotated rs"
    by (induction rs) (auto simp: pad_kinds_def)
  then show ?thesis by (simp add: annotated_of_def message_of_def to_annotated_content_def)
qed

lemma authorization_of_message:
  assumes "well_formed_group (role, alone, rs)"
  shows "is_user_authorization_message (message_of (role, alone, rs))
    \<longleftrightarrow> role = lit ''user'' \<and> list_ex (\<lambda>r. is_user_kind (snd (annotated r))) rs"
  using assms by (auto simp: message_of_def list_ex_iff comp_def)

section \<open>Properties\<close>

text \<open>
  Every fragment the harness injects as a message of the user is recognised as injected
  when it is read back, whatever its text, provided that keys of additional context have no
  closing bracket and internal sources are valid.
\<close>

theorem injected_fragment_recognised:
  assumes "recognisable f"
  shows "\<exists>s. render (fragment_impl_of f) = Some s \<and> is_contextual_user_fragment hook_xml (InputText s)"
  using recognised [OF assms] by auto

theorem injected_fragment_recognised_witness:
  "\<exists>s. render (fragment_impl_of (InternalModelContext (lit ''goal_2'') (lit ''</codex_internal_context>''))) = Some s
     \<and> is_contextual_user_fragment (\<lambda>_. None) (InputText s)"
  by (rule injected_fragment_recognised) (simp add: is_valid_source_def lit_def is_ascii_lowercase_def is_ascii_digit_def)



text \<open>
  Merging fragments into messages keeps every part with its kind and all of them in their
  order, gives each message one role, and gives a fragment that asks for it a message of its own.
\<close>

theorem merging_keeps_fragments:
  "\<exists>groups. merge_contextual_fragments fs = (map message_of groups :: 'j response_item list)
     \<and> concat (map annotated_of (merge_contextual_fragments fs :: 'j response_item list)) = map (annotated \<circ> snd) fs
     \<and> list_all well_formed_group groups \<and> flat (rev groups) = fs"
proof -
  obtain groups where groups: "merge_contextual_fragments fs = (map message_of groups :: 'j response_item list)"
    "list_all well_formed_group groups" "flat (rev groups) = fs"
    using merged_groups by blast
  have "concat (map annotated_of (map message_of gs :: 'j response_item list)) = map (annotated \<circ> snd) (flat (rev gs))" for gs
    by (induction gs) (auto simp: annotated_message_of flat_def)
  from this [of groups] groups show ?thesis by (intro exI [of _ groups]) simp
qed

end
