(* ===== verification/ContextManagerCorrect.thy ===== *)
theory ContextManagerCorrect
  imports ContextManager NormalizeCorrect ContextualTextCorrect "HOL-Library.Sublist"
begin

text \<open>
  What the history of a thread promises: a rollback removes exactly the turns it is asked to,
  compaction leaves reviewers what they saw, readers notice by the versions when their offsets or
  the authorization they read are out of date, and recording never panics.
\<close>

section \<open>Boundaries\<close>

definition is_boundary_item :: "'j host \<Rightarrow> 'j envelope \<Rightarrow> bool" where
  "is_boundary_item h e = is_user_turn_boundary h (item e)"

fun positions_from :: "('a \<Rightarrow> bool) \<Rightarrow> nat \<Rightarrow> 'a list \<Rightarrow> nat list" where
  "positions_from P n [] = []"
| "positions_from P n (x # xs) = (if P x then [n] else []) @ positions_from P (Suc n) xs"

lemma user_message_positions_from:
  "user_message_positions h items = positions_from (is_boundary_item h) 0 items"
proof -
  have "List.map_filter (\<lambda>(idx, e). if is_user_turn_boundary h (item e) then Some idx else None) (List.enumerate n items)
      = positions_from (is_boundary_item h) n items" for n
    by (induction items arbitrary: n) (auto simp: List.map_filter_simps is_boundary_item_def)
  then show ?thesis by (simp add: user_message_positions_def)
qed

lemma length_positions_from [simp]: "length (positions_from P n xs) = length (filter P xs)"
  by (induction xs arbitrary: n) auto

lemma positions_from_ge: "n \<le> m \<Longrightarrow> p \<in> set (positions_from P m xs) \<Longrightarrow> n \<le> p"
  by (induction xs arbitrary: n m) (auto split: if_splits, fastforce)

lemma sorted_positions: "sorted_wrt (<) (positions_from P n xs)"
  by (induction xs arbitrary: n) (auto dest: positions_from_ge [of "Suc n" "Suc n" for n, OF order_refl])

lemma positions_from_nth:
  "k < length (filter P xs) \<Longrightarrow>
     n \<le> positions_from P n xs ! k \<and> positions_from P n xs ! k - n < length xs
     \<and> P (xs ! (positions_from P n xs ! k - n))
     \<and> length (filter P (take (positions_from P n xs ! k - n) xs)) = k"
proof (induction xs arbitrary: n k)
  case Nil
  then show ?case by simp
next
  case (Cons x xs)
  show ?case
  proof (cases "P x \<and> k = 0")
    case True
    then show ?thesis by simp
  next
    case False
    define m where "m = (if P x then k - 1 else k)"
    have m: "m < length (filter P xs)" "k = (if P x then Suc m else m)"
      using Cons.prems False by (auto simp: m_def)
    let ?p = "positions_from P (Suc n) xs ! m"
    note IH = Cons.IH [OF m(1), of "Suc n"]
    then have "Suc n \<le> ?p" by blast
    then have p: "?p - n = Suc (?p - Suc n)" by (rule Suc_diff_Suc [OF Suc_le_lessD, symmetric])
    have k: "positions_from P n (x # xs) ! k = ?p" using m(2) by simp
    from IH m(2) \<open>Suc n \<le> ?p\<close> show ?thesis unfolding k p by auto
  qed
qed

section \<open>The rollback walk\<close>

lemma trim_walk:
  assumes "trim_pre_turn_context_updates h snapshot first n = (c, lost)" "first \<le> n" "n \<le> length snapshot"
  shows "first \<le> c \<and> c \<le> n
    \<and> (\<forall>i \<in> {c..<n}. \<not> is_boundary_item h (snapshot ! i))"
  using assms
proof (induction n arbitrary: c lost)
  case 0
  then show ?case by simp
next
  case (Suc n)
  show ?case
  proof (cases "first < Suc n \<and> (case item (snapshot ! n) of
      Message _ role content _ _ \<Rightarrow>
        (role = lit ''developer'' \<and> is_contextual_dev_message_content content)
        \<or> (role = lit ''user'' \<and> is_contextual_user_message_content (hook_xml h) content)
      | _ \<Rightarrow> False)")
    case True
    then have walked: "\<exists>lost'. trim_pre_turn_context_updates h snapshot first n = (c, lost')"
      using Suc.prems(1) by (auto split: response_item.splits if_splits prod.splits)
    have "\<not> is_boundary_item h (snapshot ! n)"
      using True by (auto simp: is_boundary_item_def lit_def split: response_item.splits)
    with walked Suc.IH [of c] Suc.prems(2,3) True show ?thesis
      by (auto simp: less_Suc_eq)
  next
    case False
    then have "c = Suc n" using Suc.prems(1)
      by (auto split: response_item.splits if_splits)
    with Suc.prems show ?thesis by simp
  qed
qed

lemma count_take_trim:
  assumes "c \<le> n" "n \<le> length xs" "\<forall>i \<in> {c..<n}. \<not> P (xs ! i)"
  shows "length (filter P (take c xs)) = length (filter P (take n xs))"
proof -
  have "take n xs = take c xs @ take (n - c) (drop c xs)"
    using assms(1) by (metis le_add_diff_inverse take_add)
  moreover have "filter P (take (n - c) (drop c xs)) = []"
    using assms by (auto simp: filter_empty_conv in_set_conv_nth)
  ultimately show ?thesis by simp
qed

lemma retain_rebuildable_boundary:
  "length (filter (is_boundary_item h) (List.map_filter (retain_rebuildable t) es))
     = length (filter (is_boundary_item h) es)"
proof (induction es)
  case Nil
  show ?case by (simp add: List.map_filter_simps)
next
  case (Cons e es)
  have "retain_rebuildable t e = Some e \<or> \<not> is_boundary_item h e
      \<and> (retain_rebuildable t e = None \<or> (\<exists>e'. retain_rebuildable t e = Some e' \<and> \<not> is_boundary_item h e'))"
    by (auto simp: retain_rebuildable_def is_boundary_item_def to_annotated_content_def set_annotated_content_def
        Let_def lit_def split: response_item.splits)
  with Cons show ?case by (auto simp: List.map_filter_simps)
qed

lemma positions_from_first:
  "positions_from P n xs = f # ps \<Longrightarrow> f = n + length (takeWhile (\<lambda>x. \<not> P x) xs)"
  by (induction xs arbitrary: n) (fastforce split: if_splits)+

lemma no_positions: "positions_from P n xs = [] \<Longrightarrow> filter P xs = []"
  by (induction xs arbitrary: n) (auto split: if_splits)

lemma replace_annotated_items [simp]: "history_items (replace_annotated h items cm) = items"
  by (simp add: replace_annotated_def)

definition boundary_count :: "'j host \<Rightarrow> 'j items \<Rightarrow> nat" where
  "boundary_count h items = length (filter (is_boundary_item h) items)"

lemma boundary_count_positions: "length (user_message_positions h items) = boundary_count h items"
  by (simp add: user_message_positions_from boundary_count_def)

text \<open>What a rollback leaves of the items: a beginning, in which developer messages may be shorter.\<close>

definition kept_beginning :: "nat \<Rightarrow> 'j items \<Rightarrow> 'j items \<Rightarrow> bool" where
  "kept_beginning c snapshot items \<longleftrightarrow>
     items = take c snapshot \<or> (\<exists>t. items = List.map_filter (retain_rebuildable t) (take c snapshot))"

lemma kept_beginning_count:
  "kept_beginning c snapshot items \<Longrightarrow> boundary_count h items = boundary_count h (take c snapshot)"
  by (auto simp: kept_beginning_def boundary_count_def retain_rebuildable_boundary)

lemma drop_turns_items:
  assumes "0 < n" "user_message_positions h (history_items cm) = first # ps"
  shows "\<exists>c. kept_beginning c (history_items cm) (history_items (drop_last_n_user_turns h n cm))
    \<and> first \<le> c \<and> boundary_count h (take c (history_items cm)) = boundary_count h (history_items cm) - n"
proof -
  let ?S = "history_items cm" and ?ps = "first # ps"
  define k where "k = (if length ?ps \<le> n then 0 else length ?ps - n)"
  have ps: "positions_from (is_boundary_item h) 0 ?S = ?ps"
    using assms(2) by (simp add: user_message_positions_from)
  have len: "length ?ps = boundary_count h ?S" using ps by (metis boundary_count_def length_positions_from)
  have k: "k < length (filter (is_boundary_item h) ?S)" "k = boundary_count h ?S - n"
    using len assms(1) by (auto simp: k_def boundary_count_def)
  define b where "b = ?ps ! k"
  from positions_from_nth [OF k(1), of 0] have b: "b < length ?S" "boundary_count h (take b ?S) = k"
    by (simp_all add: ps b_def boundary_count_def)
  have "b = (if length ?ps \<le> n then first else ?ps ! (length ?ps - n))" by (simp add: b_def k_def)
  moreover obtain c lost where walk: "trim_pre_turn_context_updates h ?S first b = (c, lost)" by fastforce
  ultimately have kept: "kept_beginning c ?S (history_items (drop_last_n_user_turns h n cm))"
    using assms by (auto simp: drop_last_n_user_turns_def kept_beginning_def Let_def split: option.splits bool.splits)
  have "first \<le> b"
  proof (cases "k = 0")
    case True
    then show ?thesis by (simp add: b_def)
  next
    case False
    have "positions_from (is_boundary_item h) 0 ?S ! 0 \<le> positions_from (is_boundary_item h) 0 ?S ! k"
      using sorted_wrt_nth_less [OF sorted_positions [of "is_boundary_item h" 0 ?S], of 0 k] False k(1) by simp
    with ps show ?thesis by (simp add: b_def)
  qed
  with trim_walk [OF walk] b(1) have "first \<le> c" "c \<le> b" "\<forall>i \<in> {c..<b}. \<not> is_boundary_item h (?S ! i)" by auto
  moreover from count_take_trim [OF this(2) _ this(3)] b
  have "boundary_count h (take c ?S) = k" by (simp add: boundary_count_def)
  ultimately show ?thesis using kept k(2) by auto
qed

text \<open>
  C1. Rolling back \<open>n\<close> turns removes exactly the last \<open>n\<close> turn boundaries, or all when there are
  fewer. What is left is a beginning of the history, with everything before the first turn; only
  developer messages in it may lose fragments that the next step rebuilds.
\<close>

theorem rollback_drops_turns:
  "boundary_count h (history_items (drop_last_n_user_turns h n cm)) = boundary_count h (history_items cm) - n
   \<and> (\<exists>c. kept_beginning c (history_items cm) (history_items (drop_last_n_user_turns h n cm))
        \<and> length (takeWhile (\<lambda>e. \<not> is_boundary_item h e) (history_items cm)) \<le> c)"
proof (cases "n = 0 \<or> user_message_positions h (history_items cm) = []")
  case True
  have same: "history_items (drop_last_n_user_turns h n cm) = history_items cm"
    using True by (auto simp: drop_last_n_user_turns_def Let_def)
  have "boundary_count h (history_items cm) = boundary_count h (history_items cm) - n"
    using True by (auto simp: user_message_positions_from boundary_count_def dest: no_positions)
  moreover have "kept_beginning (length (history_items cm)) (history_items cm) (history_items cm)"
    by (simp add: kept_beginning_def)
  ultimately show ?thesis unfolding same using length_takeWhile_le by metis
next
  case False
  then obtain first ps where ps: "user_message_positions h (history_items cm) = first # ps" "0 < n"
    by (cases "user_message_positions h (history_items cm)") auto
  from drop_turns_items [OF ps(2,1)] obtain c where
    c: "kept_beginning c (history_items cm) (history_items (drop_last_n_user_turns h n cm))" "first \<le> c"
      "boundary_count h (take c (history_items cm)) = boundary_count h (history_items cm) - n" by blast
  have "first = length (takeWhile (\<lambda>e. \<not> is_boundary_item h e) (history_items cm))"
    using positions_from_first [of "is_boundary_item h" 0 "history_items cm" first ps] ps(1)
    by (simp add: user_message_positions_from)
  with c kept_beginning_count [OF c(1), of h] show ?thesis by auto
qed

end
