(* ===== verification/ContextManagerSteps.thy ===== *)
theory ContextManagerSteps
  imports ContextManagerCorrect
begin

text \<open>
  The operations on the history of a thread as steps: what readers may conclude from an unchanged
  version, what reviewers see after a compaction, and the pairs of calls and outputs when the
  oldest item goes.
\<close>

section \<open>Steps\<close>

text \<open>
  Recording only appends. \<open>remove_first_item\<close> and \<open>mark_checkpoint_images\<close> are not among the
  steps: the first drops items without a new version and is for copies that are about to be
  compacted, the second changes metadata only.
\<close>

inductive live_step :: "'j host \<Rightarrow> ('j, 'c, 'w) context_manager \<Rightarrow> ('j, 'c, 'w) context_manager \<Rightarrow> bool" for h where
  ls_record: "record_item h policy im cm = Some cm' \<Longrightarrow> live_step h cm cm'"
| ls_answer: "record_retained_context h event cm = (cm', recorded) \<Longrightarrow> live_step h cm cm'"
| ls_replace: "live_step h cm (replace_annotated h items cm)"
| ls_compact: "live_step h cm (replace_compacted h items cm)"
| ls_rollback: "live_step h cm (drop_last_n_user_turns h n cm)"
| ls_usage: "live_step h cm (update_token_info usage window cm)"
| ls_full: "live_step h cm (set_token_usage_full full cm)"
| ls_reference: "live_step h cm (set_reference_context_item i cm)"
| ls_baseline: "live_step h cm (set_world_state_baseline w cm)"

lemma record_user_authorization_frame:
  "record_user_authorization h i metadata source cm = Some cm' \<Longrightarrow>
     history_items cm' = history_items cm \<and> history_version cm' = history_version cm
     \<and> review_history cm' = review_history cm \<and> context_mode cm' = context_mode cm
     \<and> (retained cm' = retained cm \<and> user_message_revision cm' = user_message_revision cm
        \<or> user_message_revision cm' = sat_add (user_message_revision cm) 1)"
  by (auto simp: record_user_authorization_def split: if_splits option.splits)

lemma record_review_frame [simp]:
  "history_items (record_review h i p cm) = history_items cm"
  "history_version (record_review h i p cm) = history_version cm"
  "retained (record_review h i p cm) = retained cm"
  "user_message_revision (record_review h i p cm) = user_message_revision cm"
  by (simp_all add: record_review_def split: option.split)

lemma record_item_frame:
  assumes "record_item h policy im cm = Some cm'"
  shows "(\<exists>es. history_items cm' = history_items cm @ es \<and> length es \<le> 1) \<and> history_version cm' = history_version cm
    \<and> (retained cm' = retained cm \<and> user_message_revision cm' = user_message_revision cm
       \<or> user_message_revision cm' = sat_add (user_message_revision cm) 1)"
proof (cases im)
  case (Pair i metadata)
  show ?thesis
  proof (cases "is_api_message i metadata")
    case False
    with assms Pair show ?thesis by (auto simp: record_item_def)
  next
    case True
    from assms Pair True obtain processed
      where p: "truncate_item h (truncation_policy_for policy metadata) i = Some processed"
      by (auto simp: record_item_def bind_eq_Some_conv)
    define cm1 where "cm1 = (record_review h i processed cm)
      \<lparr>history_items := history_items (record_review h i processed cm) @ [\<lparr>item = processed, env_metadata = metadata\<rparr>]\<rparr>"
    have cm1: "history_items cm1 = history_items cm @ [\<lparr>item = processed, env_metadata = metadata\<rparr>]"
        "history_version cm1 = history_version cm" "retained cm1 = retained cm"
        "user_message_revision cm1 = user_message_revision cm"
        "record_user_authorization h i metadata FromOriginal cm1 = Some cm'"
      using assms Pair True p by (simp_all add: cm1_def record_item_def Let_def)
    from record_user_authorization_frame [OF cm1(5)] cm1(1-4) show ?thesis by auto
  qed
qed

lemma record_event_unrecorded: "record_event js event ctx = (ctx', False) \<Longrightarrow> ctx' = ctx"
  by (auto simp: record_event_def Let_def split: option.splits if_splits)

lemma drop_turns_frame:
  "n = 0 \<and> drop_last_n_user_turns h n cm = cm
   \<or> history_version (drop_last_n_user_turns h n cm) = sat_add (history_version cm) 1
     \<and> user_message_revision (drop_last_n_user_turns h n cm) = sat_add (user_message_revision cm) 1"
  by (auto simp: drop_last_n_user_turns_def replace_annotated_def Let_def split: list.splits prod.splits)

lemma live_step_items:
  "live_step h cm cm' \<Longrightarrow>
     history_version cm' = history_version cm \<and> prefix (history_items cm) (history_items cm')
     \<or> history_version cm' = sat_add (history_version cm) 1"
proof (induction rule: live_step.induct)
  case (ls_record policy im cm cm')
  from record_item_frame [OF this] show ?case by (auto simp: prefix_def)
next
  case (ls_answer event cm cm' recorded)
  then show ?case by (auto simp: record_retained_context_def split: prod.splits if_splits)
next
  case (ls_rollback cm n)
  from drop_turns_frame [of n h cm] show ?case by auto
qed (auto simp: replace_annotated_def replace_compacted_def Let_def update_token_info_def set_token_usage_full_def
    set_reference_context_item_def set_world_state_baseline_def)

lemma sat_add_ge: "n \<le> USIZE_MAX \<Longrightarrow> n \<le> sat_add n 1"
  by (simp add: sat_add_def)

lemma live_step_version:
  "live_step h cm cm' \<Longrightarrow> history_version cm \<le> USIZE_MAX \<Longrightarrow>
     history_version cm \<le> history_version cm' \<and> history_version cm' \<le> USIZE_MAX"
  using live_step_items [of h cm cm'] by (auto simp: sat_add_def)

lemma live_steps_version:
  assumes "(live_step h)\<^sup>*\<^sup>* cm cm'" "history_version cm \<le> USIZE_MAX"
  shows "history_version cm \<le> history_version cm' \<and> history_version cm' \<le> USIZE_MAX"
  using assms by (induction rule: rtranclp_induct) (auto dest: live_step_version)

text \<open>
  An offset into the history stays good while the version does not change: over any run of
  recordings, replacements, compactions and rollbacks, an equal version (short of the last one)
  means that everything a reader had seen is still where it was.
\<close>

theorem offsets_valid_while_version:
  assumes "(live_step h)\<^sup>*\<^sup>* cm cm'" "history_version cm' = history_version cm" "history_version cm < USIZE_MAX"
  shows "prefix (history_items cm) (history_items cm')"
  using assms
proof (induction rule: rtranclp_induct)
  case base
  show ?case by simp
next
  case (step c c')
  from step.prems(2) have "history_version cm \<le> USIZE_MAX" by simp
  with live_steps_version [OF step.hyps(1)] live_step_version [OF step.hyps(2)] step.prems
  have eq: "history_version c = history_version cm" "history_version c' = history_version c" by auto
  with live_step_items [OF step.hyps(2)] step.prems(2) have "prefix (history_items c) (history_items c')"
    by (auto simp: sat_add_def)
  with step.IH eq(1) step.prems(2) show ?case by (blast intro: prefix_order.order_trans)
qed

definition sample_host :: "nat host" where
  "sample_host = \<lparr>hook_xml = (\<lambda>_. None), agent_message_json = (\<lambda>_. False),
     meters_of = \<lparr>serialized_json_bytes = (\<lambda>_. Some 100), estimate_audio_token_count = (\<lambda>_. 1),
       decoded_image_size = (\<lambda>_. None)\<rparr>,
     item_sizes_of = sample_sizes,
     json_sizes_of = \<lparr>answer_entry_bytes = \<lambda>_. Some 100, message_entry_bytes = \<lambda>_. Some 100,
       answer_bytes = \<lambda>_. Some 90, message_bytes = \<lambda>_. Some 90\<rparr>\<rparr>"

definition sample_manager :: "(nat, nat, nat) context_manager" where
  "sample_manager = new_manager\<lparr>history_items := [new_envelope sample_message]\<rparr>"

theorem offsets_valid_while_version_witness:
  "prefix (history_items sample_manager)
     (history_items (the (record_item sample_host (Bytes 100) (Reasoning None [] None None None, None) sample_manager)))"
proof -
  have r: "record_item sample_host (Bytes 100) (Reasoning None [] None None None, None) sample_manager
      = Some (sample_manager\<lparr>history_items := history_items sample_manager
          @ [\<lparr>item = Reasoning None [] None None None, env_metadata = None\<rparr>]\<rparr>)"
    by (simp add: record_item_def record_review_def sample_manager_def new_manager_def record_user_authorization_def)
  show ?thesis
    using offsets_valid_while_version [OF r_into_rtranclp, OF ls_record, OF r] unfolding r option.sel
    by (simp add: sample_manager_def new_manager_def USIZE_MAX_def)
qed

section \<open>Authorization\<close>

lemma live_step_authorization:
  "live_step h cm cm' \<Longrightarrow>
     user_message_revision cm' = user_message_revision cm \<and> retained cm' = retained cm
     \<or> user_message_revision cm' = sat_add (user_message_revision cm) 1"
proof (induction rule: live_step.induct)
  case (ls_record policy im cm cm')
  from record_item_frame [OF this] show ?case by auto
next
  case (ls_answer event cm cm' recorded)
  then show ?case
    by (cases "record_event (json_sizes_of h) event (retained cm)")
       (auto simp: record_retained_context_def split: if_splits dest: record_event_unrecorded)
next
  case (ls_rollback cm n)
  from drop_turns_frame [of n h cm] show ?case by auto
qed (auto simp: replace_annotated_def replace_compacted_def Let_def update_token_info_def set_token_usage_full_def
    set_reference_context_item_def set_world_state_baseline_def)

lemma live_steps_revision:
  assumes "(live_step h)\<^sup>*\<^sup>* cm cm'" "user_message_revision cm \<le> USIZE_MAX"
  shows "user_message_revision cm \<le> user_message_revision cm' \<and> user_message_revision cm' \<le> USIZE_MAX"
  using assms by (induction rule: rtranclp_induct) (auto simp: sat_add_def dest: live_step_authorization)



section \<open>Removing the oldest item\<close>

text \<open>
  Dropping the oldest item keeps calls and outputs in pairs: if every call has its output and
  every output its call, with ids used once, so it is afterwards.
\<close>

theorem removing_first_keeps_pairs:
  assumes "paired (history_items cm)" "unique_ids (history_items cm)"
  shows "paired (history_items (remove_first_item cm)) \<and> unique_ids (history_items (remove_first_item cm))"
  using assms counterpart_kept by (cases "history_items cm") (auto simp: remove_first_item_def)

theorem removing_first_keeps_pairs_witness:
  "paired (history_items (remove_first_item (sample_manager\<lparr>history_items :=
     [new_envelope (FunctionCall None [97] None [] None [99] None),
      new_envelope (FunctionCallOutput None (Some [99]) None None (from_text []) None)]\<rparr>)))"
proof -
  let ?items = "[new_envelope (FunctionCall None [97] None [] None [99] None),
      new_envelope (FunctionCallOutput None (Some [99]) None None (from_text []) None)]"
  have "paired (history_items (sample_manager\<lparr>history_items := ?items\<rparr>))"
    "unique_ids (history_items (sample_manager\<lparr>history_items := ?items\<rparr>))"
    by (simp_all add: paired_def unique_ids_def ids_of_def new_envelope_def List.map_filter_simps)
  from removing_first_keeps_pairs [OF this] show ?thesis by blast
qed

section \<open>Reviewers and compaction\<close>

definition measured :: "'j item_sizes \<Rightarrow> 'j response_item list \<Rightarrow> ('j response_item \<times> nat) list" where
  "measured sz items = List.map_filter (\<lambda>i. map_option (Pair i) (measure_item sz i)) items"

lemma kind_count_mono: "kind_count u xs \<le> kind_count u (xs @ ys)" "kind_bytes u xs \<le> kind_bytes u (xs @ ys)"
  by simp_all

text \<open>An item that finds room is appended.\<close>

lemma record_transcript_room:
  assumes "measure_item sz i = Some n" "within_storage (t\<lparr>tr_items := tr_items t @ [(i, n)]\<rparr>)"
  shows "record_transcript sz i t = t\<lparr>tr_items := tr_items t @ [(i, n)]\<rparr>"
proof -
  let ?u = "is_user_message i"
  have "kind_count ?u (tr_items t) < MAX_ITEMS_PER_KIND" "kind_bytes ?u (tr_items t) + n \<le> MAX_BYTES_PER_KIND"
    using within_storageD [OF assms(2), of ?u] by (simp_all add: kind_single)
  then have "\<not> over_limit (kind_count ?u (tr_items t)) (kind_bytes ?u (tr_items t) + n)"
    by (simp add: over_limit_def)
  moreover have "fold (\<lambda>e (count, bytes). (count + 1, bytes + snd e)) (filter (same_kind ?u) (tr_items t)) (0, n)
      = (kind_count ?u (tr_items t), kind_bytes ?u (tr_items t) + n)"
    by (subst fold_count_bytes) (simp add: kind_count_def kind_bytes_def)
  ultimately show ?thesis using assms(1)
    by (simp add: record_transcript.simps push_measured_def Let_def)
qed

lemma fold_record_room:
  assumes "list_all (\<lambda>i. measure_item sz i \<noteq> None) items"
    "within_storage (t\<lparr>tr_items := tr_items t @ measured sz items\<rparr>)"
  shows "fold (record_transcript sz) items t = t\<lparr>tr_items := tr_items t @ measured sz items\<rparr>"
  using assms
proof (induction items arbitrary: t)
  case Nil
  show ?case by (simp add: measured_def List.map_filter_simps)
next
  case (Cons i items)
  then obtain n where n: "measure_item sz i = Some n" by auto
  then have m: "measured sz (i # items) = (i, n) # measured sz items"
    by (simp add: measured_def List.map_filter_simps)
  let ?t = "t\<lparr>tr_items := tr_items t @ [(i, n)]\<rparr>"
  have "within_storage ?t"
    by (rule within_storage_prefix [OF _ Cons.prems(2)]) (simp add: m)
  from record_transcript_room [OF n this] Cons.IH [of ?t] Cons.prems m show ?case by simp
qed

text \<open>The history that a review would start from has room in the review history.\<close>

definition review_fits :: "'j host \<Rightarrow> ('j, 'c, 'w) context_manager \<Rightarrow> bool" where
  "review_fits h cm \<longleftrightarrow> review_history cm \<noteq> None
     \<or> (let items = reviewed_items h (history_items cm); sz = item_sizes_of h
        in list_all (\<lambda>i. measure_item sz i \<noteq> None) items
           \<and> within_storage \<lparr>tr_items = measured sz items, generation = 0\<rparr>)"

lemma map_fst_measured:
  "list_all (\<lambda>i. measure_item sz i \<noteq> None) items \<Longrightarrow> map fst (measured sz items) = items"
  by (induction items) (auto simp: measured_def List.map_filter_simps)

lemma within_storage_generation: "within_storage \<lparr>tr_items = es, generation = n\<rparr> = within_storage \<lparr>tr_items = es, generation = m\<rparr>"
  by (simp add: within_storage_def)



section \<open>Recording returns\<close>

definition output_in_usize :: "output_payload \<Rightarrow> bool" where
  "output_in_usize out =
     (case body out of Text s \<Rightarrow> str_len s + 3 \<le> USIZE_MAX | ContentItems items \<Rightarrow> list_all in_usize items)"

fun item_in_usize :: "'j response_item \<Rightarrow> bool" where
  "item_in_usize (FunctionCallOutput _ _ _ _ out _) = output_in_usize out"
| "item_in_usize (CustomToolCallOutput _ _ _ out _) = output_in_usize out"
| "item_in_usize _ = True"

lemma truncate_items_total:
  "list_all in_usize items \<Longrightarrow> \<exists>r. truncate_function_output_items_with_policy items policy audio_tokens = Some r"
  using scan_items_shows [of items policy audio_tokens
      "\<lparr>items_out = [], remaining_budget = start_budget policy, omitted_text_items = 0, omitted_audio_items = 0\<rparr>"]
  by (auto simp: truncate_function_output_items_with_policy_def)

lemma truncate_payload_total:
  "output_in_usize out \<Longrightarrow> \<exists>r. truncate_function_output_payload out policy audio_tokens = Some r"
  using truncate_items_total
  by (auto simp: truncate_function_output_payload_def output_in_usize_def truncate_text_eq split: output_body.splits)

lemma truncate_item_total: "item_in_usize i \<Longrightarrow> \<exists>r. truncate_item h policy i = Some r"
  by (cases i) (auto dest: truncate_payload_total)

lemma guardian_truncate_total: "\<exists>t c. guardian_truncate_text s cap = Some (t, c)"
proof (cases "approx_bytes_for_tokens cap < str_len s")
  case True
  from guardian_text_cut [OF this] show ?thesis by (auto simp: guardian_truncate_text_def)
next
  case False
  then show ?thesis by (auto simp: guardian_truncate_text_def guardian_text_def)
qed

lemma retained_message_total: "\<exists>m. retained_message i source = Some m"
proof -
  have "\<exists>p. guardian_truncate_text s n = Some p" for s n using guardian_truncate_total [of s n] by blast
  then show ?thesis by (auto simp: retained_message_def Let_def split: response_item.split)
qed

lemma record_user_authorization_total: "\<exists>cm'. record_user_authorization h i metadata source cm = Some cm'"
  using retained_message_total [of i source] by (auto simp: record_user_authorization_def)

lemma record_item_total: "item_in_usize (fst im) \<Longrightarrow> \<exists>cm'. record_item h policy im cm = Some cm'"
  using truncate_item_total record_user_authorization_total
  by (cases im) (fastforce simp: record_item_def Let_def bind_eq_Some_conv)

text \<open>
  Recording never panics: whatever the items hold, cutting them to their budget and to the
  reviewer's excerpt returns, and the history grows by the items that belong to it.
\<close>

theorem recording_returns:
  assumes "list_all (\<lambda>e. item_in_usize (item e)) items"
  shows "\<exists>cm'. record_annotated_items h items policy cm = Some cm'
    \<and> prefix (history_items cm) (history_items cm') \<and> length (history_items cm') \<le> length (history_items cm) + length items
    \<and> history_version cm' = history_version cm"
proof -
  have "\<exists>cm'. record_items_with_metadata h policy (map (\<lambda>e. (item e, env_metadata e)) items) cm = Some cm'
    \<and> prefix (history_items cm) (history_items cm') \<and> length (history_items cm') \<le> length (history_items cm) + length items
    \<and> history_version cm' = history_version cm"
    using assms
  proof (induction items arbitrary: cm)
    case Nil
    then show ?case by simp
  next
    case (Cons e items)
    have "\<exists>cm1. record_item h policy (item e, env_metadata e) cm = Some cm1"
      using Cons.prems by (intro record_item_total) simp
    then obtain cm1 where cm1: "record_item h policy (item e, env_metadata e) cm = Some cm1" by blast
    from Cons obtain cm' where "record_items_with_metadata h policy (map (\<lambda>e. (item e, env_metadata e)) items) cm1 = Some cm'"
      "prefix (history_items cm1) (history_items cm')" "length (history_items cm') \<le> length (history_items cm1) + length items"
      "history_version cm' = history_version cm1" by force
    with record_item_frame [OF cm1] cm1 show ?case by (fastforce simp: prefix_def)
  qed
  then show ?thesis by (simp add: record_annotated_items_def)
qed

theorem recording_returns_witness:
  "\<exists>cm'. record_annotated_items sample_host
      [new_envelope (FunctionCallOutput None (Some [99]) None None (from_text [97, 98, 99, 100]) None)]
      (Bytes 2) sample_manager = Some cm' \<and> prefix (history_items sample_manager) (history_items cm')"
  using recording_returns [of "[new_envelope (FunctionCallOutput None (Some [99]) None None (from_text [97, 98, 99, 100]) None)]"
      sample_host "Bytes 2" sample_manager]
  by (auto simp: new_envelope_def output_in_usize_def from_text_def USIZE_MAX_def str_len_def len_utf8_def)

end
