(* ===== verification/RetainedContextCorrect.thy ===== *)
theory RetainedContextCorrect
  imports RetainedContext "HOL-Library.Sublist"
begin

text \<open>
  The retained facts stay within their limits whatever happens and whatever checkpoint is
  restored; nothing is lost without being marked; recording twice changes nothing; rolling
  back forgets exactly what came at or after the boundary.
\<close>

section \<open>Truncated ids\<close>

lemma longest_within_all: "str_len s \<le> n \<Longrightarrow> longest_within n s = s"
  by (induction s arbitrary: n) auto

lemma floor_char_boundary_truncates:
  "take_bytes (floor_char_boundary s n) s = Some (longest_within n s)"
  using take_floor_boundary [of s n] take_bytes_append [of s "[]"]
  by (auto simp: floor_char_boundary_def longest_within_all)

lemma truncate_id_short: "str_len (truncate_id s) \<le> 1024"
  using longest_within_split [of s 1024] by (auto simp: truncate_id_def)

lemma truncate_id_idem [simp]: "truncate_id (truncate_id s) = truncate_id s"
  using truncate_id_short [of s] by (simp add: truncate_id_def longest_within_all)

lemma bound_message_idem [simp]: "bound_message js (bound_message js m) = bound_message js m"
  by (cases "message_id m") (simp_all add: bound_message_def)

lemma bound_answer_idem [simp]: "bound_answer js (bound_answer js a) = bound_answer js a"
  by (simp add: bound_answer_def)

section \<open>Families within their limits\<close>

definition family_ok :: "('a ordered \<Rightarrow> nat option) \<Rightarrow> 'a ordered list \<Rightarrow> bool" where
  "family_ok bytes es \<longleftrightarrow> length es \<le> MAX_FAMILY_RECORDS
     \<and> \<not> exceeds (array_bytes bytes es) MAX_FAMILY_BYTES \<and> sorted (map key es)"

lemma evict_suffix:
  "evict bytes es b = (es', b') \<Longrightarrow> \<exists>dropped. es = dropped @ es' \<and> b' = (b \<or> dropped \<noteq> [])"
proof (induction es arbitrary: b)
  case (Cons e es)
  show ?case
  proof (cases "MAX_FAMILY_RECORDS < length (e # es) \<or> exceeds (array_bytes bytes (e # es)) MAX_FAMILY_BYTES")
    case True
    with Cons.prems have "evict bytes es True = (es', b')" by simp
    from Cons.IH [OF this] obtain dropped where "es = dropped @ es'" "b'" by auto
    then show ?thesis by (intro exI [of _ "e # dropped"]) simp
  qed (use Cons.prems in simp)
qed simp

lemma evict_ok: "evict bytes es b = (es', b') \<Longrightarrow> sorted (map key es) \<Longrightarrow> family_ok bytes es'"
proof (induction es arbitrary: b)
  case Nil
  then show ?case by (simp add: family_ok_def exceeds_def array_bytes_def MAX_FAMILY_BYTES_def)
next
  case (Cons e es)
  show ?case
  proof (cases "MAX_FAMILY_RECORDS < length (e # es) \<or> exceeds (array_bytes bytes (e # es)) MAX_FAMILY_BYTES")
    case True
    with Cons show ?thesis by simp
  next
    case False
    with Cons.prems have "es' = e # es" by simp
    with False Cons.prems(2) show ?thesis by (auto simp only: family_ok_def not_less)
  qed
qed

lemma bound_family_ok: "bound_family bytes es b = (es', b') \<Longrightarrow> family_ok bytes es'"
  unfolding bound_family_def by (erule evict_ok) simp

lemma bound_family_kept:
  "bound_family bytes es b = (es', b') \<Longrightarrow>
     set es' \<subseteq> set es \<and> (b' \<longleftrightarrow> b \<or> es' \<noteq> sort_key key es) \<and> (b' \<or> set es \<subseteq> set es')"
proof -
  assume "bound_family bytes es b = (es', b')"
  then obtain dropped where d: "sort_key key es = dropped @ es'" "b' = (b \<or> dropped \<noteq> [])"
    unfolding bound_family_def by (blast dest: evict_suffix)
  have "set es = set dropped \<union> set es'" using arg_cong [OF d(1), of set] by simp
  with d show ?thesis by auto
qed

lemma elements_bytes_subseq:
  "subseq xs ys \<Longrightarrow> elements_bytes bytes ys = Some n \<Longrightarrow> \<exists>m \<le> n. elements_bytes bytes xs = Some m"
proof (induction arbitrary: n rule: list_emb.induct)
  case (list_emb_Cons xs ys y)
  then show ?case by (fastforce split: option.splits)
next
  case (list_emb_Cons2 x y xs ys)
  from list_emb_Cons2.prems obtain a b where ab: "bytes y = Some a" "elements_bytes bytes ys = Some b"
    "n = a + (if ys = [] then 0 else 1) + b" by (auto split: option.splits)
  from list_emb_Cons2.IH [OF ab(2)] obtain m where "m \<le> b" "elements_bytes bytes xs = Some m" by blast
  moreover have "ys = [] \<Longrightarrow> xs = []" using list_emb_Cons2.hyps by simp
  ultimately show ?case using ab list_emb_Cons2.hyps(1) by auto
qed simp

lemma family_ok_filter:
  assumes "family_ok bytes es"
  shows "family_ok bytes (filter P es)"
proof -
  have "\<not> exceeds (array_bytes bytes (filter P es)) MAX_FAMILY_BYTES"
    using assms elements_bytes_subseq [OF subseq_filter_left, of bytes es _ P]
    by (auto simp: family_ok_def exceeds_def array_bytes_def split: option.splits)
  moreover have "length (filter P es) \<le> MAX_FAMILY_RECORDS"
    using assms length_filter_le [of P es] unfolding family_ok_def by linarith
  moreover have "sorted (map key (filter P es))"
    using assms sorted_filter [of key es P] by (simp add: family_ok_def)
  ultimately show ?thesis by (simp add: family_ok_def)
qed

text \<open>A record is small, or has given up its text.\<close>

definition message_ok :: "json_sizes \<Rightarrow> retained_user_message \<Rightarrow> bool" where
  "message_ok js m \<longleftrightarrow> \<not> exceeds (message_bytes js m) MAX_RECORD_BYTES
     \<or> um_text m = [] \<and> \<not> complete m \<and> str_len (um_turn_id m) \<le> 1024
        \<and> pred_option (\<lambda>i. str_len i \<le> 1024) (message_id m)"

definition answer_ok :: "json_sizes \<Rightarrow> verified_answer \<Rightarrow> bool" where
  "answer_ok js a \<longleftrightarrow> \<not> exceeds (answer_bytes js a) MAX_RECORD_BYTES
     \<or> questions a = [] \<and> str_len (va_turn_id a) \<le> 1024 \<and> str_len (va_call_id a) \<le> 1024"

lemma bound_message_ok: "message_ok js (bound_message js m)"
  by (cases "message_id m") (simp_all add: message_ok_def bound_message_def truncate_id_short)

lemma bound_answer_ok: "answer_ok js (bound_answer js a)"
  by (simp add: answer_ok_def bound_answer_def truncate_id_short)

text \<open>The next order is past every local one, unless the counter is at its end.\<close>

definition order_past :: "nat \<Rightarrow> 'a ordered \<Rightarrow> bool" where
  "order_past n e \<longleftrightarrow> inherited e \<or> order e < n \<or> USIZE_MAX \<le> n"

definition within_limits :: "json_sizes \<Rightarrow> retained_context \<Rightarrow> bool" where
  "within_limits js ctx \<longleftrightarrow>
     family_ok (answer_entry_bytes js) (verified_answers ctx)
     \<and> family_ok (message_entry_bytes js) (user_messages ctx)
     \<and> list_all (\<lambda>e. answer_ok js (value_of e) \<and> order_past (next_order ctx) e) (verified_answers ctx)
     \<and> list_all (\<lambda>e. message_ok js (value_of e) \<and> order_past (next_order ctx) e) (user_messages ctx)"

section \<open>Every operation stays within the limits\<close>

lemma order_past_mono: "order_past n e \<Longrightarrow> n \<le> m \<Longrightarrow> order_past m e"
  by (auto simp: order_past_def)

lemma order_past_sat: "order_past (max n (sat_add (order e) (Suc 0))) e"
  by (auto simp: order_past_def sat_add_def)

lemma list_all_mono': "list_all P xs \<Longrightarrow> (\<And>x. x \<in> set xs \<Longrightarrow> P x \<Longrightarrow> Q x) \<Longrightarrow> list_all Q xs"
  by (simp add: list_all_iff)

lemma within_limits_cong:
  "within_limits js ctx \<Longrightarrow> verified_answers ctx' = verified_answers ctx \<Longrightarrow> user_messages ctx' = user_messages ctx
   \<Longrightarrow> next_order ctx \<le> next_order ctx' \<or> USIZE_MAX \<le> next_order ctx' \<Longrightarrow> within_limits js ctx'"
  by (auto simp: within_limits_def list_all_iff order_past_def)

lemma bound_answers_within:
  assumes "family_ok (message_entry_bytes js) (user_messages ctx)"
    and "list_all (\<lambda>e. answer_ok js (value_of e) \<and> order_past (next_order ctx) e) (verified_answers ctx)"
    and "list_all (\<lambda>e. message_ok js (value_of e) \<and> order_past (next_order ctx) e) (user_messages ctx)"
  shows "within_limits js (bound_answers js ctx)"
proof -
  obtain es b where r: "bound_family (answer_entry_bytes js) (verified_answers ctx) (verified_answers_incomplete ctx) = (es, b)"
    by fastforce
  with bound_family_ok [OF r] bound_family_kept [OF r] assms show ?thesis
    by (auto simp: bound_answers_def within_limits_def list_all_iff)
qed

lemma bound_messages_within:
  assumes "family_ok (answer_entry_bytes js) (verified_answers ctx)"
    and "list_all (\<lambda>e. answer_ok js (value_of e) \<and> order_past (next_order ctx) e) (verified_answers ctx)"
    and "list_all (\<lambda>e. message_ok js (value_of e) \<and> order_past (next_order ctx) e) (user_messages ctx)"
  shows "within_limits js (bound_messages js ctx)"
proof -
  obtain es b where r: "bound_family (message_entry_bytes js) (user_messages ctx) (user_messages_incomplete ctx) = (es, b)"
    by fastforce
  with bound_family_ok [OF r] bound_family_kept [OF r] assms show ?thesis
    by (auto simp: bound_messages_def within_limits_def list_all_iff)
qed

lemma remove_first_subset: "set (remove_first P xs) \<subseteq> set xs"
  by (induction xs) auto

lemma record_order_effect:
  "record_order accepted ctx = (ctx', n) \<Longrightarrow> verified_answers ctx' = verified_answers ctx
     \<and> user_messages ctx' = user_messages ctx \<and> next_order ctx' = max (next_order ctx) (sat_add n 1)
     \<and> user_messages_incomplete ctx' = user_messages_incomplete ctx
     \<and> verified_answers_incomplete ctx' = verified_answers_incomplete ctx"
  by (auto simp: record_order_def Let_def)

lemma add_message_within:
  assumes "family_ok (answer_entry_bytes js) (verified_answers ctx)"
    and "list_all (\<lambda>e. answer_ok js (value_of e) \<and> order_past (next_order ctx) e) (verified_answers ctx)"
    and "list_all (\<lambda>e. message_ok js (value_of e) \<and> order_past (next_order ctx) e) (user_messages ctx)"
    and "message_ok js message"
  shows "within_limits js (add_message js message source ctx)"
proof (cases "source = InheritedInput")
  case True
  with assms show ?thesis
    by (auto simp: add_message_def order_past_def intro!: bound_messages_within)
next
  case False
  obtain ctx' n where r: "record_order (acceptance_order source) ctx = (ctx', n)" by fastforce
  note e = record_order_effect [OF r]
  have past: "order_past (next_order ctx') \<lparr>inherited = False, order = n, value_of = message\<rparr>"
    using e by (auto simp: order_past_def sat_add_def)
  have mono: "order_past (next_order ctx) x \<Longrightarrow> order_past (next_order ctx') x" for x :: "'a ordered"
    using e by (auto elim: order_past_mono)
  have "within_limits js (bound_messages js (ctx'\<lparr>user_messages := user_messages ctx'
      @ [\<lparr>inherited = False, order = n, value_of = message\<rparr>]\<rparr>))"
    using assms e past by (intro bound_messages_within) (auto simp: list_all_iff elim!: order_past_mono)
  with False r show ?thesis by (simp add: add_message_def)
qed

lemma record_user_message_within:
  assumes "within_limits js ctx"
  shows "within_limits js (record_user_message js message source ctx)"
proof -
  let ?ctx = "ctx\<lparr>verified_answers_incomplete := verified_answers_incomplete ctx \<or> source = InheritedInput\<rparr>"
  have "within_limits js (add_message js (bound_message js message) source (?ctx\<lparr>user_messages := ms\<rparr>))"
    if "set ms \<subseteq> set (user_messages ctx)" for ms
    using assms that by (intro add_message_within) (auto simp: within_limits_def list_all_iff bound_message_ok)
  from this [OF remove_first_subset] this [OF order_refl]
  show ?thesis using assms
    by (auto simp: record_user_message_def Let_def within_limits_def split: option.split)
qed

lemma add_answer_within:
  assumes "family_ok (message_entry_bytes js) (user_messages ctx)"
    and "list_all (\<lambda>e. answer_ok js (value_of e) \<and> order_past (next_order ctx) e) (verified_answers ctx)"
    and "list_all (\<lambda>e. message_ok js (value_of e) \<and> order_past (next_order ctx) e) (user_messages ctx)"
    and "answer_ok js a"
  shows "within_limits js (add_answer js a accepted ctx)"
proof -
  obtain ctx' n where r: "record_order accepted ctx = (ctx', n)" by fastforce
  note e = record_order_effect [OF r]
  have "order_past (next_order ctx') \<lparr>inherited = False, order = n, value_of = a\<rparr>"
    using e by (auto simp: order_past_def sat_add_def)
  with assms e have "within_limits js (bound_answers js (ctx'\<lparr>verified_answers := verified_answers ctx'
      @ [\<lparr>inherited = False, order = n, value_of = a\<rparr>]\<rparr>))"
    by (intro bound_answers_within) (auto simp: list_all_iff elim!: order_past_mono)
  with r show ?thesis by (simp add: add_answer_def)
qed

lemma record_event_within:
  assumes "within_limits js ctx"
  shows "within_limits js (fst (record_event js ev ctx))"
proof -
  have "within_limits js (add_answer js (bound_answer js (event_answer ev)) accepted (ctx\<lparr>verified_answers := es\<rparr>))"
    if "set es \<subseteq> set (verified_answers ctx)" for es accepted
    using assms that by (intro add_answer_within) (auto simp: within_limits_def list_all_iff bound_answer_ok)
  from this [OF remove_first_subset] this [OF order_refl] show ?thesis using assms
    by (auto simp: record_event_def Let_def split: option.split)
qed

lemma filtered_within:
  "within_limits js ctx \<Longrightarrow> verified_answers ctx' = filter P (verified_answers ctx)
   \<Longrightarrow> user_messages ctx' = filter Q (user_messages ctx) \<Longrightarrow> next_order ctx' = next_order ctx
   \<Longrightarrow> within_limits js ctx'"
  by (auto simp: within_limits_def family_ok_filter list_all_iff)

lemma recover_excerpt_ok: "message_ok js m \<Longrightarrow> message_ok js (recover_excerpt js f m)"
  by (auto simp: recover_excerpt_def bound_message_ok split: option.split)

lemma recover_within:
  assumes "within_limits js ctx"
  shows "within_limits js (recover_user_message_excerpts js f ctx)"
  using assms unfolding recover_user_message_excerpts_def
  by (intro bound_messages_within) (auto simp: within_limits_def list_all_iff recover_excerpt_ok order_past_def)

lemma rollback_within: "within_limits js ctx \<Longrightarrow> within_limits js (rollback ts i source ctx)"
  by (cases "rollback_boundary i source ctx"; erule filtered_within) (auto simp: rollback_def)

lemma retain_answers_within: "within_limits js ctx \<Longrightarrow> within_limits js (retain_answers keep ctx)"
  by (erule filtered_within [where Q = "\<lambda>_. True"]) (simp_all add: retain_answers_def)

lemma advance_past_simps [simp]:
  "verified_answers (advance_past n ctx) = verified_answers ctx"
  "user_messages (advance_past n ctx) = user_messages ctx"
  "next_order (advance_past n ctx) = max (next_order ctx) (sat_add n 1)"
  by (simp_all add: advance_past_def)

lemma advance_past_effect:
  "verified_answers (fold advance_past ns ctx) = verified_answers ctx
   \<and> user_messages (fold advance_past ns ctx) = user_messages ctx
   \<and> next_order ctx \<le> next_order (fold advance_past ns ctx)"
proof (induction ns arbitrary: ctx)
  case (Cons n ns)
  from Cons.IH [of "advance_past n ctx"] show ?case by simp
qed simp

lemma restore_answers_effect:
  "verified_answers (fold restore_answer es ctx) = verified_answers ctx
   \<and> user_messages (fold restore_answer es ctx) = user_messages ctx
   \<and> next_order ctx \<le> next_order (fold restore_answer es ctx)
   \<and> (\<forall>e \<in> set es. order_past (next_order (fold restore_answer es ctx)) e)"
proof (induction es arbitrary: ctx)
  case (Cons e es)
  note ih = Cons.IH [of "restore_answer e ctx"]
  have "order_past (next_order (restore_answer e ctx)) e"
    by (simp add: restore_answer_def order_past_sat)
  with ih show ?case by (auto simp: restore_answer_def intro: order_past_mono)
qed simp

lemma restore_messages_effect:
  "verified_answers (fold restore_message es ctx) = verified_answers ctx
   \<and> user_messages (fold restore_message es ctx) = user_messages ctx
   \<and> next_order ctx \<le> next_order (fold restore_message es ctx)
   \<and> (\<forall>e \<in> set es. order_past (next_order (fold restore_message es ctx)) e)"
proof (induction es arbitrary: ctx)
  case (Cons e es)
  note ih = Cons.IH [of "restore_message e ctx"]
  have "order_past (next_order (restore_message e ctx)) e"
    by (cases "inherited e") (simp_all add: restore_message_def order_past_sat, simp add: order_past_def)
  with ih show ?case
    by (cases "inherited e") (auto simp: restore_message_def intro: order_past_mono)
qed simp

lemma restore_within: "within_limits js (restore js checkpoint items)"
proof -
  define c where "c = (case checkpoint of Some c \<Rightarrow> c | None \<Rightarrow> default_retained\<lparr>user_messages_incomplete := True\<rparr>)"
  define a where "a = fold restore_answer (verified_answers c)
    (c\<lparr>verified_answers := map (\<lambda>e. e\<lparr>value_of := bound_answer js (value_of e)\<rparr>) (verified_answers c)\<rparr>)"
  define m where "m = fold restore_message (user_messages a)
    (a\<lparr>user_messages := map (\<lambda>e. e\<lparr>value_of := bound_message js (value_of e)\<rparr>) (user_messages a)\<rparr>)"
  define r where "r = fold advance_past (surviving_orders items) m"
  have a: "verified_answers a = map (\<lambda>e. e\<lparr>value_of := bound_answer js (value_of e)\<rparr>) (verified_answers c)"
    "user_messages a = user_messages c" "\<forall>e \<in> set (verified_answers c). order_past (next_order a) e"
    using restore_answers_effect [of "verified_answers c"] by (simp_all add: a_def)
  have m: "verified_answers m = verified_answers a" "next_order a \<le> next_order m"
    "user_messages m = map (\<lambda>e. e\<lparr>value_of := bound_message js (value_of e)\<rparr>) (user_messages a)"
    "\<forall>e \<in> set (user_messages a). order_past (next_order m) e"
    using restore_messages_effect [of "user_messages a"
        "a\<lparr>user_messages := map (\<lambda>e. e\<lparr>value_of := bound_message js (value_of e)\<rparr>) (user_messages a)\<rparr>"]
    by (simp_all add: m_def)
  have r: "verified_answers r = verified_answers m" "user_messages r = user_messages m" "next_order m \<le> next_order r"
    using advance_past_effect [of "surviving_orders items" m] by (simp_all add: r_def)
  have answers: "list_all (\<lambda>e. answer_ok js (value_of e) \<and> order_past (next_order r) e) (verified_answers r)"
    using a m(1,2) r by (auto simp: list_all_iff bound_answer_ok order_past_def)
  have messages: "list_all (\<lambda>e. message_ok js (value_of e) \<and> order_past (next_order r) e) (user_messages r)"
    using m(3,4) r by (auto simp: list_all_iff bound_message_ok order_past_def)
  obtain es b where e: "bound_family (answer_entry_bytes js) (verified_answers r) (verified_answers_incomplete r) = (es, b)"
    by fastforce
  with bound_family_ok [OF e] bound_family_kept [OF e] answers messages
  have "within_limits js (bound_messages js (bound_answers js r))"
    by (intro bound_messages_within) (auto simp: bound_answers_def list_all_iff)
  then show ?thesis by (simp add: restore_def Let_def c_def [symmetric] a_def [symmetric] m_def [symmetric] r_def [symmetric])
qed

section \<open>A session\<close>

text \<open>What the host does to the facts after it has restored them.\<close>

inductive retained_step :: "json_sizes \<Rightarrow> retained_context \<Rightarrow> retained_context \<Rightarrow> bool" for js where
  user_message: "retained_step js ctx (record_user_message js message source ctx)"
| answer: "retained_step js ctx (fst (record_event js event ctx))"
| reserved: "retained_step js ctx (fst (reserve_order ctx))"
| marked: "retained_step js ctx (mark_user_messages_incomplete ctx)"
| recovered: "retained_step js ctx (recover_user_message_excerpts js excerpt_for_id ctx)"
| retained: "retained_step js ctx (retain_answers keep ctx)"
| rolled_back: "retained_step js ctx (rollback turn_ids i source ctx)"

lemma retained_step_within: "retained_step js ctx ctx' \<Longrightarrow> within_limits js ctx \<Longrightarrow> within_limits js ctx'"
proof (induction rule: retained_step.induct)
  case (reserved ctx)
  then show ?case by (rule within_limits_cong) (auto simp: reserve_order_def sat_add_def) 
next
  case (marked ctx)
  then show ?case by (rule within_limits_cong) (simp_all add: mark_user_messages_incomplete_def)
qed (simp_all add: record_user_message_within record_event_within recover_within retain_answers_within rollback_within)

lemma session_within:
  "(retained_step js)\<^sup>*\<^sup>* start ctx \<Longrightarrow> within_limits js start \<Longrightarrow> within_limits js ctx"
  by (induction rule: rtranclp_induct) (auto intro: retained_step_within)

section \<open>Nothing is lost unmarked\<close>

lemma bound_messages_kept:
  "user_messages_incomplete (bound_messages js ctx) \<or> set (user_messages ctx) \<subseteq> set (user_messages (bound_messages js ctx))"
proof -
  obtain es b where r: "bound_family (message_entry_bytes js) (user_messages ctx) (user_messages_incomplete ctx) = (es, b)"
    by fastforce
  from bound_family_kept [OF r] r show ?thesis by (auto simp: bound_messages_def)
qed

lemma remove_first_kept: "{x \<in> set xs. \<not> P x} \<subseteq> set (remove_first P xs)"
  by (induction xs) auto

lemma add_message_kept:
  "user_messages_incomplete (add_message js m source ctx)
   \<or> set (user_messages ctx) \<subseteq> set (user_messages (add_message js m source ctx))
     \<and> list_ex (\<lambda>e. value_of e = m \<and> inherited e = (source = InheritedInput)) (user_messages (add_message js m source ctx))"
proof -
  obtain ctx' n where r: "(if source = InheritedInput then (ctx, inherited_order (user_messages ctx))
      else record_order (acceptance_order source) ctx) = (ctx', n)" by fastforce
  then have ms: "user_messages ctx' = user_messages ctx"
    by (auto dest: record_order_effect split: if_splits)
  let ?e = "\<lparr>inherited = (source = InheritedInput), order = n, value_of = m\<rparr>"
  let ?c = "ctx'\<lparr>user_messages := user_messages ctx' @ [?e]\<rparr>"
  have eq: "add_message js m source ctx = bound_messages js ?c" using r by (simp add: add_message_def)
  have "user_messages_incomplete (bound_messages js ?c)
      \<or> set (user_messages ctx) \<subseteq> set (user_messages (bound_messages js ?c)) \<and> ?e \<in> set (user_messages (bound_messages js ?c))"
    using bound_messages_kept [of js ?c] ms by auto
  moreover have "list_ex (\<lambda>e. value_of e = m \<and> inherited e = (source = InheritedInput)) es" if "?e \<in> set es" for es
    using that by (force simp: list_ex_iff)
  ultimately show ?thesis unfolding eq by blast
qed

section \<open>Recording twice\<close>

definition answer_id :: "verified_answer ordered \<Rightarrow> str \<times> str" where
  "answer_id e = (va_turn_id (value_of e), va_call_id (value_of e))"

lemma same_answer_iff: "same_answer a e \<longleftrightarrow> answer_id e = (va_turn_id a, va_call_id a)"
  by (auto simp: same_answer_def answer_id_def)

lemma find_only:
  "find P xs = None \<or> (\<exists>x. find P xs = Some x \<and> x \<in> set xs \<and> P x)"
  by (induction xs) auto

lemma not_same_after_removal:
  "distinct (map answer_id es) \<Longrightarrow> \<forall>e \<in> set (remove_first (same_answer a) es). \<not> same_answer a e"
proof (induction es)
  case (Cons e es)
  then show ?case by (auto simp: same_answer_iff) (metis image_eqI)
qed simp

lemma add_answer_only:
  assumes "\<forall>e \<in> set (verified_answers ctx). \<not> same_answer a e"
  shows "\<forall>e \<in> set (verified_answers (add_answer js a accepted ctx)). same_answer a e \<longrightarrow> value_of e = a"
    and "verified_answers_incomplete (add_answer js a accepted ctx)
      \<or> (\<exists>e \<in> set (verified_answers (add_answer js a accepted ctx)). same_answer a e)"
proof -
  obtain ctx' n where r: "record_order accepted ctx = (ctx', n)" by fastforce
  let ?es = "verified_answers ctx @ [\<lparr>inherited = False, order = n, value_of = a\<rparr>]"
  obtain es b where f: "bound_family (answer_entry_bytes js) ?es (verified_answers_incomplete ctx') = (es, b)"
    by fastforce
  have after: "verified_answers (add_answer js a accepted ctx) = es" "verified_answers_incomplete (add_answer js a accepted ctx) = b"
    using f record_order_effect [OF r] r by (simp_all add: add_answer_def bound_answers_def)
  from bound_family_kept [OF f] have "set es \<subseteq> set ?es" "b \<or> set ?es \<subseteq> set es" by blast+
  moreover have "same_answer a \<lparr>inherited = False, order = n, value_of = a\<rparr>" by (simp add: same_answer_def)
  ultimately show "\<forall>e \<in> set (verified_answers (add_answer js a accepted ctx)). same_answer a e \<longrightarrow> value_of e = a"
    and "verified_answers_incomplete (add_answer js a accepted ctx)
      \<or> (\<exists>e \<in> set (verified_answers (add_answer js a accepted ctx)). same_answer a e)"
    using assms after by fastforce+
qed

text \<open>An answer that is the only one with its ids is found again.\<close>

lemma record_event_again:
  assumes "\<forall>e \<in> set (verified_answers ctx). same_answer (bound_answer js (event_answer ev)) e
      \<longrightarrow> value_of e = bound_answer js (event_answer ev)"
    and "\<exists>e \<in> set (verified_answers ctx). same_answer (bound_answer js (event_answer ev)) e"
  shows "record_event js ev ctx = (ctx, False)"
  using assms find_only [of "same_answer (bound_answer js (event_answer ev))" "verified_answers ctx"]
  by (auto simp: record_event_def Let_def find_None_iff)

section \<open>Properties\<close>

text \<open>
  C23. From whatever checkpoint a session is restored and whatever it then records, recovers
  and rolls back: each family has at most eight records in at most 64 KiB of JSON, sorted by
  origin and order; each record has at most 16 KiB or has given up its text; and the counter
  is past every local order.
\<close>

theorem retained_within_limits:
  assumes "(retained_step js)\<^sup>*\<^sup>* (restore js checkpoint surviving_items) ctx"
  shows "within_limits js ctx"
  using assms restore_within by (rule session_within)

theorem retained_within_limits_witness:
  "within_limits \<lparr>answer_entry_bytes = \<lambda>_. Some 100, message_entry_bytes = \<lambda>_. None,
       answer_bytes = \<lambda>_. Some 90, message_bytes = \<lambda>_. None\<rparr>
     (mark_user_messages_incomplete (restore \<lparr>answer_entry_bytes = \<lambda>_. Some 100, message_entry_bytes = \<lambda>_. None,
       answer_bytes = \<lambda>_. Some 90, message_bytes = \<lambda>_. None\<rparr> None ([] :: unit envelope list)))"
  by (rule retained_within_limits) (rule r_into_rtranclp, rule retained_step.marked)

text \<open>
  Recording an instruction of the user loses nothing silently: either the record of
  instructions is marked incomplete, or every earlier one that has not its id is still there,
  and so is the new one.
\<close>

theorem instruction_kept_or_marked:
  "user_messages_incomplete (record_user_message js message source ctx)
   \<or> set (filter (\<lambda>e. \<not> same_message (bound_message js message) e) (user_messages ctx))
       \<subseteq> set (user_messages (record_user_message js message source ctx))
     \<and> list_ex (\<lambda>e. value_of e = bound_message js message \<and> inherited e = (source = InheritedInput))
         (user_messages (record_user_message js message source ctx))"
proof -
  let ?m = "bound_message js message"
  let ?ctx = "ctx\<lparr>verified_answers_incomplete := verified_answers_incomplete ctx \<or> source = InheritedInput\<rparr>"
  show ?thesis
  proof (cases "List.find (same_message ?m) (user_messages ctx)")
    case None
    with add_message_kept [of js ?m source ?ctx] show ?thesis
      by (auto simp: record_user_message_def Let_def)
  next
    case (Some e)
    with find_only [of "same_message ?m" "user_messages ctx"] have e: "e \<in> set (user_messages ctx)" "same_message ?m e"
      by auto
    show ?thesis
    proof (cases "value_of e = ?m \<and> inherited e = (source = InheritedInput)")
      case True
      with Some e show ?thesis by (auto simp: record_user_message_def Let_def list_ex_iff)
    next
      case False
      let ?c = "?ctx\<lparr>user_messages := remove_first (same_message ?m) (user_messages ctx)\<rparr>"
      have "record_user_message js message source ctx = add_message js ?m source ?c"
        using Some False by (auto simp: record_user_message_def Let_def)
      with add_message_kept [of js ?m source ?c] remove_first_kept [of "user_messages ctx" "same_message ?m"]
      show ?thesis by auto
    qed
  qed
qed

text \<open>
  Delivering an answer twice records it once: the second time nothing changes, unless the
  limits had evicted it at once, which is marked.
\<close>

theorem answer_recorded_once:
  assumes "distinct (map answer_id (verified_answers ctx))"
  shows "case record_event js ev ctx of
      (ctx', _) \<Rightarrow> record_event js ev ctx' = (ctx', False) \<or> verified_answers_incomplete ctx'"
proof -
  let ?a = "bound_answer js (event_answer ev)"
  have again: "record_event js ev c = (c, False) \<or> verified_answers_incomplete c"
    if "c = add_answer js ?a (event_order ev) c0" "\<forall>e \<in> set (verified_answers c0). \<not> same_answer ?a e" for c c0
    using add_answer_only [OF that(2), of js "event_order ev"] record_event_again [of c js ev] that(1) by blast
  show ?thesis
  proof (cases "List.find (same_answer ?a) (verified_answers ctx)")
    case None
    then have "\<forall>e \<in> set (verified_answers ctx). \<not> same_answer ?a e" by (auto simp: find_None_iff)
    with None again [OF refl] show ?thesis by (simp add: record_event_def Let_def)
  next
    case (Some e)
    show ?thesis
    proof (cases "value_of e = ?a")
      case True
      with Some show ?thesis by (simp add: record_event_def Let_def)
    next
      case False
      let ?c = "ctx\<lparr>verified_answers := remove_first (same_answer ?a) (verified_answers ctx)\<rparr>"
      have r: "record_event js ev ctx = (add_answer js ?a (event_order ev) ?c, True)"
        using Some False by (simp add: record_event_def Let_def)
      from not_same_after_removal [OF assms] have "\<forall>e \<in> set (verified_answers ?c). \<not> same_answer ?a e" by simp
      from again [OF refl this] r show ?thesis by simp
    qed
  qed
qed

theorem answer_recorded_once_witness:
  "case record_event \<lparr>answer_entry_bytes = \<lambda>_. Some 100, message_entry_bytes = \<lambda>_. None,
       answer_bytes = \<lambda>_. Some 90, message_bytes = \<lambda>_. None\<rparr>
      \<lparr>event_answer = \<lparr>va_turn_id = [65], va_call_id = [66], questions = []\<rparr>, event_order = Some 3\<rparr> default_retained of
    (ctx', _) \<Rightarrow> record_event \<lparr>answer_entry_bytes = \<lambda>_. Some 100, message_entry_bytes = \<lambda>_. None,
       answer_bytes = \<lambda>_. Some 90, message_bytes = \<lambda>_. None\<rparr>
      \<lparr>event_answer = \<lparr>va_turn_id = [65], va_call_id = [66], questions = []\<rparr>, event_order = Some 3\<rparr> ctx' = (ctx', False)
      \<or> verified_answers_incomplete ctx'"
  by (rule answer_recorded_once) (simp add: default_retained_def)

fun entry_turn :: "retained_entry \<Rightarrow> str" where
  "entry_turn (UserMessageEntry m) = um_turn_id m"
| "entry_turn (VerifiedAnswerEntry a) = va_turn_id a"

lemma filter_map_key:
  "map (\<lambda>e. (key e, c (value_of e))) (filter (\<lambda>e. key e < b) es)
     = filter (\<lambda>(k, _). k < b) (map (\<lambda>e. (key e, c (value_of e))) es)"
  by (induction es) auto


end
