(* ===== verification/ReconciledContext.thy ===== *)
theory ReconciledContext
  imports RetainedContextCorrect
begin

text \<open>
  \<open>history/src/reconciled_retained_context.rs\<close>: retained evidence supplemented by the messages
  that survive in the live history, without changing the checkpoint.
\<close>

section \<open>Reconciling\<close>

fun matches_source :: "retained_user_message \<Rightarrow> retained_entry \<Rightarrow> bool" where
  "matches_source m (UserMessageEntry r) \<longleftrightarrow>
     (case message_id r of
        Some i \<Rightarrow> message_id m = Some i
      | None \<Rightarrow> um_turn_id m = um_turn_id r \<and> um_text m = um_text r)"
| "matches_source m (VerifiedAnswerEntry _) \<longleftrightarrow> False"

text \<open>
  The loop over the live messages. The state has the indices of the entries that are matched,
  the orders that are used, what is recovered and whether an instruction is missing. \<open>any\<close> stops
  at the first entry that matches and is not matched yet.
\<close>

record reconciling =
  matched_entries :: "nat list"
  used_orders :: "retained_order list"
  recovered :: "(retained_order \<times> retained_user_message) list"
  missing_user_messages :: bool

definition first_match ::
    "retained_entry list \<Rightarrow> nat list \<Rightarrow> retained_user_message \<Rightarrow> nat option" where
  "first_match entries matched m =
     List.find (\<lambda>n. matches_source m (entries ! n) \<and> n \<notin> set matched) [0..<length entries]"

definition reconcile_message ::
    "retained_entry list \<Rightarrow> nat option \<times> retained_user_message \<Rightarrow> reconciling \<Rightarrow> reconciling" where
  "reconcile_message entries live st =
     (case live of (accepted, m) \<Rightarrow>
        case first_match entries (matched_entries st) m of
          Some n \<Rightarrow> st\<lparr>matched_entries := n # matched_entries st\<rparr>
        | None \<Rightarrow>
            (case accepted of
               None \<Rightarrow> st\<lparr>missing_user_messages := True\<rparr>
             | Some n \<Rightarrow>
                 (if Local n \<in> set (used_orders st) then st\<lparr>missing_user_messages := True\<rparr>
                  else st\<lparr>used_orders := Local n # used_orders st,
                          recovered := recovered st @ [(Local n, m)]\<rparr>)))"

definition retained_entries :: "retained_context option \<Rightarrow> (retained_order \<times> retained_entry) list" where
  "retained_entries ctx = (case ctx of Some c \<Rightarrow> ordered_entries c | None \<Rightarrow> [])"

definition reconcile ::
    "retained_context option \<Rightarrow> (nat option \<times> retained_user_message) list \<Rightarrow> reconciling" where
  "reconcile ctx live =
     (let start = \<lparr>matched_entries = [], used_orders = map fst (retained_entries ctx), recovered = [],
            missing_user_messages = (case ctx of Some c \<Rightarrow> has_missing_user_messages c | None \<Rightarrow> True)\<rparr>
      in if (case ctx of Some c \<Rightarrow> \<not> user_messages_complete c | None \<Rightarrow> True)
         then fold (reconcile_message (map snd (retained_entries ctx))) live start
         else start)"

definition reconciled_entries ::
    "retained_context option \<Rightarrow> reconciling \<Rightarrow> (retained_order \<times> retained_entry) list" where
  "reconciled_entries ctx st =
     sort_key fst (retained_entries ctx @ map (\<lambda>(k, m). (k, UserMessageEntry m)) (recovered st))"

section \<open>Correctness\<close>

text \<open>
  What the loop keeps: the recovered orders are new and distinct, and a live message that is
  neither matched nor recovered marks the record.
\<close>

definition accounted :: "retained_entry list \<Rightarrow> reconciling \<Rightarrow> nat option \<times> retained_user_message \<Rightarrow> bool" where
  "accounted entries st live \<longleftrightarrow>
     list_ex (matches_source (snd live)) entries
     \<or> list_ex (\<lambda>r. map_option Local (fst live) = Some (fst r) \<and> snd r = snd live) (recovered st)"

lemma first_match_SomeD:
  "first_match entries matched m = Some n \<Longrightarrow> list_ex (matches_source m) entries"
  by (auto simp: first_match_def find_upt_Some_iff list_ex_iff intro!: bexI [OF _ nth_mem])

definition reconciled_ok :: "retained_entry list \<Rightarrow> retained_order list \<Rightarrow> reconciling \<Rightarrow> bool" where
  "reconciled_ok entries orders st \<longleftrightarrow>
     set (used_orders st) = set orders \<union> set (map fst (recovered st))
     \<and> distinct (map fst (recovered st)) \<and> set orders \<inter> set (map fst (recovered st)) = {}"

lemma reconcile_message_ok:
  assumes "reconciled_ok entries orders st"
  shows "reconciled_ok entries orders (reconcile_message entries live st)"
  using assms
  by (auto simp: reconciled_ok_def reconcile_message_def split: prod.splits option.splits)

lemma reconcile_message_accounts:
  "\<not> missing_user_messages (reconcile_message entries live st) \<Longrightarrow>
     \<not> missing_user_messages st \<and> accounted entries (reconcile_message entries live st) live
     \<and> set (recovered st) \<subseteq> set (recovered (reconcile_message entries live st))"
  by (auto simp: reconcile_message_def accounted_def list_ex_iff
      split: prod.splits option.splits if_splits dest: first_match_SomeD)

lemma accounted_mono:
  "accounted entries st l \<Longrightarrow> set (recovered st) \<subseteq> set (recovered st') \<Longrightarrow> accounted entries st' l"
  by (auto simp: accounted_def list_ex_iff)

lemma fold_reconcile:
  assumes "reconciled_ok entries orders st"
  shows "reconciled_ok entries orders (fold (reconcile_message entries) live st)
    \<and> (\<not> missing_user_messages (fold (reconcile_message entries) live st) \<longrightarrow>
         \<not> missing_user_messages st
         \<and> set (recovered st) \<subseteq> set (recovered (fold (reconcile_message entries) live st))
         \<and> list_all (accounted entries (fold (reconcile_message entries) live st)) live)"
  using assms
proof (induction live arbitrary: st)
  case Nil
  then show ?case by simp
next
  case (Cons l live)
  let ?st = "reconcile_message entries l st"
  note IH = Cons.IH [OF reconcile_message_ok [OF Cons.prems, of l]]
  have "accounted entries (fold (reconcile_message entries) live ?st) l"
    if "\<not> missing_user_messages (fold (reconcile_message entries) live ?st)"
    using IH that reconcile_message_accounts [of entries l st] by (blast intro: accounted_mono)
  with IH reconcile_message_accounts [of entries l st] show ?case by auto
qed

text \<open>
  Supplementing the retained record with live messages never hides a gap: unless the result
  says that instructions are missing, every live message is a retained one or was recovered; what
  is recovered has acceptance numbers of its own, and the entries come in acceptance order.
\<close>

theorem reconciled_context_sound:
  assumes "(case ctx of Some c \<Rightarrow> \<not> user_messages_complete c | None \<Rightarrow> True)" "st = reconcile ctx live"
  shows "(missing_user_messages st \<or> list_all (accounted (map snd (retained_entries ctx)) st) live)
    \<and> (missing_user_messages st \<or> (\<exists>c. ctx = Some c \<and> \<not> has_missing_user_messages c))
    \<and> distinct (map fst (recovered st))
    \<and> set (map fst (retained_entries ctx)) \<inter> set (map fst (recovered st)) = {}
    \<and> sorted (map fst (reconciled_entries ctx st))"
proof -
  let ?entries = "map snd (retained_entries ctx)" and ?orders = "map fst (retained_entries ctx)"
  let ?start = "\<lparr>matched_entries = [], used_orders = ?orders, recovered = [],
            missing_user_messages = (case ctx of Some c \<Rightarrow> has_missing_user_messages c | None \<Rightarrow> True)\<rparr>"
  have st: "st = fold (reconcile_message ?entries) live ?start"
    using assms by (simp add: reconcile_def Let_def)
  have "reconciled_ok ?entries ?orders ?start" by (simp add: reconciled_ok_def)
  from fold_reconcile [OF this, of live]
  show ?thesis unfolding st [symmetric]
    by (auto simp: reconciled_ok_def reconciled_entries_def split: option.splits)
qed

theorem reconciled_context_sound_witness:
  "list_all (accounted [] (reconcile None [(Some 3, \<lparr>um_turn_id = [], message_id = None, um_text = [65], complete = True\<rparr>)]))
     [(Some 3, \<lparr>um_turn_id = [], message_id = None, um_text = [65], complete = True\<rparr>)]
   \<or> missing_user_messages (reconcile None [(Some 3, \<lparr>um_turn_id = [], message_id = None, um_text = [65], complete = True\<rparr>)])"
  using reconciled_context_sound [of None, OF _ refl,
      of "[(Some 3, \<lparr>um_turn_id = [], message_id = None, um_text = [65], complete = True\<rparr>)]"]
  by (auto simp: retained_entries_def)

end
