(* ===== verification/UnixPath.thy ===== *)
theory UnixPath
  imports Prelude
begin

text \<open>
  \<open>std::path\<close> on Unix, for paths that are valid UTF-8: a path is its text, two paths are equal
  when their components are. Nothing here models a file of the repository, so the definitions
  have no entry in the map.
\<close>

abbreviation SLASH :: uchar where "SLASH \<equiv> 47"

datatype path_component = RootDir | CurDir | ParentDir | NormalName str

definition component_of :: "str \<Rightarrow> path_component" where
  "component_of p = (if p = lit ''..'' then ParentDir else NormalName p)"

text \<open>Empty pieces and the piece \<open>.\<close> are skipped, but for a \<open>.\<close> at the very beginning.\<close>

definition path_components :: "str \<Rightarrow> path_component list" where
  "path_components s =
     (let pieces = split_on SLASH s in
      (if starts_with s [SLASH] then [RootDir]
       else if hd pieces = lit ''.'' then [CurDir] else [])
      @ map component_of (filter (\<lambda>p. p \<noteq> [] \<and> p \<noteq> lit ''.'') pieces))"

definition same_path :: "str \<Rightarrow> str \<Rightarrow> bool" where
  "same_path a b \<longleftrightarrow> path_components a = path_components b"

text \<open>\<open>Path::parent\<close>, as the components of the parent.\<close>

definition parent_components :: "str \<Rightarrow> path_component list option" where
  "parent_components s =
     (let cs = path_components s in
      if cs = [] \<or> last cs = RootDir then None else Some (butlast cs))"

definition file_name :: "str \<Rightarrow> str option" where
  "file_name s =
     (let cs = path_components s in
      if cs = [] then None else (case last cs of NormalName n \<Rightarrow> Some n | _ \<Rightarrow> None))"

text \<open>\<open>Path::file_stem\<close>: the name up to its last dot, the whole name if that is empty.\<close>

definition file_stem :: "str \<Rightarrow> str option" where
  "file_stem s = map_option (\<lambda>n.
     case rsplit_once 46 n of None \<Rightarrow> n | Some (before, after) \<Rightarrow> if before = [] then n else before)
     (file_name s)"

text \<open>\<open>Path::extension\<close>.\<close>

definition file_extension :: "str \<Rightarrow> str option" where
  "file_extension s = (case file_name s of None \<Rightarrow> None
     | Some n \<Rightarrow> (case rsplit_once 46 n of None \<Rightarrow> None
         | Some (before, after) \<Rightarrow> if before = [] then None else Some after))"

section \<open>Names are no longer than their path\<close>

lemma split_on_piece_length: "p \<in> set (split_on d s) \<Longrightarrow> length p \<le> length s"
proof (induction s arbitrary: p)
  case (Cons c s)
  show ?case
  proof (cases "split_on d s")
    case Nil
    then show ?thesis using Cons.prems split_on_not_Nil by simp
  next
    case (Cons l ls)
    have "length l \<le> length s" and rest: "q \<in> set ls \<Longrightarrow> length q \<le> length s" for q
      using Cons.IH Cons by auto
    with Cons.prems Cons show ?thesis by (auto split: if_splits dest: rest)
  qed
qed simp

lemma split_on_piece_whole:
  assumes "p \<in> set (split_on d s)" and "length p = length s"
  shows "p = s"
proof (cases "d \<in> set s")
  case True
  then obtain a b where s: "s = a @ d # b" and "d \<notin> set a" by (meson split_list_first)
  then have "split_on d s = a # split_on d b" using split_on_append_sep by blast
  with assms(1) consider "p = a" | "p \<in> set (split_on d b)" by auto
  then show ?thesis
  proof cases
    case 2
    from split_on_piece_length [OF this] assms(2) s show ?thesis by simp
  qed (use assms(2) s in simp)
next
  case False
  with assms(1) show ?thesis using split_on_no_sep by fastforce
qed

lemma file_name_piece: "file_name s = Some n \<Longrightarrow> n \<in> set (split_on SLASH s)"
proof -
  assume "file_name s = Some n"
  then have "path_components s \<noteq> []" and "last (path_components s) = NormalName n"
    by (auto simp: file_name_def Let_def split: if_splits path_component.splits)
  then have "NormalName n \<in> set (path_components s)" by (metis last_in_set)
  then show ?thesis by (auto simp: path_components_def Let_def component_of_def split: if_splits)
qed

lemma file_stem_shorter:
  assumes "file_stem s = Some t" and "\<not> same_path t s"
  shows "length t < length s"
proof -
  from assms(1) obtain n where n: "file_name s = Some n"
    and t: "t = (case rsplit_once 46 n of None \<Rightarrow> n | Some (before, after) \<Rightarrow> if before = [] then n else before)"
    by (auto simp: file_stem_def)
  have "t = n \<or> length t < length n"
    using t by (auto split: option.splits if_splits prod.splits dest!: rsplit_once_append)
  moreover have "n \<in> set (split_on SLASH s)" by (rule file_name_piece [OF n])
  ultimately show ?thesis
    using assms(2) split_on_piece_length split_on_piece_whole
    by (metis le_neq_implies_less order_less_le_trans same_path_def)
qed

end
