(* ===== verification/ShellScript.thy ===== *)
theory ShellScript
  imports UnixPath "HOL-Library.Multiset"
begin

text \<open>
  \<open>shell-command/src/bash.rs\<close> and \<open>shell_detect.rs\<close>: which shell a program is, and the commands in
  a script given to \<open>bash -c\<close>. There are two readings of a script: the strict one accepts plain
  commands only and tells the policy what will run; the tolerant one collects the literal words
  of every command and looks for dangerous ones.

  Tree-sitter is not in the repository: the syntax tree it builds, if it builds one, is the
  argument \<open>parse\<close>. A node has its kind, whether it is named, whether its subtree has an error,
  its first byte, its text as \<open>utf8_text\<close> gives it and its children.
\<close>

section \<open>Shells\<close>

datatype shell_type = Zsh | Bash | PowerShell | Sh | Cmd

definition known_shell :: "str \<Rightarrow> shell_type option" where
  "known_shell p =
     (if p = lit ''zsh'' then Some Zsh
      else if p = lit ''sh'' then Some Sh
      else if p = lit ''cmd'' then Some Cmd
      else if p = lit ''bash'' then Some Bash
      else if p = lit ''pwsh'' then Some PowerShell
      else if p = lit ''powershell'' then Some PowerShell
      else None)"

function detect_shell_type :: "str \<Rightarrow> shell_type option" where
  "detect_shell_type path =
     (case known_shell path of
        Some t \<Rightarrow> Some t
      | None \<Rightarrow> (case file_stem path of
            Some name \<Rightarrow> (if \<not> same_path name path then detect_shell_type name else None)
          | None \<Rightarrow> None))"
  by pat_completeness auto

termination by (relation "measure length") (simp_all add: file_stem_shorter)

declare detect_shell_type.simps [simp del]

section \<open>Syntax trees\<close>

datatype syntax_node = SyntaxNode
  (node_kind: str) (is_named: bool) (has_error: bool) (start_byte: nat)
  (utf8_text: "str option") (node_children: "syntax_node list")

definition named_children :: "syntax_node \<Rightarrow> syntax_node list" where
  "named_children n = filter is_named (node_children n)"

definition named_child_0 :: "syntax_node \<Rightarrow> syntax_node option" where
  "named_child_0 n = (case named_children n of [] \<Rightarrow> None | c # cs \<Rightarrow> Some c)"

fun node_weight :: "syntax_node \<Rightarrow> nat" where
  "node_weight (SyntaxNode k nm e b t cs) = Suc (sum_list (map node_weight cs))"

text \<open>All the nodes of a tree.\<close>

fun subtrees :: "syntax_node \<Rightarrow> syntax_node list" where
  "subtrees (SyntaxNode k nm e b t cs) = SyntaxNode k nm e b t cs # concat (map subtrees cs)"

text \<open>Those reached through named children only.\<close>

fun named_subtrees :: "syntax_node \<Rightarrow> syntax_node list" where
  "named_subtrees (SyntaxNode k nm e b t cs) =
     SyntaxNode k nm e b t cs # concat (map named_subtrees (filter is_named cs))"

lemma node_weight_children:
  "node_weight n = Suc (sum_list (map node_weight (node_children n)))"
  by (cases n) simp

lemma node_weight_named: "sum_list (map node_weight (named_children n)) < node_weight n"
proof -
  have "sum_list (map node_weight (filter is_named cs)) \<le> sum_list (map node_weight cs)" for cs
    by (induction cs) auto
  then show ?thesis by (simp add: named_children_def node_weight_children less_Suc_eq_le)
qed

lemma node_weight_pos: "0 < node_weight n"
  by (simp add: node_weight_children)

lemma node_weight_named_twice: "Suc (2 * sum_list (map node_weight (named_children n))) < 2 * node_weight n"
  using node_weight_named [of n] by simp

section \<open>Words\<close>

definition is_kind :: "syntax_node \<Rightarrow> string \<Rightarrow> bool" where
  "is_kind n k \<longleftrightarrow> node_kind n = lit k"

definition is_word_or_number :: "syntax_node \<Rightarrow> bool" where
  "is_word_or_number n \<longleftrightarrow> is_kind n ''word'' \<or> is_kind n ''number''"

text \<open>Characters that a shell expands, removes or gives a meaning.\<close>

definition EXPANDING_CHARS :: str where
  "EXPANDING_CHARS = [123, 125, 42, 63, 91, 93, 92, 126, 94, 35, 36, 96]"

definition is_literal_word_or_number :: "syntax_node \<Rightarrow> bool" where
  "is_literal_word_or_number n \<longleftrightarrow>
     is_word_or_number n \<and> named_children n = []
     \<and> (case utf8_text n of None \<Rightarrow> False
        | Some word \<Rightarrow> \<not> starts_with word [61] \<and> set word \<inter> set EXPANDING_CHARS = {})"

text \<open>A backslash before one of these is removed within double quotes.\<close>

fun has_escape :: "str \<Rightarrow> bool" where
  "has_escape (a # b # s) \<longleftrightarrow> a = 92 \<and> b \<in> set [36, 96, 34, 92, LF] \<or> has_escape (b # s)"
| "has_escape s \<longleftrightarrow> False"

definition parse_double_quoted_string :: "syntax_node \<Rightarrow> str option" where
  "parse_double_quoted_string n =
     (if \<not> is_kind n ''string'' then None
      else if list_ex (\<lambda>part. \<not> is_kind part ''string_content'') (named_children n) then None
      else Option.bind (utf8_text n) (\<lambda>raw.
        Option.bind (Option.bind (strip_prefix [34] raw) (strip_suffix [34])) (\<lambda>stripped.
          if has_escape stripped then None else Some stripped)))"

definition parse_raw_string :: "syntax_node \<Rightarrow> str option" where
  "parse_raw_string n =
     (if \<not> is_kind n ''raw_string'' then None
      else Option.bind (utf8_text n) (\<lambda>raw.
        Option.bind (strip_prefix [39] raw) (strip_suffix [39])))"

section \<open>The strict reading\<close>

definition concatenation_part :: "syntax_node \<Rightarrow> str option" where
  "concatenation_part part =
     (if is_word_or_number part then utf8_text part
      else if is_kind part ''string'' then parse_double_quoted_string part
      else if is_kind part ''raw_string'' then parse_raw_string part
      else None)"

fun push_parts :: "str \<Rightarrow> syntax_node list \<Rightarrow> str option" where
  "push_parts acc [] = Some acc"
| "push_parts acc (part # parts) =
     (case concatenation_part part of None \<Rightarrow> None | Some s \<Rightarrow> push_parts (acc @ s) parts)"

definition plain_concatenation :: "syntax_node \<Rightarrow> str option" where
  "plain_concatenation n =
     Option.bind (push_parts [] (named_children n)) (\<lambda>s. if s = [] then None else Some s)"

definition plain_word :: "syntax_node \<Rightarrow> str option" where
  "plain_word child =
     (if is_kind child ''command_name'' then
        Option.bind (named_child_0 child) (\<lambda>w.
          if \<not> is_kind w ''word'' then None else utf8_text w)
      else if is_word_or_number child then utf8_text child
      else if is_kind child ''string'' then parse_double_quoted_string child
      else if is_kind child ''raw_string'' then parse_raw_string child
      else if is_kind child ''concatenation'' then plain_concatenation child
      else None)"

fun push_words :: "str list \<Rightarrow> syntax_node list \<Rightarrow> str list option" where
  "push_words ws [] = Some ws"
| "push_words ws (child # cs) =
     (case plain_word child of None \<Rightarrow> None | Some w \<Rightarrow> push_words (ws @ [w]) cs)"

definition parse_plain_command_from_node :: "syntax_node \<Rightarrow> str list option" where
  "parse_plain_command_from_node n =
     (if \<not> is_kind n ''command'' then None else push_words [] (named_children n))"

definition ALLOWED_KINDS :: "str list" where
  "ALLOWED_KINDS = map lit
     [''program'', ''list'', ''pipeline'', ''command'', ''command_name'', ''word'', ''string'',
      ''string_content'', ''raw_string'', ''number'', ''concatenation'']"

definition ALLOWED_PUNCT_TOKENS :: "str list" where
  "ALLOWED_PUNCT_TOKENS = [[38, 38], [124, 124], [59], [124], [34], [39]]"

definition node_allowed :: "syntax_node \<Rightarrow> bool" where
  "node_allowed n =
     (let k = node_kind n in
      if is_named n then
        k \<in> set ALLOWED_KINDS \<and> (is_word_or_number n \<longrightarrow> is_literal_word_or_number n)
      else
        \<not> (list_ex (\<lambda>c. c \<in> {38, 59, 124}) k \<and> k \<notin> set ALLOWED_PUNCT_TOKENS)
        \<and> (k \<in> set ALLOWED_PUNCT_TOKENS \<or> trim k = []))"

function word_only_walk :: "syntax_node list \<Rightarrow> syntax_node list \<Rightarrow> syntax_node list option" where
  "word_only_walk [] found = Some found"
| "word_only_walk (n # stack) found =
     (if \<not> node_allowed n then None
      else word_only_walk (rev (node_children n) @ stack)
             (if is_named n \<and> is_kind n ''command'' then found @ [n] else found))"
  by pat_completeness auto

termination
  by (relation "measure (\<lambda>(stack, found). sum_list (map node_weight stack))")
     (auto simp: node_weight_children sum_list_rev simp flip: rev_map)

fun plain_commands :: "syntax_node list \<Rightarrow> str list list option" where
  "plain_commands [] = Some []"
| "plain_commands (n # ns) =
     Option.bind (parse_plain_command_from_node n) (\<lambda>ws. map_option ((#) ws) (plain_commands ns))"

definition try_parse_word_only_commands_sequence :: "syntax_node \<Rightarrow> str list list option" where
  "try_parse_word_only_commands_sequence root =
     (if has_error root then None
      else Option.bind (word_only_walk [root] []) (\<lambda>found.
        plain_commands (sort_key start_byte found)))"

definition parse_shell_script_into_commands ::
    "(str \<Rightarrow> syntax_node option) \<Rightarrow> str \<Rightarrow> str list list option" where
  "parse_shell_script_into_commands parse script =
     Option.bind (parse script) try_parse_word_only_commands_sequence"

definition extract_bash_command :: "str list \<Rightarrow> (str \<times> str) option" where
  "extract_bash_command cmd =
     (case cmd of
        [shell, flag, script] \<Rightarrow>
          (if flag \<notin> {lit ''-lc'', lit ''-c''}
              \<or> detect_shell_type shell \<notin> {Some Zsh, Some Bash, Some Sh} then None
           else Some (shell, script))
      | _ \<Rightarrow> None)"

definition parse_shell_lc_plain_commands ::
    "(str \<Rightarrow> syntax_node option) \<Rightarrow> str list \<Rightarrow> str list list option" where
  "parse_shell_lc_plain_commands parse cmd =
     Option.bind (extract_bash_command cmd) (\<lambda>(shell, script).
       parse_shell_script_into_commands parse script)"

section \<open>The tolerant reading\<close>

function parse_literal_shell_word :: "syntax_node \<Rightarrow> str option"
  and literal_parts :: "str \<Rightarrow> syntax_node list \<Rightarrow> str option" where
  "parse_literal_shell_word n =
     (if is_word_or_number n \<and> is_literal_word_or_number n then utf8_text n
      else if is_kind n ''string'' then parse_double_quoted_string n
      else if is_kind n ''raw_string'' then parse_raw_string n
      else if is_kind n ''concatenation'' then
        Option.bind (literal_parts [] (named_children n)) (\<lambda>s. if s = [] then None else Some s)
      else None)"
| "literal_parts acc [] = Some acc"
| "literal_parts acc (part # parts) =
     (case parse_literal_shell_word part of None \<Rightarrow> None | Some s \<Rightarrow> literal_parts (acc @ s) parts)"
  by pat_completeness auto

termination
  by (relation "measure (\<lambda>x. case x of Inl n \<Rightarrow> 2 * node_weight n
        | Inr (acc, ns) \<Rightarrow> 2 * sum_list (map node_weight ns) + 1)")
     (simp_all add: node_weight_named_twice node_weight_pos)

declare parse_literal_shell_word.simps [simp del]

fun literal_words :: "str list \<Rightarrow> bool \<Rightarrow> syntax_node list \<Rightarrow> (str list \<times> bool) option" where
  "literal_words ws named [] = Some (ws, named)"
| "literal_words ws named (child # cs) =
     (if is_kind child ''command_name'' then
        Option.bind (Option.bind (named_child_0 child) parse_literal_shell_word) (\<lambda>name.
          literal_words (ws @ [name]) True cs)
      else (case (if named then parse_literal_shell_word child else None) of
              Some w \<Rightarrow> literal_words (ws @ [w]) named cs
            | None \<Rightarrow> literal_words ws named cs))"

definition parse_literal_command_from_node :: "syntax_node \<Rightarrow> str list option" where
  "parse_literal_command_from_node n =
     (if \<not> is_kind n ''command'' then None
      else Option.bind (literal_words [] False (named_children n)) (\<lambda>(ws, named).
        if named then Some ws else None))"

function literal_walk :: "syntax_node list \<Rightarrow> str list list \<Rightarrow> str list list" where
  "literal_walk [] found = found"
| "literal_walk (n # stack) found =
     literal_walk (rev (named_children n) @ stack)
       (if is_kind n ''command'' then
          (case parse_literal_command_from_node n of Some ws \<Rightarrow> found @ [ws] | None \<Rightarrow> found)
        else found)"
  by pat_completeness auto

termination
  by (relation "measure (\<lambda>(stack, found). sum_list (map node_weight stack))")
     (use node_weight_named in \<open>auto simp: sum_list_rev simp flip: rev_map\<close>)

definition parse_shell_lc_literal_commands ::
    "(str \<Rightarrow> syntax_node option) \<Rightarrow> str list \<Rightarrow> str list list option" where
  "parse_shell_lc_literal_commands parse cmd =
     Option.bind (extract_bash_command cmd) (\<lambda>(shell, script).
       Option.bind (parse script) (\<lambda>root.
         if has_error root then None else Some (literal_walk [root] [])))"

end
