(* ===== verification/WindowsCommand.thy ===== *)
theory WindowsCommand
  imports Prelude
begin

text \<open>
  \<open>shell-command/src/command_safety/windows_dangerous_commands.rs\<close>: the commands that are
  dangerous on Windows, which delete by force or open a URL in a program of the user. Splitting
  a text into shell words (\<open>shlex\<close>), the match of the regular expression for a URL-like text and
  the scheme of a parsed URL are arguments.
\<close>

record windows_ops =
  shlex_split :: "str \<Rightarrow> str list option"
  url_capture :: "str \<Rightarrow> str option"
  url_scheme :: "str \<Rightarrow> str option"

section \<open>URLs and programs\<close>

definition looks_like_url :: "windows_ops \<Rightarrow> str \<Rightarrow> bool" where
  "looks_like_url ops token =
     (let lowercase = to_ascii_lowercase token;
          urlish = (case str_find (lit ''https://'') lowercase of
              Some i \<Rightarrow> drop i token
            | None \<Rightarrow> (case str_find (lit ''http://'') lowercase of
                Some i \<Rightarrow> drop i token | None \<Rightarrow> token));
          candidate = (case url_capture ops urlish of Some c \<Rightarrow> c | None \<Rightarrow> urlish) in
      case url_scheme ops candidate of
        None \<Rightarrow> False
      | Some scheme \<Rightarrow> scheme \<in> {lit ''http'', lit ''https''})"

definition args_have_url :: "windows_ops \<Rightarrow> str list \<Rightarrow> bool" where
  "args_have_url ops args = list_ex (looks_like_url ops) args"

definition is_ascii_alphabetic :: "uchar \<Rightarrow> bool" where
  "is_ascii_alphabetic c \<longleftrightarrow> 65 \<le> c \<and> c \<le> 90 \<or> 97 \<le> c \<and> c \<le> 122"

text \<open>The name after the last separator and without a drive letter.\<close>

definition windows_name :: "str \<Rightarrow> str option" where
  "windows_name exe =
     (let name = last (split_where (\<lambda>c. c = 47 \<or> c = 92) exe) in
      if name = [] then None
      else Some (case name of
          drive # colon # rest \<Rightarrow>
            (if is_ascii_alphabetic drive \<and> colon = 58 then rest else name)
        | _ \<Rightarrow> name))"

definition executable_basename :: "str \<Rightarrow> str option" where
  "executable_basename exe = Option.bind (windows_name exe) (\<lambda>name.
     if name = [] then None else Some (to_ascii_lowercase name))"

definition is_powershell_executable :: "str \<Rightarrow> bool" where
  "is_powershell_executable exe \<longleftrightarrow> executable_basename exe \<in> Some `
     {lit ''powershell'', lit ''powershell.exe'', lit ''pwsh'', lit ''pwsh.exe''}"

definition is_browser_executable :: "str \<Rightarrow> bool" where
  "is_browser_executable name \<longleftrightarrow> name \<in> set (map lit
     [''chrome'', ''chrome.exe'', ''msedge'', ''msedge.exe'', ''firefox'', ''firefox.exe'',
      ''iexplore'', ''iexplore.exe''])"

section \<open>PowerShell\<close>

definition SEG_SEPS :: str where "SEG_SEPS = [59, 124, 38, LF, CR, 9]"
definition SOFT_SEPS :: str where "SOFT_SEPS = [123, 125, 40, 41, 91, 93, 44, 59]"

definition DELETE_CMDLETS :: "str list" where
  "DELETE_CMDLETS = map lit [''remove-item'', ''ri'', ''rm'', ''del'', ''erase'', ''rd'', ''rmdir'']"

definition push_trimmed :: "str \<Rightarrow> str list list \<Rightarrow> str list list" where
  "push_trimmed cur segments =
     (if trim cur = [] then segments else butlast segments @ [last segments @ [trim cur]])"

definition segment_char :: "uchar \<Rightarrow> str list list \<times> str \<Rightarrow> str list list \<times> str" where
  "segment_char ch st =
     (case st of (segments, cur) \<Rightarrow>
        (if ch \<in> set SEG_SEPS then
           (let segments = push_trimmed cur segments in
            ((if last segments \<noteq> [] then segments @ [[]] else segments), []))
         else (segments, cur @ [ch])))"

definition segment_token :: "str \<Rightarrow> str list list \<Rightarrow> str list list" where
  "segment_token tok segments =
     (case fold segment_char tok (segments, []) of (segments, cur) \<Rightarrow> push_trimmed cur segments)"

definition segment_atoms :: "str list \<Rightarrow> str list" where
  "segment_atoms segment =
     filter (\<lambda>s. s \<noteq> []) (map trim
       (concat (map (split_where (\<lambda>c. c \<in> set SOFT_SEPS)) segment)))"

definition deletes_by_force :: "str list \<Rightarrow> bool" where
  "deletes_by_force segment =
     (let atoms = segment_atoms segment in
      list_ex (\<lambda>a. list_ex (\<lambda>cmd. eq_ignore_ascii_case a cmd) DELETE_CMDLETS) atoms
      \<and> list_ex (\<lambda>a. eq_ignore_ascii_case a (lit ''-force'')
                  \<or> eq_ignore_ascii_case (take 7 a) (lit ''-force:'')) atoms)"

definition has_force_delete_cmdlet :: "str list \<Rightarrow> bool" where
  "has_force_delete_cmdlet tokens = list_ex deletes_by_force (fold segment_token tokens [[]])"

definition opens_url :: "str \<Rightarrow> bool" where
  "opens_url t \<longleftrightarrow>
     t \<in> set (map lit [''start-process'', ''start'', ''saps'', ''invoke-item'', ''ii''])
     \<or> str_contains t (lit ''start-process'') \<or> str_contains t (lit ''invoke-item'')"

definition first_opens_url :: "str \<Rightarrow> str list \<Rightarrow> bool" where
  "first_opens_url first tokens \<longleftrightarrow>
     (first = lit ''rundll32'' \<and> list_ex (\<lambda>t. str_contains t (lit ''url.dll,fileprotocolhandler'')) tokens)
     \<or> first = lit ''mshta'' \<or> is_browser_executable first
     \<or> first \<in> {lit ''explorer'', lit ''explorer.exe''}"

definition is_dangerous_powershell_words :: "windows_ops \<Rightarrow> str list \<Rightarrow> bool" where
  "is_dangerous_powershell_words ops words =
     (let tokens = map (\<lambda>t. to_ascii_lowercase (trim_matches 34 (trim_matches 39 t))) words;
          has_url = args_have_url ops words in
      (has_url \<and> list_ex opens_url tokens)
      \<or> (has_url \<and> list_ex (\<lambda>t. str_contains t (lit ''shellexecute'')
                               \<or> str_contains t (lit ''shell.application'')) tokens)
      \<or> (tokens \<noteq> [] \<and> has_url \<and> first_opens_url (hd tokens) tokens)
      \<or> has_force_delete_cmdlet tokens)"

definition last_arg :: "str list \<Rightarrow> str option" where
  "last_arg args = (case args of [script] \<Rightarrow> Some script | _ \<Rightarrow> None)"

fun parse_powershell_invocation :: "windows_ops \<Rightarrow> str list \<Rightarrow> str list option" where
  "parse_powershell_invocation ops [] = None"
| "parse_powershell_invocation ops (arg # args) =
     (let lower = to_ascii_lowercase arg in
      if lower \<in> {lit ''-command'', lit ''/command'', lit ''-c''} then
        Option.bind (last_arg args) (shlex_split ops)
      else if starts_with lower (lit ''-command:'') \<or> starts_with lower (lit ''/command:'') then
        (if args \<noteq> [] then None
         else Option.bind (split_once 58 arg) (\<lambda>(flag, script). shlex_split ops script))
      else if starts_with lower [45] then parse_powershell_invocation ops args
      else Some (arg # args))"

definition is_dangerous_powershell :: "windows_ops \<Rightarrow> str list \<Rightarrow> bool" where
  "is_dangerous_powershell ops cmd =
     (case cmd of
        [] \<Rightarrow> False
      | exe # rest \<Rightarrow>
          (if \<not> is_powershell_executable exe then False
           else case parse_powershell_invocation ops rest of
                  None \<Rightarrow> False
                | Some tokens \<Rightarrow> is_dangerous_powershell_words ops tokens))"

section \<open>CMD\<close>

definition is_cmd_operator :: "uchar \<Rightarrow> bool" where
  "is_cmd_operator c \<longleftrightarrow> c = 38 \<or> c = 124"

fun cmd_parts :: "str \<Rightarrow> str \<Rightarrow> str list" where
  "cmd_parts cur [] = (if cur = [] then [] else [cur])"
| "cmd_parts cur (c # s) =
     (if is_cmd_operator c then
        (if cur = [] then [] else [cur])
        @ (if s \<noteq> [] \<and> hd s = c then [c, c] # cmd_parts [] (tl s) else [c] # cmd_parts [] s)
      else cmd_parts (cur @ [c]) s)"

definition split_embedded_cmd_operators :: "str \<Rightarrow> str list" where
  "split_embedded_cmd_operators token = filter (\<lambda>s. trim s \<noteq> []) (cmd_parts [] token)"

text \<open>The arguments after the flag that begins the command; \<open>None\<close> for an unknown argument.\<close>

fun cmd_body :: "str list \<Rightarrow> str list option" where
  "cmd_body [] = Some []"
| "cmd_body (arg # args) =
     (let lower = to_ascii_lowercase arg in
      if lower \<in> {lit ''/c'', lit ''/r'', lit ''-c''} then Some args
      else if starts_with lower [47] then cmd_body args
      else None)"

definition has_flag :: "string \<Rightarrow> str list \<Rightarrow> bool" where
  "has_flag flag args = list_ex (\<lambda>a. eq_ignore_ascii_case a (lit flag)) args"

definition dangerous_segment :: "windows_ops \<Rightarrow> str list \<Rightarrow> bool" where
  "dangerous_segment ops segment =
     (case segment of
        [] \<Rightarrow> False
      | cmd # args \<Rightarrow>
          (let is = (\<lambda>name. eq_ignore_ascii_case cmd (lit name)) in
           (is ''start'' \<and> args_have_url ops segment)
           \<or> ((is ''del'' \<or> is ''erase'') \<and> has_flag ''/f'' segment)
           \<or> ((is ''rd'' \<or> is ''rmdir'') \<and> has_flag ''/s'' segment \<and> has_flag ''/q'' segment)))"

definition CMD_SEPARATORS :: "str list" where
  "CMD_SEPARATORS = [[38], [38, 38], [124], [124, 124]]"

definition is_dangerous_cmd :: "windows_ops \<Rightarrow> str list \<Rightarrow> bool" where
  "is_dangerous_cmd ops cmd =
     (case cmd of
        [] \<Rightarrow> False
      | exe # rest \<Rightarrow>
          (if executable_basename exe \<notin> {Some (lit ''cmd''), Some (lit ''cmd.exe'')} then False
           else case cmd_body rest of
                  None \<Rightarrow> False
                | Some [] \<Rightarrow> False
                | Some remaining \<Rightarrow>
                    (let tokens = (case remaining of
                           [only] \<Rightarrow> (case shlex_split ops only of Some ws \<Rightarrow> ws | None \<Rightarrow> [only])
                         | _ \<Rightarrow> remaining) in
                     list_ex (dangerous_segment ops)
                       (split_where (\<lambda>t. t \<in> set CMD_SEPARATORS)
                         (concat (map split_embedded_cmd_operators tokens))))))"

section \<open>Programs started directly\<close>

definition is_direct_gui_launch :: "windows_ops \<Rightarrow> str list \<Rightarrow> bool" where
  "is_direct_gui_launch ops cmd =
     (case cmd of
        [] \<Rightarrow> False
      | exe # rest \<Rightarrow>
     (case executable_basename exe of
        None \<Rightarrow> False
      | Some base \<Rightarrow>
          args_have_url ops rest
          \<and> (base \<in> {lit ''explorer'', lit ''explorer.exe''}
             \<or> base \<in> {lit ''mshta'', lit ''mshta.exe''}
             \<or> (base \<in> {lit ''rundll32'', lit ''rundll32.exe''}
                \<and> list_ex (\<lambda>t. str_contains (to_ascii_lowercase t) (lit ''url.dll,fileprotocolhandler'')) rest)
             \<or> is_browser_executable base)))"

definition is_dangerous_command_windows :: "windows_ops \<Rightarrow> str list \<Rightarrow> bool" where
  "is_dangerous_command_windows ops cmd \<longleftrightarrow>
     is_dangerous_powershell ops cmd \<or> is_dangerous_cmd ops cmd \<or> is_direct_gui_launch ops cmd"

end
