(* ===== verification/DangerousCommand.thy ===== *)
theory DangerousCommand
  imports ShellScript WindowsCommand
begin

text \<open>
  \<open>shell-command/src/command_safety/is_dangerous_command.rs\<close>: whether a command is one that must
  not run unseen, looking through \<open>sudo\<close>, \<open>env\<close>, \<open>trap\<close> and shell scripts to a fixed depth.
\<close>

datatype danger_platform = Posix | Windows

datatype dangerous_match = ForcedRm | OtherMatch

definition MAX_DANGEROUS_COMMAND_WRAPPER_DEPTH :: nat where
  "MAX_DANGEROUS_COMMAND_WRAPPER_DEPTH = 8"

record danger_ops =
  parse_shell :: "str \<Rightarrow> syntax_node option"
  windows_text :: windows_ops

definition WINDOWS_SUFFIXES :: "str list" where
  "WINDOWS_SUFFIXES = map lit [''.exe'', ''.cmd'', ''.bat'', ''.com'']"

fun first_some :: "'a option list \<Rightarrow> 'a option" where
  "first_some [] = None"
| "first_some (Some x # xs) = Some x"
| "first_some (None # xs) = first_some xs"

fun executable_name_lookup_key :: "danger_platform \<Rightarrow> str \<Rightarrow> str option" where
  "executable_name_lookup_key Posix raw =
     (let name = last (split_on SLASH raw) in if name = [] then None else Some name)"
| "executable_name_lookup_key Windows raw =
     Option.bind (windows_name raw) (\<lambda>name.
       let name = to_ascii_lowercase name in
       case first_some (map (\<lambda>suf. strip_suffix suf name) WINDOWS_SUFFIXES) of
         Some stripped \<Rightarrow> Some stripped
       | None \<Rightarrow> if name = [] then None else Some name)"

definition force_option :: "str \<Rightarrow> bool" where
  "force_option arg \<longleftrightarrow> arg = lit ''--force''
     \<or> (case strip_prefix [45] arg of None \<Rightarrow> False
        | Some flags \<Rightarrow> \<not> starts_with flags [45] \<and> 102 \<in> set flags)"

definition rm_args_include_force_option :: "str list \<Rightarrow> bool" where
  "rm_args_include_force_option args =
     list_ex force_option (takeWhile (\<lambda>arg. arg \<noteq> lit ''--'') args)"

definition env_assignment :: "str \<Rightarrow> bool" where
  "env_assignment arg \<longleftrightarrow> arg \<in> {lit ''-i'', lit ''--ignore-environment''}
     \<or> (case split_once 61 arg of None \<Rightarrow> False
        | Some (name, v) \<Rightarrow> name \<noteq> [] \<and> \<not> starts_with name [45])"

text \<open>The command that \<open>env\<close> runs.\<close>

fun env_command :: "str list \<Rightarrow> str list" where
  "env_command [] = []"
| "env_command (arg # args) =
     (if arg = lit ''--'' then args
      else if env_assignment arg then env_command args
      else arg # args)"

text \<open>The script that \<open>trap\<close> runs later, as a command.\<close>

definition trap_command :: "str list \<Rightarrow> str list option" where
  "trap_command args =
     (case (if args \<noteq> [] \<and> hd args = lit ''--'' then tl args else args) of
        [] \<Rightarrow> None
      | action # rest \<Rightarrow>
          (if starts_with action [45] then None else Some [lit ''sh'', lit ''-c'', action]))"

function dangerous_command_match_with_depth ::
    "danger_ops \<Rightarrow> danger_platform \<Rightarrow> str list \<Rightarrow> nat \<Rightarrow> dangerous_match option"
  and dangerous_command_match_for_exec ::
    "danger_ops \<Rightarrow> danger_platform \<Rightarrow> str list \<Rightarrow> nat \<Rightarrow> dangerous_match option"
where
  "dangerous_command_match_with_depth ops platform cmd wrapper_depth =
     (if MAX_DANGEROUS_COMMAND_WRAPPER_DEPTH < wrapper_depth then Some OtherMatch
      else case dangerous_command_match_for_exec ops platform cmd wrapper_depth of
        Some m \<Rightarrow> Some m
      | None \<Rightarrow>
     (case (case parse_shell_lc_literal_commands (parse_shell ops) cmd of
              None \<Rightarrow> None
            | Some commands \<Rightarrow> first_some (map (\<lambda>c.
                dangerous_command_match_with_depth ops platform c (wrapper_depth + 1)) commands)) of
        Some m \<Rightarrow> Some m
      | None \<Rightarrow>
          (if platform = Windows \<and> is_dangerous_command_windows (windows_text ops) cmd
           then Some OtherMatch else None)))"
| "dangerous_command_match_for_exec ops platform cmd wrapper_depth =
     (case cmd of
        [] \<Rightarrow> None
      | cmd0 # args \<Rightarrow>
     (case executable_name_lookup_key platform cmd0 of
        None \<Rightarrow> None
      | Some name \<Rightarrow>
          (if name = lit ''rm'' \<and> rm_args_include_force_option args then Some ForcedRm
           else if name = lit ''sudo'' then
             dangerous_command_match_with_depth ops platform args (wrapper_depth + 1)
           else if name = lit ''env'' then
             dangerous_command_match_with_depth ops platform (env_command args) (wrapper_depth + 1)
           else if name = lit ''trap'' then
             (case trap_command args of
                None \<Rightarrow> None
              | Some c \<Rightarrow> dangerous_command_match_with_depth ops platform c (wrapper_depth + 1))
           else None)))"
  by pat_completeness auto

termination
  by (relation "measure (\<lambda>x. case x of
        Inl (ops, platform, cmd, d) \<Rightarrow> 2 * (9 - d)
      | Inr (ops, platform, cmd, d) \<Rightarrow> 2 * (8 - d) + 1)")
     (auto simp: MAX_DANGEROUS_COMMAND_WRAPPER_DEPTH_def)

declare dangerous_command_match_with_depth.simps [simp del]
declare dangerous_command_match_for_exec.simps [simp del]

definition dangerous_command_match_for_platform ::
    "danger_ops \<Rightarrow> danger_platform \<Rightarrow> str list \<Rightarrow> dangerous_match option" where
  "dangerous_command_match_for_platform ops platform cmd =
     dangerous_command_match_with_depth ops platform cmd 0"

definition dangerous_powershell_words_match ::
    "danger_ops \<Rightarrow> danger_platform \<Rightarrow> str list \<Rightarrow> dangerous_match option" where
  "dangerous_powershell_words_match ops platform cmd =
     (if platform = Windows \<and> is_dangerous_powershell_words (windows_text ops) cmd
      then Some OtherMatch else None)"

section \<open>What a command hides\<close>

text \<open>
  The specification: a command runs another, directly or in a script, and some command in the
  chain removes by force, or the chain is too long to be followed.
\<close>

inductive runs :: "danger_ops \<Rightarrow> danger_platform \<Rightarrow> str list \<Rightarrow> str list \<Rightarrow> bool"
  for ops platform where
  by_sudo: "executable_name_lookup_key platform c = Some (lit ''sudo'') \<Longrightarrow>
     runs ops platform (c # args) args"
| by_env: "executable_name_lookup_key platform c = Some (lit ''env'') \<Longrightarrow>
     runs ops platform (c # args) (env_command args)"
| by_trap: "executable_name_lookup_key platform c = Some (lit ''trap'') \<Longrightarrow>
     trap_command args = Some inner \<Longrightarrow> runs ops platform (c # args) inner"
| by_script: "parse_shell_lc_literal_commands (parse_shell ops) cmd = Some commands \<Longrightarrow>
     inner \<in> set commands \<Longrightarrow> runs ops platform cmd inner"

definition removes_by_force :: "danger_platform \<Rightarrow> str list \<Rightarrow> bool" where
  "removes_by_force platform cmd \<longleftrightarrow>
     (case cmd of [] \<Rightarrow> False
      | c # args \<Rightarrow> executable_name_lookup_key platform c = Some (lit ''rm'')
          \<and> rm_args_include_force_option args)"

definition dangerous_itself :: "danger_ops \<Rightarrow> danger_platform \<Rightarrow> str list \<Rightarrow> bool" where
  "dangerous_itself ops platform cmd \<longleftrightarrow> removes_by_force platform cmd
     \<or> platform = Windows \<and> is_dangerous_command_windows (windows_text ops) cmd"

lemma first_some_None_iff [simp]: "first_some xs = None \<longleftrightarrow> (\<forall>x \<in> set xs. x = None)"
  by (induction xs rule: first_some.induct) auto

lemma or_else_None_iff:
  "(case a of None \<Rightarrow> b | Some m \<Rightarrow> Some m) = None \<longleftrightarrow> a = None \<and> b = None"
  by (cases a) simp_all

lemma lit_names [simp]:
  "lit ''rm'' \<noteq> lit ''sudo''" "lit ''rm'' \<noteq> lit ''env''" "lit ''rm'' \<noteq> lit ''trap''"
  "lit ''sudo'' \<noteq> lit ''env''" "lit ''sudo'' \<noteq> lit ''trap''" "lit ''env'' \<noteq> lit ''trap''"
  by (simp_all add: lit_def)

text \<open>What a command runs directly.\<close>

definition direct_inner :: "danger_platform \<Rightarrow> str list \<Rightarrow> str list option" where
  "direct_inner platform cmd =
     (case cmd of [] \<Rightarrow> None | c # args \<Rightarrow>
       (let name = executable_name_lookup_key platform c in
        if name = Some (lit ''sudo'') then Some args
        else if name = Some (lit ''env'') then Some (env_command args)
        else if name = Some (lit ''trap'') then trap_command args
        else None))"

lemma direct_inner_iff:
  "direct_inner platform cmd = Some inner \<longleftrightarrow>
     (\<exists>c args. cmd = c # args \<and>
       (executable_name_lookup_key platform c = Some (lit ''sudo'') \<and> inner = args
        \<or> executable_name_lookup_key platform c = Some (lit ''env'') \<and> inner = env_command args
        \<or> executable_name_lookup_key platform c = Some (lit ''trap'') \<and> trap_command args = Some inner))"
  by (cases cmd) (auto simp: direct_inner_def Let_def)

lemma runs_iff:
  "runs ops platform cmd inner \<longleftrightarrow> direct_inner platform cmd = Some inner
     \<or> (\<exists>commands. parse_shell_lc_literal_commands (parse_shell ops) cmd = Some commands
          \<and> inner \<in> set commands)"
  unfolding direct_inner_iff by (auto elim!: runs.cases intro: runs.intros)

lemma match_for_exec:
  "dangerous_command_match_for_exec ops platform cmd d =
     (if removes_by_force platform cmd then Some ForcedRm
      else case direct_inner platform cmd of None \<Rightarrow> None
      | Some inner \<Rightarrow> dangerous_command_match_with_depth ops platform inner (d + 1))"
  by (cases cmd) (auto simp: dangerous_command_match_for_exec.simps [of ops platform] removes_by_force_def
      direct_inner_def Let_def split: option.split)

text \<open>One step: nothing found means not dangerous itself and nothing found in what it runs.\<close>

lemma match_None_step:
  assumes "d \<le> MAX_DANGEROUS_COMMAND_WRAPPER_DEPTH"
  shows "dangerous_command_match_with_depth ops platform cmd d = None \<longleftrightarrow>
    \<not> dangerous_itself ops platform cmd
    \<and> (\<forall>inner. runs ops platform cmd inner \<longrightarrow>
          dangerous_command_match_with_depth ops platform inner (d + 1) = None)"
proof -
  let ?m = "\<lambda>c. dangerous_command_match_with_depth ops platform c (d + 1)"
  have "dangerous_command_match_for_exec ops platform cmd d = None \<longleftrightarrow>
      \<not> removes_by_force platform cmd \<and> (\<forall>i. direct_inner platform cmd = Some i \<longrightarrow> ?m i = None)"
    by (simp add: match_for_exec split: option.split)
  moreover have "(case parse_shell_lc_literal_commands (parse_shell ops) cmd of None \<Rightarrow> None
       | Some commands \<Rightarrow> first_some (map ?m commands)) = None \<longleftrightarrow>
      (\<forall>commands. parse_shell_lc_literal_commands (parse_shell ops) cmd = Some commands
         \<longrightarrow> (\<forall>c \<in> set commands. ?m c = None))"
    by (auto split: option.split)
  ultimately show ?thesis
    using assms unfolding dangerous_command_match_with_depth.simps [of ops platform cmd d]
    by (simp add: or_else_None_iff dangerous_itself_def runs_iff) blast
qed

lemma match_None_iff:
  assumes "n + d = Suc MAX_DANGEROUS_COMMAND_WRAPPER_DEPTH"
  shows "dangerous_command_match_with_depth ops platform cmd d = None \<longleftrightarrow>
    (\<forall>k < n. \<forall>c. (runs ops platform ^^ k) cmd c \<longrightarrow> \<not> dangerous_itself ops platform c)
    \<and> \<not> (\<exists>c. (runs ops platform ^^ n) cmd c)"
  using assms
proof (induction n arbitrary: d cmd)
  case 0
  then show ?case by (simp add: dangerous_command_match_with_depth.simps)
next
  case (Suc n)
  let ?r = "runs ops platform"
  from Suc.prems have "d \<le> MAX_DANGEROUS_COMMAND_WRAPPER_DEPTH" by simp
  have shift: "(?r ^^ Suc k) cmd c \<longleftrightarrow> (\<exists>b. ?r cmd b \<and> (?r ^^ k) b c)" for k c
    by (simp add: relpowp_Suc_left relcompp_apply del: relpowp.simps)
  have all: "(\<forall>k < Suc n. P k) \<longleftrightarrow> P 0 \<and> (\<forall>k < n. P (Suc k))" for P :: "nat \<Rightarrow> bool"
    by (auto simp: less_Suc_eq_0_disj)
  have "dangerous_command_match_with_depth ops platform inner (d + 1) = None \<longleftrightarrow>
      (\<forall>k < n. \<forall>c. (?r ^^ k) inner c \<longrightarrow> \<not> dangerous_itself ops platform c)
      \<and> \<not> (\<exists>c. (?r ^^ n) inner c)" for inner
    by (rule Suc.IH) (use Suc.prems in simp)
  then show ?case
    unfolding match_None_step [OF \<open>d \<le> _\<close>] all shift by auto
qed

end
