(* ===== verification/ShellScriptCorrect.thy ===== *)
theory ShellScriptCorrect
  imports ShellScript
begin

text \<open>
  The two readings of a script agree: the commands that the strict reading gives to the policy
  are the ones the tolerant reading looks at for danger.
\<close>

section \<open>The order of a visit\<close>

text \<open>A stack visits a node, then its children from the last to the first.\<close>

fun visits :: "syntax_node \<Rightarrow> syntax_node list" where
  "visits (SyntaxNode k nm e b t cs) =
     SyntaxNode k nm e b t cs # concat (map visits (rev cs))"

fun named_visits :: "syntax_node \<Rightarrow> syntax_node list" where
  "named_visits (SyntaxNode k nm e b t cs) =
     SyntaxNode k nm e b t cs # concat (map named_visits (rev (filter is_named cs)))"

lemma visits_node: "visits n = n # concat (map visits (rev (node_children n)))"
  by (cases n) simp

lemma named_visits_node: "named_visits n = n # concat (map named_visits (rev (named_children n)))"
  by (cases n) (simp add: named_children_def)

lemma subtrees_node: "subtrees n = n # concat (map subtrees (node_children n))"
  by (cases n) simp

abbreviation is_command :: "syntax_node \<Rightarrow> bool" where
  "is_command n \<equiv> is_named n \<and> is_kind n ''command''"

lemma word_only_walk_eq:
  "word_only_walk stack found =
     (if list_all node_allowed (concat (map visits stack))
      then Some (found @ filter is_command (concat (map visits stack))) else None)"
proof (induction stack found rule: word_only_walk.induct)
  case (2 n stack found)
  show ?case
  proof (cases "node_allowed n")
    case True
    with 2 [OF _ ] show ?thesis by (simp add: visits_node [of n])
  qed (simp add: visits_node [of n])
qed simp

lemma literal_walk_eq:
  "literal_walk stack found =
     found @ List.map_filter parse_literal_command_from_node (concat (map named_visits stack))"
proof (induction stack found rule: literal_walk.induct)
  case (2 n stack found)
  have "parse_literal_command_from_node n = None" if "\<not> is_kind n ''command''"
    using that by (simp add: parse_literal_command_from_node_def)
  with 2 show ?case
    by (auto simp: named_visits_node [of n] map_filter_simps split: option.split)
qed (simp add: map_filter_simps)

lemma plain_commands_eq:
  "plain_commands ns = Some cmds \<longleftrightarrow> map parse_plain_command_from_node ns = map Some cmds"
  by (induction ns arbitrary: cmds) (auto simp: bind_eq_Some_conv Cons_eq_map_conv)

section \<open>Trees as the grammar builds them\<close>

text \<open>
  What tree-sitter and its grammar for Bash promise: a token has no children, and a command
  without assignments and redirections begins with its name.
\<close>

definition tokens_are_leaves :: "syntax_node \<Rightarrow> bool" where
  "tokens_are_leaves root \<longleftrightarrow>
     list_all (\<lambda>n. is_named n \<or> node_children n = []) (subtrees root)"

definition begins_with_name :: "syntax_node \<Rightarrow> bool" where
  "begins_with_name n \<longleftrightarrow> (case named_children n of [] \<Rightarrow> False
     | c # cs \<Rightarrow> is_kind c ''command_name'' \<and> list_all (\<lambda>d. \<not> is_kind d ''command_name'') cs)"

definition commands_named :: "syntax_node \<Rightarrow> bool" where
  "commands_named root \<longleftrightarrow> list_all (\<lambda>n. is_kind n ''command'' \<and> list_all node_allowed (node_children n)
       \<longrightarrow> begins_with_name n) (subtrees root)"

lemma set_visits: "set (visits n) = set (subtrees n)"
  by (induction n rule: visits.induct) auto

lemma mset_concat_rev: "mset (concat (map f (rev xs))) = mset (concat (map f xs))"
  by (induction xs) (auto simp: union_commute)

text \<open>Where tokens are leaves, walking the named children misses no named node.\<close>

lemma named_visits_filter:
  assumes "tokens_are_leaves n" and "is_named n"
  shows "named_visits n = filter is_named (visits n)"
  using assms
proof (induction n rule: named_visits.induct)
  case (1 k nm e b t cs)
  have leaf: "filter is_named (visits c) = []" if "c \<in> set cs" "\<not> is_named c" for c
  proof -
    have "c \<in> set (subtrees c)" by (cases c) simp
    with 1(2) that have "node_children c = []" by (auto simp: tokens_are_leaves_def list_all_iff)
    with that(2) show ?thesis by (simp add: visits_node [of c])
  qed
  have inner: "named_visits c = filter is_named (visits c)" if "c \<in> set cs" "is_named c" for c
    using 1 that by (auto simp: tokens_are_leaves_def list_all_iff)
  have "concat (map named_visits (rev (filter is_named ds))) = filter is_named (concat (map visits (rev ds)))"
    if "set ds \<subseteq> set cs" for ds
    using that by (induction ds) (auto simp: leaf inner)
  from this [of cs] 1(3) show ?case by simp
qed

section \<open>A command read both ways\<close>

lemma literal_word:
  "node_allowed n \<Longrightarrow> is_named n \<Longrightarrow> is_word_or_number n \<Longrightarrow> parse_literal_shell_word n = utf8_text n"
  by (auto simp: node_allowed_def Let_def parse_literal_shell_word.simps [of n])

lemma quoted_word [simp]:
  "is_kind n ''string'' \<Longrightarrow> parse_literal_shell_word n = parse_double_quoted_string n"
  "is_kind n ''raw_string'' \<Longrightarrow> parse_literal_shell_word n = parse_raw_string n"
  by (simp_all add: parse_literal_shell_word.simps [of n] is_word_or_number_def is_kind_def lit_def)

lemma concatenation_part_literal:
  "node_allowed n \<Longrightarrow> is_named n \<Longrightarrow> concatenation_part n = Some s \<Longrightarrow> parse_literal_shell_word n = Some s"
  by (auto simp: concatenation_part_def literal_word split: if_splits)

lemma literal_parts_agree:
  "list_all node_allowed ns \<Longrightarrow> list_all is_named ns \<Longrightarrow> push_parts acc ns = Some s \<Longrightarrow>
     literal_parts acc ns = Some s"
  by (induction acc ns rule: push_parts.induct)
     (auto simp: concatenation_part_literal split: option.splits)

lemma named_children_named [simp]: "list_all is_named (named_children n)"
  by (simp add: named_children_def list_all_iff)

lemma plain_word_literal:
  assumes "node_allowed n" "is_named n" "list_all node_allowed (named_children n)"
    and "\<not> is_kind n ''command_name''" and "plain_word n = Some w"
  shows "parse_literal_shell_word n = Some w"
proof (cases "is_kind n ''concatenation''")
  case True
  then have "plain_concatenation n = Some w"
    using assms(5) by (auto simp: plain_word_def is_word_or_number_def is_kind_def lit_def)
  with True literal_parts_agree [OF assms(3) named_children_named] show ?thesis
    by (auto simp: plain_concatenation_def parse_literal_shell_word.simps [of n] is_word_or_number_def
        is_kind_def lit_def bind_eq_Some_conv split: if_splits)
next
  case False
  with assms show ?thesis by (auto simp: plain_word_def literal_word split: if_splits)
qed

lemma plain_name_literal:
  assumes "is_kind n ''command_name''" and "list_all node_allowed (named_children n)"
    and "plain_word n = Some w"
  shows "Option.bind (named_child_0 n) parse_literal_shell_word = Some w"
proof -
  from assms(1,3) obtain c cs where c: "named_children n = c # cs" "is_kind c ''word''" "utf8_text c = Some w"
    by (auto simp: plain_word_def named_child_0_def bind_eq_Some_conv split: list.splits if_splits)
  with assms(2) named_children_named [of n] have "node_allowed c" "is_named c" by simp_all
  from literal_word [OF this] c show ?thesis by (simp add: named_child_0_def is_word_or_number_def)
qed

definition node_readable :: "syntax_node \<Rightarrow> bool" where
  "node_readable n \<longleftrightarrow> node_allowed n \<and> is_named n \<and> list_all node_allowed (named_children n)"

lemma push_words_literal:
  "list_all node_readable ns \<Longrightarrow> list_all (\<lambda>d. \<not> is_kind d ''command_name'') ns \<Longrightarrow>
     push_words ws ns = Some ws' \<Longrightarrow> literal_words ws True ns = Some (ws', True)"
  by (induction ws ns rule: push_words.induct)
     (auto simp: plain_word_literal node_readable_def split: option.splits)

lemma children_visited: "c \<in> set (node_children n) \<Longrightarrow> set (subtrees c) \<subseteq> set (subtrees n)"
  by (auto simp: subtrees_node [of n])

lemma self_subtree [simp]: "n \<in> set (subtrees n)"
  by (simp add: subtrees_node [of n])

lemma subtrees_trans: "m \<in> set (subtrees n) \<Longrightarrow> set (subtrees m) \<subseteq> set (subtrees n)"
  by (induction n rule: subtrees.induct) auto

lemma command_literal:
  assumes "n \<in> set (subtrees root)" and "list_all node_allowed (subtrees root)"
    and "commands_named root" and "parse_plain_command_from_node n = Some ws"
  shows "parse_literal_command_from_node n = Some ws"
proof -
  from assms(4) have cmd: "is_kind n ''command''" and ws: "push_words [] (named_children n) = Some ws"
    by (auto simp: parse_plain_command_from_node_def split: if_splits)
  have sub: "set (subtrees n) \<subseteq> set (subtrees root)" by (rule subtrees_trans [OF assms(1)])
  have deep: "c \<in> set (subtrees root)" if "c \<in> set (node_children n)" for c
    using children_visited [OF that] sub self_subtree by blast
  have allowed: "node_allowed c" if "c \<in> set (subtrees root)" for c
    using assms(2) that by (simp add: list_all_iff)
  have children: "list_all node_readable (named_children n)"
  proof -
    have "node_allowed d" if c: "c \<in> set (node_children n)" and "d \<in> set (named_children c)" for c d
    proof (rule allowed)
      from that(2) have "d \<in> set (node_children c)" by (simp add: named_children_def)
      then show "d \<in> set (subtrees root)"
        using subtrees_trans [OF deep [OF c]] children_visited self_subtree by blast
    qed
    then show ?thesis
      using allowed deep by (auto simp: node_readable_def list_all_iff named_children_def)
  qed
  have "list_all node_allowed (node_children n)" using allowed deep by (simp add: list_all_iff)
  with assms(1,3) cmd have "begins_with_name n" by (simp add: commands_named_def list_all_iff)
  then obtain c cs where cs: "named_children n = c # cs" "is_kind c ''command_name''"
    "list_all (\<lambda>d. \<not> is_kind d ''command_name'') cs"
    by (auto simp: begins_with_name_def split: list.splits)
  from ws cs(1) obtain w where w: "plain_word c = Some w" and rest: "push_words [w] cs = Some ws"
    by (auto split: option.splits)
  have c: "node_readable c" and rd: "list_all node_readable cs" using children cs(1) by simp_all
  from plain_name_literal [OF cs(2) _ w] c
  have "Option.bind (named_child_0 c) parse_literal_shell_word = Some w" by (simp add: node_readable_def)
  with push_words_literal [OF rd cs(3) rest] cs cmd show ?thesis
    by (simp add: parse_literal_command_from_node_def)
qed

lemma map_filter_all_Some: "\<forall>x \<in> set xs. f x = Some (g x) \<Longrightarrow> List.map_filter f xs = map g xs"
  by (induction xs) (auto simp: map_filter_simps)

lemma map_filter_restrict:
  "\<forall>x \<in> set xs. \<not> P x \<longrightarrow> f x = None \<Longrightarrow> List.map_filter f xs = List.map_filter f (filter P xs)"
  by (induction xs) (auto simp: map_filter_def)

lemma readings_agree:
  assumes "tokens_are_leaves root" and "commands_named root" and "is_named root"
    and "try_parse_word_only_commands_sequence root = Some cmds"
  shows "\<not> has_error root \<and> mset (literal_walk [root] []) = mset cmds"
proof -
  let ?found = "filter is_command (visits root)"
  from assms(4) have ok: "\<not> has_error root" "list_all node_allowed (visits root)"
    and plain: "map parse_plain_command_from_node (sort_key start_byte ?found) = map Some cmds"
    by (auto simp: try_parse_word_only_commands_sequence_def word_only_walk_eq plain_commands_eq
        bind_eq_Some_conv split: if_splits)
  have allowed: "list_all node_allowed (subtrees root)" using ok(2) by (simp add: list_all_iff set_visits)
  have some: "\<exists>ws. parse_plain_command_from_node n = Some ws" if "n \<in> set ?found" for n
  proof -
    have "parse_plain_command_from_node n \<in> set (map parse_plain_command_from_node (sort_key start_byte ?found))"
      using that by simp
    then show ?thesis unfolding plain by auto
  qed
  have lit: "parse_literal_command_from_node n = Some (the (parse_plain_command_from_node n))"
    if "n \<in> set ?found" for n
    using some [OF that] command_literal [OF _ allowed assms(2), of n] that by (auto simp: set_visits)
  have "literal_walk [root] [] = List.map_filter parse_literal_command_from_node (filter is_named (visits root))"
    by (simp add: literal_walk_eq named_visits_filter [OF assms(1,3)])
  also have "\<dots> = List.map_filter parse_literal_command_from_node (filter (\<lambda>n. is_kind n ''command'') (filter is_named (visits root)))"
    by (rule map_filter_restrict) (simp add: parse_literal_command_from_node_def)
  also have "\<dots> = map (the \<circ> parse_plain_command_from_node) ?found"
    using lit by (subst map_filter_all_Some) (auto simp: conj_commute)
  finally have "mset (literal_walk [root] []) = image_mset (the \<circ> parse_plain_command_from_node) (mset ?found)"
    by simp
  also have "\<dots> = mset (map the (map parse_plain_command_from_node (sort_key start_byte ?found)))"
    by (simp add: multiset.map_comp)
  finally show ?thesis using ok(1) unfolding plain by (simp add: comp_def)
qed

end
