(* ===== verification/DangerousCommandCorrect.thy ===== *)
theory DangerousCommandCorrect
  imports DangerousCommand ShellScriptCorrect
begin

text \<open>
  What the search for dangerous commands finds: exactly the chains of commands that end in a
  dangerous one, and every chain it cannot follow to its end. The scripts it looks into hold the
  commands the policy sees.
\<close>

text \<open>
  C11. The search for dangerous commands misses nothing and invents nothing: a command is held to
  be dangerous exactly when it runs, through at most eight wrappers (\<open>sudo\<close>, \<open>env\<close>, \<open>trap\<close>, a
  script given to a shell), a command that removes by force or is one of the dangerous ones of
  Windows, or when there is a chain of nine wrappers.
\<close>

theorem dangerous_command_chain:
  "dangerous_command_match_for_platform ops platform cmd \<noteq> None \<longleftrightarrow>
     (\<exists>k c. k \<le> MAX_DANGEROUS_COMMAND_WRAPPER_DEPTH \<and> (runs ops platform ^^ k) cmd c
            \<and> dangerous_itself ops platform c)
     \<or> (\<exists>c. (runs ops platform ^^ Suc MAX_DANGEROUS_COMMAND_WRAPPER_DEPTH) cmd c)"
  unfolding dangerous_command_match_for_platform_def
    match_None_iff [OF Nat.add_0_right [of "Suc MAX_DANGEROUS_COMMAND_WRAPPER_DEPTH"]] less_Suc_eq_le
  by blast

section \<open>Scripts\<close>

lemma literal_commands_agree:
  assumes "extract_bash_command cmd = Some (shell, script)" and "parse script = Some root"
    and "tokens_are_leaves root" and "commands_named root" and "is_named root"
    and "parse_shell_lc_plain_commands parse cmd = Some cmds"
  shows "\<exists>lits. parse_shell_lc_literal_commands parse cmd = Some lits \<and> mset lits = mset cmds"
proof -
  from assms(1,2,6) have "try_parse_word_only_commands_sequence root = Some cmds"
    by (simp add: parse_shell_lc_plain_commands_def parse_shell_script_into_commands_def)
  from readings_agree [OF assms(3-5) this] assms(1,2) show ?thesis
    by (simp add: parse_shell_lc_literal_commands_def)
qed

lemma runs_script_command:
  assumes "parse_shell_lc_literal_commands (parse_shell ops) cmd = Some lits" and "c \<in> set lits"
    and "dangerous_command_match_with_depth ops platform c 1 \<noteq> None"
  shows "dangerous_command_match_for_platform ops platform cmd \<noteq> None"
  using assms match_None_step [of 0 ops platform cmd]
  by (auto simp: dangerous_command_match_for_platform_def runs_iff)

text \<open>
  The policy and the search for dangerous commands see the same script: when a script is
  taken apart into plain commands for the policy, the search finds the same commands in it, each
  as often, so a script that holds a dangerous plain command is itself held to be dangerous. The
  tree of the script is one that the grammar for Bash can build.
\<close>

theorem script_commands_searched:
  assumes "extract_bash_command cmd = Some (shell, script)" and "parse_shell ops script = Some root"
    and "tokens_are_leaves root" and "commands_named root" and "is_named root"
    and "parse_shell_lc_plain_commands (parse_shell ops) cmd = Some cmds"
  shows "(\<exists>lits. parse_shell_lc_literal_commands (parse_shell ops) cmd = Some lits \<and> mset lits = mset cmds)
    \<and> (list_ex (\<lambda>c. dangerous_command_match_with_depth ops platform c 1 \<noteq> None) cmds
       \<longrightarrow> dangerous_command_match_for_platform ops platform cmd \<noteq> None)"
proof -
  obtain lits where lits: "parse_shell_lc_literal_commands (parse_shell ops) cmd = Some lits"
    and same: "mset lits = mset cmds"
    using literal_commands_agree [OF assms] by blast
  with runs_script_command [OF lits] show ?thesis
    by (auto simp: list_ex_iff dest: mset_eq_setD)
qed

section \<open>A sample script\<close>

definition leaf :: "string \<Rightarrow> bool \<Rightarrow> nat \<Rightarrow> str \<Rightarrow> syntax_node" where
  "leaf k nm b t = SyntaxNode (lit k) nm False b (Some t) []"

definition word_command :: "nat \<Rightarrow> str \<Rightarrow> (nat \<times> str) list \<Rightarrow> syntax_node" where
  "word_command b name args = SyntaxNode (lit ''command'') True False b None
     (SyntaxNode (lit ''command_name'') True False b (Some name) [leaf ''word'' True b name]
      # map (\<lambda>(b, a). leaf ''word'' True b a) args)"

text \<open>The tree of \<open>ls; rm -f x\<close>.\<close>

definition sample_script :: syntax_node where
  "sample_script = SyntaxNode (lit ''program'') True False 0 None
     [word_command 0 (lit ''ls'') [], leaf '';'' False 2 [59],
      word_command 4 (lit ''rm'') [(7, lit ''-f''), (10, lit ''x'')]]"

definition sample_danger_ops :: danger_ops where
  "sample_danger_ops = \<lparr>parse_shell = (\<lambda>s. if s = lit ''ls; rm -f x'' then Some sample_script else None),
     windows_text = \<lparr>shlex_split = (\<lambda>s. None), url_capture = (\<lambda>s. None), url_scheme = (\<lambda>s. None)\<rparr>\<rparr>"

definition sample_shell_command :: "str list" where
  "sample_shell_command = [lit ''/bin/bash'', lit ''-lc'', lit ''ls; rm -f x'']"

lemma sample_shell_detected: "detect_shell_type (lit ''/bin/bash'') = Some Bash"
  by code_simp

lemma sample_extract:
  "extract_bash_command sample_shell_command = Some (lit ''/bin/bash'', lit ''ls; rm -f x'')"
  by code_simp

lemma sample_plain:
  "parse_shell_lc_plain_commands (parse_shell sample_danger_ops) sample_shell_command
    = Some [[lit ''ls''], [lit ''rm'', lit ''-f'', lit ''x'']]"
  by code_simp

lemma sample_tree: "tokens_are_leaves sample_script" "commands_named sample_script" "is_named sample_script"
  by code_simp+

theorem script_commands_searched_witness:
  "dangerous_command_match_for_platform sample_danger_ops Posix sample_shell_command \<noteq> None"
proof -
  have "list_ex (\<lambda>c. dangerous_command_match_with_depth sample_danger_ops Posix c 1 \<noteq> None)
      [[lit ''ls''], [lit ''rm'', lit ''-f'', lit ''x'']]"
    by code_simp
  moreover have "parse_shell sample_danger_ops (lit ''ls; rm -f x'') = Some sample_script"
    by (simp add: sample_danger_ops_def)
  ultimately show ?thesis
    using script_commands_searched [OF sample_extract _ sample_tree sample_plain, of Posix] by blast
qed

end
