(* ===== verification/PowerShellScript.thy ===== *)
theory PowerShellScript
  imports ShellScript
begin

text \<open>
  \<open>shell-command/src/powershell.rs\<close> and \<open>command_safety/powershell_tree_sitter.rs\<close>: a literal
  PowerShell script as the commands it runs. Everything that is not plainly literal is refused.

  Tree-sitter is not in the repository: \<open>parse\<close> is the tree it builds of a text, if it builds one.
  The ranges of its nodes never cut a character, so they are counted in characters here.
\<close>

datatype ps_node = PsNode
  (ps_kind: str) (ps_named: bool) (ps_error: bool) (ps_start: nat) (ps_end: nat)
  (ps_children: "ps_node list")

datatype lowering_error =
    UnicodeSyntaxAlias
  | NoTree
  | TreeError
  | RequiresDirective
  | UnrecognizedKind str
  | NoCommandNodes
  | SourceOutsideCommands
  | UsingDeclaration
  | EmptyCommandOrWord
  | AdjacentElements
  | EmptyWord
  | NoWords
  | UnterminatedSingleQuoted
  | UnterminatedDoubleQuoted
  | VariableSyntax
  | TrailingEscape
  | VersionDependentEscape
  | UnicodeEscape
  | StructuralCharacter uchar
  | AttachedParameterValue
  | NonCanonicalNumber

section \<open>The words of a command\<close>

abbreviation QUOTE :: uchar where "QUOTE \<equiv> 39"
abbreviation DQUOTE :: uchar where "DQUOTE \<equiv> 34"
abbreviation BACKTICK :: uchar where "BACKTICK \<equiv> 96"
abbreviation HASH :: uchar where "HASH \<equiv> 35"

text \<open>The value and what follows it, from behind the opening quote.\<close>

fun parse_single_quoted :: "str \<Rightarrow> str \<Rightarrow> lowering_error + str \<times> str" where
  "parse_single_quoted v [] = Inl UnterminatedSingleQuoted"
| "parse_single_quoted v (c # cs) =
     (if c \<noteq> QUOTE then parse_single_quoted (v @ [c]) cs
      else case cs of
        d # ds \<Rightarrow> (if d = QUOTE then parse_single_quoted (v @ [QUOTE]) ds else Inr (v, cs))
      | [] \<Rightarrow> Inr (v, cs))"

definition decode_backtick_escape :: "uchar \<Rightarrow> uchar" where
  "decode_backtick_escape c =
     (if c = 48 then 0 else if c = 97 then 7 else if c = 98 then 8 else if c = 102 then 12
      else if c = 110 then 10 else if c = 114 then 13 else if c = 116 then 9
      else if c = 118 then 11 else c)"

fun parse_double_quoted :: "str \<Rightarrow> str \<Rightarrow> lowering_error + str \<times> str" where
  "parse_double_quoted v [] = Inl UnterminatedDoubleQuoted"
| "parse_double_quoted v (c # cs) =
     (if c = DQUOTE then Inr (v, cs)
      else if c = 36 then Inl VariableSyntax
      else if c = BACKTICK then
        (case cs of
           [] \<Rightarrow> Inl TrailingEscape
         | escaped # ds \<Rightarrow>
             (if escaped = 101 then Inl VersionDependentEscape
              else if escaped = 117 \<and> ds \<noteq> [] \<and> hd ds = 123 then Inl UnicodeEscape
              else parse_double_quoted (v @ [decode_backtick_escape escaped]) ds))
      else parse_double_quoted (v @ [c]) cs)"

definition is_rejected_bare_character :: "uchar \<Rightarrow> bool" where
  "is_rejected_bare_character c \<longleftrightarrow>
     c \<in> {36, 64, 39, 34, 40, 41, 123, 125, 91, 93, 59, 124, 38, 62, 60, 44}"

fun bare_word :: "str \<Rightarrow> str \<Rightarrow> lowering_error + str \<times> str" where
  "bare_word v [] = Inr (v, [])"
| "bare_word v (c # cs) =
     (if is_whitespace c then Inr (v, c # cs)
      else if c = BACKTICK then
        (case cs of
           [] \<Rightarrow> Inl TrailingEscape
         | escaped # ds \<Rightarrow>
             (if escaped = 101 then Inl VersionDependentEscape
              else bare_word (v @ [decode_backtick_escape escaped]) ds))
      else if is_rejected_bare_character c then Inl (StructuralCharacter c)
      else bare_word (v @ [c]) cs)"

definition parse_bare_word :: "str \<Rightarrow> lowering_error + str \<times> str" where
  "parse_bare_word cs = bind_result (bare_word [] cs) (\<lambda>(v, rest).
     if v = [] then Inl EmptyWord else Inr (v, rest))"

definition reject_unsupported_bare_word :: "str \<Rightarrow> lowering_error + unit" where
  "reject_unsupported_bare_word word =
     (if starts_with word (lit ''-'') \<and> \<not> starts_with word (lit ''--'') \<and> 58 \<in> set word
      then Inl AttachedParameterValue
      else if word \<noteq> [] \<and> is_ascii_digit (hd word)
        \<and> \<not> (word = lit ''0'' \<or> hd word \<noteq> 48 \<and> list_all is_ascii_digit word)
      then Inl NonCanonicalNumber
      else Inr ())"

text \<open>A word, whether it is bare, and what follows it.\<close>

definition parse_word :: "str \<Rightarrow> lowering_error + str \<times> str \<times> bool" where
  "parse_word cs =
     (if hd cs = QUOTE then
        bind_result (parse_single_quoted [] (tl cs)) (\<lambda>(w, rest). Inr (w, rest, False))
      else if hd cs = DQUOTE then
        bind_result (parse_double_quoted [] (tl cs)) (\<lambda>(w, rest). Inr (w, rest, False))
      else bind_result (parse_bare_word cs) (\<lambda>(w, rest). Inr (w, rest, True)))"

lemma parse_single_quoted_shorter:
  "parse_single_quoted v cs = Inr (w, rest) \<Longrightarrow> length rest < length cs"
  by (induction v cs rule: parse_single_quoted.induct) (fastforce split: if_splits list.splits)+

lemma parse_double_quoted_shorter:
  "parse_double_quoted v cs = Inr (w, rest) \<Longrightarrow> length rest < length cs"
  by (induction v cs rule: parse_double_quoted.induct) (fastforce split: if_splits list.splits)+

lemma bare_word_shorter:
  "bare_word v cs = Inr (w, rest) \<Longrightarrow> length rest < length cs \<or> w = v \<and> rest = cs"
  by (induction v cs rule: bare_word.induct) (fastforce split: if_splits list.splits)+

lemma parse_bare_word_shorter: "parse_bare_word cs = Inr (w, rest) \<Longrightarrow> length rest < length cs"
  by (auto simp: parse_bare_word_def dest: bare_word_shorter split: if_splits)

lemma parse_word_shorter:
  "parse_word cs = Inr (w, rest, bare) \<Longrightarrow> cs \<noteq> [] \<Longrightarrow> length rest < length cs"
  by (cases cs)
     (auto simp: parse_word_def dest!: parse_single_quoted_shorter parse_double_quoted_shorter
       dest: parse_bare_word_shorter split: if_splits)

function lower_words :: "str list \<Rightarrow> str \<Rightarrow> lowering_error + str list" where
  "lower_words ws cs =
     (let cs = dropWhile is_whitespace cs in
      if cs = [] \<or> hd cs = HASH then Inr ws
      else case parse_word cs of
        Inl e \<Rightarrow> Inl e
      | Inr (word, rest, bare) \<Rightarrow>
          (if rest \<noteq> [] \<and> \<not> is_whitespace (hd rest) \<and> hd rest \<noteq> HASH then Inl AdjacentElements
           else if word = [] then Inl EmptyWord
           else case (if bare then reject_unsupported_bare_word word else Inr ()) of
             Inl e \<Rightarrow> Inl e
           | Inr u \<Rightarrow> lower_words (ws @ [word]) rest))"
  by pat_completeness auto

termination
  by (relation "measure (\<lambda>(ws, cs). length cs)")
     (auto dest!: parse_word_shorter intro: order_less_le_trans length_dropWhile_le)

declare lower_words.simps [simp del]

definition lower_command_text :: "str \<Rightarrow> lowering_error + str list" where
  "lower_command_text s = bind_result (lower_words [] (trim s)) (\<lambda>ws.
     if ws = [] then Inl NoWords else Inr ws)"

section \<open>Parameters with a value\<close>

definition is_inline_parameter_token_separator :: "uchar \<Rightarrow> bool" where
  "is_inline_parameter_token_separator c \<longleftrightarrow> is_whitespace c \<or> c \<in> set (lit ''|&;#><(){}'')"

definition is_rejected_inline_parameter_character :: "uchar \<Rightarrow> bool" where
  "is_rejected_inline_parameter_character c \<longleftrightarrow>
     is_whitespace c \<or> is_rejected_bare_character c \<or> c = BACKTICK \<or> c = HASH"

definition inline_parameter_equals :: "nat \<Rightarrow> str \<Rightarrow> nat list" where
  "inline_parameter_equals start token =
     (if starts_with token (lit ''--'') \<and> \<not> list_ex is_rejected_inline_parameter_character token then
        (case str_find [61] token of
           Some i \<Rightarrow> (if 2 < i \<and> i + 1 < length token then [start + i] else [])
         | None \<Rightarrow> [])
      else [])"

fun inline_equals_from :: "nat \<Rightarrow> str \<Rightarrow> str \<Rightarrow> nat list" where
  "inline_equals_from start token [] = inline_parameter_equals start token"
| "inline_equals_from start token (c # cs) =
     (if is_inline_parameter_token_separator c
      then inline_parameter_equals start token @ inline_equals_from (start + length token + 1) [] cs
      else inline_equals_from start (token @ [c]) cs)"

definition inline_double_dash_parameter_equals :: "str \<Rightarrow> nat list" where
  "inline_double_dash_parameter_equals script = inline_equals_from 0 [] script"

definition mask_equals :: "str \<Rightarrow> str" where
  "mask_equals script = fold (\<lambda>i s. s[i := 32]) (inline_double_dash_parameter_equals script) script"

section \<open>The tree\<close>

fun ps_weight :: "ps_node \<Rightarrow> nat" where
  "ps_weight (PsNode k n e a b cs) = Suc (sum_list (map ps_weight cs))"

definition ps_named_children :: "ps_node \<Rightarrow> ps_node list" where
  "ps_named_children n = filter ps_named (ps_children n)"

lemma ps_weight_named: "sum_list (map ps_weight (ps_named_children n)) < ps_weight n"
proof -
  have "sum_list (map ps_weight (filter ps_named cs)) \<le> sum_list (map ps_weight cs)" for cs
    by (induction cs) auto
  then show ?thesis by (cases n) (simp add: ps_named_children_def less_Suc_eq_le)
qed

lemma ps_weight_pos: "0 < ps_weight n"
  by (cases n) simp

definition ps_text :: "str \<Rightarrow> ps_node \<Rightarrow> str" where
  "ps_text script n = take (ps_end n - ps_start n) (drop (ps_start n) script)"

text \<open>Commands are not searched for further commands.\<close>

function collect_command_nodes :: "ps_node list \<Rightarrow> ps_node list \<Rightarrow> ps_node list" where
  "collect_command_nodes [] found = found"
| "collect_command_nodes (n # stack) found =
     (if ps_kind n = lit ''command'' then collect_command_nodes stack (found @ [n])
      else collect_command_nodes (ps_named_children n @ stack) found)"
  by pat_completeness auto

termination
  by (relation "measure (\<lambda>(stack, found). sum_list (map ps_weight stack))")
     (use ps_weight_named ps_weight_pos in auto)

text \<open>The first node of a walk over the named children that satisfies a condition.\<close>

function ps_find :: "(ps_node \<Rightarrow> bool) \<Rightarrow> ps_node list \<Rightarrow> ps_node option" where
  "ps_find P [] = None"
| "ps_find P (n # stack) =
     (if P n then Some n else ps_find P (rev (ps_named_children n) @ stack))"
  by pat_completeness auto

termination
  by (relation "measure (\<lambda>(P, stack). sum_list (map ps_weight stack))")
     (use ps_weight_named in \<open>auto simp: sum_list_rev simp flip: rev_map\<close>)

definition is_requires_comment :: "str \<Rightarrow> ps_node \<Rightarrow> bool" where
  "is_requires_comment script n \<longleftrightarrow> ps_kind n = lit ''comment''
     \<and> starts_with (to_ascii_lowercase (trim_start (ps_text script n))) (lit ''#requires'')"

definition has_requires_directive :: "str \<Rightarrow> ps_node \<Rightarrow> bool" where
  "has_requires_directive script root \<longleftrightarrow> ps_find (is_requires_comment script) [root] \<noteq> None"

definition ALLOWED_NAMED_KINDS :: "str list" where
  "ALLOWED_NAMED_KINDS = map lit
     [''program'', ''statement_list'', ''pipeline'', ''pipeline_chain'', ''pipeline_chain_tail'',
      ''command'', ''command_name'', ''command_elements'', ''command_argument_sep'',
      ''command_parameter'', ''generic_token'', ''array_literal_expression'', ''unary_expression'',
      ''string_literal'', ''verbatim_string_characters'', ''expandable_string_literal'',
      ''integer_literal'', ''decimal_integer_literal'', ''comment'', ''empty_statement'',
      ''expression_with_unary_operator'']"

definition first_unrecognized_named_kind :: "ps_node \<Rightarrow> str option" where
  "first_unrecognized_named_kind root =
     map_option ps_kind (ps_find (\<lambda>n. ps_named n \<and> ps_kind n \<notin> set ALLOWED_NAMED_KINDS) [root])"

section \<open>Nothing but commands\<close>

record coverage =
  can_chain :: bool
  needs_command :: bool
  paren_depth :: nat

text \<open>Whether a comment may begin: at the start of the script or behind a separator.\<close>

definition token_boundary :: "str \<Rightarrow> nat \<Rightarrow> bool" where
  "token_boundary script i \<longleftrightarrow> i = 0 \<or> (let before = script ! (i - 1) in is_whitespace before \<or> before = 59)"

text \<open>One character outside the commands: where to go on and with which state.\<close>

definition skip_character :: "str \<Rightarrow> nat \<Rightarrow> coverage \<Rightarrow> (nat \<times> coverage) option" where
  "skip_character script i st =
     (let c = script ! i; rest = drop (i + 1) script; bar = starts_with rest [124]; amp = starts_with rest [38] in
      if c = CR \<or> c = LF then Some (i + 1, st\<lparr>can_chain := False\<rparr>)
      else if is_whitespace c then Some (i + 1, st)
      else if c = 59 then (if needs_command st then None else Some (i + 1, st\<lparr>can_chain := False\<rparr>))
      else if c = 40 \<and> \<not> can_chain st then Some (i + 1, st\<lparr>paren_depth := paren_depth st + 1\<rparr>)
      else if c = 41 \<and> 0 < paren_depth st \<and> \<not> needs_command st then
        Some (i + 1, st\<lparr>paren_depth := paren_depth st - 1\<rparr>)
      else if c = 124 \<and> can_chain st then
        Some (if bar then i + 2 else i + 1, st\<lparr>can_chain := False, needs_command := True\<rparr>)
      else if c = 38 \<and> can_chain st \<and> amp then
        Some (i + 2, st\<lparr>can_chain := False, needs_command := True\<rparr>)
      else if c = HASH \<and> \<not> needs_command st then
        (if \<not> token_boundary script i then None
         else Some (i + 1 + length (takeWhile (\<lambda>d. d \<noteq> CR \<and> d \<noteq> LF) rest), st))
      else if c = 60 \<and> starts_with rest [HASH] \<and> \<not> needs_command st \<and> token_boundary script i then
        (case str_find (lit ''#>'') rest of None \<Rightarrow> None | Some e \<Rightarrow> Some (i + 1 + e + 2, st))
      else None)"

lemma skip_character_forward: "skip_character script i st = Some (j, st') \<Longrightarrow> i < j"
  by (auto simp: skip_character_def Let_def split: if_splits option.splits)

function source_covered :: "str \<Rightarrow> (nat \<times> nat) list \<Rightarrow> nat \<Rightarrow> coverage \<Rightarrow> bool" where
  "source_covered script ranges i st =
     (if length script \<le> i then ranges = [] \<and> \<not> needs_command st \<and> paren_depth st = 0
      else if ranges \<noteq> [] \<and> i = fst (hd ranges) then
        source_covered script (tl ranges) (snd (hd ranges)) (st\<lparr>can_chain := True, needs_command := False\<rparr>)
      else (case skip_character script i st of
          None \<Rightarrow> False
        | Some (next, st') \<Rightarrow> source_covered script ranges next st'))"
  by pat_completeness auto

termination
  by (relation "measures [\<lambda>(script, ranges, i, st). length ranges, \<lambda>(script, ranges, i, st). length script - i]")
     (auto dest!: skip_character_forward)

declare source_covered.simps [simp del]

definition source_is_covered_by_commands :: "str \<Rightarrow> (nat \<times> nat) list \<Rightarrow> bool" where
  "source_is_covered_by_commands script ranges = source_covered script ranges 0
     \<lparr>can_chain = False, needs_command = False, paren_depth = 0\<rparr>"

section \<open>The script\<close>

definition UNICODE_ALIASES :: str where
  "UNICODE_ALIASES = [8216, 8217, 8220, 8221, 8211, 8212, 8213]"

fun lower_nodes :: "str \<Rightarrow> ps_node list \<Rightarrow> lowering_error + str list list" where
  "lower_nodes script [] = Inr []"
| "lower_nodes script (n # ns) =
     bind_result (lower_command_text (ps_text script n)) (\<lambda>ws.
     bind_result (lower_nodes script ns) (\<lambda>wss. Inr (ws # wss)))"

definition lower_with_tree_sitter :: "(str \<Rightarrow> ps_node option) \<Rightarrow> str \<Rightarrow> lowering_error + str list list" where
  "lower_with_tree_sitter parse script =
     (if list_ex (\<lambda>c. c \<in> set UNICODE_ALIASES) script then Inl UnicodeSyntaxAlias
      else case parse (mask_equals script) of
        None \<Rightarrow> Inl NoTree
      | Some root \<Rightarrow>
          (if ps_error root then Inl TreeError
           else if has_requires_directive script root then Inl RequiresDirective
           else case first_unrecognized_named_kind root of
             Some k \<Rightarrow> Inl (UnrecognizedKind k)
           | None \<Rightarrow>
               (let nodes = collect_command_nodes [root] [] in
                if nodes = [] then Inl NoCommandNodes
                else bind_result (lower_nodes script nodes) (\<lambda>commands.
                  if \<not> source_is_covered_by_commands script (map (\<lambda>n. (ps_start n, ps_end n)) nodes)
                  then Inl SourceOutsideCommands
                  else if list_ex (\<lambda>c. c \<noteq> [] \<and> eq_ignore_ascii_case (hd c) (lit ''using'')) commands
                  then Inl UsingDeclaration
                  else if list_ex (\<lambda>c. c = [] \<or> list_ex (\<lambda>w. w = []) c) commands
                  then Inl EmptyCommandOrWord
                  else Inr commands))))"

definition try_parse_powershell_commands :: "(str \<Rightarrow> ps_node option) \<Rightarrow> str \<Rightarrow> str list list option" where
  "try_parse_powershell_commands parse script =
     (case lower_with_tree_sitter parse script of Inr commands \<Rightarrow> Some commands | Inl e \<Rightarrow> None)"

section \<open>The wrapper\<close>

definition POWERSHELL_FLAGS :: "str list" where
  "POWERSHELL_FLAGS = map lit [''-nologo'', ''-noprofile'', ''-command'', ''-c'']"

text \<open>The script behind the first \<open>-Command\<close>; a flag that is not known refuses all.\<close>

fun powershell_script :: "str list \<Rightarrow> str option" where
  "powershell_script (flag # script # args) =
     (if to_ascii_lowercase flag \<notin> set POWERSHELL_FLAGS then None
      else if eq_ignore_ascii_case flag (lit ''-Command'') \<or> eq_ignore_ascii_case flag (lit ''-c'')
      then Some script
      else powershell_script (script # args))"
| "powershell_script args = None"

definition extract_powershell_command :: "str list \<Rightarrow> (str \<times> str) option" where
  "extract_powershell_command cmd =
     (if length cmd < 3 \<or> detect_shell_type (hd cmd) \<noteq> Some PowerShell then None
      else map_option (Pair (hd cmd)) (powershell_script (tl cmd)))"

definition parse_powershell_command_into_plain_commands ::
    "(str \<Rightarrow> ps_node option) \<Rightarrow> str list \<Rightarrow> str list list option" where
  "parse_powershell_command_into_plain_commands parse cmd =
     Option.bind (extract_powershell_command cmd) (\<lambda>(shell, script).
       try_parse_powershell_commands parse script)"

definition parse_powershell_script_into_plain_commands ::
    "(str \<Rightarrow> ps_node option) \<Rightarrow> str \<Rightarrow> str list list option" where
  "parse_powershell_script_into_plain_commands parse script = try_parse_powershell_commands parse script"

definition UTF8_OUTPUT_PREFIX :: str where
  "UTF8_OUTPUT_PREFIX =
     lit ''try { [Console]::OutputEncoding=[System.Text.Encoding]::UTF8 } catch {}'' @ [LF]"

definition prefix_powershell_script_with_utf8 :: "str list \<Rightarrow> str list" where
  "prefix_powershell_script_with_utf8 cmd =
     (case extract_powershell_command cmd of
        None \<Rightarrow> cmd
      | Some (shell, script) \<Rightarrow>
          butlast cmd @ [if starts_with (trim_start script) UTF8_OUTPUT_PREFIX then script
                         else UTF8_OUTPUT_PREFIX @ script])"

end
