(* ===== verification/PathUri.thy ===== *)
theory PathUri
  imports Utf8
begin

text \<open>
  \<open>utils/path-uri/src/lib.rs\<close> and \<open>absolute_path_normalization.rs\<close>: \<open>file:\<close> URIs as paths of any
  platform, whichever platform Codex itself runs on.

  The crate \<open>url\<close> is not in the repository. A \<open>file:\<close> URL is its host and the encoded segments of
  its path; popping, pushing and clearing segments is what \<open>PathSegmentsMut\<close> documents. How a
  segment is encoded, decoded to bytes and to text, base64 and the parser of hosts are in
  \<open>url_codec\<close>.
\<close>

record url_codec =
  decode_binary :: "str \<Rightarrow> nat list"
  decode_text :: "str \<Rightarrow> str option"
  encode_segment :: "str \<Rightarrow> str"
  base64_encode :: "nat list \<Rightarrow> str"
  base64_decode :: "str \<Rightarrow> nat list option"
  parse_host :: "str \<Rightarrow> str option"

record file_url =
  url_host :: "str option"
  url_segments :: "str list"

datatype path_convention = PosixPath | WindowsPath

abbreviation BACKSLASH :: uchar where "BACKSLASH \<equiv> 92"

section \<open>Segments of a URL\<close>

definition pop_if_empty :: "str list \<Rightarrow> str list" where
  "pop_if_empty segs = (if 1 < length segs \<and> last segs = [] then butlast segs else segs)"

definition pop_segment :: "str list \<Rightarrow> str list" where
  "pop_segment segs = (if length segs \<le> 1 then [[]] else butlast segs)"

definition push_path_segment :: "url_codec \<Rightarrow> str \<Rightarrow> str list \<Rightarrow> str list" where
  "push_path_segment uc s segs = (if segs = [[]] then [encode_segment uc s] else segs @ [encode_segment uc s])"

definition nonempty_segments :: "file_url \<Rightarrow> str list" where
  "nonempty_segments u = filter (\<lambda>s. s \<noteq> []) (url_segments u)"

section \<open>Conventions\<close>

definition is_ascii_letter :: "uchar \<Rightarrow> bool" where
  "is_ascii_letter c \<longleftrightarrow> 65 \<le> c \<and> c \<le> 90 \<or> 97 \<le> c \<and> c \<le> 122"

definition is_windows_drive_uri_segment :: "str \<Rightarrow> bool" where
  "is_windows_drive_uri_segment s \<longleftrightarrow>
     (case s of drive # rest \<Rightarrow> is_ascii_letter drive
        \<and> (rest = [58] \<or> rest = lit ''%3A'' \<or> rest = lit ''%3a'') | [] \<Rightarrow> False)"

text \<open>The \<open>u16\<close>s of little-endian bytes.\<close>

fun wide_chars :: "nat list \<Rightarrow> nat list" where
  "wide_chars (a # b # bs) = (a + 256 * b) # wide_chars bs"
| "wide_chars bs = []"

definition infer_opaque_path_convention :: "nat list \<Rightarrow> path_convention option" where
  "infer_opaque_path_convention bytes =
     (if bytes \<noteq> [] \<and> hd bytes = 47 then Some PosixPath
      else if odd (length bytes) then None
      else case wide_chars bytes of
        first # second # rest \<Rightarrow>
          (if is_ascii_letter first \<and> second = 58 \<or> first = BACKSLASH \<and> second = BACKSLASH
           then Some WindowsPath else None)
      | _ \<Rightarrow> None)"

text \<open>A fallback URI, \<open>file:///%00/bad/path/\<close> with the bytes of a path in base64.\<close>

definition decode_bad_path_uri :: "url_codec \<Rightarrow> file_url \<Rightarrow> nat list option" where
  "decode_bad_path_uri uc u =
     (case url_segments u of
        [a, b, c, encoded] \<Rightarrow>
          (if url_host u = None \<and> [a, b, c] = map lit [''%00'', ''bad'', ''path''] \<and> encoded \<noteq> [] then
             Option.bind (base64_decode uc encoded) (\<lambda>bytes.
               if base64_encode uc bytes = encoded then Some bytes else None)
           else None)
      | _ \<Rightarrow> None)"

definition is_opaque :: "url_codec \<Rightarrow> file_url \<Rightarrow> bool" where
  "is_opaque uc u \<longleftrightarrow> decode_bad_path_uri uc u \<noteq> None"

definition infer_path_convention :: "url_codec \<Rightarrow> file_url \<Rightarrow> path_convention option" where
  "infer_path_convention uc u =
     (case decode_bad_path_uri uc u of
        Some bytes \<Rightarrow> infer_opaque_path_convention bytes
      | None \<Rightarrow>
          (if url_host u \<noteq> None then Some WindowsPath
           else case nonempty_segments u of
             s # ss \<Rightarrow> (if is_windows_drive_uri_segment s then Some WindowsPath else Some PosixPath)
           | [] \<Rightarrow> Some PosixPath))"

section \<open>Validation\<close>

definition without_localhost_authority :: "file_url \<Rightarrow> file_url" where
  "without_localhost_authority u =
     (if url_host u = Some (lit ''localhost'') then u\<lparr>url_host := None\<rparr> else u)"

definition to_ascii_uppercase_char :: "uchar \<Rightarrow> uchar" where
  "to_ascii_uppercase_char c = (if 97 \<le> c \<and> c \<le> 122 then c - 32 else c)"

fun uppercase_drive :: "str list \<Rightarrow> str list" where
  "uppercase_drive [] = []"
| "uppercase_drive (s # ss) =
     (if s = [] then [] # uppercase_drive ss
      else if is_windows_drive_uri_segment s then (to_ascii_uppercase_char (hd s) # tl s) # ss
      else s # ss)"

definition with_normalized_windows_drive_letter :: "file_url \<Rightarrow> file_url" where
  "with_normalized_windows_drive_letter u =
     (if url_host u \<noteq> None then u else u\<lparr>url_segments := uppercase_drive (url_segments u)\<rparr>)"

datatype path_uri_error =
    InvalidUri str
  | UnsupportedScheme str
  | InvalidFileUriPath str
  | CredentialsNotAllowed
  | PortNotAllowed
  | QueryNotAllowed
  | FragmentNotAllowed
  | JoinPathMustBeDescendant str

text \<open>The URL as text.\<close>

definition url_text :: "file_url \<Rightarrow> str" where
  "url_text u = lit ''file://'' @ (case url_host u of None \<Rightarrow> [] | Some h \<Rightarrow> h)
     @ concat (map ((#) 47) (url_segments u))"

text \<open>\<open>TryFrom<Url>\<close>, for a URL of the scheme \<open>file\<close> without user, port, query and fragment.\<close>

definition path_uri_of_url :: "url_codec \<Rightarrow> file_url \<Rightarrow> path_uri_error + file_url" where
  "path_uri_of_url uc u =
     (if list_ex (\<lambda>s. 0 \<in> set (decode_binary uc s)) (url_segments u) \<and> \<not> is_opaque uc u
      then Inl (InvalidFileUriPath (url_text u))
      else Inr (with_normalized_windows_drive_letter (without_localhost_authority u)))"

definition from_opaque_path_bytes :: "url_codec \<Rightarrow> nat list \<Rightarrow> file_url" where
  "from_opaque_path_bytes uc bytes =
     \<lparr>url_host = None,
      url_segments = map lit [''%00'', ''bad'', ''path''] @ [base64_encode uc bytes]\<rparr>"

definition path_segments :: "path_convention \<Rightarrow> str \<Rightarrow> str list" where
  "path_segments convention path =
     split_where (\<lambda>c. c = 47 \<or> convention = WindowsPath \<and> c = BACKSLASH) path"

section \<open>Identity and containment\<close>

definition windows_identity_path_bytes :: "url_codec \<Rightarrow> file_url \<Rightarrow> nat list option" where
  "windows_identity_path_bytes uc u =
     (if infer_path_convention uc u \<noteq> Some WindowsPath \<or> is_opaque uc u
         \<or> list_ex (\<lambda>s. list_ex (\<lambda>b. b = 47 \<or> b = BACKSLASH) (decode_binary uc s)) (url_segments u)
      then None
      else Some (concat (map (\<lambda>s. 47 # decode_binary uc s) (url_segments u))))"

definition same_uri :: "url_codec \<Rightarrow> file_url \<Rightarrow> file_url \<Rightarrow> bool" where
  "same_uri uc u v \<longleftrightarrow> u = v
     \<or> (case (windows_identity_path_bytes uc u, windows_identity_path_bytes uc v) of
          (Some path, Some other_path) \<Rightarrow>
            url_host u = url_host v \<and> eq_ignore_ascii_case path other_path
        | _ \<Rightarrow> False)"

definition containment_path_segments :: "url_codec \<Rightarrow> file_url \<Rightarrow> path_convention \<Rightarrow> str list option" where
  "containment_path_segments uc u convention =
     (if list_ex (\<lambda>s. list_ex (\<lambda>b. b = 47 \<or> convention = WindowsPath \<and> b = BACKSLASH)
           (decode_binary uc s)) (nonempty_segments u)
      then None else Some (nonempty_segments u))"

definition decode_uri_path :: "url_codec \<Rightarrow> str \<Rightarrow> str" where
  "decode_uri_path uc s = (case decode_text uc s of Some t \<Rightarrow> t | None \<Rightarrow> s)"

fun same_segment :: "url_codec \<Rightarrow> path_convention \<Rightarrow> str \<Rightarrow> str \<Rightarrow> bool" where
  "same_segment uc PosixPath p b \<longleftrightarrow> decode_binary uc p = decode_binary uc b"
| "same_segment uc WindowsPath p b \<longleftrightarrow>
     eq_ignore_ascii_case p b \<or> eq_ignore_ascii_case (decode_uri_path uc p) (decode_uri_path uc b)"

definition native_path_segments_start_with ::
    "url_codec \<Rightarrow> path_convention \<Rightarrow> str list \<Rightarrow> str list \<Rightarrow> bool" where
  "native_path_segments_start_with uc convention path base \<longleftrightarrow>
     length base \<le> length path \<and> list_all (\<lambda>(p, b). same_segment uc convention p b) (zip path base)"

definition uri_starts_with :: "url_codec \<Rightarrow> file_url \<Rightarrow> file_url \<Rightarrow> bool" where
  "uri_starts_with uc u base =
     (if same_uri uc u base then True
      else if is_opaque uc u \<or> is_opaque uc base \<or> url_host u \<noteq> url_host base
        \<or> infer_path_convention uc u \<noteq> infer_path_convention uc base then False
      else
        (let convention = (case infer_path_convention uc u of Some c \<Rightarrow> c | None \<Rightarrow> PosixPath) in
         case (containment_path_segments uc u convention, containment_path_segments uc base convention) of
           (Some p, Some b) \<Rightarrow> native_path_segments_start_with uc convention p b
         | _ \<Rightarrow> False))"

definition lexical_depth :: "url_codec \<Rightarrow> file_url \<Rightarrow> nat option" where
  "lexical_depth uc u =
     (if is_opaque uc u then None
      else Option.bind (infer_path_convention uc u) (\<lambda>convention.
        map_option length (containment_path_segments uc u convention)))"

definition overlaps :: "url_codec \<Rightarrow> file_url \<Rightarrow> file_url \<Rightarrow> bool option" where
  "overlaps uc u v =
     (if same_uri uc u v then Some True
      else if lexical_depth uc u = None \<or> lexical_depth uc v = None then None
      else Some (uri_starts_with uc u v \<or> uri_starts_with uc v u))"

definition uri_relative_path_from :: "url_codec \<Rightarrow> file_url \<Rightarrow> file_url \<Rightarrow> str option" where
  "uri_relative_path_from uc u base =
     (if same_uri uc u base then Some []
      else if is_opaque uc u \<or> is_opaque uc base \<or> url_host u \<noteq> url_host base
        \<or> infer_path_convention uc u \<noteq> infer_path_convention uc base then None
      else Option.bind (infer_path_convention uc u) (\<lambda>convention.
        Option.bind (containment_path_segments uc u convention) (\<lambda>p.
        Option.bind (containment_path_segments uc base convention) (\<lambda>b.
          if \<not> native_path_segments_start_with uc convention p b then None
          else Some (join (case convention of PosixPath \<Rightarrow> [47] | WindowsPath \<Rightarrow> [BACKSLASH])
            (map (decode_uri_path uc) (drop (length b) p)))))))"

section \<open>Parents\<close>

definition uri_basename :: "url_codec \<Rightarrow> file_url \<Rightarrow> str option" where
  "uri_basename uc u =
     (if is_opaque uc u \<or> nonempty_segments u = [] then None
      else Some (decode_uri_path uc (last (nonempty_segments u))))"

definition anchor_depth :: "path_convention \<Rightarrow> nat" where
  "anchor_depth convention = (if convention = WindowsPath then 1 else 0)"

definition uri_parent :: "url_codec \<Rightarrow> file_url \<Rightarrow> file_url option" where
  "uri_parent uc u =
     (if is_opaque uc u then None
      else Option.bind (infer_path_convention uc u) (\<lambda>convention.
        if length (nonempty_segments u) \<le> anchor_depth convention then None
        else Some (u\<lparr>url_segments := pop_segment (pop_if_empty (url_segments u))\<rparr>)))"

lemma pop_segment_pop_if_empty:
  "segs \<noteq> [] \<Longrightarrow> filter (\<lambda>s. s \<noteq> []) segs \<noteq> [] \<Longrightarrow>
     length (concat (map ((#) 47) (pop_segment (pop_if_empty segs)))) < length (concat (map ((#) 47) segs))"
  by (cases segs rule: rev_cases; cases "butlast segs" rule: rev_cases)
     (auto simp: pop_segment_def pop_if_empty_def butlast_append)

definition path_text_length :: "file_url \<Rightarrow> nat" where
  "path_text_length u = length (concat (map ((#) 47) (url_segments u)))"

lemma parent_shorter:
  assumes "uri_parent uc u = Some v"
  shows "path_text_length v < path_text_length u"
proof -
  from assms obtain c where c: "\<not> length (nonempty_segments u) \<le> anchor_depth c"
    and v: "v = u\<lparr>url_segments := pop_segment (pop_if_empty (url_segments u))\<rparr>"
    by (auto simp: uri_parent_def bind_eq_Some_conv split: if_splits)
  from c have "filter (\<lambda>s. s \<noteq> []) (url_segments u) \<noteq> []" by (auto simp: nonempty_segments_def)
  moreover from this have "url_segments u \<noteq> []" by auto
  ultimately show ?thesis using pop_segment_pop_if_empty v by (simp add: path_text_length_def)
qed

text \<open>A URI and its parents, up to the root.\<close>

function ancestors :: "url_codec \<Rightarrow> file_url \<Rightarrow> file_url list" where
  "ancestors uc u = u # (case uri_parent uc u of None \<Rightarrow> [] | Some v \<Rightarrow> ancestors uc v)"
  by pat_completeness auto

termination by (relation "measure (\<lambda>(uc, u). path_text_length u)") (simp_all add: parent_shorter)

declare ancestors.simps [simp del]

end
