(* ===== verification/PathJoin.thy ===== *)
theory PathJoin
  imports PathUri
begin

text \<open>
  Native paths as URIs and joined to URIs: the rest of \<open>utils/path-uri/src/lib.rs\<close>,
  \<open>absolute_path_normalization.rs\<close> and the device paths of \<open>utils/absolute-path/src/lib.rs\<close>.
\<close>

section \<open>Absolute native paths\<close>

record segment_scan =
  scan_depth :: nat
  scanned :: "str list"
  trailing_separator :: bool

definition scan_segment :: "path_convention \<Rightarrow> str \<Rightarrow> segment_scan \<Rightarrow> segment_scan" where
  "scan_segment convention s st =
     (if s = [] then st\<lparr>trailing_separator := True\<rparr>
      else if s = lit ''.'' then st\<lparr>trailing_separator := False\<rparr>
      else if s = lit ''..'' then
        (if anchor_depth convention < scan_depth st
         then \<lparr>scan_depth = scan_depth st - 1, scanned = butlast (scanned st), trailing_separator = False\<rparr>
         else st\<lparr>trailing_separator := False\<rparr>)
      else \<lparr>scan_depth = scan_depth st + 1, scanned = scanned st @ [s], trailing_separator = False\<rparr>)"

definition path_uri_from_segments ::
    "url_codec \<Rightarrow> path_convention \<Rightarrow> str option \<Rightarrow> str list \<Rightarrow> file_url option" where
  "path_uri_from_segments uc convention host segments =
     Option.bind (case host of None \<Rightarrow> Some None | Some h \<Rightarrow> map_option Some (parse_host uc h)) (\<lambda>h.
       let st = fold (scan_segment convention) segments
                  \<lparr>scan_depth = 0, scanned = [], trailing_separator = False\<rparr>;
           normalized = scanned st @
             (if trailing_separator st
                 \<or> convention = WindowsPath \<and> host = None \<and> scan_depth st = anchor_depth convention
              then [[]] else []) in
       case path_uri_of_url uc \<lparr>url_host = h, url_segments = fold (push_path_segment uc) normalized [[]]\<rparr> of
         Inr u \<Rightarrow> Some u | Inl e \<Rightarrow> None)"

definition parse_posix_path :: "url_codec \<Rightarrow> str \<Rightarrow> file_url option" where
  "parse_posix_path uc path = Option.bind (strip_prefix [47] path) (\<lambda>rest.
     if 0 \<in> set rest then Some (from_opaque_path_bytes uc (as_bytes path))
     else path_uri_from_segments uc PosixPath None (split_on 47 rest))"

text \<open>The UTF-16 of a text as bytes.\<close>

definition wide_bytes :: "str \<Rightarrow> nat list" where
  "wide_bytes s = concat (map (\<lambda>w. [w mod 256, w div 256]) (concat (map utf16_units s)))"

definition windows_opaque_path_uri :: "url_codec \<Rightarrow> str \<Rightarrow> file_url" where
  "windows_opaque_path_uri uc path = from_opaque_path_bytes uc (wide_bytes path)"

definition is_windows_separator_char :: "uchar \<Rightarrow> bool" where
  "is_windows_separator_char c \<longleftrightarrow> c = BACKSLASH \<or> c = 47"

definition is_windows_drive_absolute_path :: "str \<Rightarrow> bool" where
  "is_windows_drive_absolute_path path \<longleftrightarrow>
     (case path of drive # colon # separator # rest \<Rightarrow>
        is_ascii_letter drive \<and> colon = 58 \<and> is_windows_separator_char separator
      | _ \<Rightarrow> False)"

definition device_prefix :: "uchar \<Rightarrow> str" where
  "device_prefix namespace = [BACKSLASH, BACKSLASH, namespace, BACKSLASH]"

definition unc_device_prefix :: "uchar \<Rightarrow> str" where
  "unc_device_prefix namespace = device_prefix namespace @ lit ''UNC'' @ [BACKSLASH]"

definition normalize_windows_device_path :: "str \<Rightarrow> str option" where
  "normalize_windows_device_path path =
     (case strip_prefix (unc_device_prefix 63) path of
        Some unc \<Rightarrow> Some ([BACKSLASH, BACKSLASH] @ unc)
      | None \<Rightarrow>
     (case strip_prefix (unc_device_prefix 46) path of
        Some unc \<Rightarrow> Some ([BACKSLASH, BACKSLASH] @ unc)
      | None \<Rightarrow>
     (case Option.bind (strip_prefix (device_prefix 63) path)
             (\<lambda>p. if is_windows_drive_absolute_path p then Some p else None) of
        Some p \<Rightarrow> Some p
      | None \<Rightarrow> Option.bind (strip_prefix (device_prefix 46) path)
             (\<lambda>p. if is_windows_drive_absolute_path p then Some p else None))))"

definition uses_namespace :: "str \<Rightarrow> bool" where
  "uses_namespace path \<longleftrightarrow>
     (case path of first # second # namespace # separator # rest \<Rightarrow>
        is_windows_separator_char first \<and> is_windows_separator_char second
        \<and> is_windows_separator_char separator \<and> (namespace = 46 \<or> namespace = 63)
      | _ \<Rightarrow> False)"

definition parse_unc_path :: "url_codec \<Rightarrow> str \<Rightarrow> file_url option" where
  "parse_unc_path uc path =
     (case split_where is_windows_separator_char (drop 2 path) of
        host # share # components \<Rightarrow>
          (if host = [] \<or> share = [] then None
           else case path_uri_from_segments uc WindowsPath (Some host) (share # components) of
             Some u \<Rightarrow> Some u
           | None \<Rightarrow> Some (windows_opaque_path_uri uc path))
      | _ \<Rightarrow> None)"

definition starts_with_two_separators :: "str \<Rightarrow> bool" where
  "starts_with_two_separators path \<longleftrightarrow>
     (case path of first # second # rest \<Rightarrow>
        is_windows_separator_char first \<and> is_windows_separator_char second | _ \<Rightarrow> False)"

definition parse_unnormalized_windows_path :: "url_codec \<Rightarrow> str \<Rightarrow> file_url option" where
  "parse_unnormalized_windows_path uc path =
     (if uses_namespace path \<or> 0 \<in> set path then Some (windows_opaque_path_uri uc path)
      else if is_windows_drive_absolute_path path then
        path_uri_from_segments uc WindowsPath None
          (take 2 path # split_where is_windows_separator_char (drop 3 path))
      else if starts_with_two_separators path then parse_unc_path uc path
      else None)"

text \<open>A UNC path without a proper server and share.\<close>

definition bad_unc_path :: "str \<Rightarrow> bool" where
  "bad_unc_path normalized \<longleftrightarrow>
     (case strip_prefix [BACKSLASH, BACKSLASH] normalized of
        None \<Rightarrow> False
      | Some unc \<Rightarrow>
          (let bad = (\<lambda>c. c \<in> {[], lit ''.'', lit ''..''}) in
           case split_where is_windows_separator_char unc of
             server # share # rest \<Rightarrow> bad server \<or> bad share
           | _ \<Rightarrow> True))"

definition parse_windows_path :: "url_codec \<Rightarrow> str \<Rightarrow> file_url option" where
  "parse_windows_path uc path =
     (case normalize_windows_device_path path of
        None \<Rightarrow> parse_unnormalized_windows_path uc path
      | Some normalized \<Rightarrow>
          (if bad_unc_path normalized then Some (windows_opaque_path_uri uc path)
           else case parse_unnormalized_windows_path uc normalized of
             None \<Rightarrow> Some (windows_opaque_path_uri uc path)
           | Some u \<Rightarrow>
               (if infer_path_convention uc u = Some WindowsPath \<and> \<not> is_opaque uc u
                   \<and> (starts_with normalized [BACKSLASH, BACKSLASH] \<longrightarrow>
                        (case url_host u of Some h \<Rightarrow> h \<noteq> [] | None \<Rightarrow> False))
                then Some u else Some (windows_opaque_path_uri uc path))))"

definition from_absolute_native_path ::
    "url_codec \<Rightarrow> str \<Rightarrow> path_convention \<Rightarrow> file_url option" where
  "from_absolute_native_path uc path convention =
     Option.bind (case convention of
         PosixPath \<Rightarrow> parse_posix_path uc path
       | WindowsPath \<Rightarrow> parse_windows_path uc path) (\<lambda>u.
       if url_host u \<noteq> Some [] \<and> infer_path_convention uc u = Some convention then Some u
       else Some (case convention of
           PosixPath \<Rightarrow> from_opaque_path_bytes uc (as_bytes path)
         | WindowsPath \<Rightarrow> windows_opaque_path_uri uc path))"

section \<open>Joining\<close>

definition join_component ::
    "url_codec \<Rightarrow> path_convention \<Rightarrow> str \<Rightarrow> str list \<times> nat \<Rightarrow> str list \<times> nat" where
  "join_component uc convention component st =
     (case st of (segs, depth) \<Rightarrow>
        (if component = [] \<or> component = lit ''.'' then (segs, depth)
         else if component = lit ''..'' then
           (if anchor_depth convention < depth then (pop_segment segs, depth - 1) else (segs, depth))
         else (push_path_segment uc component segs, depth + 1)))"

text \<open>Back to the drive or the share.\<close>

definition to_anchor :: "path_convention \<Rightarrow> str list \<times> nat \<Rightarrow> str list \<times> nat" where
  "to_anchor convention st =
     (case st of (segs, depth) \<Rightarrow>
        ((pop_segment ^^ (depth - anchor_depth convention)) segs, min depth (anchor_depth convention)))"

definition root_relative :: "str \<Rightarrow> bool" where
  "root_relative path \<longleftrightarrow> path \<noteq> [] \<and> is_windows_separator_char (hd path)
     \<and> (tl path = [] \<or> \<not> is_windows_separator_char (hd (tl path)))"

definition drive_relative :: "path_convention \<Rightarrow> str \<Rightarrow> bool" where
  "drive_relative convention path \<longleftrightarrow> convention = WindowsPath
     \<and> (case path of drive # colon # rest \<Rightarrow> is_ascii_letter drive \<and> colon = 58 | _ \<Rightarrow> False)"

definition on_drive :: "file_url \<Rightarrow> uchar \<Rightarrow> bool" where
  "on_drive u drive \<longleftrightarrow>
     (case nonempty_segments u of
        s # ss \<Rightarrow> is_windows_drive_uri_segment s
          \<and> to_ascii_lowercase_char (hd s) = to_ascii_lowercase_char drive
      | [] \<Rightarrow> False)"

definition join_relative :: "url_codec \<Rightarrow> file_url \<Rightarrow> path_convention \<Rightarrow> str \<Rightarrow> path_uri_error + file_url" where
  "join_relative uc u convention path =
     (if is_opaque uc u then Inl (InvalidFileUriPath (url_text u))
      else
        (let start = (pop_if_empty (url_segments u), length (nonempty_segments u));
             start = (if convention = WindowsPath \<and> root_relative path
                      then to_anchor convention start else start);
             (segs, depth) = fold (join_component uc convention) (path_segments convention path) start in
         path_uri_of_url uc (u\<lparr>url_segments := segs\<rparr>)))"

definition uri_join :: "url_codec \<Rightarrow> file_url \<Rightarrow> str \<Rightarrow> path_uri_error + file_url" where
  "uri_join uc u path =
     (if 0 \<in> set path then Inl (InvalidFileUriPath path)
      else if path = [] then Inr u
      else case infer_path_convention uc u of
        None \<Rightarrow> Inl (InvalidFileUriPath (url_text u))
      | Some convention \<Rightarrow>
     (case from_absolute_native_path uc path convention of
        Some absolute \<Rightarrow> Inr absolute
      | None \<Rightarrow>
          (if drive_relative convention path then
             (if on_drive u (hd path) then join_relative uc u convention (drop 2 path)
              else Inl (InvalidFileUriPath path))
           else join_relative uc u convention path)))"

definition join_descendant :: "url_codec \<Rightarrow> file_url \<Rightarrow> str \<Rightarrow> path_uri_error + file_url" where
  "join_descendant uc u path =
     bind_result (uri_join uc u path) (\<lambda>descendant.
       let windows = infer_path_convention uc u = Some WindowsPath in
       if starts_with path [47]
          \<or> windows \<and> (starts_with path [BACKSLASH]
              \<or> list_ex (\<lambda>s. 58 \<in> set s) (path_segments WindowsPath path))
          \<or> \<not> uri_starts_with uc descendant u
       then Inl (JoinPathMustBeDescendant path) else Inr descendant)"

end
