(* ===== verification/Permissions.thy ===== *)
theory Permissions
  imports PathJoin "HOL-Library.Product_Lexorder"
begin

text \<open>
  \<open>protocol/src/permissions.rs\<close> with the permission profiles of \<open>protocol/src/models.rs\<close>: which
  paths a command may read and write. The most specific entry for a path decides, of equally
  specific ones the strictest in the order deny, write, read; metadata of a workspace stays
  read-only under a writable root.

  An absolute path of the host is its URI. The compiled matchers of glob patterns (\<open>globset\<close>) and
  the metadata directories found on the disk are arguments.
\<close>

section \<open>Access\<close>

datatype network_sandbox_policy = NetworkRestricted | NetworkEnabled

definition network_enabled :: "network_sandbox_policy \<Rightarrow> bool" where
  "network_enabled n \<longleftrightarrow> n = NetworkEnabled"

datatype access_mode = ReadAccess | WriteAccess | DenyAccess

text \<open>\<open>Ord\<close> is derived: deny before write before read in a conflict.\<close>

fun conflict_rank :: "access_mode \<Rightarrow> nat" where
  "conflict_rank ReadAccess = 0"
| "conflict_rank WriteAccess = 1"
| "conflict_rank DenyAccess = 2"

lemma conflict_rank_inject [simp]: "conflict_rank a = conflict_rank b \<longleftrightarrow> a = b"
  by (cases a; cases b) simp_all

instantiation access_mode :: linorder
begin

definition less_eq_access_mode :: "access_mode \<Rightarrow> access_mode \<Rightarrow> bool" where
  "less_eq_access_mode a b \<longleftrightarrow> conflict_rank a \<le> conflict_rank b"

definition less_access_mode :: "access_mode \<Rightarrow> access_mode \<Rightarrow> bool" where
  "less_access_mode a b \<longleftrightarrow> conflict_rank a < conflict_rank b"

instance
  by standard (auto simp: less_eq_access_mode_def less_access_mode_def)

end

definition can_read :: "access_mode \<Rightarrow> bool" where
  "can_read a \<longleftrightarrow> a \<noteq> DenyAccess"

definition can_write :: "access_mode \<Rightarrow> bool" where
  "can_write a \<longleftrightarrow> a = WriteAccess"

section \<open>Entries\<close>

datatype special_path =
    RootPath
  | MinimalPath
  | ProjectRoots "str option"
  | Tmpdir
  | SlashTmp
  | UnknownSpecial str "str option"

datatype fs_path = UriPath file_url | GlobPattern str | SpecialPath special_path

datatype missing_path_behavior = SkipMissing

record sandbox_entry =
  entry_path :: fs_path
  entry_access :: access_mode
  when_missing :: "missing_path_behavior option"

definition new_entry :: "fs_path \<Rightarrow> access_mode \<Rightarrow> sandbox_entry" where
  "new_entry p a = \<lparr>entry_path = p, entry_access = a, when_missing = None\<rparr>"

definition skip_missing_path :: "fs_path \<Rightarrow> access_mode \<Rightarrow> sandbox_entry" where
  "skip_missing_path p a = \<lparr>entry_path = p, entry_access = a, when_missing = Some SkipMissing\<rparr>"

definition skips_missing_path :: "sandbox_entry \<Rightarrow> bool" where
  "skips_missing_path e \<longleftrightarrow> when_missing e = Some SkipMissing"

text \<open>Equality is derived, on URIs it is theirs.\<close>

fun same_fs_path :: "url_codec \<Rightarrow> fs_path \<Rightarrow> fs_path \<Rightarrow> bool" where
  "same_fs_path uc (UriPath u) (UriPath v) \<longleftrightarrow> same_uri uc u v"
| "same_fs_path uc p q \<longleftrightarrow> p = q"

definition same_entry :: "url_codec \<Rightarrow> sandbox_entry \<Rightarrow> sandbox_entry \<Rightarrow> bool" where
  "same_entry uc d e \<longleftrightarrow> same_fs_path uc (entry_path d) (entry_path e)
     \<and> entry_access d = entry_access e \<and> when_missing d = when_missing e"

datatype sandbox_kind = Restricted | Unrestricted | ExternalSandbox

record sandbox_policy =
  sandbox_kind :: sandbox_kind
  glob_scan_max_depth :: "nat option"
  entries :: "sandbox_entry list"

record policy_context =
  context_cwd :: file_url
  workspace_roots :: "file_url list"
  user_home_dir :: "file_url option"
  temporary_directories :: "file_url list option"

definition unrestricted_policy :: sandbox_policy where
  "unrestricted_policy = \<lparr>sandbox_kind = Unrestricted, glob_scan_max_depth = None, entries = []\<rparr>"

definition external_policy :: sandbox_policy where
  "external_policy = \<lparr>sandbox_kind = ExternalSandbox, glob_scan_max_depth = None, entries = []\<rparr>"

definition restricted_policy :: "sandbox_entry list \<Rightarrow> sandbox_policy" where
  "restricted_policy es = \<lparr>sandbox_kind = Restricted, glob_scan_max_depth = None, entries = es\<rparr>"

definition read_only_file_system_entries :: "sandbox_entry list" where
  "read_only_file_system_entries = [new_entry (SpecialPath RootPath) ReadAccess]"

definition read_only_policy :: sandbox_policy where
  "read_only_policy = restricted_policy read_only_file_system_entries"

definition remove_skip_missing_path_entries :: "sandbox_policy \<Rightarrow> sandbox_policy" where
  "remove_skip_missing_path_entries p = p\<lparr>entries := filter (\<lambda>e. \<not> skips_missing_path e) (entries p)\<rparr>"

section \<open>Entries with the same target\<close>

fun special_paths_share_target :: "special_path \<Rightarrow> special_path \<Rightarrow> bool" where
  "special_paths_share_target RootPath RootPath = True"
| "special_paths_share_target MinimalPath MinimalPath = True"
| "special_paths_share_target Tmpdir Tmpdir = True"
| "special_paths_share_target SlashTmp SlashTmp = True"
| "special_paths_share_target (ProjectRoots l) (ProjectRoots r) = (l = r)"
| "special_paths_share_target (UnknownSpecial l ls) (UnknownSpecial r rs) = (l = r \<and> ls = rs)"
| "special_paths_share_target _ _ = False"

definition special_path_matches_path_uri :: "url_codec \<Rightarrow> special_path \<Rightarrow> file_url \<Rightarrow> bool" where
  "special_path_matches_path_uri uc value u =
     (case value of
        RootPath \<Rightarrow> lexical_depth uc u \<noteq> None \<and> uri_parent uc u = None
      | SlashTmp \<Rightarrow> infer_path_convention uc u = Some PosixPath \<and> lexical_depth uc u = Some 1
          \<and> uri_basename uc u = Some (lit ''tmp'')
      | _ \<Rightarrow> False)"

fun file_system_paths_share_target :: "url_codec \<Rightarrow> fs_path \<Rightarrow> fs_path \<Rightarrow> path_convention \<Rightarrow> bool" where
  "file_system_paths_share_target uc (UriPath l) (UriPath r) convention = same_uri uc l r"
| "file_system_paths_share_target uc (SpecialPath l) (SpecialPath r) convention =
     special_paths_share_target l r"
| "file_system_paths_share_target uc (UriPath u) (SpecialPath v) convention =
     (infer_path_convention uc u = Some convention \<and> special_path_matches_path_uri uc v u)"
| "file_system_paths_share_target uc (SpecialPath v) (UriPath u) convention =
     (infer_path_convention uc u = Some convention \<and> special_path_matches_path_uri uc v u)"
| "file_system_paths_share_target uc (GlobPattern l) (GlobPattern r) convention = (l = r)"
| "file_system_paths_share_target uc _ _ convention = False"

section \<open>Full access\<close>

definition has_root_access :: "(access_mode \<Rightarrow> bool) \<Rightarrow> sandbox_policy \<Rightarrow> bool" where
  "has_root_access P p \<longleftrightarrow> sandbox_kind p = Restricted
     \<and> list_ex (\<lambda>e. entry_path e = SpecialPath RootPath \<and> P (entry_access e)) (entries p)"

text \<open>On Unix every denying entry counts; elsewhere one for \<open>/tmp\<close> does not.\<close>

definition has_denied_read_restrictions :: "path_convention \<Rightarrow> sandbox_policy \<Rightarrow> bool" where
  "has_denied_read_restrictions native p \<longleftrightarrow> sandbox_kind p = Restricted
     \<and> list_ex (\<lambda>e. entry_access e = DenyAccess
                  \<and> \<not> (entry_path e = SpecialPath SlashTmp \<and> native \<noteq> PosixPath)) (entries p)"

definition push_missing_denies :: "url_codec \<Rightarrow> sandbox_entry list \<Rightarrow> sandbox_entry list \<Rightarrow> sandbox_entry list" where
  "push_missing_denies uc existing es =
     fold (\<lambda>d es. if list_ex (\<lambda>e. same_entry uc e d) es then es else es @ [d])
       (filter (\<lambda>e. entry_access e = DenyAccess) existing) es"

definition preserve_deny_read_restrictions_from ::
    "url_codec \<Rightarrow> sandbox_policy \<Rightarrow> sandbox_policy \<Rightarrow> sandbox_policy" where
  "preserve_deny_read_restrictions_from uc existing p =
     (let has_deny = list_ex (\<lambda>e. entry_access e = DenyAccess) (entries existing);
          p = (if sandbox_kind p = Unrestricted \<and> has_deny
               then restricted_policy [new_entry (SpecialPath RootPath) WriteAccess] else p) in
      if sandbox_kind p \<noteq> Restricted then p
      else p\<lparr>glob_scan_max_depth := (case glob_scan_max_depth p of
                 None \<Rightarrow> glob_scan_max_depth existing | Some d \<Rightarrow> Some d),
             entries := push_missing_denies uc (entries existing) (entries p)\<rparr>)"

definition has_same_target_write_override ::
    "url_codec \<Rightarrow> path_convention \<Rightarrow> sandbox_policy \<Rightarrow> sandbox_entry \<Rightarrow> bool" where
  "has_same_target_write_override uc convention p e =
     list_ex (\<lambda>c. can_write (entry_access c) \<and> entry_access e < entry_access c
       \<and> file_system_paths_share_target uc (entry_path c) (entry_path e) convention) (entries p)"

definition narrows_writes :: "url_codec \<Rightarrow> path_convention \<Rightarrow> sandbox_policy \<Rightarrow> sandbox_entry \<Rightarrow> bool" where
  "narrows_writes uc convention p e =
     (if can_write (entry_access e) then False
      else case entry_path e of
        UriPath u \<Rightarrow> \<not> has_same_target_write_override uc convention p e
      | GlobPattern g \<Rightarrow> True
      | SpecialPath RootPath \<Rightarrow> entry_access e = DenyAccess
      | SpecialPath MinimalPath \<Rightarrow> False
      | SpecialPath (UnknownSpecial path subpath) \<Rightarrow> False
      | SpecialPath value \<Rightarrow>
          (if value = SlashTmp \<and> convention = WindowsPath then False
           else \<not> has_same_target_write_override uc convention p e))"

definition has_write_narrowing_entries :: "url_codec \<Rightarrow> path_convention \<Rightarrow> sandbox_policy \<Rightarrow> bool" where
  "has_write_narrowing_entries uc convention p \<longleftrightarrow> sandbox_kind p = Restricted
     \<and> list_ex (narrows_writes uc convention p) (entries p)"

definition has_full_disk_read_access :: "path_convention \<Rightarrow> sandbox_policy \<Rightarrow> bool" where
  "has_full_disk_read_access native p =
     (if sandbox_kind p = Restricted
      then has_root_access can_read p \<and> \<not> has_denied_read_restrictions native p else True)"

definition has_full_disk_write_access_for_convention ::
    "url_codec \<Rightarrow> path_convention option \<Rightarrow> sandbox_policy \<Rightarrow> bool" where
  "has_full_disk_write_access_for_convention uc convention p =
     (if sandbox_kind p = Restricted
      then (case convention of None \<Rightarrow> False
            | Some c \<Rightarrow> has_root_access can_write p \<and> \<not> has_write_narrowing_entries uc c p)
      else True)"

definition has_full_disk_write_access :: "url_codec \<Rightarrow> path_convention \<Rightarrow> sandbox_policy \<Rightarrow> bool" where
  "has_full_disk_write_access uc native p = has_full_disk_write_access_for_convention uc (Some native) p"

definition has_full_disk_write_access_with_context ::
    "url_codec \<Rightarrow> policy_context \<Rightarrow> sandbox_policy \<Rightarrow> bool" where
  "has_full_disk_write_access_with_context uc ctx p =
     has_full_disk_write_access_for_convention uc (infer_path_convention uc (context_cwd ctx)) p"

definition include_platform_defaults :: "path_convention \<Rightarrow> sandbox_policy \<Rightarrow> bool" where
  "include_platform_defaults native p \<longleftrightarrow> \<not> has_full_disk_read_access native p
     \<and> sandbox_kind p = Restricted
     \<and> list_ex (\<lambda>e. entry_path e = SpecialPath MinimalPath \<and> can_read (entry_access e)) (entries p)"

section \<open>Access to a path\<close>

definition file_system_root :: "url_codec \<Rightarrow> policy_context \<Rightarrow> file_url option" where
  "file_system_root uc ctx =
     (if lexical_depth uc (context_cwd ctx) = None then None
      else Some (last (ancestors uc (context_cwd ctx))))"

definition ok_list :: "'e + 'a \<Rightarrow> 'a list" where
  "ok_list r = (case r of Inr x \<Rightarrow> [x] | Inl e \<Rightarrow> [])"

definition special_paths :: "url_codec \<Rightarrow> policy_context \<Rightarrow> special_path \<Rightarrow> file_url list" where
  "special_paths uc ctx value =
     (case value of
        RootPath \<Rightarrow> (case file_system_root uc ctx of Some r \<Rightarrow> [r] | None \<Rightarrow> [])
      | ProjectRoots subpath \<Rightarrow> concat (map (\<lambda>root.
            case subpath of Some s \<Rightarrow> ok_list (uri_join uc root s) | None \<Rightarrow> [root]) (workspace_roots ctx))
      | Tmpdir \<Rightarrow> (case temporary_directories ctx of Some ds \<Rightarrow> ds | None \<Rightarrow> [])
      | SlashTmp \<Rightarrow> (if infer_path_convention uc (context_cwd ctx) = Some PosixPath
                    then ok_list (uri_join uc (context_cwd ctx) (lit ''/tmp'')) else [])
      | MinimalPath \<Rightarrow> []
      | UnknownSpecial path subpath \<Rightarrow> [])"

definition entry_paths :: "url_codec \<Rightarrow> policy_context \<Rightarrow> fs_path \<Rightarrow> file_url list" where
  "entry_paths uc ctx p =
     (case p of UriPath u \<Rightarrow> [u] | GlobPattern g \<Rightarrow> [] | SpecialPath v \<Rightarrow> special_paths uc ctx v)"

definition resolved_entry :: "url_codec \<Rightarrow> policy_context \<Rightarrow> sandbox_entry \<Rightarrow> (file_url \<times> access_mode) list" where
  "resolved_entry uc ctx e =
     map (\<lambda>u. (u, entry_access e))
       (filter (\<lambda>u. infer_path_convention uc u = infer_path_convention uc (context_cwd ctx))
         (entry_paths uc ctx (entry_path e)))"

definition resolved_entries :: "url_codec \<Rightarrow> policy_context \<Rightarrow> sandbox_policy \<Rightarrow> (file_url \<times> access_mode) list" where
  "resolved_entries uc ctx p = concat (map (resolved_entry uc ctx) (entries p))"

text \<open>The roots with their depth; \<open>None\<close> for one whose segments are ambiguous.\<close>

fun depth_entries ::
    "url_codec \<Rightarrow> (file_url \<times> access_mode) list \<Rightarrow> (file_url \<times> access_mode \<times> nat) list option" where
  "depth_entries uc [] = Some []"
| "depth_entries uc ((root, access) # es) =
     (case lexical_depth uc root of
        Some d \<Rightarrow> map_option ((#) (root, access, d)) (depth_entries uc es)
      | None \<Rightarrow> (if is_opaque uc root then depth_entries uc es else None))"

definition same_native_convention :: "url_codec \<Rightarrow> policy_context \<Rightarrow> file_url \<Rightarrow> bool" where
  "same_native_convention uc ctx u \<longleftrightarrow>
     infer_path_convention uc u = infer_path_convention uc (context_cwd ctx)
     \<and> lexical_depth uc u \<noteq> None \<and> lexical_depth uc (context_cwd ctx) \<noteq> None"

definition strictest :: "(access_mode \<times> nat) list \<Rightarrow> access_mode" where
  "strictest es = (if es = [] then DenyAccess
     else snd (Max (set (map (\<lambda>(access, depth). (depth, access)) es))))"

definition resolve_access :: "url_codec \<Rightarrow> policy_context \<Rightarrow> sandbox_policy \<Rightarrow> file_url \<Rightarrow> access_mode" where
  "resolve_access uc ctx p u =
     (if sandbox_kind p \<noteq> Restricted then WriteAccess
      else if infer_path_convention uc (context_cwd ctx) = None then DenyAccess
      else if \<not> same_native_convention uc ctx u then DenyAccess
      else case depth_entries uc (resolved_entries uc ctx p) of
        None \<Rightarrow> DenyAccess
      | Some es \<Rightarrow> strictest (map snd (filter (\<lambda>(root, access, d). uri_starts_with uc u root) es)))"

section \<open>Protected metadata\<close>

definition PROTECTED_METADATA_PATH_NAMES :: "str list" where
  "PROTECTED_METADATA_PATH_NAMES = map lit [''.git'', ''.agents'', ''.codex'']"

definition protecting_name :: "url_codec \<Rightarrow> file_url \<Rightarrow> file_url \<Rightarrow> str \<Rightarrow> (file_url \<times> str) option" where
  "protecting_name uc u root name =
     (case join_descendant uc root name of
        Inl e \<Rightarrow> None
      | Inr protected \<Rightarrow> if uri_starts_with uc u protected then Some (protected, name) else None)"

fun find_some :: "('a \<Rightarrow> 'b option) \<Rightarrow> 'a list \<Rightarrow> 'b option" where
  "find_some f [] = None"
| "find_some f (x # xs) = (case f x of Some y \<Rightarrow> Some y | None \<Rightarrow> find_some f xs)"

definition metadata_write_denial :: "url_codec \<Rightarrow> policy_context \<Rightarrow> sandbox_policy \<Rightarrow> file_url \<Rightarrow> str option" where
  "metadata_write_denial uc ctx p u =
     (if sandbox_kind p \<noteq> Restricted then None
      else
        (let es = resolved_entries uc ctx p in
         case find_some (\<lambda>(root, access). find_some (protecting_name uc u root) PROTECTED_METADATA_PATH_NAMES)
                (filter (\<lambda>(root, access). can_write access) es) of
           None \<Rightarrow> None
         | Some (protected, name) \<Rightarrow>
             (if list_ex (\<lambda>(root, access). can_write access \<and> uri_starts_with uc u root
                                         \<and> uri_starts_with uc root protected) es
              then None else Some name)))"

definition can_write_path :: "url_codec \<Rightarrow> policy_context \<Rightarrow> sandbox_policy \<Rightarrow> file_url \<Rightarrow> bool" where
  "can_write_path uc ctx p u =
     (if \<not> can_write (resolve_access uc ctx p u) then False
      else has_full_disk_write_access_with_context uc ctx p \<or> metadata_write_denial uc ctx p u = None)"

definition forbidden_agent_metadata_write ::
    "url_codec \<Rightarrow> policy_context \<Rightarrow> sandbox_policy \<Rightarrow> file_url \<Rightarrow> str option" where
  "forbidden_agent_metadata_write uc ctx p u =
     (if sandbox_kind p \<noteq> Restricted then None
      else if can_write_path uc ctx p u then None else metadata_write_denial uc ctx p u)"

definition has_configured_writable_roots :: "url_codec \<Rightarrow> policy_context \<Rightarrow> sandbox_policy \<Rightarrow> bool" where
  "has_configured_writable_roots uc ctx p \<longleftrightarrow> \<not> has_full_disk_write_access_with_context uc ctx p
     \<and> list_ex (\<lambda>(u, access). can_write access \<and> can_write_path uc ctx p u) (resolved_entries uc ctx p)"

section \<open>Building policies\<close>

definition append_default_read_only_entry_if_no_explicit_rule ::
    "url_codec \<Rightarrow> path_convention \<Rightarrow> fs_path \<Rightarrow> sandbox_entry list \<Rightarrow> sandbox_entry list" where
  "append_default_read_only_entry_if_no_explicit_rule uc native path es =
     (if list_ex (\<lambda>e. file_system_paths_share_target uc (entry_path e) path native) es then es
      else es @ [skip_missing_path path ReadAccess])"

text \<open>The metadata directories that exist under a writable root are the argument \<open>existing\<close>.\<close>

definition workspace_write_policy ::
    "url_codec \<Rightarrow> path_convention \<Rightarrow> (file_url \<Rightarrow> file_url list) \<Rightarrow> file_url list \<Rightarrow> bool \<Rightarrow> bool \<Rightarrow> sandbox_policy" where
  "workspace_write_policy uc native existing writable_roots exclude_tmpdir_env_var exclude_slash_tmp =
     (let es = [new_entry (SpecialPath RootPath) ReadAccess,
                new_entry (SpecialPath (ProjectRoots None)) WriteAccess]
            @ (if exclude_slash_tmp then [] else [new_entry (SpecialPath SlashTmp) WriteAccess])
            @ (if exclude_tmpdir_env_var then [] else [new_entry (SpecialPath Tmpdir) WriteAccess])
            @ map (\<lambda>r. new_entry (UriPath r) WriteAccess) writable_roots;
          append = append_default_read_only_entry_if_no_explicit_rule uc native;
          es = fold (\<lambda>name. append (SpecialPath (ProjectRoots (Some name)))) PROTECTED_METADATA_PATH_NAMES es in
      restricted_policy (fold (\<lambda>root. fold (\<lambda>p. append (UriPath p)) (existing root)) writable_roots es))"

definition with_additional_readable_roots ::
    "url_codec \<Rightarrow> path_convention \<Rightarrow> policy_context \<Rightarrow> file_url list \<Rightarrow> sandbox_policy \<Rightarrow> sandbox_policy" where
  "with_additional_readable_roots uc native ctx roots p =
     (if has_full_disk_read_access native p then p
      else fold (\<lambda>r p. if can_read (resolve_access uc ctx p r) then p
                       else p\<lparr>entries := entries p @ [new_entry (UriPath r) ReadAccess]\<rparr>) roots p)"

definition with_additional_writable_roots ::
    "url_codec \<Rightarrow> policy_context \<Rightarrow> file_url list \<Rightarrow> sandbox_policy \<Rightarrow> sandbox_policy" where
  "with_additional_writable_roots uc ctx roots p =
     fold (\<lambda>r p. if can_write_path uc ctx p r then p
                 else p\<lparr>entries := entries p @ [new_entry (UriPath r) WriteAccess]\<rparr>) roots p"

definition with_additional_legacy_workspace_writable_roots ::
    "url_codec \<Rightarrow> path_convention \<Rightarrow> (file_url \<Rightarrow> file_url list) \<Rightarrow> file_url list \<Rightarrow> sandbox_policy \<Rightarrow> sandbox_policy" where
  "with_additional_legacy_workspace_writable_roots uc native existing roots p =
     (if sandbox_kind p \<noteq> Restricted then p
      else p\<lparr>entries := fold (\<lambda>r es.
          fold (\<lambda>d. append_default_read_only_entry_if_no_explicit_rule uc native (UriPath d)) (existing r)
            (if list_ex (\<lambda>e. can_write (entry_access e)
                  \<and> (case entry_path e of UriPath u \<Rightarrow> same_uri uc u r | _ \<Rightarrow> False)) es
             then es else es @ [new_entry (UriPath r) WriteAccess])) roots (entries p)\<rparr>)"

section \<open>Profiles\<close>

datatype managed_file_system = ManagedRestricted "sandbox_entry list" "nat option" | ManagedUnrestricted

datatype permission_profile =
    Managed managed_file_system network_sandbox_policy
  | Disabled
  | External network_sandbox_policy

datatype sandbox_enforcement = EnforceManaged | EnforceDisabled | EnforceExternal

fun to_sandbox_policy :: "managed_file_system \<Rightarrow> sandbox_policy" where
  "to_sandbox_policy (ManagedRestricted es depth) =
     \<lparr>sandbox_kind = Restricted, glob_scan_max_depth = depth, entries = es\<rparr>"
| "to_sandbox_policy ManagedUnrestricted = unrestricted_policy"

text \<open>Unreachable for an external sandbox; a depth of 0 is no depth.\<close>

definition from_sandbox_policy :: "sandbox_policy \<Rightarrow> managed_file_system option" where
  "from_sandbox_policy p =
     (case sandbox_kind p of
        Restricted \<Rightarrow> Some (ManagedRestricted (entries p)
          (case glob_scan_max_depth p of Some 0 \<Rightarrow> None | d \<Rightarrow> d))
      | Unrestricted \<Rightarrow> Some ManagedUnrestricted
      | ExternalSandbox \<Rightarrow> None)"

fun file_system_sandbox_policy :: "permission_profile \<Rightarrow> sandbox_policy" where
  "file_system_sandbox_policy (Managed fs n) = to_sandbox_policy fs"
| "file_system_sandbox_policy Disabled = unrestricted_policy"
| "file_system_sandbox_policy (External n) = external_policy"

fun network_policy_of_profile :: "permission_profile \<Rightarrow> network_sandbox_policy" where
  "network_policy_of_profile (Managed fs n) = n"
| "network_policy_of_profile Disabled = NetworkEnabled"
| "network_policy_of_profile (External n) = n"

fun enforcement :: "permission_profile \<Rightarrow> sandbox_enforcement" where
  "enforcement (Managed fs n) = EnforceManaged"
| "enforcement Disabled = EnforceDisabled"
| "enforcement (External n) = EnforceExternal"

definition managed_profile :: "sandbox_policy \<Rightarrow> network_sandbox_policy \<Rightarrow> permission_profile option" where
  "managed_profile p n = map_option (\<lambda>fs. Managed fs n) (from_sandbox_policy p)"

definition from_runtime_permissions_with_enforcement ::
    "sandbox_enforcement \<Rightarrow> sandbox_policy \<Rightarrow> network_sandbox_policy \<Rightarrow> permission_profile option" where
  "from_runtime_permissions_with_enforcement e p n =
     (case sandbox_kind p of
        ExternalSandbox \<Rightarrow> Some (External n)
      | Unrestricted \<Rightarrow> (if e = EnforceDisabled then Some Disabled else managed_profile p n)
      | Restricted \<Rightarrow> managed_profile p n)"

definition from_runtime_permissions ::
    "sandbox_policy \<Rightarrow> network_sandbox_policy \<Rightarrow> permission_profile option" where
  "from_runtime_permissions p n = from_runtime_permissions_with_enforcement
     (if sandbox_kind p = ExternalSandbox then EnforceExternal else EnforceManaged) p n"

definition read_only_entry :: "sandbox_entry \<Rightarrow> sandbox_entry" where
  "read_only_entry e = e\<lparr>entry_access :=
     (case entry_access e of DenyAccess \<Rightarrow> DenyAccess | _ \<Rightarrow> ReadAccess)\<rparr>"

text \<open>\<open>None\<close> when an external caller enforces the sandbox.\<close>

definition intersect_with_read_only :: "permission_profile \<Rightarrow> permission_profile option" where
  "intersect_with_read_only profile =
     (let p = file_system_sandbox_policy profile in
      case sandbox_kind p of
        Restricted \<Rightarrow> from_runtime_permissions (p\<lparr>entries := map read_only_entry (entries p)\<rparr>) NetworkRestricted
      | Unrestricted \<Rightarrow> from_runtime_permissions read_only_policy NetworkRestricted
      | ExternalSandbox \<Rightarrow> None)"

end
