(* ===== verification/ApprovalPolicy.thy ===== *)
theory ApprovalPolicy
  imports Permissions
begin

text \<open>
  The settings of approvals and what a tool call requires: \<open>AskForApproval\<close> and
  \<open>ReviewDecision\<close> of \<open>protocol/src/protocol.rs\<close>, \<open>SandboxPermissions\<close> of
  \<open>protocol/src/models.rs\<close>, and the rules of \<open>core/src/tools/sandboxing.rs\<close> that choose between
  running, asking and refusing, and between running inside and outside of a sandbox.
\<close>

section \<open>Settings\<close>

record granular_approval_config =
  sandbox_approval :: bool
  rules_approval :: bool
  skill_approval :: bool
  request_permissions_approval :: bool
  mcp_elicitations :: bool

definition allows_sandbox_approval :: "granular_approval_config \<Rightarrow> bool" where
  "allows_sandbox_approval g = sandbox_approval g"

definition allows_rules_approval :: "granular_approval_config \<Rightarrow> bool" where
  "allows_rules_approval g = rules_approval g"

datatype ask_for_approval = UnlessTrusted | OnRequest | Granular granular_approval_config | NeverAsk

datatype sandbox_permissions = UseDefault | RequireEscalated | WithAdditionalPermissions

definition requires_escalated_permissions :: "sandbox_permissions \<Rightarrow> bool" where
  "requires_escalated_permissions p \<longleftrightarrow> p = RequireEscalated"

definition requests_sandbox_override :: "sandbox_permissions \<Rightarrow> bool" where
  "requests_sandbox_override p \<longleftrightarrow> p \<noteq> UseDefault"

definition uses_additional_permissions :: "sandbox_permissions \<Rightarrow> bool" where
  "uses_additional_permissions p \<longleftrightarrow> p = WithAdditionalPermissions"

datatype windows_sandbox_level = WindowsSandboxDisabled | RestrictedToken | Elevated

text \<open>An amendment is the prefix it allows.\<close>

type_synonym exec_policy_amendment = "str list"

datatype network_rule_action = AllowHost | DenyHost

datatype review_decision =
    Approved
  | ApprovedExecpolicyAmendment exec_policy_amendment
  | ApprovedForSession
  | ApprovedMcpPolicyAmendment
  | NetworkPolicyAmendment str network_rule_action
  | Denied str
  | TimedOut
  | Abort

section \<open>Requirements\<close>

datatype exec_approval_requirement =
    SkipApproval (bypass_sandbox: bool) "exec_policy_amendment option"
  | NeedsApproval "str option" "exec_policy_amendment option"
  | ForbiddenExec str

fun proposed_execpolicy_amendment :: "exec_approval_requirement \<Rightarrow> exec_policy_amendment option" where
  "proposed_execpolicy_amendment (NeedsApproval reason (Some a)) = Some a"
| "proposed_execpolicy_amendment (SkipApproval bypass (Some a)) = Some a"
| "proposed_execpolicy_amendment _ = None"

definition default_exec_approval_requirement ::
    "ask_for_approval \<Rightarrow> sandbox_policy \<Rightarrow> exec_approval_requirement" where
  "default_exec_approval_requirement policy fs =
     (let needs_approval = (case policy of
            NeverAsk \<Rightarrow> False
          | OnRequest \<Rightarrow> sandbox_kind fs = Restricted
          | Granular g \<Rightarrow> sandbox_kind fs = Restricted
          | UnlessTrusted \<Rightarrow> True) in
      if needs_approval \<and> (case policy of Granular g \<Rightarrow> \<not> allows_sandbox_approval g | _ \<Rightarrow> False)
      then ForbiddenExec (lit ''approval policy disallowed sandbox approval prompt'')
      else if needs_approval then NeedsApproval None None
      else SkipApproval False None)"

section \<open>Outside of the sandbox\<close>

datatype sandbox_override = NoOverride | BypassSandboxFirstAttempt

definition unsandboxed_execution_allowed :: "path_convention \<Rightarrow> sandbox_policy \<Rightarrow> bool" where
  "unsandboxed_execution_allowed native fs \<longleftrightarrow> \<not> has_denied_read_restrictions native fs"

definition sandbox_override_for_first_attempt ::
    "path_convention \<Rightarrow> sandbox_permissions \<Rightarrow> exec_approval_requirement \<Rightarrow> sandbox_policy \<Rightarrow> sandbox_override" where
  "sandbox_override_for_first_attempt native permissions requirement fs =
     (if \<not> unsandboxed_execution_allowed native fs then NoOverride
      else if (case requirement of SkipApproval True a \<Rightarrow> True | _ \<Rightarrow> False) then BypassSandboxFirstAttempt
      else if requires_escalated_permissions permissions then BypassSandboxFirstAttempt
      else NoOverride)"

definition sandbox_permissions_preserving_denied_reads ::
    "path_convention \<Rightarrow> sandbox_permissions \<Rightarrow> sandbox_policy \<Rightarrow> sandbox_permissions" where
  "sandbox_permissions_preserving_denied_reads native permissions fs =
     (if requires_escalated_permissions permissions \<and> \<not> unsandboxed_execution_allowed native fs
      then UseDefault else permissions)"

definition managed_network_for_sandbox_permissions :: "'n option \<Rightarrow> sandbox_permissions \<Rightarrow> 'n option" where
  "managed_network_for_sandbox_permissions network permissions =
     (if requires_escalated_permissions permissions then None else network)"

definition executor_windows_sandbox_level ::
    "url_codec \<Rightarrow> windows_sandbox_level \<Rightarrow> file_url \<Rightarrow> windows_sandbox_level" where
  "executor_windows_sandbox_level uc level cwd =
     (if level = WindowsSandboxDisabled \<and> infer_path_convention uc cwd = Some WindowsPath
      then RestrictedToken else level)"

text \<open>The defaults of the trait \<open>Approvable\<close>.\<close>

definition should_bypass_approval :: "ask_for_approval \<Rightarrow> bool \<Rightarrow> bool" where
  "should_bypass_approval policy already_approved \<longleftrightarrow> already_approved \<or> policy = NeverAsk"

definition wants_no_sandbox_approval :: "ask_for_approval \<Rightarrow> bool" where
  "wants_no_sandbox_approval policy =
     (case policy of UnlessTrusted \<Rightarrow> True | NeverAsk \<Rightarrow> False | OnRequest \<Rightarrow> False
      | Granular g \<Rightarrow> sandbox_approval g)"

section \<open>Remembered approvals\<close>

text \<open>
  Keys are compared as JSON; \<open>None\<close> is a key that cannot be serialized. \<open>fetch\<close> asks for the
  decision and may change the session, its store and what is outside of it.
\<close>

type_synonym approval_store = "str \<rightharpoonup> review_decision"

definition store_get :: "approval_store \<Rightarrow> str option \<Rightarrow> review_decision option" where
  "store_get store key = Option.bind key store"

definition store_put :: "approval_store \<Rightarrow> str option \<Rightarrow> review_decision \<Rightarrow> approval_store" where
  "store_put store key d = (case key of Some s \<Rightarrow> store(s \<mapsto> d) | None \<Rightarrow> store)"

record 's approval_session =
  tool_approvals :: approval_store
  outside :: 's

definition remember_for_session :: "str option list \<Rightarrow> 's approval_session \<Rightarrow> 's approval_session" where
  "remember_for_session keys s = s\<lparr>tool_approvals :=
     fold (\<lambda>key store. store_put store key ApprovedForSession) keys (tool_approvals s)\<rparr>"

definition with_cached_approval ::
    "('s approval_session \<Rightarrow> 's approval_session \<times> review_decision) \<Rightarrow> str option list
     \<Rightarrow> 's approval_session \<Rightarrow> 's approval_session \<times> review_decision" where
  "with_cached_approval fetch keys s =
     (if keys = [] then fetch s
      else if list_all (\<lambda>key. store_get (tool_approvals s) key = Some ApprovedForSession) keys
      then (s, ApprovedForSession)
      else (case fetch s of (s, decision) \<Rightarrow>
        (if decision = ApprovedForSession then remember_for_session keys s else s, decision)))"

section \<open>The network and the platform\<close>

datatype sandboxable_preference = AutoSandbox | RequireSandbox | ForbidSandbox

datatype sandbox_type = NoSandbox | MacosSeatbelt | LinuxSeccomp | WindowsRestrictedToken

datatype target_os = Macos | Linux | WindowsOs | OtherOs

definition get_platform_sandbox :: "target_os \<Rightarrow> bool \<Rightarrow> sandbox_type option" where
  "get_platform_sandbox os windows_sandbox_enabled =
     (case os of
        Macos \<Rightarrow> Some MacosSeatbelt
      | Linux \<Rightarrow> Some LinuxSeccomp
      | WindowsOs \<Rightarrow> (if windows_sandbox_enabled then Some WindowsRestrictedToken else None)
      | OtherOs \<Rightarrow> None)"

definition should_require_platform_sandbox ::
    "url_codec \<Rightarrow> path_convention \<Rightarrow> sandbox_policy \<Rightarrow> network_sandbox_policy \<Rightarrow> bool \<Rightarrow> bool" where
  "should_require_platform_sandbox uc native fs network has_managed_network_requirements =
     (if has_managed_network_requirements then True
      else if \<not> network_enabled network then sandbox_kind fs \<noteq> ExternalSandbox
      else sandbox_kind fs = Restricted \<and> \<not> has_full_disk_write_access uc native fs)"

definition should_sandbox ::
    "url_codec \<Rightarrow> path_convention \<Rightarrow> permission_profile \<Rightarrow> sandboxable_preference \<Rightarrow> bool \<Rightarrow> bool" where
  "should_sandbox uc native profile pref managed =
     (case pref of
        ForbidSandbox \<Rightarrow> False
      | RequireSandbox \<Rightarrow> True
      | AutoSandbox \<Rightarrow> should_require_platform_sandbox uc native (file_system_sandbox_policy profile)
          (network_policy_of_profile profile) managed)"

definition select_initial ::
    "url_codec \<Rightarrow> path_convention \<Rightarrow> target_os \<Rightarrow> permission_profile \<Rightarrow> sandboxable_preference
     \<Rightarrow> windows_sandbox_level \<Rightarrow> bool \<Rightarrow> sandbox_type" where
  "select_initial uc native os profile pref level managed =
     (if should_sandbox uc native profile pref managed
      then (case get_platform_sandbox os (level \<noteq> WindowsSandboxDisabled) of Some s \<Rightarrow> s | None \<Rightarrow> NoSandbox)
      else NoSandbox)"

text \<open>What a call may ask for on top: of the network, whether to enable it.\<close>

record file_system_permissions =
  permission_entries :: "sandbox_entry list"
  permission_glob_depth :: "nat option"

record additional_permissions =
  additional_network :: "bool option option"
  additional_file_system :: "file_system_permissions option"

definition merge_network_access :: "bool \<Rightarrow> additional_permissions \<Rightarrow> bool" where
  "merge_network_access base a \<longleftrightarrow> base \<or> additional_network a = Some (Some True)"

definition effective_network_sandbox_policy ::
    "network_sandbox_policy \<Rightarrow> additional_permissions option \<Rightarrow> network_sandbox_policy" where
  "effective_network_sandbox_policy network additional =
     (case additional of
        None \<Rightarrow> network
      | Some a \<Rightarrow> (if merge_network_access (network_enabled network) a then NetworkEnabled else NetworkRestricted))"

end
