(* ===== verification/ToolApprovals.thy ===== *)
theory ToolApprovals
  imports ApprovalPolicy PowerShellScript
begin

text \<open>
  \<open>core/src/tools/approvals.rs\<close> and \<open>command_canonicalization.rs\<close>: who is asked about an action,
  which earlier answers count for it and what an answer means for the tool. An action has the
  fields that its routing reads. The hooks, the automatic reviewer (guardian), the prompts of the
  user interface and JSON are arguments.
\<close>

section \<open>Commands of the same meaning\<close>

definition canonicalize_command_for_approval :: "(str \<Rightarrow> syntax_node option) \<Rightarrow> str list \<Rightarrow> str list" where
  "canonicalize_command_for_approval parse cmd =
     (case parse_shell_lc_plain_commands parse cmd of
        Some [single_command] \<Rightarrow> single_command
      | _ \<Rightarrow>
     (case extract_bash_command cmd of
        Some (shell, script) \<Rightarrow>
          [lit ''__codex_shell_script__'', (if 1 < length cmd then cmd ! 1 else []), script]
      | None \<Rightarrow>
     (case extract_powershell_command cmd of
        Some (shell, script) \<Rightarrow> [lit ''__codex_powershell_script__'', script]
      | None \<Rightarrow> cmd)))"

section \<open>Actions\<close>

record exec_action =
  action_environment :: str
  action_command :: "str list"
  action_cwd :: file_url
  action_tty :: bool
  action_permissions :: sandbox_permissions
  action_additional :: "additional_permissions option"
  action_justification :: "str option"
  action_amendment :: "exec_policy_amendment option"

record patch_action =
  patch_environment :: str
  patch_files :: "file_url list"
  permissions_preapproved :: bool

datatype approval_action =
    ExecCommand exec_action
  | WriteStdin sandbox_permissions
  | Execve str
  | ApplyPatchAction patch_action
  | McpToolCall
  | NetworkAccess str
  | RequestPermissions

record exec_approval_key =
  key_environment :: str
  key_executable :: "str option"
  key_command :: "str list"
  key_cwd :: file_url
  key_tty :: bool
  key_permissions :: sandbox_permissions
  key_additional :: "additional_permissions option"

datatype approval_cache_key = ExecKey exec_approval_key | PatchKey str file_url

fun cache_keys :: "(str \<Rightarrow> syntax_node option) \<Rightarrow> approval_action \<Rightarrow> approval_cache_key list" where
  "cache_keys parse (ExecCommand a) =
     [ExecKey \<lparr>key_environment = action_environment a,
        key_executable = (case action_command a of [] \<Rightarrow> None | c # cs \<Rightarrow> Some c),
        key_command = canonicalize_command_for_approval parse (action_command a),
        key_cwd = action_cwd a, key_tty = action_tty a, key_permissions = action_permissions a,
        key_additional = action_additional a\<rparr>]"
| "cache_keys parse (ApplyPatchAction a) = map (PatchKey (patch_environment a)) (patch_files a)"
| "cache_keys parse _ = []"

section \<open>What an answer means\<close>

datatype network_approval_protocol = ApproveHttp | ApproveHttps | ApproveSocks5Tcp | ApproveSocks5Udp

record network_approval_context =
  approval_host :: str
  approval_protocol :: network_approval_protocol

record network_policy_payload =
  payload_ask :: bool
  payload_from_decider :: bool
  payload_protocol :: "network_approval_protocol option"
  payload_host :: "str option"

definition is_ask_from_decider :: "network_policy_payload \<Rightarrow> bool" where
  "is_ask_from_decider p \<longleftrightarrow> payload_ask p \<and> payload_from_decider p"

definition network_approval_context_from_payload ::
    "network_policy_payload \<Rightarrow> network_approval_context option" where
  "network_approval_context_from_payload p =
     (if \<not> is_ask_from_decider p then None
      else Option.bind (payload_protocol p) (\<lambda>protocol.
        Option.bind (map_option trim (payload_host p)) (\<lambda>host.
          if host = [] then None else Some \<lparr>approval_host = host, approval_protocol = protocol\<rparr>)))"

datatype codex_error =
    SandboxDenied str "network_policy_payload option"
  | SandboxTimeout
  | SandboxSignal
  | TurnAborted
  | OtherCodexError str

datatype tool_error = Rejected str | Codex codex_error

datatype resolution_source = HookSource | GuardianSource | UserSource

definition into_tool_result ::
    "str \<Rightarrow> resolution_source \<Rightarrow> review_decision \<Rightarrow> tool_error + review_decision" where
  "into_tool_result timeout_message source decision =
     (case decision of
        ApprovedMcpPolicyAmendment \<Rightarrow> Inl (Rejected (lit ''Error while requesting approval''))
      | NetworkPolicyAmendment host action \<Rightarrow>
          (if action = DenyHost then Inl (Rejected (case source of
               HookSource \<Rightarrow> lit ''rejected by configuration''
             | GuardianSource \<Rightarrow> lit ''automatic approval review denied the action''
             | UserSource \<Rightarrow> lit ''rejected by user''))
           else Inr decision)
      | Denied rejection \<Rightarrow> Inl (Rejected rejection)
      | TimedOut \<Rightarrow> Inl (Rejected timeout_message)
      | Abort \<Rightarrow> Inl (Codex TurnAborted)
      | _ \<Rightarrow> Inr decision)"

section \<open>Who is asked\<close>

record approval_context =
  turn_policy :: ask_for_approval
  ctx_strict_auto_review :: bool
  ctx_approval_reason :: "str option"
  ctx_retry_reason :: "str option"
  ctx_network :: "network_approval_context option"
  ctx_timeout_message :: str

datatype hook_decision = HookAllow | HookDeny str

text \<open>
  Each may change what is outside. \<open>hook_run\<close> gets the action and whether this is a retry,
  \<open>guardian\<close> whether it must review, \<open>prompt_user\<close> the reason shown.
\<close>

record 's reviewers =
  hook_run :: "approval_action \<Rightarrow> bool \<Rightarrow> 's approval_session \<Rightarrow> 's approval_session \<times> hook_decision option"
  guardian :: "approval_action \<Rightarrow> approval_context \<Rightarrow> 's approval_session \<Rightarrow> 's approval_session \<times> review_decision option"
  prompt_user :: "approval_action \<Rightarrow> str option \<Rightarrow> approval_context \<Rightarrow> 's approval_session \<Rightarrow> 's approval_session \<times> review_decision"
  cache_key_json :: "approval_cache_key \<Rightarrow> str list option \<Rightarrow> str option"
  environment_fingerprint :: "str \<Rightarrow> str list option"
  parse_bash :: "str \<Rightarrow> syntax_node option"

definition or_else :: "'a option \<Rightarrow> 'a option \<Rightarrow> 'a option" where
  "or_else a b = (case a of Some x \<Rightarrow> Some x | None \<Rightarrow> b)"

text \<open>Permission requests go straight to the guardian; here they are a panic.\<close>

definition request_user_approval ::
    "'s reviewers \<Rightarrow> approval_action \<Rightarrow> approval_context \<Rightarrow> 's approval_session
     \<Rightarrow> tool_error fault + 's approval_session \<times> review_decision" where
  "request_user_approval rv action ctx s =
     (case action of
        ExecCommand a \<Rightarrow>
          (let reason = or_else (ctx_retry_reason ctx) (or_else (ctx_approval_reason ctx) (action_justification a));
               keys = map (\<lambda>key. cache_key_json rv key (environment_fingerprint rv (action_environment a)))
                 (cache_keys (parse_bash rv) action) in
           Inr (with_cached_approval (prompt_user rv action reason ctx) keys s))
      | ApplyPatchAction a \<Rightarrow>
          (let reason = or_else (ctx_retry_reason ctx) (ctx_approval_reason ctx) in
           if permissions_preapproved a \<and> reason = None then Inr (s, Approved)
           else if reason \<noteq> None then Inr (prompt_user rv action reason ctx s)
           else Inr (with_cached_approval (prompt_user rv action None ctx)
             (map (\<lambda>key. cache_key_json rv key None) (cache_keys (parse_bash rv) action)) s))
      | Execve approval_id \<Rightarrow> Inr (prompt_user rv action None ctx s)
      | RequestPermissions \<Rightarrow> Inl Panic
      | _ \<Rightarrow> Inr (prompt_user rv action (ctx_approval_reason ctx) ctx s))"

text \<open>Hooks before the guardian, the guardian before the user.\<close>

definition resolve_approval ::
    "'s reviewers \<Rightarrow> approval_action \<Rightarrow> approval_context \<Rightarrow> 's approval_session
     \<Rightarrow> tool_error fault + 's approval_session \<times> review_decision \<times> resolution_source" where
  "resolve_approval rv action ctx s =
     (case hook_run rv action (ctx_retry_reason ctx \<noteq> None) s of
        (s, Some HookAllow) \<Rightarrow> Inr (s, Approved, HookSource)
      | (s, Some (HookDeny message)) \<Rightarrow> Inr (s, Denied message, HookSource)
      | (s, None) \<Rightarrow>
     (case guardian rv action ctx s of
        (s, Some decision) \<Rightarrow> Inr (s, decision, GuardianSource)
      | (s, None) \<Rightarrow>
          bind_result (request_user_approval rv action ctx s) (\<lambda>(s, decision). Inr (s, decision, UserSource))))"

text \<open>\<open>rejects\<close> is \<open>prompt_is_rejected_by_policy\<close> for prompts that are no rule's.\<close>

definition request_approval ::
    "(ask_for_approval \<Rightarrow> str option) \<Rightarrow> 's reviewers \<Rightarrow> approval_action \<Rightarrow> approval_context
     \<Rightarrow> 's approval_session \<Rightarrow> tool_error fault + 's approval_session \<times> (tool_error + review_decision)" where
  "request_approval rejects rv action ctx s =
     (case (case action of
              WriteStdin permissions \<Rightarrow>
                (if requests_sandbox_override permissions
                    \<and> \<not> (ctx_strict_auto_review ctx \<and> turn_policy ctx = NeverAsk)
                 then rejects (turn_policy ctx) else None)
            | _ \<Rightarrow> None) of
        Some reason \<Rightarrow> Inr (s, Inl (Rejected reason))
      | None \<Rightarrow>
          bind_result (resolve_approval rv action ctx s) (\<lambda>(s, decision, source).
            Inr (s,
              if action = McpToolCall \<and> decision = ApprovedMcpPolicyAmendment then Inr decision
              else case action of
                NetworkAccess run_id \<Rightarrow>
                  (case decision of
                     NetworkPolicyAmendment host DenyHost \<Rightarrow> Inr decision
                   | Abort \<Rightarrow> (if source = GuardianSource
                       then Inl (Rejected (lit ''automatic approval review was cancelled''))
                       else into_tool_result (ctx_timeout_message ctx) source decision)
                   | _ \<Rightarrow> into_tool_result (ctx_timeout_message ctx) source decision)
              | _ \<Rightarrow> into_tool_result (ctx_timeout_message ctx) source decision)))"

end
