(* ===== verification/PowerShellScriptCorrect.thy ===== *)
theory PowerShellScriptCorrect
  imports PowerShellScript ToolApprovals
begin

text \<open>
  Quoted words come back from a PowerShell command as they were, and what follows the script of a
  PowerShell invocation is not looked at.
\<close>

section \<open>Quoting\<close>

definition quote_powershell :: "str \<Rightarrow> str" where
  "quote_powershell w = [QUOTE] @ concat (map (\<lambda>c. if c = QUOTE then [QUOTE, QUOTE] else [c]) w) @ [QUOTE]"

lemma parse_quoted:
  "rest = [] \<or> hd rest \<noteq> QUOTE \<Longrightarrow>
     parse_single_quoted v (concat (map (\<lambda>c. if c = QUOTE then [QUOTE, QUOTE] else [c]) w) @ QUOTE # rest)
       = Inr (v @ w, rest)"
  by (induction w arbitrary: v) (auto split: list.split)

lemma parse_quoted_word:
  "rest = [] \<or> hd rest \<noteq> QUOTE \<Longrightarrow> parse_word (quote_powershell w @ rest) = Inr (w, rest, False)"
  using parse_quoted [of rest "[]" w] by (simp add: parse_word_def quote_powershell_def)

lemma not_whitespace [simp]: "\<not> is_whitespace QUOTE" "is_whitespace 32"
  by (simp_all add: is_whitespace_def)

lemma quote_start: "quote_powershell w @ rest = QUOTE # tl (quote_powershell w @ rest)"
  by (simp add: quote_powershell_def)

lemma lower_quoted_words:
  assumes "\<forall>w \<in> set words. w \<noteq> []"
  shows "lower_words ws (join [32] (map quote_powershell words)) = Inr (ws @ words)"
  using assms
proof (induction words arbitrary: ws)
  case Nil
  then show ?case by (simp add: lower_words.simps [of ws "[]"])
next
  case (Cons w words)
  let ?rest = "if words = [] then [] else 32 # join [32] (map quote_powershell words)"
  have all: "join [32] (map quote_powershell (w # words)) = quote_powershell w @ ?rest"
    by (cases words) simp_all
  have parse: "parse_word (quote_powershell w @ ?rest) = Inr (w, ?rest, False)" by (rule parse_quoted_word) simp
  have skip: "dropWhile is_whitespace (quote_powershell w @ ?rest) = quote_powershell w @ ?rest"
    "quote_powershell w @ ?rest \<noteq> []" "hd (quote_powershell w @ ?rest) \<noteq> HASH"
    by (simp_all add: quote_powershell_def)
  have start: "\<not> (quote_powershell w @ ?rest = [] \<or> hd (quote_powershell w @ ?rest) = HASH)" using skip by blast
  have tail: "\<not> (?rest \<noteq> [] \<and> \<not> is_whitespace (hd ?rest) \<and> hd ?rest \<noteq> HASH)" by simp
  have "lower_words ws (quote_powershell w @ ?rest) = lower_words (ws @ [w]) ?rest"
    unfolding lower_words.simps [of ws "quote_powershell w @ ?rest"] Let_def skip(1) parse
      if_not_P [OF start] using Cons.prems tail by simp
  also have "\<dots> = Inr (ws @ w # words)"
  proof (cases "words = []")
    case True
    then show ?thesis by (simp add: lower_words.simps [of "ws @ [w]" "[]"])
  next
    case False
    have "lower_words (ws @ [w]) ?rest = lower_words (ws @ [w]) (join [32] (map quote_powershell words))"
      using False by (subst (1 2) lower_words.simps) simp
    with Cons.IH [of "ws @ [w]"] Cons.prems show ?thesis by simp
  qed
  finally show ?case unfolding all .
qed

lemma join_ends_with_last: "ws \<noteq> [] \<Longrightarrow> \<exists>p. join sep ws = p @ last ws"
proof (induction sep ws rule: join.induct)
  case (3 sep x y ys)
  then obtain p where "join sep (y # ys) = p @ last (y # ys)" by blast
  then show ?case by (intro exI [of _ "x @ sep @ p"]) simp
qed auto

lemma trim_between:
  assumes "\<not> is_whitespace c" and "\<not> is_whitespace d"
  shows "trim (c # s @ [d]) = c # s @ [d]"
  using assms by (simp add: trim_def trim_start_def trim_end_def trim_end_by_def)

text \<open>C30. Literal words survive the reading of a PowerShell command: words that are quoted as
  PowerShell quotes them and separated by spaces are lowered to exactly these words, whatever
  characters they hold, quotes, dollars and line ends included.\<close>

theorem powershell_words_roundtrip:
  assumes "words \<noteq> []" and "\<forall>w \<in> set words. w \<noteq> []"
  shows "lower_command_text (join [32] (map quote_powershell words)) = Inr words"
proof -
  let ?s = "join [32] (map quote_powershell words)"
  obtain w ws where words: "words = w # ws" using assms(1) by (cases words) auto
  obtain s where start: "?s = QUOTE # s" "s \<noteq> []"
    unfolding words by (cases ws) (auto simp: quote_powershell_def)
  obtain p where "?s = p @ quote_powershell (last words)"
    using join_ends_with_last [of "map quote_powershell words" "[32]"] assms(1) by (auto simp: last_map)
  then have "last ?s = QUOTE" by (simp add: quote_powershell_def)
  with start have "?s = QUOTE # butlast s @ [QUOTE]" by (metis append_butlast_last_id last_ConsR)
  then have "trim ?s = ?s" using trim_between [of QUOTE QUOTE] by (metis not_whitespace(1))
  with lower_quoted_words [OF assms(2), of "[]"] assms(1) show ?thesis by (simp add: lower_command_text_def)
qed

theorem powershell_words_roundtrip_witness:
  "lower_command_text ([QUOTE] @ lit ''$x'' @ [QUOTE]) = Inr [lit ''$x'']"
  using powershell_words_roundtrip [of "[lit ''$x'']"] by (simp add: quote_powershell_def lit_def)

section \<open>Arguments behind the script\<close>

lemma powershell_script_append: "powershell_script args = Some script \<Longrightarrow> powershell_script (args @ extra) = Some script"
  by (induction args rule: powershell_script.induct) (auto split: if_splits)

lemma extract_powershell_append:
  "extract_powershell_command cmd = Some x \<Longrightarrow> extract_powershell_command (cmd @ extra) = Some x"
  by (cases cmd) (auto simp: extract_powershell_command_def powershell_script_append split: if_splits)

lemma powershell_not_bash: "extract_powershell_command cmd = Some x \<Longrightarrow> extract_bash_command cmd = None"
  by (auto simp: extract_powershell_command_def extract_bash_command_def split: list.split if_splits)

lemma canonical_powershell:
  "extract_powershell_command cmd = Some (shell, script) \<Longrightarrow>
     canonicalize_command_for_approval parse cmd = [lit ''__codex_powershell_script__'', script]"
  using powershell_not_bash [of cmd]
  by (simp add: canonicalize_command_for_approval_def parse_shell_lc_plain_commands_def)

text \<open>C35. What follows the script of a PowerShell invocation is ignored: an approval that is
  remembered for \<open>pwsh -Command script\<close> has the same key for the same invocation with further
  arguments, the policy sees the same commands, and the script that is run is not prefixed to write
  UTF-8, although PowerShell takes all the arguments behind \<open>-Command\<close> as one command.\<close>

theorem powershell_arguments_ignored:
  assumes "extract_powershell_command cmd = Some (shell, script)" and "extra \<noteq> []"
  shows "extract_powershell_command (cmd @ extra) = Some (shell, script)
    \<and> canonicalize_command_for_approval parse (cmd @ extra) = canonicalize_command_for_approval parse cmd
    \<and> parse_powershell_command_into_plain_commands tree (cmd @ extra)
      = parse_powershell_command_into_plain_commands tree cmd
    \<and> extract_powershell_command (prefix_powershell_script_with_utf8 (cmd @ extra)) = Some (shell, script)"
  using extract_powershell_append [OF assms(1)] assms canonical_powershell
  by (simp add: parse_powershell_command_into_plain_commands_def prefix_powershell_script_with_utf8_def butlast_append)

theorem powershell_arguments_ignored_witness:
  "canonicalize_command_for_approval (\<lambda>s. None) [lit ''pwsh'', lit ''-Command'', lit ''ls'', lit ''; rm x'']
    = canonicalize_command_for_approval (\<lambda>s. None) [lit ''pwsh'', lit ''-Command'', lit ''ls'']"
proof -
  have "extract_powershell_command [lit ''pwsh'', lit ''-Command'', lit ''ls''] = Some (lit ''pwsh'', lit ''ls'')" by code_simp
  from powershell_arguments_ignored [OF this, of "[lit ''; rm x'']"] show ?thesis by simp
qed

end
