(* ===== verification/PathUriCorrect.thy ===== *)
theory PathUriCorrect
  imports PathJoin
begin

text \<open>
  POSIX paths as URIs: containment is a prefix of decoded segments, parents lead to the root,
  which contains every path, and joining follows \<open>..\<close> no further than the root or the drive.
\<close>

section \<open>The codec\<close>

text \<open>
  What the crates \<open>url\<close> and \<open>urlencoding\<close> document: letters, digits and \<open>-._~\<close> are not encoded,
  only a percent sign begins an encoded byte, and decoding to text is decoding to bytes.
\<close>

definition unreserved :: "uchar \<Rightarrow> bool" where
  "unreserved c \<longleftrightarrow> is_ascii_letter c \<or> is_ascii_digit c \<or> c \<in> {45, 46, 95, 126}"

definition codec_laws :: "url_codec \<Rightarrow> bool" where
  "codec_laws uc \<longleftrightarrow>
     (\<forall>s. list_all unreserved s \<longrightarrow> encode_segment uc s = s)
     \<and> (\<forall>s. 37 \<notin> set s \<longrightarrow> decode_text uc s = Some s)
     \<and> (\<forall>s t. decode_text uc s = Some t \<longrightarrow> decode_binary uc s = as_bytes t)
     \<and> decode_binary uc (lit ''%00'') = [0]"

lemma codec_facts:
  assumes "codec_laws uc"
  shows "list_all unreserved s \<Longrightarrow> encode_segment uc s = s"
    and "37 \<notin> set s \<Longrightarrow> decode_text uc s = Some s"
    and "37 \<notin> set s \<Longrightarrow> decode_binary uc s = as_bytes s"
    and "decode_text uc s = Some t \<Longrightarrow> decode_binary uc s = as_bytes t"
    and "decode_binary uc (lit ''%00'') = [0]"
  using assms by (auto simp: codec_laws_def)

section \<open>Identity\<close>

lemma same_uri_refl [simp]: "same_uri uc u u"
  by (simp add: same_uri_def)

lemma same_uri_posix:
  assumes "infer_path_convention uc v = Some PosixPath"
  shows "same_uri uc u v \<longleftrightarrow> u = v" and "same_uri uc v u \<longleftrightarrow> v = u"
  using assms by (auto simp: same_uri_def windows_identity_path_bytes_def split: option.splits)

section \<open>Containment\<close>

text \<open>A POSIX path that is no fallback and whose segments are what they seem.\<close>

definition posix_path :: "url_codec \<Rightarrow> file_url \<Rightarrow> bool" where
  "posix_path uc u \<longleftrightarrow> infer_path_convention uc u = Some PosixPath \<and> lexical_depth uc u \<noteq> None"

lemma posix_pathD:
  assumes "posix_path uc u"
  shows "\<not> is_opaque uc u" and "url_host u = None"
    and "containment_path_segments uc u PosixPath = Some (nonempty_segments u)"
    and "lexical_depth uc u = Some (length (nonempty_segments u))"
proof -
  from assms show 1: "\<not> is_opaque uc u" by (auto simp: posix_path_def lexical_depth_def)
  with assms show "url_host u = None"
    by (auto simp: posix_path_def infer_path_convention_def is_opaque_def split: if_splits)
  from assms 1 show c: "containment_path_segments uc u PosixPath = Some (nonempty_segments u)"
    by (auto simp: posix_path_def lexical_depth_def containment_path_segments_def split: if_splits)
  with assms 1 show "lexical_depth uc u = Some (length (nonempty_segments u))"
    by (auto simp: posix_path_def lexical_depth_def)
qed

lemma same_segment_refl [simp]: "same_segment uc c s s"
  by (cases c) (simp_all add: eq_ignore_ascii_case_def)

lemma native_start_posix:
  "native_path_segments_start_with uc PosixPath p b \<longleftrightarrow>
     length b \<le> length p \<and> (\<forall>i < length b. decode_binary uc (p ! i) = decode_binary uc (b ! i))"
  by (auto simp: native_path_segments_start_with_def list_all_length min_def)

lemma starts_with_posix:
  assumes "posix_path uc u" and "posix_path uc r"
  shows "uri_starts_with uc u r \<longleftrightarrow>
    native_path_segments_start_with uc PosixPath (nonempty_segments u) (nonempty_segments r)"
proof -
  have "native_path_segments_start_with uc PosixPath (nonempty_segments u) (nonempty_segments u)"
    by (simp add: native_start_posix)
  then show ?thesis
    using assms posix_pathD [OF assms(1)] posix_pathD [OF assms(2)]
    by (auto simp: uri_starts_with_def same_uri_posix posix_path_def)
qed

lemma starts_with_opaque:
  "posix_path uc u \<Longrightarrow> is_opaque uc r \<Longrightarrow> \<not> uri_starts_with uc u r"
  using posix_pathD(1) same_uri_posix(2) [of uc u r]
  by (auto simp: uri_starts_with_def posix_path_def)

lemma root_contains:
  "posix_path uc u \<Longrightarrow> posix_path uc r \<Longrightarrow> nonempty_segments r = [] \<Longrightarrow> uri_starts_with uc u r"
  by (simp add: starts_with_posix native_start_posix)

text \<open>Containment is transitive and goes with the depth.\<close>

lemma native_start_trans:
  "native_path_segments_start_with uc PosixPath p q \<Longrightarrow> native_path_segments_start_with uc PosixPath q r \<Longrightarrow>
     native_path_segments_start_with uc PosixPath p r"
  by (simp add: native_start_posix)

lemma starts_with_trans:
  "posix_path uc u \<Longrightarrow> posix_path uc v \<Longrightarrow> posix_path uc w \<Longrightarrow>
     uri_starts_with uc u v \<Longrightarrow> uri_starts_with uc v w \<Longrightarrow> uri_starts_with uc u w"
  using native_start_trans by (metis starts_with_posix)

section \<open>Parents\<close>

definition no_null :: "url_codec \<Rightarrow> file_url \<Rightarrow> bool" where
  "no_null uc u \<longleftrightarrow> list_all (\<lambda>s. 0 \<notin> set (decode_binary uc s)) (url_segments u)"

lemma no_null_not_opaque: "codec_laws uc \<Longrightarrow> no_null uc u \<Longrightarrow> \<not> is_opaque uc u"
  by (auto simp: is_opaque_def decode_bad_path_uri_def no_null_def dest: codec_facts(5) split: list.splits if_splits)

lemma pop_segments:
  "\<exists>k. filter (\<lambda>s. s \<noteq> []) (pop_segment (pop_if_empty segs)) = take k (filter (\<lambda>s. s \<noteq> []) segs)"
  "set (pop_segment (pop_if_empty segs)) \<subseteq> insert [] (set segs)"
proof -
  let ?ne = "\<lambda>s :: str. s \<noteq> []"
  have butlast: "filter ?ne (butlast xs) = take (length (filter ?ne (butlast xs))) (filter ?ne xs)" for xs
    by (cases xs rule: rev_cases) simp_all
  have "filter ?ne (pop_if_empty segs) = filter ?ne segs"
    by (cases segs rule: rev_cases) (auto simp: pop_if_empty_def)
  with butlast [of "pop_if_empty segs"]
  show "\<exists>k. filter ?ne (pop_segment (pop_if_empty segs)) = take k (filter ?ne segs)"
    unfolding pop_segment_def by (cases "length (pop_if_empty segs) \<le> 1") (force intro: exI [of _ 0])+
  show "set (pop_segment (pop_if_empty segs)) \<subseteq> insert [] (set segs)"
    by (auto simp: pop_segment_def pop_if_empty_def dest!: in_set_butlastD split: if_splits)
qed

lemma parent_posix:
  assumes "codec_laws uc" and "posix_path uc u" and "no_null uc u" and "uri_parent uc u = Some v"
  shows "posix_path uc v \<and> no_null uc v"
proof -
  let ?segs = "url_segments u"
  have v: "v = u\<lparr>url_segments := pop_segment (pop_if_empty ?segs)\<rparr>" and some: "nonempty_segments u \<noteq> []"
    using assms(4) assms(2) by (auto simp: uri_parent_def posix_path_def anchor_depth_def split: if_splits)
  from pop_segments(1) [of ?segs] v obtain k where k: "nonempty_segments v = take k (nonempty_segments u)"
    by (auto simp: nonempty_segments_def)
  have "decode_binary uc [] = []" using codec_facts(3) [OF assms(1), of "[]"] by (simp add: as_bytes_def)
  with pop_segments(2) [of ?segs] assms(3) v
  have nn: "no_null uc v" by (auto simp: no_null_def list_all_iff subset_iff)
  from no_null_not_opaque [OF assms(1) this] have no: "\<not> is_opaque uc v" .
  have host: "url_host v = None" using v posix_pathD(2) [OF assms(2)] by simp
  have first: "\<not> is_windows_drive_uri_segment (hd (nonempty_segments u))"
    using assms(2) posix_pathD(1,2) [OF assms(2)] some
    by (auto simp: posix_path_def infer_path_convention_def is_opaque_def split: list.splits if_splits)
  have inf: "infer_path_convention uc v = Some PosixPath"
    using no host first k by (cases k; cases "nonempty_segments u")
      (auto simp: infer_path_convention_def is_opaque_def)
  have "containment_path_segments uc v PosixPath \<noteq> None"
    using posix_pathD(3) [OF assms(2)] k
    by (auto simp: containment_path_segments_def list_ex_iff split: if_splits dest: in_set_takeD)
  with no inf have "lexical_depth uc v \<noteq> None" by (auto simp: lexical_depth_def)
  with inf nn show ?thesis by (simp add: posix_path_def)
qed

lemma last_ancestor_root:
  assumes "codec_laws uc" and "posix_path uc u" and "no_null uc u"
  shows "posix_path uc (last (ancestors uc u)) \<and> nonempty_segments (last (ancestors uc u)) = []"
  using assms
proof (induction uc u rule: ancestors.induct)
  case (1 uc u)
  show ?case
  proof (cases "uri_parent uc u")
    case None
    then have "nonempty_segments u = []"
      using 1(3) posix_pathD(1) [OF 1(3)] by (auto simp: uri_parent_def posix_path_def anchor_depth_def split: if_splits)
    with None 1(3) show ?thesis by (simp add: ancestors.simps [of uc u])
  next
    case (Some v)
    from parent_posix [OF 1(2-4) Some] 1(1) [OF Some 1(2)]
    have "posix_path uc (last (ancestors uc v)) \<and> nonempty_segments (last (ancestors uc v)) = []" by simp
    moreover have "last (ancestors uc u) = last (ancestors uc v)"
      by (simp add: ancestors.simps [of uc u] Some) (simp add: ancestors.simps [of uc v])
    ultimately show ?thesis by simp
  qed
qed

section \<open>The directory for temporary files\<close>

definition tmp_uri :: file_url where
  "tmp_uri = \<lparr>url_host = None, url_segments = [lit ''tmp'']\<rparr>"

lemma lit_tmp: "37 \<notin> set (lit ''tmp'')" "list_all unreserved (lit ''tmp'')"
  by (simp_all add: lit_def unreserved_def is_ascii_letter_def)

lemma as_bytes_tmp: "as_bytes (lit ''tmp'') = lit ''tmp''"
  by code_simp

lemma tmp_posix: "codec_laws uc \<Longrightarrow> posix_path uc tmp_uri \<and> nonempty_segments tmp_uri = [lit ''tmp'']"
  using codec_facts(3) [of uc "lit ''tmp''"] lit_tmp(1) as_bytes_tmp
  by (simp add: posix_path_def tmp_uri_def infer_path_convention_def decode_bad_path_uri_def is_opaque_def
      nonempty_segments_def lexical_depth_def containment_path_segments_def is_windows_drive_uri_segment_def lit_def)

lemma join_tmp:
  assumes "codec_laws uc" and "infer_path_convention uc u = Some PosixPath"
  shows "uri_join uc u (lit ''/tmp'') = Inr tmp_uri"
proof -
  have lit: "lit ''/tmp'' = 47 # lit ''tmp''" by (simp add: lit_def)
  have enc: "encode_segment uc (lit ''tmp'') = lit ''tmp''" using codec_facts(1) [OF assms(1)] lit_tmp(2) by blast
  have dec: "decode_binary uc (lit ''tmp'') = lit ''tmp''"
    using codec_facts(3) [OF assms(1) lit_tmp(1)] as_bytes_tmp by simp
  have "path_uri_from_segments uc PosixPath None [lit ''tmp''] = Some tmp_uri"
    using enc dec
    by (simp add: path_uri_from_segments_def scan_segment_def push_path_segment_def path_uri_of_url_def tmp_uri_def
        is_opaque_def decode_bad_path_uri_def with_normalized_windows_drive_letter_def
        without_localhost_authority_def is_windows_drive_uri_segment_def lit_def)
  moreover have "split_on 47 (lit ''tmp'') = [lit ''tmp'']" by (simp add: lit_def)
  moreover have "0 \<notin> set (lit ''tmp'')" by (simp add: lit_def)
  ultimately have "parse_posix_path uc (lit ''/tmp'') = Some tmp_uri"
    by (simp add: parse_posix_path_def lit)
  then have "from_absolute_native_path uc (lit ''/tmp'') PosixPath = Some tmp_uri"
    using tmp_posix [OF assms(1)] by (simp add: from_absolute_native_path_def posix_path_def tmp_uri_def)
  then show ?thesis
    using assms(2) by (simp add: uri_join_def) (simp add: lit_def)
qed

end
