(* ===== verification/PermissionsCorrect.thy ===== *)
theory PermissionsCorrect
  imports Permissions PathUriCorrect
begin

text \<open>
  The shortcut for full write access agrees with the check of each path, reads denied before stay
  denied, and the protection of metadata depends on the order of the writable roots.
\<close>

section \<open>The strictest of the most specific\<close>

lemma strictest_Max:
  assumes "es \<noteq> []" and "strictest es = a"
  obtains d where "(a, d) \<in> set es" and "\<And>b k. (b, k) \<in> set es \<Longrightarrow> (k, b) \<le> (d, a)"
proof -
  let ?S = "set (map (\<lambda>(access, depth). (depth, access)) es)"
  have "finite ?S" "?S \<noteq> {}" using assms(1) by auto
  then have in_S: "Max ?S \<in> ?S" and ge: "\<And>x. x \<in> ?S \<Longrightarrow> x \<le> Max ?S" by (auto intro: Max_in)
  obtain d where d: "Max ?S = (d, a)" using assms by (cases "Max ?S") (simp add: strictest_def)
  show thesis
  proof (rule that)
    show "(a, d) \<in> set es" using in_S d by auto
    show "(k, b) \<le> (d, a)" if "(b, k) \<in> set es" for b k
      using ge [of "(k, b)"] that unfolding d by force
  qed
qed

text \<open>Something beats every entry of another access.\<close>

lemma strictest_beats:
  assumes "es \<noteq> []"
    and "\<And>b k. (b, k) \<in> set es \<Longrightarrow> b \<noteq> a \<Longrightarrow> \<exists>d. (a, d) \<in> set es \<and> (k, b) < (d, a)"
  shows "strictest es = a"
proof (rule ccontr)
  assume other: "strictest es \<noteq> a"
  obtain d where d: "(strictest es, d) \<in> set es"
    and max: "\<And>b k. (b, k) \<in> set es \<Longrightarrow> (k, b) \<le> (d, strictest es)"
    using strictest_Max [OF assms(1) refl] by blast
  from assms(2) [OF d other] obtain d' where "(a, d') \<in> set es" "(d, strictest es) < (d', a)" by blast
  with max show False by (meson leD)
qed

lemma depth_entries_set:
  "depth_entries uc xs = Some es \<Longrightarrow>
     (root, a, d) \<in> set es \<longleftrightarrow> (root, a) \<in> set xs \<and> lexical_depth uc root = Some d"
proof (induction uc xs arbitrary: es rule: depth_entries.induct)
  case (2 uc r b xs)
  show ?case
  proof (cases "lexical_depth uc r")
    case None
    with 2 show ?thesis by (auto split: if_splits)
  next
    case (Some k)
    with 2 show ?thesis by auto
  qed
qed simp

lemma resolved_entries_set:
  "(root, a) \<in> set (resolved_entries uc ctx p) \<longleftrightarrow>
     (\<exists>e \<in> set (entries p). entry_access e = a \<and> root \<in> set (entry_paths uc ctx (entry_path e))
        \<and> infer_path_convention uc root = infer_path_convention uc (context_cwd ctx))"
  by (auto simp: resolved_entries_def resolved_entry_def)

text \<open>The entries that cover a path.\<close>

definition covering :: "url_codec \<Rightarrow> policy_context \<Rightarrow> sandbox_policy \<Rightarrow> file_url \<Rightarrow> (access_mode \<times> nat) set" where
  "covering uc ctx p u = {(a, d). \<exists>root. (root, a) \<in> set (resolved_entries uc ctx p)
     \<and> lexical_depth uc root = Some d \<and> uri_starts_with uc u root}"

lemma resolve_access_covering:
  assumes "sandbox_kind p = Restricted" and "same_native_convention uc ctx u"
    and "infer_path_convention uc (context_cwd ctx) = Some c"
    and "depth_entries uc (resolved_entries uc ctx p) \<noteq> None"
  obtains es where "resolve_access uc ctx p u = strictest es" and "set es = covering uc ctx p u"
proof -
  from assms(4) obtain xs where xs: "depth_entries uc (resolved_entries uc ctx p) = Some xs" by blast
  let ?es = "map snd (filter (\<lambda>(root, access, d). uri_starts_with uc u root) xs)"
  have "resolve_access uc ctx p u = strictest ?es"
    using assms(1-3) xs by (simp add: resolve_access_def)
  moreover have "set ?es = covering uc ctx p u"
    using depth_entries_set [OF xs] by (force simp: covering_def)
  ultimately show thesis by (rule that)
qed

section \<open>Full write access\<close>

lemma special_root_match:
  assumes "special_path_matches_path_uri uc RootPath v" and "infer_path_convention uc v = Some PosixPath"
  shows "posix_path uc v \<and> nonempty_segments v = []"
  using assms posix_pathD(1) [of uc v]
  by (auto simp: special_path_matches_path_uri_def posix_path_def uri_parent_def anchor_depth_def split: if_splits)

text \<open>A directory that is called \<open>tmp\<close>, at the root, is \<open>/tmp\<close>.\<close>

lemma special_tmp_match:
  assumes "codec_laws uc" and "special_path_matches_path_uri uc SlashTmp v"
  shows "posix_path uc v" and "lexical_depth uc v = Some 1" and "lexical_depth uc tmp_uri = Some 1"
    and "posix_path uc u \<Longrightarrow> uri_starts_with uc u v \<longleftrightarrow> uri_starts_with uc u tmp_uri"
proof -
  from assms(2) show v: "posix_path uc v" and one: "lexical_depth uc v = Some 1"
    by (auto simp: special_path_matches_path_uri_def posix_path_def)
  have base: "uri_basename uc v = Some (lit ''tmp'')"
    using assms(2) by (simp add: special_path_matches_path_uri_def)
  have t: "posix_path uc tmp_uri" "nonempty_segments tmp_uri = [lit ''tmp'']"
    using tmp_posix [OF assms(1)] by auto
  then show "lexical_depth uc tmp_uri = Some 1" using posix_pathD(4) by fastforce
  from one posix_pathD(4) [OF v] obtain s where s: "nonempty_segments v = [s]"
    by (cases "nonempty_segments v") auto
  have "decode_uri_path uc s = lit ''tmp''"
    using base s posix_pathD(1) [OF v] by (simp add: uri_basename_def)
  then have "decode_text uc s = Some (lit ''tmp'')"
    using codec_facts(2) [OF assms(1) lit_tmp(1)] by (simp add: decode_uri_path_def split: option.splits)
  then have "decode_binary uc s = decode_binary uc (lit ''tmp'')"
    using codec_facts(3,4) [OF assms(1)] lit_tmp(1) by metis
  then show "posix_path uc u \<Longrightarrow> uri_starts_with uc u v \<longleftrightarrow> uri_starts_with uc u tmp_uri"
    by (simp add: starts_with_posix v t s native_start_posix)
qed

lemma share_target_glob [simp]: "\<not> file_system_paths_share_target uc p (GlobPattern g) c \<or> p = GlobPattern g"
  by (cases p) auto

text \<open>An entry that a writing one overrides is not the most specific, or not the strictest.\<close>

lemma override_covers:
  assumes codec: "codec_laws uc" and cwd: "posix_path uc (context_cwd ctx)" "no_null uc (context_cwd ctx)"
    and over: "has_same_target_write_override uc PosixPath p e"
    and root: "r \<in> set (entry_paths uc ctx (entry_path e))" "infer_path_convention uc r = Some PosixPath"
    and depth: "lexical_depth uc r = Some d"
    and u: "posix_path uc u" "uri_starts_with uc u r"
  shows "\<exists>k. (WriteAccess, k) \<in> covering uc ctx p u \<and> (d, entry_access e) < (k, WriteAccess)"
proof -
  from over obtain c where c: "c \<in> set (entries p)" "entry_access c = WriteAccess" "entry_access e < WriteAccess"
    and share: "file_system_paths_share_target uc (entry_path c) (entry_path e) PosixPath"
    by (auto simp: has_same_target_write_override_def can_write_def list_ex_iff)
  have r: "posix_path uc r" using root(2) depth by (simp add: posix_path_def)
  have inf: "infer_path_convention uc (context_cwd ctx) = Some PosixPath" using cwd(1) by (simp add: posix_path_def)
  text \<open>It is enough that the writing entry has a root of the same depth that covers the path.\<close>
  have same: ?thesis
    if "w \<in> set (entry_paths uc ctx (entry_path c))" "posix_path uc w" "lexical_depth uc w = Some d"
      "uri_starts_with uc u w" for w
    using that c inf by (auto simp: covering_def resolved_entries_set posix_path_def intro!: exI [of _ d])
  show ?thesis
  proof (cases "entry_path c")
    case (GlobPattern g)
    with share root(1) show ?thesis by (cases "entry_path e") (auto simp: entry_paths_def)
  next
    case (UriPath l)
    then have l: "l \<in> set (entry_paths uc ctx (entry_path c))" by (simp add: entry_paths_def)
    show ?thesis
    proof (cases "entry_path e")
      case (UriPath v)
      with \<open>entry_path c = UriPath l\<close> share root have "l = r" by (auto simp: entry_paths_def same_uri_posix)
      with l r depth u(2) show ?thesis using same by blast
    next
      case (SpecialPath s)
      with \<open>entry_path c = UriPath l\<close> share
      have li: "infer_path_convention uc l = Some PosixPath" and lm: "special_path_matches_path_uri uc s l" by auto
      from lm consider "s = RootPath" | "s = SlashTmp"
        by (auto simp: special_path_matches_path_uri_def split: special_path.splits)
      then show ?thesis
      proof cases
        case 1
        with SpecialPath root(1) have "r = last (ancestors uc (context_cwd ctx))"
          by (auto simp: entry_paths_def special_paths_def file_system_root_def split: if_splits)
        with last_ancestor_root [OF codec cwd] have rs: "nonempty_segments r = []" by simp
        have lp: "posix_path uc l" "nonempty_segments l = []" using special_root_match [of uc l] lm li 1 by auto
        from rs depth posix_pathD(4) [OF r] posix_pathD(4) [OF lp(1)] lp(2)
        have "lexical_depth uc l = Some d" by simp
        with l lp u(1) show ?thesis using same root_contains by blast
      next
        case 2
        with SpecialPath root(1) have "r = tmp_uri"
          by (simp add: entry_paths_def special_paths_def inf join_tmp [OF codec inf] ok_list_def)
        with special_tmp_match [OF codec] lm 2 depth u l show ?thesis by (metis same)
      qed
    next
      case (GlobPattern g)
      with share \<open>entry_path c = UriPath l\<close> show ?thesis by simp
    qed
  next
    case (SpecialPath s)
    show ?thesis
    proof (cases "entry_path e")
      case (UriPath v)
      with root(1) have v: "v = r" by (simp add: entry_paths_def)
      with SpecialPath UriPath share have m: "special_path_matches_path_uri uc s r" by simp
      from m consider "s = RootPath" | "s = SlashTmp"
        by (auto simp: special_path_matches_path_uri_def split: special_path.splits)
      then show ?thesis
      proof cases
        case 1
        let ?w = "last (ancestors uc (context_cwd ctx))"
        have w: "posix_path uc ?w" "nonempty_segments ?w = []" using last_ancestor_root [OF codec cwd] by auto
        have "?w \<in> set (entry_paths uc ctx (entry_path c))"
          using SpecialPath 1 cwd(1) by (simp add: entry_paths_def special_paths_def file_system_root_def posix_path_def)
        moreover have "lexical_depth uc ?w = Some d"
          using special_root_match [of uc r] m 1 root(2) depth posix_pathD(4) [OF r] posix_pathD(4) [OF w(1)] w(2) by simp
        ultimately show ?thesis using w u(1) same root_contains by blast
      next
        case 2
        have "tmp_uri \<in> set (entry_paths uc ctx (entry_path c))"
          using SpecialPath 2 by (simp add: entry_paths_def special_paths_def inf join_tmp [OF codec inf] ok_list_def)
        moreover have "posix_path uc tmp_uri" using tmp_posix [OF codec] by simp
        ultimately show ?thesis using special_tmp_match [OF codec, of r] m 2 depth u by (metis same)
      qed
    next
      case (SpecialPath s')
      with \<open>entry_path c = SpecialPath s\<close> share have "special_paths_share_target s s'" by simp
      then have "s = s'" by (cases "(s, s')" rule: special_paths_share_target.cases) auto
      with SpecialPath \<open>entry_path c = SpecialPath s\<close> root(1) r depth u(2) show ?thesis using same by metis
    next
      case (GlobPattern g)
      with share SpecialPath show ?thesis by simp
    qed
  qed
qed

text \<open>Without narrowing entries, the most specific entry for a path writes.\<close>

lemma full_write_covers:
  assumes codec: "codec_laws uc" and cwd: "posix_path uc (context_cwd ctx)" "no_null uc (context_cwd ctx)"
    and root: "has_root_access can_write p" and narrow: "\<not> has_write_narrowing_entries uc PosixPath p"
    and u: "posix_path uc u"
  shows "\<exists>k. (WriteAccess, k) \<in> covering uc ctx p u"
    and "(a, d) \<in> covering uc ctx p u \<Longrightarrow> a \<noteq> WriteAccess \<Longrightarrow>
      \<exists>k. (WriteAccess, k) \<in> covering uc ctx p u \<and> (d, a) < (k, WriteAccess)"
proof -
  let ?root = "last (ancestors uc (context_cwd ctx))"
  have w: "posix_path uc ?root" "nonempty_segments ?root = []" using last_ancestor_root [OF codec cwd] by auto
  have inf: "infer_path_convention uc (context_cwd ctx) = Some PosixPath" using cwd(1) by (simp add: posix_path_def)
  have paths: "entry_paths uc ctx (SpecialPath RootPath) = [?root]"
    using cwd(1) by (simp add: entry_paths_def special_paths_def file_system_root_def posix_path_def)
  from root obtain e where "e \<in> set (entries p)" "entry_path e = SpecialPath RootPath" "entry_access e = WriteAccess"
    and kind: "sandbox_kind p = Restricted"
    by (auto simp: has_root_access_def list_ex_iff can_write_def)
  then have "(?root, WriteAccess) \<in> set (resolved_entries uc ctx p)"
    using paths w(1) inf unfolding resolved_entries_set posix_path_def by (metis list.set_intros(1))
  moreover have top: "lexical_depth uc ?root = Some 0" using posix_pathD(4) [OF w(1)] w(2) by simp
  moreover have "uri_starts_with uc u ?root" using root_contains [OF u w] .
  ultimately have zero: "(WriteAccess, 0) \<in> covering uc ctx p u" unfolding covering_def by blast
  then show "\<exists>k. (WriteAccess, k) \<in> covering uc ctx p u" by blast
  assume "(a, d) \<in> covering uc ctx p u" and other: "a \<noteq> WriteAccess"
  then obtain e r where e: "e \<in> set (entries p)" "entry_access e = a"
    and r: "r \<in> set (entry_paths uc ctx (entry_path e))" "infer_path_convention uc r = Some PosixPath"
      "lexical_depth uc r = Some d" "uri_starts_with uc u r"
    unfolding covering_def resolved_entries_set inf by blast
  have "\<not> narrows_writes uc PosixPath p e" using narrow kind e(1) by (auto simp: has_write_narrowing_entries_def list_ex_iff)
  then consider "has_same_target_write_override uc PosixPath p e"
    | "entry_path e = SpecialPath RootPath" "a \<noteq> DenyAccess"
    using other e(2) r(1)
    by (auto simp: narrows_writes_def can_write_def entry_paths_def special_paths_def
        split: fs_path.splits special_path.splits if_splits)
  then show "\<exists>k. (WriteAccess, k) \<in> covering uc ctx p u \<and> (d, a) < (k, WriteAccess)"
  proof cases
    case 1
    from override_covers [OF codec cwd 1 r(1-3) u r(4)] e(2) show ?thesis by simp
  next
    case 2
    with r(1,3) paths top have "d = 0" by simp
    moreover have "a < WriteAccess" using 2(2) other by (cases a) (simp_all add: less_access_mode_def)
    ultimately show ?thesis using zero by auto
  qed
qed

lemma full_write_can_write:
  assumes "codec_laws uc"
    and "infer_path_convention uc (context_cwd ctx) = Some PosixPath" and "no_null uc (context_cwd ctx)"
    and "same_native_convention uc ctx u"
    and "depth_entries uc (resolved_entries uc ctx p) \<noteq> None"
    and "has_full_disk_write_access_with_context uc ctx p"
  shows "can_write_path uc ctx p u"
proof (cases "sandbox_kind p = Restricted")
  case True
  have cwd: "posix_path uc (context_cwd ctx)" and u: "posix_path uc u"
    using assms(2,4) by (auto simp: posix_path_def same_native_convention_def)
  have full: "has_root_access can_write p" "\<not> has_write_narrowing_entries uc PosixPath p"
    using assms(2,6) True
    by (simp_all add: has_full_disk_write_access_with_context_def has_full_disk_write_access_for_convention_def)
  from resolve_access_covering [OF True assms(4,2,5)]
  obtain es where es: "resolve_access uc ctx p u = strictest es" "set es = covering uc ctx p u" .
  note covers = full_write_covers [OF assms(1) cwd assms(3) full u, folded es(2)]
  have "strictest es = WriteAccess" using covers by (intro strictest_beats) auto
  with es(1) assms(6) show ?thesis by (simp add: can_write_path_def can_write_def)
next
  case False
  with assms(6) show ?thesis by (simp add: can_write_path_def can_write_def resolve_access_def)
qed

text \<open>A policy that grants the whole disk for writing grants every path: when
  \<open>has_full_disk_write_access_with_context\<close> takes the shortcut, no entry, whatever its place in the
  list, is more specific than the writing entry of its target, so \<open>can_write_path\<close> says yes for
  every POSIX path, metadata directories included.\<close>

theorem full_write_access_agrees:
  assumes "codec_laws uc"
    and "infer_path_convention uc (context_cwd ctx) = Some PosixPath" and "no_null uc (context_cwd ctx)"
    and "same_native_convention uc ctx u"
    and "depth_entries uc (resolved_entries uc ctx p) \<noteq> None"
    and "has_full_disk_write_access_with_context uc ctx p"
  shows "can_write_path uc ctx p u"
  by (rule full_write_can_write [OF assms])

text \<open>A codec for segments without encoded bytes, but for \<open>%00\<close>.\<close>

definition plain_codec :: url_codec where
  "plain_codec =
     \<lparr>decode_binary = (\<lambda>s. if s = lit ''%00'' then [0] else as_bytes s),
      decode_text = (\<lambda>s. if 37 \<in> set s then None else Some s),
      encode_segment = (\<lambda>s. s), base64_encode = (\<lambda>bs. bs), base64_decode = (\<lambda>s. None), parse_host = Some\<rparr>"

lemma plain_codec_laws: "codec_laws plain_codec"
  by (auto simp: codec_laws_def plain_codec_def lit_def)

definition local_uri :: "string list \<Rightarrow> file_url" where
  "local_uri segs = \<lparr>url_host = None, url_segments = map lit segs\<rparr>"

definition local_context :: policy_context where
  "local_context = \<lparr>context_cwd = local_uri [''w''], workspace_roots = [local_uri [''w'']],
     user_home_dir = None, temporary_directories = None\<rparr>"

theorem full_write_access_agrees_witness:
  "can_write_path plain_codec local_context
     (restricted_policy
       [new_entry (UriPath tmp_uri) ReadAccess, new_entry (SpecialPath RootPath) WriteAccess,
        new_entry (SpecialPath SlashTmp) WriteAccess])
     (local_uri [''tmp'', ''.git''])"
  by (rule full_write_access_agrees [OF plain_codec_laws]) code_simp+

section \<open>Denied reads\<close>

lemma push_missing_denies_set:
  "set es \<subseteq> set (push_missing_denies uc existing es)"
  "set (push_missing_denies uc existing es) \<subseteq> set es \<union> {d \<in> set existing. entry_access d = DenyAccess}"
  "d \<in> set existing \<Longrightarrow> entry_access d = DenyAccess \<Longrightarrow>
     \<exists>e \<in> set (push_missing_denies uc existing es). same_entry uc e d"
proof -
  let ?step = "\<lambda>d es. if list_ex (\<lambda>e. same_entry uc e d) es then es else es @ [d]"
  have keep: "set es \<subseteq> set (fold ?step ds es)" for ds es
    by (induction ds arbitrary: es) (force split: if_splits)+
  then show "set es \<subseteq> set (push_missing_denies uc existing es)" by (simp add: push_missing_denies_def)
  have "set (fold ?step ds es) \<subseteq> set es \<union> set ds" for ds es
  proof (induction ds arbitrary: es)
    case (Cons d ds)
    from Cons.IH [of "?step d es"] show ?case by (auto split: if_splits)
  qed simp
  then show "set (push_missing_denies uc existing es) \<subseteq> set es \<union> {d \<in> set existing. entry_access d = DenyAccess}"
    unfolding push_missing_denies_def by (rule order_trans) auto
  have refl: "same_entry uc d d" for d by (cases "entry_path d") (simp_all add: same_entry_def)
  have "d \<in> set ds \<Longrightarrow> \<exists>e \<in> set (fold ?step ds es). same_entry uc e d" for d ds es
  proof (induction ds arbitrary: es)
    case (Cons c ds)
    show ?case
    proof (cases "d = c")
      case True
      then have "\<exists>e \<in> set (?step c es). same_entry uc e d" using refl by (auto simp: list_ex_iff)
      then obtain e where "e \<in> set (?step c es)" and e: "same_entry uc e d" by blast
      with keep [of "?step c es" ds] have "e \<in> set (fold ?step ds (?step c es))" by blast
      with e show ?thesis unfolding fold_simps by blast
    next
      case False
      with Cons.prems have "d \<in> set ds" by simp
      from Cons.IH [OF this, of "?step c es"] show ?thesis by simp
    qed
  qed simp
  then show "d \<in> set existing \<Longrightarrow> entry_access d = DenyAccess \<Longrightarrow>
     \<exists>e \<in> set (push_missing_denies uc existing es). same_entry uc e d"
    by (simp add: push_missing_denies_def)
qed

lemma deny_resolved:
  assumes "(root, DenyAccess) \<in> set (resolved_entries uc ctx existing)"
    and "infer_path_convention uc (context_cwd ctx) = Some PosixPath"
    and "sandbox_kind p = Restricted"
    and "set (entries p) \<supseteq> set (push_missing_denies uc (entries existing) es)"
  shows "(root, DenyAccess) \<in> set (resolved_entries uc ctx p)"
proof -
  from assms(1) obtain e where e: "e \<in> set (entries existing)" "entry_access e = DenyAccess"
    "root \<in> set (entry_paths uc ctx (entry_path e))" and inf: "infer_path_convention uc root = Some PosixPath"
    unfolding resolved_entries_set assms(2) by blast
  from push_missing_denies_set(3) [OF e(1,2)] assms(4) obtain e'
    where e': "e' \<in> set (entries p)" and same: "same_entry uc e' e" by blast
  have "root \<in> set (entry_paths uc ctx (entry_path e'))"
    using same e(3) inf
    by (cases "entry_path e"; cases "entry_path e'") (auto simp: same_entry_def entry_paths_def same_uri_posix)
  with e' same e(2) inf assms(2) show ?thesis by (auto simp: resolved_entries_set same_entry_def)
qed

text \<open>Reads that were denied stay denied when a turn or a request replaces the permissions:
  after \<open>preserve_deny_read_restrictions_from\<close>, a path below a denied root cannot be read, unless
  the new policy has an entry of its own, more specific than the denial, that covers the path; a
  policy without restrictions has none.\<close>

theorem denied_reads_preserved:
  assumes codec: "codec_laws uc" and null: "no_null uc (context_cwd ctx)"
    and "infer_path_convention uc (context_cwd ctx) = Some PosixPath"
    and "sandbox_kind p \<noteq> ExternalSandbox"
    and "(root, DenyAccess) \<in> set (resolved_entries uc ctx existing)"
    and "lexical_depth uc root = Some d" and "uri_starts_with uc u root"
    and "\<not> (\<exists>a k. (a, k) \<in> covering uc ctx p u \<and> d < k)"
  shows "\<not> can_read (resolve_access uc ctx (preserve_deny_read_restrictions_from uc existing p) u)"
proof -
  let ?q = "preserve_deny_read_restrictions_from uc existing p"
  let ?base = "if sandbox_kind p = Unrestricted
    then [new_entry (SpecialPath RootPath) WriteAccess] else entries p"
  from assms(5) have "list_ex (\<lambda>e. entry_access e = DenyAccess) (entries existing)"
    by (auto simp: resolved_entries_set list_ex_iff)
  with assms(4) have kind: "sandbox_kind ?q = Restricted"
    and ent: "entries ?q = push_missing_denies uc (entries existing) ?base"
    by (cases "sandbox_kind p"; simp add: preserve_deny_read_restrictions_from_def Let_def restricted_policy_def)+
  have deny: "(DenyAccess, d) \<in> covering uc ctx ?q u"
    using deny_resolved [OF assms(5,3) kind, of ?base] assms(6,7) by (auto simp: covering_def ent)
  have not_deeper: "a = DenyAccess \<or> k \<le> d" if "(a, k) \<in> covering uc ctx ?q u" for a k
  proof -
    from that obtain e r where e: "e \<in> set (entries ?q)" "entry_access e = a"
      and r: "r \<in> set (entry_paths uc ctx (entry_path e))"
        "infer_path_convention uc r = infer_path_convention uc (context_cwd ctx)"
        "lexical_depth uc r = Some k" "uri_starts_with uc u r"
      unfolding covering_def resolved_entries_set by blast
    from e push_missing_denies_set(2) [of uc "entries existing" ?base]
    have "a = DenyAccess \<or> e \<in> set ?base" unfolding ent by blast
    then show ?thesis
    proof (elim disjE)
      assume e_base: "e \<in> set ?base"
      show ?thesis
      proof (cases "sandbox_kind p = Unrestricted")
        case True
        with e_base have "entry_path e = SpecialPath RootPath" by (simp add: new_entry_def)
        with r(1) have rl: "r = last (ancestors uc (context_cwd ctx))" "lexical_depth uc (context_cwd ctx) \<noteq> None"
          by (auto simp: entry_paths_def special_paths_def file_system_root_def split: if_splits)
        then have "posix_path uc (context_cwd ctx)" using assms(3) by (simp add: posix_path_def)
        from last_ancestor_root [OF codec this null] r(3) posix_pathD(4) [of uc r] rl(1) have "k = 0" by auto
        then show ?thesis by simp
      next
        case False
        with e_base e(2) r have "(a, k) \<in> covering uc ctx p u"
          unfolding covering_def resolved_entries_set by auto
        with assms(8) show ?thesis by (auto simp: not_less)
      qed
    qed simp
  qed
  show ?thesis
  proof (cases "resolve_access uc ctx ?q u = DenyAccess")
    case False
    have "same_native_convention uc ctx u" "depth_entries uc (resolved_entries uc ctx ?q) \<noteq> None"
      using False assms(3) kind by (auto simp: resolve_access_def split: if_splits option.splits)
    from resolve_access_covering [OF kind this(1) assms(3) this(2)]
    obtain es where es: "resolve_access uc ctx ?q u = strictest es" "set es = covering uc ctx ?q u" .
    from deny es(2) have ne: "es \<noteq> []" by auto
    have "strictest es = DenyAccess"
    proof (rule strictest_beats [OF ne])
      fix b k assume b: "(b, k) \<in> set es" "b \<noteq> DenyAccess"
      with not_deeper es(2) have "k \<le> d" by blast
      moreover have "b < DenyAccess" using b(2) by (cases b) (simp_all add: less_access_mode_def)
      ultimately show "\<exists>d. (DenyAccess, d) \<in> set es \<and> (k, b) < (d, DenyAccess)"
        using deny es(2) by auto
    qed
    with es(1) False show ?thesis by simp
  qed (simp add: can_read_def)
qed

lemma denied_reads_preserved_witness:
  "\<not> can_read (resolve_access plain_codec local_context
     (preserve_deny_read_restrictions_from plain_codec
       (restricted_policy [new_entry (SpecialPath RootPath) ReadAccess,
          new_entry (UriPath (local_uri [''w'', ''secret''])) DenyAccess]) unrestricted_policy)
     (local_uri [''w'', ''secret'', ''key'']))"
proof (rule denied_reads_preserved [OF plain_codec_laws])
  show "lexical_depth plain_codec (local_uri [''w'', ''secret'']) = Some 2" by code_simp
  show "\<not> (\<exists>a k. (a, k) \<in> covering plain_codec local_context unrestricted_policy
      (local_uri [''w'', ''secret'', ''key'']) \<and> 2 < k)"
    by (simp add: covering_def resolved_entries_def unrestricted_policy_def)
qed code_simp+

section \<open>Metadata under nested writable roots\<close>

text \<open>C34. The protection of metadata depends on the order of the entries: of the writable roots
  whose metadata directory holds a path only the first is checked, and a writable root inside it
  lifts the protection of all of them. With the roots \<open>/w\<close> and \<open>/w/.git/h\<close> a write to
  \<open>/w/.git/h/.git/x\<close> is denied if the inner root comes first and allowed if it comes last,
  although both orders grant the same access.\<close>

theorem metadata_denial_depends_on_order:
  "let outer = new_entry (UriPath (local_uri [''w''])) WriteAccess;
       inner = new_entry (UriPath (local_uri [''w'', ''.git'', ''h''])) WriteAccess;
       u = local_uri [''w'', ''.git'', ''h'', ''.git'', ''x''];
       denial = (\<lambda>es. forbidden_agent_metadata_write plain_codec local_context (restricted_policy es) u)
   in denial [inner, outer] = Some (lit ''.git'') \<and> denial [outer, inner] = None
      \<and> can_write_path plain_codec local_context (restricted_policy [outer, inner]) u
      \<and> (\<forall>v. resolve_access plain_codec local_context (restricted_policy [outer, inner]) v
            = resolve_access plain_codec local_context (restricted_policy [inner, outer]) v)"
  unfolding Let_def
proof (intro conjI allI)
  let ?outer = "new_entry (UriPath (local_uri [''w''])) WriteAccess"
  let ?inner = "new_entry (UriPath (local_uri [''w'', ''.git'', ''h''])) WriteAccess"
  let ?u = "local_uri [''w'', ''.git'', ''h'', ''.git'', ''x'']"
  show "forbidden_agent_metadata_write plain_codec local_context (restricted_policy [?inner, ?outer]) ?u
      = Some (lit ''.git'')" by code_simp
  show "forbidden_agent_metadata_write plain_codec local_context (restricted_policy [?outer, ?inner]) ?u = None"
    by code_simp
  show "can_write_path plain_codec local_context (restricted_policy [?outer, ?inner]) ?u" by code_simp
  fix v
  have "resolved_entries plain_codec local_context (restricted_policy [?outer, ?inner])
      = [(local_uri [''w''], WriteAccess), (local_uri [''w'', ''.git'', ''h''], WriteAccess)]"
    "resolved_entries plain_codec local_context (restricted_policy [?inner, ?outer])
      = [(local_uri [''w'', ''.git'', ''h''], WriteAccess), (local_uri [''w''], WriteAccess)]"
    by code_simp+
  moreover have "lexical_depth plain_codec (local_uri [''w'']) = Some 1"
    "lexical_depth plain_codec (local_uri [''w'', ''.git'', ''h'']) = Some 3" by code_simp+
  ultimately show "resolve_access plain_codec local_context (restricted_policy [?outer, ?inner]) v
      = resolve_access plain_codec local_context (restricted_policy [?inner, ?outer]) v"
    by (simp add: resolve_access_def strictest_def restricted_policy_def insert_commute)
qed

end
