(* ===== verification/ExecApproval.thy ===== *)
theory ExecApproval
  imports ApprovalPolicy PowerShellScript DangerousCommand ExecBuilder ExecAmend
begin

text \<open>
  \<open>core/src/exec_policy.rs\<close> with \<open>exec_policy/executable_identity.rs\<close> and \<open>model_policy.rs\<close>:
  whether a command runs, is shown to the user first or is refused, by the rules of the policy
  and, where none matches, by what is known of the command; and how an answer of the user becomes
  a rule. Of the two builds of \<open>shell_approval_command\<close> the one for Unix is modelled.

  \<open>shlex\<close>, tree-sitter, the file system and the evaluation of a policy file are arguments.
\<close>

record approval_ops =
  danger :: danger_ops
  parse_ps :: "str \<Rightarrow> ps_node option"
  host_paths :: host_path_ops
  join_words :: "str list \<Rightarrow> str option"
  codec :: url_codec
  native :: path_convention

definition PROMPT_CONFLICT_REASON :: str where
  "PROMPT_CONFLICT_REASON = lit ''approval required by policy, but AskForApproval is set to Never''"

definition REJECT_SANDBOX_APPROVAL_REASON :: str where
  "REJECT_SANDBOX_APPROVAL_REASON =
     lit ''approval required by policy, but AskForApproval::Granular.sandbox_approval is false''"

definition REJECT_RULES_APPROVAL_REASON :: str where
  "REJECT_RULES_APPROVAL_REASON =
     lit ''approval required by policy rule, but AskForApproval::Granular.rules is false''"

text \<open>Prefixes too broad to be allowed for good.\<close>

definition BANNED_PREFIX_SUGGESTIONS :: "str list list" where
  "BANNED_PREFIX_SUGGESTIONS = map (map lit)
     [[''/bin/bash''], [''/bin/bash'', ''-c''], [''/bin/bash'', ''-lc''], [''/bin/sh''],
      [''/bin/sh'', ''-c''], [''/bin/sh'', ''-lc''], [''/bin/zsh''], [''/bin/zsh'', ''-c''],
      [''/bin/zsh'', ''-lc''], [''Rscript''], [''bash''], [''bash'', ''-c''], [''bash'', ''-lc''],
      [''bun''], [''bun'', ''-e''], [''bun'', ''run''], [''cmd''], [''cmd'', ''/c''],
      [''cmd'', ''/k''], [''cmd.exe''], [''cmd.exe'', ''/c''], [''cmd.exe'', ''/k''], [''dash''],
      [''dash'', ''-c''], [''deno''], [''deno'', ''eval''], [''env''], [''fish''], [''fish'', ''-c''],
      [''git''], [''julia''], [''julia'', ''-e''], [''ksh''], [''ksh'', ''-c''], [''lua''],
      [''lua'', ''-e''], [''node''], [''node'', ''-e''], [''nodejs''], [''nodejs'', ''-e''],
      [''npm'', ''run''], [''osascript''], [''perl''], [''perl'', ''-e''], [''php''],
      [''php'', ''-r''], [''pnpm'', ''run''], [''powershell''], [''powershell'', ''-Command''],
      [''powershell'', ''-EncodedCommand''], [''powershell'', ''-File''], [''powershell'', ''-c''],
      [''powershell.exe''], [''powershell.exe'', ''-Command''],
      [''powershell.exe'', ''-EncodedCommand''], [''powershell.exe'', ''-File''],
      [''powershell.exe'', ''-c''], [''pwsh''], [''pwsh'', ''-Command''],
      [''pwsh'', ''-EncodedCommand''], [''pwsh'', ''-File''], [''pwsh'', ''-c''], [''pwsh'', ''-e''],
      [''pwsh'', ''-ec''], [''pwsh'', ''-f''], [''py''], [''py'', ''-3''], [''pypy''], [''pypy3''],
      [''python''], [''python'', ''-''], [''python'', ''-c''], [''python3''], [''python3'', ''-''],
      [''python3'', ''-c''], [''pythonw''], [''pyw''], [''rm''], [''ruby''], [''ruby'', ''-e''],
      [''sh''], [''sh'', ''-c''], [''sh'', ''-lc''], [''sudo''], [''yarn'', ''run''], [''zsh''],
      [''zsh'', ''-c''], [''zsh'', ''-lc'']]"

datatype command_origin = GenericOrigin | PowerShellOrigin

record unmatched_context =
  uc_policy :: ask_for_approval
  uc_profile :: permission_profile
  uc_windows_level :: windows_sandbox_level
  uc_permissions :: sandbox_permissions
  uc_origin :: command_origin

fun is_policy_match :: "rule_match \<Rightarrow> bool" where
  "is_policy_match (PrefixRuleMatch matched d program why) = True"
| "is_policy_match (HeuristicsRuleMatch cmd d) = False"

definition prompt_is_rejected_by_policy :: "ask_for_approval \<Rightarrow> bool \<Rightarrow> str option" where
  "prompt_is_rejected_by_policy policy prompt_is_rule =
     (case policy of
        NeverAsk \<Rightarrow> Some PROMPT_CONFLICT_REASON
      | OnRequest \<Rightarrow> None
      | UnlessTrusted \<Rightarrow> None
      | Granular g \<Rightarrow>
          (if prompt_is_rule
           then (if \<not> allows_rules_approval g then Some REJECT_RULES_APPROVAL_REASON else None)
           else if \<not> allows_sandbox_approval g then Some REJECT_SANDBOX_APPROVAL_REASON else None))"

section \<open>Dangerous and unmatched commands\<close>

definition dangerous_command_match_for_origin ::
    "approval_ops \<Rightarrow> str list \<Rightarrow> command_origin \<Rightarrow> danger_platform \<Rightarrow> dangerous_match option" where
  "dangerous_command_match_for_origin ops cmd origin platform =
     (case origin of
        GenericOrigin \<Rightarrow> dangerous_command_match_for_platform (danger ops) platform cmd
      | PowerShellOrigin \<Rightarrow> dangerous_powershell_words_match (danger ops) platform cmd)"

definition dangerous_command_match_for_heuristics ::
    "approval_ops \<Rightarrow> evaluation \<Rightarrow> decision \<Rightarrow> command_origin \<Rightarrow> danger_platform \<Rightarrow> dangerous_match option" where
  "dangerous_command_match_for_heuristics ops e d origin platform = find_some
     (\<lambda>m. case m of
        HeuristicsRuleMatch cmd matched_decision \<Rightarrow>
          (if matched_decision = d then dangerous_command_match_for_origin ops cmd origin platform else None)
      | PrefixRuleMatch matched d program why \<Rightarrow> None) (matched_rules e)"

definition profile_has_managed_filesystem_restrictions :: "approval_ops \<Rightarrow> permission_profile \<Rightarrow> bool" where
  "profile_has_managed_filesystem_restrictions ops profile \<longleftrightarrow>
     (case profile of Managed fs n \<Rightarrow> True | _ \<Rightarrow> False)
     \<and> sandbox_kind (file_system_sandbox_policy profile) = Restricted
     \<and> \<not> has_full_disk_write_access (codec ops) (native ops) (file_system_sandbox_policy profile)"

definition render_decision_for_unmatched_command ::
    "approval_ops \<Rightarrow> str list \<Rightarrow> unmatched_context \<Rightarrow> danger_platform \<Rightarrow> decision" where
  "render_decision_for_unmatched_command ops cmd ctx platform =
     (let without_sandbox_backend = native ops = WindowsPath
            \<and> uc_windows_level ctx = WindowsSandboxDisabled
            \<and> profile_has_managed_filesystem_restrictions ops (uc_profile ctx);
          in_sandbox = (case sandbox_kind (file_system_sandbox_policy (uc_profile ctx)) of
              Unrestricted \<Rightarrow> Allow
            | ExternalSandbox \<Rightarrow> Allow
            | Restricted \<Rightarrow> (if requests_sandbox_override (uc_permissions ctx) then Prompt else Allow)) in
      if dangerous_command_match_for_origin ops cmd (uc_origin ctx) platform \<noteq> None \<or> without_sandbox_backend
      then (if uc_policy ctx = NeverAsk then Forbidden else Prompt)
      else case uc_policy ctx of
        NeverAsk \<Rightarrow> Allow
      | UnlessTrusted \<Rightarrow> Prompt
      | OnRequest \<Rightarrow> in_sandbox
      | Granular g \<Rightarrow> in_sandbox)"

section \<open>The commands of a command\<close>

definition commands_for_exec_policy ::
    "approval_ops \<Rightarrow> str list \<Rightarrow> danger_platform \<Rightarrow> str list list \<times> command_origin" where
  "commands_for_exec_policy ops cmd platform =
     (case parse_shell_lc_plain_commands (parse_shell (danger ops)) cmd of
        Some (c # cs) \<Rightarrow> (c # cs, GenericOrigin)
      | _ \<Rightarrow>
     (case (if platform = Windows then parse_powershell_command_into_plain_commands (parse_ps ops) cmd else None) of
        Some (c # cs) \<Rightarrow> (c # cs, PowerShellOrigin)
      | _ \<Rightarrow> ([cmd], GenericOrigin)))"

section \<open>Amendments\<close>

definition try_derive_execpolicy_amendment_for_prompt_rules ::
    "rule_match list \<Rightarrow> exec_policy_amendment option" where
  "try_derive_execpolicy_amendment_for_prompt_rules ms =
     (if list_ex (\<lambda>m. is_policy_match m \<and> match_decision m = Prompt) ms then None
      else find_some (\<lambda>m. case m of
          HeuristicsRuleMatch cmd d \<Rightarrow> (if d = Prompt then Some cmd else None)
        | PrefixRuleMatch matched d program why \<Rightarrow> None) ms)"

definition try_derive_execpolicy_amendment_for_allow_rules ::
    "rule_match list \<Rightarrow> exec_policy_amendment option" where
  "try_derive_execpolicy_amendment_for_allow_rules ms =
     (if list_ex is_policy_match ms then None
      else find_some (\<lambda>m. case m of
          HeuristicsRuleMatch cmd d \<Rightarrow> (if d = Allow then Some cmd else None)
        | PrefixRuleMatch matched d program why \<Rightarrow> None) ms)"

definition is_allowed :: "exec_error fault + evaluation \<Rightarrow> bool" where
  "is_allowed r \<longleftrightarrow> (case r of Inr e \<Rightarrow> eval_decision e = Allow | Inl f \<Rightarrow> False)"

definition prefix_rule_would_approve_all_commands ::
    "approval_ops \<Rightarrow> exec_policy \<Rightarrow> str list \<Rightarrow> str list list \<Rightarrow> (str list \<Rightarrow> decision) \<Rightarrow> bool" where
  "prefix_rule_would_approve_all_commands ops policy prefix_words commands fallback =
     (case add_prefix_rule prefix_words Allow policy of
        Inl e \<Rightarrow> False
      | Inr with_rule \<Rightarrow>
          list_all (\<lambda>c. is_allowed (check_with_options (host_paths ops) with_rule c fallback True)) commands)"

definition derive_requested_execpolicy_amendment_from_prefix_rule ::
    "approval_ops \<Rightarrow> str list option \<Rightarrow> rule_match list \<Rightarrow> exec_policy \<Rightarrow> str list list
     \<Rightarrow> (str list \<Rightarrow> decision) \<Rightarrow> exec_policy_amendment option" where
  "derive_requested_execpolicy_amendment_from_prefix_rule ops prefix_rule ms policy commands fallback =
     Option.bind prefix_rule (\<lambda>words.
       if words = [] \<or> words \<in> set BANNED_PREFIX_SUGGESTIONS \<or> list_ex is_policy_match ms then None
       else if prefix_rule_would_approve_all_commands ops policy words commands fallback then Some words
       else None)"

section \<open>Reasons\<close>

text \<open>\<open>Iterator::max_by_key\<close>: the last of the greatest.\<close>

fun max_by_key :: "('a \<Rightarrow> nat) \<Rightarrow> 'a list \<Rightarrow> 'a option" where
  "max_by_key f [] = None"
| "max_by_key f (x # xs) = Some (fold (\<lambda>y best. if f best \<le> f y then y else best) xs x)"

definition render_shlex_command :: "approval_ops \<Rightarrow> str list \<Rightarrow> str" where
  "render_shlex_command ops args =
     (case join_words ops args of Some s \<Rightarrow> s | None \<Rightarrow> join (lit '' '') args)"

text \<open>The prefixes of the matching rules of a decision, with their justification.\<close>

definition rules_deciding :: "decision \<Rightarrow> rule_match list \<Rightarrow> (str list \<times> str option) list" where
  "rules_deciding d ms = List.map_filter (\<lambda>m. case m of
       PrefixRuleMatch matched d' program why \<Rightarrow> (if d' = d then Some (matched, why) else None)
     | HeuristicsRuleMatch cmd d' \<Rightarrow> None) ms"

definition backticked :: "str \<Rightarrow> str" where
  "backticked s = [96] @ s @ [96]"

definition derive_prompt_reason :: "approval_ops \<Rightarrow> str list \<Rightarrow> evaluation \<Rightarrow> str option" where
  "derive_prompt_reason ops args e =
     (let command = backticked (render_shlex_command ops args) in
      case max_by_key (\<lambda>(matched, why). length matched) (rules_deciding Prompt (matched_rules e)) of
        Some (matched, Some justification) \<Rightarrow> Some (command @ lit '' requires approval: '' @ justification)
      | Some (matched, None) \<Rightarrow> Some (command @ lit '' requires approval by policy'')
      | None \<Rightarrow> None)"

fun dangerous_command_rejection_reason :: "dangerous_match \<Rightarrow> str" where
  "dangerous_command_rejection_reason ForcedRm =
     lit ''rm -f style commands are not permitted. Use a safer approach''"
| "dangerous_command_rejection_reason OtherMatch = lit ''blocked by policy''"

definition derive_forbidden_reason ::
    "approval_ops \<Rightarrow> str list \<Rightarrow> evaluation \<Rightarrow> dangerous_match option \<Rightarrow> str" where
  "derive_forbidden_reason ops args e dangerous =
     (let command = backticked (render_shlex_command ops args) @ lit '' rejected: '' in
      case max_by_key (\<lambda>(matched, why). length matched) (rules_deciding Forbidden (matched_rules e)) of
        Some (matched, Some justification) \<Rightarrow> command @ justification
      | Some (matched, None) \<Rightarrow>
          command @ lit ''policy forbids commands starting with '' @ backticked (render_shlex_command ops matched)
      | None \<Rightarrow> command @ (case dangerous of
            Some m \<Rightarrow> dangerous_command_rejection_reason m | None \<Rightarrow> lit ''blocked by policy''))"

definition derive_rejected_prompt_reason :: "str \<Rightarrow> dangerous_match option \<Rightarrow> str" where
  "derive_rejected_prompt_reason fallback_reason dangerous =
     (case dangerous of Some ForcedRm \<Rightarrow> dangerous_command_rejection_reason ForcedRm | _ \<Rightarrow> fallback_reason)"

end
