(* ===== verification/ExecManager.thy ===== *)
theory ExecManager
  imports ExecApproval
begin

text \<open>
  The manager of \<open>core/src/exec_policy.rs\<close>: the policy in force, the requirement for a command,
  the rules that answers of the user add, and how the policy is loaded from the layers of the
  configuration.
\<close>

section \<open>The policy in force\<close>

datatype allow_prefix_rules = Honor | IgnoreForCyberModel

text \<open>The rules one by one with their program, as \<open>iter_all\<close> gives them.\<close>

definition rule_pairs :: "rule_map \<Rightarrow> (str \<times> prefix_rule) list" where
  "rule_pairs m = concat (map (\<lambda>(program, rules). map (Pair program) rules) m)"

definition collect_multimap :: "(str \<times> prefix_rule) list \<Rightarrow> rule_map" where
  "collect_multimap ps = fold (\<lambda>(program, rule) m. multimap_insert program rule m) ps []"

definition current_for_prefix_rules :: "allow_prefix_rules \<Rightarrow> exec_policy \<Rightarrow> exec_policy" where
  "current_for_prefix_rules honor policy =
     (if honor = Honor then policy
      else \<lparr>rules_by_program = collect_multimap
              (filter (\<lambda>(program, rule). rule_decision rule \<noteq> Allow) (rule_pairs (rules_by_program policy))),
            network_rules = network_rules policy,
            host_executables_by_name = host_executables_by_name policy\<rparr>)"

definition current_for_environment ::
    "exec_policy option \<Rightarrow> allow_prefix_rules \<Rightarrow> exec_policy \<Rightarrow> exec_policy" where
  "current_for_environment environment_policy honor policy =
     (let policy = current_for_prefix_rules honor policy in
      case environment_policy of Some e \<Rightarrow> merge_overlay policy e | None \<Rightarrow> policy)"

section \<open>The requirement for a command\<close>

record exec_request =
  rq_command :: "str list"
  rq_policy :: ask_for_approval
  rq_profile :: permission_profile
  rq_environment :: "exec_policy option"
  rq_windows_level :: windows_sandbox_level
  rq_permissions :: sandbox_permissions
  rq_prefix_rule :: "str list option"
  rq_allow_prefix_rules :: allow_prefix_rules

definition request_fallback ::
    "approval_ops \<Rightarrow> exec_request \<Rightarrow> command_origin \<Rightarrow> danger_platform \<Rightarrow> str list \<Rightarrow> decision" where
  "request_fallback ops req origin platform cmd =
     render_decision_for_unmatched_command ops cmd
       \<lparr>uc_policy = rq_policy req, uc_profile = rq_profile req, uc_windows_level = rq_windows_level req,
        uc_permissions = rq_permissions req, uc_origin = origin\<rparr> platform"

text \<open>Every command has a rule of the policy that allows it.\<close>

definition all_explicitly_allowed :: "approval_ops \<Rightarrow> exec_policy \<Rightarrow> str list list \<Rightarrow> bool" where
  "all_explicitly_allowed ops policy commands = list_all (\<lambda>c. list_ex
     (\<lambda>m. is_policy_match m \<and> match_decision m = Allow)
     (matches_for_command_with_options (host_paths ops) policy c None True)) commands"

text \<open>What follows from an evaluation.\<close>

definition requirement_of_evaluation ::
    "approval_ops \<Rightarrow> exec_request \<Rightarrow> exec_policy \<Rightarrow> str list list \<Rightarrow> command_origin \<Rightarrow> danger_platform
     \<Rightarrow> evaluation \<Rightarrow> exec_approval_requirement" where
  "requirement_of_evaluation ops req policy commands origin platform e =
     (let auto_amendment_allowed = rq_allow_prefix_rules req = Honor;
          requested = (if auto_amendment_allowed
            then derive_requested_execpolicy_amendment_from_prefix_rule ops (rq_prefix_rule req)
              (matched_rules e) policy commands (request_fallback ops req origin platform)
            else None);
          dangerous = (\<lambda>d. dangerous_command_match_for_heuristics ops e d origin platform) in
      case eval_decision e of
        Forbidden \<Rightarrow> ForbiddenExec (derive_forbidden_reason ops (rq_command req) e (dangerous Forbidden))
      | Prompt \<Rightarrow>
          (let prompt_is_rule = list_ex (\<lambda>m. is_policy_match m \<and> match_decision m = Prompt) (matched_rules e) in
           case prompt_is_rejected_by_policy (rq_policy req) prompt_is_rule of
             Some reason \<Rightarrow>
               (if prompt_is_rule then ForbiddenExec reason
                else ForbiddenExec (derive_rejected_prompt_reason reason (dangerous Prompt)))
           | None \<Rightarrow> NeedsApproval (derive_prompt_reason ops (rq_command req) e)
               (case requested of
                  Some a \<Rightarrow> Some a
                | None \<Rightarrow> (if auto_amendment_allowed
                           then try_derive_execpolicy_amendment_for_prompt_rules (matched_rules e) else None)))
      | Allow \<Rightarrow> SkipApproval (all_explicitly_allowed ops policy commands)
          (if auto_amendment_allowed then try_derive_execpolicy_amendment_for_allow_rules (matched_rules e)
           else None))"

definition create_requirement_for_parsed_commands ::
    "approval_ops \<Rightarrow> exec_policy \<Rightarrow> exec_request \<Rightarrow> str list list \<times> command_origin \<Rightarrow> danger_platform
     \<Rightarrow> exec_error fault + exec_approval_requirement" where
  "create_requirement_for_parsed_commands ops current req parsed platform =
     (case parsed of (commands, origin) \<Rightarrow>
        (let policy = current_for_environment (rq_environment req) (rq_allow_prefix_rules req) current in
         bind_result (check_multiple_with_options (host_paths ops) policy commands
             (request_fallback ops req origin platform) True)
           (\<lambda>e. Inr (requirement_of_evaluation ops req policy commands origin platform e))))"

definition create_exec_approval_requirement_for_command ::
    "approval_ops \<Rightarrow> exec_policy \<Rightarrow> exec_request \<Rightarrow> danger_platform
     \<Rightarrow> exec_error fault + exec_approval_requirement" where
  "create_exec_approval_requirement_for_command ops current req platform =
     create_requirement_for_parsed_commands ops current req
       (commands_for_exec_policy ops (rq_command req) platform) platform"

section \<open>Unfamiliar executables\<close>

datatype unified_exec_shell_mode = DirectShell | ZshFork

definition is_system_shell :: "str \<Rightarrow> bool" where
  "is_system_shell executable \<longleftrightarrow> parent_components executable \<in> Some `
     {path_components (lit ''/bin''), path_components (lit ''/usr/bin'')}"

definition shell_approval_command :: "str list \<Rightarrow> str \<Rightarrow> unified_exec_shell_mode \<Rightarrow> str list" where
  "shell_approval_command cmd configured_shell shell_mode =
     (case cmd of
        [] \<Rightarrow> cmd
      | executable # args \<Rightarrow>
          (if same_path executable configured_shell \<or> is_system_shell executable \<or> shell_mode = ZshFork
           then cmd else [executable]))"

definition policy_commands_for_shell ::
    "approval_ops \<Rightarrow> str list \<Rightarrow> danger_platform \<Rightarrow> str list list \<times> command_origin" where
  "policy_commands_for_shell ops cmd platform =
     (if platform = Windows then
        (case extract_powershell_command cmd of
           Some (shell, script) \<Rightarrow>
             ((case parse_powershell_script_into_plain_commands (parse_ps ops) script of
                 Some commands \<Rightarrow> commands | None \<Rightarrow> [cmd]), PowerShellOrigin)
         | None \<Rightarrow> commands_for_exec_policy ops cmd platform)
      else commands_for_exec_policy ops cmd platform)"

definition create_exec_approval_requirement_for_shell ::
    "approval_ops \<Rightarrow> exec_policy \<Rightarrow> exec_request \<Rightarrow> str \<Rightarrow> unified_exec_shell_mode \<Rightarrow> danger_platform
     \<Rightarrow> exec_error fault + exec_approval_requirement" where
  "create_exec_approval_requirement_for_shell ops current req configured_shell shell_mode platform =
     (let cmd = rq_command req; executable = shell_approval_command cmd configured_shell shell_mode in
      if length executable = length cmd
      then create_exec_approval_requirement_for_command ops current req platform
      else case policy_commands_for_shell ops cmd platform of (commands, origin) \<Rightarrow>
        create_requirement_for_parsed_commands ops current (req\<lparr>rq_command := executable\<rparr>)
          (executable # commands, origin) platform)"

section \<open>Answers become rules\<close>

text \<open>The semaphore serializes the updates: each runs from the acquired permit to its release.\<close>

record exec_policy_manager =
  manager_policy :: exec_policy
  semaphore_closed :: bool

definition new_policy_manager :: "exec_policy \<Rightarrow> exec_policy_manager" where
  "new_policy_manager p = \<lparr>manager_policy = p, semaphore_closed = False\<rparr>"

datatype exec_policy_update_error = AppendRule str amend_error | AddRule exec_error

definition os_path_join :: "str \<Rightarrow> str \<Rightarrow> str" where
  "os_path_join a b = (if a = [] \<or> ends_with a [SLASH] then a @ b else a @ [SLASH] @ b)"

definition default_policy_path :: "str \<Rightarrow> str" where
  "default_policy_path codex_home = os_path_join (os_path_join codex_home (lit ''rules'')) (lit ''default.rules'')"

definition semaphore_error :: exec_policy_update_error where
  "semaphore_error = AddRule (InvalidRule (lit ''exec policy update semaphore closed''))"

definition already_allowed :: "host_path_ops \<Rightarrow> exec_policy \<Rightarrow> str list \<Rightarrow> bool" where
  "already_allowed hp policy words =
     (case check_multiple_with_options hp policy [words] (\<lambda>c. Forbidden) True of
        Inl f \<Rightarrow> False
      | Inr e \<Rightarrow> eval_decision e = Allow
          \<and> list_ex (\<lambda>m. is_policy_match m \<and> match_decision m = Allow) (matched_rules e))"

definition append_amendment_and_update ::
    "host_path_ops \<Rightarrow> json_ops \<Rightarrow> (str \<Rightarrow> 's policy_file_ops) \<Rightarrow> str \<Rightarrow> exec_policy_amendment
     \<Rightarrow> exec_policy_manager \<times> 's \<Rightarrow> (exec_policy_manager \<times> 's) \<times> (exec_policy_update_error + unit)" where
  "append_amendment_and_update hp js files codex_home amendment st =
     (case st of (mgr, s) \<Rightarrow>
      if semaphore_closed mgr then ((mgr, s), Inl semaphore_error)
      else
        (let path = default_policy_path codex_home in
         case blocking_append_allow_prefix_rule js (files path) amendment s of
           (s, Inl e) \<Rightarrow> ((mgr, s), Inl (AppendRule path e))
         | (s, Inr u) \<Rightarrow>
             (if already_allowed hp (manager_policy mgr) amendment then ((mgr, s), Inr ())
              else case add_prefix_rule amendment Allow (manager_policy mgr) of
                Inl e \<Rightarrow> ((mgr, s), Inl (AddRule e))
              | Inr updated \<Rightarrow> ((mgr\<lparr>manager_policy := updated\<rparr>, s), Inr ()))))"

definition append_network_rule_and_update ::
    "json_ops \<Rightarrow> (str \<Rightarrow> 's policy_file_ops) \<Rightarrow> str \<Rightarrow> str \<Rightarrow> network_protocol \<Rightarrow> decision \<Rightarrow> str option
     \<Rightarrow> exec_policy_manager \<times> 's \<Rightarrow> (exec_policy_manager \<times> 's) \<times> (exec_policy_update_error + unit)" where
  "append_network_rule_and_update js files codex_home host protocol d j st =
     (case st of (mgr, s) \<Rightarrow>
      if semaphore_closed mgr then ((mgr, s), Inl semaphore_error)
      else
        (let path = default_policy_path codex_home in
         case blocking_append_network_rule js (files path) host protocol d j s of
           (s, Inl e) \<Rightarrow> ((mgr, s), Inl (AppendRule path e))
         | (s, Inr u) \<Rightarrow>
             (case add_network_rule host protocol d j (manager_policy mgr) of
                Inl e \<Rightarrow> ((mgr, s), Inl (AddRule e))
              | Inr updated \<Rightarrow> ((mgr\<lparr>manager_policy := updated\<rparr>, s), Inr ()))))"

section \<open>Loading\<close>

datatype layer_source = UserLayer | ProjectLayer | OtherLayer

record config_layer =
  layer_source :: layer_source
  config_folder :: "str option"

record config_stack =
  layers_low_to_high :: "config_layer list"
  ignore_user_and_project_exec_policy_rules :: bool
  requirements_policy :: "exec_policy option"

datatype exec_policy_error =
    ReadDirError str io_error
  | ReadFileError str io_error
  | ParsePolicyError str exec_error

text \<open>
  What the disk and Starlark answer: the entries of a directory with whether each is a file, the
  text of a file, and what its evaluation calls.
\<close>

record 'v policy_source =
  read_dir :: "str \<Rightarrow> io_error + (io_error + str \<times> (io_error + bool)) list"
  read_file_text :: "str \<Rightarrow> io_error + str"
  evaluate_policy :: "str \<Rightarrow> str \<Rightarrow> exec_error + 'v builtin_call list"

fun collect_entries ::
    "str \<Rightarrow> (io_error + str \<times> (io_error + bool)) list \<Rightarrow> exec_policy_error + str list" where
  "collect_entries dir [] = Inr []"
| "collect_entries dir (Inl e # es) = Inl (ReadDirError dir e)"
| "collect_entries dir (Inr (path, Inl e) # es) = Inl (ReadDirError dir e)"
| "collect_entries dir (Inr (path, Inr is_file) # es) =
     bind_result (collect_entries dir es) (\<lambda>paths.
       Inr (if file_extension path = Some (lit ''rules'') \<and> is_file then path # paths else paths))"

text \<open>Paths are ordered by their components.\<close>

fun component_key :: "path_component \<Rightarrow> nat \<times> str" where
  "component_key RootDir = (0, [])"
| "component_key CurDir = (1, [])"
| "component_key ParentDir = (2, [])"
| "component_key (NormalName n) = (3, n)"

definition sort_paths :: "str list \<Rightarrow> str list" where
  "sort_paths ps = sort_key (\<lambda>p. map component_key (path_components p)) ps"

definition collect_policy_files :: "'v policy_source \<Rightarrow> str \<Rightarrow> exec_policy_error + str list" where
  "collect_policy_files src dir =
     (case read_dir src dir of
        Inl e \<Rightarrow> (if kind e = NotFound then Inr [] else Inl (ReadDirError dir e))
      | Inr es \<Rightarrow> bind_result (collect_entries dir es) (\<lambda>ps. Inr (sort_paths ps)))"

fun policy_paths :: "'v policy_source \<Rightarrow> bool \<Rightarrow> config_layer list \<Rightarrow> exec_policy_error + str list" where
  "policy_paths src ignore_rules [] = Inr []"
| "policy_paths src ignore_rules (layer # layers) =
     (if ignore_rules \<and> layer_source layer \<in> {UserLayer, ProjectLayer} then policy_paths src ignore_rules layers
      else case config_folder layer of
        None \<Rightarrow> policy_paths src ignore_rules layers
      | Some folder \<Rightarrow>
          bind_result (collect_policy_files src (os_path_join folder (lit ''rules''))) (\<lambda>ps.
          bind_result (policy_paths src ignore_rules layers) (\<lambda>qs. Inr (ps @ qs))))"

fun parse_policy_files ::
    "'v builtin_ops \<Rightarrow> host_path_ops \<Rightarrow> (exec_error \<Rightarrow> exec_error) \<Rightarrow> 'v policy_source \<Rightarrow> str list
     \<Rightarrow> policy_builder \<Rightarrow> exec_policy_error + policy_builder" where
  "parse_policy_files bops hp wrap src [] b = Inr b"
| "parse_policy_files bops hp wrap src (path # paths) b =
     (case read_file_text src path of
        Inl e \<Rightarrow> Inl (ReadFileError path e)
      | Inr contents \<Rightarrow>
          (case parse_policy_file bops hp wrap (evaluate_policy src path contents) b of
             (b', Inl e) \<Rightarrow> Inl (ParsePolicyError path e)
           | (b', Inr u) \<Rightarrow> parse_policy_files bops hp wrap src paths b'))"

definition load_exec_policy ::
    "'v builtin_ops \<Rightarrow> host_path_ops \<Rightarrow> (exec_error \<Rightarrow> exec_error) \<Rightarrow> 'v policy_source \<Rightarrow> config_stack
     \<Rightarrow> exec_policy_error + exec_policy" where
  "load_exec_policy bops hp wrap src stack =
     bind_result (policy_paths src (ignore_user_and_project_exec_policy_rules stack) (layers_low_to_high stack))
       (\<lambda>paths. bind_result (parse_policy_files bops hp wrap src paths new_builder) (\<lambda>b.
          Inr (case requirements_policy stack of
            None \<Rightarrow> build_policy b
          | Some requirements \<Rightarrow> merge_overlay (build_policy b) requirements)))"

definition load_exec_policy_with_warning ::
    "'v builtin_ops \<Rightarrow> host_path_ops \<Rightarrow> (exec_error \<Rightarrow> exec_error) \<Rightarrow> 'v policy_source \<Rightarrow> config_stack
     \<Rightarrow> exec_policy_error + exec_policy \<times> exec_policy_error option" where
  "load_exec_policy_with_warning bops hp wrap src stack =
     (case load_exec_policy bops hp wrap src stack of
        Inr policy \<Rightarrow> Inr (policy, None)
      | Inl (ParsePolicyError path e) \<Rightarrow>
          Inr (case requirements_policy stack of None \<Rightarrow> empty_policy | Some p \<Rightarrow> p, Some (ParsePolicyError path e))
      | Inl e \<Rightarrow> Inl e)"

definition load_manager ::
    "'v builtin_ops \<Rightarrow> host_path_ops \<Rightarrow> (exec_error \<Rightarrow> exec_error) \<Rightarrow> 'v policy_source \<Rightarrow> config_stack
     \<Rightarrow> exec_policy_error + exec_policy_manager" where
  "load_manager bops hp wrap src stack =
     bind_result (load_exec_policy_with_warning bops hp wrap src stack) (\<lambda>(policy, warning). Inr (new_policy_manager policy))"

definition child_uses_parent_exec_policy :: "(prefix_rule \<Rightarrow> str) \<Rightarrow> config_stack \<Rightarrow> config_stack \<Rightarrow> bool" where
  "child_uses_parent_exec_policy debug parent child \<longleftrightarrow>
     (let folders = (\<lambda>stack. List.map_filter config_folder (layers_low_to_high stack)) in
      folders parent = folders child
      \<and> ignore_user_and_project_exec_policy_rules parent = ignore_user_and_project_exec_policy_rules child
      \<and> (case (requirements_policy parent, requirements_policy child) of
           (None, None) \<Rightarrow> True
         | (Some p, Some q) \<Rightarrow> requirements_eq debug p q
         | _ \<Rightarrow> False))"

end
