(* ===== verification/ExecManagerCorrect.thy ===== *)
theory ExecManagerCorrect
  imports ExecManager ExecPolicyCorrect DangerousCommandCorrect PermissionsCorrect
begin

text \<open>
  The approval of commands: a rule that forbids cannot be got round, a dangerous command is never
  run unseen, leaving the sandbox takes a rule for every command, and an executable that is not
  known gains nothing from what it seems to run. The manager keeps its rules filed and only adds
  to them.
\<close>

section \<open>The policy in force\<close>

lemma rule_pairs_keyed:
  "policy_keyed p \<Longrightarrow> (k, r) \<in> set (rule_pairs (rules_by_program p)) \<Longrightarrow> rule_program r = k"
  by (fastforce simp: rule_pairs_def policy_keyed_def by_prefix.well_keyed_def)

lemma collect_multimap_keyed:
  assumes "\<forall>(k, r) \<in> set ps. rule_program r = k"
  shows "by_prefix.well_keyed (collect_multimap ps)" and "rules_of (collect_multimap ps) = mset (map snd ps)"
proof -
  have "by_prefix.well_keyed (fold (\<lambda>(k, r) m. multimap_insert k r m) ps m)
      \<and> rules_of (fold (\<lambda>(k, r) m. multimap_insert k r m) ps m) = rules_of m + mset (map snd ps)"
    if "by_prefix.well_keyed m" for m
    using assms that
  proof (induction ps arbitrary: m)
    case (Cons x ps)
    then show ?case
      by (cases x) (simp add: well_keyed_insert multimap_insert_rules by_prefix.well_keyed_def [of m])
  qed simp
  from this [of "[]"] show "by_prefix.well_keyed (collect_multimap ps)"
    and "rules_of (collect_multimap ps) = mset (map snd ps)"
    by (simp_all add: collect_multimap_def rules_of_def by_prefix.well_keyed_def)
qed

lemma rule_pairs_rules: "map snd (rule_pairs m) = concat (map snd m)"
  by (induction m) (auto simp: rule_pairs_def comp_def)

lemma prefix_rules_keyed: "policy_keyed p \<Longrightarrow> policy_keyed (current_for_prefix_rules honor p)"
  using rule_pairs_keyed [of p]
  by (auto simp: current_for_prefix_rules_def policy_keyed_def intro!: collect_multimap_keyed(1))

lemma prefix_rules_all:
  assumes "policy_keyed p"
  shows "set (all_rules (current_for_prefix_rules honor p))
    = {r \<in> set (all_rules p). honor = Honor \<or> rule_decision r \<noteq> Allow}"
proof (cases "honor = Honor")
  case False
  let ?ps = "filter (\<lambda>(program, rule). rule_decision rule \<noteq> Allow) (rule_pairs (rules_by_program p))"
  have "rules_of (collect_multimap ?ps) = mset (map snd ?ps)"
    using rule_pairs_keyed [OF assms] by (intro collect_multimap_keyed(2)) auto
  then have "set (concat (map snd (collect_multimap ?ps))) = set (map snd ?ps)"
    unfolding rules_of_def by (metis set_mset_mset)
  also have "\<dots> = {r \<in> set (map snd (rule_pairs (rules_by_program p))). rule_decision r \<noteq> Allow}" by force
  finally show ?thesis
    using False by (simp add: current_for_prefix_rules_def all_rules_def rule_pairs_rules [symmetric])
qed (simp add: current_for_prefix_rules_def)

lemma environment_keyed:
  "policy_keyed p \<Longrightarrow> (\<And>q. env = Some q \<Longrightarrow> policy_keyed q) \<Longrightarrow> policy_keyed (current_for_environment env honor p)"
  by (auto simp: current_for_environment_def Let_def prefix_rules_keyed keyed_merge split: option.split)

lemma environment_all:
  assumes "policy_keyed p"
  shows "set (all_rules (current_for_environment env honor p))
    = {r \<in> set (all_rules p). honor = Honor \<or> rule_decision r \<noteq> Allow}
      \<union> (case env of Some q \<Rightarrow> set (all_rules q) | None \<Rightarrow> {})"
proof (cases env)
  case (Some q)
  with merge_overlay_rules [OF prefix_rules_keyed [OF assms], of honor q] prefix_rules_all [OF assms]
  show ?thesis by (simp add: current_for_environment_def Let_def) (metis set_mset_mset set_mset_union)
qed (simp add: current_for_environment_def Let_def prefix_rules_all [OF assms])

section \<open>The evaluation\<close>

abbreviation request_matches ::
    "approval_ops \<Rightarrow> exec_policy \<Rightarrow> exec_request \<Rightarrow> command_origin \<Rightarrow> danger_platform \<Rightarrow> str list \<Rightarrow> rule_match list" where
  "request_matches ops policy req origin platform c \<equiv>
     matches_for_command_with_options (host_paths ops) policy c (Some (request_fallback ops req origin platform)) True"

lemma check_multiple_total:
  assumes "cmds \<noteq> []"
  shows "check_multiple_with_options hp p cmds fb resolve =
    (let ms = concat (map (\<lambda>c. matches_for_command_with_options hp p c (Some fb) resolve) cmds) in
     Inr \<lparr>eval_decision = Max (match_decision ` set ms), matched_rules = ms\<rparr>)"
proof -
  have "concat (map (\<lambda>c. matches_for_command_with_options hp p c (Some fb) resolve) cmds) \<noteq> []"
    using assms matches_not_empty by (cases cmds) auto
  from from_matches_Max [OF this] show ?thesis by (simp add: check_multiple_with_options_def)
qed

lemma commands_for_exec_policy_not_empty: "fst (commands_for_exec_policy ops cmd platform) \<noteq> []"
  by (auto simp: commands_for_exec_policy_def split: option.split list.split)

text \<open>The requirement comes from an evaluation that holds the matches of every command.\<close>

definition evaluation_of ::
    "approval_ops \<Rightarrow> exec_policy \<Rightarrow> exec_request \<Rightarrow> str list list \<times> command_origin \<Rightarrow> danger_platform \<Rightarrow> evaluation" where
  "evaluation_of ops current req parsed platform =
     (let policy = current_for_environment (rq_environment req) (rq_allow_prefix_rules req) current;
          ms = concat (map (request_matches ops policy req (snd parsed) platform) (fst parsed)) in
      \<lparr>eval_decision = Max (match_decision ` set ms), matched_rules = ms\<rparr>)"

lemma requirement_evaluation:
  assumes "fst parsed \<noteq> []"
  shows "create_requirement_for_parsed_commands ops current req parsed platform =
    Inr (requirement_of_evaluation ops req
      (current_for_environment (rq_environment req) (rq_allow_prefix_rules req) current)
      (fst parsed) (snd parsed) platform (evaluation_of ops current req parsed platform))"
  using check_multiple_total [OF assms]
  by (cases parsed) (simp add: create_requirement_for_parsed_commands_def evaluation_of_def Let_def)

lemma evaluation_decision:
  assumes "fst parsed \<noteq> []"
  shows "\<exists>m \<in> set (matched_rules (evaluation_of ops current req parsed platform)).
      match_decision m = eval_decision (evaluation_of ops current req parsed platform)"
    and "m \<in> set (matched_rules (evaluation_of ops current req parsed platform)) \<Longrightarrow>
      match_decision m \<le> eval_decision (evaluation_of ops current req parsed platform)"
proof -
  let ?ms = "matched_rules (evaluation_of ops current req parsed platform)"
  have ne: "?ms \<noteq> []" using assms matches_not_empty by (cases "fst parsed") (auto simp: evaluation_of_def Let_def)
  have d: "eval_decision (evaluation_of ops current req parsed platform) = Max (match_decision ` set ?ms)"
    by (simp add: evaluation_of_def Let_def)
  show "\<exists>m \<in> set ?ms. match_decision m = eval_decision (evaluation_of ops current req parsed platform)"
    unfolding d using ne Max_in [of "match_decision ` set ?ms"] by fastforce
  show "m \<in> set ?ms \<Longrightarrow> match_decision m \<le> eval_decision (evaluation_of ops current req parsed platform)"
    unfolding d by simp
qed

text \<open>What the decision says of the requirement.\<close>

lemma requirement_decision:
  shows "eval_decision e = Forbidden \<Longrightarrow> \<exists>why. requirement_of_evaluation ops req policy cmds origin platform e = ForbiddenExec why"
    and "eval_decision e = Prompt \<Longrightarrow> rq_policy req = NeverAsk \<Longrightarrow>
      \<exists>why. requirement_of_evaluation ops req policy cmds origin platform e = ForbiddenExec why"
    and "requirement_of_evaluation ops req policy cmds origin platform e = SkipApproval b a \<Longrightarrow>
      eval_decision e = Allow \<and> b = all_explicitly_allowed ops policy cmds"
    and "requirement_of_evaluation ops req policy cmds origin platform e = NeedsApproval why am \<Longrightarrow>
      eval_decision e = Prompt \<and> rq_policy req \<noteq> NeverAsk"
  by (auto simp: requirement_of_evaluation_def Let_def prompt_is_rejected_by_policy_def
      split: decision.splits option.splits if_splits ask_for_approval.splits)

section \<open>An answer for every command\<close>

text \<open>The commands a request stands for, and the origin of their words.\<close>

definition request_commands ::
    "approval_ops \<Rightarrow> exec_request \<Rightarrow> str \<Rightarrow> unified_exec_shell_mode \<Rightarrow> danger_platform \<Rightarrow> str list list \<times> command_origin" where
  "request_commands ops req configured_shell shell_mode platform =
     (let cmd = rq_command req; executable = shell_approval_command cmd configured_shell shell_mode in
      if length executable = length cmd then commands_for_exec_policy ops cmd platform
      else (case policy_commands_for_shell ops cmd platform of (commands, origin) \<Rightarrow> (executable # commands, origin)))"

definition as_executable :: "exec_request \<Rightarrow> str \<Rightarrow> unified_exec_shell_mode \<Rightarrow> exec_request" where
  "as_executable req configured_shell shell_mode =
     (let executable = shell_approval_command (rq_command req) configured_shell shell_mode in
      if length executable = length (rq_command req) then req else req\<lparr>rq_command := executable\<rparr>)"

lemma request_commands_not_empty: "fst (request_commands ops req configured_shell shell_mode platform) \<noteq> []"
  by (simp add: request_commands_def Let_def commands_for_exec_policy_not_empty split: prod.split)

lemma shell_requirement:
  "create_exec_approval_requirement_for_shell ops current req configured_shell shell_mode platform =
     create_requirement_for_parsed_commands ops current (as_executable req configured_shell shell_mode)
       (request_commands ops req configured_shell shell_mode platform) platform"
  by (simp add: create_exec_approval_requirement_for_shell_def request_commands_def as_executable_def Let_def
      create_exec_approval_requirement_for_command_def split: prod.split)

lemma as_executable_sel [simp]:
  "rq_policy (as_executable req sh md) = rq_policy req"
  "rq_environment (as_executable req sh md) = rq_environment req"
  "rq_allow_prefix_rules (as_executable req sh md) = rq_allow_prefix_rules req"
  "request_fallback ops (as_executable req sh md) = request_fallback ops req"
  by (auto simp: as_executable_def Let_def request_fallback_def fun_eq_iff)

text \<open>Every request is answered: neither an empty command, nor a shell or script that cannot be
  read, nor an unfamiliar executable leaves the check of the policy without a match to decide, where
  the code would panic. A user who is never to be asked is not asked.\<close>

theorem approval_always_answers:
  "\<exists>r. create_exec_approval_requirement_for_shell ops current req configured_shell shell_mode platform = Inr r
     \<and> \<not> (rq_policy req = NeverAsk \<and> (\<exists>why amendment. r = NeedsApproval why amendment))"
  using requirement_evaluation [OF request_commands_not_empty] requirement_decision(4)
  by (fastforce simp: shell_requirement)

section \<open>Forbidden commands\<close>

abbreviation policy_for :: "exec_request \<Rightarrow> exec_policy \<Rightarrow> exec_policy" where
  "policy_for req current \<equiv> current_for_environment (rq_environment req) (rq_allow_prefix_rules req) current"

lemma evaluation_matches:
  "c \<in> set (fst parsed) \<Longrightarrow> m \<in> set (request_matches ops (policy_for req current) req (snd parsed) platform c) \<Longrightarrow>
     m \<in> set (matched_rules (evaluation_of ops current req parsed platform))"
  by (auto simp: evaluation_of_def Let_def)

lemma rule_match_decision: "rule_matches r c = Some m \<Longrightarrow> match_decision m = rule_decision r \<and> is_policy_match m"
  by (auto simp: rule_matches_def)

lemma matching_rule_decides:
  assumes "policy_keyed p" and "r \<in> set (all_rules p)" and "rule_matches r c \<noteq> None"
  shows "\<exists>m \<in> set (matches_for_command_with_options hp p c fb resolve).
    match_decision m = rule_decision r \<and> is_policy_match m"
proof -
  from assms(3) obtain m where m: "rule_matches r c = Some m" by blast
  with assms(2) have "m \<in> set (List.map_filter (\<lambda>r. rule_matches r c) (all_rules p))"
    by (force simp: map_filter_def)
  with matching_rule(1) [OF assms(1)] assms(2,3) rule_match_decision [OF m] show ?thesis by metis
qed

text \<open>C13. A rule that forbids cannot be got round: if a rule of the policy, or of the environment the
  command runs in, forbids a command that the request stands for, the request is refused, whatever
  the other commands and rules, the approval settings, the permissions asked for and the model.\<close>

theorem forbidding_rule_decides:
  assumes "policy_keyed current" and "\<And>q. rq_environment req = Some q \<Longrightarrow> policy_keyed q"
    and "c \<in> set (fst (request_commands ops req configured_shell shell_mode platform))"
    and "r \<in> set (all_rules current) \<or> (\<exists>q. rq_environment req = Some q \<and> r \<in> set (all_rules q))"
    and "rule_decision r = Forbidden" and "rule_matches r c \<noteq> None"
  shows "\<exists>why. create_exec_approval_requirement_for_shell ops current req configured_shell shell_mode platform
    = Inr (ForbiddenExec why)"
proof -
  let ?req = "as_executable req configured_shell shell_mode"
  let ?parsed = "request_commands ops req configured_shell shell_mode platform"
  let ?e = "evaluation_of ops current ?req ?parsed platform"
  have keyed: "policy_keyed (policy_for ?req current)" using environment_keyed assms(1,2) by auto
  have "r \<in> set (all_rules (policy_for ?req current))"
    using assms(4,5) environment_all [OF assms(1)] by auto
  from matching_rule_decides [OF keyed this assms(6)] evaluation_matches [OF assms(3), of _ ops ?req current]
  obtain m where "m \<in> set (matched_rules ?e)" "match_decision m = Forbidden"
    using assms(5) by (metis as_executable_sel(2,3))
  then have "eval_decision ?e = Forbidden"
    using evaluation_decision(2) [OF request_commands_not_empty] decision_bounds(2) by (metis order_antisym)
  from requirement_decision(1) [OF this] requirement_evaluation [OF request_commands_not_empty]
  show ?thesis by (simp add: shell_requirement)
qed

section \<open>Dangerous commands\<close>

lemma dangerous_not_allowed:
  assumes "dangerous_command_match_for_origin ops c origin platform \<noteq> None"
  shows "request_fallback ops req origin platform c = (if rq_policy req = NeverAsk then Forbidden else Prompt)"
  using assms by (auto simp: request_fallback_def render_decision_for_unmatched_command_def Let_def)

text \<open>C9. A dangerous command is never run unseen: if a command that the request stands for is
  dangerous and no rule of the policy speaks of it, the request is shown to the user or refused, and
  refused if the user is never to be asked. Neither an unrestricted sandbox nor rules for the other
  commands change this.\<close>

theorem dangerous_command_not_skipped:
  assumes "c \<in> set (fst (request_commands ops req configured_shell shell_mode platform))"
    and "matches_for_command_with_options (host_paths ops) (policy_for req current) c None True = []"
    and "dangerous_command_match_for_origin ops c
      (snd (request_commands ops req configured_shell shell_mode platform)) platform \<noteq> None"
    and "create_exec_approval_requirement_for_shell ops current req configured_shell shell_mode platform = Inr result"
  shows "(\<exists>why. result = ForbiddenExec why) \<or> rq_policy req \<noteq> NeverAsk \<and> (\<exists>why a. result = NeedsApproval why a)"
proof -
  let ?req = "as_executable req configured_shell shell_mode"
  let ?parsed = "request_commands ops req configured_shell shell_mode platform"
  let ?e = "evaluation_of ops current ?req ?parsed platform"
  let ?d = "if rq_policy req = NeverAsk then Forbidden else Prompt"
  have "request_matches ops (policy_for ?req current) ?req (snd ?parsed) platform c = [HeuristicsRuleMatch c ?d]"
    using assms(2) dangerous_not_allowed [OF assms(3)]
    by (simp add: matches_for_command_with_options_def Let_def split: list.splits option.splits if_splits)
  then have "HeuristicsRuleMatch c ?d \<in> set (matched_rules ?e)"
    by (intro evaluation_matches [OF assms(1)]) simp
  from evaluation_decision(2) [OF request_commands_not_empty this]
  have "?d \<le> eval_decision ?e" unfolding match_decision.simps .
  then have "eval_decision ?e \<noteq> Allow" "rq_policy req = NeverAsk \<longrightarrow> eval_decision ?e = Forbidden"
    by (cases "eval_decision ?e"; simp add: less_eq_decision_def split: if_splits)+
  moreover have "result = requirement_of_evaluation ops ?req (policy_for ?req current) (fst ?parsed) (snd ?parsed) platform ?e"
    using assms(4) requirement_evaluation [OF request_commands_not_empty] by (simp add: shell_requirement)
  ultimately show ?thesis
    using requirement_decision(3,4) as_executable_sel(1) by (cases result) (metis, metis, blast)
qed

section \<open>Leaving the sandbox\<close>

lemma skip_evaluation:
  assumes "fst parsed \<noteq> []"
    and "create_requirement_for_parsed_commands ops current req parsed platform = Inr (SkipApproval b a)"
  shows "eval_decision (evaluation_of ops current req parsed platform) = Allow"
    and "b = all_explicitly_allowed ops (policy_for req current) (fst parsed)"
  using assms requirement_evaluation [OF assms(1)] requirement_decision(3) by fastforce+

lemma allow_least [simp]: "d \<le> Allow \<longleftrightarrow> d = Allow"
  by (cases d) (simp_all add: less_eq_decision_def)

text \<open>C7. A command leaves the sandbox without a question only by the rules: if the requirement for a
  request is to skip the approval and the sandbox, every command it stands for has a rule that allows
  it, and no rule of the policy or of the environment that speaks of one of them is stricter.\<close>

theorem bypass_needs_explicit_rules:
  assumes "policy_keyed current" and "\<And>q. rq_environment req = Some q \<Longrightarrow> policy_keyed q"
    and "create_exec_approval_requirement_for_shell ops current req configured_shell shell_mode platform
      = Inr (SkipApproval True amendment)"
    and "c \<in> set (fst (request_commands ops req configured_shell shell_mode platform))"
  shows "(\<exists>m \<in> set (matches_for_command_with_options (host_paths ops) (policy_for req current) c None True).
            is_policy_match m \<and> match_decision m = Allow)
    \<and> list_all (\<lambda>r. rule_matches r c = None \<or> rule_decision r = Allow) (all_rules (policy_for req current))"
proof
  let ?req = "as_executable req configured_shell shell_mode"
  let ?parsed = "request_commands ops req configured_shell shell_mode platform"
  let ?e = "evaluation_of ops current ?req ?parsed platform"
  note skip = skip_evaluation [OF request_commands_not_empty assms(3) [unfolded shell_requirement]]
  from skip(2) assms(4)
  show "\<exists>m \<in> set (matches_for_command_with_options (host_paths ops) (policy_for req current) c None True).
      is_policy_match m \<and> match_decision m = Allow"
    by (simp add: all_explicitly_allowed_def list_all_iff list_ex_iff)
  have keyed: "policy_keyed (policy_for ?req current)" using environment_keyed assms(1,2) by auto
  have "rule_decision r = Allow" if r: "r \<in> set (all_rules (policy_for req current))" "rule_matches r c \<noteq> None" for r
  proof -
    from r have "r \<in> set (all_rules (policy_for ?req current))" by simp
    from matching_rule_decides [OF keyed this r(2)] evaluation_matches [OF assms(4), of _ ops ?req current]
    obtain m where "m \<in> set (matched_rules ?e)" "match_decision m = rule_decision r" by blast
    with evaluation_decision(2) [OF request_commands_not_empty] skip(1) show ?thesis by (metis allow_least)
  qed
  then show "list_all (\<lambda>r. rule_matches r c = None \<or> rule_decision r = Allow) (all_rules (policy_for req current))"
    unfolding list_all_iff by blast
qed

text \<open>C17. An unfamiliar executable gains nothing from the script it is given: if it is neither the
  configured shell nor one of the system and the request is still allowed without a question, then
  the executable alone, without arguments, would be allowed too, and outside of the sandbox if the
  request is.\<close>

theorem unfamiliar_executable_not_trusted:
  assumes "shell_approval_command (rq_command req) configured_shell shell_mode \<noteq> rq_command req"
    and "create_exec_approval_requirement_for_shell ops current req configured_shell shell_mode platform
      = Inr (SkipApproval bypass amendment)"
  shows "\<exists>bypass' amendment'. create_requirement_for_parsed_commands ops current
      (req\<lparr>rq_command := [hd (rq_command req)]\<rparr>)
      ([[hd (rq_command req)]], snd (request_commands ops req configured_shell shell_mode platform)) platform
      = Inr (SkipApproval bypass' amendment') \<and> (bypass \<longrightarrow> bypass')"
proof -
  let ?req = "as_executable req configured_shell shell_mode"
  let ?parsed = "request_commands ops req configured_shell shell_mode platform"
  let ?exe = "[hd (rq_command req)]"
  from assms(1) have exe: "shell_approval_command (rq_command req) configured_shell shell_mode = ?exe"
    "length ?exe \<noteq> length (rq_command req)"
    by (auto simp: shell_approval_command_def length_Suc_conv split: list.splits if_splits)
  then have len: "length (shell_approval_command (rq_command req) configured_shell shell_mode)
      \<noteq> length (rq_command req)" by simp
  have req: "?req = req\<lparr>rq_command := ?exe\<rparr>" and first: "?exe \<in> set (fst ?parsed)"
    unfolding as_executable_def request_commands_def Let_def if_not_P [OF len]
    by (simp_all add: exe(1) split: prod.split)
  note skip = skip_evaluation [OF request_commands_not_empty assms(2) [unfolded shell_requirement]]
  let ?e = "evaluation_of ops current ?req ?parsed platform"
  let ?one = "evaluation_of ops current ?req ([?exe], snd ?parsed) platform"
  obtain m where m: "m \<in> set (matched_rules ?one)" "match_decision m = eval_decision ?one"
    using evaluation_decision(1) [of "([?exe], snd ?parsed)" ops current ?req platform] by auto
  from m(1) first have "m \<in> set (matched_rules ?e)" by (auto simp: evaluation_of_def Let_def)
  from evaluation_decision(2) [OF request_commands_not_empty this] m(2) skip(1)
  have "eval_decision ?one \<le> Allow" by simp
  then have "eval_decision ?one = Allow" by simp
  moreover have "bypass \<longrightarrow> all_explicitly_allowed ops (policy_for ?req current) [?exe]"
    using skip(2) first by (auto simp: all_explicitly_allowed_def list_all_iff)
  ultimately show ?thesis
    using requirement_evaluation [of "([?exe], snd ?parsed)" ops current ?req platform] unfolding req [symmetric]
    by (simp add: requirement_of_evaluation_def)
qed

section \<open>A sample\<close>

definition sample_approval_ops :: approval_ops where
  "sample_approval_ops = \<lparr>danger = sample_danger_ops, parse_ps = (\<lambda>s. None), host_paths = no_paths,
     join_words = (\<lambda>ws. None), codec = plain_codec, native = PosixPath\<rparr>"

definition sample_request :: "str list \<Rightarrow> exec_request" where
  "sample_request cmd = \<lparr>rq_command = cmd, rq_policy = OnRequest, rq_profile = Managed (ManagedRestricted [] None) NetworkRestricted,
     rq_environment = None, rq_windows_level = WindowsSandboxDisabled, rq_permissions = UseDefault,
     rq_prefix_rule = None, rq_allow_prefix_rules = Honor\<rparr>"

text \<open>\<open>git push\<close> and a rule that forbids it.\<close>

theorem forbidding_rule_decides_witness:
  "\<exists>why. create_exec_approval_requirement_for_shell sample_approval_ops sample_overlay
     (sample_request [lit ''git'', lit ''push'']) (lit ''/bin/bash'') DirectShell Posix = Inr (ForbiddenExec why)"
proof -
  obtain r where r: "r \<in> set (all_rules sample_overlay)" "rule_decision r = Forbidden"
    "rule_matches r [lit ''git'', lit ''push''] \<noteq> None"
  proof -
    have "list_ex (\<lambda>r. rule_decision r = Forbidden \<and> rule_matches r [lit ''git'', lit ''push''] \<noteq> None)
      (all_rules sample_overlay)" by code_simp
    then show thesis using that by (auto simp: list_ex_iff)
  qed
  show ?thesis
  proof (rule forbidding_rule_decides [OF sample_keyed(2) _ _ _ r(2,3)])
    show "[lit ''git'', lit ''push''] \<in> set (fst (request_commands sample_approval_ops
        (sample_request [lit ''git'', lit ''push'']) (lit ''/bin/bash'') DirectShell Posix))" by code_simp
  qed (use r(1) in \<open>simp_all add: sample_request_def\<close>)
qed

text \<open>The script \<open>ls; rm -f x\<close>.\<close>

theorem dangerous_command_not_skipped_witness:
  "\<exists>why a. create_exec_approval_requirement_for_shell sample_approval_ops sample_base
     (sample_request sample_shell_command) (lit ''/bin/bash'') DirectShell Posix = Inr (NeedsApproval why a)"
proof -
  let ?req = "sample_request sample_shell_command"
  obtain result where result: "create_exec_approval_requirement_for_shell sample_approval_ops sample_base
      ?req (lit ''/bin/bash'') DirectShell Posix = Inr result" "\<not> (\<exists>why. result = ForbiddenExec why)"
  proof -
    have "case create_exec_approval_requirement_for_shell sample_approval_ops sample_base
        ?req (lit ''/bin/bash'') DirectShell Posix of
          Inr r \<Rightarrow> (case r of ForbiddenExec why \<Rightarrow> False | _ \<Rightarrow> True) | Inl e \<Rightarrow> False" by code_simp
    then show thesis using that by (auto split: sum.splits exec_approval_requirement.splits)
  qed
  have "(\<exists>why. result = ForbiddenExec why) \<or> rq_policy ?req \<noteq> NeverAsk \<and> (\<exists>why a. result = NeedsApproval why a)"
  proof (rule dangerous_command_not_skipped [OF _ _ _ result(1)])
    show "[lit ''rm'', lit ''-f'', lit ''x''] \<in> set (fst (request_commands sample_approval_ops ?req (lit ''/bin/bash'') DirectShell Posix))"
      by code_simp
  qed code_simp+
  with result show ?thesis by blast
qed

text \<open>\<open>ls\<close>, which a rule allows.\<close>

theorem bypass_needs_explicit_rules_witness:
  "list_all (\<lambda>r. rule_matches r [lit ''ls''] = None \<or> rule_decision r = Allow)
     (all_rules (policy_for (sample_request [lit ''ls'']) sample_base))"
proof -
  have skip: "create_exec_approval_requirement_for_shell sample_approval_ops sample_base
      (sample_request [lit ''ls'']) (lit ''/bin/bash'') DirectShell Posix = Inr (SkipApproval True None)" by code_simp
  have c: "[lit ''ls''] \<in> set (fst (request_commands sample_approval_ops (sample_request [lit ''ls''])
      (lit ''/bin/bash'') DirectShell Posix))" by code_simp
  from bypass_needs_explicit_rules [OF sample_keyed(1) _ skip c] show ?thesis
    by (auto simp: sample_request_def)
qed

text \<open>\<open>ls -a\<close> from an unfamiliar place: the rule for \<open>ls\<close> alone allows it.\<close>

theorem unfamiliar_executable_not_trusted_witness:
  "\<exists>bypass' amendment'. create_requirement_for_parsed_commands sample_approval_ops sample_base
      (sample_request [lit ''ls'']) ([[lit ''ls'']], GenericOrigin) Posix = Inr (SkipApproval bypass' amendment') \<and> bypass'"
proof -
  let ?req = "sample_request [lit ''ls'', lit ''-a'']"
  have "shell_approval_command (rq_command ?req) (lit ''/bin/bash'') DirectShell \<noteq> rq_command ?req"
    and "create_exec_approval_requirement_for_shell sample_approval_ops sample_base ?req (lit ''/bin/bash'') DirectShell Posix
      = Inr (SkipApproval True None)"
    and "snd (request_commands sample_approval_ops ?req (lit ''/bin/bash'') DirectShell Posix) = GenericOrigin"
    by code_simp+
  from unfamiliar_executable_not_trusted [OF this(1,2)] this(3) show ?thesis by (simp add: sample_request_def)
qed

end
