(* ===== verification/ExecManagerUpdates.thy ===== *)
theory ExecManagerUpdates
  imports ExecManagerCorrect ExecAmendCorrect
begin

text \<open>
  What answers of the user change: an accepted amendment ends the questions for its command, and no
  sequence of updates loses a rule or makes the policy milder where it spoke before.
\<close>

section \<open>Matches with and without a rule\<close>

text \<open>The matches of rules under the first word of a command.\<close>

definition exact :: "exec_policy \<Rightarrow> str list \<Rightarrow> rule_match list" where
  "exact p c = (case c of [] \<Rightarrow> [] | f # as \<Rightarrow>
     (case map_of (rules_by_program p) f of
        Some rs \<Rightarrow> List.map_filter (\<lambda>r. rule_matches r c) rs | None \<Rightarrow> []))"

text \<open>The name of the executable and its path, where its rules apply.\<close>

definition host_name :: "host_path_ops \<Rightarrow> exec_policy \<Rightarrow> str \<Rightarrow> (str \<times> str) option" where
  "host_name hp p f = Option.bind (absolute_path hp f) (\<lambda>program.
     Option.bind (executable_path_lookup_key hp program) (\<lambda>b.
       if (case map_of (host_executables_by_name p) b of
             Some paths \<Rightarrow> \<not> list_ex (\<lambda>path. path = program) paths | None \<Rightarrow> False)
       then None else Some (b, program)))"

lemma host_exact:
  "match_host_executable_rules hp p (f # as) =
     (case host_name hp p f of None \<Rightarrow> [] | Some (b, program) \<Rightarrow> map (with_resolved_program program) (exact p (b # as)))"
  by (auto simp: match_host_executable_rules_def host_name_def exact_def split: option.splits)

abbreviation rule_matches_of :: "host_path_ops \<Rightarrow> exec_policy \<Rightarrow> str list \<Rightarrow> rule_match list" where
  "rule_matches_of hp p c \<equiv> matches_for_command_with_options hp p c None True"

lemma rule_matches_of_cases:
  "rule_matches_of hp p c = (if exact p c \<noteq> [] then exact p c else match_host_executable_rules hp p c)"
  by (auto simp: matches_for_command_with_options_def match_exact_rules_def exact_def Let_def
      split: list.splits option.splits)

lemma matches_with_fallback:
  "matches_for_command_with_options hp p c (Some fb) True =
     (if rule_matches_of hp p c = [] then [HeuristicsRuleMatch c (fb c)] else rule_matches_of hp p c)"
  by (auto simp: matches_for_command_with_options_def Let_def split: list.splits option.splits)

lemma exact_policy_match: "m \<in> set (exact p c) \<Longrightarrow> is_policy_match m"
  by (auto simp: exact_def map_filter_def rule_matches_def split: list.splits option.splits)

lemma resolved_match [simp]:
  "is_policy_match (with_resolved_program program m) = is_policy_match m"
  "match_decision (with_resolved_program program m) = match_decision m"
  by (cases m; simp)+

lemma host_matches:
  assumes "m \<in> set (match_host_executable_rules hp p c)"
  obtains f as b program m' where "c = f # as" "host_name hp p f = Some (b, program)"
    "m' \<in> set (exact p (b # as))" "m = with_resolved_program program m'"
proof -
  from assms obtain f as where c: "c = f # as" by (cases c) (auto simp: match_host_executable_rules_def)
  from assms that show thesis unfolding c host_exact by (cases "host_name hp p f") auto
qed

lemma rule_match_is_policy: "m \<in> set (rule_matches_of hp p c) \<Longrightarrow> is_policy_match m"
  by (auto simp: rule_matches_of_cases dest: exact_policy_match elim!: host_matches split: if_splits)

section \<open>One more rule\<close>

lemma exact_insert:
  "exact (insert_rule t r p) c = exact p c
     @ (if c \<noteq> [] \<and> hd c = t then (case rule_matches r c of Some m \<Rightarrow> [m] | None \<Rightarrow> []) else [])"
proof (cases c)
  case (Cons f as)
  have "List.map_filter g (xs @ [r]) = List.map_filter g xs @ (case g r of Some m \<Rightarrow> [m] | None \<Rightarrow> [])"
    for g :: "prefix_rule \<Rightarrow> rule_match option" and xs
    by (cases "g r") (simp_all add: map_filter_def)
  with Cons show ?thesis
    by (cases "map_of (rules_by_program p) f")
       (auto simp: exact_def insert_rule_def map_of_multimap_insert map_filter_simps)
qed (simp add: exact_def)

lemma exact_insert_new:
  assumes "exact p c = []" and "m \<in> set (exact (insert_rule t r p) c)"
  shows "rule_matches r c = Some m"
proof -
  have m: "m \<in> set (if c \<noteq> [] \<and> hd c = t then (case rule_matches r c of Some m \<Rightarrow> [m] | None \<Rightarrow> []) else [])"
    using assms(2) unfolding exact_insert assms(1) append_Nil .
  show ?thesis
  proof (cases "c \<noteq> [] \<and> hd c = t")
    case True
    show ?thesis using m [unfolded if_P [OF True]] by (cases "rule_matches r c") auto
  next
    case False
    show ?thesis using m [unfolded if_not_P [OF False]] by simp
  qed
qed

lemma host_name_insert [simp]: "host_name hp (insert_rule t r p) = host_name hp p"
  by (simp add: host_name_def insert_rule_def fun_eq_iff)

lemma insert_only:
  assumes "rule_matches_of hp p c = []" and "m \<in> set (rule_matches_of hp (insert_rule t r p) c)"
  shows "match_decision m = rule_decision r"
proof -
  from assms(1) have none: "exact p c = []" and host: "match_host_executable_rules hp p c = []"
    by (auto simp: rule_matches_of_cases split: if_splits)
  from assms(2) consider "m \<in> set (exact (insert_rule t r p) c)" | "m \<in> set (match_host_executable_rules hp (insert_rule t r p) c)"
    by (auto simp: rule_matches_of_cases split: if_splits)
  then show ?thesis
  proof cases
    case 1
    from rule_match_decision [OF exact_insert_new [OF none this]] show ?thesis by simp
  next
    case 2
    then obtain f as b program m' where m: "c = f # as" "host_name hp p f = Some (b, program)"
      "m' \<in> set (exact (insert_rule t r p) (b # as))" "m = with_resolved_program program m'"
      by (auto elim!: host_matches)
    with host have "exact p (b # as) = []" by (simp add: host_exact)
    from rule_match_decision [OF exact_insert_new [OF this m(3)]] m(4) show ?thesis by simp
  qed
qed

text \<open>The rule of an amendment matches what begins with its words.\<close>

definition amendment_rule :: "str list \<Rightarrow> prefix_rule" where
  "amendment_rule ws = \<lparr>rule_pattern = \<lparr>first_token = hd ws, rest_tokens = map SingleToken (tl ws)\<rparr>,
     rule_decision = Allow, rule_justification = None\<rparr>"

lemma add_amendment: "ws \<noteq> [] \<Longrightarrow> add_prefix_rule ws Allow p = Inr (insert_rule (hd ws) (amendment_rule ws) p)"
  by (cases ws) (simp_all add: add_prefix_rule_def amendment_rule_def)

lemma amendment_matches:
  assumes "ws \<noteq> []"
  shows "rule_matches (amendment_rule ws) c \<noteq> None \<longleftrightarrow> (\<exists>xs. c = ws @ xs)"
proof -
  from assms obtain w ws' where ws: "ws = w # ws'" by (cases ws) auto
  have "rule_matches (amendment_rule ws) c \<noteq> None \<longleftrightarrow> length ws \<le> length c \<and> hd c = w
      \<and> (\<forall>i < length ws'. ws' ! i = c ! Suc i)"
    by (auto simp: rule_matches_def amendment_rule_def matches_prefix_Some_iff ws)
  also have "\<dots> \<longleftrightarrow> length ws \<le> length c \<and> (\<forall>i < length ws. ws ! i = c ! i)"
    by (cases c) (auto simp: ws All_less_Suc2)
  also have "\<dots> \<longleftrightarrow> (\<exists>xs. c = ws @ xs)"
  proof
    assume same: "length ws \<le> length c \<and> (\<forall>i < length ws. ws ! i = c ! i)"
    then have "take (length ws) c = ws" by (intro nth_equalityI) simp_all
    then show "\<exists>xs. c = ws @ xs" by (metis append_take_drop_id)
  qed (auto simp: nth_append)
  finally show ?thesis .
qed

lemma rule_matches_append: "rule_matches r ws \<noteq> None \<Longrightarrow> rule_matches r (ws @ xs) \<noteq> None"
  by (cases ws) (auto simp: rule_matches_def matches_prefix_Some_iff nth_append)

lemma exact_not_empty:
  "exact p c \<noteq> [] \<longleftrightarrow> c \<noteq> [] \<and> (\<exists>rs r. map_of (rules_by_program p) (hd c) = Some rs \<and> r \<in> set rs \<and> rule_matches r c \<noteq> None)"
  by (cases c) (auto simp: exact_def map_filter_def filter_empty_conv split: option.splits)

lemma exact_append: "exact p ws \<noteq> [] \<Longrightarrow> exact p (ws @ xs) \<noteq> []"
  unfolding exact_not_empty using rule_matches_append by fastforce

text \<open>A file name is not an absolute path.\<close>

definition names_are_relative :: "host_path_ops \<Rightarrow> bool" where
  "names_are_relative hp \<longleftrightarrow> (\<forall>p n. path_file_name hp p = Some n \<longrightarrow> absolute_path hp n = None)"

lemma host_name_relative: "names_are_relative hp \<Longrightarrow> host_name hp p f = Some (b, program) \<Longrightarrow> host_name hp p b = None"
  by (auto simp: host_name_def names_are_relative_def executable_path_lookup_key_def executable_lookup_key_def
      bind_eq_Some_conv split: if_splits)

text \<open>If the words of a rule are matched already, so is every command the rule would match.\<close>

lemma matched_before:
  assumes rel: "names_are_relative hp" and ws: "ws \<noteq> []" and before: "rule_matches_of hp p ws \<noteq> []"
    and after: "rule_matches_of hp (insert_rule (hd ws) (amendment_rule ws) p) c \<noteq> []"
  shows "rule_matches_of hp p c \<noteq> []"
proof
  assume "rule_matches_of hp p c = []"
  then have none: "exact p c = []" "match_host_executable_rules hp p c = []"
    by (auto simp: rule_matches_of_cases split: if_splits)
  have exact_new: "\<exists>xs. d = ws @ xs" if "exact (insert_rule (hd ws) (amendment_rule ws) p) d \<noteq> []" "exact p d = []" for d
    using that amendment_matches [OF ws, of d] by (auto simp: exact_insert split: if_splits)
  have host_before: "\<exists>f as b program. ws = f # as \<and> host_name hp p f = Some (b, program) \<and> exact p (b # as) \<noteq> []"
    if "exact p ws = []"
    using before that ws by (cases ws) (auto simp: rule_matches_of_cases host_exact split: option.splits)
  show False
  proof (cases "exact (insert_rule (hd ws) (amendment_rule ws) p) c = []")
    case False
    with exact_new none(1) obtain xs where c: "c = ws @ xs" by blast
    with exact_append none(1) have "exact p ws = []" by blast
    from host_before [OF this] obtain f as b program
      where f: "ws = f # as" "host_name hp p f = Some (b, program)" "exact p (b # as) \<noteq> []" by blast
    from exact_append [OF f(3), of xs] none(2) f(1,2) c show False by (simp add: host_exact)
  next
    case True
    with after have "match_host_executable_rules hp (insert_rule (hd ws) (amendment_rule ws) p) c \<noteq> []"
      by (simp add: rule_matches_of_cases)
    then obtain f as b program where f: "c = f # as" "host_name hp p f = Some (b, program)"
      "exact (insert_rule (hd ws) (amendment_rule ws) p) (b # as) \<noteq> []"
      using host_matches [OF last_in_set] by (metis empty_iff host_name_insert list.set(1))
    with none(2) have "exact p (b # as) = []" by (simp add: host_exact)
    with exact_new [OF f(3)] obtain xs where b: "b # as = ws @ xs" by blast
    with exact_append \<open>exact p (b # as) = []\<close> have "exact p ws = []" by metis
    from host_before [OF this] b obtain program' b' where "host_name hp p b = Some (b', program')" by auto
    with host_name_relative [OF rel f(2)] show False by simp
  qed
qed

section \<open>An accepted amendment\<close>

lemma single_evaluation:
  "matched_rules (evaluation_of ops p req ([c], origin) platform)
     = request_matches ops (policy_for req p) req origin platform c"
  by (simp add: evaluation_of_def Let_def)

lemma single_requirement:
  "create_requirement_for_parsed_commands ops p req ([c], origin) platform =
     Inr (requirement_of_evaluation ops req (policy_for req p) [c] origin platform
       (evaluation_of ops p req ([c], origin) platform))"
  using requirement_evaluation [of "([c], origin)"] by simp

text \<open>What a proposal for one command says: no rule speaks of it, and it would be allowed with the proposal.\<close>

lemma proposal_facts:
  assumes "create_requirement_for_parsed_commands ops p req ([c], origin) platform = Inr (NeedsApproval why (Some ws))"
  shows "rule_matches_of (host_paths ops) (policy_for req p) c = []"
    and "request_fallback ops req origin platform c = Prompt"
    and "ws = c \<or> ws \<noteq> [] \<and> is_allowed (check_with_options (host_paths ops)
      (insert_rule (hd ws) (amendment_rule ws) (policy_for req p)) c (request_fallback ops req origin platform) True)"
    and "rq_allow_prefix_rules req = Honor"
proof -
  let ?p = "policy_for req p" and ?e = "evaluation_of ops p req ([c], origin) platform"
  let ?fb = "request_fallback ops req origin platform"
  have req: "requirement_of_evaluation ops req ?p [c] origin platform ?e = NeedsApproval why (Some ws)"
    using assms by (simp add: single_requirement)
  then show honor: "rq_allow_prefix_rules req = Honor" by (auto simp: requirement_of_evaluation_def Let_def
      split: decision.splits option.splits if_splits)
  have prompt: "eval_decision ?e = Prompt" using requirement_decision(4) [OF req] by simp
  from req prompt honor consider
      "derive_requested_execpolicy_amendment_from_prefix_rule ops (rq_prefix_rule req) (matched_rules ?e) ?p [c] ?fb = Some ws"
    | "try_derive_execpolicy_amendment_for_prompt_rules (matched_rules ?e) = Some ws"
    by (auto simp: requirement_of_evaluation_def Let_def split: option.splits if_splits)
  then have "rule_matches_of (host_paths ops) ?p c = [] \<and> (ws = c \<or> ws \<noteq> []
      \<and> is_allowed (check_with_options (host_paths ops) (insert_rule (hd ws) (amendment_rule ws) ?p) c ?fb True))"
  proof cases
    case 1
    then have "\<not> list_ex is_policy_match (matched_rules ?e)" "ws \<noteq> []"
      "prefix_rule_would_approve_all_commands ops ?p ws [c] ?fb"
      by (auto simp: derive_requested_execpolicy_amendment_from_prefix_rule_def bind_eq_Some_conv split: if_splits)
    moreover have "rule_matches_of (host_paths ops) ?p c = []"
    proof (rule ccontr)
      assume some: "rule_matches_of (host_paths ops) ?p c \<noteq> []"
      with last_in_set [OF some] rule_match_is_policy \<open>\<not> list_ex is_policy_match (matched_rules ?e)\<close>
      show False by (auto simp: single_evaluation matches_with_fallback list_ex_iff)
    qed
    ultimately show ?thesis by (simp add: prefix_rule_would_approve_all_commands_def add_amendment)
  next
    case 2
    then have no: "\<not> (\<exists>m \<in> set (matched_rules ?e). is_policy_match m \<and> match_decision m = Prompt)"
      by (auto simp: try_derive_execpolicy_amendment_for_prompt_rules_def list_ex_iff split: if_splits)
    have "rule_matches_of (host_paths ops) ?p c = []"
    proof (rule ccontr)
      assume some: "rule_matches_of (host_paths ops) ?p c \<noteq> []"
      obtain m where m: "m \<in> set (matched_rules ?e)" "match_decision m = Prompt"
        using evaluation_decision(1) [of "([c], origin)" ops p req platform] prompt by auto
      with some rule_match_is_policy have "is_policy_match m" by (auto simp: single_evaluation matches_with_fallback)
      with m no show False by blast
    qed
    with 2 show ?thesis
      by (auto simp: single_evaluation matches_with_fallback try_derive_execpolicy_amendment_for_prompt_rules_def split: if_splits)
  qed
  then show none: "rule_matches_of (host_paths ops) ?p c = []"
    and "ws = c \<or> ws \<noteq> [] \<and> is_allowed (check_with_options (host_paths ops)
      (insert_rule (hd ws) (amendment_rule ws) ?p) c ?fb True)" by blast+
  show "?fb c = Prompt"
    using evaluation_decision(1) [of "([c], origin)" ops p req platform] prompt none
    by (auto simp: single_evaluation matches_with_fallback)
qed

lemma rule_allows_command:
  assumes "rule_matches_of (host_paths ops) (policy_for req p') c = ms" and "ms \<noteq> []" and "\<forall>m \<in> set ms. match_decision m = Allow"
  shows "create_requirement_for_parsed_commands ops p' req ([c], origin) platform = Inr (SkipApproval True None)"
proof -
  let ?e = "evaluation_of ops p' req ([c], origin) platform"
  have ms: "matched_rules ?e = ms" using assms(1,2) by (simp add: single_evaluation matches_with_fallback)
  have policy: "\<forall>m \<in> set ms. is_policy_match m" using rule_match_is_policy assms(1) by blast
  have "eval_decision ?e = Allow"
    using evaluation_decision(1) [of "([c], origin)" ops p' req platform] assms(3) ms by auto
  moreover have "list_ex (\<lambda>m. is_policy_match m \<and> match_decision m = Allow) ms"
    using assms(3) policy last_in_set [OF assms(2)] by (auto simp: list_ex_iff)
  then have "all_explicitly_allowed ops (policy_for req p') [c]" by (simp add: all_explicitly_allowed_def assms(1))
  moreover have "try_derive_execpolicy_amendment_for_allow_rules ms = None"
    using policy last_in_set [OF assms(2)] by (auto simp: try_derive_execpolicy_amendment_for_allow_rules_def list_ex_iff)
  ultimately show ?thesis by (simp add: single_requirement requirement_of_evaluation_def Let_def ms)
qed


section \<open>Sequences of updates\<close>

text \<open>Updates of the manager, and changes of the disk between them.\<close>

inductive manager_update ::
    "host_path_ops \<Rightarrow> json_ops \<Rightarrow> (str \<Rightarrow> 's policy_file_ops) \<Rightarrow> str
     \<Rightarrow> exec_policy_manager \<times> 's \<Rightarrow> exec_policy_manager \<times> 's \<Rightarrow> bool"
  for hp :: host_path_ops and js :: json_ops and files :: "str \<Rightarrow> 's policy_file_ops" and home :: str where
  amended: "append_amendment_and_update hp js files home a st = (st', result) \<Longrightarrow> manager_update hp js files home st st'"
| network_amended: "append_network_rule_and_update js files home host protocol d j st = (st', result) \<Longrightarrow>
    manager_update hp js files home st st'"
| disk_changed: "manager_update hp js files home (mgr, s) (mgr, s')"

text \<open>What updates add to a policy.\<close>

definition only_allows_added :: "exec_policy \<Rightarrow> exec_policy \<Rightarrow> bool" where
  "only_allows_added p q \<longleftrightarrow> policy_keyed q \<and> (\<exists>added. mset (all_rules q) = mset (all_rules p) + added
     \<and> (\<forall>r \<in># added. rule_decision r = Allow))"

lemma only_allows_refl: "policy_keyed p \<Longrightarrow> only_allows_added p p"
  by (auto simp: only_allows_added_def intro!: exI [of _ "{#}"])

lemma only_allows_trans: "only_allows_added p q \<Longrightarrow> only_allows_added q r \<Longrightarrow> only_allows_added p r"
  unfolding only_allows_added_def by (metis add.assoc union_iff)

lemma insert_allow:
  assumes "policy_keyed p"
  shows "only_allows_added p (insert_rule (hd ws) (amendment_rule ws) p)"
proof -
  have "rules_of (multimap_insert (hd ws) (amendment_rule ws) (rules_by_program p))
      = add_mset (amendment_rule ws) (rules_of (rules_by_program p))"
    using assms by (intro multimap_insert_rules) (simp add: policy_keyed_def by_prefix.well_keyed_def)
  then have "mset (all_rules (insert_rule (hd ws) (amendment_rule ws) p)) = mset (all_rules p) + {#amendment_rule ws#}"
    by (simp add: all_rules_def rules_of_def insert_rule_def)
  moreover have "policy_keyed (insert_rule (hd ws) (amendment_rule ws) p)"
    using assms by (intro keyed_insert_rule) (simp_all add: rule_program_def amendment_rule_def)
  ultimately show ?thesis unfolding only_allows_added_def
    by (intro conjI exI [of _ "{#amendment_rule ws#}"]) (simp_all add: amendment_rule_def)
qed

lemma update_adds:
  assumes "manager_update hp js files home st st'" and "policy_keyed (manager_policy (fst st))"
  shows "only_allows_added (manager_policy (fst st)) (manager_policy (fst st'))"
  using assms(1)
proof cases
  case (amended a result)
  obtain mgr s where st: "st = (mgr, s)" by fastforce
  have "fst st' = mgr \<or> a \<noteq> [] \<and> manager_policy (fst st') = insert_rule (hd a) (amendment_rule a) (manager_policy mgr)"
    using amended unfolding st
    by (cases "a = []")
       (auto simp: append_amendment_and_update_def blocking_append_allow_prefix_rule_def add_amendment Let_def
         split: if_splits prod.splits sum.splits)
  with assms(2) st show ?thesis by (auto intro: only_allows_refl insert_allow)
next
  case (network_amended host protocol d j result)
  obtain mgr s where st: "st = (mgr, s)" by fastforce
  have "rules_by_program (manager_policy (fst st')) = rules_by_program (manager_policy mgr)"
    using network_amended unfolding st
    by (auto simp: append_network_rule_and_update_def add_network_rule_def Let_def split: if_splits prod.splits sum.splits)
  with assms(2) st show ?thesis
    by (auto simp: only_allows_added_def all_rules_def policy_keyed_def intro!: exI [of _ "{#}"])
next
  case (disk_changed mgr s s')
  with assms(2) show ?thesis by (simp add: only_allows_refl)
qed

lemma updates_add:
  assumes "(manager_update hp js files home)\<^sup>*\<^sup>* st st'" and "policy_keyed (manager_policy (fst st))"
  shows "only_allows_added (manager_policy (fst st)) (manager_policy (fst st'))"
  using assms(1)
proof (induction rule: rtranclp_induct)
  case base
  then show ?case using assms(2) by (rule only_allows_refl)
next
  case (step st1 st2)
  then have "policy_keyed (manager_policy (fst st1))" by (simp add: only_allows_added_def)
  from only_allows_trans [OF step.IH update_adds [OF step.hyps(2) this]] show ?case .
qed

lemma matched_decisions:
  "match_decision ` set (List.map_filter (\<lambda>r. rule_matches r c) rs)
    = rule_decision ` {r \<in> set rs. rule_matches r c \<noteq> None}"
proof (induction rs)
  case (Cons r rs)
  show ?case
  proof (cases "rule_matches r c")
    case None
    with Cons show ?thesis by (simp add: map_filter_simps) (rule arg_cong [where f = "(`) rule_decision"], auto)
  next
    case (Some m)
    then have "{x \<in> set (r # rs). rule_matches x c \<noteq> None} = insert r {x \<in> set rs. rule_matches x c \<noteq> None}" by auto
    with Cons Some rule_match_decision [OF Some] show ?thesis by (simp only: map_filter_simps) simp
  qed
qed (simp add: map_filter_simps)

lemma Max_with_least:
  assumes "E \<noteq> {}" and "finite D" and "E \<subseteq> D" and "D \<subseteq> E \<union> {Allow}"
  shows "Max D = Max E"
proof (rule antisym)
  show "Max E \<le> Max D" using assms by (intro Max_mono)
  have "finite E" using assms(2,3) finite_subset by blast
  have "Max D \<in> D" using assms(1-3) by (intro Max_in) auto
  then have "Max D \<in> E \<or> Max D = Allow" using assms(4) by blast
  then show "Max D \<le> Max E" using \<open>finite E\<close> by auto
qed

lemma added_allows_decision:
  assumes "policy_keyed p" and "only_allows_added p q" and some: "\<exists>r \<in> set (all_rules p). rule_matches r c \<noteq> None"
  shows "map_sum (\<lambda>f. f) eval_decision (check_with_options hp q c fb resolve)
    = map_sum (\<lambda>f. f) eval_decision (check_with_options hp p c fb' resolve')"
proof -
  let ?ds = "\<lambda>p. match_decision ` set (List.map_filter (\<lambda>r. rule_matches r c) (all_rules p))"
  from assms(2) obtain added where added: "mset (all_rules q) = mset (all_rules p) + added"
    "\<forall>r \<in># added. rule_decision r = Allow" and keyed: "policy_keyed q" by (auto simp: only_allows_added_def)
  from added(1) have all: "set (all_rules q) = set (all_rules p) \<union> set_mset added"
    by (metis set_mset_mset set_mset_union)
  then have "?ds q \<subseteq> ?ds p \<union> {Allow}" "?ds p \<subseteq> ?ds q"
    unfolding matched_decisions using added(2) by auto
  moreover have ne: "?ds p \<noteq> {}" using matching_rule(2) [OF assms(1) some] by auto
  moreover have "\<exists>r \<in> set (all_rules q). rule_matches r c \<noteq> None" using some all by blast
  ultimately have "Max (?ds q) = Max (?ds p)" and "\<exists>r \<in> set (all_rules q). rule_matches r c \<noteq> None"
    using Max_with_least [of "?ds p" "?ds q"] by simp_all
  then show ?thesis
    using check_matching [OF assms(1) some, of hp fb' resolve'] check_matching [OF keyed, of c hp fb resolve] by simp
qed


section \<open>A loaded policy\<close>

lemma parse_files_keyed:
  "parse_policy_files bops hp wrap src paths b = Inr b' \<Longrightarrow> by_prefix.well_keyed (pb_rules b) \<Longrightarrow>
     by_prefix.well_keyed (pb_rules b')"
proof (induction bops hp wrap src paths b arbitrary: b' rule: parse_policy_files.induct)
  case (2 bops hp wrap src path paths b)
  from 2(2) obtain contents b1 u where "read_file_text src path = Inr contents"
    and one: "parse_policy_file bops hp wrap (evaluate_policy src path contents) b = (b1, Inr u)"
    and rest: "parse_policy_files bops hp wrap src paths b1 = Inr b'"
    by (auto split: sum.splits prod.splits)
  have "by_prefix.well_keyed (pb_rules b1)" using parse_policy_keyed [OF 2(3)] one by (metis fst_conv)
  with 2(1) rest one \<open>read_file_text src path = Inr contents\<close> show ?case by metis
qed simp

lemma loaded_policy_keyed:
  assumes "load_exec_policy bops hp wrap src stack = Inr policy"
    and "\<And>q. requirements_policy stack = Some q \<Longrightarrow> policy_keyed q"
  shows "policy_keyed policy"
proof -
  from assms(1) obtain paths b where b: "parse_policy_files bops hp wrap src paths new_builder = Inr b"
    and policy: "policy = (case requirements_policy stack of None \<Rightarrow> build_policy b
      | Some q \<Rightarrow> merge_overlay (build_policy b) q)"
    by (auto simp: load_exec_policy_def)
  have "by_prefix.well_keyed (pb_rules b)"
    by (rule parse_files_keyed [OF b]) (simp add: new_builder_def by_prefix.well_keyed_def)
  then have "policy_keyed (build_policy b)" by (simp add: policy_keyed_def build_policy_def)
  with policy assms(2) show ?thesis by (auto intro: keyed_merge split: option.splits)
qed

text \<open>C31. The manager's policy is well formed from its loading on: every rule is filed under the first
  word of its pattern and every program appears once, after loading any layers, with or without a
  file that does not parse, and after any sequence of updates. So looking up the first word of a
  command misses no rule.\<close>

theorem manager_policy_well_formed:
  assumes "load_manager bops hp wrap src stack = Inr mgr"
    and "\<And>q. requirements_policy stack = Some q \<Longrightarrow> policy_keyed q"
    and "(manager_update hp js files home)\<^sup>*\<^sup>* (mgr, s) (mgr', s')" and "cmd \<noteq> []"
  shows "policy_keyed (manager_policy mgr')
    \<and> match_exact_rules (manager_policy mgr') cmd
      = Some (List.map_filter (\<lambda>r. rule_matches r cmd) (all_rules (manager_policy mgr')))"
proof -
  from assms(1) obtain policy warning
    where "load_exec_policy_with_warning bops hp wrap src stack = Inr (policy, warning)"
      and mgr: "mgr = new_policy_manager policy" by (auto simp: load_manager_def)
  then have "load_exec_policy bops hp wrap src stack = Inr policy
      \<or> policy = (case requirements_policy stack of None \<Rightarrow> empty_policy | Some p \<Rightarrow> p)"
    by (auto simp: load_exec_policy_with_warning_def split: sum.splits exec_policy_error.splits)
  then have "policy_keyed policy"
  proof (elim disjE)
    assume "load_exec_policy bops hp wrap src stack = Inr policy"
    from loaded_policy_keyed [OF this assms(2)] show ?thesis .
  next
    assume "policy = (case requirements_policy stack of None \<Rightarrow> empty_policy | Some p \<Rightarrow> p)"
    then show ?thesis using assms(2) keyed_empty by (auto split: option.splits)
  qed
  with updates_add [OF assms(3)] mgr have "policy_keyed (manager_policy mgr')"
    by (simp add: new_policy_manager_def only_allows_added_def)
  with match_exact_all [OF this assms(4)] show ?thesis by blast
qed

section \<open>A sample\<close>

definition sample_policy_manager :: exec_policy_manager where
  "sample_policy_manager = new_policy_manager sample_base"

text \<open>The user accepts \<open>rm -f\<close>, which the model proposed.\<close>

definition sample_rm_request :: exec_request where
  "sample_rm_request = sample_request [lit ''rm'', lit ''-f'', lit ''x'']\<lparr>rq_prefix_rule := Some [lit ''rm'', lit ''-f'']\<rparr>"

definition sample_update :: "exec_policy_manager \<times> str" where
  "sample_update = fst (append_amendment_and_update no_paths sample_json (\<lambda>path. text_file_ops) (lit ''/home'')
     [lit ''rm'', lit ''-f''] (sample_policy_manager, lit ''x'' @ [LF]))"

lemma sample_updated:
  "append_amendment_and_update no_paths sample_json (\<lambda>path. text_file_ops) (lit ''/home'')
     [lit ''rm'', lit ''-f''] (sample_policy_manager, lit ''x'' @ [LF]) = ((fst sample_update, snd sample_update), Inr ())"
proof -
  have "snd (append_amendment_and_update no_paths sample_json (\<lambda>path. text_file_ops) (lit ''/home'')
     [lit ''rm'', lit ''-f''] (sample_policy_manager, lit ''x'' @ [LF])) = Inr ()" by code_simp
  then show ?thesis by (simp add: sample_update_def prod_eq_iff)
qed


lemma sample_updates_run:
  "(manager_update no_paths sample_json (\<lambda>path. text_file_ops) (lit ''/home''))\<^sup>*\<^sup>*
     (sample_policy_manager, lit ''x'' @ [LF]) (fst sample_update, snd sample_update)"
  using manager_update.amended [OF sample_updated] by (rule r_into_rtranclp)


text \<open>A layer without rules and the requirement \<open>sample_base\<close>.\<close>

definition sample_source :: "sample_value policy_source" where
  "sample_source = \<lparr>read_dir = (\<lambda>dir. Inr []), read_file_text = (\<lambda>path. Inr []), evaluate_policy = (\<lambda>path contents. Inr [])\<rparr>"

definition sample_stack :: config_stack where
  "sample_stack = \<lparr>layers_low_to_high = [\<lparr>layer_source = UserLayer, config_folder = Some (lit ''/c'')\<rparr>],
     ignore_user_and_project_exec_policy_rules = False, requirements_policy = Some sample_base\<rparr>"

theorem manager_policy_well_formed_witness:
  "\<exists>mgr. load_manager sample_ops no_paths (\<lambda>e. e) sample_source sample_stack = Inr mgr \<and> policy_keyed (manager_policy mgr)"
proof -
  have "case load_manager sample_ops no_paths (\<lambda>e. e) sample_source sample_stack of Inr mgr \<Rightarrow> True | Inl e \<Rightarrow> False"
    by code_simp
  then obtain mgr where mgr: "load_manager sample_ops no_paths (\<lambda>e. e) sample_source sample_stack = Inr mgr"
    by (auto split: sum.splits)
  have "(manager_update no_paths sample_json (\<lambda>path. text_file_ops) (lit ''/home''))\<^sup>*\<^sup>* (mgr, []) (mgr, [])" by simp
  from manager_policy_well_formed [OF mgr _ this, of "[lit ''ls'']"] mgr sample_keyed(1) show ?thesis
    by (auto simp: sample_stack_def)
qed

end
