(* ===== verification/ToolApprovalsCorrect.thy ===== *)
theory ToolApprovalsCorrect
  imports ToolApprovals
begin

text \<open>What is remembered of the answers for a session.\<close>

lemma remember_get:
  "store_get (fold (\<lambda>key store. store_put store key ApprovedForSession) keys store) k =
     (if k \<in> set keys \<and> k \<noteq> None then Some ApprovedForSession else store_get store k)"
proof (induction keys arbitrary: store)
  case (Cons key keys)
  have "store_get (store_put store key ApprovedForSession) k
      = (if k = key \<and> k \<noteq> None then Some ApprovedForSession else store_get store k)"
    by (cases key; cases k) (auto simp: store_get_def store_put_def)
  with Cons show ?case by auto
qed simp

text \<open>C21. An answer for the session is remembered for its keys and for nothing else: as far as the
  question itself leaves the store alone, a key is there afterwards that was not there before only if
  it is one of the request and the answer was for the session, and then every request whose keys are
  among these is answered without asking again.\<close>

theorem session_answer_remembered:
  assumes "with_cached_approval fetch keys s = (s', decision)" and "keys \<noteq> []"
    and "list_all (\<lambda>key. key \<noteq> None) keys"
    and "tool_approvals (fst (fetch s)) = tool_approvals s"
    and "keys' \<noteq> []" and "set keys' \<subseteq> set keys"
  shows "(decision = ApprovedForSession \<longrightarrow> with_cached_approval fetch' keys' s' = (s', ApprovedForSession))
    \<and> (store_get (tool_approvals s') k \<noteq> store_get (tool_approvals s) k \<longrightarrow>
         k \<in> set keys \<and> decision = ApprovedForSession)"
proof (cases "list_all (\<lambda>key. store_get (tool_approvals s) key = Some ApprovedForSession) keys")
  case True
  then have "s' = s" using assms(1,2) by (simp add: with_cached_approval_def)
  moreover have "list_all (\<lambda>key. store_get (tool_approvals s) key = Some ApprovedForSession) keys'"
    using True assms(6) by (auto simp: list_all_iff)
  ultimately show ?thesis using assms(5) by (simp add: with_cached_approval_def)
next
  case False
  obtain s1 d where fetched: "fetch s = (s1, d)" by fastforce
  with False assms(1,2) have s': "s' = (if d = ApprovedForSession then remember_for_session keys s1 else s1)" "decision = d"
    by (auto simp: with_cached_approval_def)
  have store: "tool_approvals s1 = tool_approvals s" using assms(4) fetched by simp
  have "list_all (\<lambda>key. store_get (tool_approvals s') key = Some ApprovedForSession) keys'" if "d = ApprovedForSession"
    using that s' assms(3,6) by (auto simp: list_all_iff remember_for_session_def remember_get)
  moreover have "k \<in> set keys \<and> d = ApprovedForSession" if "store_get (tool_approvals s') k \<noteq> store_get (tool_approvals s) k"
    using that s' store by (auto simp: remember_for_session_def remember_get split: if_splits)
  ultimately show ?thesis using s'(2) assms(5) by (auto simp: with_cached_approval_def)
qed

theorem session_answer_remembered_witness:
  "let s' = fst (with_cached_approval (\<lambda>s. (s, ApprovedForSession)) [Some (lit ''a''), Some (lit ''b'')]
       \<lparr>tool_approvals = Map.empty, outside = ()\<rparr>) in
   with_cached_approval (\<lambda>s. (s, Abort)) [Some (lit ''b'')] s' = (s', ApprovedForSession)"
proof -
  let ?s = "\<lparr>tool_approvals = Map.empty, outside = ()\<rparr>"
  let ?r = "with_cached_approval (\<lambda>s. (s, ApprovedForSession)) [Some (lit ''a''), Some (lit ''b'')] ?s"
  have "?r = (fst ?r, ApprovedForSession)" by (simp add: with_cached_approval_def store_get_def)
  from session_answer_remembered [OF this, of "[Some (lit ''b'')]" "\<lambda>s. (s, Abort)"] show ?thesis by simp
qed

end
