(* ===== verification/ToolOrchestrator.thy ===== *)
theory ToolOrchestrator
  imports ToolApprovals
begin

text \<open>
  \<open>core/src/tools/orchestrator.rs\<close>: approval, choice of the sandbox, a first attempt and, if the
  sandbox denied it, perhaps a second one. What a tool is (the trait \<open>ToolRuntime\<close>), the answers to
  requests for approval, the network proxy and the run itself are arguments; each may read and
  change the state of the world. The trace records what was asked and what was run.
\<close>

section \<open>Tools\<close>

record attempt =
  sandbox :: sandbox_type
  sandbox_requested :: bool
  enforce_managed_network :: bool
  linux_sandbox_exe :: "str option"

datatype event =
    Asked bool "str option" "str option" bool
  | Attempted attempt bool

text \<open>
  An \<open>Asked retry reason network granted\<close> is a request for approval, an \<open>Attempted a denied\<close> a run
  and whether the sandbox denied it.
\<close>

record 's run_state =
  world :: 's
  trace :: "event list"

record ('s, 'out) tool_runtime =
  exec_requirement :: "'s \<Rightarrow> exec_approval_requirement option"
  tool_permissions :: "'s \<Rightarrow> sandbox_permissions"
  tool_preference :: "'s \<Rightarrow> sandboxable_preference"
  escalate_on_failure :: "'s \<Rightarrow> bool"
  bypass_approval :: "'s \<Rightarrow> ask_for_approval \<Rightarrow> bool \<Rightarrow> bool"
  wants_no_sandbox :: "'s \<Rightarrow> ask_for_approval \<Rightarrow> bool"
  executor_managed :: "'s \<Rightarrow> bool"
  prepare_approval :: "'s \<Rightarrow> str option"
  network_spec :: "'s \<Rightarrow> additional_permissions option option"
  run_tool :: "'s \<Rightarrow> attempt \<Rightarrow> 's \<times> (tool_error + 'out)"

text \<open>
  \<open>begin_network\<close> starts the approval of network accesses for an attempt: whether there is one and
  whether it can be deferred; \<open>finish_network\<close> ends a deferred one.
\<close>

record 's surroundings =
  approval_setting :: ask_for_approval
  strict_auto_review :: bool
  owner_network_policy :: bool
  profile_with_roots :: permission_profile
  plain_profile :: permission_profile
  level :: windows_sandbox_level
  linux_exe :: "str option"
  turn_network :: bool
  config_network_enabled :: bool
  ask :: "'s \<Rightarrow> bool \<Rightarrow> str option \<Rightarrow> str option \<Rightarrow> network_approval_context option \<Rightarrow> 's \<times> (tool_error + review_decision)"
  begin_network :: "'s \<Rightarrow> bool \<Rightarrow> bool \<Rightarrow> 's \<times> (tool_error + bool option)"
  finish_network :: "'s \<Rightarrow> bool \<Rightarrow> 's \<times> (tool_error + unit)"
  url_ops :: url_codec
  native_paths :: path_convention
  os :: target_os

section \<open>Steps\<close>

definition is_denied :: "tool_error + 'out \<Rightarrow> bool" where
  "is_denied r \<longleftrightarrow> (case r of Inl (Codex (SandboxDenied message payload)) \<Rightarrow> True | _ \<Rightarrow> False)"

text \<open>The result with the deferred approval of the network, if any.\<close>

definition run_attempt ::
    "'s surroundings \<Rightarrow> ('s, 'out) tool_runtime \<Rightarrow> attempt \<Rightarrow> bool \<Rightarrow> 's run_state
     \<Rightarrow> 's run_state \<times> (tool_error + 'out) \<times> bool" where
  "run_attempt env tool a has_spec st =
     (case begin_network env (world st) (enforce_managed_network a) has_spec of
        (w, Inl e) \<Rightarrow> (st\<lparr>world := w\<rparr>, Inl e, False)
      | (w, Inr network_approval) \<Rightarrow>
          (case run_tool tool w a of (w, r) \<Rightarrow>
             (let st = \<lparr>world = w, trace = trace st @ [Attempted a (is_denied r)]\<rparr> in
              case network_approval of
                None \<Rightarrow> (st, r, False)
              | Some deferred \<Rightarrow>
                  (case r of
                     Inr out \<Rightarrow> (st, r, deferred)
                   | Inl e \<Rightarrow>
                       (case finish_network env (world st) deferred of
                          (w, Inl e') \<Rightarrow> (st\<lparr>world := w\<rparr>, Inl e', False)
                        | (w, Inr u) \<Rightarrow> (st\<lparr>world := w\<rparr>, r, False))))))"

definition request_tool_approval ::
    "'s surroundings \<Rightarrow> ('s, 'out) tool_runtime \<Rightarrow> str option \<Rightarrow> str option \<Rightarrow> network_approval_context option
     \<Rightarrow> 's run_state \<Rightarrow> 's run_state \<times> (tool_error + unit)" where
  "request_tool_approval env tool approval_reason retry_reason network st =
     (case prepare_approval tool (world st) of
        Some err \<Rightarrow> (st, Inl (Rejected (lit ''could not prepare approval action: '' @ err)))
      | None \<Rightarrow>
          (case ask env (world st) (strict_auto_review env) approval_reason retry_reason network of (w, r) \<Rightarrow>
             (\<lparr>world = w, trace = trace st @ [Asked (retry_reason \<noteq> None) approval_reason
                  (map_option approval_host network) (case r of Inr d \<Rightarrow> True | Inl e \<Rightarrow> False)]\<rparr>,
              map_sum (\<lambda>e. e) (\<lambda>d. ()) r)))"

text \<open>The approval before the first attempt: whether the user has approved.\<close>

definition approve_first ::
    "'s surroundings \<Rightarrow> ('s, 'out) tool_runtime \<Rightarrow> exec_approval_requirement \<Rightarrow> 's run_state
     \<Rightarrow> 's run_state \<times> (tool_error + bool)" where
  "approve_first env tool requirement st =
     (case requirement of
        SkipApproval bypass amendment \<Rightarrow>
          (if strict_auto_review env then
             (case request_tool_approval env tool None None None st of
                (st, r) \<Rightarrow> (st, map_sum (\<lambda>e. e) (\<lambda>u. True) r))
           else (st, Inr False))
      | ForbiddenExec reason \<Rightarrow> (st, Inl (Rejected reason))
      | NeedsApproval reason amendment \<Rightarrow>
          (case request_tool_approval env tool reason None None st of
             (st, r) \<Rightarrow> (st, map_sum (\<lambda>e. e) (\<lambda>u. True) r)))"

definition requirement_for_call ::
    "'s surroundings \<Rightarrow> ('s, 'out) tool_runtime \<Rightarrow> 's \<Rightarrow> sandbox_policy \<Rightarrow> exec_approval_requirement" where
  "requirement_for_call env tool w fs =
     (case exec_requirement tool w of
        Some r \<Rightarrow> r | None \<Rightarrow> default_exec_approval_requirement (approval_setting env) fs)"

definition permissions_for_call :: "'s surroundings \<Rightarrow> ('s, 'out) tool_runtime \<Rightarrow> 's \<Rightarrow> permission_profile" where
  "permissions_for_call env tool w = (if executor_managed tool w then plain_profile env else profile_with_roots env)"

definition managed_network_active :: "'s surroundings \<Rightarrow> additional_permissions option option \<Rightarrow> bool" where
  "managed_network_active env spec =
     (if owner_network_policy env then
        config_network_enabled env
        \<or> (case spec of None \<Rightarrow> False | Some additional \<Rightarrow>
             network_enabled (effective_network_sandbox_policy (network_policy_of_profile (plain_profile env)) additional))
      else turn_network env)"

definition sandboxed_attempt ::
    "'s surroundings \<Rightarrow> permission_profile \<Rightarrow> sandboxable_preference \<Rightarrow> bool \<Rightarrow> bool \<Rightarrow> bool \<Rightarrow> str option \<Rightarrow> attempt" where
  "sandboxed_attempt env profile preference managed executor requested exe =
     \<lparr>sandbox = (if requested \<and> \<not> executor
        then select_initial (url_ops env) (native_paths env) (os env) profile preference (level env) managed
        else NoSandbox),
      sandbox_requested = requested, enforce_managed_network = managed, linux_sandbox_exe = exe\<rparr>"

text \<open>Whether a denied attempt may be repeated.\<close>

definition may_retry ::
    "'s surroundings \<Rightarrow> ('s, 'out) tool_runtime \<Rightarrow> 's \<Rightarrow> sandbox_policy \<Rightarrow> bool
     \<Rightarrow> network_policy_payload option \<Rightarrow> network_approval_context option \<Rightarrow> bool" where
  "may_retry env tool w fs unsandboxed_allowed payload network \<longleftrightarrow>
     \<not> (payload \<noteq> None \<and> network = None)
     \<and> escalate_on_failure tool w
     \<and> (wants_no_sandbox tool w (approval_setting env)
        \<or> approval_setting env = OnRequest \<and> network \<noteq> None
          \<and> (case default_exec_approval_requirement (approval_setting env) fs of
               NeedsApproval reason amendment \<Rightarrow> True | _ \<Rightarrow> False))
     \<and> (unsandboxed_allowed \<or> network \<noteq> None)"

definition retry_reason_of :: "network_approval_context option \<Rightarrow> str" where
  "retry_reason_of network =
     (case network of
        Some c \<Rightarrow> lit ''Network access to \"'' @ approval_host c @ lit ''\" is blocked by policy.''
      | None \<Rightarrow> lit ''command failed; retry without sandbox?'')"

section \<open>A call\<close>

definition retry_call ::
    "'s surroundings \<Rightarrow> ('s, 'out) tool_runtime \<Rightarrow> exec_approval_requirement \<Rightarrow> permission_profile
     \<Rightarrow> sandboxable_preference \<Rightarrow> bool \<Rightarrow> bool \<Rightarrow> bool \<Rightarrow> bool \<Rightarrow> codex_error \<Rightarrow> network_policy_payload option
     \<Rightarrow> 's run_state \<Rightarrow> 's run_state \<times> (tool_error + 'out \<times> bool)" where
  "retry_call env tool requirement profile preference managed executor unsandboxed_allowed already_approved err payload st =
     (let fs = file_system_sandbox_policy profile;
          network = (if managed then Option.bind payload network_approval_context_from_payload else None) in
      if \<not> may_retry env tool (world st) fs unsandboxed_allowed payload network then (st, Inl (Codex err))
      else
        (let bypass = \<not> strict_auto_review env
               \<and> bypass_approval tool (world st) (approval_setting env) already_approved \<and> network = None;
             reason = (case requirement of NeedsApproval reason amendment \<Rightarrow> reason | _ \<Rightarrow> None);
             (st, approval) = (if bypass then (st, Inr ())
               else request_tool_approval env tool reason (Some (retry_reason_of network)) network st) in
         case approval of
           Inl e \<Rightarrow> (st, Inl e)
         | Inr u \<Rightarrow>
             (let requested = \<not> unsandboxed_allowed
                    \<and> should_sandbox (url_ops env) (native_paths env) profile preference managed;
                  a = sandboxed_attempt env profile preference managed executor requested
                    (if unsandboxed_allowed then None else linux_exe env);
                  (st, r, deferred) = run_attempt env tool a (network_spec tool (world st) \<noteq> None) st in
              (st, map_sum (\<lambda>e. e) (\<lambda>out. (out, deferred)) r))))"

definition orchestrator_run ::
    "'s surroundings \<Rightarrow> ('s, 'out) tool_runtime \<Rightarrow> 's run_state \<Rightarrow> 's run_state \<times> (tool_error + 'out \<times> bool)" where
  "orchestrator_run env tool st =
     (if owner_network_policy env \<and> requires_escalated_permissions (tool_permissions tool (world st))
      then (st, Inl (Rejected (lit ''attachment-owned network policy cannot be bypassed by sandbox escalation'')))
      else
        (let executor = executor_managed tool (world st);
             profile = permissions_for_call env tool (world st);
             fs = file_system_sandbox_policy profile;
             requirement = requirement_for_call env tool (world st) fs in
         case approve_first env tool requirement st of
           (st, Inl e) \<Rightarrow> (st, Inl e)
         | (st, Inr already_approved) \<Rightarrow>
             (let unsandboxed_allowed = \<not> owner_network_policy env
                    \<and> unsandboxed_execution_allowed (native_paths env) fs;
                  override = (if unsandboxed_allowed
                    then sandbox_override_for_first_attempt (native_paths env) (tool_permissions tool (world st)) requirement fs
                    else NoOverride);
                  spec = network_spec tool (world st);
                  managed = managed_network_active env spec;
                  preference = tool_preference tool (world st);
                  requested = override = NoOverride
                    \<and> should_sandbox (url_ops env) (native_paths env) profile preference managed;
                  a = sandboxed_attempt env profile preference managed executor requested (linux_exe env);
                  (st, r, deferred) = run_attempt env tool a (spec \<noteq> None) st in
              case r of
                Inr out \<Rightarrow> (st, Inr (out, deferred))
              | Inl (Codex (SandboxDenied message payload)) \<Rightarrow>
                  retry_call env tool requirement profile preference managed executor unsandboxed_allowed
                    already_approved (SandboxDenied message payload) payload st
              | Inl e \<Rightarrow> (st, Inl e))))"

end
