(* ===== verification/ToolOrchestratorCorrect.thy ===== *)
theory ToolOrchestratorCorrect
  imports ToolOrchestrator PermissionsCorrect
begin

text \<open>
  The traces of a call: when a tool is run, how often, after which approvals and inside of which
  sandbox.
\<close>

section \<open>Traces\<close>

fun is_attempt :: "event \<Rightarrow> bool" where
  "is_attempt (Attempted a denied) = True"
| "is_attempt (Asked retry reason network granted) = False"

definition attempts :: "event list \<Rightarrow> attempt list" where
  "attempts es = concat (map (\<lambda>e. case e of Attempted a denied \<Rightarrow> [a] | _ \<Rightarrow> []) es)"

text \<open>The attempts that no granted request precedes directly.\<close>

fun unapproved :: "bool \<Rightarrow> event list \<Rightarrow> nat" where
  "unapproved granted [] = 0"
| "unapproved granted (Asked retry reason network g # es) = unapproved g es"
| "unapproved granted (Attempted a denied # es) = (if granted then 0 else 1) + unapproved False es"

lemma attempts_simps [simp]:
  "attempts [] = []" "attempts (Attempted a d # es) = a # attempts es"
  "attempts (Asked r re n g # es) = attempts es" "attempts (es @ fs) = attempts es @ attempts fs"
  by (simp_all add: attempts_def)

lemma unapproved_granted: "unapproved g es \<le> unapproved False es"
  by (cases es; cases "hd es") auto

lemma no_attempts_unapproved: "attempts es = [] \<Longrightarrow> unapproved g es = 0"
  by (induction g es rule: unapproved.induct) auto

section \<open>The steps\<close>

text \<open>A run leaves one event, unless the approval of the network could not begin.\<close>

lemma run_attempt_trace:
  assumes "run_attempt env tool a spec st = (st', r, deferred)"
  obtains "trace st' = trace st" | d where "trace st' = trace st @ [Attempted a d]"
  using assms by (auto simp: run_attempt_def Let_def split: prod.splits sum.splits option.splits)

lemma request_trace:
  assumes "request_tool_approval env tool reason retry network st = (st', r)"
  obtains "trace st' = trace st" "r \<noteq> Inr ()"
  | "trace st' = trace st @ [Asked (retry \<noteq> None) reason (map_option approval_host network) False]" "r \<noteq> Inr ()"
  | "trace st' = trace st @ [Asked (retry \<noteq> None) reason (map_option approval_host network) True]" "r = Inr ()"
  using assms by (auto simp: request_tool_approval_def split: option.splits prod.splits sum.splits)

lemma approve_first_trace:
  assumes "approve_first env tool requirement st = (st', r)"
  obtains (refused) es e where "trace st' = trace st @ es" "attempts es = []" "r = Inl e"
      "(\<exists>why. requirement = ForbiddenExec why) \<longrightarrow> es = [] \<and> (\<exists>why. e = Rejected why)"
  | (skipped) "trace st' = trace st" "r = Inr False" "\<not> strict_auto_review env"
      "\<exists>bypass amendment. requirement = SkipApproval bypass amendment"
  | (approved) reason where "trace st' = trace st @ [Asked False reason None True]" "r = Inr True"
      "\<nexists>why. requirement = ForbiddenExec why"
proof -
  have asked: thesis
    if req: "request_tool_approval env tool reason None None st = (st1, r1)"
      and st1: "st' = st1" "r = map_sum (\<lambda>e. e) (\<lambda>u. True) r1" and may: "\<nexists>why. requirement = ForbiddenExec why"
    for reason st1 r1
    using req
  proof (cases rule: request_trace)
    case 1
    then obtain e where "r1 = Inl e" by (cases r1) auto
    with 1 st1 may show thesis by (intro refused [of "[]"]) auto
  next
    case 2
    then obtain e where "r1 = Inl e" by (cases r1) auto
    with 2 st1 may show thesis by (intro refused) auto
  next
    case 3
    with st1 may show thesis by (intro approved) auto
  qed
  show thesis
  proof (cases requirement)
  case (SkipApproval bypass amendment)
  show thesis
  proof (cases "strict_auto_review env")
    case False
    with SkipApproval assms skipped show thesis by (auto simp: approve_first_def)
  next
    case True
    obtain st1 r1 where req: "request_tool_approval env tool None None None st = (st1, r1)" by fastforce
    with SkipApproval True assms have st1: "st' = st1" "r = map_sum (\<lambda>e. e) (\<lambda>u. True) r1"
      by (simp_all add: approve_first_def)
    show thesis by (rule asked [OF req st1]) (use SkipApproval in simp)
  qed
next
  case (NeedsApproval reason amendment)
  obtain st1 r1 where req: "request_tool_approval env tool reason None None st = (st1, r1)" by fastforce
  with NeedsApproval assms have st1: "st' = st1" "r = map_sum (\<lambda>e. e) (\<lambda>u. True) r1"
    by (simp_all add: approve_first_def)
  show thesis by (rule asked [OF req st1]) (use NeedsApproval in simp)
next
  case (ForbiddenExec why)
  with assms show thesis by (intro refused [of "[]"]) (auto simp: approve_first_def)
  qed
qed

text \<open>The second attempt.\<close>

lemma retry_trace:
  assumes "retry_call env tool requirement profile preference managed executor allowed already err payload st = (st', r)"
  obtains es where "trace st' = trace st @ es" "length (attempts es) \<le> 1"
    "unapproved False es \<le> (if strict_auto_review env then 0 else 1)"
    "\<forall>a \<in> set (attempts es). enforce_managed_network a = managed \<and> sandbox_requested a
      = (\<not> allowed \<and> should_sandbox (url_ops env) (native_paths env) profile preference managed)"
proof -
  let ?network = "if managed then Option.bind payload network_approval_context_from_payload else None"
  let ?fs = "file_system_sandbox_policy profile"
  show thesis
  proof (cases "may_retry env tool (world st) ?fs allowed payload ?network")
    case False
    with assms that [of "[]"] show thesis by (simp add: retry_call_def Let_def)
  next
    case True
    let ?bypass = "\<not> strict_auto_review env \<and> bypass_approval tool (world st) (approval_setting env) already \<and> ?network = None"
    let ?reason = "case requirement of NeedsApproval reason amendment \<Rightarrow> reason | _ \<Rightarrow> None"
    obtain st1 approval where approval: "(if ?bypass then (st, Inr ())
        else request_tool_approval env tool ?reason (Some (retry_reason_of ?network)) ?network st) = (st1, approval)"
      by fastforce
    obtain es where es: "trace st1 = trace st @ es" "attempts es = []"
      "approval = Inr () \<longrightarrow> ?bypass \<and> es = [] \<or> (\<exists>re n. es = [Asked True re n True])"
      "unapproved False es = 0"
    proof (cases ?bypass)
      case True
      with approval that [of "[]"] show thesis by simp
    next
      case False
      with approval have "request_tool_approval env tool ?reason (Some (retry_reason_of ?network)) ?network st = (st1, approval)"
        by (simp only: if_False)
      then show thesis
      proof (cases rule: request_trace)
        case 1
        with that [of "[]"] show thesis by simp
      next
        case 2
        with that [of "[Asked True ?reason (map_option approval_host ?network) False]"] show thesis by simp
      next
        case 3
        with that [of "[Asked True ?reason (map_option approval_host ?network) True]"] show thesis by simp
      qed
    qed
    show thesis
    proof (cases approval)
      case (Inl e)
      with assms approval True have "st' = st1" by (simp add: retry_call_def Let_def)
      with es that [of es] show thesis by simp
    next
      case (Inr u)
      let ?requested = "\<not> allowed \<and> should_sandbox (url_ops env) (native_paths env) profile preference managed"
      let ?a = "sandboxed_attempt env profile preference managed executor ?requested (if allowed then None else linux_exe env)"
      obtain st2 r2 deferred where run: "run_attempt env tool ?a (network_spec tool (world st1) \<noteq> None) st1 = (st2, r2, deferred)"
        by (metis prod_cases3)
      have st2: "st' = st2" using assms approval True Inr run by (simp add: retry_call_def Let_def)
      from run_attempt_trace [OF run] consider "trace st2 = trace st1" | d where "trace st2 = trace st1 @ [Attempted ?a d]" .
      then show thesis
      proof cases
        case 1
        with es st2 that [of es] show thesis by simp
      next
        case 2
        have "?bypass \<and> es = [] \<or> (\<exists>re n. es = [Asked True re n True])" using es(3) Inr by simp
        then have "unapproved False (es @ [Attempted ?a d]) \<le> (if strict_auto_review env then 0 else 1)" by auto
        with 2 es st2 that [of "es @ [Attempted ?a d]"] show thesis by (simp add: sandboxed_attempt_def)
      qed
    qed
  qed
qed

section \<open>A call\<close>

abbreviation call_policy :: "'s surroundings \<Rightarrow> ('s, 'out) tool_runtime \<Rightarrow> 's run_state \<Rightarrow> sandbox_policy" where
  "call_policy env tool st \<equiv> file_system_sandbox_policy (permissions_for_call env tool (world st))"

abbreviation call_requirement :: "'s surroundings \<Rightarrow> ('s, 'out) tool_runtime \<Rightarrow> 's run_state \<Rightarrow> exec_approval_requirement" where
  "call_requirement env tool st \<equiv> requirement_for_call env tool (world st) (call_policy env tool st)"

text \<open>An attempt outside of the sandbox that the policy asks for is allowed by the policy.\<close>

definition kept_inside :: "'s surroundings \<Rightarrow> ('s, 'out) tool_runtime \<Rightarrow> 's run_state \<Rightarrow> attempt \<Rightarrow> bool" where
  "kept_inside env tool st a \<longleftrightarrow> \<not> owner_network_policy env
       \<and> unsandboxed_execution_allowed (native_paths env) (call_policy env tool st)
     \<or> (\<exists>w. sandbox_requested a = should_sandbox (url_ops env) (native_paths env)
          (permissions_for_call env tool (world st)) (tool_preference tool w) (enforce_managed_network a))"

lemma orchestrator_trace:
  assumes "orchestrator_run env tool st = (st', r)"
  obtains (refused) es e where "trace st' = trace st @ es" "attempts es = []" "r = Inl e"
      "(\<exists>why. call_requirement env tool st = ForbiddenExec why) \<longrightarrow> es = [] \<and> (\<exists>why. e = Rejected why)"
  | (ran) pre es where "trace st' = trace st @ pre @ es" "length (attempts es) \<le> 2"
      "pre = [] \<and> \<not> strict_auto_review env \<and> (\<exists>bypass am. call_requirement env tool st = SkipApproval bypass am)
       \<or> (\<exists>reason. pre = [Asked False reason None True])"
      "\<nexists>why. call_requirement env tool st = ForbiddenExec why"
      "unapproved True es \<le> (if strict_auto_review env then 0 else 1)"
      "unapproved False es \<le> (if strict_auto_review env then 1 else 2)"
      "list_all (kept_inside env tool st) (attempts es)"
proof (cases "owner_network_policy env \<and> requires_escalated_permissions (tool_permissions tool (world st))")
  case True
  with assms show thesis by (intro refused [of "[]"]) (auto simp: orchestrator_run_def)
next
  case False
  let ?executor = "executor_managed tool (world st)" and ?profile = "permissions_for_call env tool (world st)"
  let ?fs = "file_system_sandbox_policy ?profile"
  let ?allowed = "\<not> owner_network_policy env \<and> unsandboxed_execution_allowed (native_paths env) ?fs"
  obtain st1 ok where first: "approve_first env tool (call_requirement env tool st) st = (st1, ok)" by fastforce
  have after: thesis if ok: "ok = Inr already" and pre: "trace st1 = trace st @ pre"
      "pre = [] \<and> \<not> strict_auto_review env \<and> (\<exists>bypass am. call_requirement env tool st = SkipApproval bypass am)
       \<or> (\<exists>reason. pre = [Asked False reason None True])"
      "\<nexists>why. call_requirement env tool st = ForbiddenExec why" for already pre
  proof -
    let ?override = "if ?allowed then sandbox_override_for_first_attempt (native_paths env)
        (tool_permissions tool (world st1)) (call_requirement env tool st) ?fs else NoOverride"
    let ?spec = "network_spec tool (world st1)"
    let ?managed = "managed_network_active env ?spec" and ?preference = "tool_preference tool (world st1)"
    let ?requested = "?override = NoOverride \<and> should_sandbox (url_ops env) (native_paths env) ?profile ?preference ?managed"
    let ?a = "sandboxed_attempt env ?profile ?preference ?managed ?executor ?requested (linux_exe env)"
    obtain st2 r2 deferred where run: "run_attempt env tool ?a (?spec \<noteq> None) st1 = (st2, r2, deferred)"
      by (metis prod_cases3)
    obtain es where es: "trace st2 = trace st1 @ es" "es = [] \<or> (\<exists>d. es = [Attempted ?a d])"
      using run_attempt_trace [OF run] by (metis append_Nil2)
    have kept: "list_all (kept_inside env tool st) (attempts es)"
      using es(2) by (auto simp: kept_inside_def sandboxed_attempt_def)
    have full: "orchestrator_run env tool st = (case r2 of
        Inr out \<Rightarrow> (st2, Inr (out, deferred))
      | Inl (Codex (SandboxDenied message payload)) \<Rightarrow>
          retry_call env tool (call_requirement env tool st) ?profile ?preference ?managed ?executor ?allowed
            already (SandboxDenied message payload) payload st2
      | Inl e \<Rightarrow> (st2, Inl e))"
      unfolding orchestrator_run_def if_not_P [OF False] Let_def first ok by (simp only: prod.case sum.case run)
    consider "st' = st2"
      | message payload where "retry_call env tool (call_requirement env tool st) ?profile ?preference ?managed ?executor ?allowed
            already (SandboxDenied message payload) payload st2 = (st', r)"
      using assms full by (auto split: sum.splits tool_error.splits codex_error.splits)
    then show thesis
    proof cases
      case 1
      show thesis by (rule ran [of pre es]) (use es pre kept 1 in auto)
    next
      case 2
      from retry_trace [OF this] obtain es' where es': "trace st' = trace st2 @ es'" "length (attempts es') \<le> 1"
        "unapproved False es' \<le> (if strict_auto_review env then 0 else 1)"
        "\<forall>a \<in> set (attempts es'). enforce_managed_network a = ?managed \<and> sandbox_requested a
          = (\<not> ?allowed \<and> should_sandbox (url_ops env) (native_paths env) ?profile ?preference ?managed)" .
      have "list_all (kept_inside env tool st) (attempts es')"
        unfolding list_all_iff kept_inside_def using es'(4) by auto
      moreover have "unapproved True es' \<le> (if strict_auto_review env then 0 else 1)"
        using es'(3) unapproved_granted [of True es'] by simp
      ultimately show thesis by (intro ran [of pre "es @ es'"]) (use es es' pre kept in \<open>auto simp: le_diff_conv\<close>)
    qed
  qed
  show thesis
    using first
  proof (cases rule: approve_first_trace)
    case (refused es e)
    have "orchestrator_run env tool st = (st1, Inl e)"
      unfolding orchestrator_run_def if_not_P [OF False] Let_def first refused(3) by simp
    with assms refused that(1) show thesis by auto
  next
    case skipped
    then show thesis by (intro after [of False "[]"]) auto
  next
    case (approved reason)
    then show thesis by (intro after [of True "[Asked False reason None True]"]) auto
  qed
qed

text \<open>C3. A tool is run at most twice, and never unseen: a refused requirement ends the call before
  anything is asked or run; if the requirement asks for approval, the first event is a request, and
  at most one attempt, a second one, has no granted request of its own directly before it; under
  strict automatic review every attempt has.\<close>

theorem tool_runs_approved:
  assumes "orchestrator_run env tool st = (st', r)"
  shows "\<exists>es. trace st' = trace st @ es \<and> length (attempts es) \<le> 2
    \<and> unapproved False es \<le> (if strict_auto_review env then 0
         else case call_requirement env tool st of SkipApproval bypass amendment \<Rightarrow> 2 | _ \<Rightarrow> 1)
    \<and> (case call_requirement env tool st of
         ForbiddenExec why \<Rightarrow> es = [] \<and> (\<exists>why. r = Inl (Rejected why))
       | NeedsApproval why amendment \<Rightarrow> attempts es = [] \<or> (\<exists>reason. hd es = Asked False reason None True)
       | SkipApproval bypass amendment \<Rightarrow> True)"
  using assms
proof (cases rule: orchestrator_trace)
  case (refused es e)
  have "unapproved False es = 0" using refused(2) by (rule no_attempts_unapproved)
  with refused show ?thesis by (intro exI [of _ es]) (auto split: exec_approval_requirement.split)
next
  case (ran pre es)
  have "unapproved False (pre @ es) \<le> (if strict_auto_review env then 0
      else case call_requirement env tool st of SkipApproval bypass amendment \<Rightarrow> 2 | _ \<Rightarrow> 1)"
    using ran(3-6) by (auto split: if_splits exec_approval_requirement.split)
  with ran show ?thesis by (intro exI [of _ "pre @ es"]) (auto split: exec_approval_requirement.split)
qed

section \<open>Denied reads\<close>

lemma denied_read_needs_sandbox:
  assumes "sandbox_kind fs = Restricted" and "e \<in> set (entries fs)" and "entry_access e = DenyAccess"
    and "(\<exists>u. entry_path e = UriPath u) \<or> (\<exists>g. entry_path e = GlobPattern g)"
  shows "has_denied_read_restrictions native fs" and "\<not> has_full_disk_write_access uc native fs"
proof -
  show "has_denied_read_restrictions native fs"
    using assms by (auto simp: has_denied_read_restrictions_def list_ex_iff)
  have "\<not> has_same_target_write_override uc native fs e"
    using assms(3) by (auto simp: has_same_target_write_override_def list_ex_iff can_write_def less_access_mode_def)
  with assms(3,4) have "narrows_writes uc native fs e" by (auto simp: narrows_writes_def can_write_def)
  with assms(1,2) show "\<not> has_full_disk_write_access uc native fs"
    by (auto simp: has_full_disk_write_access_def has_full_disk_write_access_for_convention_def
        has_write_narrowing_entries_def list_ex_iff)
qed

text \<open>C4. Denied reads keep the sandbox on: if the policy of a call denies a path or a pattern, every
  attempt is made with the sandbox requested, the first and the second, even for a command that the
  rules let out of the sandbox or that asks to be escalated, and with the user's approval. The tool
  only has to be one that may be sandboxed.\<close>

theorem denied_reads_keep_sandbox:
  assumes "orchestrator_run env tool st = (st', r)"
    and "sandbox_kind (call_policy env tool st) = Restricted"
    and "e \<in> set (entries (call_policy env tool st))" and "entry_access e = DenyAccess"
    and "(\<exists>u. entry_path e = UriPath u) \<or> (\<exists>g. entry_path e = GlobPattern g)"
    and "\<And>w. tool_preference tool w \<noteq> ForbidSandbox"
  shows "\<exists>es. trace st' = trace st @ es \<and> list_all sandbox_requested (attempts es)"
  using assms(1)
proof (cases rule: orchestrator_trace)
  case (refused es e)
  then show ?thesis by auto
next
  case (ran pre es)
  note denied = denied_read_needs_sandbox [OF assms(2-5)]
  have "should_sandbox (url_ops env) (native_paths env) (permissions_for_call env tool (world st))
      (tool_preference tool w) managed" for w managed
    using assms(2,6) denied(2)
    by (cases "tool_preference tool w") (auto simp: should_sandbox_def should_require_platform_sandbox_def)
  then have "kept_inside env tool st a \<Longrightarrow> sandbox_requested a" for a
    using denied(1) by (auto simp: kept_inside_def unsandboxed_execution_allowed_def)
  with ran(7) have "list_all sandbox_requested (attempts es)" by (auto simp: list_all_iff)
  moreover have "attempts (pre @ es) = attempts es" using ran(3) by auto
  ultimately show ?thesis using ran(1) by (metis)
qed

section \<open>A sample\<close>

text \<open>A tool that the sandbox denies once, in a world that counts the runs.\<close>

definition sample_tool :: "sandbox_permissions \<Rightarrow> (nat, unit) tool_runtime" where
  "sample_tool permissions = \<lparr>exec_requirement = (\<lambda>w. None), tool_permissions = (\<lambda>w. permissions),
     tool_preference = (\<lambda>w. AutoSandbox), escalate_on_failure = (\<lambda>w. True),
     bypass_approval = (\<lambda>w. should_bypass_approval), wants_no_sandbox = (\<lambda>w. wants_no_sandbox_approval),
     executor_managed = (\<lambda>w. False), prepare_approval = (\<lambda>w. None), network_spec = (\<lambda>w. None),
     run_tool = (\<lambda>w a. (w + 1, if w = 0 then Inl (Codex (SandboxDenied [] None)) else Inr ()))\<rparr>"

definition sample_surroundings :: "sandbox_entry list \<Rightarrow> nat surroundings" where
  "sample_surroundings es = \<lparr>approval_setting = UnlessTrusted, strict_auto_review = False, owner_network_policy = False,
     profile_with_roots = Managed (ManagedRestricted es None) NetworkRestricted,
     plain_profile = Managed (ManagedRestricted es None) NetworkRestricted, level = WindowsSandboxDisabled,
     linux_exe = None, turn_network = False, config_network_enabled = False,
     ask = (\<lambda>w strict reason retry network. (w, Inr Approved)), begin_network = (\<lambda>w managed spec. (w, Inr None)),
     finish_network = (\<lambda>w deferred. (w, Inr ())), url_ops = plain_codec, native_paths = PosixPath, os = Linux\<rparr>"

definition start_state :: "nat run_state" where
  "start_state = \<lparr>world = 0, trace = []\<rparr>"

text \<open>One request covers both attempts, the second outside of the sandbox.\<close>

theorem tool_runs_approved_witness:
  "(let es = trace (fst (orchestrator_run (sample_surroundings []) (sample_tool UseDefault) start_state)) in
     length (attempts es) \<le> 2 \<and> unapproved False es \<le> 1 \<and> length es = 3 \<and> hd es = Asked False None None True)"
proof -
  let ?r = "orchestrator_run (sample_surroundings []) (sample_tool UseDefault) start_state"
  have len: "length (trace (fst ?r)) = 3" and some: "attempts (trace (fst ?r)) \<noteq> []"
    and hd: "hd (trace (fst ?r)) = Asked False None None True"
    and req: "call_requirement (sample_surroundings []) (sample_tool UseDefault) start_state = NeedsApproval None None"
    by code_simp+
  have start: "trace start_state = []" and strict: "\<not> strict_auto_review (sample_surroundings [])"
    by (simp_all add: start_state_def sample_surroundings_def)
  have "orchestrator_run (sample_surroundings []) (sample_tool UseDefault) start_state = (fst ?r, snd ?r)" by simp
  from tool_runs_approved [OF this] len hd show ?thesis unfolding req Let_def by (simp add: start strict)
qed

text \<open>A denied path, and a tool that wants to be escalated.\<close>

theorem denied_reads_keep_sandbox_witness:
  "(let es = trace (fst (orchestrator_run
      (sample_surroundings [new_entry (SpecialPath RootPath) WriteAccess, new_entry (UriPath tmp_uri) DenyAccess])
      (sample_tool RequireEscalated) start_state)) in
     attempts es \<noteq> [] \<and> list_all sandbox_requested (attempts es))"
proof -
  let ?env = "sample_surroundings [new_entry (SpecialPath RootPath) WriteAccess, new_entry (UriPath tmp_uri) DenyAccess]"
  let ?r = "orchestrator_run ?env (sample_tool RequireEscalated) start_state"
  have some: "attempts (trace (fst ?r)) \<noteq> []" by code_simp
  have policy: "call_policy ?env (sample_tool RequireEscalated) start_state
      = restricted_policy [new_entry (SpecialPath RootPath) WriteAccess, new_entry (UriPath tmp_uri) DenyAccess]"
    by code_simp
  have pref: "tool_preference (sample_tool RequireEscalated) w = AutoSandbox" for w by (simp add: sample_tool_def)
  have run: "orchestrator_run ?env (sample_tool RequireEscalated) start_state = (fst ?r, snd ?r)" by simp
  have "\<exists>es. trace (fst ?r) = trace start_state @ es \<and> list_all sandbox_requested (attempts es)"
    by (rule denied_reads_keep_sandbox [OF run, of "new_entry (UriPath tmp_uri) DenyAccess"])
       (simp_all only: policy pref, simp_all add: restricted_policy_def new_entry_def)
  with some show ?thesis by (simp add: start_state_def Let_def)
qed

end
