(* ===== verification/PatchSafety.thy ===== *)
theory PatchSafety
  imports ApprovalPolicy PermissionsCorrect
begin

text \<open>
  \<open>core/src/safety.rs\<close>: whether a patch is applied at once, shown to the user or rejected. A patch
  that may be applied writes only where the sandbox policy allows it.
\<close>

section \<open>Patches\<close>

datatype patch_change =
    AddChange str
  | DeleteChange str
  | UpdateChange str "file_url option" str

record patch_action_data =
  patch_changes :: "(file_url \<times> patch_change) list"

datatype safety_check = AutoApprove | AskUser | Reject str

datatype patch_sandbox_route = ExecutorManaged | Platform windows_sandbox_level

definition PATCH_REJECTED_OUTSIDE_PROJECT_REASON :: str where
  "PATCH_REJECTED_OUTSIDE_PROJECT_REASON =
     lit ''writing outside of the project; rejected by user approval settings''"

definition PATCH_REJECTED_READ_ONLY_REASON :: str where
  "PATCH_REJECTED_READ_ONLY_REASON =
     lit ''writing is blocked by read-only sandbox; rejected by user approval settings''"

definition change_allowed :: "(file_url \<Rightarrow> bool) \<Rightarrow> file_url \<times> patch_change \<Rightarrow> bool" where
  "change_allowed is_path_writable c =
     (case c of
        (path, UpdateChange diff move_path content) \<Rightarrow>
          is_path_writable path
          \<and> (case move_path of Some dest \<Rightarrow> is_path_writable dest | None \<Rightarrow> True)
      | (path, _) \<Rightarrow> is_path_writable path)"

definition is_write_patch_constrained_to_writable_paths ::
    "url_codec \<Rightarrow> policy_context \<Rightarrow> patch_action_data \<Rightarrow> sandbox_policy \<Rightarrow> bool" where
  "is_write_patch_constrained_to_writable_paths uc ctx action fs \<longleftrightarrow>
     has_full_disk_write_access_with_context uc ctx fs
     \<or> list_all (change_allowed (can_write_path uc ctx fs)) (patch_changes action)"

definition patch_rejection_reason :: "url_codec \<Rightarrow> policy_context \<Rightarrow> permission_profile \<Rightarrow> sandbox_policy \<Rightarrow> str" where
  "patch_rejection_reason uc ctx profile fs =
     (case profile of
        Managed p n \<Rightarrow>
          (if \<not> has_full_disk_write_access_with_context uc ctx fs \<and> \<not> has_configured_writable_roots uc ctx fs
           then PATCH_REJECTED_READ_ONLY_REASON else PATCH_REJECTED_OUTSIDE_PROJECT_REASON)
      | _ \<Rightarrow> PATCH_REJECTED_OUTSIDE_PROJECT_REASON)"

definition assess_patch_safety ::
    "url_codec \<Rightarrow> target_os \<Rightarrow> policy_context \<Rightarrow> patch_action_data \<Rightarrow> ask_for_approval \<Rightarrow> permission_profile
     \<Rightarrow> sandbox_policy \<Rightarrow> patch_sandbox_route \<Rightarrow> safety_check" where
  "assess_patch_safety uc os ctx action policy profile fs route =
     (if patch_changes action = [] then Reject (lit ''empty patch'')
      else if policy = UnlessTrusted then AskUser
      else
        (let rejects_sandbox_approval = policy = NeverAsk
               \<or> (case policy of Granular g \<Rightarrow> \<not> sandbox_approval g | _ \<Rightarrow> False);
             sandbox_available = (case route of
                 ExecutorManaged \<Rightarrow> True
               | Platform level \<Rightarrow> get_platform_sandbox os (level \<noteq> WindowsSandboxDisabled) \<noteq> None) in
         if is_write_patch_constrained_to_writable_paths uc ctx action fs
            \<and> ((case profile of Managed p n \<Rightarrow> False | _ \<Rightarrow> True) \<or> sandbox_available)
         then AutoApprove
         else if rejects_sandbox_approval then Reject (patch_rejection_reason uc ctx profile fs)
         else AskUser))"

section \<open>Where a patch writes\<close>

definition written_paths :: "patch_action_data \<Rightarrow> file_url list" where
  "written_paths action = concat (map (\<lambda>(path, change).
     path # (case change of UpdateChange diff (Some dest) content \<Rightarrow> [dest] | _ \<Rightarrow> [])) (patch_changes action))"

lemma changes_allowed_iff:
  "list_all (change_allowed P) (patch_changes action) \<longleftrightarrow> list_all P (written_paths action)"
proof -
  have "change_allowed P c \<longleftrightarrow>
      list_all P (case c of (path, change) \<Rightarrow> path # (case change of UpdateChange diff (Some dest) content \<Rightarrow> [dest] | _ \<Rightarrow> []))" for c
    by (cases c) (auto simp: change_allowed_def split: patch_change.splits option.splits)
  then show ?thesis by (induction "patch_changes action") (auto simp: written_paths_def list_all_iff)
qed

section \<open>Patches that are applied without a question\<close>




end
