(* ===== verification/NativePath.thy ===== *)
theory NativePath
  imports PathJoin
begin

text \<open>
  \<open>utils/path-uri/src/api_path_string.rs\<close> with \<open>inferred_native_path_string\<close> of \<open>lib.rs\<close>: URIs as
  the text of native paths, and texts of paths resolved against the working directory.
\<close>

datatype native_path_error =
    OpaqueFallback str
  | IncompatibleConvention str path_convention
  | InvalidNativePath str "path_convention option"
  | MissingBaseConvention str
  | MissingHomeDirectory str
  | MismatchedConvention str path_convention str path_convention
  | NativePathUri path_uri_error

section \<open>Rendering\<close>

definition decode_native_segment :: "url_codec \<Rightarrow> str \<Rightarrow> str" where
  "decode_native_segment uc s = from_utf8_lossy (decode_binary uc s)"

definition render_windows_opaque_fallback :: "nat list \<Rightarrow> str option" where
  "render_windows_opaque_fallback bytes =
     (if odd (length bytes) then None
      else
        (let wide = wide_chars bytes;
             has_drive_root = is_windows_drive_absolute_path wide;
             has_namespace_or_unc_root = starts_with_two_separators wide in
         if has_drive_root \<or> has_namespace_or_unc_root then Some (from_utf16_lossy wide) else None))"

definition render_opaque_fallback ::
    "file_url \<Rightarrow> nat list \<Rightarrow> path_convention \<Rightarrow> native_path_error + str" where
  "render_opaque_fallback u bytes convention =
     (case (case convention of
              PosixPath \<Rightarrow> (if bytes \<noteq> [] \<and> hd bytes = 47 then Some (from_utf8_lossy bytes) else None)
            | WindowsPath \<Rightarrow> render_windows_opaque_fallback bytes) of
        Some s \<Rightarrow> Inr s
      | None \<Rightarrow> Inl (OpaqueFallback (url_text u)))"

definition incompatible_convention :: "file_url \<Rightarrow> path_convention \<Rightarrow> native_path_error" where
  "incompatible_convention u convention = IncompatibleConvention (url_text u) convention"

definition render_posix_path :: "url_codec \<Rightarrow> file_url \<Rightarrow> native_path_error + str" where
  "render_posix_path uc u =
     (if url_host u \<noteq> None then Inl (incompatible_convention u PosixPath)
      else Inr (concat (map (\<lambda>s. 47 # decode_native_segment uc s) (url_segments u))))"

text \<open>The share of a server or the drive, with which a Windows path begins.\<close>

definition windows_root :: "url_codec \<Rightarrow> str option \<Rightarrow> str \<Rightarrow> str option" where
  "windows_root uc host first =
     (let s = decode_native_segment uc first in
      case host of
        Some h \<Rightarrow> (if s = [] then None else Some ([BACKSLASH, BACKSLASH] @ h @ [BACKSLASH] @ s))
      | None \<Rightarrow> (if length s = 2 \<and> is_ascii_letter (hd s) \<and> s ! 1 = 58 then Some s else None))"

definition render_windows_path :: "url_codec \<Rightarrow> file_url \<Rightarrow> native_path_error + str" where
  "render_windows_path uc u =
     (case url_segments u of
        [] \<Rightarrow> Inl (incompatible_convention u WindowsPath)
      | first # segments \<Rightarrow>
          (case windows_root uc (url_host u) first of
             None \<Rightarrow> Inl (incompatible_convention u WindowsPath)
           | Some root \<Rightarrow>
               (let rendered = root @ concat (map (\<lambda>s. BACKSLASH # decode_native_segment uc s) segments) in
                Inr (if (case rendered of [a, b] \<Rightarrow> a < 128 \<and> b = 58 | _ \<Rightarrow> False) then rendered @ [BACKSLASH] else rendered))))"

definition from_path_uri :: "url_codec \<Rightarrow> file_url \<Rightarrow> path_convention \<Rightarrow> native_path_error + str" where
  "from_path_uri uc u convention =
     (case decode_bad_path_uri uc u of
        Some bytes \<Rightarrow> render_opaque_fallback u bytes convention
      | None \<Rightarrow> (case convention of
          PosixPath \<Rightarrow> render_posix_path uc u
        | WindowsPath \<Rightarrow> render_windows_path uc u))"

definition inferred_native_path_string :: "url_codec \<Rightarrow> file_url \<Rightarrow> str" where
  "inferred_native_path_string uc u =
     (case infer_path_convention uc u of
        None \<Rightarrow> url_text u
      | Some convention \<Rightarrow> (case from_path_uri uc u convention of Inr s \<Rightarrow> s | Inl e \<Rightarrow> url_text u))"

section \<open>Resolving\<close>

definition to_path_uri :: "url_codec \<Rightarrow> str \<Rightarrow> path_convention \<Rightarrow> native_path_error + file_url" where
  "to_path_uri uc path convention =
     (case from_absolute_native_path uc path convention of
        Some u \<Rightarrow> Inr u
      | None \<Rightarrow> Inl (InvalidNativePath path (Some convention)))"

definition infer_absolute_path_convention :: "str \<Rightarrow> path_convention option" where
  "infer_absolute_path_convention path =
     (if is_windows_drive_absolute_path path \<or> starts_with path [BACKSLASH, BACKSLASH] then Some WindowsPath
      else if starts_with path [47] then Some PosixPath
      else None)"

text \<open>What follows the home directory, and its leading separators.\<close>

definition home_relative :: "bool \<Rightarrow> str \<Rightarrow> str option" where
  "home_relative is_windows path =
     (case strip_prefix (lit ''~/'') path of
        Some rest \<Rightarrow> Some rest
      | None \<Rightarrow> (if path = lit ''~'' then Some []
                else if is_windows then strip_prefix (lit ''~'' @ [BACKSLASH]) path else None))"

definition trim_separators :: "bool \<Rightarrow> str \<Rightarrow> str" where
  "trim_separators is_windows s = dropWhile (\<lambda>c. c = 47 \<or> is_windows \<and> c = BACKSLASH) s"

definition joined :: "url_codec \<Rightarrow> file_url \<Rightarrow> str \<Rightarrow> native_path_error + file_url" where
  "joined uc u path = (case uri_join uc u path of Inr v \<Rightarrow> Inr v | Inl e \<Rightarrow> Inl (NativePathUri e))"

definition resolve_against :: "url_codec \<Rightarrow> str \<Rightarrow> file_url \<Rightarrow> file_url option \<Rightarrow> native_path_error + file_url" where
  "resolve_against uc path cwd home =
     (case infer_path_convention uc cwd of
        None \<Rightarrow> Inl (MissingBaseConvention (url_text cwd))
      | Some convention \<Rightarrow>
          (let is_windows = convention = WindowsPath in
           case home_relative is_windows path of
             Some rest \<Rightarrow> (case home of
                 None \<Rightarrow> Inl (MissingHomeDirectory path)
               | Some h \<Rightarrow> joined uc h (trim_separators is_windows rest))
           | None \<Rightarrow>
               (if is_windows \<and> (starts_with path [47, 47] \<or> starts_with path [BACKSLASH, BACKSLASH])
                then to_path_uri uc path WindowsPath
                else case infer_absolute_path_convention path of
                  None \<Rightarrow> joined uc cwd path
                | Some path_convention \<Rightarrow>
                    (if path_convention = convention then to_path_uri uc path convention
                     else if path_convention = PosixPath \<and> is_windows then joined uc cwd path
                     else Inl (MismatchedConvention path path_convention (url_text cwd) convention)))))"

end
