(* ===== verification/ReadDeny.thy ===== *)
theory ReadDeny
  imports Permissions NativePath
begin

text \<open>
  The matcher of denied reads of \<open>protocol/src/permissions.rs\<close>: the roots that entries deny and
  the glob patterns, made absolute and compiled. A pattern that cannot be used denies every path,
  or is an error for callers that ask for one.

  Compiling a pattern is the crate \<open>globset\<close>: \<open>compile pattern convention\<close> is an error or the
  predicate of the compiled matcher on bytes; its options are functions of the convention.
\<close>

type_synonym glob_compiler = "str \<Rightarrow> path_convention \<Rightarrow> str + (nat list \<Rightarrow> bool)"

datatype invalid_glob_behavior = FailClosed | ReturnError

record prepared_read_deny =
  denied_roots :: "file_url list"
  deny_read_matchers :: "(nat list \<Rightarrow> bool) list"
  invalid_pattern :: bool

definition with_slashes :: "str \<Rightarrow> str" where
  "with_slashes s = map (\<lambda>c. if c = BACKSLASH then 47 else c) s"

definition build_glob_matcher :: "glob_compiler \<Rightarrow> str \<Rightarrow> path_convention \<Rightarrow> str + (nat list \<Rightarrow> bool)" where
  "build_glob_matcher compile pattern convention =
     compile (if convention = WindowsPath then with_slashes pattern else pattern) convention"

definition decoded_path_bytes :: "url_codec \<Rightarrow> file_url \<Rightarrow> nat list" where
  "decoded_path_bytes uc u = concat (map (\<lambda>s. 47 # decode_binary uc s) (url_segments u))"

section \<open>Patterns\<close>

text \<open>Unlike for paths, \<open>~\<close> alone is not the home directory here.\<close>

definition glob_home_relative :: "bool \<Rightarrow> str \<Rightarrow> str option" where
  "glob_home_relative is_windows pattern =
     (case strip_prefix (lit ''~/'') pattern of
        Some rest \<Rightarrow> Some rest
      | None \<Rightarrow> (if is_windows then strip_prefix (lit ''~'' @ [BACKSLASH]) pattern else None))"

definition deny_read_glob :: "url_codec \<Rightarrow> policy_context \<Rightarrow> str \<Rightarrow> str + str" where
  "deny_read_glob uc ctx pattern =
     (let is_windows = infer_path_convention uc (context_cwd ctx) = Some WindowsPath;
          resolve = (\<lambda>root pattern. case uri_join uc root pattern of
              Inr u \<Rightarrow> Inr (inferred_native_path_string uc u)
            | Inl e \<Rightarrow> Inl (lit ''unable to resolve deny-read glob pattern `'' @ pattern @ lit ''`'')) in
      case glob_home_relative is_windows pattern of
        None \<Rightarrow> resolve (context_cwd ctx) pattern
      | Some rest \<Rightarrow> (case user_home_dir ctx of
            Some home \<Rightarrow> resolve home (trim_separators is_windows rest)
          | None \<Rightarrow> Inl (lit ''unable to resolve deny-read glob pattern `'' @ pattern
                @ lit ''` without executor home'')))"

fun collect_results :: "('e + 'a) list \<Rightarrow> 'e + 'a list" where
  "collect_results [] = Inr []"
| "collect_results (Inl e # rs) = Inl e"
| "collect_results (Inr x # rs) = bind_result (collect_results rs) (\<lambda>xs. Inr (x # xs))"

fun deny_pattern :: "sandbox_entry \<Rightarrow> str list" where
  "deny_pattern e = (case entry_path e of
     GlobPattern g \<Rightarrow> (if entry_access e = DenyAccess then [g] else []) | _ \<Rightarrow> [])"

definition deny_read_globs :: "url_codec \<Rightarrow> policy_context \<Rightarrow> sandbox_policy \<Rightarrow> str + str list" where
  "deny_read_globs uc ctx p =
     collect_results (map (deny_read_glob uc ctx) (concat (map deny_pattern (entries p))))"

section \<open>Preparing\<close>

text \<open>A root that is the root of the file system is not among the denied roots.\<close>

definition is_file_system_root :: "url_codec \<Rightarrow> policy_context \<Rightarrow> file_url \<Rightarrow> bool" where
  "is_file_system_root uc ctx root =
     (case file_system_root uc ctx of
        Some r \<Rightarrow> uri_starts_with uc root r \<and> uri_starts_with uc r root
      | None \<Rightarrow> False)"

definition resolved_denied_roots :: "url_codec \<Rightarrow> policy_context \<Rightarrow> sandbox_policy \<Rightarrow> file_url list" where
  "resolved_denied_roots uc ctx p =
     map fst (filter (\<lambda>(root, access). access = DenyAccess \<and> \<not> is_file_system_root uc ctx root)
       (resolved_entries uc ctx p))"

fun compile_patterns ::
    "glob_compiler \<Rightarrow> path_convention \<Rightarrow> invalid_glob_behavior \<Rightarrow> str list
     \<Rightarrow> str + (nat list \<Rightarrow> bool) list \<times> bool" where
  "compile_patterns compile convention behavior [] = Inr ([], False)"
| "compile_patterns compile convention behavior (g # gs) =
     (case build_glob_matcher compile g convention of
        Inr matcher \<Rightarrow> bind_result (compile_patterns compile convention behavior gs)
          (\<lambda>(ms, invalid). Inr (matcher # ms, invalid))
      | Inl err \<Rightarrow> (case behavior of
            FailClosed \<Rightarrow> bind_result (compile_patterns compile convention behavior gs)
              (\<lambda>(ms, invalid). Inr (ms, True))
          | ReturnError \<Rightarrow> Inl (lit ''invalid deny-read glob pattern `'' @ g @ lit ''`: '' @ err)))"

definition prepare_deny_read_matcher ::
    "url_codec \<Rightarrow> glob_compiler \<Rightarrow> policy_context \<Rightarrow> invalid_glob_behavior \<Rightarrow> sandbox_policy
     \<Rightarrow> str + prepared_read_deny" where
  "prepare_deny_read_matcher uc compile ctx behavior p =
     (let roots = resolved_denied_roots uc ctx p;
          invalid = \<lparr>denied_roots = roots, deny_read_matchers = [], invalid_pattern = True\<rparr> in
      case infer_path_convention uc (context_cwd ctx) of
        None \<Rightarrow> Inr invalid
      | Some convention \<Rightarrow>
     (case deny_read_globs uc ctx p of
        Inl err \<Rightarrow> (case behavior of FailClosed \<Rightarrow> Inr invalid | ReturnError \<Rightarrow> Inl err)
      | Inr patterns \<Rightarrow> bind_result (compile_patterns compile convention behavior patterns)
          (\<lambda>(ms, bad). Inr \<lparr>denied_roots = roots, deny_read_matchers = ms, invalid_pattern = bad\<rparr>)))"

section \<open>Matching\<close>

definition candidate_bytes :: "url_codec \<Rightarrow> path_convention \<Rightarrow> file_url \<Rightarrow> nat list" where
  "candidate_bytes uc convention u =
     (case convention of
        PosixPath \<Rightarrow> decoded_path_bytes uc u
      | WindowsPath \<Rightarrow> as_bytes (with_slashes (inferred_native_path_string uc u)))"

definition matches_prepared_read_deny ::
    "url_codec \<Rightarrow> policy_context \<Rightarrow> prepared_read_deny \<Rightarrow> file_url \<Rightarrow> bool" where
  "matches_prepared_read_deny uc ctx prepared u =
     (case infer_path_convention uc (context_cwd ctx) of
        None \<Rightarrow> True
      | Some convention \<Rightarrow>
          (if infer_path_convention uc u \<noteq> Some convention \<or> lexical_depth uc u = None
              \<or> lexical_depth uc (context_cwd ctx) = None then True
           else if invalid_pattern prepared then True
           else list_ex (uri_starts_with uc u) (denied_roots prepared)
             \<or> list_ex (\<lambda>m. m (candidate_bytes uc convention u)) (deny_read_matchers prepared)))"

text \<open>\<open>ReadDenyMatcher::from_context\<close>: \<open>None\<close> when nothing is denied.\<close>

definition read_deny_matcher ::
    "url_codec \<Rightarrow> glob_compiler \<Rightarrow> policy_context \<Rightarrow> sandbox_policy \<Rightarrow> prepared_read_deny option" where
  "read_deny_matcher uc compile ctx p =
     (if list_ex (\<lambda>e. entry_access e = DenyAccess) (entries p)
      then (case prepare_deny_read_matcher uc compile ctx FailClosed p of
              Inr prepared \<Rightarrow> Some prepared | Inl err \<Rightarrow> None)
      else None)"

section \<open>Failing closed\<close>

lemma compile_patterns_FailClosed: "\<exists>r. compile_patterns compile convention FailClosed gs = Inr r"
proof (induction gs)
  case Nil
  show ?case using compile_patterns.simps(1) by (rule exI)
next
  case (Cons g gs)
  then show ?case by (cases "build_glob_matcher compile g convention") auto
qed

lemma prepare_FailClosed: "\<exists>m. prepare_deny_read_matcher uc compile ctx FailClosed p = Inr m"
proof -
  have "\<exists>ms bad. compile_patterns compile c FailClosed gs = Inr (ms, bad)" for c gs
    using compile_patterns_FailClosed [of compile c gs] by auto
  then show ?thesis
    by (auto simp: prepare_deny_read_matcher_def Let_def split: option.splits sum.splits)
qed

text \<open>A matcher that fails closed is always built, so a deny entry is never lost for want of one.\<close>

lemma read_deny_matcher_None:
  "read_deny_matcher uc compile ctx p = None \<longleftrightarrow> \<not> list_ex (\<lambda>e. entry_access e = DenyAccess) (entries p)"
  using prepare_FailClosed [of uc compile ctx p] by (auto simp: read_deny_matcher_def)

end
