(* ===== verification/PermissionGrants.thy ===== *)
theory PermissionGrants
  imports ApprovalPolicy ReadDeny
begin

text \<open>
  \<open>sandboxing/src/policy_transforms.rs\<close>: permissions asked for on top of a policy are normalized,
  made independent of the working directory, merged, intersected with what the user granted and
  merged into the policy under which a command runs.
\<close>

section \<open>Entries\<close>

definition no_file_system :: file_system_permissions where
  "no_file_system = \<lparr>permission_entries = [], permission_glob_depth = None\<rparr>"

definition no_permissions :: additional_permissions where
  "no_permissions = \<lparr>additional_network = None, additional_file_system = None\<rparr>"

definition permissions_empty :: "additional_permissions \<Rightarrow> bool" where
  "permissions_empty a \<longleftrightarrow> additional_network a = None \<and> additional_file_system a = None"

definition nonempty_file_system :: "file_system_permissions \<Rightarrow> file_system_permissions option" where
  "nonempty_file_system fs = (if permission_entries fs = [] then None else Some fs)"

definition push_entry :: "url_codec \<Rightarrow> sandbox_entry \<Rightarrow> sandbox_entry list \<Rightarrow> sandbox_entry list" where
  "push_entry uc e es = (if list_ex (\<lambda>d. same_entry uc d e) es then es else es @ [e])"

definition push_entries :: "url_codec \<Rightarrow> sandbox_entry list \<Rightarrow> sandbox_entry list \<Rightarrow> sandbox_entry list" where
  "push_entries uc new es = fold (push_entry uc) new es"

definition is_root_entry :: "sandbox_entry \<Rightarrow> bool" where
  "is_root_entry e \<longleftrightarrow> entry_path e = SpecialPath RootPath"

definition is_glob_entry :: "sandbox_entry \<Rightarrow> bool" where
  "is_glob_entry e \<longleftrightarrow> (case entry_path e of GlobPattern g \<Rightarrow> True | _ \<Rightarrow> False)"

fun access_covers :: "access_mode \<Rightarrow> access_mode \<Rightarrow> bool" where
  "access_covers requested ReadAccess = can_read requested"
| "access_covers requested WriteAccess = can_write requested"
| "access_covers requested DenyAccess = False"

section \<open>Normalizing\<close>

definition normalize_additional_permissions ::
    "url_codec \<Rightarrow> additional_permissions \<Rightarrow> str + additional_permissions" where
  "normalize_additional_permissions uc a =
     (let network = (if additional_network a = Some None then None else additional_network a) in
      case additional_file_system a of
        None \<Rightarrow> Inr \<lparr>additional_network = network, additional_file_system = None\<rparr>
      | Some fs \<Rightarrow>
          (if list_ex (\<lambda>e. is_glob_entry e \<and> entry_access e \<noteq> DenyAccess) (permission_entries fs)
           then Inl (lit ''glob file system permissions only support deny-read entries'')
           else Inr \<lparr>additional_network = network, additional_file_system = nonempty_file_system
             (fs\<lparr>permission_entries := push_entries uc (permission_entries fs) []\<rparr>)\<rparr>))"

text \<open>A path of another platform than the working directory, or one that cannot be resolved.\<close>

definition mismatched_path :: "url_codec \<Rightarrow> policy_context \<Rightarrow> sandbox_entry \<Rightarrow> file_url option" where
  "mismatched_path uc ctx e =
     (case entry_path e of
        UriPath u \<Rightarrow> (if infer_path_convention uc u = None
             \<or> infer_path_convention uc u \<noteq> infer_path_convention uc (context_cwd ctx)
             \<or> (case uri_join uc u (lit ''.'') of Inl err \<Rightarrow> True | Inr v \<Rightarrow> False)
           then Some u else None)
      | _ \<Rightarrow> None)"

definition normalize_additional_permissions_with_context ::
    "url_codec \<Rightarrow> policy_context \<Rightarrow> additional_permissions \<Rightarrow> str + additional_permissions" where
  "normalize_additional_permissions_with_context uc ctx a =
     bind_result (normalize_additional_permissions uc a) (\<lambda>normalized.
       case additional_file_system normalized of
         None \<Rightarrow> Inr normalized
       | Some fs \<Rightarrow> (case find_some (mismatched_path uc ctx) (permission_entries fs) of
             None \<Rightarrow> Inr normalized
           | Some u \<Rightarrow> Inl (lit ''permission path `'' @ url_text u
               @ lit ''` does not match executor cwd `'' @ url_text (context_cwd ctx) @ lit ''`'')))"

section \<open>Materializing\<close>

definition ok_option :: "'e + 'a \<Rightarrow> 'a option" where
  "ok_option r = (case r of Inr x \<Rightarrow> Some x | Inl e \<Rightarrow> None)"

definition resolve_permission_path :: "url_codec \<Rightarrow> policy_context \<Rightarrow> fs_path \<Rightarrow> file_url option" where
  "resolve_permission_path uc ctx path =
     (case path of
        UriPath u \<Rightarrow> Some u
      | GlobPattern g \<Rightarrow> None
      | SpecialPath value \<Rightarrow> (case value of
          RootPath \<Rightarrow> file_system_root uc ctx
        | ProjectRoots subpath \<Rightarrow> (case workspace_roots ctx of
            [] \<Rightarrow> None
          | root # roots \<Rightarrow> (case subpath of Some s \<Rightarrow> ok_option (uri_join uc root s) | None \<Rightarrow> Some root))
        | Tmpdir \<Rightarrow> (case temporary_directories ctx of Some (d # ds) \<Rightarrow> Some d | _ \<Rightarrow> None)
        | SlashTmp \<Rightarrow> (if infer_path_convention uc (context_cwd ctx) = Some PosixPath
            then ok_option (uri_join uc (context_cwd ctx) (lit ''/tmp'')) else None)
        | MinimalPath \<Rightarrow> None
        | UnknownSpecial path subpath \<Rightarrow> None))"

definition materialized_path_entry :: "sandbox_entry \<Rightarrow> file_url \<Rightarrow> sandbox_entry" where
  "materialized_path_entry e u = e\<lparr>entry_path := UriPath u\<rparr>"

definition materialize_cwd_dependent_entry ::
    "url_codec \<Rightarrow> policy_context \<Rightarrow> sandbox_entry \<Rightarrow> sandbox_entry option" where
  "materialize_cwd_dependent_entry uc ctx e =
     (case entry_path e of
        GlobPattern pattern \<Rightarrow>
          (let is_windows = infer_path_convention uc (context_cwd ctx) = Some WindowsPath in
           Option.bind (case home_relative is_windows pattern of
               Some rest \<Rightarrow> map_option (\<lambda>home. (home, trim_separators is_windows rest)) (user_home_dir ctx)
             | None \<Rightarrow> Some (context_cwd ctx, pattern)) (\<lambda>(root, pattern).
           map_option (\<lambda>u. e\<lparr>entry_path := GlobPattern (inferred_native_path_string uc u)\<rparr>)
             (ok_option (uri_join uc root pattern))))
      | _ \<Rightarrow> Some e)"

text \<open>
  The entries that stand for one; \<open>None\<close> when the whole fails. What cannot be resolved is dropped,
  a denial that cannot be resolved is a failure.
\<close>

definition materialize_project_roots ::
    "url_codec \<Rightarrow> policy_context \<Rightarrow> sandbox_entry \<Rightarrow> sandbox_entry list option" where
  "materialize_project_roots uc ctx e =
     (let paths = map (\<lambda>root. resolve_permission_path uc (ctx\<lparr>workspace_roots := [root]\<rparr>) (entry_path e))
            (workspace_roots ctx) in
      if entry_access e = DenyAccess \<and> (None \<in> set paths \<or> paths = []) then None
      else Some (map (materialized_path_entry e \<circ> the) (filter (\<lambda>p. p \<noteq> None) paths)))"

definition materialize_entry ::
    "url_codec \<Rightarrow> policy_context \<Rightarrow> sandbox_entry \<Rightarrow> sandbox_entry list option" where
  "materialize_entry uc ctx e =
     (case entry_path e of
        SpecialPath (ProjectRoots subpath) \<Rightarrow> materialize_project_roots uc ctx e
      | SpecialPath Tmpdir \<Rightarrow> (case temporary_directories ctx of
            None \<Rightarrow> (if entry_access e = DenyAccess then None else Some [e])
          | Some ds \<Rightarrow> Some (map (materialized_path_entry e) ds))
      | SpecialPath RootPath \<Rightarrow>
          (if resolve_permission_path uc ctx (entry_path e) = None then None else Some [e])
      | _ \<Rightarrow> (case materialize_cwd_dependent_entry uc ctx e of
            Some d \<Rightarrow> Some [d]
          | None \<Rightarrow> (if entry_access e = DenyAccess then None else Some [])))"

definition materialize_context_dependent_entries ::
    "url_codec \<Rightarrow> policy_context \<Rightarrow> sandbox_entry list \<Rightarrow> sandbox_entry list option" where
  "materialize_context_dependent_entries uc ctx es =
     map_option concat (those (map (materialize_entry uc ctx) es))"

definition materialize_additional_permissions_with_context ::
    "url_codec \<Rightarrow> policy_context \<Rightarrow> additional_permissions \<Rightarrow> str + additional_permissions" where
  "materialize_additional_permissions_with_context uc ctx a =
     (case additional_file_system a of
        None \<Rightarrow> normalize_additional_permissions_with_context uc ctx a
      | Some fs \<Rightarrow>
          (case materialize_context_dependent_entries uc ctx (permission_entries fs) of
             None \<Rightarrow> Inl (lit ''unable to resolve permission path in `'' @ url_text (context_cwd ctx) @ lit ''`'')
           | Some es \<Rightarrow> normalize_additional_permissions_with_context uc ctx
               (a\<lparr>additional_file_system := Some (fs\<lparr>permission_entries := es\<rparr>)\<rparr>)))"

section \<open>Depths of scans\<close>

datatype glob_scan_depth = Bounded nat | Unbounded

definition effective_glob_scan_depth :: "sandbox_entry list \<Rightarrow> nat option \<Rightarrow> glob_scan_depth option" where
  "effective_glob_scan_depth es depth =
     (if list_ex (\<lambda>e. entry_access e = DenyAccess \<and> is_glob_entry e) es
      then Some (case depth of Some d \<Rightarrow> Bounded d | None \<Rightarrow> Unbounded) else None)"

definition merge_glob_scan_max_depth ::
    "sandbox_entry list \<Rightarrow> nat option \<Rightarrow> sandbox_entry list \<Rightarrow> nat option \<Rightarrow> nat option" where
  "merge_glob_scan_max_depth left left_depth right right_depth =
     (case (effective_glob_scan_depth left left_depth, effective_glob_scan_depth right right_depth) of
        (Some Unbounded, _) \<Rightarrow> None
      | (_, Some Unbounded) \<Rightarrow> None
      | (Some (Bounded l), Some (Bounded r)) \<Rightarrow> Some (max l r)
      | (Some (Bounded d), None) \<Rightarrow> Some d
      | (None, Some (Bounded d)) \<Rightarrow> Some d
      | (None, None) \<Rightarrow> None)"

text \<open>\<open>NonZeroUsize::new\<close>.\<close>

definition non_zero :: "nat option \<Rightarrow> nat option" where
  "non_zero d = (case d of Some 0 \<Rightarrow> None | _ \<Rightarrow> d)"

section \<open>Merging\<close>

definition merge_permission_entries :: "url_codec \<Rightarrow> sandbox_entry list \<Rightarrow> sandbox_entry list \<Rightarrow> sandbox_entry list" where
  "merge_permission_entries uc base new = push_entries uc (base @ new) []"

definition merge_file_systems ::
    "url_codec \<Rightarrow> file_system_permissions \<Rightarrow> file_system_permissions \<Rightarrow> file_system_permissions" where
  "merge_file_systems uc base new =
     \<lparr>permission_entries = merge_permission_entries uc (permission_entries base) (permission_entries new),
      permission_glob_depth = non_zero (merge_glob_scan_max_depth
        (permission_entries base) (permission_glob_depth base)
        (permission_entries new) (permission_glob_depth new))\<rparr>"

definition unless_empty :: "additional_permissions \<Rightarrow> additional_permissions option" where
  "unless_empty a = (if permissions_empty a then None else Some a)"

definition merge_permission_profiles ::
    "url_codec \<Rightarrow> additional_permissions option \<Rightarrow> additional_permissions option \<Rightarrow> additional_permissions option" where
  "merge_permission_profiles uc base permissions =
     (case permissions of
        None \<Rightarrow> base
      | Some new \<Rightarrow> (case base of
          None \<Rightarrow> unless_empty new
        | Some old \<Rightarrow> unless_empty
            \<lparr>additional_network =
               (if additional_network old = Some (Some True) \<or> additional_network new = Some (Some True)
                then Some (Some True) else None),
             additional_file_system =
               (case (additional_file_system old, additional_file_system new) of
                  (Some b, Some p) \<Rightarrow> nonempty_file_system (merge_file_systems uc b p)
                | (Some b, None) \<Rightarrow> Some b
                | (None, p) \<Rightarrow> p)\<rparr>))"

section \<open>Intersecting\<close>

text \<open>A path of the pattern that every match lies below; \<open>None\<close> when there is none.\<close>

definition is_wildcard :: "uchar \<Rightarrow> bool" where
  "is_wildcard c \<longleftrightarrow> c \<in> {42, 63, 91, 93}"

definition glob_static_prefix_path :: "url_codec \<Rightarrow> policy_context \<Rightarrow> str \<Rightarrow> file_url option" where
  "glob_static_prefix_path uc ctx pattern =
     (let is_windows = infer_path_convention uc (context_cwd ctx) = Some WindowsPath;
          prefix = takeWhile (\<lambda>c. \<not> is_wildcard c) pattern;
          has_wildcard = prefix \<noteq> pattern;
          wildcard_in_segment = (has_wildcard
            \<and> \<not> (ends_with prefix [47] \<or> is_windows \<and> ends_with prefix [BACKSLASH])) in
      if has_wildcard \<and> prefix = [] then None
      else Option.bind (ok_option (uri_join uc (context_cwd ctx) prefix)) (\<lambda>u.
        if wildcard_in_segment then uri_parent uc u else Some u))"

definition paths_overlap :: "url_codec \<Rightarrow> file_url \<Rightarrow> file_url \<Rightarrow> bool" where
  "paths_overlap uc left right \<longleftrightarrow> overlaps uc left right \<noteq> Some False"

definition deny_entry_constrains_accepted_grant ::
    "url_codec \<Rightarrow> policy_context \<Rightarrow> sandbox_entry \<Rightarrow> sandbox_entry list \<Rightarrow> bool" where
  "deny_entry_constrains_accepted_grant uc ctx deny accepted =
     list_ex (\<lambda>e.
       if is_root_entry e then True
       else case resolve_permission_path uc ctx (entry_path e) of
         None \<Rightarrow> True
       | Some grant \<Rightarrow>
           (case (case entry_path deny of
                    GlobPattern pattern \<Rightarrow> glob_static_prefix_path uc ctx pattern
                  | _ \<Rightarrow> resolve_permission_path uc ctx (entry_path deny)) of
              None \<Rightarrow> True
            | Some path \<Rightarrow> paths_overlap uc path grant))
       (filter (\<lambda>e. can_read (entry_access e)) accepted)"

definition granted_file_system_entry_within_request ::
    "url_codec \<Rightarrow> policy_context \<Rightarrow> file_system_permissions \<Rightarrow> sandbox_policy \<Rightarrow> prepared_read_deny option
     \<Rightarrow> sandbox_entry \<Rightarrow> bool" where
  "granted_file_system_entry_within_request uc ctx requested requested_policy matcher granted =
     (let convention = infer_path_convention uc (context_cwd ctx) in
      if \<not> can_read (entry_access granted)
         \<or> entry_path granted = SpecialPath SlashTmp \<and> convention \<noteq> Some PosixPath then False
      else if convention = Some WindowsPath \<and> is_root_entry granted
         \<and> \<not> list_ex (\<lambda>r. is_root_entry r \<and> access_covers (entry_access r) (entry_access granted))
              (permission_entries requested) then False
      else case resolve_permission_path uc ctx (entry_path granted) of
        Some u \<Rightarrow>
          (if infer_path_convention uc u \<noteq> convention
              \<or> (case matcher of Some m \<Rightarrow> matches_prepared_read_deny uc ctx m u | None \<Rightarrow> False) then False
           else access_covers (resolve_access uc ctx requested_policy u) (entry_access granted))
      | None \<Rightarrow> list_ex (\<lambda>r. access_covers (entry_access r) (entry_access granted)
            \<and> same_fs_path uc (entry_path r) (entry_path granted)) (permission_entries requested))"

text \<open>The denials of a side that concern what was accepted.\<close>

definition constraining_denies ::
    "url_codec \<Rightarrow> policy_context \<Rightarrow> sandbox_entry list \<Rightarrow> sandbox_entry list \<Rightarrow> sandbox_entry list" where
  "constraining_denies uc ctx source accepted =
     filter (\<lambda>e. entry_access e = DenyAccess \<and> deny_entry_constrains_accepted_grant uc ctx e accepted) source"

text \<open>The entries, and the denials that are retained.\<close>

definition retain_constraining_deny_entries ::
    "url_codec \<Rightarrow> policy_context \<Rightarrow> sandbox_entry list \<Rightarrow> sandbox_entry list \<Rightarrow> sandbox_entry list
     \<Rightarrow> sandbox_entry list \<times> sandbox_entry list" where
  "retain_constraining_deny_entries uc ctx source accepted output =
     (let retained = constraining_denies uc ctx source accepted in (push_entries uc retained output, retained))"

definition intersect_file_systems ::
    "url_codec \<Rightarrow> glob_compiler \<Rightarrow> policy_context \<Rightarrow> file_system_permissions \<Rightarrow> file_system_permissions
     \<Rightarrow> file_system_permissions option" where
  "intersect_file_systems uc compile ctx requested granted =
     Option.bind (materialize_context_dependent_entries uc ctx (permission_entries requested)) (\<lambda>rs.
     Option.bind (materialize_context_dependent_entries uc ctx (permission_entries granted)) (\<lambda>gs.
       let policy = restricted_policy rs;
           matcher = read_deny_matcher uc compile ctx policy;
           accepted = push_entries uc
             (filter (granted_file_system_entry_within_request uc ctx requested policy matcher) gs) [];
           (es, requested_denies) = retain_constraining_deny_entries uc ctx rs accepted accepted;
           (es, granted_denies) = retain_constraining_deny_entries uc ctx gs accepted es in
       Some \<lparr>permission_entries = es,
             permission_glob_depth = non_zero (merge_glob_scan_max_depth
               requested_denies (permission_glob_depth requested)
               granted_denies (permission_glob_depth granted))\<rparr>))"

definition intersect_permission_profiles_with_context ::
    "url_codec \<Rightarrow> glob_compiler \<Rightarrow> policy_context \<Rightarrow> additional_permissions \<Rightarrow> additional_permissions
     \<Rightarrow> additional_permissions" where
  "intersect_permission_profiles_with_context uc compile ctx requested granted =
     \<lparr>additional_network =
        (if additional_network requested = Some (Some True) \<and> additional_network granted = Some (Some True)
         then Some (Some True) else None),
      additional_file_system = Option.bind (additional_file_system requested) (\<lambda>r.
        Option.bind (intersect_file_systems uc compile ctx r
            (case additional_file_system granted of Some g \<Rightarrow> g | None \<Rightarrow> no_file_system))
          nonempty_file_system)\<rparr>"

section \<open>The policy in effect\<close>

definition merge_file_system_policy_with_additional_permissions ::
    "url_codec \<Rightarrow> sandbox_policy \<Rightarrow> file_system_permissions \<Rightarrow> sandbox_policy" where
  "merge_file_system_policy_with_additional_permissions uc p fs =
     (if sandbox_kind p = Restricted then
        p\<lparr>entries := push_entries uc (permission_entries fs) (entries p),
          glob_scan_max_depth := merge_glob_scan_max_depth (entries p) (glob_scan_max_depth p)
            (permission_entries fs) (permission_glob_depth fs)\<rparr>
      else p)"

definition effective_file_system_sandbox_policy ::
    "url_codec \<Rightarrow> sandbox_policy \<Rightarrow> additional_permissions option \<Rightarrow> sandbox_policy" where
  "effective_file_system_sandbox_policy uc p additional =
     (case Option.bind additional additional_file_system of
        None \<Rightarrow> p
      | Some fs \<Rightarrow> (if permission_entries fs = [] then p
          else merge_file_system_policy_with_additional_permissions uc p fs))"

definition effective_permission_profile ::
    "url_codec \<Rightarrow> permission_profile \<Rightarrow> additional_permissions option \<Rightarrow> permission_profile option" where
  "effective_permission_profile uc profile additional =
     from_runtime_permissions_with_enforcement (enforcement profile)
       (effective_file_system_sandbox_policy uc (file_system_sandbox_policy profile) additional)
       (effective_network_sandbox_policy (network_policy_of_profile profile) additional)"

end
