(* ===== verification/GrantedPermissions.thy ===== *)
theory GrantedPermissions
  imports PermissionGrants
begin

text \<open>
  What becomes of a request for permissions: \<open>request_permissions_for_environment\<close>,
  \<open>notify_request_permissions_response\<close> and the grants of \<open>core/src/session/mod.rs\<close>, kept for the
  turn (\<open>core/src/state/turn.rs\<close>) or the session (\<open>core/src/state/session.rs\<close>), and their use by a
  call (\<open>core/src/tools/handlers/mod.rs\<close>).

  A turn keeps its state after it has ended for whoever still holds it, so turns have numbers. The
  context of an environment, of which \<open>None\<close> says that it has no working directory, is an argument.
\<close>

section \<open>Requests and answers\<close>

datatype permission_grant_scope = TurnScope | SessionScope

record permissions_response =
  response_permissions :: additional_permissions
  response_scope :: permission_grant_scope
  response_strict :: bool

definition nothing_granted :: permissions_response where
  "nothing_granted = \<lparr>response_permissions = no_permissions, response_scope = TurnScope, response_strict = False\<rparr>"

definition normalize_request_permissions_response ::
    "url_codec \<Rightarrow> glob_compiler \<Rightarrow> policy_context \<Rightarrow> additional_permissions \<Rightarrow> permissions_response
     \<Rightarrow> permissions_response" where
  "normalize_request_permissions_response uc compile ctx requested response =
     (if response_strict response \<and> response_scope response = SessionScope then nothing_granted
      else if permissions_empty (response_permissions response) then response
      else response\<lparr>response_permissions :=
        intersect_permission_profiles_with_context uc compile ctx requested (response_permissions response)\<rparr>)"

section \<open>Grants\<close>

type_synonym environment_grants = "str \<rightharpoonup> additional_permissions"

record pending_request =
  pending_requested :: additional_permissions
  pending_environment :: str

record turn_grants =
  turn_granted :: environment_grants
  strict_auto_review_enabled :: bool
  pending_requests :: "str \<rightharpoonup> pending_request"

record grant_state =
  session_granted :: environment_grants
  turns :: "turn_grants list"
  active_turn :: "nat option"

definition new_turn :: turn_grants where
  "new_turn = \<lparr>turn_granted = Map.empty, strict_auto_review_enabled = False, pending_requests = Map.empty\<rparr>"

definition new_session :: grant_state where
  "new_session = \<lparr>session_granted = Map.empty, turns = [], active_turn = None\<rparr>"

definition record_granted_permissions ::
    "url_codec \<Rightarrow> str \<Rightarrow> additional_permissions \<Rightarrow> environment_grants \<Rightarrow> environment_grants" where
  "record_granted_permissions uc env permissions granted =
     (case merge_permission_profiles uc (granted env) (Some permissions) of
        Some p \<Rightarrow> granted(env \<mapsto> p) | None \<Rightarrow> granted)"

definition update_turn :: "nat option \<Rightarrow> (turn_grants \<Rightarrow> turn_grants) \<Rightarrow> grant_state \<Rightarrow> grant_state" where
  "update_turn turn f st =
     (case turn of
        Some t \<Rightarrow> (if t < length (turns st) then st\<lparr>turns := (turns st)[t := f (turns st ! t)]\<rparr> else st)
      | None \<Rightarrow> st)"

definition record_turn_grant ::
    "url_codec \<Rightarrow> str \<Rightarrow> permissions_response \<Rightarrow> turn_grants \<Rightarrow> turn_grants" where
  "record_turn_grant uc env response ts =
     ts\<lparr>turn_granted := record_granted_permissions uc env (response_permissions response) (turn_granted ts),
        strict_auto_review_enabled := (strict_auto_review_enabled ts \<or> response_strict response)\<rparr>"

definition record_granted_request_permissions_for_turn ::
    "url_codec \<Rightarrow> permissions_response \<Rightarrow> str \<Rightarrow> nat option \<Rightarrow> grant_state \<Rightarrow> grant_state" where
  "record_granted_request_permissions_for_turn uc response env originating st =
     (if permissions_empty (response_permissions response) then st
      else case response_scope response of
        TurnScope \<Rightarrow> update_turn originating (record_turn_grant uc env response) st
      | SessionScope \<Rightarrow> st\<lparr>session_granted :=
          record_granted_permissions uc env (response_permissions response) (session_granted st)\<rparr>)"

section \<open>Asking\<close>

text \<open>What the automatic review's decision grants, and for how long.\<close>

definition review_grant ::
    "additional_permissions \<Rightarrow> review_decision \<Rightarrow> additional_permissions \<times> permission_grant_scope" where
  "review_grant requested decision =
     (case decision of
        Approved \<Rightarrow> (requested, TurnScope)
      | ApprovedExecpolicyAmendment a \<Rightarrow> (requested, TurnScope)
      | NetworkPolicyAmendment host action \<Rightarrow>
          (case action of AllowHost \<Rightarrow> (requested, TurnScope) | DenyHost \<Rightarrow> (no_permissions, TurnScope))
      | ApprovedForSession \<Rightarrow> (requested, SessionScope)
      | ApprovedMcpPolicyAmendment \<Rightarrow> (no_permissions, TurnScope)
      | Abort \<Rightarrow> (no_permissions, TurnScope)
      | Denied reason \<Rightarrow> (no_permissions, TurnScope)
      | TimedOut \<Rightarrow> (no_permissions, TurnScope))"

definition may_request_permissions :: "ask_for_approval \<Rightarrow> bool" where
  "may_request_permissions policy =
     (case policy of NeverAsk \<Rightarrow> False | Granular g \<Rightarrow> request_permissions_approval g
      | OnRequest \<Rightarrow> True | UnlessTrusted \<Rightarrow> True)"

text \<open>
  The answer, or \<open>None\<close> while the user is asked. The review is cancelled (\<open>None\<close>), leaves the
  request to the user (\<open>Some None\<close>) or decides; the turn is the one that was active before it.
\<close>

datatype review_answer = ReviewCancelled | NotReviewed | Reviewed review_decision

datatype request_result = Answered permissions_response | RequestCancelled | UserAsked

definition insert_pending :: "str \<Rightarrow> pending_request \<Rightarrow> turn_grants \<Rightarrow> turn_grants" where
  "insert_pending call p ts = ts\<lparr>pending_requests := (pending_requests ts)(call \<mapsto> p)\<rparr>"

definition request_permissions_for_environment ::
    "url_codec \<Rightarrow> glob_compiler \<Rightarrow> (str \<rightharpoonup> policy_context option) \<Rightarrow> ask_for_approval \<Rightarrow> str
     \<Rightarrow> additional_permissions \<Rightarrow> str \<Rightarrow> nat option \<Rightarrow> review_answer \<Rightarrow> grant_state
     \<Rightarrow> grant_state \<times> request_result" where
  "request_permissions_for_environment uc compile environments policy call requested env originating review st =
     (case environments env of
        None \<Rightarrow> (st, Answered nothing_granted)
      | Some context \<Rightarrow>
     (if \<not> may_request_permissions policy then (st, Answered nothing_granted)
      else case context of
        None \<Rightarrow> (st, Answered nothing_granted)
      | Some ctx \<Rightarrow>
     (case review of
        ReviewCancelled \<Rightarrow> (st, RequestCancelled)
      | Reviewed decision \<Rightarrow>
          (let (permissions, scope) = review_grant requested decision;
               response = normalize_request_permissions_response uc compile ctx requested
                 \<lparr>response_permissions = permissions, response_scope = scope, response_strict = False\<rparr> in
           (record_granted_request_permissions_for_turn uc response env originating st, Answered response))
      | NotReviewed \<Rightarrow>
          (update_turn (active_turn st)
             (insert_pending call \<lparr>pending_requested = requested, pending_environment = env\<rparr>) st, UserAsked))))"

section \<open>Answering\<close>

definition pending_in :: "str \<Rightarrow> grant_state \<Rightarrow> pending_request option" where
  "pending_in call st =
     (case active_turn st of
        Some t \<Rightarrow> (if t < length (turns st) then pending_requests (turns st ! t) call else None)
      | None \<Rightarrow> None)"

definition remove_pending :: "str \<Rightarrow> grant_state \<Rightarrow> grant_state" where
  "remove_pending call st = update_turn (active_turn st)
     (\<lambda>ts. ts\<lparr>pending_requests := (pending_requests ts)(call := None)\<rparr>) st"

definition notify_request_permissions_response ::
    "url_codec \<Rightarrow> glob_compiler \<Rightarrow> (str \<rightharpoonup> policy_context option) \<Rightarrow> str \<Rightarrow> permissions_response
     \<Rightarrow> grant_state \<Rightarrow> grant_state \<times> permissions_response option" where
  "notify_request_permissions_response uc compile environments call response st =
     (case pending_in call st of
        None \<Rightarrow> (st, None)
      | Some entry \<Rightarrow>
          (let response = (case environments (pending_environment entry) of
                 Some (Some ctx) \<Rightarrow> normalize_request_permissions_response uc compile ctx
                   (pending_requested entry) response
               | _ \<Rightarrow> nothing_granted) in
           (record_granted_request_permissions_for_turn uc response (pending_environment entry)
              (active_turn st) (remove_pending call st), Some response)))"

section \<open>Turns\<close>

definition start_turn :: "grant_state \<Rightarrow> grant_state" where
  "start_turn st =
     (if active_turn st = None
      then st\<lparr>turns := turns st @ [new_turn], active_turn := Some (length (turns st))\<rparr> else st)"

text \<open>A turn that was interrupted is taken first; what waits in it is dropped later.\<close>

definition take_active_turn :: "grant_state \<Rightarrow> grant_state" where
  "take_active_turn st = st\<lparr>active_turn := None\<rparr>"

definition clear_pending_waiters :: "nat \<Rightarrow> grant_state \<Rightarrow> grant_state" where
  "clear_pending_waiters t st = update_turn (Some t) (\<lambda>ts. ts\<lparr>pending_requests := Map.empty\<rparr>) st"

definition granted_turn_permissions :: "grant_state \<Rightarrow> environment_grants" where
  "granted_turn_permissions st env =
     (case active_turn st of
        Some t \<Rightarrow> (if t < length (turns st) then turn_granted (turns st ! t) env else None)
      | None \<Rightarrow> None)"

section \<open>Sequences of events\<close>

datatype grant_event =
    StartTurn
  | TakeTurn
  | ClearWaiters nat
  | AskPermissions str str additional_permissions ask_for_approval "nat option" review_answer
  | AnswerRequest str permissions_response
  | CancelRequest str

fun grant_step ::
    "url_codec \<Rightarrow> glob_compiler \<Rightarrow> (str \<rightharpoonup> policy_context option) \<Rightarrow> grant_event \<Rightarrow> grant_state \<Rightarrow> grant_state" where
  "grant_step uc compile environments StartTurn st = start_turn st"
| "grant_step uc compile environments TakeTurn st = take_active_turn st"
| "grant_step uc compile environments (ClearWaiters t) st = clear_pending_waiters t st"
| "grant_step uc compile environments (AskPermissions call env requested policy originating review) st =
     fst (request_permissions_for_environment uc compile environments policy call requested env originating review st)"
| "grant_step uc compile environments (AnswerRequest call response) st =
     fst (notify_request_permissions_response uc compile environments call response st)"
| "grant_step uc compile environments (CancelRequest call) st = remove_pending call st"

definition grant_run ::
    "url_codec \<Rightarrow> glob_compiler \<Rightarrow> (str \<rightharpoonup> policy_context option) \<Rightarrow> grant_event list \<Rightarrow> grant_state" where
  "grant_run uc compile environments evs = fold (grant_step uc compile environments) evs new_session"

section \<open>Use by a call\<close>

record effective_additional_permissions =
  effective_sandbox_permissions :: sandbox_permissions
  effective_additional :: "additional_permissions option"
  permissions_preapproved :: bool

definition stored_grants :: "url_codec \<Rightarrow> grant_state \<Rightarrow> environment_grants" where
  "stored_grants uc st env =
     merge_permission_profiles uc (session_granted st env) (granted_turn_permissions st env)"

text \<open>An entry that stands for nothing in the context.\<close>

definition unresolved_special :: "policy_context \<Rightarrow> sandbox_entry \<Rightarrow> bool" where
  "unresolved_special ctx e =
     (case entry_path e of
        SpecialPath Tmpdir \<Rightarrow> (case temporary_directories ctx of None \<Rightarrow> True | Some ds \<Rightarrow> ds = [])
      | SpecialPath (ProjectRoots subpath) \<Rightarrow> workspace_roots ctx = []
      | _ \<Rightarrow> False)"

text \<open>The same entries, in any order.\<close>

definition same_file_systems ::
    "url_codec \<Rightarrow> file_system_permissions option \<Rightarrow> file_system_permissions option \<Rightarrow> bool" where
  "same_file_systems uc effective granted =
     (case (effective, granted) of
        (Some a, Some b) \<Rightarrow> permission_glob_depth a = permission_glob_depth b
          \<and> length (permission_entries a) = length (permission_entries b)
          \<and> list_all (\<lambda>e. list_ex (\<lambda>d. same_entry uc d e) (permission_entries b)) (permission_entries a)
      | (None, None) \<Rightarrow> True
      | _ \<Rightarrow> False)"

definition preapproved_permission_profile ::
    "url_codec \<Rightarrow> policy_context \<Rightarrow> additional_permissions \<Rightarrow> additional_permissions
     \<Rightarrow> additional_permissions option" where
  "preapproved_permission_profile uc ctx effective granted =
     (if (case additional_file_system effective of
            Some fs \<Rightarrow> list_ex (unresolved_special ctx) (permission_entries fs) | None \<Rightarrow> False) then None
      else case (materialize_additional_permissions_with_context uc ctx effective,
                 materialize_additional_permissions_with_context uc ctx granted) of
        (Inr e, Inr g) \<Rightarrow>
          (if additional_network e \<noteq> additional_network g then None
           else if same_file_systems uc (additional_file_system e) (additional_file_system g)
           then Some granted else None)
      | _ \<Rightarrow> None)"

definition apply_granted_turn_permissions ::
    "url_codec \<Rightarrow> policy_context option \<Rightarrow> str \<Rightarrow> sandbox_permissions \<Rightarrow> additional_permissions option
     \<Rightarrow> grant_state \<Rightarrow> effective_additional_permissions" where
  "apply_granted_turn_permissions uc context env permissions additional st =
     (if permissions = RequireEscalated
      then \<lparr>effective_sandbox_permissions = permissions, effective_additional = additional,
            permissions_preapproved = False\<rparr>
      else
        (let granted = stored_grants uc st env;
             effective = merge_permission_profiles uc additional granted;
             preapproved = Option.bind granted (\<lambda>g.
               if additional = None then Some g
               else Option.bind effective (\<lambda>e.
                 Option.bind context (\<lambda>ctx. preapproved_permission_profile uc ctx e g)));
             result = (case preapproved of Some p \<Rightarrow> Some p | None \<Rightarrow> effective) in
         \<lparr>effective_sandbox_permissions =
            (if result \<noteq> None \<and> \<not> uses_additional_permissions permissions
             then WithAdditionalPermissions else permissions),
          effective_additional = result,
          permissions_preapproved = (preapproved \<noteq> None)\<rparr>))"

definition implicit_granted_permissions ::
    "sandbox_permissions \<Rightarrow> additional_permissions option \<Rightarrow> effective_additional_permissions
     \<Rightarrow> additional_permissions option" where
  "implicit_granted_permissions permissions additional effective =
     (if \<not> uses_additional_permissions permissions \<and> permissions \<noteq> RequireEscalated \<and> additional = None
      then effective_additional effective else None)"

text \<open>\<open>debug_text\<close> is the derived text of an approval policy in an error.\<close>

definition normalize_and_validate_additional_permissions ::
    "url_codec \<Rightarrow> (ask_for_approval \<Rightarrow> str) \<Rightarrow> policy_context \<Rightarrow> bool \<Rightarrow> ask_for_approval \<Rightarrow> sandbox_permissions
     \<Rightarrow> additional_permissions option \<Rightarrow> bool \<Rightarrow> str + additional_permissions option" where
  "normalize_and_validate_additional_permissions uc debug_text ctx allowed policy permissions additional preapproved =
     (let uses = uses_additional_permissions permissions in
      if \<not> preapproved \<and> \<not> allowed \<and> (uses \<or> additional \<noteq> None)
      then Inl (lit ''additional permissions are disabled; enable `features.exec_permission_approvals` before using `with_additional_permissions`'')
      else if uses then
        (if \<not> preapproved \<and> policy \<noteq> OnRequest
         then Inl (lit ''approval policy is '' @ debug_text policy @ lit ''; reject command '' @ [8212]
           @ lit '' you cannot request additional permissions unless the approval policy is OnRequest'')
         else case additional of
           None \<Rightarrow> Inl (lit ''missing `additional_permissions`; provide at least one of `network` or `file_system` when using `with_additional_permissions`'')
         | Some a \<Rightarrow> bind_result (normalize_additional_permissions_with_context uc ctx a) (\<lambda>normalized.
             if permissions_empty normalized
             then Inl (lit ''`additional_permissions` must include at least one requested permission in `network` or `file_system`'')
             else Inr (Some normalized)))
      else if additional \<noteq> None
      then Inl (lit ''`additional_permissions` requires `sandbox_permissions` set to `with_additional_permissions`'')
      else Inr None)"

end
