(* ===== verification/PermissionGrantsCorrect.thy ===== *)
theory PermissionGrantsCorrect
  imports PermissionGrants PermissionsCorrect
begin

text \<open>
  What the intersection of a request with its answer reads, both of them read; what a merge of
  permissions or of a policy with permissions reads, one of the two reads.
\<close>

section \<open>Entries that cover a path\<close>

definition covers :: "url_codec \<Rightarrow> policy_context \<Rightarrow> file_url \<Rightarrow> sandbox_entry \<Rightarrow> (access_mode \<times> nat) set" where
  "covers uc ctx u e = {(a, d). a = entry_access e \<and> (\<exists>r \<in> set (entry_paths uc ctx (entry_path e)).
     infer_path_convention uc r = infer_path_convention uc (context_cwd ctx)
     \<and> lexical_depth uc r = Some d \<and> uri_starts_with uc u r)}"

lemma covering_covers: "covering uc ctx p u = (\<Union>e \<in> set (entries p). covers uc ctx u e)"
  by (auto simp: covering_def covers_def resolved_entries_set)

lemma covers_same_entry:
  assumes "infer_path_convention uc (context_cwd ctx) = Some PosixPath" and "same_entry uc d e"
  shows "covers uc ctx u d = covers uc ctx u e"
  using assms same_uri_posix [of uc]
  by (cases "(uc, entry_path d, entry_path e)" rule: same_fs_path.cases)
     (auto simp: same_entry_def covers_def entry_paths_def)

lemma push_entry_set: "set es \<subseteq> set (push_entry uc e es)" "set (push_entry uc e es) \<subseteq> insert e (set es)"
  by (auto simp: push_entry_def)

lemma push_entries_set:
  "set es \<subseteq> set (push_entries uc new es)" "set (push_entries uc new es) \<subseteq> set new \<union> set es"
proof -
  show "set es \<subseteq> set (push_entries uc new es)"
    unfolding push_entries_def
  proof (induction new arbitrary: es)
    case (Cons e new)
    then show ?case using push_entry_set(1) by (metis fold_simps(2) subset_trans)
  qed simp
  show "set (push_entries uc new es) \<subseteq> set new \<union> set es"
    unfolding push_entries_def
  proof (induction new arbitrary: es)
    case (Cons e new)
    from Cons [of "push_entry uc e es"] push_entry_set(2) [of uc e es] show ?case by auto
  qed simp
qed

text \<open>What equal entries agree on is the union over the entries pushed.\<close>

lemma push_entries_UN:
  assumes "\<And>d e. same_entry uc d e \<Longrightarrow> f d = f e"
  shows "(\<Union>e \<in> set (push_entries uc new es). f e) = (\<Union>e \<in> set new \<union> set es. f e)"
  unfolding push_entries_def
proof (induction new arbitrary: es)
  case (Cons e new)
  have "(\<Union>d \<in> set (push_entry uc e es). f d) = (\<Union>d \<in> insert e (set es). f d)"
    using assms by (auto simp: push_entry_def list_ex_iff)
  with Cons [of "push_entry uc e es"] show ?case by (simp add: UN_Un) blast
qed simp

text \<open>An ambiguous root of an entry makes the whole policy deny.\<close>

definition ambiguous_roots :: "url_codec \<Rightarrow> policy_context \<Rightarrow> sandbox_entry \<Rightarrow> file_url set" where
  "ambiguous_roots uc ctx e = {r \<in> set (entry_paths uc ctx (entry_path e)).
     infer_path_convention uc r = infer_path_convention uc (context_cwd ctx)
     \<and> lexical_depth uc r = None \<and> \<not> is_opaque uc r}"

lemma ambiguous_same_entry:
  assumes "infer_path_convention uc (context_cwd ctx) = Some PosixPath" and "same_entry uc d e"
  shows "ambiguous_roots uc ctx d = ambiguous_roots uc ctx e"
  using assms same_uri_posix [of uc]
  by (cases "(uc, entry_path d, entry_path e)" rule: same_fs_path.cases)
     (auto simp: same_entry_def ambiguous_roots_def entry_paths_def)

lemma depth_entries_None:
  "depth_entries uc xs = None \<longleftrightarrow> (\<exists>(r, a) \<in> set xs. lexical_depth uc r = None \<and> \<not> is_opaque uc r)"
  by (induction uc xs rule: depth_entries.induct) (auto split: option.splits)

lemma depth_entries_unambiguous:
  "depth_entries uc (resolved_entries uc ctx p) \<noteq> None \<longleftrightarrow> (\<Union>e \<in> set (entries p). ambiguous_roots uc ctx e) = {}"
  unfolding depth_entries_None by (auto simp: ambiguous_roots_def resolved_entries_set Bex_def)

section \<open>Reading\<close>

definition reading :: "(access_mode \<times> nat) set \<Rightarrow> bool" where
  "reading C \<longleftrightarrow> (\<exists>a d. (a, d) \<in> C \<and> a \<noteq> DenyAccess \<and> (\<forall>k. (DenyAccess, k) \<in> C \<longrightarrow> k < d))"

lemma readingI:
  "(a, d) \<in> C \<Longrightarrow> a \<noteq> DenyAccess \<Longrightarrow> (\<And>k. (DenyAccess, k) \<in> C \<Longrightarrow> k < d) \<Longrightarrow> reading C"
  by (auto simp: reading_def)

lemma readingE:
  assumes "reading C"
  obtains a d where "(a, d) \<in> C" "a \<noteq> DenyAccess" "\<forall>k. (DenyAccess, k) \<in> C \<longrightarrow> k < d"
  using assms by (auto simp: reading_def)

lemma less_deny [simp]: "a < DenyAccess \<longleftrightarrow> a \<noteq> DenyAccess" "\<not> DenyAccess < a" "DenyAccess \<le> a \<longleftrightarrow> a = DenyAccess"
  by (cases a; simp add: less_access_mode_def less_eq_access_mode_def)+

lemma strictest_reading: "can_read (strictest es) \<longleftrightarrow> reading (set es)"
proof (cases "es = []")
  case False
  then obtain d where d: "(strictest es, d) \<in> set es"
    and max: "\<And>b k. (b, k) \<in> set es \<Longrightarrow> (k, b) \<le> (d, strictest es)"
    using strictest_Max [OF _ refl] by metis
  show ?thesis
  proof
    assume "can_read (strictest es)"
    with d max show "reading (set es)" by (force simp: reading_def can_read_def)
  next
    assume "reading (set es)"
    then obtain a k where a: "(a, k) \<in> set es" "a \<noteq> DenyAccess" "\<And>i. (DenyAccess, i) \<in> set es \<Longrightarrow> i < k"
      by (auto simp: reading_def)
    have "strictest es \<noteq> DenyAccess"
    proof
      assume deny: "strictest es = DenyAccess"
      with d a(3) have "d < k" by metis
      with max [OF a(1)] show False by auto
    qed
    then show "can_read (strictest es)" by (simp add: can_read_def)
  qed
qed (simp add: strictest_def can_read_def reading_def)

lemma resolve_reading:
  assumes "sandbox_kind p = Restricted" and "infer_path_convention uc (context_cwd ctx) = Some c"
  shows "can_read (resolve_access uc ctx p u) \<longleftrightarrow> same_native_convention uc ctx u
    \<and> depth_entries uc (resolved_entries uc ctx p) \<noteq> None \<and> reading (covering uc ctx p u)"
proof (cases "same_native_convention uc ctx u \<and> depth_entries uc (resolved_entries uc ctx p) \<noteq> None")
  case True
  with assms obtain es where "resolve_access uc ctx p u = strictest es" "set es = covering uc ctx p u"
    using resolve_access_covering by metis
  with True show ?thesis by (simp add: strictest_reading)
next
  case False
  with assms have "resolve_access uc ctx p u = DenyAccess" by (auto simp: resolve_access_def)
  with False show ?thesis by (auto simp: can_read_def)
qed

lemma reading_union: "reading (C \<union> D) \<Longrightarrow> reading C \<or> reading D"
  unfolding reading_def by blast

text \<open>What the union of two lists of entries reads, one of them reads.\<close>

definition reads :: "url_codec \<Rightarrow> policy_context \<Rightarrow> sandbox_entry list \<Rightarrow> file_url \<Rightarrow> bool" where
  "reads uc ctx es u \<longleftrightarrow> can_read (resolve_access uc ctx (restricted_policy es) u)"

lemma resolve_access_entries:
  "sandbox_kind p = Restricted \<Longrightarrow> resolve_access uc ctx p u = resolve_access uc ctx (restricted_policy (entries p)) u"
  by (simp add: resolve_access_def resolved_entries_def restricted_policy_def)

lemma restricted_entries [simp]: "sandbox_kind (restricted_policy es) = Restricted" "entries (restricted_policy es) = es"
  by (simp_all add: restricted_policy_def)

lemma reads_iff:
  assumes "infer_path_convention uc (context_cwd ctx) = Some c"
  shows "reads uc ctx es u \<longleftrightarrow> same_native_convention uc ctx u
    \<and> (\<Union>e \<in> set es. ambiguous_roots uc ctx e) = {} \<and> reading (\<Union>e \<in> set es. covers uc ctx u e)"
  by (simp only: reads_def resolve_reading [OF restricted_entries(1) assms] depth_entries_unambiguous
      covering_covers restricted_entries(2))

lemma reads_append:
  assumes "infer_path_convention uc (context_cwd ctx) = Some c" and "reads uc ctx (es @ fs) u"
  shows "reads uc ctx es u \<or> reads uc ctx fs u"
proof -
  note r = reads_iff [OF assms(1)]
  have "reading ((\<Union>e \<in> set es. covers uc ctx u e) \<union> (\<Union>e \<in> set fs. covers uc ctx u e))"
    using assms(2) unfolding r by (simp only: set_append UN_Un)
  moreover have "same_native_convention uc ctx u" "(\<Union>e \<in> set es. ambiguous_roots uc ctx e) = {}"
    "(\<Union>e \<in> set fs. ambiguous_roots uc ctx e) = {}"
    using assms(2) unfolding r by auto
  ultimately show ?thesis unfolding r using reading_union by blast
qed

lemma reads_push_entries:
  assumes posix: "infer_path_convention uc (context_cwd ctx) = Some PosixPath"
    and "reads uc ctx (push_entries uc new es) u"
  shows "reads uc ctx new u \<or> reads uc ctx es u"
proof -
  have "(\<Union>e \<in> set (push_entries uc new es). covers uc ctx u e) = (\<Union>e \<in> set new \<union> set es. covers uc ctx u e)"
    by (rule push_entries_UN [OF covers_same_entry [OF posix]])
  moreover have "(\<Union>e \<in> set (push_entries uc new es). ambiguous_roots uc ctx e)
      = (\<Union>e \<in> set new \<union> set es. ambiguous_roots uc ctx e)"
    by (rule push_entries_UN [OF ambiguous_same_entry [OF posix]])
  ultimately have "reads uc ctx (new @ es) u"
    using assms(2) unfolding reads_iff [OF posix] by (simp only: set_append)
  then show ?thesis by (rule reads_append [OF posix])
qed

lemma reads_Nil [simp]: "\<not> reads uc ctx [] u"
  by (simp add: reads_def resolve_access_def resolved_entries_def restricted_policy_def strictest_def can_read_def)

lemma reads_merge_entries:
  "infer_path_convention uc (context_cwd ctx) = Some PosixPath \<Longrightarrow>
     reads uc ctx (merge_permission_entries uc es fs) u \<Longrightarrow> reads uc ctx es u \<or> reads uc ctx fs u"
  using reads_push_entries [of uc ctx "es @ fs" "[]" u] reads_append
  by (fastforce simp: merge_permission_entries_def)

text \<open>A policy with permissions on top.\<close>

lemma effective_policy_entries:
  "effective_file_system_sandbox_policy uc p additional = p
    \<or> (\<exists>a fs. additional = Some a \<and> additional_file_system a = Some fs \<and> sandbox_kind p = Restricted
        \<and> sandbox_kind (effective_file_system_sandbox_policy uc p additional) = Restricted
        \<and> entries (effective_file_system_sandbox_policy uc p additional)
          = push_entries uc (permission_entries fs) (entries p))"
  by (cases additional)
     (auto simp: effective_file_system_sandbox_policy_def merge_file_system_policy_with_additional_permissions_def
       split: option.splits)

lemma effective_policy_reads:
  assumes "infer_path_convention uc (context_cwd ctx) = Some PosixPath"
    and "can_read (resolve_access uc ctx (effective_file_system_sandbox_policy uc p additional) u)"
  shows "can_read (resolve_access uc ctx p u)
    \<or> (\<exists>a fs. additional = Some a \<and> additional_file_system a = Some fs \<and> reads uc ctx (permission_entries fs) u)"
  using effective_policy_entries [of uc p additional]
proof (elim disjE exE conjE)
  assume "effective_file_system_sandbox_policy uc p additional = p"
  with assms(2) show ?thesis by simp
next
  fix a fs
  assume a: "additional = Some a" "additional_file_system a = Some fs"
    and kind: "sandbox_kind p = Restricted"
    and eff: "sandbox_kind (effective_file_system_sandbox_policy uc p additional) = Restricted"
      "entries (effective_file_system_sandbox_policy uc p additional)
        = push_entries uc (permission_entries fs) (entries p)"
  from assms(2) have "reads uc ctx (push_entries uc (permission_entries fs) (entries p)) u"
    by (simp only: reads_def resolve_access_entries [OF eff(1)] eff(2))
  from reads_push_entries [OF assms(1) this] a show ?thesis
    by (auto simp: reads_def resolve_access_entries [OF kind])
qed

section \<open>Materialized entries\<close>

text \<open>An entry whose meaning is at most one path.\<close>

definition plain_entry :: "policy_context \<Rightarrow> sandbox_entry \<Rightarrow> bool" where
  "plain_entry ctx e \<longleftrightarrow> (\<forall>s. entry_path e \<noteq> SpecialPath (ProjectRoots s))
     \<and> (entry_path e = SpecialPath Tmpdir \<longrightarrow> temporary_directories ctx = None)"

lemma plain_entry_paths:
  "plain_entry ctx e \<Longrightarrow> set (entry_paths uc ctx (entry_path e)) = set_option (resolve_permission_path uc ctx (entry_path e))"
  by (auto simp: plain_entry_def entry_paths_def special_paths_def resolve_permission_path_def
      ok_list_def ok_option_def split: fs_path.splits special_path.splits option.splits sum.splits if_splits)

lemma those_Some: "those xs = Some ys \<longleftrightarrow> xs = map Some ys"
  by (induction xs arbitrary: ys) (auto split: option.splits simp: map_eq_Cons_conv)

lemma materialize_entry_plain:
  "materialize_entry uc ctx e = Some ds \<Longrightarrow> d \<in> set ds \<Longrightarrow> plain_entry ctx d"
  by (auto simp: materialize_entry_def materialize_project_roots_def materialize_cwd_dependent_entry_def
      materialized_path_entry_def plain_entry_def Let_def bind_eq_Some_conv
      split: fs_path.splits special_path.splits option.splits if_splits)

lemma materialize_plain:
  assumes "materialize_context_dependent_entries uc ctx es = Some ds" and "d \<in> set ds"
  shows "plain_entry ctx d"
proof -
  from assms(1) obtain dss where "map (materialize_entry uc ctx) es = map Some dss" and ds: "ds = concat dss"
    by (auto simp: materialize_context_dependent_entries_def those_Some)
  with assms(2) obtain e ds' where "materialize_entry uc ctx e = Some ds'" "d \<in> set ds'"
    by (auto simp: map_eq_conv list_eq_iff_nth_eq in_set_conv_nth) (metis nth_mem)
  then show ?thesis by (rule materialize_entry_plain)
qed

section \<open>Intersections\<close>

lemma coversD:
  assumes "plain_entry ctx e" and "(a, d) \<in> covers uc ctx u e"
  obtains r where "a = entry_access e" "resolve_permission_path uc ctx (entry_path e) = Some r"
    "infer_path_convention uc r = infer_path_convention uc (context_cwd ctx)"
    "lexical_depth uc r = Some d" "uri_starts_with uc u r"
  using assms(2) unfolding covers_def plain_entry_paths [OF assms(1)] by auto

lemma coversI:
  assumes "plain_entry ctx e" and "resolve_permission_path uc ctx (entry_path e) = Some r"
    and "infer_path_convention uc r = infer_path_convention uc (context_cwd ctx)"
    and "lexical_depth uc r = Some d" and "uri_starts_with uc u r"
  shows "(entry_access e, d) \<in> covers uc ctx u e"
  using assms(2-) unfolding covers_def plain_entry_paths [OF assms(1)] by auto

lemma covers_access: "(a, d) \<in> covers uc ctx u e \<Longrightarrow> a = entry_access e"
  by (simp add: covers_def)

lemma starts_with_comparable:
  assumes "posix_path uc u" "posix_path uc v" "posix_path uc w"
    and "uri_starts_with uc u v" "uri_starts_with uc u w"
    and "lexical_depth uc v = Some i" "lexical_depth uc w = Some k" "i \<le> k"
  shows "uri_starts_with uc w v"
proof -
  have "length (nonempty_segments v) \<le> length (nonempty_segments w)"
    using assms(6-8) posix_pathD(4) [OF assms(2)] posix_pathD(4) [OF assms(3)] by simp
  with assms(4,5) show ?thesis
    by (simp add: starts_with_posix [OF assms(1,2)] starts_with_posix [OF assms(1,3)]
        starts_with_posix [OF assms(3,2)] native_start_posix)
qed

lemma paths_overlapI: "uri_starts_with uc v w \<or> uri_starts_with uc w v \<Longrightarrow> paths_overlap uc v w"
  by (auto simp: paths_overlap_def overlaps_def)

text \<open>A denial of a path below what was accepted, or above it, is retained.\<close>

lemma denial_retained:
  assumes posix: "infer_path_convention uc (context_cwd ctx) = Some PosixPath" and u: "posix_path uc u"
    and e: "e \<in> set accepted" "plain_entry ctx e" "(a, k) \<in> covers uc ctx u e" "a \<noteq> DenyAccess"
    and x: "x \<in> set source" "plain_entry ctx x" "(DenyAccess, i) \<in> covers uc ctx u x"
  shows "x \<in> set (constraining_denies uc ctx source accepted)"
proof -
  obtain p where p: "a = entry_access e" "resolve_permission_path uc ctx (entry_path e) = Some p"
    "posix_path uc p" "lexical_depth uc p = Some k" "uri_starts_with uc u p"
    using coversD [OF e(2,3)] posix by (metis posix_path_def option.distinct(1))
  obtain r where r: "entry_access x = DenyAccess" "resolve_permission_path uc ctx (entry_path x) = Some r"
    "posix_path uc r" "lexical_depth uc r = Some i" "uri_starts_with uc u r"
    using coversD [OF x(2,3)] posix by (metis posix_path_def option.distinct(1))
  have "paths_overlap uc r p"
    using starts_with_comparable [OF u p(3) r(3) p(5) r(5) p(4) r(4)]
      starts_with_comparable [OF u r(3) p(3) r(5) p(5) r(4) p(4)] by (meson nat_le_linear paths_overlapI)
  moreover have "(case entry_path x of GlobPattern g \<Rightarrow> glob_static_prefix_path uc ctx g
      | _ \<Rightarrow> resolve_permission_path uc ctx (entry_path x)) = Some r"
    using r(2) by (cases "entry_path x") (simp_all add: resolve_permission_path_def)
  ultimately have "deny_entry_constrains_accepted_grant uc ctx x accepted"
    using e(1,4) p(1,2) by (auto simp: deny_entry_constrains_accepted_grant_def list_ex_iff can_read_def)
  with x(1) r(1) show ?thesis by (simp add: constraining_denies_def)
qed

lemma access_covers_read: "access_covers r a \<Longrightarrow> can_read r"
  by (cases "(r, a)" rule: access_covers.cases) (auto simp: can_read_def can_write_def)

text \<open>What is accepted is granted and, where it has a path, the request reads that path.\<close>

lemma within_request_reads:
  assumes "granted_file_system_entry_within_request uc ctx rq (restricted_policy rs) matcher e"
    and "resolve_permission_path uc ctx (entry_path e) = Some p"
  shows "reads uc ctx rs p"
  using assms by (auto simp: granted_file_system_entry_within_request_def reads_def Let_def
      dest: access_covers_read split: if_splits)

text \<open>The request, at a path below one that it reads, where no denial of it is more specific.\<close>

lemma reading_below:
  assumes posix: "infer_path_convention uc (context_cwd ctx) = Some PosixPath" and u: "posix_path uc u"
    and rs: "\<And>x. x \<in> set rs \<Longrightarrow> plain_entry ctx x"
    and p: "reads uc ctx rs p" "posix_path uc p" "lexical_depth uc p = Some k" "uri_starts_with uc u p"
    and deny: "\<And>i. (DenyAccess, i) \<in> (\<Union>x \<in> set rs. covers uc ctx u x) \<Longrightarrow> i < k"
  shows "reading (\<Union>x \<in> set rs. covers uc ctx u x)"
proof -
  have "reading (\<Union>x \<in> set rs. covers uc ctx p x)" using p(1) reads_iff [OF posix] by blast
  then obtain b j where b: "(b, j) \<in> (\<Union>x \<in> set rs. covers uc ctx p x)" "b \<noteq> DenyAccess"
    and below: "\<forall>i. (DenyAccess, i) \<in> (\<Union>x \<in> set rs. covers uc ctx p x) \<longrightarrow> i < j"
    by (rule readingE)
  from b(1) obtain y where y: "y \<in> set rs" "(b, j) \<in> covers uc ctx p y" by blast
  obtain q where q: "b = entry_access y" "resolve_permission_path uc ctx (entry_path y) = Some q"
    "infer_path_convention uc q = infer_path_convention uc (context_cwd ctx)" "lexical_depth uc q = Some j"
    "uri_starts_with uc p q"
    using coversD [OF rs [OF y(1)] y(2)] by blast
  have "posix_path uc q" using q(3,4) posix by (simp add: posix_path_def)
  then have "uri_starts_with uc u q" using starts_with_trans [OF u p(2) _ p(4) q(5)] by blast
  with coversI [OF rs [OF y(1)] q(2-4)] q(1) y(1) have "(b, j) \<in> (\<Union>x \<in> set rs. covers uc ctx u x)" by blast
  moreover have "i < j" if at: "(DenyAccess, i) \<in> (\<Union>x \<in> set rs. covers uc ctx u x)" for i
  proof -
    from at obtain x where x: "x \<in> set rs" "(DenyAccess, i) \<in> covers uc ctx u x" by blast
    obtain r where r: "entry_access x = DenyAccess" "resolve_permission_path uc ctx (entry_path x) = Some r"
      "infer_path_convention uc r = infer_path_convention uc (context_cwd ctx)" "lexical_depth uc r = Some i"
      "uri_starts_with uc u r"
      using coversD [OF rs [OF x(1)] x(2)] by metis
    have "posix_path uc r" using r(3,4) posix by (simp add: posix_path_def)
    with starts_with_comparable [OF u _ p(2) r(5) p(4) r(4) p(3)] deny [OF at]
    have "uri_starts_with uc p r" by simp
    with coversI [OF rs [OF x(1)] r(2-4)] r(1) x(1) show ?thesis using below by (metis UN_I)
  qed
  ultimately show ?thesis using b(2) by (intro readingI)
qed

lemma intersect_reads:
  assumes posix: "infer_path_convention uc (context_cwd ctx) = Some PosixPath"
    and fs: "intersect_file_systems uc compile ctx rq gr = Some fs"
    and reads: "reads uc ctx (permission_entries fs) u"
  obtains rs gs where "materialize_context_dependent_entries uc ctx (permission_entries rq) = Some rs"
    and "materialize_context_dependent_entries uc ctx (permission_entries gr) = Some gs"
    and "reads uc ctx rs u" and "reading (\<Union>e \<in> set gs. covers uc ctx u e)"
proof -
  from fs obtain rs gs where rs: "materialize_context_dependent_entries uc ctx (permission_entries rq) = Some rs"
    and gs: "materialize_context_dependent_entries uc ctx (permission_entries gr) = Some gs"
    by (auto simp: intersect_file_systems_def bind_eq_Some_conv)
  define within where "within = granted_file_system_entry_within_request uc ctx rq (restricted_policy rs)
    (read_deny_matcher uc compile ctx (restricted_policy rs))"
  define accepted where "accepted = push_entries uc (filter within gs) []"
  let ?C = "\<lambda>es. \<Union>e \<in> set es. covers uc ctx u e"
  let ?dr = "constraining_denies uc ctx rs accepted" and ?dg = "constraining_denies uc ctx gs accepted"
  have out: "permission_entries fs = push_entries uc ?dg (push_entries uc ?dr accepted)"
    using fs rs gs by (auto simp: intersect_file_systems_def Let_def retain_constraining_deny_entries_def
        accepted_def within_def)
  have union: "?C (permission_entries fs) = ?C ?dg \<union> (?C ?dr \<union> ?C accepted)"
    unfolding out by (simp only: push_entries_UN [OF covers_same_entry [OF posix]] set_append UN_Un)
  have acc: "e \<in> set gs \<and> within e" if "e \<in> set accepted" for e
    using that push_entries_set(2) [of uc "filter within gs" "[]"] by (auto simp: accepted_def)
  have plain: "plain_entry ctx e" if "e \<in> set rs \<union> set gs" for e
    using that materialize_plain [OF rs] materialize_plain [OF gs] by blast
  from reads have snc: "same_native_convention uc ctx u" and red: "reading (?C (permission_entries fs))"
    unfolding reads_iff [OF posix] by blast+
  from red obtain a k where a: "(a, k) \<in> ?C (permission_entries fs)" "a \<noteq> DenyAccess"
    and top: "\<forall>i. (DenyAccess, i) \<in> ?C (permission_entries fs) \<longrightarrow> i < k"
    by (rule readingE)
  have "(a, k) \<notin> ?C (constraining_denies uc ctx es accepted)" for es
    using a(2) by (auto simp: constraining_denies_def covers_def)
  with a(1) have "(a, k) \<in> ?C accepted" unfolding union by blast
  then obtain e where e: "e \<in> set accepted" "(a, k) \<in> covers uc ctx u e" by blast
  have u: "posix_path uc u" using snc posix by (simp add: same_native_convention_def posix_path_def)
  have eplain: "plain_entry ctx e" using plain acc [OF e(1)] by blast
  note kept = denial_retained [OF posix u e(1) eplain e(2) a(2)]
  have denied: "i < k" if at: "(DenyAccess, i) \<in> ?C rs \<union> ?C gs" for i
  proof -
    from at obtain x where x: "(DenyAccess, i) \<in> covers uc ctx u x" "x \<in> set rs \<or> x \<in> set gs" by blast
    with plain kept have "x \<in> set ?dr \<or> x \<in> set ?dg" by blast
    with x(1) have "(DenyAccess, i) \<in> ?C ?dg \<union> (?C ?dr \<union> ?C accepted)" by blast
    with top show ?thesis unfolding union by blast
  qed
  obtain p where p: "resolve_permission_path uc ctx (entry_path e) = Some p"
    "posix_path uc p" "lexical_depth uc p = Some k" "uri_starts_with uc u p"
    using coversD [OF eplain e(2)] posix by (metis posix_path_def option.distinct(1))
  have at_p: "reads uc ctx rs p" using within_request_reads acc [OF e(1)] p(1) unfolding within_def by blast
  have "reading (?C rs)" using reading_below [OF posix u _ at_p p(2-4)] plain denied by blast
  with at_p snc have "reads uc ctx rs u" unfolding reads_iff [OF posix] by blast
  moreover have "reading (?C gs)" using e acc a(2) denied by (intro readingI [of a k]) blast+
  ultimately show thesis using that rs gs by blast
qed

section \<open>Two limits of the intersection\<close>

definition under_w :: "string list \<Rightarrow> file_url" where
  "under_w names = local_uri (''w'' # names)"

definition reading_w :: "access_mode \<Rightarrow> sandbox_entry" where
  "reading_w a = new_entry (UriPath (under_w [])) a"

text \<open>A write of a directory of which the request only reads a part.\<close>

definition narrowed_request :: file_system_permissions where
  "narrowed_request = \<lparr>permission_entries = [reading_w WriteAccess, new_entry (UriPath (under_w [''r''])) ReadAccess],
     permission_glob_depth = None\<rparr>"

definition wide_answer :: file_system_permissions where
  "wide_answer = \<lparr>permission_entries = [reading_w WriteAccess], permission_glob_depth = None\<rparr>"

lemma no_denial_no_matcher:
  "\<not> list_ex (\<lambda>e. entry_access e = DenyAccess) es \<Longrightarrow> read_deny_matcher uc compile ctx (restricted_policy es) = None"
  by (simp add: read_deny_matcher_None)

text \<open>An answer that is accepted as it is and meets no denial.\<close>

lemma intersect_accepted:
  assumes "materialize_context_dependent_entries uc ctx (permission_entries rq) = Some rs"
    and "materialize_context_dependent_entries uc ctx (permission_entries gr) = Some gs"
    and "filter (granted_file_system_entry_within_request uc ctx rq (restricted_policy rs)
      (read_deny_matcher uc compile ctx (restricted_policy rs))) gs = gs"
    and "push_entries uc gs [] = gs"
    and "constraining_denies uc ctx rs gs = []" and "constraining_denies uc ctx gs gs = []"
  shows "intersect_file_systems uc compile ctx rq gr
    = Some \<lparr>permission_entries = gs, permission_glob_depth = None\<rparr>"
proof -
  have "push_entries uc [] gs = gs" by (simp add: push_entries_def)
  with assms show ?thesis
    by (simp add: intersect_file_systems_def retain_constraining_deny_entries_def Let_def non_zero_def
        merge_glob_scan_max_depth_def effective_glob_scan_depth_def)
qed

lemma narrowed_intersection:
  "intersect_file_systems plain_codec compile local_context narrowed_request wide_answer = Some wide_answer"
proof -
  let ?rs = "permission_entries narrowed_request" and ?gs = "permission_entries wide_answer"
  have rs: "materialize_context_dependent_entries plain_codec local_context ?rs = Some ?rs" by code_simp
  have gs: "materialize_context_dependent_entries plain_codec local_context ?gs = Some ?gs" by code_simp
  have within: "filter (granted_file_system_entry_within_request plain_codec local_context narrowed_request
      (restricted_policy ?rs) None) ?gs = ?gs" by code_simp
  have none: "read_deny_matcher plain_codec compile local_context (restricted_policy ?rs) = None"
    by (rule no_denial_no_matcher) code_simp
  have rest: "push_entries plain_codec ?gs [] = ?gs"
    "constraining_denies plain_codec local_context ?rs ?gs = []"
    "constraining_denies plain_codec local_context ?gs ?gs = []" by code_simp+
  have "intersect_file_systems plain_codec compile local_context narrowed_request wide_answer
      = Some \<lparr>permission_entries = ?gs, permission_glob_depth = None\<rparr>"
    using within by (intro intersect_accepted [OF rs gs] rest) (simp only: none)
  then show ?thesis by (simp add: wide_answer_def)
qed

text \<open>C36. The intersection of a request with its answer can write more than the request. Denials that
  concern what was accepted are retained, but not the entries by which the request only reads a part
  of what it writes: a request to write \<open>/w\<close> and to read \<open>/w/r\<close>, answered with \<open>/w\<close>, writes
  \<open>/w/r\<close>.\<close>

theorem intersection_forgets_read_only:
  "\<exists>fs. intersect_file_systems plain_codec compile local_context narrowed_request wide_answer = Some fs
     \<and> resolve_access plain_codec local_context (restricted_policy (permission_entries narrowed_request))
         (under_w [''r'']) = ReadAccess
     \<and> resolve_access plain_codec local_context (restricted_policy (permission_entries fs))
         (under_w [''r'']) = WriteAccess"
proof -
  have "resolve_access plain_codec local_context (restricted_policy (permission_entries narrowed_request))
         (under_w [''r'']) = ReadAccess"
    "resolve_access plain_codec local_context (restricted_policy (permission_entries wide_answer))
         (under_w [''r'']) = WriteAccess" by code_simp+
  with narrowed_intersection show ?thesis by blast
qed

text \<open>A denied pattern with alternatives, which \<open>globset\<close> knows.\<close>

definition alternation_request :: file_system_permissions where
  "alternation_request = \<lparr>permission_entries = [reading_w ReadAccess,
     new_entry (GlobPattern (lit ''/w/{a,b}/k'')) DenyAccess], permission_glob_depth = None\<rparr>"

definition alternation_answer :: file_system_permissions where
  "alternation_answer = \<lparr>permission_entries = [new_entry (UriPath (under_w [''a''])) ReadAccess],
     permission_glob_depth = None\<rparr>"

lemma alternation_matcher:
  assumes "compile (lit ''/w/{a,b}/k'') PosixPath = Inr m"
  shows "read_deny_matcher plain_codec compile local_context (restricted_policy (permission_entries alternation_request))
    = Some \<lparr>denied_roots = [], deny_read_matchers = [m], invalid_pattern = False\<rparr>"
proof -
  let ?p = "restricted_policy (permission_entries alternation_request)"
  have "deny_read_globs plain_codec local_context ?p = Inr [lit ''/w/{a,b}/k'']"
    "infer_path_convention plain_codec (context_cwd local_context) = Some PosixPath"
    "resolved_denied_roots plain_codec local_context ?p = []"
    "list_ex (\<lambda>e. entry_access e = DenyAccess) (entries ?p)" by code_simp+
  then show ?thesis
    by (simp add: read_deny_matcher_def prepare_deny_read_matcher_def build_glob_matcher_def assms)
qed

lemma alternation_matches:
  "matches_prepared_read_deny plain_codec local_context
     \<lparr>denied_roots = [], deny_read_matchers = [m], invalid_pattern = False\<rparr> (under_w names)
   \<longleftrightarrow> infer_path_convention plain_codec (under_w names) \<noteq> Some PosixPath
     \<or> lexical_depth plain_codec (under_w names) = None \<or> m (decoded_path_bytes plain_codec (under_w names))"
proof -
  have "infer_path_convention plain_codec (context_cwd local_context) = Some PosixPath"
    "lexical_depth plain_codec (context_cwd local_context) = Some 1" by code_simp+
  then show ?thesis by (auto simp: matches_prepared_read_deny_def candidate_bytes_def)
qed

text \<open>C37. A denied pattern with alternatives is lost. The part of a pattern before its first wildcard
  decides which grants the pattern constrains, and a brace is not taken for a wildcard, although
  \<open>globset\<close> reads it as one: the matcher of a request to read \<open>/w\<close> but not \<open>/w/{a,b}/k\<close> denies
  \<open>/w/a/k\<close>; answered with \<open>/w/a\<close>, the result has no denial, hence no matcher, and reads it.\<close>

theorem alternation_denial_lost:
  assumes "compile (lit ''/w/{a,b}/k'') PosixPath = Inr m"
    and "m (as_bytes (lit ''/w/a/k''))" and "\<not> m (as_bytes (lit ''/w/a''))"
  shows "\<exists>prepared fs.
    read_deny_matcher plain_codec compile local_context (restricted_policy (permission_entries alternation_request))
      = Some prepared
    \<and> matches_prepared_read_deny plain_codec local_context prepared (under_w [''a'', ''k''])
    \<and> intersect_file_systems plain_codec compile local_context alternation_request alternation_answer = Some fs
    \<and> read_deny_matcher plain_codec compile local_context (restricted_policy (permission_entries fs)) = None
    \<and> can_read (resolve_access plain_codec local_context (restricted_policy (permission_entries fs))
        (under_w [''a'', ''k'']))"
proof -
  let ?m = "\<lparr>denied_roots = [], deny_read_matchers = [m], invalid_pattern = False\<rparr>"
  let ?rs = "permission_entries alternation_request" and ?gs = "permission_entries alternation_answer"
  note matcher = alternation_matcher [of compile m, OF assms(1)]
  have bytes: "decoded_path_bytes plain_codec (under_w [''a'', ''k'']) = as_bytes (lit ''/w/a/k'')"
    "decoded_path_bytes plain_codec (under_w [''a'']) = as_bytes (lit ''/w/a'')" by code_simp+
  have path: "infer_path_convention plain_codec (under_w [''a'']) = Some PosixPath"
    "lexical_depth plain_codec (under_w [''a'']) = Some 2" by code_simp+
  have rs: "materialize_context_dependent_entries plain_codec local_context ?rs = Some ?rs" by code_simp
  have gs: "materialize_context_dependent_entries plain_codec local_context ?gs = Some ?gs" by code_simp
  have "granted_file_system_entry_within_request plain_codec local_context alternation_request
      (restricted_policy ?rs) None (new_entry (UriPath (under_w [''a''])) ReadAccess)" by code_simp
  moreover have "\<not> matches_prepared_read_deny plain_codec local_context ?m (under_w [''a''])"
    using assms(3) path by (simp add: alternation_matches bytes)
  ultimately have "granted_file_system_entry_within_request plain_codec local_context alternation_request
      (restricted_policy ?rs) (Some ?m) (new_entry (UriPath (under_w [''a''])) ReadAccess)"
    by (simp add: granted_file_system_entry_within_request_def Let_def new_entry_def resolve_permission_path_def
        split: if_splits)
  then have within: "filter (granted_file_system_entry_within_request plain_codec local_context alternation_request
      (restricted_policy ?rs) (Some ?m)) ?gs = ?gs" by (simp add: alternation_answer_def)
  have rest: "push_entries plain_codec ?gs [] = ?gs"
    "constraining_denies plain_codec local_context ?rs ?gs = []"
    "constraining_denies plain_codec local_context ?gs ?gs = []" by code_simp+
  have "intersect_file_systems plain_codec compile local_context alternation_request alternation_answer
      = Some \<lparr>permission_entries = ?gs, permission_glob_depth = None\<rparr>"
    using within by (intro intersect_accepted [OF rs gs] rest) (simp only: matcher)
  moreover have "read_deny_matcher plain_codec compile local_context (restricted_policy ?gs) = None"
    by (rule no_denial_no_matcher) code_simp
  moreover have "can_read (resolve_access plain_codec local_context (restricted_policy ?gs) (under_w [''a'', ''k'']))"
    by code_simp
  ultimately show ?thesis using matcher assms(2) by (auto simp: alternation_matches bytes)
qed

definition braces :: glob_compiler where
  "braces pattern convention = Inr (\<lambda>bytes. bytes \<in> {as_bytes (lit ''/w/a/k''), as_bytes (lit ''/w/b/k'')})"

theorem alternation_denial_lost_witness:
  "\<exists>prepared fs.
    read_deny_matcher plain_codec braces local_context (restricted_policy (permission_entries alternation_request))
      = Some prepared
    \<and> matches_prepared_read_deny plain_codec local_context prepared (under_w [''a'', ''k''])
    \<and> intersect_file_systems plain_codec braces local_context alternation_request alternation_answer = Some fs
    \<and> read_deny_matcher plain_codec braces local_context (restricted_policy (permission_entries fs)) = None
    \<and> can_read (resolve_access plain_codec local_context (restricted_policy (permission_entries fs))
        (under_w [''a'', ''k'']))"
  by (rule alternation_denial_lost [where m = "\<lambda>bytes. bytes \<in> {as_bytes (lit ''/w/a/k''), as_bytes (lit ''/w/b/k'')}"])
    (simp add: braces_def, code_simp+)

end
