(* ===== verification/GrantedPermissionsCorrect.thy ===== *)
theory GrantedPermissionsCorrect
  imports GrantedPermissions PermissionGrantsCorrect
begin

text \<open>
  Where the permissions of a call come from: whatever is stored for an environment was asked for
  in it and is in the answer, whichever turns began and ended meanwhile.
\<close>

section \<open>Answered requests\<close>

text \<open>A request that was allowed, and what the review or the user granted.\<close>

definition answered_request ::
    "grant_event list \<Rightarrow> str \<Rightarrow> additional_permissions \<Rightarrow> additional_permissions \<Rightarrow> bool" where
  "answered_request evs env requested granted \<longleftrightarrow>
     (\<exists>call policy originating review.
        AskPermissions call env requested policy originating review \<in> set evs \<and> may_request_permissions policy
        \<and> ((\<exists>decision. review = Reviewed decision \<and> granted = fst (review_grant requested decision))
           \<or> review = NotReviewed \<and> (\<exists>response. AnswerRequest call response \<in> set evs
               \<and> granted = response_permissions response)))"

lemma answered_request_mono: "answered_request evs env r g \<Longrightarrow> set evs \<subseteq> set evs' \<Longrightarrow> answered_request evs' env r g"
  unfolding answered_request_def by blast

lemma update_turn_facts [simp]:
  "session_granted (update_turn t f st) = session_granted st"
  "active_turn (update_turn t f st) = active_turn st"
  "length (turns (update_turn t f st)) = length (turns st)"
  by (simp_all add: update_turn_def split: option.split)

lemma update_turn_nth:
  "i < length (turns st) \<Longrightarrow>
     turns (update_turn t f st) ! i = (if t = Some i then f (turns st ! i) else turns st ! i)"
  by (auto simp: update_turn_def nth_list_update split: option.split)

locale grant_provenance =
  fixes uc :: url_codec and compile :: glob_compiler
    and environments :: "str \<rightharpoonup> policy_context option"
    and gives :: "str \<Rightarrow> additional_permissions \<Rightarrow> bool"
    and explains :: "str \<Rightarrow> additional_permissions \<Rightarrow> additional_permissions \<Rightarrow> bool"
  assumes merge: "merge_permission_profiles uc a b = Some c \<Longrightarrow> gives env c \<Longrightarrow>
      \<exists>d. (a = Some d \<or> b = Some d) \<and> gives env d"
    and intersect: "environments env = Some (Some ctx) \<Longrightarrow>
      gives env (intersect_permission_profiles_with_context uc compile ctx r g) \<Longrightarrow> explains env r g"
begin

definition explained :: "grant_event list \<Rightarrow> environment_grants \<Rightarrow> bool" where
  "explained evs grants \<longleftrightarrow> (\<forall>env g. grants env = Some g \<longrightarrow> gives env g \<longrightarrow>
     (\<exists>r a. answered_request evs env r a \<and> explains env r a))"

definition asked :: "grant_event list \<Rightarrow> str \<Rightarrow> pending_request \<Rightarrow> bool" where
  "asked evs call p \<longleftrightarrow> (\<exists>policy originating.
     AskPermissions call (pending_environment p) (pending_requested p) policy originating NotReviewed \<in> set evs
     \<and> may_request_permissions policy)"

definition turn_inv :: "grant_event list \<Rightarrow> turn_grants \<Rightarrow> bool" where
  "turn_inv evs ts \<longleftrightarrow> explained evs (turn_granted ts)
     \<and> (\<forall>call p. pending_requests ts call = Some p \<longrightarrow> asked evs call p)"

definition inv :: "grant_event list \<Rightarrow> grant_state \<Rightarrow> bool" where
  "inv evs st \<longleftrightarrow> explained evs (session_granted st) \<and> (\<forall>ts \<in> set (turns st). turn_inv evs ts)"

lemma explained_mono: "explained evs grants \<Longrightarrow> set evs \<subseteq> set evs' \<Longrightarrow> explained evs' grants"
  unfolding explained_def using answered_request_mono by meson

lemma turn_inv_mono: "turn_inv evs ts \<Longrightarrow> set evs \<subseteq> set evs' \<Longrightarrow> turn_inv evs' ts"
  unfolding turn_inv_def asked_def using explained_mono by (meson subsetD)

lemma inv_mono: "inv evs st \<Longrightarrow> set evs \<subseteq> set evs' \<Longrightarrow> inv evs' st"
  unfolding inv_def using explained_mono turn_inv_mono by meson

lemma inv_update_turn:
  assumes "inv evs st" and "\<And>ts. turn_inv evs ts \<Longrightarrow> turn_inv evs (f ts)"
  shows "inv evs (update_turn t f st)"
  using assms by (auto simp: inv_def update_turn_def dest!: set_update_subset_insert [THEN subsetD]
      split: option.splits)

lemma explained_record:
  assumes "explained evs grants"
    and "gives env p \<Longrightarrow> \<exists>r a. answered_request evs env r a \<and> explains env r a"
  shows "explained evs (record_granted_permissions uc env p grants)"
  unfolding explained_def
proof (intro allI impI)
  fix env' g
  assume g: "record_granted_permissions uc env p grants env' = Some g" and gives: "gives env' g"
  show "\<exists>r a. answered_request evs env' r a \<and> explains env' r a"
  proof (cases "grants env' = Some g")
    case True
    with assms(1) gives show ?thesis by (simp add: explained_def)
  next
    case False
    with g have env: "env' = env" and m: "merge_permission_profiles uc (grants env) (Some p) = Some g"
      by (auto simp: record_granted_permissions_def split: option.splits if_splits)
    from merge [OF m] gives env obtain d where "grants env = Some d \<or> p = d" "gives env d" by auto
    with assms env show ?thesis unfolding explained_def by blast
  qed
qed

text \<open>A normalized answer that is not empty is an intersection.\<close>

lemma normalized_response:
  assumes "environments env = Some (Some ctx)"
    and "\<not> permissions_empty (response_permissions (normalize_request_permissions_response uc compile ctx r response))"
    and "gives env (response_permissions (normalize_request_permissions_response uc compile ctx r response))"
  shows "explains env r (response_permissions response)"
  using assms intersect
  by (auto simp: normalize_request_permissions_response_def nothing_granted_def no_permissions_def
      permissions_empty_def split: if_splits)

lemma inv_record:
  assumes "inv evs st" and env: "environments env = Some (Some ctx)"
    and "response = normalize_request_permissions_response uc compile ctx r answer"
    and "answered_request evs env r (response_permissions answer)"
  shows "inv evs (record_granted_request_permissions_for_turn uc response env t st)"
proof (cases "permissions_empty (response_permissions response)")
  case False
  with normalized_response [OF env] assms(3,4)
  have why: "gives env (response_permissions response) \<Longrightarrow> \<exists>r a. answered_request evs env r a \<and> explains env r a"
    by blast
  show ?thesis
  proof (cases "response_scope response")
    case TurnScope
    have "turn_inv evs ts \<Longrightarrow> turn_inv evs (record_turn_grant uc env response ts)" for ts
      using explained_record why by (simp add: turn_inv_def record_turn_grant_def)
    with inv_update_turn [OF assms(1)] TurnScope False show ?thesis
      by (simp add: record_granted_request_permissions_for_turn_def)
  next
    case SessionScope
    with assms(1) explained_record why False show ?thesis
      by (simp add: record_granted_request_permissions_for_turn_def inv_def)
  qed
qed (simp add: record_granted_request_permissions_for_turn_def assms(1))

lemma inv_request:
  assumes "inv evs st" and ev: "AskPermissions call env r policy t review \<in> set evs"
  shows "inv evs (fst (request_permissions_for_environment uc compile environments policy call r env t review st))"
proof (cases "may_request_permissions policy \<and> (\<exists>ctx. environments env = Some (Some ctx))")
  case True
  then obtain ctx where env: "environments env = Some (Some ctx)" and may: "may_request_permissions policy" by blast
  show ?thesis
  proof (cases review)
    case (Reviewed decision)
    obtain g s where g: "review_grant r decision = (g, s)" by (cases "review_grant r decision")
    with ev may Reviewed have "answered_request evs env r g" unfolding answered_request_def by fastforce
    with inv_record [OF assms(1) env refl] g env may Reviewed show ?thesis
      by (simp add: request_permissions_for_environment_def Let_def)
  next
    case NotReviewed
    let ?p = "\<lparr>pending_requested = r, pending_environment = env\<rparr>"
    have "turn_inv evs ts \<Longrightarrow> turn_inv evs (insert_pending call ?p ts)" for ts
      using ev may NotReviewed by (auto simp: turn_inv_def insert_pending_def asked_def)
    with inv_update_turn [OF assms(1)] env may NotReviewed show ?thesis
      by (simp add: request_permissions_for_environment_def)
  qed (use assms(1) env may in \<open>simp add: request_permissions_for_environment_def\<close>)
next
  case False
  with assms(1) show ?thesis by (auto simp: request_permissions_for_environment_def split: option.split)
qed

lemma inv_remove_pending: "inv evs st \<Longrightarrow> inv evs (remove_pending call st)"
  unfolding remove_pending_def by (rule inv_update_turn) (auto simp: turn_inv_def)

lemma inv_notify:
  assumes "inv evs st" and ev: "AnswerRequest call answer \<in> set evs"
  shows "inv evs (fst (notify_request_permissions_response uc compile environments call answer st))"
proof (cases "pending_in call st")
  case (Some p)
  then have "asked evs call p"
    using assms(1) unfolding pending_in_def inv_def turn_inv_def
    by (auto split: option.splits if_splits dest!: bspec [OF _ nth_mem])
  with ev have answered: "answered_request evs (pending_environment p) (pending_requested p) (response_permissions answer)"
    unfolding asked_def answered_request_def by blast
  note st = inv_remove_pending [OF assms(1), of call]
  show ?thesis
  proof (cases "\<exists>ctx. environments (pending_environment p) = Some (Some ctx)")
    case True
    then obtain ctx where env: "environments (pending_environment p) = Some (Some ctx)" by blast
    from inv_record [OF st env refl answered] Some env show ?thesis
      by (simp add: notify_request_permissions_response_def Let_def)
  next
    case False
    then have "(case environments (pending_environment p) of Some (Some ctx) \<Rightarrow> f ctx | _ \<Rightarrow> nothing_granted)
        = nothing_granted" for f
      by (auto split: option.split)
    with Some st show ?thesis
      by (simp add: notify_request_permissions_response_def Let_def record_granted_request_permissions_for_turn_def
          nothing_granted_def no_permissions_def permissions_empty_def)
  qed
qed (simp add: notify_request_permissions_response_def assms(1))

lemma inv_step:
  assumes "inv evs st" and "ev \<in> set evs"
  shows "inv evs (grant_step uc compile environments ev st)"
proof (cases ev)
  case StartTurn
  with assms(1) show ?thesis
    by (auto simp: start_turn_def inv_def new_turn_def turn_inv_def explained_def)
next
  case TakeTurn
  with assms(1) show ?thesis by (simp add: take_active_turn_def inv_def)
next
  case (ClearWaiters t)
  have "inv evs (clear_pending_waiters t st)"
    unfolding clear_pending_waiters_def by (rule inv_update_turn [OF assms(1)]) (simp add: turn_inv_def)
  with ClearWaiters show ?thesis by simp
next
  case (AskPermissions call env r policy t review)
  with inv_request [OF assms(1)] assms(2) show ?thesis by simp
next
  case (AnswerRequest call answer)
  with inv_notify [OF assms(1)] assms(2) show ?thesis by simp
next
  case (CancelRequest call)
  with inv_remove_pending [OF assms(1)] show ?thesis by simp
qed

lemma inv_run: "inv evs (grant_run uc compile environments evs)"
proof -
  have "inv evs (fold (grant_step uc compile environments) es st)" if "inv evs st" "set es \<subseteq> set evs" for es st
    using that inv_step by (induction es arbitrary: st) auto
  moreover have "inv evs new_session" by (simp add: inv_def new_session_def explained_def)
  ultimately show ?thesis by (simp add: grant_run_def)
qed

lemma stored_grants_explained:
  assumes "stored_grants uc (grant_run uc compile environments evs) env = Some g" and "gives env g"
  shows "\<exists>r a. answered_request evs env r a \<and> explains env r a"
proof -
  let ?st = "grant_run uc compile environments evs"
  from merge [OF assms(1) [unfolded stored_grants_def] assms(2)] obtain d
    where d: "session_granted ?st env = Some d \<or> granted_turn_permissions ?st env = Some d" "gives env d" by blast
  from inv_run [of evs] have s: "explained evs (session_granted ?st)"
    and t: "\<And>ts. ts \<in> set (turns ?st) \<Longrightarrow> explained evs (turn_granted ts)"
    by (auto simp: inv_def turn_inv_def)
  have "\<exists>ts \<in> set (turns ?st). turn_granted ts env = Some d" if "granted_turn_permissions ?st env = Some d"
    using that by (auto simp: granted_turn_permissions_def split: option.splits if_splits)
  with d s t show ?thesis unfolding explained_def by blast
qed

end

section \<open>Reading\<close>

definition asks_to_read :: "url_codec \<Rightarrow> policy_context \<Rightarrow> file_url \<Rightarrow> additional_permissions \<Rightarrow> bool" where
  "asks_to_read uc ctx u a \<longleftrightarrow> (\<exists>fs es. additional_file_system a = Some fs
     \<and> materialize_context_dependent_entries uc ctx (permission_entries fs) = Some es
     \<and> can_read (resolve_access uc ctx (restricted_policy es) u))"

text \<open>Permissions with a path whose segments are ambiguous: a policy of them would deny everything.\<close>

definition has_ambiguous_path :: "url_codec \<Rightarrow> policy_context \<Rightarrow> additional_permissions \<Rightarrow> bool" where
  "has_ambiguous_path uc ctx a \<longleftrightarrow> (\<exists>fs es. additional_file_system a = Some fs
     \<and> materialize_context_dependent_entries uc ctx (permission_entries fs) = Some es
     \<and> depth_entries uc (resolved_entries uc ctx (restricted_policy es)) = None)"

definition gives_reading ::
    "url_codec \<Rightarrow> (str \<rightharpoonup> policy_context option) \<Rightarrow> file_url \<Rightarrow> str \<Rightarrow> additional_permissions \<Rightarrow> bool" where
  "gives_reading uc environments u env a \<longleftrightarrow> (\<exists>ctx fs. environments env = Some (Some ctx)
     \<and> infer_path_convention uc (context_cwd ctx) = Some PosixPath
     \<and> additional_file_system a = Some fs \<and> reads uc ctx (permission_entries fs) u)"

definition explains_reading ::
    "url_codec \<Rightarrow> (str \<rightharpoonup> policy_context option) \<Rightarrow> file_url \<Rightarrow> str
     \<Rightarrow> additional_permissions \<Rightarrow> additional_permissions \<Rightarrow> bool" where
  "explains_reading uc environments u env r a \<longleftrightarrow> (\<forall>ctx. environments env = Some (Some ctx) \<longrightarrow>
     asks_to_read uc ctx u r \<and> (asks_to_read uc ctx u a \<or> has_ambiguous_path uc ctx a))"

lemma merge_file_system_cases:
  assumes "merge_permission_profiles uc a b = Some c" and "additional_file_system c = Some fs"
  shows "(\<exists>d. (a = Some d \<or> b = Some d) \<and> additional_file_system d = Some fs)
    \<or> (\<exists>d e df ef. a = Some d \<and> b = Some e \<and> additional_file_system d = Some df
        \<and> additional_file_system e = Some ef
        \<and> permission_entries fs = merge_permission_entries uc (permission_entries df) (permission_entries ef))"
  using assms
  by (auto simp: merge_permission_profiles_def unless_empty_def nonempty_file_system_def merge_file_systems_def
      split: option.splits if_splits)

lemma merge_gives_reading:
  assumes "merge_permission_profiles uc a b = Some c" and "gives_reading uc environments u env c"
  shows "\<exists>d. (a = Some d \<or> b = Some d) \<and> gives_reading uc environments u env d"
proof -
  from assms(2) obtain ctx fs where ctx: "environments env = Some (Some ctx)"
    "infer_path_convention uc (context_cwd ctx) = Some PosixPath"
    and fs: "additional_file_system c = Some fs" "reads uc ctx (permission_entries fs) u"
    by (auto simp: gives_reading_def)
  from merge_file_system_cases [OF assms(1) fs(1)] show ?thesis
  proof (elim disjE exE conjE)
    fix d e df ef
    assume "a = Some d" "b = Some e" "additional_file_system d = Some df" "additional_file_system e = Some ef"
      and "permission_entries fs = merge_permission_entries uc (permission_entries df) (permission_entries ef)"
    with reads_merge_entries [OF ctx(2)] fs(2) ctx show ?thesis unfolding gives_reading_def by metis
  qed (use fs ctx in \<open>auto simp: gives_reading_def\<close>)
qed

lemma intersect_gives_reading:
  assumes env: "environments env = Some (Some ctx)"
    and "gives_reading uc environments u env (intersect_permission_profiles_with_context uc compile ctx r g)"
  shows "explains_reading uc environments u env r g"
proof -
  let ?gr = "case additional_file_system g of Some f \<Rightarrow> f | None \<Rightarrow> no_file_system"
  from assms obtain rq fs where posix: "infer_path_convention uc (context_cwd ctx) = Some PosixPath"
    and rq: "additional_file_system r = Some rq" and fs: "intersect_file_systems uc compile ctx rq ?gr = Some fs"
    and reads: "reads uc ctx (permission_entries fs) u"
    by (auto simp: gives_reading_def intersect_permission_profiles_with_context_def bind_eq_Some_conv
        nonempty_file_system_def split: if_splits)
  from intersect_reads [OF posix fs reads] obtain rs gs
    where rs: "materialize_context_dependent_entries uc ctx (permission_entries rq) = Some rs" "reads uc ctx rs u"
      and gs: "materialize_context_dependent_entries uc ctx (permission_entries ?gr) = Some gs"
      and red: "reading (\<Union>e \<in> set gs. covers uc ctx u e)" by blast
  obtain gf where gf: "additional_file_system g = Some gf" "?gr = gf"
    using gs red by (cases "additional_file_system g")
      (auto simp: no_file_system_def materialize_context_dependent_entries_def reading_def)
  have "same_native_convention uc ctx u" using rs(2) reads_iff [OF posix] by blast
  then have "reads uc ctx gs u \<or> (\<Union>e \<in> set gs. ambiguous_roots uc ctx e) \<noteq> {}"
    using red reads_iff [OF posix] by blast
  then have "reads uc ctx gs u \<or> depth_entries uc (resolved_entries uc ctx (restricted_policy gs)) = None"
    using depth_entries_unambiguous [of uc ctx "restricted_policy gs"] restricted_entries(2) [of gs] by metis
  with rq rs gs gf env show ?thesis
    by (auto simp: explains_reading_def asks_to_read_def has_ambiguous_path_def reads_def)
qed

interpretation granted_reading: grant_provenance uc compile environments
    "gives_reading uc environments u" "explains_reading uc environments u"
  for uc compile environments u
  using merge_gives_reading intersect_gives_reading by unfold_locales

section \<open>The network\<close>

abbreviation enables_network :: "additional_permissions \<Rightarrow> bool" where
  "enables_network a \<equiv> additional_network a = Some (Some True)"

interpretation granted_network: grant_provenance uc compile environments
    "\<lambda>env. enables_network" "\<lambda>env r a. enables_network r \<and> enables_network a"
  for uc compile environments
  by unfold_locales
    (auto simp: merge_permission_profiles_def unless_empty_def intersect_permission_profiles_with_context_def
      split: option.splits if_splits)

section \<open>Calls\<close>

lemma preapproved_profile: "preapproved_permission_profile uc ctx e g = Some p \<Longrightarrow> p = g"
  by (simp add: preapproved_permission_profile_def split: if_splits sum.splits)

text \<open>A call that needs no approval has the stored permissions, not those it asked for.\<close>

lemma preapproved_stored:
  assumes "permissions_preapproved (apply_granted_turn_permissions uc context env permissions additional st)"
  shows "effective_additional (apply_granted_turn_permissions uc context env permissions additional st)
    = stored_grants uc st env"
proof (cases "stored_grants uc st env")
  case None
  with assms show ?thesis by (simp add: apply_granted_turn_permissions_def Let_def split: if_splits)
next
  case (Some g)
  with assms show ?thesis
    by (auto simp: apply_granted_turn_permissions_def Let_def bind_eq_Some_conv dest: preapproved_profile
        split: if_splits)
qed


text \<open>A call that runs without asking has the network only if the policy enables it, or if a
  request for the same environment asked for it and the answer to the request granted it.\<close>

theorem preapproved_network_answered:
  assumes "r = apply_granted_turn_permissions uc context env permissions additional
        (grant_run uc compile environments evs)"
    and "permissions_preapproved r"
    and "effective_network_sandbox_policy network (effective_additional r) = NetworkEnabled"
  shows "network = NetworkEnabled
    \<or> (\<exists>requested answer. answered_request evs env requested answer
        \<and> additional_network requested = Some (Some True) \<and> additional_network answer = Some (Some True))"
proof (cases "network = NetworkEnabled")
  case False
  with assms(3) obtain a where a: "effective_additional r = Some a" "additional_network a = Some (Some True)"
    by (auto simp: effective_network_sandbox_policy_def merge_network_access_def network_enabled_def
        split: option.splits if_splits)
  have "stored_grants uc (grant_run uc compile environments evs) env = Some a"
    using preapproved_stored assms(1,2) a(1) by metis
  from granted_network.stored_grants_explained [OF this a(2)] show ?thesis by blast
qed simp

section \<open>An example\<close>

definition sample_environments :: "str \<rightharpoonup> policy_context option" where
  "sample_environments = [lit ''e'' \<mapsto> Some local_context]"

definition no_globs :: glob_compiler where
  "no_globs pattern convention = Inl []"

definition sample_request :: additional_permissions where
  "sample_request = \<lparr>additional_network = Some (Some True), additional_file_system = Some
     \<lparr>permission_entries = [new_entry (UriPath (local_uri [''w''])) ReadAccess,
        new_entry (UriPath (local_uri [''w'', ''k''])) DenyAccess], permission_glob_depth = None\<rparr>\<rparr>"

definition sample_answer :: permissions_response where
  "sample_answer = \<lparr>response_permissions = \<lparr>additional_network = Some (Some True), additional_file_system = Some
     \<lparr>permission_entries = [new_entry (UriPath (local_uri [''w''])) ReadAccess],
      permission_glob_depth = None\<rparr>\<rparr>, response_scope = SessionScope, response_strict = False\<rparr>"

text \<open>A request of the first turn is answered for the session and used in the second.\<close>

definition sample_grant_events :: "grant_event list" where
  "sample_grant_events =
     [StartTurn, AskPermissions (lit ''c'') (lit ''e'') sample_request OnRequest (Some 0) NotReviewed,
      AnswerRequest (lit ''c'') sample_answer, TakeTurn, ClearWaiters 0, StartTurn]"

abbreviation sample_use :: effective_additional_permissions where
  "sample_use \<equiv> apply_granted_turn_permissions plain_codec (Some local_context) (lit ''e'') UseDefault None
     (grant_run plain_codec no_globs sample_environments sample_grant_events)"

lemma sample_use_facts:
  "permissions_preapproved sample_use"
  "can_read (resolve_access plain_codec local_context (effective_file_system_sandbox_policy plain_codec
     (restricted_policy []) (effective_additional sample_use)) (local_uri [''w'', ''a'']))"
  "\<not> can_read (resolve_access plain_codec local_context (effective_file_system_sandbox_policy plain_codec
     (restricted_policy []) (effective_additional sample_use)) (local_uri [''w'', ''k'']))"
  "effective_network_sandbox_policy NetworkRestricted (effective_additional sample_use) = NetworkEnabled"
  by code_simp+


theorem preapproved_network_answered_witness:
  "\<exists>requested answer. answered_request sample_grant_events (lit ''e'') requested answer
     \<and> additional_network requested = Some (Some True) \<and> additional_network answer = Some (Some True)"
  using preapproved_network_answered [OF refl sample_use_facts(1,4)] by simp

end
