(* ===== verification/Spec2Isabelle.thy ===== *)
theory Spec2Isabelle
  imports FileUpdatePass PatchParserCorrect PatchRender ApplyHunksSteps TurnDiffCache
    ExecBuilder ExecAmendCorrect HeadTailBuffer
    AssistantText Utf8Stream
    ContextManagerSteps ReconciledContext RetainedContextCorrect TruncationCorrect
    DangerousCommandCorrect PowerShellScriptCorrect PermissionsCorrect ExecManagerUpdates
    ToolApprovalsCorrect ToolOrchestratorCorrect PatchSafety GrantedPermissionsCorrect
begin

text \<open>
  A verification library for the core of Codex, the Rust workspace under \<open>src/codex-rs\<close>. It models
  what stands between the language model and the machine: the commands and patches the model
  proposes are read, checked against rules and permissions, approved, run and recorded.

  \<^bold>\<open>The parts and how they interact.\<close>

  \<^item> \<^emph>\<open>Patches\<close> (\<open>apply-patch\<close>, \<open>core/src/turn_diff_tracker.rs\<close>). A patch is parsed, line by line as it
    is streamed (\<open>PatchTypes\<close>, \<open>PatchParser\<close>); the chunks of an update are looked for in the lines of a
    file (\<open>SeekSequence\<close>, \<open>TextFile\<close>) and become replacements (\<open>FileUpdate\<close>); the hunks are applied to a
    file system with a delta of what was done (\<open>ApplyHunks\<close>); the deltas of a turn become its diff
    (\<open>TurnDiff\<close>). \<open>PatchSafety\<close> (\<open>core/src/safety.rs\<close>) decides whether a patch is applied at once.
  \<^item> \<^emph>\<open>Rules for commands\<close> (\<open>execpolicy\<close>). Prefix rules and network rules (\<open>ExecRule\<close>, \<open>NetworkRule\<close>),
    policies and their evaluation (\<open>ExecPolicy\<close>), the built-ins of policy files (\<open>ExecBuilder\<close>), saving
    rules and migrating old ones (\<open>ExecAmend\<close>).
  \<^item> \<^emph>\<open>Reading commands\<close> (\<open>shell-command\<close>). Scripts for a Unix shell (\<open>ShellScript\<close>) and for PowerShell
    (\<open>PowerShellScript\<close>) as the commands they run, and the search for dangerous commands
    (\<open>WindowsCommand\<close>, \<open>DangerousCommand\<close>).
  \<^item> \<^emph>\<open>Permissions\<close> (\<open>utils/path-uri\<close>, \<open>protocol/src/permissions.rs\<close>, \<open>models.rs\<close>). Paths of any system as
    URIs (\<open>PathUri\<close>, \<open>PathJoin\<close>) and as texts (\<open>NativePath\<close>), which access a file system policy gives to
    one (\<open>Permissions\<close>), and the patterns of denied reads (\<open>ReadDeny\<close>). What is granted on top of a
    policy (\<open>sandboxing/src/policy_transforms.rs\<close>) is in \<open>PermissionGrants\<close>, and how a request becomes a
    grant of a turn or of the session and is used by a call (\<open>core/src/session/mod.rs\<close>,
    \<open>core/src/tools/handlers/mod.rs\<close>) in \<open>GrantedPermissions\<close>.
  \<^item> \<^emph>\<open>Approval\<close> (\<open>core/src/exec_policy.rs\<close>, \<open>core/src/tools\<close>, \<open>sandboxing\<close>). The settings
    (\<open>ApprovalPolicy\<close>); from a command to what it requires (\<open>ExecApproval\<close>, \<open>ExecManager\<close>), by the rules
    where one matches and by the search for dangerous commands where none does; who is asked and
    which answers count again (\<open>ToolApprovals\<close>); the attempts to run a tool inside and outside of a
    sandbox (\<open>ToolOrchestrator\<close>).
  \<^item> \<^emph>\<open>The history of a thread\<close> (\<open>core/src/context_manager\<close>, \<open>history\<close>, \<open>guardian-context\<close>). Items of the
    conversation (\<open>ResponseItem\<close>), what the harness injects (\<open>ContextualText\<close>, \<open>EventMapping\<close>), the
    history with rollback and compaction (\<open>ContextManager\<close>, \<open>TokenEstimate\<close>), the prompt made of it
    (\<open>Normalize\<close>), truncation (\<open>Truncation\<close>), and what is kept outside of the model's text
    (\<open>TranscriptHistory\<close>, \<open>RetainedContext\<close>, \<open>ReconciledContext\<close>, \<open>RolloutPayload\<close>).
  \<^item> \<^emph>\<open>Output\<close>. The capped buffer of a command's output (\<open>HeadTailBuffer\<close>) and the streaming parsers of
    the model's text (\<open>utils/stream-parser\<close>: \<open>StreamText\<close>, \<open>HiddenTag\<close>, \<open>TaggedLine\<close>, \<open>AssistantText\<close>,
    \<open>Utf8Stream\<close>).

  \<^bold>\<open>How the code becomes HOL.\<close> Structs are records and enums datatypes with the source's constructors;
  a function keeps its name, methods get a prefix where two share one. A Rust \<open>String\<close> is a list of
  characters (\<open>str\<close> in \<open>Prelude\<close>), with byte offsets where the code counts bytes. \<open>Result\<close> is a sum whose
  left side is the error, \<open>Option\<close> is \<open>option\<close>; a panic is a value too (\<open>fault\<close> or \<open>None\<close>), and there are
  theorems that it does not come up. \<open>usize\<close> arithmetic saturates, wraps or panics where the code's
  does. State is passed explicitly; a lock or semaphore makes its section one step. Definitions
  compute, so the witnesses evaluate them on concrete inputs.

  \<^bold>\<open>What is a parameter.\<close> Code that is not in the repository is an argument, collected in records such
  as \<open>fs_ops\<close> (the file system), \<open>danger_ops\<close> and \<open>windows_ops\<close> (tree-sitter, shlex, regex, url), \<open>url_codec\<close>
  (percent-encoding, base64), \<open>glob_compiler\<close> (globset), \<open>approval_ops\<close>, \<open>policy_source\<close> (the disk and Starlark), \<open>reviewers\<close>
  (hooks, guardian, prompts), \<open>tool_runtime\<close> and \<open>surroundings\<close>. What is relied on is a named hypothesis:
  \<open>fs_laws\<close> and its relatives say that what is written is read back, \<open>codec_laws\<close> that unreserved text
  is its own encoding and text without escapes decodes to itself, \<open>json_reads_back\<close> that JSON strings
  are read back, \<open>names_are_relative\<close> that the name of a file is no absolute path. Each has an instance
  in a witness.

  \<^bold>\<open>Bounds and fuel.\<close> Loops are recursion with a termination proof. The search for dangerous commands
  is bounded by the code's own depth of eight wrappers. The loops of the hidden tag parser, which the
  code does not bound, are partial functions, and there is a theorem that they return.

  \<^bold>\<open>What the theorems show.\<close>

  \<^item> Patches: parsing undoes rendering (\<open>PatchRender\<close>), does not depend on the chunks of the stream and
    accepts complete hunks only (\<open>PatchParserCorrect\<close>); an update is one pass over the lines in both
    modes (\<open>FileUpdateCorrect\<close>, \<open>FileUpdateApply\<close>, \<open>FileUpdatePass\<close>); an exact delta tells the truth about the
    files and nothing panics (\<open>ApplyHunksCorrect\<close>, \<open>ApplyHunksSteps\<close>); the tracker follows the files of a
    turn, below, and its cache is transparent (\<open>TurnDiffCorrect\<close>, \<open>TurnDiffCache\<close>); what is applied
    without a question stays where the policy allows it (\<open>PatchSafety\<close>).
  \<^item> Rules: all matching rules count and the strictest decides, an overlay cannot weaken
    (\<open>ExecPolicyCorrect\<close>); saving adds one line (\<open>ExecAmendCorrect\<close>).
  \<^item> Commands: the two readings of a script agree (\<open>ShellScriptCorrect\<close>), quoted words survive
    (\<open>PowerShellScriptCorrect\<close>), the search finds exactly the chains that end in a dangerous command
    (\<open>DangerousCommandCorrect\<close>).
  \<^item> Permissions: containment and parents of paths (\<open>PathUriCorrect\<close>), the shortcut for full access, the
    preservation of denied reads (\<open>PermissionsCorrect\<close>). The intersection of a request with its answer
    reads only what both read, a merge what one of the two reads (\<open>PermissionGrantsCorrect\<close>), hence
    whatever is stored was asked for and answered (\<open>GrantedPermissionsCorrect\<close>); for writes and for
    patterns with alternatives the intersection is too wide, which is shown too.
  \<^item> Approval: forbidding rules decide, dangerous commands are never run unseen, leaving the sandbox
    takes rules for every command, unfamiliar shells gain nothing, every request is answered
    (\<open>ExecManagerCorrect\<close>); accepted rules take effect and none is lost (\<open>ExecManagerUpdates\<close>); answers
    are remembered for their keys only (\<open>ToolApprovalsCorrect\<close>); a tool runs at most twice and as
    approved, and denied reads keep it in the sandbox (\<open>ToolOrchestratorCorrect\<close>).
  \<^item> History: a rollback removes exactly its turns, readers may trust versions and revisions
    (\<open>ContextManagerCorrect\<close>, \<open>ContextManagerSteps\<close>), normalising does one thing (\<open>NormalizeCorrect\<close>),
    injected text never authorizes (\<open>ContextualTextCorrect\<close>), retained facts stay within their limits
    and are forgotten with their turn (\<open>RetainedContextCorrect\<close>), budgets hold (\<open>TruncationCorrect\<close>).
  \<^item> Output: the buffer summarises the stream, and streaming parsers do not depend on the chunks
    (\<open>HiddenTagCorrect\<close>, \<open>TaggedLineCorrect\<close>).

  \<^bold>\<open>Not modelled.\<close> The loop of a session and its tasks, the protocol servers (\<open>app-server\<close>), the user
  interface (\<open>tui\<close>), the command line, the clients of the network and the stores: input and output
  around the decisions above, over asynchronous runtimes and databases. The backends of the sandbox
  (\<open>linux-sandbox\<close>, \<open>windows-sandbox-rs\<close>, Seatbelt profiles) are instructions to operating systems. Of
  the modelled parts: compiling glob patterns (the \<open>globset\<close> crate), the legacy sandbox policies, the
  arguments of the tool that requests permissions, and telemetry.
\<close>

section \<open>The diff of a turn\<close>


definition sample_diff_ops :: "str diff_ops" where
  "sample_diff_ops = \<lparr>relative_path_from = (\<lambda>p root. None), native_path = (\<lambda>p. p),
     sha1_hex = (\<lambda>d. ZERO_OID), unified_lines = (\<lambda>l r lh rh. l @ r)\<rparr>"

definition sample_turn :: "(mem, str list) apply_env \<times> str turn_diff_tracker" where
  "sample_turn = run_turn mem_ops mem_paths mem_writeln default_options [] sample_diff_ops []
     [join [LF] sample_patch_lines] (sample_env, new_tracker [])"


end
